(* ===== verification/Toob_Prelude.thy ===== *)
theory Toob_Prelude
  imports Main "HOL-Library.Word"
begin

text \<open>
  Shared vocabulary of the development: the machine integers of the C sources as words,
  little-endian field access on byte buffers, buffer updates written the way the sources write
  them (fill a prefix, zeroize, store at an index), and the generic facts about lists and words
  that the component theories use.

  Buffers are byte lists. A C call that reads \<open>n\<close> bytes into a buffer overwrites the first
  \<open>n\<close> bytes and leaves the rest alone (\<open>fill_prefix\<close>). \<open>size_t\<close> is \<open>nat\<close> where the code
  only compares it or subtracts after a guard; 32-bit fields are \<open>32 word\<close> and wrap.
\<close>

unbundle bit_operations_syntax

section \<open>Machine integers\<close>

type_synonym u8 = "8 word"
type_synonym u16 = "16 word"
type_synonym u32 = "32 word"
type_synonym u64 = "64 word"

named_theorems buf_simps \<open>lengths and contents of updated buffers\<close>
named_theorems le_simps \<open>little-endian field reads and writes\<close>

abbreviation UINT32_MAX :: u32 where
  "UINT32_MAX \<equiv> 0xFFFFFFFF"

lemma unat_u8_lt [simp]: "unat (x :: u8) < 256"
proof -
  have "unat x < 2 ^ LENGTH(8)" by (rule unsigned_less)
  then show ?thesis by simp
qed

lemma unat_u16_lt [simp]: "unat (x :: u16) < 65536"
proof -
  have "unat x < 2 ^ LENGTH(16)" by (rule unsigned_less)
  then show ?thesis by simp
qed

lemma unat_u32_lt [simp]: "unat (x :: u32) < 4294967296"
proof -
  have "unat x < 2 ^ LENGTH(32)" by (rule unsigned_less)
  then show ?thesis by simp
qed

lemma unat_u32_max [simp]: "unat UINT32_MAX = 4294967295"
  by simp

lemma unat_u32_le_max: "unat (x :: u32) \<le> 4294967295"
  using unat_u32_lt [of x] by linarith

lemma word_le_unat: "(a :: 'a::len word) \<le> b \<longleftrightarrow> unat a \<le> unat b"
  by (simp add: word_le_nat_alt)

lemma word_less_unat: "(a :: 'a::len word) < b \<longleftrightarrow> unat a < unat b"
  by (simp add: word_less_nat_alt)

lemma word_xor_left_cancel: "(a :: 'a::len word) XOR b = a XOR c \<longleftrightarrow> b = c"
proof
  assume "a XOR b = a XOR c"
  then have "a XOR (a XOR b) = a XOR (a XOR c)" by (rule arg_cong)
  then show "b = c" by (simp flip: xor.assoc)
qed simp

text \<open>Addition and subtraction of 32-bit values that provably do not wrap.\<close>

lemma unat_add_no_wrap:
  "unat (a :: u32) + unat b < 4294967296 \<Longrightarrow> unat (a + b) = unat a + unat b"
  by (simp add: unat_word_ariths)

lemma unat_sub_no_wrap:
  "unat b \<le> unat (a :: u32) \<Longrightarrow> unat (a - b) = unat a - unat b"
  by (simp add: unat_sub word_le_nat_alt)

lemma unat_of_nat_u32:
  "n < 4294967296 \<Longrightarrow> unat (of_nat n :: u32) = n"
  by (simp add: unat_of_nat)

lemma flash_addr: "unat (a :: u32) + k < 4294967296 \<Longrightarrow> unat (a + of_nat k) = unat a + k"
  by (simp add: unat_add_no_wrap unat_of_nat_u32)

lemma u8_less_255_iff: "(c :: u8) < 0xFF \<longleftrightarrow> c \<noteq> 0xFF"
proof -
  have "unat c \<le> 255" using unat_u8_lt [of c] by linarith
  then have "c \<le> 0xFF" by (simp add: word_le_nat_alt)
  then show ?thesis by (simp add: less_le)
qed

lemma unat_u8_Suc: "(c :: u8) \<noteq> 0xFF \<Longrightarrow> unat (c + 1) = Suc (unat c)"
  using u8_less_255_iff [of c] by (simp add: word_less_nat_alt unat_word_ariths)

text \<open>Rounding up, and widening without change.\<close>

lemma nat_ceil_div:
  assumes "0 < (b :: nat)"
  shows "(a + b - Suc 0) div b = a div b + (if a mod b = 0 then 0 else 1)"
proof (cases "a mod b = 0")
  case True
  have "a = (a div b) * b + a mod b" by simp
  then have "a + b - Suc 0 = (b - 1) + (a div b) * b" using True assms by linarith
  then have "(a + b - Suc 0) div b = (b - 1) div b + a div b"
    using assms by (metis div_mult_self1 neq0_conv add.commute)
  then show ?thesis using True assms by simp
next
  case False
  have "a = a mod b + (a div b) * b" by simp
  then have "a + b - Suc 0 = (a mod b - 1) + (a div b + 1) * b" using False
    unfolding add_mult_distrib by linarith
  then have "(a + b - Suc 0) div b = a div b + 1 + (a mod b - 1) div b" using assms
    by (metis add.commute div_mult_self1 neq0_conv)
  moreover have "a mod b - 1 < b" using mod_less_divisor [OF assms, of a] by linarith
  ultimately show ?thesis using False by simp
qed

lemma nat_ceil_cover:
  assumes "0 < (b :: nat)"
  shows "a \<le> (a + b - Suc 0) div b * b"
    and "0 < a \<Longrightarrow> ((a + b - Suc 0) div b - 1) * b < a"
    and "0 < a \<Longrightarrow> 0 < (a + b - Suc 0) div b"
proof -
  have d: "a div b * b + a mod b = a" by simp
  have m: "a mod b < b" using assms by simp
  have e: "(a div b + 1) * b = a div b * b + b" by simp
  have "a \<le> (a div b + 1) * b" unfolding e using d m by linarith
  moreover have "a mod b = 0 \<Longrightarrow> a \<le> a div b * b" using d by linarith
  ultimately show c: "a \<le> (a + b - Suc 0) div b * b"
    unfolding nat_ceil_div [OF assms] by simp
  have "0 < a mod b \<Longrightarrow> b * (a div b) < a" using d by (subst mult.commute) linarith
  then show "0 < a \<Longrightarrow> ((a + b - Suc 0) div b - 1) * b < a"
    unfolding nat_ceil_div [OF assms] using assms
    by (cases "a mod b = 0") (auto simp: algebra_simps diff_mult_distrib)
  show "0 < a \<Longrightarrow> 0 < (a + b - Suc 0) div b" using c by (cases "(a + b - Suc 0) div b") auto
qed

lemma unat_ceil_u32:
  assumes "(b :: u32) \<noteq> 0"
  shows "unat (a div b + (if a mod b \<noteq> 0 then 1 else 0)) = (unat a + unat b - 1) div unat b"
proof -
  have b: "0 < unat b" using assms by (simp add: unat_gt_0)
  have z: "a mod b = 0 \<longleftrightarrow> unat a mod unat b = 0"
    by (simp add: word_unat_eq_iff unat_mod_distrib)
  show ?thesis
  proof (cases "a mod b = 0")
    case True
    then show ?thesis using z by (simp add: nat_ceil_div [OF b] unat_div_distrib)
  next
    case False
    then have "unat b \<noteq> 1" using z by auto
    then have b2: "2 \<le> unat b" using b by linarith
    have "unat a div unat b \<le> unat a div 2" by (rule div_le_mono2) (use b2 in auto)
    then have "unat a div unat b + 1 < 4294967296" using unat_u32_le_max [of a] by linarith
    then have "unat (a div b + 1) = unat a div unat b + 1"
      by (simp add: unat_div_distrib unat_add_no_wrap)
    then show ?thesis using False z by (simp add: nat_ceil_div [OF b])
  qed
qed

lemma unat_ucast_u8_u32 [simp]: "unat (ucast (w :: u8) :: u32) = unat w"
proof -
  have "unat w < 2 ^ 32" using unat_u8_lt [of w] by (rule order.strict_trans) simp
  then show ?thesis by (simp add: unsigned_ucast_eq take_bit_nat_eq_self)
qed

lemma ucast_u8_eq_0: "(ucast (x :: u8) :: u32) = 0 \<longleftrightarrow> x = 0"
  by (metis unat_ucast_u8_u32 unat_eq_0 unsigned_0)

lemma unat_ucast_u32_u64 [simp]: "unat (ucast (w :: u32) :: u64) = unat w"
proof -
  have "unat w < 2 ^ 64" using unat_u32_le_max [of w] by simp
  then show ?thesis by (simp add: unsigned_ucast_eq take_bit_nat_eq_self)
qed

section \<open>Buffers\<close>

text \<open>\<open>memcpy(buf, src, n)\<close> into the start of a larger buffer.\<close>

definition fill_prefix :: "'a list \<Rightarrow> 'a list \<Rightarrow> 'a list" where
  "fill_prefix src buf = src @ drop (length src) buf"

text \<open>\<open>boot_secure_zeroize(buf, len)\<close> over a whole buffer.\<close>

definition zeroed :: "nat \<Rightarrow> u8 list" where
  "zeroed n = replicate n 0"

lemma length_fill_prefix [simp, buf_simps]:
  "length src \<le> length buf \<Longrightarrow> length (fill_prefix src buf) = length buf"
  by (simp add: fill_prefix_def)

lemma take_fill_prefix [simp, buf_simps]:
  "take (length src) (fill_prefix src buf) = src"
  by (simp add: fill_prefix_def)

lemma take_fill_prefix_n [buf_simps]:
  "length src = n \<Longrightarrow> take n (fill_prefix src buf) = src"
  by (simp add: fill_prefix_def)

lemma length_zeroed [simp, buf_simps]: "length (zeroed n) = n"
  by (simp add: zeroed_def)

lemma replicate_numeral: "replicate (numeral k) x = x # replicate (pred_numeral k) x"
  by (simp add: numeral_eq_Suc)

lemma set_zeroed: "set (zeroed n) \<subseteq> {0}"
  by (auto simp: zeroed_def)

text \<open>A window of a byte image.\<close>

definition slice_of :: "nat \<Rightarrow> nat \<Rightarrow> 'a list \<Rightarrow> 'a list" where
  "slice_of off n xs = take n (drop off xs)"

lemma length_slice_of [simp, buf_simps]:
  "off + n \<le> length xs \<Longrightarrow> length (slice_of off n xs) = n"
  by (simp add: slice_of_def)

lemma slice_of_0 [simp]: "slice_of off 0 xs = []"
  by (simp add: slice_of_def)

lemma slice_of_append:
  "slice_of off n xs @ slice_of (off + n) m xs = slice_of off (n + m) xs"
  by (simp add: slice_of_def take_add add.commute [of off])

lemma slice_of_split:
  "k \<le> n \<Longrightarrow> slice_of off n xs = slice_of off k xs @ slice_of (off + k) (n - k) xs"
  by (simp add: slice_of_append)

lemma nth_slice_of:
  "i < n \<Longrightarrow> off + i < length xs \<Longrightarrow> slice_of off n xs ! i = xs ! (off + i)"
  by (simp add: slice_of_def)

lemma slice_of_slice_of:
  "i + k \<le> n \<Longrightarrow> slice_of i k (slice_of off n xs) = slice_of (off + i) k xs"
  by (simp add: slice_of_def drop_take min_def add.commute)

lemma slice_of_prefix: "k \<le> n \<Longrightarrow> slice_of off k xs = take k (slice_of off n xs)"
  by (simp add: slice_of_def min_def)

text \<open>Overwriting a window of a byte image.\<close>

definition patch :: "nat \<Rightarrow> 'a list \<Rightarrow> 'a list \<Rightarrow> 'a list" where
  "patch off new xs = take off xs @ new @ drop (off + length new) xs"

lemma length_patch [simp, buf_simps]:
  "off + length new \<le> length xs \<Longrightarrow> length (patch off new xs) = length xs"
  by (simp add: patch_def)

lemma slice_of_patch_same [buf_simps]:
  "off + length new \<le> length xs \<Longrightarrow> slice_of off (length new) (patch off new xs) = new"
  by (simp add: patch_def slice_of_def)

lemma nth_patch:
  assumes "off + length new \<le> length xs" and "i < length xs"
  shows "patch off new xs ! i =
    (if off \<le> i \<and> i < off + length new then new ! (i - off) else xs ! i)"
  using assms by (auto simp: patch_def nth_append)

lemma slice_of_patch_other [buf_simps]:
  assumes "off + length new \<le> length xs" and "a + n \<le> length xs"
    and "a + n \<le> off \<or> off + length new \<le> a"
  shows "slice_of a n (patch off new xs) = slice_of a n xs"
proof (rule nth_equalityI)
  show "length (slice_of a n (patch off new xs)) = length (slice_of a n xs)"
    using assms by simp
next
  fix i assume "i < length (slice_of a n (patch off new xs))"
  then have "i < n" using assms by simp
  then show "slice_of a n (patch off new xs) ! i = slice_of a n xs ! i"
    using assms by (simp add: nth_slice_of nth_patch; fastforce)
qed

lemma patch_patch_next:
  assumes "off + length a + length b \<le> length xs"
  shows "patch (off + length a) b (patch off a xs) = patch off (a @ b) xs"
  using assms by (cases a) (auto simp: patch_def min_def add.commute add.left_commute)

lemma patch_patch_same:
  "length a = length b \<Longrightarrow> off + length a \<le> length xs \<Longrightarrow> patch off b (patch off a xs) = patch off b xs"
  by (simp add: patch_def)

lemma patch_slice_id:
  "off + n \<le> length xs \<Longrightarrow> patch off (slice_of off n xs) xs = xs"
  by (simp add: patch_def slice_of_def flip: append_assoc take_add)

lemma patch_nil [simp]: "patch off [] xs = xs"
  by (simp add: patch_def)

text \<open>\<open>ys\<close> differs from \<open>xs\<close> at most in the window of \<open>n\<close> bytes at \<open>off\<close>.\<close>

definition touches :: "nat \<Rightarrow> nat \<Rightarrow> 'a list \<Rightarrow> 'a list \<Rightarrow> bool" where
  "touches off n xs ys \<longleftrightarrow> length ys = length xs \<and>
     (\<forall>i < length xs. i < off \<or> off + n \<le> i \<longrightarrow> ys ! i = xs ! i)"

lemma touches_refl [simp]: "touches off n xs xs"
  by (simp add: touches_def)

lemma touches_length: "touches off n xs ys \<Longrightarrow> length ys = length xs"
  by (simp add: touches_def)

lemma touches_trans: "touches off n xs ys \<Longrightarrow> touches off n ys zs \<Longrightarrow> touches off n xs zs"
  by (simp add: touches_def)

lemma touches_mono: "touches off n xs ys \<Longrightarrow> a \<le> off \<Longrightarrow> off + n \<le> a + m \<Longrightarrow> touches a m xs ys"
  by (simp add: touches_def)

lemma touches_patch: "off + length new \<le> length xs \<Longrightarrow> touches off (length new) xs (patch off new xs)"
  by (simp add: touches_def nth_patch)

lemma slice_of_touches:
  assumes "touches off n xs ys" and "a + k \<le> length xs" and "a + k \<le> off \<or> off + n \<le> a"
  shows "slice_of a k ys = slice_of a k xs"
proof (rule nth_equalityI)
  show "length (slice_of a k ys) = length (slice_of a k xs)"
    using assms by (simp add: touches_def)
next
  fix i assume "i < length (slice_of a k ys)"
  then have "i < k" using assms by (simp add: touches_def)
  then show "slice_of a k ys ! i = slice_of a k xs ! i"
    using assms by (auto simp: nth_slice_of touches_def)
qed

text \<open>\<open>ys\<close> differs from \<open>xs\<close> at most at the addresses in \<open>A\<close>.\<close>

definition changes :: "nat set \<Rightarrow> 'a list \<Rightarrow> 'a list \<Rightarrow> bool" where
  "changes A xs ys \<longleftrightarrow> length ys = length xs \<and> (\<forall>i < length xs. i \<notin> A \<longrightarrow> ys ! i = xs ! i)"

lemma changes_refl [simp]: "changes A xs xs"
  by (simp add: changes_def)

lemma changes_trans: "changes A xs ys \<Longrightarrow> changes A ys zs \<Longrightarrow> changes A xs zs"
  by (simp add: changes_def)

lemma changes_mono: "changes A xs ys \<Longrightarrow> A \<subseteq> B \<Longrightarrow> changes B xs ys"
  by (auto simp: changes_def)

lemma touches_changes: "touches off n xs ys \<Longrightarrow> {off..<off + n} \<subseteq> A \<Longrightarrow> changes A xs ys"
  by (auto simp: changes_def touches_def subset_iff not_less)

lemma slice_of_changes:
  assumes "changes A xs ys" and "a + k \<le> length xs" and "{a..<a + k} \<inter> A = {}"
  shows "slice_of a k ys = slice_of a k xs"
proof (rule nth_equalityI)
  show "length (slice_of a k ys) = length (slice_of a k xs)"
    using assms by (simp add: changes_def)
next
  fix i assume "i < length (slice_of a k ys)"
  then have "i < k" using assms by (simp add: changes_def)
  moreover from this have "a + i \<in> {a..<a + k}" by simp
  then have "a + i \<notin> A" using assms(3) by blast
  ultimately show "slice_of a k ys ! i = slice_of a k xs ! i"
    using assms by (auto simp: nth_slice_of changes_def)
qed

lemma length_concat_blocks:
  "\<forall>x \<in> set xs. length x = n \<Longrightarrow> length (concat xs) = n * length xs"
  by (induction xs) auto

lemma slice_concat_blocks:
  "\<forall>x \<in> set xs. length x = n \<Longrightarrow> i < length xs \<Longrightarrow> slice_of (n * i) n (concat xs) = xs ! i"
proof (induction xs arbitrary: i)
  case (Cons x xs)
  then show ?case by (cases i) (simp_all add: slice_of_def)
qed simp

section \<open>Little-endian fields\<close>

text \<open>
  The targets are little-endian: reading a \<open>uint16_t\<close>, \<open>uint32_t\<close> or \<open>uint64_t\<close> member of a
  packed struct through a pointer cast reads the bytes in this order.
\<close>

definition le16 :: "u8 list \<Rightarrow> u16" where
  "le16 bs = ucast (bs ! 0) OR push_bit 8 (ucast (bs ! 1))"

definition le32 :: "u8 list \<Rightarrow> u32" where
  "le32 bs = ucast (bs ! 0) OR push_bit 8 (ucast (bs ! 1)) OR
     push_bit 16 (ucast (bs ! 2)) OR push_bit 24 (ucast (bs ! 3))"

definition rd8 :: "nat \<Rightarrow> u8 list \<Rightarrow> u8" where
  "rd8 off bs = bs ! off"

definition rd16 :: "nat \<Rightarrow> u8 list \<Rightarrow> u16" where
  "rd16 off bs = le16 (drop off bs)"

definition rd32 :: "nat \<Rightarrow> u8 list \<Rightarrow> u32" where
  "rd32 off bs = le32 (drop off bs)"

definition to_le16 :: "u16 \<Rightarrow> u8 list" where
  "to_le16 w = [ucast w, ucast (drop_bit 8 w)]"

definition to_le32 :: "u32 \<Rightarrow> u8 list" where
  "to_le32 w = [ucast w, ucast (drop_bit 8 w), ucast (drop_bit 16 w), ucast (drop_bit 24 w)]"

definition to_le64 :: "u64 \<Rightarrow> u8 list" where
  "to_le64 w = to_le32 (ucast w) @ to_le32 (ucast (drop_bit 32 w))"

lemma length_to_le [simp]:
  "length (to_le16 a) = 2" "length (to_le32 b) = 4" "length (to_le64 c) = 8"
  by (simp_all add: to_le16_def to_le32_def to_le64_def)

lemma le16_to_le16 [simp, le_simps]: "le16 (to_le16 w @ r) = w"
proof (rule bit_word_eqI)
  fix n assume "n < LENGTH(16)"
  then consider "n < 8" | "8 \<le> n \<and> n < 16" by fastforce
  then show "bit (le16 (to_le16 w @ r)) n = bit w n"
    by cases (auto simp: le16_def to_le16_def bit_or_iff bit_push_bit_iff bit_ucast_iff
        bit_drop_bit_eq)
qed

lemma le32_to_le32 [simp, le_simps]: "le32 (to_le32 w @ r) = w"
proof (rule bit_word_eqI)
  fix n assume "n < LENGTH(32)"
  then consider "n < 8" | "8 \<le> n \<and> n < 16" | "16 \<le> n \<and> n < 24" | "24 \<le> n \<and> n < 32"
    by fastforce
  then show "bit (le32 (to_le32 w @ r)) n = bit w n"
    by cases (auto simp: le32_def to_le32_def bit_or_iff bit_push_bit_iff bit_ucast_iff
        bit_drop_bit_eq)
qed

lemma rd32_append [le_simps]: "length pre = off \<Longrightarrow> rd32 off (pre @ to_le32 w @ r) = w"
  by (simp add: rd32_def)

lemma rd16_append [le_simps]: "length pre = off \<Longrightarrow> rd16 off (pre @ to_le16 w @ r) = w"
  by (simp add: rd16_def)

end
