(* ===== verification/Boot_Types.thy ===== *)
theory Boot_Types
  imports Toob_Prelude
begin

text \<open>
  The status codes, reset reasons and fault-injection checks every component shares:
  \<open>common/include/boot_types.h\<close> and \<open>toobloader/core/utils/include/boot_fih.h\<close>.
  The enum \<open>boot_status_t\<close> is a datatype with the source's constants; \<open>status_code\<close> gives the
  32-bit pattern the C enum assigns to each.
\<close>

section \<open>Status codes\<close>

datatype boot_status =
    BOOT_OK
  | BOOT_ERR_FLASH | BOOT_ERR_FLASH_ALIGN | BOOT_ERR_FLASH_BOUNDS | BOOT_ERR_CRYPTO
  | BOOT_ERR_VERIFY | BOOT_ERR_TIMEOUT | BOOT_ERR_POWER | BOOT_ERR_NOT_SUPPORTED
  | BOOT_ERR_INVALID_ARG | BOOT_ERR_STATE | BOOT_ERR_FLASH_NOT_ERASED
  | BOOT_ERR_COUNTER_EXHAUSTED | BOOT_ERR_DEFER | BOOT_ERR_ECC_HARDFAULT | BOOT_ERR_FLASH_HW
  | BOOT_ERR_NOT_FOUND | BOOT_ERR_WDT_TRIGGER | BOOT_ERR_INVALID_STATE | BOOT_ERR_WAL_FULL
  | BOOT_ERR_WAL_LOCKED | BOOT_RECOVERY_REQUESTED | BOOT_ERR_ABI_MISMATCH | BOOT_ERR_DOWNGRADE
  | BOOT_ERR_DEVICE_LOCKED | BOOT_ERR_CMD_REPLAY | BOOT_ERR_CMD_DEVICE_MISMATCH
  | BOOT_ERR_MANIFEST_CORRUPT | BOOT_ERR_MANIFEST_VERSION | BOOT_ERR_MANIFEST_PRODUCT

fun status_code :: "boot_status \<Rightarrow> u32" where
  "status_code BOOT_OK = 0x55AA55AA"
| "status_code BOOT_ERR_FLASH = 0xE1A1A1A1"
| "status_code BOOT_ERR_FLASH_ALIGN = 0xE2B2B2B2"
| "status_code BOOT_ERR_FLASH_BOUNDS = 0xE3C3C3C3"
| "status_code BOOT_ERR_CRYPTO = 0xE4D4D4D4"
| "status_code BOOT_ERR_VERIFY = 0xE5E5E5E5"
| "status_code BOOT_ERR_TIMEOUT = 0xE6F6F6F6"
| "status_code BOOT_ERR_POWER = 0xE7171717"
| "status_code BOOT_ERR_NOT_SUPPORTED = 0xE8282828"
| "status_code BOOT_ERR_INVALID_ARG = 0xE9393939"
| "status_code BOOT_ERR_STATE = 0xEA4A4A4A"
| "status_code BOOT_ERR_FLASH_NOT_ERASED = 0xEB5B5B5B"
| "status_code BOOT_ERR_COUNTER_EXHAUSTED = 0xEC6C6C6C"
| "status_code BOOT_ERR_DEFER = 0xEC7C7C7C"
| "status_code BOOT_ERR_ECC_HARDFAULT = 0xED7D7D7D"
| "status_code BOOT_ERR_FLASH_HW = 0xEE8E8E8E"
| "status_code BOOT_ERR_NOT_FOUND = 0xF1818181"
| "status_code BOOT_ERR_WDT_TRIGGER = 0xF2929292"
| "status_code BOOT_ERR_INVALID_STATE = 0xF3A3A3A3"
| "status_code BOOT_ERR_WAL_FULL = 0xF4B4B4B4"
| "status_code BOOT_ERR_WAL_LOCKED = 0xF5C5C5C5"
| "status_code BOOT_RECOVERY_REQUESTED = 0xF6D6D6D6"
| "status_code BOOT_ERR_ABI_MISMATCH = 0xF7E7E7E7"
| "status_code BOOT_ERR_DOWNGRADE = 0xF8F8F8F8"
| "status_code BOOT_ERR_DEVICE_LOCKED = 0xF9090909"
| "status_code BOOT_ERR_CMD_REPLAY = 0xFA1A1A1A"
| "status_code BOOT_ERR_CMD_DEVICE_MISMATCH = 0xFB2B2B2B"
| "status_code BOOT_ERR_MANIFEST_CORRUPT = 0xFC3C3C3C"
| "status_code BOOT_ERR_MANIFEST_VERSION = 0xFC4D4D4D"
| "status_code BOOT_ERR_MANIFEST_PRODUCT = 0xFC5E5E5E"

lemma status_code_inject [simp]: "status_code a = status_code b \<longleftrightarrow> a = b"
  by (cases a; cases b) simp_all

text \<open>The C enum compares by its integer value; so does the order on the datatype.\<close>

instantiation boot_status :: linorder
begin

definition less_eq_boot_status :: "boot_status \<Rightarrow> boot_status \<Rightarrow> bool" where
  "less_eq_boot_status a b \<longleftrightarrow> status_code a \<le> status_code b"

definition less_boot_status :: "boot_status \<Rightarrow> boot_status \<Rightarrow> bool" where
  "less_boot_status a b \<longleftrightarrow> status_code a < status_code b"

instance
proof
  fix x y z :: boot_status
  show "(x < y) = (x \<le> y \<and> \<not> y \<le> x)"
    by (simp add: less_eq_boot_status_def less_boot_status_def less_le_not_le)
  show "x \<le> x" by (simp add: less_eq_boot_status_def)
  show "x \<le> y \<Longrightarrow> y \<le> z \<Longrightarrow> x \<le> z"
    unfolding less_eq_boot_status_def by (rule order_trans)
  show "x \<le> y \<Longrightarrow> y \<le> x \<Longrightarrow> x = y"
    unfolding less_eq_boot_status_def using status_code_inject by (metis order_antisym)
  show "x \<le> y \<or> y \<le> x"
    unfolding less_eq_boot_status_def by (rule linear)
qed

end

fun boot_error_is_rejectable :: "boot_status \<Rightarrow> bool" where
  "boot_error_is_rejectable BOOT_ERR_VERIFY = True"
| "boot_error_is_rejectable BOOT_ERR_DOWNGRADE = True"
| "boot_error_is_rejectable BOOT_ERR_INVALID_ARG = True"
| "boot_error_is_rejectable BOOT_ERR_FLASH_BOUNDS = True"
| "boot_error_is_rejectable BOOT_ERR_INVALID_STATE = True"
| "boot_error_is_rejectable BOOT_ERR_NOT_FOUND = True"
| "boot_error_is_rejectable BOOT_ERR_DEFER = True"
| "boot_error_is_rejectable _ = False"

datatype reset_reason =
    RESET_REASON_UNKNOWN | RESET_REASON_POWER_ON | RESET_REASON_PIN_RESET
  | RESET_REASON_WATCHDOG | RESET_REASON_BROWNOUT | RESET_REASON_SOFTWARE
  | RESET_REASON_HARD_FAULT

section \<open>Glitch-protected checks\<close>

text \<open>
  \<open>BOOT_SECURE_REQUIRE(expr, on_fault)\<close> evaluates its condition twice into two status words
  and takes the fault branch unless both read \<open>BOOT_OK\<close>. The condition has no side effects, so
  the two evaluations are given as \<open>e1\<close> and \<open>e2\<close>; on fault-free hardware they are equal.
  \<open>inject\<close> is \<open>should_inject_fault()\<close>, constantly false outside the mock build. The result is
  whether execution continues after the macro.
\<close>

definition secure_require2 :: "bool \<Rightarrow> bool \<Rightarrow> bool \<Rightarrow> bool" where
  "secure_require2 inject e1 e2 =
     (let s1 = (if e1 \<and> \<not> inject then status_code BOOT_OK else 0);
          s2 = (if s1 = status_code BOOT_OK \<and> e2 \<and> \<not> inject then status_code BOOT_OK else 0)
      in \<not> (s1 \<noteq> status_code BOOT_OK \<or> s2 \<noteq> status_code BOOT_OK \<or> s1 \<noteq> s2))"

definition secure_require :: "bool \<Rightarrow> bool" where
  "secure_require e = secure_require2 False e e"

definition boot_secure_confirm_impl :: "boot_status \<Rightarrow> bool \<Rightarrow> boot_status" where
  "boot_secure_confirm_impl one_shot inject =
     (let s1 = (if one_shot = BOOT_OK \<and> \<not> inject then status_code BOOT_OK else 0);
          s2 = (if s1 = status_code BOOT_OK \<and> one_shot = BOOT_OK \<and> \<not> inject
                then status_code BOOT_OK else 0)
      in if s1 = status_code BOOT_OK \<and> s2 = status_code BOOT_OK \<and> s1 = s2
         then BOOT_OK else BOOT_ERR_VERIFY)"

lemma secure_require2_iff: "secure_require2 inject e1 e2 \<longleftrightarrow> e1 \<and> e2 \<and> \<not> inject"
  by (auto simp: secure_require2_def)

lemma secure_require_iff [simp]: "secure_require e \<longleftrightarrow> e"
  by (simp add: secure_require_def secure_require2_iff)

lemma boot_secure_confirm_iff:
  "boot_secure_confirm_impl st inject = (if st = BOOT_OK \<and> \<not> inject then BOOT_OK else BOOT_ERR_VERIFY)"
  by (simp add: boot_secure_confirm_impl_def)

section \<open>Control-flow-integrity tokens\<close>

text \<open>
  \<open>cfi_derive\<close> (\<open>boot_ct_utils.h\<close>) derives a token from the per-boot seed and a slot index; the
  macros of \<open>boot_fih.h\<close> XOR the tokens of the executed steps into \<open>current_val\<close> and those of
  the planned steps into \<open>expected_val\<close>.
\<close>

definition cfi_derive :: "u32 \<Rightarrow> u8 \<Rightarrow> u32" where
  "cfi_derive seed slot =
     (let h = seed XOR (ucast slot * 0x9E3779B9);
          h = h XOR drop_bit 16 h;
          h = h * 0x45D9F3B;
          h = h XOR drop_bit 16 h
      in h OR 1)"

record boot_cfi_ctx =
  cfi_seed :: u32
  cfi_current_val :: u32
  cfi_expected_val :: u32

definition boot_cfi_init :: "u32 \<Rightarrow> boot_cfi_ctx" where
  "boot_cfi_init seed = \<lparr> cfi_seed = seed, cfi_current_val = cfi_derive seed 0,
     cfi_expected_val = cfi_derive seed 0 \<rparr>"

definition boot_cfi_step :: "u8 \<Rightarrow> boot_cfi_ctx \<Rightarrow> boot_cfi_ctx" where
  "boot_cfi_step slot c = c\<lparr> cfi_current_val := cfi_current_val c XOR cfi_derive (cfi_seed c) slot \<rparr>"

definition boot_cfi_add_expected :: "u8 \<Rightarrow> boot_cfi_ctx \<Rightarrow> boot_cfi_ctx" where
  "boot_cfi_add_expected slot c =
     c\<lparr> cfi_expected_val := cfi_expected_val c XOR cfi_derive (cfi_seed c) slot \<rparr>"

definition boot_cfi_require :: "bool \<Rightarrow> boot_cfi_ctx \<Rightarrow> bool" where
  "boot_cfi_require inject c =
     secure_require2 inject (cfi_current_val c = cfi_expected_val c)
       (cfi_current_val c = cfi_expected_val c)"

lemma cfi_derive_odd: "bit (cfi_derive seed slot) 0"
  by (simp add: cfi_derive_def Let_def bit_or_iff)

lemma cfi_derive_nonzero: "cfi_derive seed slot \<noteq> 0"
  using cfi_derive_odd [of seed slot] by auto

lemma boot_cfi_require_iff:
  "boot_cfi_require inject c \<longleftrightarrow> cfi_current_val c = cfi_expected_val c \<and> \<not> inject"
  by (auto simp: boot_cfi_require_def secure_require2_iff)

lemma cfi_seed_simps [simp]:
  "cfi_seed (boot_cfi_init seed) = seed"
  "cfi_seed (boot_cfi_step k c) = cfi_seed c"
  "cfi_seed (boot_cfi_add_expected k c) = cfi_seed c"
  by (simp_all add: boot_cfi_init_def boot_cfi_step_def boot_cfi_add_expected_def)

text \<open>Both accumulators in terms of the list of slots visited.\<close>

definition cfi_xor :: "u32 \<Rightarrow> u8 list \<Rightarrow> u32" where
  "cfi_xor seed slots = foldr (\<lambda>k acc. cfi_derive seed k XOR acc) slots 0"

lemma cfi_xor_simps [simp]:
  "cfi_xor seed [] = 0"
  "cfi_xor seed (k # ks) = cfi_derive seed k XOR cfi_xor seed ks"
  by (simp_all add: cfi_xor_def)

lemma cfi_step_fold:
  "cfi_current_val (fold boot_cfi_step ks c) = cfi_current_val c XOR cfi_xor (cfi_seed c) ks \<and>
   cfi_expected_val (fold boot_cfi_step ks c) = cfi_expected_val c \<and>
   cfi_seed (fold boot_cfi_step ks c) = cfi_seed c"
  by (induction ks arbitrary: c) (simp_all add: boot_cfi_step_def ac_simps)

lemma cfi_expected_fold:
  "cfi_expected_val (fold boot_cfi_add_expected ks c) =
     cfi_expected_val c XOR cfi_xor (cfi_seed c) ks \<and>
   cfi_current_val (fold boot_cfi_add_expected ks c) = cfi_current_val c \<and>
   cfi_seed (fold boot_cfi_add_expected ks c) = cfi_seed c"
  by (induction ks arbitrary: c) (simp_all add: boot_cfi_add_expected_def ac_simps)

text \<open>The parity of the number of executed steps is visible in bit 0 of the accumulator.\<close>

lemma cfi_xor_bit0: "bit (cfi_xor seed ks) 0 \<longleftrightarrow> odd (length ks)"
  by (induction ks) (auto simp: bit_xor_iff cfi_derive_odd simp del: bit_0)

text \<open>
  C23. A control flow that plans the slots \<open>plan\<close> and executes the slots \<open>run\<close> passes
  \<open>boot_cfi_require\<close> exactly when the XOR of the executed tokens equals that of the planned
  ones and no fault is injected.
\<close>

lemma cfi_require_plan:
  "boot_cfi_require inject (fold boot_cfi_step run (fold boot_cfi_add_expected plan (boot_cfi_init seed)))
     \<longleftrightarrow> cfi_xor seed run = cfi_xor seed plan \<and> \<not> inject"
proof -
  let ?c0 = "boot_cfi_init seed"
  let ?c1 = "fold boot_cfi_add_expected plan ?c0"
  have "cfi_current_val (fold boot_cfi_step run ?c1) = cfi_derive seed 0 XOR cfi_xor seed run"
    "cfi_expected_val (fold boot_cfi_step run ?c1) = cfi_derive seed 0 XOR cfi_xor seed plan"
    using cfi_step_fold [of run ?c1] cfi_expected_fold [of plan ?c0]
    by (simp_all add: boot_cfi_init_def)
  then show ?thesis
    by (simp add: boot_cfi_require_iff word_xor_left_cancel)
qed

end
