(* ===== verification/Boot_Crc32.thy ===== *)
theory Boot_Crc32
  imports Boot_Types
begin

text \<open>
  CRC-32 on both sides of the flash: the table-less byte-at-a-time variant of the boot core
  (\<open>toobloader/core/utils/boot_crc32.c\<close>) and the 1 KB table variant of the OS library
  (\<open>sdk/libtoob/toob_crc32.c\<close>), with the constants of \<open>common/include/toob_crc32_contract.h\<close>.
\<close>

section \<open>Constants of the contract\<close>

definition TOOB_CRC32_POLY :: u32 where "TOOB_CRC32_POLY = 0xEDB88320"
definition TOOB_CRC32_INIT :: u32 where "TOOB_CRC32_INIT = 0xFFFFFFFF"
definition TOOB_CRC32_FINAL_XOR :: u32 where "TOOB_CRC32_FINAL_XOR = 0xFFFFFFFF"

section \<open>The core's bitwise variant\<close>

text \<open>One iteration of the inner loop, then the eight iterations of \<open>crc32_byte\<close>.\<close>

definition crc32_bit :: "u32 \<Rightarrow> u32" where
  "crc32_bit crc = drop_bit 1 crc XOR (TOOB_CRC32_POLY AND (- (crc AND 1)))"

definition crc32_byte :: "u32 \<Rightarrow> u8 \<Rightarrow> u32" where
  "crc32_byte crc val = (crc32_bit ^^ 8) (crc XOR ucast val)"

fun boot_crc32_update :: "u32 \<Rightarrow> u8 list \<Rightarrow> u32" where
  "boot_crc32_update crc [] = crc"
| "boot_crc32_update crc (b # bs) = boot_crc32_update (crc32_byte crc b) bs"

definition compute_boot_crc32 :: "u8 list \<Rightarrow> u32" where
  "compute_boot_crc32 data = boot_crc32_update TOOB_CRC32_INIT data XOR TOOB_CRC32_FINAL_XOR"

fun boot_crc32_fill :: "u32 \<Rightarrow> u8 \<Rightarrow> nat \<Rightarrow> u32" where
  "boot_crc32_fill crc val 0 = crc"
| "boot_crc32_fill crc val (Suc n) = boot_crc32_fill (crc32_byte crc val) val n"

section \<open>The OS library's table variant\<close>

definition toob_crc32_table :: "u32 list" where
  "toob_crc32_table = [
     0x0, 0x77073096, 0xEE0E612C, 0x990951BA, 0x76DC419, 0x706AF48F, 0xE963A535, 0x9E6495A3,
     0xEDB8832, 0x79DCB8A4, 0xE0D5E91E, 0x97D2D988, 0x9B64C2B, 0x7EB17CBD, 0xE7B82D07, 0x90BF1D91,
     0x1DB71064, 0x6AB020F2, 0xF3B97148, 0x84BE41DE, 0x1ADAD47D, 0x6DDDE4EB, 0xF4D4B551, 0x83D385C7,
     0x136C9856, 0x646BA8C0, 0xFD62F97A, 0x8A65C9EC, 0x14015C4F, 0x63066CD9, 0xFA0F3D63, 0x8D080DF5,
     0x3B6E20C8, 0x4C69105E, 0xD56041E4, 0xA2677172, 0x3C03E4D1, 0x4B04D447, 0xD20D85FD, 0xA50AB56B,
     0x35B5A8FA, 0x42B2986C, 0xDBBBC9D6, 0xACBCF940, 0x32D86CE3, 0x45DF5C75, 0xDCD60DCF, 0xABD13D59,
     0x26D930AC, 0x51DE003A, 0xC8D75180, 0xBFD06116, 0x21B4F4B5, 0x56B3C423, 0xCFBA9599, 0xB8BDA50F,
     0x2802B89E, 0x5F058808, 0xC60CD9B2, 0xB10BE924, 0x2F6F7C87, 0x58684C11, 0xC1611DAB, 0xB6662D3D,
     0x76DC4190, 0x1DB7106, 0x98D220BC, 0xEFD5102A, 0x71B18589, 0x6B6B51F, 0x9FBFE4A5, 0xE8B8D433,
     0x7807C9A2, 0xF00F934, 0x9609A88E, 0xE10E9818, 0x7F6A0DBB, 0x86D3D2D, 0x91646C97, 0xE6635C01,
     0x6B6B51F4, 0x1C6C6162, 0x856530D8, 0xF262004E, 0x6C0695ED, 0x1B01A57B, 0x8208F4C1, 0xF50FC457,
     0x65B0D9C6, 0x12B7E950, 0x8BBEB8EA, 0xFCB9887C, 0x62DD1DDF, 0x15DA2D49, 0x8CD37CF3, 0xFBD44C65,
     0x4DB26158, 0x3AB551CE, 0xA3BC0074, 0xD4BB30E2, 0x4ADFA541, 0x3DD895D7, 0xA4D1C46D, 0xD3D6F4FB,
     0x4369E96A, 0x346ED9FC, 0xAD678846, 0xDA60B8D0, 0x44042D73, 0x33031DE5, 0xAA0A4C5F, 0xDD0D7CC9,
     0x5005713C, 0x270241AA, 0xBE0B1010, 0xC90C2086, 0x5768B525, 0x206F85B3, 0xB966D409, 0xCE61E49F,
     0x5EDEF90E, 0x29D9C998, 0xB0D09822, 0xC7D7A8B4, 0x59B33D17, 0x2EB40D81, 0xB7BD5C3B, 0xC0BA6CAD,
     0xEDB88320, 0x9ABFB3B6, 0x3B6E20C, 0x74B1D29A, 0xEAD54739, 0x9DD277AF, 0x4DB2615, 0x73DC1683,
     0xE3630B12, 0x94643B84, 0xD6D6A3E, 0x7A6A5AA8, 0xE40ECF0B, 0x9309FF9D, 0xA00AE27, 0x7D079EB1,
     0xF00F9344, 0x8708A3D2, 0x1E01F268, 0x6906C2FE, 0xF762575D, 0x806567CB, 0x196C3671, 0x6E6B06E7,
     0xFED41B76, 0x89D32BE0, 0x10DA7A5A, 0x67DD4ACC, 0xF9B9DF6F, 0x8EBEEFF9, 0x17B7BE43, 0x60B08ED5,
     0xD6D6A3E8, 0xA1D1937E, 0x38D8C2C4, 0x4FDFF252, 0xD1BB67F1, 0xA6BC5767, 0x3FB506DD, 0x48B2364B,
     0xD80D2BDA, 0xAF0A1B4C, 0x36034AF6, 0x41047A60, 0xDF60EFC3, 0xA867DF55, 0x316E8EEF, 0x4669BE79,
     0xCB61B38C, 0xBC66831A, 0x256FD2A0, 0x5268E236, 0xCC0C7795, 0xBB0B4703, 0x220216B9, 0x5505262F,
     0xC5BA3BBE, 0xB2BD0B28, 0x2BB45A92, 0x5CB36A04, 0xC2D7FFA7, 0xB5D0CF31, 0x2CD99E8B, 0x5BDEAE1D,
     0x9B64C2B0, 0xEC63F226, 0x756AA39C, 0x26D930A, 0x9C0906A9, 0xEB0E363F, 0x72076785, 0x5005713,
     0x95BF4A82, 0xE2B87A14, 0x7BB12BAE, 0xCB61B38, 0x92D28E9B, 0xE5D5BE0D, 0x7CDCEFB7, 0xBDBDF21,
     0x86D3D2D4, 0xF1D4E242, 0x68DDB3F8, 0x1FDA836E, 0x81BE16CD, 0xF6B9265B, 0x6FB077E1, 0x18B74777,
     0x88085AE6, 0xFF0F6A70, 0x66063BCA, 0x11010B5C, 0x8F659EFF, 0xF862AE69, 0x616BFFD3, 0x166CCF45,
     0xA00AE278, 0xD70DD2EE, 0x4E048354, 0x3903B3C2, 0xA7672661, 0xD06016F7, 0x4969474D, 0x3E6E77DB,
     0xAED16A4A, 0xD9D65ADC, 0x40DF0B66, 0x37D83BF0, 0xA9BCAE53, 0xDEBB9EC5, 0x47B2CF7F, 0x30B5FFE9,
     0xBDBDF21C, 0xCABAC28A, 0x53B39330, 0x24B4A3A6, 0xBAD03605, 0xCDD70693, 0x54DE5729, 0x23D967BF,
     0xB3667A2E, 0xC4614AB8, 0x5D681B02, 0x2A6F2B94, 0xB40BBE37, 0xC30C8EA1, 0x5A05DF1B, 0x2D02EF8D]"

definition toob_crc32_step :: "u32 \<Rightarrow> u8 \<Rightarrow> u32" where
  "toob_crc32_step crc b =
     toob_crc32_table ! unat ((crc XOR ucast b) AND 0xFF) XOR drop_bit 8 crc"

fun toob_crc32_loop :: "u32 \<Rightarrow> u8 list \<Rightarrow> u32" where
  "toob_crc32_loop crc [] = crc"
| "toob_crc32_loop crc (b # bs) = toob_crc32_loop (toob_crc32_step crc b) bs"

definition toob_lib_crc32 :: "u8 list \<Rightarrow> u32" where
  "toob_lib_crc32 data = toob_crc32_loop TOOB_CRC32_INIT data XOR TOOB_CRC32_FINAL_XOR"

section \<open>Linearity of the shift register\<close>

lemma crc32_bit_alt: "crc32_bit c = drop_bit 1 c XOR (if bit c 0 then TOOB_CRC32_POLY else 0)"
  by (simp add: crc32_bit_def and_one_eq mod_2_eq_odd bit_0)

lemma crc32_bit_xor: "crc32_bit (a XOR b) = crc32_bit a XOR crc32_bit b"
  by (simp add: crc32_bit_alt bit_xor_iff drop_bit_xor ac_simps)

lemma crc32_bits_xor: "(crc32_bit ^^ n) (a XOR b) = (crc32_bit ^^ n) a XOR (crc32_bit ^^ n) b"
  by (induction n) (simp_all add: crc32_bit_xor)

text \<open>A register whose low bits are zero is only shifted.\<close>

lemma crc32_bits_shift:
  "(\<forall>i < n. \<not> bit c i) \<Longrightarrow> (crc32_bit ^^ n) c = drop_bit n c"
proof (induction n arbitrary: c)
  case 0
  then show ?case by simp
next
  case (Suc n)
  have c: "crc32_bit c = drop_bit 1 c" using Suc.prems by (simp add: crc32_bit_alt)
  have "\<forall>i < n. \<not> bit (drop_bit 1 c) i" using Suc.prems by (simp add: bit_drop_bit_eq)
  then have "(crc32_bit ^^ n) (drop_bit 1 c) = drop_bit n (drop_bit 1 c)" by (rule Suc.IH)
  then show ?case by (simp add: funpow_Suc_right c drop_bit_drop_bit del: funpow.simps)
qed

lemma mask8_u32: "(0xFF :: u32) = mask 8"
  by (simp add: mask_eq_exp_minus_1)

lemma split_low_byte: "(c :: u32) = (c AND 0xFF) XOR push_bit 8 (drop_bit 8 c)"
  unfolding mask8_u32
  by (rule bit_word_eqI)
    (auto simp: bit_xor_iff bit_and_iff bit_mask_iff bit_push_bit_iff bit_drop_bit_eq
      simp del: push_bit_numeral mask_numeral)

lemma crc32_eight: "(crc32_bit ^^ 8) c = (crc32_bit ^^ 8) (c AND 0xFF) XOR drop_bit 8 c"
proof -
  have "(crc32_bit ^^ 8) (push_bit 8 (drop_bit 8 c)) = drop_bit 8 (push_bit 8 (drop_bit 8 c))"
    by (rule crc32_bits_shift) (simp add: bit_push_bit_iff)
  moreover have "drop_bit 8 (push_bit 8 (drop_bit 8 c)) = drop_bit 8 c"
    by (rule bit_word_eqI) (auto simp: bit_drop_bit_eq bit_push_bit_iff dest: bit_imp_le_length)
  ultimately have "(crc32_bit ^^ 8) (push_bit 8 (drop_bit 8 c)) = drop_bit 8 c" by simp
  then show ?thesis
    by (subst split_low_byte [of c]) (simp only: crc32_bits_xor)
qed

section \<open>The table\<close>

text \<open>
  The table is linear over XOR, so it is determined by its entries at the powers of two:
  doubling the table for \<open>0 \<dots> 2^k - 1\<close> with the entry at \<open>2^k\<close> gives the table for
  \<open>0 \<dots> 2^(k+1) - 1\<close>.
\<close>

definition crc32_entry :: "nat \<Rightarrow> u32" where
  "crc32_entry i = (crc32_bit ^^ 8) (of_nat i)"

definition dbl :: "u32 \<Rightarrow> u32 list \<Rightarrow> u32 list" where
  "dbl b xs = xs @ map (\<lambda>x. b XOR x) xs"

lemma of_nat_add_disjoint:
  assumes "i < 2 ^ k"
  shows "(of_nat (2 ^ k + i) :: u32) = of_nat (2 ^ k) XOR of_nat i"
proof -
  have "take_bit k i = i" using assms by (simp add: take_bit_nat_eq_self)
  then have lt: "bit i n \<Longrightarrow> n < k" for n using bit_take_bit_iff [of k i n] by simp
  have "(2 ^ k :: nat) AND i = 0"
    by (rule bit_eqI) (auto simp: bit_and_iff bit_exp_iff dest: lt)
  then have "(2 ^ k :: nat) + i = 2 ^ k XOR i" by (rule disjunctive_add_eq_xor)
  then show ?thesis by (simp only: of_nat_xor_eq)
qed

lemma crc32_table_double:
  "map crc32_entry [0..<2 ^ Suc k] = dbl (crc32_entry (2 ^ k)) (map crc32_entry [0..<2 ^ k])"
proof -
  have "[0..<2 ^ Suc k] = [0..<2 ^ k] @ map (\<lambda>i. 2 ^ k + i) [0..<(2::nat) ^ k]"
    by (simp add: map_add_upt upt_add_eq_append [of 0 "2 ^ k" "2 ^ k", simplified] add.commute mult_2)
  moreover have "i < 2 ^ k \<Longrightarrow> crc32_entry (2 ^ k + i) = crc32_entry (2 ^ k) XOR crc32_entry i" for i
    by (simp only: crc32_entry_def of_nat_add_disjoint crc32_bits_xor)
  ultimately show ?thesis by (simp add: dbl_def)
qed

lemma funpow_8: "(f ^^ 8) x = f (f (f (f (f (f (f (f x)))))))"
  by (simp add: eval_nat_numeral)

lemma crc32_entry_powers:
  "crc32_entry 0 = 0"
  "crc32_entry (2 ^ 0) = 0x77073096"
  "crc32_entry (2 ^ 1) = 0xEE0E612C"
  "crc32_entry (2 ^ 2) = 0x076DC419"
  "crc32_entry (2 ^ 3) = 0x0EDB8832"
  "crc32_entry (2 ^ 4) = 0x1DB71064"
  "crc32_entry (2 ^ 5) = 0x3B6E20C8"
  "crc32_entry (2 ^ 6) = 0x76DC4190"
  "crc32_entry (2 ^ 7) = 0xEDB88320"
  by (simp_all add: crc32_entry_def funpow_8 crc32_bit_def TOOB_CRC32_POLY_def)

lemma crc32_table_closed: "map crc32_entry [0..<256] = toob_crc32_table"
proof -
  have "map crc32_entry [0..<256] = map crc32_entry [0..<2 ^ Suc (Suc (Suc (Suc (Suc (Suc (Suc (Suc 0)))))))]"
    by simp
  also have "\<dots> = fold dbl (map (\<lambda>k. crc32_entry (2 ^ k)) [0..<8]) [crc32_entry 0]"
    by (simp only: crc32_table_double) (simp add: upt_rec eval_nat_numeral)
  also have "\<dots> = fold dbl [0x77073096, 0xEE0E612C, 0x076DC419, 0x0EDB8832, 0x1DB71064,
     0x3B6E20C8, 0x76DC4190, 0xEDB88320] [0]"
    using crc32_entry_powers by (simp add: upt_rec eval_nat_numeral)
  also have "\<dots> = toob_crc32_table"
    by (simp add: dbl_def toob_crc32_table_def)
  finally show ?thesis .
qed

lemma crc32_table_nth: "i < 256 \<Longrightarrow> toob_crc32_table ! i = crc32_entry i"
  by (simp flip: crc32_table_closed)

lemma toob_crc32_step_eq: "toob_crc32_step crc b = crc32_byte crc b"
proof -
  let ?x = "crc XOR ucast b"
  have "?x AND 0xFF \<le> 0xFF" by (rule word_and_le1)
  then have "unat (?x AND 0xFF) < 256" by (simp add: word_le_nat_alt)
  then have "toob_crc32_table ! unat (?x AND 0xFF) = (crc32_bit ^^ 8) (?x AND 0xFF)"
    by (simp add: crc32_table_nth crc32_entry_def)
  moreover have "drop_bit 8 ?x = drop_bit 8 crc"
    by (rule bit_word_eqI) (auto simp: bit_drop_bit_eq bit_xor_iff bit_ucast_iff
        dest: bit_imp_le_length)
  ultimately show ?thesis
    by (simp add: toob_crc32_step_def crc32_byte_def crc32_eight [of ?x])
qed

lemma toob_crc32_loop_eq: "toob_crc32_loop crc data = boot_crc32_update crc data"
  by (induction data arbitrary: crc) (simp_all add: toob_crc32_step_eq)

section \<open>Streaming\<close>

lemma boot_crc32_update_append [simp]:
  "boot_crc32_update crc (xs @ ys) = boot_crc32_update (boot_crc32_update crc xs) ys"
  by (induction xs arbitrary: crc) simp_all

lemma boot_crc32_fill_eq: "boot_crc32_fill crc v n = boot_crc32_update crc (replicate n v)"
  by (induction n arbitrary: crc) simp_all

text \<open>The byte step with its loop unrolled, for evaluation.\<close>

lemma crc32_byte_unroll:
  "crc32_byte c v = crc32_bit (crc32_bit (crc32_bit (crc32_bit (crc32_bit (crc32_bit
     (crc32_bit (crc32_bit (c XOR ucast v))))))))"
  by (simp only: crc32_byte_def funpow_8)

text \<open>C22. The table-driven checksum of the OS library and the bit-serial checksum of the boot core
agree on every byte string: what one side writes, the other side verifies.\<close>

theorem crc_sides_agree: "toob_lib_crc32 data = compute_boot_crc32 data"
  by (simp add: toob_lib_crc32_def compute_boot_crc32_def toob_crc32_loop_eq)

end
