(* ===== verification/Boot_Tbm1.thy ===== *)
theory Boot_Tbm1
  imports Boot_Crc32
begin

text \<open>
  The TBM1 manifest validator: \<open>toobloader/core/boot_tbm1.c\<close> and the wire format of
  \<open>toobloader/core/include/boot_tbm1.h\<close>. The header is read from the first 512 bytes of the
  manifest buffer field by field at the offsets the C file asserts. Pure validation: no flash, no
  state. The compile-time device identity is a parameter.
\<close>

section \<open>Wire format\<close>

record tbm1_region =
  rg_region_id :: u16
  rg_rsvd :: u16
  rg_off :: u32
  rg_len :: u32

record tbm1_image_desc =
  im_image_type :: u8
  im_target_slot :: u8
  im_compression_alg :: u8
  im_delta_alg :: u8
  im_data_off :: u32
  im_stored_size :: u32
  im_installed_size :: u32
  im_chunk_size :: u32
  im_num_chunks :: u32
  im_base_svn :: u32
  im_ver_major :: u16
  im_ver_minor :: u16
  im_ver_patch :: u16
  im_base_fingerprint :: "u8 list"

record tbm1_header =
  th_magic :: u32
  th_version_major :: u8
  th_version_minor :: u8
  th_fixed_len :: u16
  th_total_len :: u32
  th_flags_critical :: u16
  th_flags_info :: u16
  th_vendor_id :: u16
  th_product_id :: u16
  th_hw_rev_min :: u16
  th_hw_rev_max :: u16
  th_key_index :: u8
  th_image_count :: u8
  th_boot_retry_limit :: u16
  th_min_reader_major :: u16
  th_min_reader_minor :: u16
  th_svn :: u32
  th_stage1_svn :: u32
  th_key_epoch :: u32
  th_build_number :: u32
  th_fw_ver_major :: u16
  th_fw_ver_minor :: u16
  th_fw_ver_patch :: u16
  th_sbom_digest :: "u8 list"
  th_regions :: "tbm1_region list"
  th_images :: "tbm1_image_desc list"
  th_fixed_crc32 :: u32

definition TBM1_MAGIC :: u32 where "TBM1_MAGIC = 0x314D4254"
definition TBM1_VERSION_MAJOR :: nat where "TBM1_VERSION_MAJOR = 2"
definition TBM1_VERSION_MINOR :: nat where "TBM1_VERSION_MINOR = 0"
definition TBM1_FIXED_LEN :: nat where "TBM1_FIXED_LEN = 512"
definition TBM1_SIG_LEN :: nat where "TBM1_SIG_LEN = 64"
definition TBM1_MAX_IMAGES :: nat where "TBM1_MAX_IMAGES = 4"
definition TBM1_MAX_REGIONS :: nat where "TBM1_MAX_REGIONS = 8"
definition TBM1_CRIT_KNOWN_MASK :: u16 where "TBM1_CRIT_KNOWN_MASK = 1"
definition TBM1_CRC_LEN :: nat where "TBM1_CRC_LEN = 508"

lemmas tbm1_consts = TBM1_MAGIC_def TBM1_VERSION_MAJOR_def TBM1_VERSION_MINOR_def
  TBM1_FIXED_LEN_def TBM1_SIG_LEN_def TBM1_MAX_IMAGES_def TBM1_MAX_REGIONS_def
  TBM1_CRIT_KNOWN_MASK_def TBM1_CRC_LEN_def

definition tbm1_region_at :: "u8 list \<Rightarrow> nat \<Rightarrow> tbm1_region" where
  "tbm1_region_at b o' = \<lparr> rg_region_id = rd16 o' b, rg_rsvd = rd16 (o' + 2) b,
     rg_off = rd32 (o' + 4) b, rg_len = rd32 (o' + 8) b \<rparr>"

definition tbm1_image_at :: "u8 list \<Rightarrow> nat \<Rightarrow> tbm1_image_desc" where
  "tbm1_image_at b o' = \<lparr> im_image_type = rd8 o' b, im_target_slot = rd8 (o' + 1) b,
     im_compression_alg = rd8 (o' + 2) b, im_delta_alg = rd8 (o' + 3) b,
     im_data_off = rd32 (o' + 4) b, im_stored_size = rd32 (o' + 8) b,
     im_installed_size = rd32 (o' + 12) b, im_chunk_size = rd32 (o' + 16) b,
     im_num_chunks = rd32 (o' + 20) b, im_base_svn = rd32 (o' + 24) b,
     im_ver_major = rd16 (o' + 28) b, im_ver_minor = rd16 (o' + 30) b,
     im_ver_patch = rd16 (o' + 32) b, im_base_fingerprint = slice_of (o' + 36) 8 b \<rparr>"

definition tbm1_header_at :: "u8 list \<Rightarrow> tbm1_header" where
  "tbm1_header_at b = \<lparr> th_magic = rd32 0 b, th_version_major = rd8 4 b,
     th_version_minor = rd8 5 b, th_fixed_len = rd16 6 b, th_total_len = rd32 8 b,
     th_flags_critical = rd16 12 b, th_flags_info = rd16 14 b,
     th_vendor_id = rd16 16 b, th_product_id = rd16 18 b, th_hw_rev_min = rd16 20 b,
     th_hw_rev_max = rd16 22 b, th_key_index = rd8 24 b, th_image_count = rd8 25 b,
     th_boot_retry_limit = rd16 26 b, th_min_reader_major = rd16 28 b,
     th_min_reader_minor = rd16 30 b, th_svn = rd32 32 b, th_stage1_svn = rd32 36 b,
     th_key_epoch = rd32 40 b, th_build_number = rd32 44 b, th_fw_ver_major = rd16 48 b,
     th_fw_ver_minor = rd16 50 b, th_fw_ver_patch = rd16 52 b,
     th_sbom_digest = slice_of 56 32 b,
     th_regions = map (\<lambda>i. tbm1_region_at b (88 + 12 * i)) [0..<TBM1_MAX_REGIONS],
     th_images = map (\<lambda>i. tbm1_image_at b (184 + 44 * i)) [0..<TBM1_MAX_IMAGES],
     th_fixed_crc32 = rd32 508 b \<rparr>"

datatype tbm1_reject =
    TBM1_OK | TBM1_BAD_MAGIC | TBM1_BAD_FIXED_LEN | TBM1_BAD_VERSION | TBM1_BAD_TOTAL_LEN
  | TBM1_BAD_ALIGN | TBM1_BAD_CRC | TBM1_BAD_CRIT_FLAG | TBM1_BAD_READER_VERSION
  | TBM1_BAD_IMAGE_COUNT | TBM1_BAD_KEY_INDEX | TBM1_BAD_HW_COMPAT | TBM1_BAD_CHUNK_MATH
  | TBM1_BAD_IMAGE_FIELD | TBM1_BAD_REGION_BOUNDS | TBM1_BAD_REGION_ORDER | TBM1_BAD_REGION_DUP
  | TBM1_BAD_CHUNKHASH_LEN | TBM1_BAD_REGION_ALIGN

text \<open>The compile-time device identity: product id (\<open>0xFFFF\<close>: gate compiled out), hw rev, key slots.\<close>

record tbm1_device =
  td_product_id :: u16
  td_hw_rev :: u16
  td_key_slots :: nat

definition tbm1_default_device :: tbm1_device where
  "tbm1_default_device = \<lparr> td_product_id = 0xFFFF, td_hw_rev = 0, td_key_slots = 6 \<rparr>"

section \<open>Operations\<close>

definition tbm1_signed_len :: "tbm1_header \<Rightarrow> nat" where
  "tbm1_signed_len h =
     (if unat (th_total_len h) < TBM1_FIXED_LEN + TBM1_SIG_LEN then 0
      else unat (th_total_len h) - TBM1_SIG_LEN)"

fun find_region_loop :: "tbm1_region list \<Rightarrow> u16 \<Rightarrow> tbm1_region option" where
  "find_region_loop [] rid = None"
| "find_region_loop (r # rs) rid = (if rg_region_id r = rid then Some r else find_region_loop rs rid)"

definition tbm1_find_region :: "tbm1_header \<Rightarrow> u16 \<Rightarrow> tbm1_region option" where
  "tbm1_find_region h rid = (if rid = 0 then None else find_region_loop (th_regions h) rid)"

definition ceil_div_u32 :: "u32 \<Rightarrow> u32 \<Rightarrow> u32" where
  "ceil_div_u32 a b = a div b + (if a mod b \<noteq> 0 then 1 else 0)"

text \<open>\<open>addr\<close> is the address of the buffer, 0 for \<open>NULL\<close>.\<close>

definition tbm1_precheck :: "u32 \<Rightarrow> u8 list \<Rightarrow> nat \<Rightarrow> tbm1_reject" where
  "tbm1_precheck addr buf staging_cap =
     (let h = tbm1_header_at buf in
      if addr = 0 \<or> addr AND 3 \<noteq> 0 then TBM1_BAD_ALIGN
      else if staging_cap < TBM1_FIXED_LEN then TBM1_BAD_TOTAL_LEN
      else if th_magic h \<noteq> TBM1_MAGIC then TBM1_BAD_MAGIC
      else if unat (th_fixed_len h) \<noteq> TBM1_FIXED_LEN then TBM1_BAD_FIXED_LEN
      else if unat (th_version_major h) \<noteq> TBM1_VERSION_MAJOR then TBM1_BAD_VERSION
      else if unat (th_total_len h) < TBM1_FIXED_LEN + TBM1_SIG_LEN then TBM1_BAD_TOTAL_LEN
      else if unat (th_total_len h) > staging_cap then TBM1_BAD_TOTAL_LEN
      else if th_flags_critical h AND NOT TBM1_CRIT_KNOWN_MASK \<noteq> 0 then TBM1_BAD_CRIT_FLAG
      else if unat (th_min_reader_major h) > TBM1_VERSION_MAJOR \<or>
              (unat (th_min_reader_major h) = TBM1_VERSION_MAJOR \<and>
               unat (th_min_reader_minor h) > TBM1_VERSION_MINOR) then TBM1_BAD_READER_VERSION
      else if compute_boot_crc32 (take TBM1_CRC_LEN buf) \<noteq> th_fixed_crc32 h then TBM1_BAD_CRC
      else TBM1_OK)"

fun tbm1_regions_loop :: "nat \<Rightarrow> tbm1_region list \<Rightarrow> u32 \<Rightarrow> u16 \<Rightarrow> tbm1_reject" where
  "tbm1_regions_loop sig_start [] prev_end seen_ids = TBM1_OK"
| "tbm1_regions_loop sig_start (r # rs) prev_end seen_ids =
     (if rg_region_id r = 0 then tbm1_regions_loop sig_start rs prev_end seen_ids
      else
        let std = rg_region_id r < 16;
            b = push_bit (unat (rg_region_id r)) (1 :: u16)
        in if std \<and> seen_ids AND b \<noteq> 0 then TBM1_BAD_REGION_DUP
           else
             let seen_ids = (if std then seen_ids OR b else seen_ids)
             in if rg_off r > of_nat sig_start then TBM1_BAD_REGION_BOUNDS
                else if rg_len r > of_nat sig_start - rg_off r then TBM1_BAD_REGION_BOUNDS
                else if rg_off r < prev_end then TBM1_BAD_REGION_ORDER
                else if rg_off r AND 7 \<noteq> 0 then TBM1_BAD_REGION_ALIGN
                else tbm1_regions_loop sig_start rs (rg_off r + rg_len r) seen_ids)"

definition tbm1_validate_regions :: "tbm1_header \<Rightarrow> tbm1_reject" where
  "tbm1_validate_regions h =
     (let sig_start = tbm1_signed_len h
      in if sig_start = 0 then TBM1_BAD_TOTAL_LEN
         else tbm1_regions_loop sig_start (th_regions h) (of_nat TBM1_FIXED_LEN) 0)"

text \<open>
  The image loop; \<open>acc\<close> is the running byte offset into the chunk-hash region, the second
  component the entries of \<open>out_off\<close> written so far.
\<close>

fun tbm1_images_loop ::
  "nat \<Rightarrow> tbm1_region \<Rightarrow> tbm1_image_desc list \<Rightarrow> u64 \<Rightarrow> u32 list \<Rightarrow> tbm1_reject \<times> u32 list" where
  "tbm1_images_loop staging_cap chunks [] acc out_off =
     (if acc \<noteq> ucast (rg_len chunks) then TBM1_BAD_CHUNKHASH_LEN else TBM1_OK, out_off)"
| "tbm1_images_loop staging_cap chunks (d # ds) acc out_off =
     (if im_chunk_size d = 0 then (TBM1_BAD_CHUNK_MATH, out_off)
      else if im_num_chunks d \<noteq> ceil_div_u32 (im_installed_size d) (im_chunk_size d)
        then (TBM1_BAD_CHUNK_MATH, out_off)
      else if im_target_slot d > 3 then (TBM1_BAD_IMAGE_FIELD, out_off)
      else if im_compression_alg d > 2 then (TBM1_BAD_IMAGE_FIELD, out_off)
      else if im_delta_alg d > 2 then (TBM1_BAD_IMAGE_FIELD, out_off)
      else if unat (im_data_off d) \<ge> staging_cap then (TBM1_BAD_IMAGE_FIELD, out_off)
      else if unat (im_stored_size d) > staging_cap - unat (im_data_off d)
        then (TBM1_BAD_IMAGE_FIELD, out_off)
      else tbm1_images_loop staging_cap chunks ds (acc + ucast (im_num_chunks d) * 32)
             (out_off @ [rg_off chunks + ucast acc]))"

definition tbm1_validate_images ::
  "tbm1_device \<Rightarrow> tbm1_header \<Rightarrow> nat \<Rightarrow> tbm1_reject \<times> u32 list" where
  "tbm1_validate_images dev h staging_cap =
     (if th_image_count h < 1 \<or> unat (th_image_count h) > TBM1_MAX_IMAGES
      then (TBM1_BAD_IMAGE_COUNT, [])
      else if unat (th_key_index h) \<ge> td_key_slots dev then (TBM1_BAD_KEY_INDEX, [])
      else if td_product_id dev \<noteq> 0xFFFF \<and>
              (th_product_id h \<noteq> td_product_id dev \<or>
               td_hw_rev dev < th_hw_rev_min h \<or> td_hw_rev dev > th_hw_rev_max h)
        then (TBM1_BAD_HW_COMPAT, [])
      else case tbm1_find_region h 1 of
             None \<Rightarrow> (TBM1_BAD_CHUNKHASH_LEN, [])
           | Some chunks \<Rightarrow>
               tbm1_images_loop staging_cap chunks (take (unat (th_image_count h)) (th_images h)) 0 [])"

definition tbm1_validate ::
  "tbm1_device \<Rightarrow> u32 \<Rightarrow> u8 list \<Rightarrow> nat \<Rightarrow> nat \<Rightarrow> tbm1_reject \<times> u32 list" where
  "tbm1_validate dev addr buf manifest_cap staging_cap =
     (let rc = tbm1_precheck addr buf manifest_cap
      in if rc \<noteq> TBM1_OK then (rc, [])
         else
           let h = tbm1_header_at buf; rc = tbm1_validate_regions h
           in if rc \<noteq> TBM1_OK then (rc, []) else tbm1_validate_images dev h staging_cap)"

fun tbm1_reject_to_boot_status :: "tbm1_reject \<Rightarrow> boot_status" where
  "tbm1_reject_to_boot_status TBM1_OK = BOOT_OK"
| "tbm1_reject_to_boot_status TBM1_BAD_CRC = BOOT_ERR_MANIFEST_CORRUPT"
| "tbm1_reject_to_boot_status TBM1_BAD_HW_COMPAT = BOOT_ERR_MANIFEST_PRODUCT"
| "tbm1_reject_to_boot_status TBM1_BAD_VERSION = BOOT_ERR_MANIFEST_VERSION"
| "tbm1_reject_to_boot_status TBM1_BAD_CRIT_FLAG = BOOT_ERR_MANIFEST_VERSION"
| "tbm1_reject_to_boot_status TBM1_BAD_READER_VERSION = BOOT_ERR_MANIFEST_VERSION"
| "tbm1_reject_to_boot_status _ = BOOT_ERR_INVALID_ARG"

section \<open>The region directory\<close>

text \<open>What a well-formed directory is: bounds, order, alignment, uniqueness of standard ids.\<close>

definition used_regions :: "tbm1_region list \<Rightarrow> tbm1_region list" where
  "used_regions rs = filter (\<lambda>r. rg_region_id r \<noteq> 0) rs"

definition region_fits :: "nat \<Rightarrow> tbm1_region \<Rightarrow> bool" where
  "region_fits sig r \<longleftrightarrow> unat (rg_off r) + unat (rg_len r) \<le> sig \<and> unat (rg_off r) mod 8 = 0"

definition region_before :: "tbm1_region \<Rightarrow> tbm1_region \<Rightarrow> bool" where
  "region_before a b \<longleftrightarrow> unat (rg_off a) + unat (rg_len a) \<le> unat (rg_off b)"

definition std_ids :: "tbm1_region list \<Rightarrow> u16 list" where
  "std_ids rs = filter (\<lambda>i. i < 16) (map rg_region_id rs)"

definition directory_ok :: "nat \<Rightarrow> nat \<Rightarrow> tbm1_region list \<Rightarrow> bool" where
  "directory_ok lo sig rs \<longleftrightarrow>
     (\<forall>r \<in> set (used_regions rs). lo \<le> unat (rg_off r) \<and> region_fits sig r) \<and>
     sorted_wrt region_before (used_regions rs) \<and>
     distinct (std_ids (used_regions rs))"

lemma used_regions_simps [simp]:
  "used_regions [] = []"
  "used_regions (r # rs) = (if rg_region_id r = 0 then used_regions rs else r # used_regions rs)"
  by (simp_all add: used_regions_def)

lemma std_ids_simps [simp]:
  "std_ids [] = []"
  "std_ids (r # rs) = (if rg_region_id r < 16 then rg_region_id r # std_ids rs else std_ids rs)"
  by (simp_all add: std_ids_def)

lemma std_ids_lt: "i \<in> set (std_ids rs) \<Longrightarrow> i < 16"
  by (auto simp: std_ids_def)

lemma and_7_mod: "(x :: u32) AND 7 = 0 \<longleftrightarrow> unat x mod 8 = 0"
proof -
  have "(7 :: u32) = mask 3" by (simp add: mask_eq_exp_minus_1)
  then have "x AND 7 = take_bit 3 x" by (simp only: take_bit_eq_mask)
  then have "unat (x AND 7) = take_bit 3 (unat x)" by (simp only: unsigned_take_bit_eq)
  then have "unat (x AND 7) = unat x mod 8" by (simp add: take_bit_eq_mod)
  then show ?thesis by (metis unat_eq_zero)
qed

lemma bit_or_one: "k < 16 \<Longrightarrow> bit ((s :: u16) OR push_bit k 1) j \<longleftrightarrow> bit s j \<or> j = k"
  by (auto simp: bit_or_iff bit_push_bit_iff bit_1_iff bit_exp_iff)

lemma and_one_bit: "(s :: u16) AND push_bit k 1 \<noteq> 0 \<longleftrightarrow> bit s k"
proof
  assume "s AND push_bit k 1 \<noteq> 0"
  then obtain n where "bit (s AND push_bit k 1) n" by (metis bit_eqI bit_0_eq bot_apply bot_bool_def)
  then show "bit s k" by (auto simp: bit_and_iff bit_exp_iff)
next
  assume b: "bit s k"
  then have "k < 16" using bit_imp_le_length [OF b] by simp
  then have "bit (s AND push_bit k 1) k" using b by (simp add: bit_and_iff bit_exp_iff)
  then show "s AND push_bit k 1 \<noteq> 0" by (metis bit_0_eq bot_apply bot_bool_def)
qed

lemma region_fits_code:
  assumes "sig < 4294967296"
  shows "\<not> rg_off r > of_nat sig \<and> \<not> rg_len r > of_nat sig - rg_off r \<and> rg_off r AND 7 = 0
    \<longleftrightarrow> region_fits sig r"
proof (cases "unat (rg_off r) \<le> sig")
  case True
  then have "unat (of_nat sig - rg_off r) = sig - unat (rg_off r)"
    using assms by (simp add: unat_sub_no_wrap unat_of_nat_u32)
  then show ?thesis using True assms
    by (auto simp: region_fits_def word_less_nat_alt unat_of_nat_u32 and_7_mod)
next
  case False
  then show ?thesis using assms by (simp add: region_fits_def word_less_nat_alt unat_of_nat_u32)
qed

lemma region_end: "region_fits sig r \<Longrightarrow> sig < 4294967296 \<Longrightarrow>
  unat (rg_off r + rg_len r) = unat (rg_off r) + unat (rg_len r)"
  by (rule unat_add_no_wrap) (simp add: region_fits_def)

lemma regions_loop_step:
  assumes "sig < 4294967296" "rg_region_id r \<noteq> 0"
  shows "tbm1_regions_loop sig (r # rs) prev seen = TBM1_OK \<longleftrightarrow>
    (rg_region_id r < 16 \<longrightarrow> \<not> bit seen (unat (rg_region_id r))) \<and>
    region_fits sig r \<and> unat prev \<le> unat (rg_off r) \<and>
    tbm1_regions_loop sig rs (rg_off r + rg_len r)
      (if rg_region_id r < 16 then seen OR push_bit (unat (rg_region_id r)) 1 else seen) = TBM1_OK"
  using region_fits_code [OF assms(1), of r] assms(2) and_one_bit [of seen "unat (rg_region_id r)"]
  by (auto simp: Let_def word_less_nat_alt simp del: push_bit_of_1)

lemma directory_ok_Cons:
  assumes "rg_region_id r \<noteq> 0"
  shows "directory_ok lo sig (r # rs) \<longleftrightarrow>
    lo \<le> unat (rg_off r) \<and> region_fits sig r \<and>
    directory_ok (unat (rg_off r) + unat (rg_len r)) sig rs \<and>
    (rg_region_id r < 16 \<longrightarrow> rg_region_id r \<notin> set (std_ids (used_regions rs)))"
  using assms by (auto simp: directory_ok_def region_before_def)

lemma regions_loop_iff:
  assumes "sig < 4294967296"
  shows "tbm1_regions_loop sig rs prev seen = TBM1_OK \<longleftrightarrow>
    directory_ok (unat prev) sig rs \<and>
    (\<forall>i \<in> set (std_ids (used_regions rs)). \<not> bit seen (unat i))"
proof (induction rs arbitrary: prev seen)
  case Nil
  then show ?case by (simp add: directory_ok_def)
next
  case (Cons r rs)
  show ?case
  proof (cases "rg_region_id r = 0")
    case True
    then have "directory_ok (unat prev) sig (r # rs) = directory_ok (unat prev) sig rs"
      by (simp add: directory_ok_def)
    then show ?thesis using True Cons by simp
  next
    case False
    have std: "unat (rg_region_id r) < 16" if "rg_region_id r < 16"
      using that by (simp add: word_less_nat_alt)
    show ?thesis
      unfolding regions_loop_step [OF assms False] directory_ok_Cons [OF False] Cons.IH
      using False std region_end [OF _ assms, of r]
      by (auto simp: bit_or_one word_unat_eq_iff [symmetric] simp del: push_bit_of_1)
  qed
qed

lemma signed_len_lt: "tbm1_signed_len h < 4294967296"
  using unat_u32_lt [of "th_total_len h"]
  by (simp add: tbm1_signed_len_def less_imp_diff_less del: unat_u32_lt)

lemma validate_regions_char:
  "tbm1_validate_regions h = TBM1_OK \<longleftrightarrow>
     tbm1_signed_len h \<noteq> 0 \<and> directory_ok 512 (tbm1_signed_len h) (th_regions h)"
  using regions_loop_iff [OF signed_len_lt, of h "th_regions h" "of_nat TBM1_FIXED_LEN" 0]
  by (simp add: tbm1_validate_regions_def Let_def TBM1_FIXED_LEN_def)

text \<open>C17. The region directory check accepts a header exactly when the signed span is not empty
and the used directory entries lie inside it after the 512-byte header, are 8-byte aligned, in
ascending order without overlap, and repeat no standard region id.\<close>

theorem validate_regions_iff:
  "tbm1_validate_regions h = TBM1_OK \<longleftrightarrow>
     tbm1_signed_len h \<noteq> 0 \<and> directory_ok 512 (tbm1_signed_len h) (th_regions h)"
  by (rule validate_regions_char)

section \<open>Images and their chunk hashes\<close>

definition image_ok :: "nat \<Rightarrow> tbm1_image_desc \<Rightarrow> bool" where
  "image_ok staging_cap d \<longleftrightarrow>
     0 < unat (im_chunk_size d) \<and>
     unat (im_num_chunks d) =
       (unat (im_installed_size d) + unat (im_chunk_size d) - 1) div unat (im_chunk_size d) \<and>
     im_target_slot d \<le> 3 \<and> im_compression_alg d \<le> 2 \<and> im_delta_alg d \<le> 2 \<and>
     unat (im_data_off d) < staging_cap \<and>
     unat (im_data_off d) + unat (im_stored_size d) \<le> staging_cap"

text \<open>The bytes of chunk hashes of the images before index \<open>k\<close>.\<close>

definition hash_bytes :: "tbm1_image_desc list \<Rightarrow> nat" where
  "hash_bytes ds = 32 * sum_list (map (\<lambda>d. unat (im_num_chunks d)) ds)"

definition hash_offsets :: "nat \<Rightarrow> tbm1_image_desc list \<Rightarrow> nat list" where
  "hash_offsets base ds = map (\<lambda>k. base + hash_bytes (take k ds)) [0..<length ds]"

lemma hash_bytes_simps [simp]:
  "hash_bytes [] = 0"
  "hash_bytes (d # ds) = 32 * unat (im_num_chunks d) + hash_bytes ds"
  by (simp_all add: hash_bytes_def)

lemma hash_bytes_append [simp]: "hash_bytes (xs @ ys) = hash_bytes xs + hash_bytes ys"
  by (simp add: hash_bytes_def)

lemma hash_bytes_lt: "hash_bytes ds \<le> length ds * 137438953472"
proof (induction ds)
  case (Cons d ds)
  then show ?case using unat_u32_le_max [of "im_num_chunks d"] by simp
qed simp

lemma hash_offsets_Cons:
  "hash_offsets base (d # ds) = base # hash_offsets (base + 32 * unat (im_num_chunks d)) ds"
  by (simp add: hash_offsets_def map_upt_Suc add.assoc del: upt_Suc)

lemma hash_offsets_Nil [simp]: "hash_offsets base [] = []"
  by (simp add: hash_offsets_def)

lemma ceil_div_exact:
  "b \<noteq> 0 \<Longrightarrow> unat (ceil_div_u32 a b) = (unat a + unat b - 1) div unat b"
  unfolding ceil_div_u32_def by (rule unat_ceil_u32)

lemma images_loop_step:
  "tbm1_images_loop cap chunks (d # ds) acc out = (TBM1_OK, offs) \<longleftrightarrow>
     image_ok cap d \<and>
     tbm1_images_loop cap chunks ds (acc + ucast (im_num_chunks d) * 32)
       (out @ [rg_off chunks + ucast acc]) = (TBM1_OK, offs)"
proof (cases "im_chunk_size d = 0")
  case True
  then show ?thesis by (simp add: image_ok_def)
next
  case False
  have "im_num_chunks d = ceil_div_u32 (im_installed_size d) (im_chunk_size d) \<longleftrightarrow>
      unat (im_num_chunks d) =
      (unat (im_installed_size d) + unat (im_chunk_size d) - 1) div unat (im_chunk_size d)"
    by (simp add: word_unat_eq_iff ceil_div_exact [OF False])
  moreover have "0 < unat (im_chunk_size d)" using False by (simp add: unat_gt_0)
  ultimately show ?thesis using False
    by (auto simp: image_ok_def not_less simp del: tbm1_images_loop.simps(1))
qed

lemma images_loop_iff:
  assumes "length ds \<le> 4" "unat acc + hash_bytes ds < 18446744073709551616"
  shows "tbm1_images_loop cap chunks ds acc out = (TBM1_OK, offs) \<longleftrightarrow>
     list_all (image_ok cap) ds \<and> unat acc + hash_bytes ds = unat (rg_len chunks) \<and>
     offs = out @ map of_nat (hash_offsets (unat (rg_off chunks) + unat acc) ds)"
  using assms
proof (induction ds arbitrary: acc out)
  case Nil
  then show ?case by (auto simp: word_unat_eq_iff)
next
  case (Cons d ds)
  have a: "unat (acc + ucast (im_num_chunks d) * 32) = unat acc + 32 * unat (im_num_chunks d)"
    using Cons.prems(2) by (simp add: unat_word_ariths)
  have o: "rg_off chunks + ucast acc = of_nat (unat (rg_off chunks) + unat acc)"
    by (simp add: word_eq_iff_unsigned unsigned_ucast_eq)
  have b: "unat (acc + ucast (im_num_chunks d) * 32) + hash_bytes ds < 18446744073709551616"
    using Cons.prems(2) a by simp
  have "length ds \<le> 4" using Cons.prems(1) by simp
  note IH = Cons.IH [OF this b, of "out @ [rg_off chunks + ucast acc]"]
  show ?case
    unfolding images_loop_step IH unfolding a o hash_offsets_Cons
    by (simp add: add.assoc del: of_nat_add)
qed

lemma image_offsets_iff:
  "tbm1_images_loop cap chunks (take n (th_images h)) 0 [] = (TBM1_OK, offs) \<longleftrightarrow>
     list_all (image_ok cap) (take n (th_images h)) \<and>
     hash_bytes (take n (th_images h)) = unat (rg_len chunks) \<and>
     offs = map of_nat (hash_offsets (unat (rg_off chunks)) (take n (th_images h)))" if "n \<le> 4"
proof -
  have l: "length (take n (th_images h)) \<le> 4" using that by simp
  have "hash_bytes (take n (th_images h)) \<le> 4 * 137438953472"
    using hash_bytes_lt [of "take n (th_images h)"] l
    by (rule order_trans [OF _ mult_le_mono1])
  then show ?thesis using images_loop_iff [OF l, of 0] by simp
qed

definition device_accepts :: "tbm1_device \<Rightarrow> tbm1_header \<Rightarrow> bool" where
  "device_accepts dev h \<longleftrightarrow>
     unat (th_key_index h) < td_key_slots dev \<and>
     (td_product_id dev = 0xFFFF \<or>
      th_product_id h = td_product_id dev \<and>
      th_hw_rev_min h \<le> td_hw_rev dev \<and> td_hw_rev dev \<le> th_hw_rev_max h)"

lemma validate_images_char:
  "tbm1_validate_images dev h cap = (TBM1_OK, offs) \<longleftrightarrow>
     unat (th_image_count h) \<in> {1..4} \<and> device_accepts dev h \<and>
     (\<exists>chunks. tbm1_find_region h 1 = Some chunks \<and>
        (let imgs = take (unat (th_image_count h)) (th_images h)
         in list_all (image_ok cap) imgs \<and> hash_bytes imgs = unat (rg_len chunks) \<and>
            offs = map of_nat (hash_offsets (unat (rg_off chunks)) imgs)))"
proof (cases "unat (th_image_count h) \<in> {1..4} \<and> device_accepts dev h")
  case True
  then have n: "unat (th_image_count h) \<le> 4" "\<not> th_image_count h < 1"
    by (auto simp: word_less_nat_alt)
  show ?thesis using True n
    by (auto simp: tbm1_validate_images_def TBM1_MAX_IMAGES_def device_accepts_def not_less
        image_offsets_iff Let_def split: option.splits)
next
  case False
  then show ?thesis
    by (auto simp: tbm1_validate_images_def TBM1_MAX_IMAGES_def device_accepts_def not_less
        word_less_nat_alt word_le_nat_alt)
qed

text \<open>C18. The image check accepts exactly the manifests with one to four images for this device,
whose chunk-hash region exists and is exactly as long as the 32-byte hashes of all images' chunks,
each image having in-range selector fields, a chunk count equal to the rounded-up quotient and
staged data inside the staging area; the offsets returned are the running sums of the images' hash
lengths.\<close>

theorem validate_images_iff:
  "tbm1_validate_images dev h cap = (TBM1_OK, offs) \<longleftrightarrow>
     unat (th_image_count h) \<in> {1..4} \<and> device_accepts dev h \<and>
     (\<exists>chunks. tbm1_find_region h 1 = Some chunks \<and>
        (let imgs = take (unat (th_image_count h)) (th_images h)
         in list_all (image_ok cap) imgs \<and> hash_bytes imgs = unat (rg_len chunks) \<and>
            offs = map of_nat (hash_offsets (unat (rg_off chunks)) imgs)))"
  by (rule validate_images_char)

section \<open>The validator as a whole\<close>

lemma find_region_used:
  "tbm1_find_region h i = Some r \<Longrightarrow> r \<in> set (used_regions (th_regions h)) \<and> rg_region_id r = i"
proof -
  have "find_region_loop rs i = Some r \<Longrightarrow> i \<noteq> 0 \<Longrightarrow> r \<in> set (used_regions rs) \<and> rg_region_id r = i" for rs
    by (induction rs) (auto split: if_splits)
  then show "tbm1_find_region h i = Some r \<Longrightarrow> ?thesis"
    by (auto simp: tbm1_find_region_def split: if_splits)
qed

lemma precheck_OK:
  assumes "tbm1_precheck addr buf cap = TBM1_OK"
  shows "addr \<noteq> 0 \<and> addr AND 3 = 0 \<and> TBM1_FIXED_LEN \<le> cap \<and>
    unat (th_total_len (tbm1_header_at buf)) \<le> cap \<and>
    TBM1_FIXED_LEN + TBM1_SIG_LEN \<le> unat (th_total_len (tbm1_header_at buf)) \<and>
    th_magic (tbm1_header_at buf) = TBM1_MAGIC \<and>
    compute_boot_crc32 (take TBM1_CRC_LEN buf) = th_fixed_crc32 (tbm1_header_at buf)"
  using assms by (simp add: tbm1_precheck_def Let_def split: if_splits)

lemma hash_offsets_nth:
  "k < length ds \<Longrightarrow> hash_offsets base ds ! k = base + hash_bytes (take k ds)"
  by (simp add: hash_offsets_def)

lemma hash_bytes_take_Suc:
  "k < length ds \<Longrightarrow> hash_bytes (take (Suc k) ds) = hash_bytes (take k ds) + 32 * unat (im_num_chunks (ds ! k))"
  by (simp add: take_Suc_conv_app_nth)

lemma hash_bytes_take_mono: "j \<le> k \<Longrightarrow> hash_bytes (take j ds) \<le> hash_bytes (take k ds)"
proof -
  assume "j \<le> k"
  then have "take k ds = take j ds @ take (k - j) (drop j ds)" by (metis le_add_diff_inverse take_add)
  then show ?thesis by simp
qed

definition hash_slice_safe :: "tbm1_header \<Rightarrow> u32 list \<Rightarrow> nat \<Rightarrow> bool" where
  "hash_slice_safe h offs k \<longleftrightarrow>
     512 \<le> unat (offs ! k) \<and>
     unat (offs ! k) + 32 * unat (im_num_chunks (th_images h ! k)) + 64 \<le> unat (th_total_len h) \<and>
     (\<forall>j < k. unat (offs ! j) + 32 * unat (im_num_chunks (th_images h ! j)) \<le> unat (offs ! k))"

lemma hash_slices_inside:
  assumes "directory_ok 512 sig (th_regions h)" "tbm1_find_region h 1 = Some chunks"
    "sig + 64 = unat (th_total_len h)"
    "imgs = take n (th_images h)" "n \<le> length (th_images h)"
    "hash_bytes imgs = unat (rg_len chunks)"
    "offs = map of_nat (hash_offsets (unat (rg_off chunks)) imgs)" "k < n"
  shows "hash_slice_safe h offs k"
proof -
  have ch: "512 \<le> unat (rg_off chunks)" "unat (rg_off chunks) + unat (rg_len chunks) \<le> sig"
    using assms(1) find_region_used [OF assms(2)] by (auto simp: directory_ok_def region_fits_def)
  have sig: "sig < 4294967296" using assms(3) unat_u32_lt [of "th_total_len h"] by linarith
  have len: "length imgs = n" using assms(4,5) by simp
  have upto: "unat (rg_off chunks) + hash_bytes (take j imgs) \<le> sig" if "j \<le> n" for j
    using hash_bytes_take_mono [OF that, of imgs] ch(2) len assms(6) by simp
  have at: "unat (offs ! j) = unat (rg_off chunks) + hash_bytes (take j imgs)" if "j < n" for j
  proof -
    have "unat (rg_off chunks) + hash_bytes (take j imgs) < 4294967296"
      using upto [of j] sig that by simp
    then show ?thesis using that len assms(7)
      by (simp add: hash_offsets_def unat_of_nat_u32 hash_offsets_nth del: of_nat_add)
  qed
  have nxt: "unat (offs ! j) + 32 * unat (im_num_chunks (th_images h ! j)) =
      unat (rg_off chunks) + hash_bytes (take (Suc j) imgs)" if "j < n" for j
    using that len assms(4) by (simp add: at hash_bytes_take_Suc)
  show ?thesis unfolding hash_slice_safe_def
  proof (intro conjI allI impI)
    show "512 \<le> unat (offs ! k)" using at [OF assms(8)] ch(1) by simp
    show "unat (offs ! k) + 32 * unat (im_num_chunks (th_images h ! k)) + 64 \<le> unat (th_total_len h)"
      using nxt [OF assms(8)] upto [of "Suc k"] assms(3,8) by simp
    fix j assume "j < k"
    then show "unat (offs ! j) + 32 * unat (im_num_chunks (th_images h ! j)) \<le> unat (offs ! k)"
      using nxt [of j] at [OF assms(8)] hash_bytes_take_mono [of "Suc j" k imgs] assms(8) by simp
  qed
qed

lemma header_images_length [simp]: "length (th_images (tbm1_header_at b)) = 4"
  by (simp add: tbm1_header_at_def TBM1_MAX_IMAGES_def)

lemma validate_parts:
  "tbm1_validate dev addr buf mcap scap = (TBM1_OK, offs) \<longleftrightarrow>
     tbm1_precheck addr buf mcap = TBM1_OK \<and>
     tbm1_validate_regions (tbm1_header_at buf) = TBM1_OK \<and>
     tbm1_validate_images dev (tbm1_header_at buf) scap = (TBM1_OK, offs)"
  by (auto simp: tbm1_validate_def Let_def)

text \<open>C16. A manifest that passes the whole validator fits its buffer, its fixed part has the right
checksum, and for every image the chunk-hash slice handed back lies inside the signed bytes behind
the header, before the signature, after the slices of the earlier images, while the image's staged
data lies inside the staging area.\<close>

theorem validate_accepts_safely:
  assumes "tbm1_validate dev addr buf manifest_cap staging_cap = (TBM1_OK, offs)"
  shows "let h = tbm1_header_at buf in
    addr \<noteq> 0 \<and> unat (th_total_len h) \<le> manifest_cap \<and>
    compute_boot_crc32 (take 508 buf) = th_fixed_crc32 h \<and>
    length offs = unat (th_image_count h) \<and>
    (\<forall>k < length offs. hash_slice_safe h offs k \<and> image_ok staging_cap (th_images h ! k))"
proof -
  let ?h = "tbm1_header_at buf"
  let ?n = "unat (th_image_count ?h)"
  let ?imgs = "take ?n (th_images ?h)"
  note parts = assms [unfolded validate_parts]
  have pre: "addr \<noteq> 0" "unat (th_total_len ?h) \<le> manifest_cap"
      "compute_boot_crc32 (take 508 buf) = th_fixed_crc32 ?h"
      "tbm1_signed_len ?h + 64 = unat (th_total_len ?h)"
    using precheck_OK [of addr buf manifest_cap] parts by (auto simp: tbm1_signed_len_def tbm1_consts)
  have dir: "directory_ok 512 (tbm1_signed_len ?h) (th_regions ?h)"
    using parts validate_regions_char by blast
  obtain chunks where ch: "tbm1_find_region ?h 1 = Some chunks" "?n \<le> 4"
      "list_all (image_ok staging_cap) ?imgs" "hash_bytes ?imgs = unat (rg_len chunks)"
      "offs = map of_nat (hash_offsets (unat (rg_off chunks)) ?imgs)"
    using parts validate_images_char [of dev ?h staging_cap offs] by (auto simp: Let_def)
  have len: "length offs = ?n" using ch(2,5) by (simp add: hash_offsets_def)
  have "hash_slice_safe ?h offs k \<and> image_ok staging_cap (th_images ?h ! k)" if "k < ?n" for k
    using hash_slices_inside [OF dir ch(1) pre(4) refl _ ch(4,5) that] ch(2,3) that
    by (simp add: list_all_length)
  then show ?thesis using pre len by (simp add: Let_def)
qed

text \<open>A manifest of two images and two regions, 704 bytes with its signature.\<close>

definition demo_manifest :: "u8 list" where
  "demo_manifest =
     [84, 66, 77, 49, 2, 0, 0, 2, 192, 2, 0, 0, 0, 0, 0, 0, 0, 0, 0, 0, 0, 0, 0, 0, 1, 2, 3, 0,
      2, 0, 0, 0, 0, 0, 0, 0, 0, 0, 0, 0, 0, 0, 0, 0, 0, 0, 0, 0, 0, 0, 0, 0, 0, 0, 0, 0, 0, 0,
      0, 0, 0, 0, 0, 0, 0, 0, 0, 0, 0, 0, 0, 0, 0, 0, 0, 0, 0, 0, 0, 0, 0, 0, 0, 0, 0, 0, 0, 0,
      1, 0, 0, 0, 0, 2, 0, 0, 96, 0, 0, 0, 0, 1, 0, 0, 96, 2, 0, 0, 32, 0, 0, 0, 0, 0, 0, 0, 0,
      0, 0, 0, 0, 0, 0, 0, 0, 0, 0, 0, 0, 0, 0, 0, 0, 0, 0, 0, 0, 0, 0, 0, 0, 0, 0, 0, 0, 0, 0,
      0, 0, 0, 0, 0, 0, 0, 0, 0, 0, 0, 0, 0, 0, 0, 0, 0, 0, 0, 0, 0, 0, 0, 0, 0, 0, 0, 0, 0, 0,
      0, 0, 0, 0, 0, 0, 0, 0, 0, 0, 0, 0, 0, 0, 0, 0, 32, 0, 0, 0, 32, 0, 0, 0, 16, 0, 0, 2, 0,
      0, 0, 0, 0, 0, 0, 0, 0, 0, 0, 0, 0, 0, 0, 0, 0, 0, 0, 0, 0, 0, 0, 1, 1, 1, 0, 0, 32, 0, 0,
      100, 0, 0, 0, 160, 15, 0, 0, 0, 16, 0, 0, 1, 0, 0, 0, 0, 0, 0, 0, 0, 0, 0, 0, 0, 0, 0, 0,
      0, 0, 0, 0, 0, 0, 0, 0, 0, 0, 0, 0, 0, 0, 0, 0, 0, 0, 0, 0, 0, 0, 0, 0, 0, 0, 0, 0, 0, 0,
      0, 0, 0, 0, 0, 0, 0, 0, 0, 0, 0, 0, 0, 0, 0, 0, 0, 0, 0, 0, 0, 0, 0, 0, 0, 0, 0, 0, 0, 0,
      0, 0, 0, 0, 0, 0, 0, 0, 0, 0, 0, 0, 0, 0, 0, 0, 0, 0, 0, 0, 0, 0, 0, 0, 0, 0, 0, 0, 0, 0,
      0, 0, 0, 0, 0, 0, 0, 0, 0, 0, 0, 0, 0, 0, 0, 0, 0, 0, 0, 0, 0, 0, 0, 0, 0, 0, 0, 0, 0, 0,
      0, 0, 0, 0, 0, 0, 0, 0, 0, 0, 0, 0, 0, 0, 0, 0, 0, 0, 0, 0, 0, 0, 0, 0, 0, 0, 0, 0, 0, 0,
      0, 0, 0, 0, 0, 0, 0, 0, 0, 0, 0, 0, 0, 0, 0, 0, 0, 0, 0, 0, 0, 0, 0, 0, 0, 0, 0, 0, 0, 0,
      0, 0, 0, 0, 0, 0, 0, 0, 0, 0, 0, 0, 0, 0, 0, 0, 0, 0, 0, 0, 0, 0, 0, 0, 0, 0, 0, 0, 0, 0,
      0, 0, 0, 0, 0, 0, 0, 0, 0, 0, 0, 0, 0, 0, 0, 0, 0, 0, 0, 0, 0, 0, 0, 0, 0, 0, 0, 0, 0, 0,
      0, 0, 0, 0, 186, 1, 82, 101]"

lemma demo_crc: "compute_boot_crc32 (take 508 demo_manifest) = 0x655201BA"
  by (simp add: demo_manifest_def compute_boot_crc32_def crc32_byte_unroll crc32_bit_def
      TOOB_CRC32_POLY_def TOOB_CRC32_INIT_def TOOB_CRC32_FINAL_XOR_def)

lemmas tbm1_parse = tbm1_header_at_def tbm1_image_at_def tbm1_region_at_def slice_of_def rd8_def
  rd16_def rd32_def le16_def le32_def TBM1_MAX_IMAGES_def TBM1_MAX_REGIONS_def upt_rec

definition demo_region :: "u16 \<Rightarrow> u32 \<Rightarrow> u32 \<Rightarrow> tbm1_region" where
  "demo_region i o' l = \<lparr> rg_region_id = i, rg_rsvd = 0, rg_off = o', rg_len = l \<rparr>"

definition demo_image :: "u8 list \<Rightarrow> u32 list \<Rightarrow> tbm1_image_desc" where
  "demo_image b w = \<lparr> im_image_type = b ! 0, im_target_slot = b ! 1, im_compression_alg = b ! 2,
     im_delta_alg = b ! 3, im_data_off = w ! 0, im_stored_size = w ! 1, im_installed_size = w ! 2,
     im_chunk_size = w ! 3, im_num_chunks = w ! 4, im_base_svn = 0, im_ver_major = 0,
     im_ver_minor = 0, im_ver_patch = 0, im_base_fingerprint = replicate 8 0 \<rparr>"

definition demo_header :: tbm1_header where
  "demo_header = \<lparr> th_magic = TBM1_MAGIC, th_version_major = 2, th_version_minor = 0,
     th_fixed_len = 512, th_total_len = 704, th_flags_critical = 0, th_flags_info = 0,
     th_vendor_id = 0, th_product_id = 0, th_hw_rev_min = 0, th_hw_rev_max = 0, th_key_index = 1,
     th_image_count = 2, th_boot_retry_limit = 3, th_min_reader_major = 2,
     th_min_reader_minor = 0, th_svn = 0, th_stage1_svn = 0, th_key_epoch = 0,
     th_build_number = 0, th_fw_ver_major = 0, th_fw_ver_minor = 0, th_fw_ver_patch = 0,
     th_sbom_digest = replicate 32 0,
     th_regions = [demo_region 1 512 96, demo_region 0x100 608 32] @ replicate 6 (demo_region 0 0 0),
     th_images = [demo_image [0, 0, 0, 0] [0, 8192, 8192, 4096, 2],
       demo_image [1, 1, 1, 0] [8192, 100, 4000, 4096, 1]] @
       replicate 2 (demo_image [0, 0, 0, 0] [0, 0, 0, 0, 0]),
     th_fixed_crc32 = 0x655201BA \<rparr>"

lemma demo_header_parsed: "tbm1_header_at demo_manifest = demo_header"
  by (simp add: demo_manifest_def demo_header_def demo_region_def demo_image_def tbm1_parse
      TBM1_MAGIC_def replicate_numeral)

lemma demo_validates:
  "tbm1_validate tbm1_default_device 0x20000000 demo_manifest 4096 16384 = (TBM1_OK, [512, 576])"
proof -
  have pre: "tbm1_precheck 0x20000000 demo_manifest 4096 = TBM1_OK"
    unfolding tbm1_precheck_def demo_header_parsed
    by (simp add: demo_header_def tbm1_consts demo_crc Let_def)
  have reg: "tbm1_validate_regions demo_header = TBM1_OK"
    by (simp add: demo_header_def tbm1_validate_regions_def tbm1_signed_len_def tbm1_consts
        demo_region_def Let_def replicate_numeral)
  have img: "tbm1_validate_images tbm1_default_device demo_header 16384 = (TBM1_OK, [512, 576])"
    by (simp add: demo_header_def tbm1_validate_images_def tbm1_default_device_def tbm1_consts
        tbm1_find_region_def demo_region_def demo_image_def ceil_div_u32_def)
  show ?thesis unfolding validate_parts demo_header_parsed using pre reg img by simp
qed

lemma validate_accepts_safely_witness:
  "length [512 :: u32, 576] = unat (th_image_count (tbm1_header_at demo_manifest)) \<and>
   hash_slice_safe (tbm1_header_at demo_manifest) [512, 576] 1"
  using validate_accepts_safely [OF demo_validates] by (simp add: Let_def)

end
