(* ===== verification/Boot_Hal.thy ===== *)
theory Boot_Hal
  imports Boot_Types
begin

text \<open>
  The hardware abstraction layer of \<open>common/include/boot_hal.h\<close>. The chip drivers behind it are
  installed from a registry and are not part of this repository, so every HAL call is a field
  of a record and the state \<open>'s\<close> behind it (flash array, watchdog, clock, UART, fuses) is a type
  parameter: a call takes the device state and returns the next one with its results.

  \<^item> \<open>boot_platform_t\<close> is \<open>platform\<close>; its sub-HAL pointers are options, \<open>None\<close> for \<open>NULL\<close>.
  \<^item> Callbacks the initialiser macros make mandatory (\<open>TOOB_FLASH_HAL_V2\<close> and its kin) are plain
    functions; the callbacks that may be \<open>NULL\<close> are options.
  \<^item> A call that fills a caller's buffer returns the bytes it put there.
  \<^item> Pointer arguments other than the HAL's are references to existing objects; a model function
    takes the object.

  \<open>flash_contract\<close> states what the core relies on from a flash driver and a watchdog driver;
  \<open>uart_contract\<close> does the same for the console.
\<close>

section \<open>The HAL records\<close>

record 's flash_hal =
  fh_read :: "u32 \<Rightarrow> nat \<Rightarrow> 's \<Rightarrow> boot_status \<times> u8 list \<times> 's"
  fh_write :: "u32 \<Rightarrow> u8 list \<Rightarrow> 's \<Rightarrow> boot_status \<times> 's"
  fh_erase_sector :: "u32 \<Rightarrow> 's \<Rightarrow> boot_status \<times> 's"
  fh_get_sector_size :: "u32 \<Rightarrow> 's \<Rightarrow> boot_status \<times> nat"
  fh_max_sector_size :: u32
  fh_total_size :: u32
  fh_max_erase_cycles :: u32
  fh_write_align :: u8
  fh_erased_value :: u8
  fh_erase_time_us_max :: u32
  fh_write_time_us_page :: u32
  fh_get_supply_mv :: "('s \<Rightarrow> boot_status \<times> u32 \<times> 's) option"

record 's wdt_hal =
  wh_kick :: "('s \<Rightarrow> 's) option"
  wh_suspend_for_critical_section :: "('s \<Rightarrow> 's) option"
  wh_resume :: "('s \<Rightarrow> 's) option"

record 's crypto_hal =
  ch_hash_init :: "u8 list \<Rightarrow> 's \<Rightarrow> boot_status \<times> u8 list \<times> 's"
  ch_hash_update :: "u8 list \<Rightarrow> u8 list \<Rightarrow> 's \<Rightarrow> boot_status \<times> u8 list \<times> 's"
  ch_hash_finish :: "u8 list \<Rightarrow> nat \<Rightarrow> 's \<Rightarrow> boot_status \<times> u8 list \<times> nat \<times> 's"
  ch_get_hash_ctx_size :: nat
  ch_random :: "(nat \<Rightarrow> 's \<Rightarrow> boot_status \<times> u8 list \<times> 's) option"
  ch_read_monotonic_counter :: "('s \<Rightarrow> boot_status \<times> u32 \<times> 's) option"
  ch_read_chip_uid :: "(nat \<Rightarrow> 's \<Rightarrow> boot_status \<times> u8 list \<times> nat \<times> 's) option"
  ch_read_pubkey :: "(nat \<Rightarrow> u8 \<Rightarrow> 's \<Rightarrow> boot_status \<times> u8 list \<times> 's) option"
  ch_verify_signature :: "(u8 list \<Rightarrow> u8 list \<Rightarrow> u8 list \<Rightarrow> 's \<Rightarrow> boot_status \<times> 's) option"
  ch_verify_pqc :: "(u8 list \<Rightarrow> u8 list \<Rightarrow> u8 list \<Rightarrow> 's \<Rightarrow> boot_status \<times> 's) option"
  ch_read_dslc :: "(nat \<Rightarrow> 's \<Rightarrow> boot_status \<times> u8 list \<times> nat \<times> 's) option"
  ch_write_dslc :: "(u8 list \<Rightarrow> 's \<Rightarrow> boot_status \<times> 's) option"
  ch_advance_monotonic_counter :: "('s \<Rightarrow> boot_status \<times> 's) option"
  ch_is_pqc_enforced :: "('s \<Rightarrow> bool \<times> 's) option"
  ch_verify_signature_ph :: "(u8 list \<Rightarrow> u8 list \<Rightarrow> u8 list \<Rightarrow> 's \<Rightarrow> boot_status \<times> 's) option"

record 's clock_hal =
  kh_get_tick_ms :: "('s \<Rightarrow> u32 \<times> 's) option"
  kh_delay_ms :: "(u32 \<Rightarrow> 's \<Rightarrow> 's) option"
  kh_get_reset_reason :: "('s \<Rightarrow> reset_reason \<times> 's) option"

record 's console_hal =
  oh_putchar :: "(u8 \<Rightarrow> 's \<Rightarrow> 's) option"
  oh_getchar :: "(u32 \<Rightarrow> 's \<Rightarrow> boot_status \<times> u8 \<times> 's) option"
  oh_flush :: "('s \<Rightarrow> 's) option"

text \<open>The progress event of \<open>toob_swap_event_wire.h\<close>.\<close>

datatype swap_phase = SWAP_PHASE_PREPARE | SWAP_PHASE_SWAPPING | SWAP_PHASE_DONE |
  SWAP_PHASE_RESUMED | SWAP_PHASE_RECOVERY

record swap_event =
  ev_abi_version :: u16
  ev_phase :: swap_phase
  ev_sectors_done :: u32
  ev_sectors_total :: u32
  ev_flags :: u32

record 's soc_hal =
  sh_battery_level_mv :: "('s \<Rightarrow> u32 \<times> 's) option"
  sh_can_sustain_update :: "('s \<Rightarrow> bool \<times> 's) option"
  sh_enter_low_power :: "(u32 \<Rightarrow> 's \<Rightarrow> 's) option"
  sh_read_rtc_backup :: "(u8 \<Rightarrow> 's \<Rightarrow> boot_status \<times> u32 \<times> 's) option"
  sh_write_rtc_backup :: "(u8 \<Rightarrow> u32 \<Rightarrow> 's \<Rightarrow> boot_status \<times> 's) option"
  sh_min_battery_mv :: u32
  sh_swap_notify :: "(swap_event \<Rightarrow> 's \<Rightarrow> 's) option"

record 's confirm_hal =
  nh_check_ok :: "(u64 \<Rightarrow> 's \<Rightarrow> bool \<times> 's) option"
  nh_clear :: "('s \<Rightarrow> boot_status \<times> 's) option"

text \<open>
  The capability sheet of a chip (\<open>boot_slot_caps.h\<close>). The arms of the union \<open>ops\<close> are one option
  each; \<open>exec_model\<close> says which of them is meant.
\<close>

datatype slot_exec_model =
  SLOT_EXEC_FIXED | SLOT_EXEC_RELOCATABLE | SLOT_EXEC_XIP_REMAP | SLOT_EXEC_BANK_SWAP

record 's slot_caps =
  sc_exec_model :: slot_exec_model
  sc_slot_count :: u8
  sc_has_scratch :: bool
  sc_scratch_size :: u32
  sc_max_erase_cycles :: u32
  sc_get_active_slot :: "('s \<Rightarrow> boot_status \<times> u32 \<times> 's) option"
  sc_bank_flip :: "(u32 \<Rightarrow> 's \<Rightarrow> boot_status \<times> 's) option"
  sc_xip_remap_commit :: "(u32 \<Rightarrow> 's \<Rightarrow> boot_status \<times> 's) option"
  sc_exec_addr_select :: "(u32 \<Rightarrow> 's \<Rightarrow> boot_status \<times> 's) option"

text \<open>The weak \<open>boot_get_slot_caps\<close> of \<open>core/boot_transport.c\<close>, for a given scratch slot size.\<close>

definition default_slot_caps :: "u32 \<Rightarrow> 's slot_caps" where
  "default_slot_caps scratch_size = \<lparr> sc_exec_model = SLOT_EXEC_FIXED, sc_slot_count = 1,
     sc_has_scratch = True, sc_scratch_size = scratch_size, sc_max_erase_cycles = 100000,
     sc_get_active_slot = None, sc_bank_flip = None, sc_xip_remap_commit = None,
     sc_exec_addr_select = None \<rparr>"

record 's platform =
  pf_flash :: "'s flash_hal option"
  pf_crypto :: "'s crypto_hal option"
  pf_clock :: "'s clock_hal option"
  pf_wdt :: "'s wdt_hal option"
  pf_console :: "'s console_hal option"
  pf_soc :: "'s soc_hal option"
  pf_confirm :: "'s confirm_hal option"
  pf_slot_caps :: "'s slot_caps option"

section \<open>Guarded watchdog calls\<close>

text \<open>\<open>if (platform->wdt && platform->wdt->kick) platform->wdt->kick();\<close> and its two siblings.\<close>

definition call_opt :: "('s \<Rightarrow> 's) option \<Rightarrow> 's \<Rightarrow> 's" where
  "call_opt f s = (case f of None \<Rightarrow> s | Some g \<Rightarrow> g s)"

definition wdt_kick :: "'s platform \<Rightarrow> 's \<Rightarrow> 's" where
  "wdt_kick p s = (case pf_wdt p of None \<Rightarrow> s | Some w \<Rightarrow> call_opt (wh_kick w) s)"

definition wdt_suspend :: "'s platform \<Rightarrow> 's \<Rightarrow> 's" where
  "wdt_suspend p s =
     (case pf_wdt p of None \<Rightarrow> s | Some w \<Rightarrow> call_opt (wh_suspend_for_critical_section w) s)"

definition wdt_resume :: "'s platform \<Rightarrow> 's \<Rightarrow> 's" where
  "wdt_resume p s = (case pf_wdt p of None \<Rightarrow> s | Some w \<Rightarrow> call_opt (wh_resume w) s)"

section \<open>What the core relies on from a flash driver\<close>

text \<open>
  \<open>mem s\<close> is the flash image of device state \<open>s\<close>, \<open>total\<close> bytes long, in sectors of \<open>sec\<close>
  bytes. \<open>live s\<close> holds while the driver works: reads inside the image return it, an erase of an
  aligned sector sets it to the erased value, a write of an aligned block whose target bytes
  admit it (NOR programming only clears bits) stores it. The watchdog does not touch the flash.
\<close>

definition programmable :: "u8 list \<Rightarrow> u8 list \<Rightarrow> bool" where
  "programmable old new \<longleftrightarrow> list_all2 (\<lambda>o' n'. o' AND n' = n') old new"

lemma programmable_append:
  "length a = length c \<Longrightarrow> programmable (a @ b) (c @ d) \<longleftrightarrow> programmable a c \<and> programmable b d"
  by (simp add: programmable_def list_all2_append)

lemma programmable_length: "programmable a b \<Longrightarrow> length a = length b"
  by (simp add: programmable_def list_all2_lengthD)

text \<open>
  A device that may lose power at any flash operation. While \<open>live\<close> every call either does its work
  and reports success, or the device dies in it: the call reports an error and what is left of
  a write or an erase is arbitrary bytes inside its target range. Once \<open>dead\<close>, calls report errors
  and the image stays as it is. Running the code on such a device up to its return is running
  it up to the power failure.
\<close>

locale mortal_flash =
  fixes p :: "'s platform" and fl :: "'s flash_hal" and mem :: "'s \<Rightarrow> u8 list"
    and live :: "'s \<Rightarrow> bool" and dead :: "'s \<Rightarrow> bool" and total :: nat and sec :: nat and walign :: nat
  assumes flash_ptr: "pf_flash p = Some fl"
    and sec_pos: "0 < sec"
    and sec_total: "total mod sec = 0"
    and walign_pos: "0 < walign"
    and sec_walign: "sec mod walign = 0"
    and total_addr: "total < 4294967296"
    and mem_len: "live s \<Longrightarrow> length (mem s) = total"
    and kick_mem: "mem (wdt_kick p s) = mem s" and kick_live: "live s \<Longrightarrow> live (wdt_kick p s)"
    and kick_dead: "dead s \<Longrightarrow> dead (wdt_kick p s)"
    and suspend_mem: "mem (wdt_suspend p s) = mem s"
    and suspend_live: "live s \<Longrightarrow> live (wdt_suspend p s)"
    and suspend_dead: "dead s \<Longrightarrow> dead (wdt_suspend p s)"
    and resume_mem: "mem (wdt_resume p s) = mem s"
    and resume_live: "live s \<Longrightarrow> live (wdt_resume p s)"
    and resume_dead: "dead s \<Longrightarrow> dead (wdt_resume p s)"
    and read_fate: "live s \<Longrightarrow> unat a + n \<le> total \<Longrightarrow>
       (\<exists>s'. fh_read fl a n s = (BOOT_OK, slice_of (unat a) n (mem s), s') \<and>
            mem s' = mem s \<and> live s') \<or>
       (\<exists>st d s'. fh_read fl a n s = (st, d, s') \<and> st \<noteq> BOOT_OK \<and> mem s' = mem s \<and> dead s')"
    and write_fate: "live s \<Longrightarrow> unat a + length d \<le> total \<Longrightarrow> unat a mod walign = 0 \<Longrightarrow>
       length d mod walign = 0 \<Longrightarrow> programmable (slice_of (unat a) (length d) (mem s)) d \<Longrightarrow>
       (\<exists>s'. fh_write fl a d s = (BOOT_OK, s') \<and> mem s' = patch (unat a) d (mem s) \<and> live s') \<or>
       (\<exists>st s'. fh_write fl a d s = (st, s') \<and> st \<noteq> BOOT_OK \<and>
          touches (unat a) (length d) (mem s) (mem s') \<and> dead s')"
    and erase_fate: "live s \<Longrightarrow> unat a < total \<Longrightarrow> unat a mod sec = 0 \<Longrightarrow>
       (\<exists>s'. fh_erase_sector fl a s = (BOOT_OK, s') \<and>
            mem s' = patch (unat a) (replicate sec (fh_erased_value fl)) (mem s) \<and> live s') \<or>
       (\<exists>st s'. fh_erase_sector fl a s = (st, s') \<and> st \<noteq> BOOT_OK \<and>
          touches (unat a) sec (mem s) (mem s') \<and> dead s')"
    and sector_size_law: "live s \<Longrightarrow> unat a < total \<Longrightarrow>
       fh_get_sector_size fl a s = (BOOT_OK, sec)"
    and dead_read: "dead s \<Longrightarrow>
       \<exists>st d s'. fh_read fl a n s = (st, d, s') \<and> st \<noteq> BOOT_OK \<and> mem s' = mem s \<and> dead s'"
    and dead_write: "dead s \<Longrightarrow>
       \<exists>st s'. fh_write fl a d s = (st, s') \<and> st \<noteq> BOOT_OK \<and> mem s' = mem s \<and> dead s'"
    and dead_erase: "dead s \<Longrightarrow>
       \<exists>st s'. fh_erase_sector fl a s = (st, s') \<and> st \<noteq> BOOT_OK \<and> mem s' = mem s \<and> dead s'"
begin

lemmas wdt_fates = kick_mem kick_live kick_dead suspend_mem suspend_live suspend_dead
  resume_mem resume_live resume_dead

text \<open>What a routine that works in \<open>[off, off + n)\<close> leaves when the power fails in it.\<close>

lemma dead_readE:
  assumes "dead s"
  obtains st d s' where "fh_read fl a n s = (st, d, s')" and "st \<noteq> BOOT_OK"
    and "mem s' = mem s" and "dead s'"
  using dead_read [OF assms] by blast

end

text \<open>The device that never dies.\<close>

locale flash_contract =
  fixes p :: "'s platform" and fl :: "'s flash_hal" and mem :: "'s \<Rightarrow> u8 list"
    and live :: "'s \<Rightarrow> bool" and total :: nat and sec :: nat and walign :: nat
  assumes flash_ptr: "pf_flash p = Some fl"
    and sec_pos: "0 < sec"
    and sec_total: "total mod sec = 0"
    and walign_pos: "0 < walign"
    and sec_walign: "sec mod walign = 0"
    and total_addr: "total < 4294967296"
    and mem_len: "live s \<Longrightarrow> length (mem s) = total"
    and kick_mem: "mem (wdt_kick p s) = mem s" and kick_live: "live s \<Longrightarrow> live (wdt_kick p s)"
    and suspend_mem: "mem (wdt_suspend p s) = mem s"
    and suspend_live: "live s \<Longrightarrow> live (wdt_suspend p s)"
    and resume_mem: "mem (wdt_resume p s) = mem s"
    and resume_live: "live s \<Longrightarrow> live (wdt_resume p s)"
    and read_law: "live s \<Longrightarrow> unat a + n \<le> total \<Longrightarrow>
       \<exists>s'. fh_read fl a n s = (BOOT_OK, slice_of (unat a) n (mem s), s') \<and>
            mem s' = mem s \<and> live s'"
    and write_law: "live s \<Longrightarrow> unat a + length d \<le> total \<Longrightarrow> unat a mod walign = 0 \<Longrightarrow>
       length d mod walign = 0 \<Longrightarrow> programmable (slice_of (unat a) (length d) (mem s)) d \<Longrightarrow>
       \<exists>s'. fh_write fl a d s = (BOOT_OK, s') \<and> mem s' = patch (unat a) d (mem s) \<and> live s'"
    and erase_law: "live s \<Longrightarrow> unat a < total \<Longrightarrow> unat a mod sec = 0 \<Longrightarrow>
       \<exists>s'. fh_erase_sector fl a s = (BOOT_OK, s') \<and>
            mem s' = patch (unat a) (replicate sec (fh_erased_value fl)) (mem s) \<and> live s'"
    and sector_size_law: "live s \<Longrightarrow> unat a < total \<Longrightarrow>
       fh_get_sector_size fl a s = (BOOT_OK, sec)"
begin

lemma readE:
  assumes "live s" and "unat a + n \<le> total"
  obtains s' where "fh_read fl a n s = (BOOT_OK, slice_of (unat a) n (mem s), s')"
    and "mem s' = mem s" and "live s'"
  using read_law [OF assms] by blast

lemma writeE:
  assumes "live s" and "unat a + length d \<le> total" and "unat a mod walign = 0"
    and "length d mod walign = 0" and "programmable (slice_of (unat a) (length d) (mem s)) d"
  obtains s' where "fh_write fl a d s = (BOOT_OK, s')"
    and "mem s' = patch (unat a) d (mem s)" and "live s'"
  using write_law [OF assms] by blast

lemma eraseE:
  assumes "live s" and "unat a < total" and "unat a mod sec = 0"
  obtains s' where "fh_erase_sector fl a s = (BOOT_OK, s')"
    and "mem s' = patch (unat a) (replicate sec (fh_erased_value fl)) (mem s)" and "live s'"
  using erase_law [OF assms] by blast

lemma sector_end: "unat a < total \<Longrightarrow> unat a mod sec = 0 \<Longrightarrow> unat (a :: u32) + sec \<le> total"
  by (metis sec_total sec_pos add_0 dvd_add_right_iff dvd_imp_le dvd_minus_mod le_add_diff_inverse
      less_imp_le_nat mod_0_imp_dvd dvd_diff_nat diff_is_0_eq' not_less zero_less_diff
      le_diff_conv2 add.commute)

lemmas wdt_laws = kick_mem kick_live suspend_mem suspend_live resume_mem resume_live

end

sublocale flash_contract \<subseteq> mortal: mortal_flash p fl mem live "\<lambda>_. False" total sec walign
proof unfold_locales
  show "live s \<Longrightarrow> unat a + n \<le> total \<Longrightarrow>
       (\<exists>s'. fh_read fl a n s = (BOOT_OK, slice_of (unat a) n (mem s), s') \<and>
            mem s' = mem s \<and> live s') \<or>
       (\<exists>st d s'. fh_read fl a n s = (st, d, s') \<and> st \<noteq> BOOT_OK \<and> mem s' = mem s \<and> False)" for s a n
    by (rule disjI1) (rule read_law)
  show "live s \<Longrightarrow> unat a + length d \<le> total \<Longrightarrow> unat a mod walign = 0 \<Longrightarrow>
       length d mod walign = 0 \<Longrightarrow> programmable (slice_of (unat a) (length d) (mem s)) d \<Longrightarrow>
       (\<exists>s'. fh_write fl a d s = (BOOT_OK, s') \<and> mem s' = patch (unat a) d (mem s) \<and> live s') \<or>
       (\<exists>st s'. fh_write fl a d s = (st, s') \<and> st \<noteq> BOOT_OK \<and>
          touches (unat a) (length d) (mem s) (mem s') \<and> False)" for s a d
    by (rule disjI1) (rule write_law)
  show "live s \<Longrightarrow> unat a < total \<Longrightarrow> unat a mod sec = 0 \<Longrightarrow>
       (\<exists>s'. fh_erase_sector fl a s = (BOOT_OK, s') \<and>
            mem s' = patch (unat a) (replicate sec (fh_erased_value fl)) (mem s) \<and> live s') \<or>
       (\<exists>st s'. fh_erase_sector fl a s = (st, s') \<and> st \<noteq> BOOT_OK \<and>
          touches (unat a) sec (mem s) (mem s') \<and> False)" for s a
    by (rule disjI1) (rule erase_law)
qed (auto simp: flash_ptr sec_pos sec_total walign_pos sec_walign total_addr mem_len wdt_laws sector_size_law)

section \<open>What the core relies on from a hash engine\<close>

text \<open>
  The engine computes a function \<open>H\<close> with 32-byte values of the bytes fed to it;
  \<open>absorbed ctx s xs\<close> says that context \<open>ctx\<close> has taken in \<open>xs\<close>. Hashing leaves the flash alone.
\<close>

locale hash_contract =
  fixes c :: "'s crypto_hal" and H :: "u8 list \<Rightarrow> u8 list"
    and absorbed :: "u8 list \<Rightarrow> 's \<Rightarrow> u8 list \<Rightarrow> bool"
    and mem :: "'s \<Rightarrow> u8 list" and live :: "'s \<Rightarrow> bool"
  assumes ctx_fits: "ch_get_hash_ctx_size c \<le> 256"
    and H_len: "length (H d) = 32"
    and init_law: "live s \<Longrightarrow> \<exists>x s'. ch_hash_init c ctx s = (BOOT_OK, x, s') \<and> absorbed x s' [] \<and>
       mem s' = mem s \<and> live s'"
    and update_law: "live s \<Longrightarrow> absorbed ctx s xs \<Longrightarrow>
       \<exists>x s'. ch_hash_update c ctx d s = (BOOT_OK, x, s') \<and> absorbed x s' (xs @ d) \<and>
       mem s' = mem s \<and> live s'"
    and finish_law: "live s \<Longrightarrow> absorbed ctx s xs \<Longrightarrow>
       \<exists>s'. ch_hash_finish c ctx 32 s = (BOOT_OK, H xs, 32, s') \<and> mem s' = mem s \<and> live s'"
begin

lemma hash_once:
  assumes "live s"
  shows "\<exists>x1 s1 x2 s2 s3. ch_hash_init c ctx s = (BOOT_OK, x1, s1) \<and>
       ch_hash_update c x1 d s1 = (BOOT_OK, x2, s2) \<and>
       ch_hash_finish c x2 32 s2 = (BOOT_OK, H d, 32, s3) \<and> mem s3 = mem s \<and> live s3"
proof -
  obtain x1 s1 where 1: "ch_hash_init c ctx s = (BOOT_OK, x1, s1)" "absorbed x1 s1 []"
    "mem s1 = mem s" "live s1" using init_law [OF assms] by blast
  obtain x2 s2 where 2: "ch_hash_update c x1 d s1 = (BOOT_OK, x2, s2)" "absorbed x2 s2 ([] @ d)"
    "mem s2 = mem s1" "live s2" using update_law [OF 1(4,2)] by blast
  then show ?thesis using 1 finish_law [OF 2(4,2)] by auto
qed

end

section \<open>What the serial protocols rely on from a console driver\<close>

text \<open>
  \<open>tx s\<close> is what has been put on the line, \<open>rx s\<close> the results the next \<open>getchar\<close> calls give:
  \<open>Some c\<close> a byte, \<open>None\<close> a timeout. Feeding the watchdog changes neither.
\<close>

locale uart_contract =
  fixes p :: "'s platform" and con :: "'s console_hal"
    and put :: "u8 \<Rightarrow> 's \<Rightarrow> 's" and get :: "u32 \<Rightarrow> 's \<Rightarrow> boot_status \<times> u8 \<times> 's"
    and tx :: "'s \<Rightarrow> u8 list" and rx :: "'s \<Rightarrow> u8 option list"
  assumes console: "pf_console p = Some con"
    and put_ptr: "oh_putchar con = Some put" and get_ptr: "oh_getchar con = Some get"
    and kick_tx: "tx (wdt_kick p s) = tx s" and kick_rx: "rx (wdt_kick p s) = rx s"
    and flush_tx: "tx (call_opt (oh_flush con) s) = tx s"
    and flush_rx: "rx (call_opt (oh_flush con) s) = rx s"
    and put_tx: "tx (put c s) = tx s @ [c]" and put_rx: "rx (put c s) = rx s"
    and get_byte: "rx s = Some c # r \<Longrightarrow>
       \<exists>s'. get t s = (BOOT_OK, c, s') \<and> rx s' = r \<and> tx s' = tx s"
    and get_timeout: "rx s = None # r \<Longrightarrow>
       \<exists>st c s'. get t s = (st, c, s') \<and> st \<noteq> BOOT_OK \<and> rx s' = r \<and> tx s' = tx s"

end
