(* ===== verification/Recovery_Port.thy ===== *)
theory Recovery_Port
  imports Boot_Hal
begin

text \<open>
  The host-side serial console of the Recovery OS port (\<open>recovery/recovery_port.c\<close>, the
  \<open>TOOB_HOST_FUZZING\<close> half): \<open>getchar\<close> on the process's standard input, where end of file is a
  timeout, and \<open>putchar\<close> on its standard output. It is the console the repository itself ships,
  and it discharges \<open>uart_contract\<close>.
\<close>

section \<open>Standard streams\<close>

text \<open>
  \<open>ht_stdin\<close> holds the results of the coming \<open>getchar\<close> calls of the C library: \<open>Some c\<close> a byte,
  \<open>None\<close> an \<open>EOF\<close>. After the last one every call gives \<open>EOF\<close>.
\<close>

record host_tty =
  ht_stdin :: "u8 option list"
  ht_stdout :: "u8 list"

definition recovery_serial_getchar :: "u32 \<Rightarrow> host_tty \<Rightarrow> boot_status \<times> u8 \<times> host_tty" where
  "recovery_serial_getchar timeout_ms h =
     (case ht_stdin h of
        [] \<Rightarrow> (BOOT_ERR_TIMEOUT, 0, h)
      | None # r \<Rightarrow> (BOOT_ERR_TIMEOUT, 0, h\<lparr>ht_stdin := r\<rparr>)
      | Some c # r \<Rightarrow> (BOOT_OK, c, h\<lparr>ht_stdin := r\<rparr>))"

definition recovery_serial_putchar :: "u8 \<Rightarrow> host_tty \<Rightarrow> host_tty" where
  "recovery_serial_putchar c h = h\<lparr>ht_stdout := ht_stdout h @ [c]\<rparr>"

definition host_console :: "host_tty console_hal" where
  "host_console = \<lparr> oh_putchar = Some recovery_serial_putchar,
     oh_getchar = Some recovery_serial_getchar, oh_flush = None \<rparr>"

definition host_console_platform :: "host_tty platform" where
  "host_console_platform = \<lparr> pf_flash = None, pf_crypto = None, pf_clock = None, pf_wdt = None,
     pf_console = Some host_console, pf_soc = None,
     pf_confirm = None, pf_slot_caps = None \<rparr>"

interpretation tty: uart_contract host_console_platform host_console recovery_serial_putchar
    recovery_serial_getchar ht_stdout ht_stdin
  by unfold_locales
    (auto simp: host_console_platform_def host_console_def wdt_kick_def call_opt_def
      recovery_serial_putchar_def recovery_serial_getchar_def)

end
