(* ===== verification/Boot_Cobs.thy ===== *)
theory Boot_Cobs
  imports Recovery_Port "HOL-Library.Monad_Syntax"
begin

text \<open>
  \<open>toobloader/core/utils/boot_cobs.c\<close>: the COBS framing of the serial rescue and provisioning
  protocols. The encoder writes to the console byte by byte; the decoder works in place on the
  received buffer; the receiver collects bytes up to the next marker.

  In the decoder every buffer access is checked: \<open>None\<close> stands for an access outside the buffer,
  which C leaves undefined, so a result \<open>Some r\<close> includes that no such access happened. The
  receiver loops until a frame arrives; \<open>None\<close> stands for never returning.
\<close>

section \<open>Sending\<close>

text \<open>
  The inner loop that looks for the end of a block: at most 254 data bytes, none of them zero.
  \<open>ds\<close> is the payload from index \<open>ptr\<close> on; the result is the block and its code.
\<close>

fun cobs_scan :: "u8 list \<Rightarrow> u8 \<Rightarrow> u8 list \<times> u8" where
  "cobs_scan [] code = ([], code)"
| "cobs_scan (d # ds) code =
     (if d \<noteq> 0 \<and> code < 0xFF
      then (case cobs_scan ds (code + 1) of (blk, c) \<Rightarrow> (d # blk, c))
      else ([], code))"

text \<open>\<open>if (ptr < len && data[ptr] == 0) ptr++;\<close>\<close>

fun skip_zero :: "u8 list \<Rightarrow> u8 list" where
  "skip_zero [] = []"
| "skip_zero (d # ds) = (if d = 0 then ds else d # ds)"

lemma length_skip_zero: "length (skip_zero xs) \<le> length xs"
  by (cases xs) auto

lemma cobs_scan_first_nonempty:
  "cobs_scan (d # ds) 1 = (blk, c) \<Longrightarrow> blk = [] \<longleftrightarrow> d = 0"
  by (auto split: if_splits prod.splits)

lemma cobs_progress:
  assumes "data \<noteq> []" and "cobs_scan data 1 = (blk, c)"
  shows "length (skip_zero (drop (length blk) data)) < length data"
proof -
  obtain d ds where d: "data = d # ds" using assms(1) by (cases data) auto
  show ?thesis
  proof (cases "d = 0")
    case True
    then have "blk = []" using assms(2) d by simp
    then show ?thesis using True d by simp
  next
    case False
    then have "blk \<noteq> []" using cobs_scan_first_nonempty assms(2) d by blast
    then have "length (drop (length blk) data) < length data" using d by simp
    then show ?thesis using length_skip_zero order.strict_trans1 by blast
  qed
qed

function cobs_send_loop :: "'s platform \<Rightarrow> (u8 \<Rightarrow> 's \<Rightarrow> 's) \<Rightarrow> u8 list \<Rightarrow> 's \<Rightarrow> 's" where
  "cobs_send_loop p put data s =
     (if data = [] then s
      else case cobs_scan data 1 of (blk, code) \<Rightarrow>
        let s = put code s;
            s = fold (\<lambda>d s. wdt_kick p (put d s)) blk s
        in cobs_send_loop p put (skip_zero (drop (length blk) data)) s)"
  by pat_completeness auto
termination
proof (relation "measure (\<lambda>(p, put, data, s). length data)", simp)
  fix p :: "'s platform" and put data s and blk :: "u8 list" and code and x
  assume "data \<noteq> []" and "(blk, code) = cobs_scan data 1"
  then show "\<And>xa xb. ((p, put, skip_zero (drop (length blk) data), xb), p, put, data, s)
      \<in> measure (\<lambda>(p, put, data, s). length data)"
    using cobs_progress by simp metis
qed

declare cobs_send_loop.simps [simp del]

definition boot_cobs_send_frame :: "'s platform \<Rightarrow> u8 list \<Rightarrow> 's \<Rightarrow> 's" where
  "boot_cobs_send_frame p data s =
     (case pf_console p of None \<Rightarrow> s
      | Some con \<Rightarrow> (case oh_putchar con of None \<Rightarrow> s
        | Some put \<Rightarrow>
            (if length data = 0 then s
             else
               let s = put 0x00 s;
                   s = cobs_send_loop p put data s;
                   s = put 0x00 s
               in call_opt (oh_flush con) s)))"

section \<open>Decoding in place\<close>

definition rd_at :: "u8 list \<Rightarrow> nat \<Rightarrow> u8 option" where
  "rd_at data i = (if i < length data then Some (data ! i) else None)"

definition wr_at :: "u8 list \<Rightarrow> nat \<Rightarrow> u8 \<Rightarrow> u8 list option" where
  "wr_at data i v = (if i < length data then Some (data[i := v]) else None)"

text \<open>\<open>for (i = 0; i < copy_len; i++) data[write_idx++] = data[read_idx++];\<close>\<close>

fun cobs_copy :: "nat \<Rightarrow> u8 list \<Rightarrow> nat \<Rightarrow> nat \<Rightarrow> (u8 list \<times> nat \<times> nat) option" where
  "cobs_copy 0 data read_idx write_idx = Some (data, read_idx, write_idx)"
| "cobs_copy (Suc n) data read_idx write_idx =
     do { v \<leftarrow> rd_at data read_idx;
          data \<leftarrow> wr_at data write_idx v;
          cobs_copy n data (read_idx + 1) (write_idx + 1) }"

lemma cobs_copy_read: "cobs_copy n data r w = Some (data', r', w') \<Longrightarrow> r' = r + n \<and> w' = w + n \<and>
    length data' = length data"
  by (induction n data r w rule: cobs_copy.induct)
    (auto simp: bind_eq_Some_conv rd_at_def wr_at_def split: if_splits)

function cobs_decode_loop ::
  "u8 list \<Rightarrow> nat \<Rightarrow> nat \<Rightarrow> nat \<Rightarrow> (boot_status \<times> u8 list \<times> nat) option" where
  "cobs_decode_loop data len read_idx write_idx =
     (if read_idx < len then
        do { code \<leftarrow> rd_at data read_idx;
             let read_idx = read_idx + 1;
             if code = 0 then Some (BOOT_ERR_INVALID_ARG, data, write_idx)
             else
               let copy_len = unat (code - 1)
               in if \<not> secure_require (len - read_idx \<ge> copy_len)
                  then Some (BOOT_ERR_INVALID_ARG, data, write_idx)
                  else do { (data, read_idx', write_idx) \<leftarrow> cobs_copy copy_len data read_idx write_idx;
                            if code < 0xFF \<and> read_idx' < len then
                              if write_idx \<ge> len then Some (BOOT_ERR_INVALID_ARG, data, write_idx)
                              else do { data \<leftarrow> wr_at data write_idx 0x00;
                                        cobs_decode_loop data len read_idx' (write_idx + 1) }
                            else cobs_decode_loop data len read_idx' write_idx } }
      else Some (BOOT_OK, data, write_idx))"
  by pat_completeness auto
termination
  by (relation "measure (\<lambda>(data, len, r, w). len - r)") (auto dest!: cobs_copy_read)

declare cobs_decode_loop.simps [simp del]

text \<open>
  The result is the status, the buffer afterwards and \<open>*out_len\<close> (written on success only).
\<close>

definition boot_cobs_decode_in_place ::
  "u8 list \<Rightarrow> (boot_status \<times> u8 list \<times> nat option) option" where
  "boot_cobs_decode_in_place data =
     (if length data = 0 then Some (BOOT_ERR_INVALID_ARG, data, None)
      else do { (st, data', write_idx) \<leftarrow> cobs_decode_loop data (length data) 0 0;
                if st \<noteq> BOOT_OK then Some (st, data', None)
                else
                  let data' = (if write_idx < length data
                               then take write_idx data' @ zeroed (length data - write_idx)
                               else data')
                  in Some (BOOT_OK, data', Some write_idx) })"

section \<open>Receiving\<close>

partial_function (option) cobs_recv_loop ::
  "'s platform \<Rightarrow> (u32 \<Rightarrow> 's \<Rightarrow> boot_status \<times> u8 \<times> 's) \<Rightarrow> u8 list \<Rightarrow> nat \<Rightarrow> 's
     \<Rightarrow> (boot_status \<times> u8 list \<times> nat option \<times> 's) option" where
  "cobs_recv_loop p get buf rx_len s =
     (let s = wdt_kick p s
      in case get 100 s of (st, c, s) \<Rightarrow>
        if st \<noteq> BOOT_OK then cobs_recv_loop p get buf rx_len s
        else if c = 0x00 then
          (if rx_len > 0 then Some (BOOT_OK, buf, Some rx_len, s)
           else cobs_recv_loop p get buf rx_len s)
        else if rx_len < length buf then cobs_recv_loop p get (buf[rx_len := c]) (rx_len + 1) s
        else cobs_recv_loop p get (zeroed (length buf)) 0 s)"

definition boot_cobs_recv_frame ::
  "'s platform \<Rightarrow> u8 list \<Rightarrow> 's \<Rightarrow> (boot_status \<times> u8 list \<times> nat option \<times> 's) option" where
  "boot_cobs_recv_frame p buf s =
     (case pf_console p of None \<Rightarrow> Some (BOOT_ERR_INVALID_ARG, buf, None, s)
      | Some con \<Rightarrow> (case oh_getchar con of None \<Rightarrow> Some (BOOT_ERR_INVALID_ARG, buf, None, s)
        | Some get \<Rightarrow> (if length buf = 0 then Some (BOOT_ERR_INVALID_ARG, buf, None, s)
                        else cobs_recv_loop p get buf 0 s)))"

section \<open>The code as a function of the payload\<close>

text \<open>The bytes between the two markers, as a function of the payload.\<close>

function cobs_encode :: "u8 list \<Rightarrow> u8 list" where
  "cobs_encode data =
     (if data = [] then []
      else case cobs_scan data 1 of (blk, code) \<Rightarrow>
        code # blk @ cobs_encode (skip_zero (drop (length blk) data)))"
  by pat_completeness auto
termination
  by (relation "measure length", simp) (metis cobs_progress in_measure)

text \<open>What a decoder that follows the format makes of them.\<close>

function cobs_decode :: "u8 list \<Rightarrow> u8 list option" where
  "cobs_decode enc =
     (case enc of [] \<Rightarrow> Some []
      | c # r \<Rightarrow>
          if c = 0 \<or> length r < unat (c - 1) then None
          else map_option
                 (\<lambda>out. take (unat (c - 1)) r @
                    (if c < 0xFF \<and> drop (unat (c - 1)) r \<noteq> [] then 0 # out else out))
                 (cobs_decode (drop (unat (c - 1)) r)))"
  by pat_completeness auto
termination
  by (relation "measure length") (auto simp: less_Suc_eq_le)

declare cobs_encode.simps [simp del] cobs_decode.simps [simp del]

lemma cobs_encode_Nil [simp]: "cobs_encode [] = []"
  by (simp add: cobs_encode.simps)

lemma cobs_encode_eq_Nil [simp]: "cobs_encode xs = [] \<longleftrightarrow> xs = []"
  by (subst cobs_encode.simps) (auto split: prod.splits)

lemma cobs_decode_Nil [simp]: "cobs_decode [] = Some []"
  by (simp add: cobs_decode.simps)

lemma cobs_scan_shape:
  assumes "cobs_scan ds code = (blk, c)" and "0 < code"
  shows "\<exists>rest. ds = blk @ rest \<and> 0 \<notin> set blk \<and> unat c = unat code + length blk \<and>
     (rest = [] \<or> hd rest = 0 \<or> c = 0xFF)"
  using assms
proof (induction ds code arbitrary: blk c rule: cobs_scan.induct)
  case (1 code)
  then show ?case by simp
next
  case (2 d ds code)
  show ?case
  proof (cases "d \<noteq> 0 \<and> code < 0xFF")
    case False
    then have "blk = []" "c = code" using "2.prems"(1) by (simp_all split: if_splits)
    moreover have "d = 0 \<or> code = 0xFF" using False by (simp add: u8_less_255_iff)
    ultimately show ?thesis by auto
  next
    case True
    then obtain b' where b': "cobs_scan ds (code + 1) = (b', c)" "blk = d # b'"
      using "2.prems"(1) by (auto split: prod.splits)
    have u: "unat (code + 1) = unat code + 1"
      using True by (simp add: u8_less_255_iff unat_u8_Suc)
    then have "0 < code + 1" by (simp add: word_less_nat_alt)
    from "2.IH" [OF True b'(1) this] obtain rest where "ds = b' @ rest" "0 \<notin> set b'"
      "unat c = unat (code + 1) + length b'" "rest = [] \<or> hd rest = 0 \<or> c = 0xFF" by blast
    with True b' u show ?thesis by auto
  qed
qed

lemma cobs_scan1:
  assumes "cobs_scan ds 1 = (blk, c)"
  obtains rest where "ds = blk @ rest" and "0 \<notin> set blk" and "unat c = 1 + length blk"
    and "c \<noteq> 0" and "unat (c - 1) = length blk" and "rest = [] \<or> hd rest = 0 \<or> c = 0xFF"
proof -
  from cobs_scan_shape [OF assms] obtain rest where r: "ds = blk @ rest" "0 \<notin> set blk"
    "unat c = 1 + length blk" "rest = [] \<or> hd rest = 0 \<or> c = 0xFF" by auto
  moreover have "c \<noteq> 0" using r(3) by auto
  moreover have "unat (c - 1) = length blk" using r(3) by (simp add: unat_minus_one \<open>c \<noteq> 0\<close>)
  ultimately show thesis using that by blast
qed

lemma cobs_encode_no_zero: "0 \<notin> set (cobs_encode xs)"
proof (induction xs rule: cobs_encode.induct)
  case (1 data)
  show ?case
  proof (cases "data = []")
    case False
    obtain blk c where s: "cobs_scan data 1 = (blk, c)" by fastforce
    from cobs_scan1 [OF s] have "0 \<notin> set blk" "c \<noteq> 0" by blast+
    moreover have "0 \<notin> set (cobs_encode (skip_zero (drop (length blk) data)))"
      using "1.IH" [OF False] s by auto
    ultimately show ?thesis by (subst cobs_encode.simps) (simp add: False s)
  qed simp
qed

text \<open>
  What arrives: the payload, less the zeros the encoder drops without the decoder putting them
  back. Those are a zero at the very end and a zero right after a full block of 254 bytes.
\<close>

function cobs_delivered :: "u8 list \<Rightarrow> u8 list" where
  "cobs_delivered data =
     (if data = [] then []
      else case cobs_scan data 1 of (blk, code) \<Rightarrow>
        let rest = skip_zero (drop (length blk) data)
        in blk @ (if code < 0xFF \<and> rest \<noteq> [] then 0 # cobs_delivered rest else cobs_delivered rest))"
  by pat_completeness auto
termination
  by (relation "measure length", simp) (metis cobs_progress in_measure)+

function cobs_lossless :: "u8 list \<Rightarrow> bool" where
  "cobs_lossless data =
     (if data = [] then True
      else case cobs_scan data 1 of (blk, code) \<Rightarrow>
        let rest = drop (length blk) data
        in if rest = [] then True
           else if hd rest = 0 then code < 0xFF \<and> tl rest \<noteq> [] \<and> cobs_lossless (skip_zero rest)
           else cobs_lossless (skip_zero rest))"
  by pat_completeness auto
termination
  by (relation "measure length", simp) (metis cobs_progress in_measure)+

declare cobs_delivered.simps [simp del] cobs_lossless.simps [simp del]

lemma cobs_delivered_Nil [simp]: "cobs_delivered [] = []"
  by (simp add: cobs_delivered.simps)

lemma cobs_lossless_Nil [simp]: "cobs_lossless []"
  by (simp add: cobs_lossless.simps)

lemma cobs_decode_encode: "cobs_decode (cobs_encode xs) = Some (cobs_delivered xs)"
proof (induction xs rule: cobs_encode.induct)
  case (1 data)
  show ?case
  proof (cases "data = []")
    case False
    obtain blk c where s: "cobs_scan data 1 = (blk, c)" by fastforce
    from cobs_scan1 [OF s] have c: "c \<noteq> 0" "unat (c - 1) = length blk" by blast+
    let ?rest = "skip_zero (drop (length blk) data)"
    have IH: "cobs_decode (cobs_encode ?rest) = Some (cobs_delivered ?rest)"
      using "1.IH" [OF False] s by auto
    have "cobs_encode data = c # blk @ cobs_encode ?rest"
      by (subst cobs_encode.simps) (simp add: False s)
    then have "cobs_decode (cobs_encode data) = Some (blk @
        (if c < 0xFF \<and> ?rest \<noteq> [] then 0 # cobs_delivered ?rest else cobs_delivered ?rest))"
      by (simp add: cobs_decode.simps [of "c # blk @ cobs_encode ?rest"] c IH)
    then show ?thesis by (simp add: cobs_delivered.simps [of data] False s Let_def)
  qed simp
qed

lemma cobs_delivered_lossless:
  "length (cobs_delivered xs) \<le> length xs \<and> (cobs_delivered xs = xs \<longleftrightarrow> cobs_lossless xs)"
proof (induction xs rule: cobs_delivered.induct)
  case (1 data)
  show ?case
  proof (cases "data = []")
    case False
    obtain blk c where s: "cobs_scan data 1 = (blk, c)" by fastforce
    from cobs_scan1 [OF s] obtain rest where r: "data = blk @ rest" "unat c = 1 + length blk"
      "rest = [] \<or> hd rest = 0 \<or> c = 0xFF" by blast
    have IH: "length (cobs_delivered (skip_zero rest)) \<le> length (skip_zero rest)"
      "cobs_delivered (skip_zero rest) = skip_zero rest \<longleftrightarrow> cobs_lossless (skip_zero rest)"
      using "1.IH" [OF False] s r(1) by (auto split: if_splits)
    have rest: "drop (length blk) data = rest" using r(1) by simp
    have d: "cobs_delivered data = blk @ (if c < 0xFF \<and> skip_zero rest \<noteq> []
        then 0 # cobs_delivered (skip_zero rest) else cobs_delivered (skip_zero rest))"
      by (subst cobs_delivered.simps) (simp add: False s rest Let_def)
    have l: "cobs_lossless data \<longleftrightarrow> (if rest = [] then True
        else if hd rest = 0 then c < 0xFF \<and> tl rest \<noteq> [] \<and> cobs_lossless (skip_zero rest)
        else cobs_lossless (skip_zero rest))"
      by (subst cobs_lossless.simps) (simp add: False s rest Let_def del: drop_eq_Nil)
    show ?thesis
    proof (cases rest)
      case Nil
      then show ?thesis using d l r(1) by simp
    next
      case (Cons z zs)
      then show ?thesis using d l r IH by (auto dest: arg_cong [where f = length])
    qed
  qed simp
qed

section \<open>Decoding in place refines the format\<close>

text \<open>
  Copying forward onto an earlier position of the same buffer moves the block, because every
  byte is read before its cell is overwritten.
\<close>

lemma patch_Cons: "w < length data \<Longrightarrow> patch (Suc w) S (data[w := v]) = patch w (v # S) data"
  by (simp add: patch_def take_Suc_conv_app_nth drop_update_cancel take_update_swap
      list_update_append)

lemma slice_of_update_before: "w < off \<Longrightarrow> slice_of off n (data[w := v]) = slice_of off n data"
  by (simp add: slice_of_def)

lemma slice_of_Suc: "off < length data \<Longrightarrow> slice_of off (Suc n) data = data ! off # slice_of (Suc off) n data"
  by (simp add: slice_of_def Cons_nth_drop_Suc [symmetric])

lemma cobs_copy_patch:
  "w \<le> r \<Longrightarrow> r + n \<le> length data \<Longrightarrow>
   cobs_copy n data r w = Some (patch w (slice_of r n data) data, r + n, w + n)"
proof (induction n arbitrary: data r w)
  case 0
  then show ?case by simp
next
  case (Suc n)
  have "cobs_copy n (data[w := data ! r]) (Suc r) (Suc w) =
      Some (patch (Suc w) (slice_of (Suc r) n (data[w := data ! r])) (data[w := data ! r]), Suc r + n, Suc w + n)"
    by (rule Suc.IH) (use Suc.prems in auto)
  with Suc.prems show ?case
    by (simp add: rd_at_def wr_at_def slice_of_update_before slice_of_Suc patch_Cons)
qed

text \<open>
  The loop invariant: what has been decoded lies below \<open>w\<close>, what is still encoded from \<open>r\<close> on,
  and \<open>w \<le> r\<close>. The loop returns, touches only cells of the buffer, and yields what the format
  says of the encoded rest.
\<close>

lemma cobs_decode_loop_refines:
  assumes "w \<le> r" and "r \<le> length data"
  shows "\<exists>st data' w'. cobs_decode_loop data (length data) r w = Some (st, data', w') \<and>
     length data' = length data \<and>
     (case cobs_decode (drop r data) of
        None \<Rightarrow> st = BOOT_ERR_INVALID_ARG
      | Some out \<Rightarrow> st = BOOT_OK \<and> w' = w + length out \<and> w' \<le> length data \<and>
          take w' data' = take w data @ out)"
  using assms
proof (induction "length data - r" arbitrary: r w data rule: less_induct)
  case less
  show ?case
  proof (cases "r < length data")
    case False
    then have "drop r data = []" using less.prems by simp
    then show ?thesis using False less.prems by (subst cobs_decode_loop.simps) simp
  next
    case True
    let ?c = "data ! r"
    let ?n = "unat (?c - 1)"
    have dr: "drop r data = ?c # drop (Suc r) data" using True by (rule Cons_nth_drop_Suc [symmetric])
    show ?thesis
    proof (cases "?c = 0 \<or> length data - Suc r < ?n")
      case True
      then have none: "cobs_decode (drop r data) = None"
        by (auto simp: dr cobs_decode.simps [of "?c # drop (Suc r) data"])
      show ?thesis
        by (subst cobs_decode_loop.simps)
          (use True \<open>r < length data\<close> in \<open>auto simp: rd_at_def none\<close>)
    next
      case False
      let ?r = "Suc r + ?n"
      let ?S = "slice_of (Suc r) ?n data"
      let ?d = "patch w ?S data"
      have r': "?r \<le> length data" using False True by linarith
      have lS: "length ?S = ?n" using r' by simp
      have ld: "length ?d = length data" using r' less.prems lS by simp
      have drop': "drop ?r (patch w ?S data) = drop ?r data"
        using less.prems r' lS by (simp add: patch_def)
      have tk: "take (w + ?n) ?d = take w data @ ?S"
        using less.prems r' lS by (simp add: patch_def)
      have copy: "cobs_copy ?n data (Suc r) w = Some (?d, ?r, w + ?n)"
        using less.prems r' by (intro cobs_copy_patch) auto
      have dec: "cobs_decode (drop r data) = map_option
          (\<lambda>out. ?S @ (if ?c < 0xFF \<and> drop ?r data \<noteq> [] then 0 # out else out)) (cobs_decode (drop ?r data))"
        using False by (simp add: dr cobs_decode.simps [of "?c # drop (Suc r) data"] slice_of_def add.commute
            del: drop_eq_Nil)
      have more: "drop ?r data \<noteq> [] \<longleftrightarrow> ?r < length data" by auto
      show ?thesis
      proof (cases "?c < 0xFF \<and> ?r < length data")
        case True
        let ?e = "?d[w + ?n := 0]"
        have w': "w + ?n < length data" using True less.prems by linarith
        have "\<exists>st data' w'. cobs_decode_loop ?e (length ?e) ?r (w + ?n + 1) = Some (st, data', w') \<and>
            length data' = length ?e \<and> (case cobs_decode (drop ?r ?e) of
              None \<Rightarrow> st = BOOT_ERR_INVALID_ARG
            | Some out \<Rightarrow> st = BOOT_OK \<and> w' = w + ?n + 1 + length out \<and> w' \<le> length ?e \<and>
                take w' data' = take (w + ?n + 1) ?e @ out)"
          by (rule less.hyps) (use True \<open>r < length data\<close> less.prems r' ld in auto)
        moreover have "drop ?r ?e = drop ?r data" using less.prems drop' by simp
        moreover have "take (w + ?n + 1) ?e = take w data @ ?S @ [0]"
          using w' ld tk by (simp add: take_Suc_conv_app_nth)
        moreover have "cobs_decode_loop data (length data) r w =
            cobs_decode_loop ?e (length ?e) ?r (w + ?n + 1)"
          by (subst cobs_decode_loop.simps)
            (use True False \<open>r < length data\<close> w' ld copy in \<open>simp add: rd_at_def wr_at_def Let_def\<close>)
        moreover have "cobs_decode (drop r data) =
            map_option (\<lambda>out. ?S @ 0 # out) (cobs_decode (drop ?r data))"
          unfolding dec more using True by simp
        ultimately show ?thesis
          using ld lS by (cases "cobs_decode (drop ?r data)") (auto simp: add.assoc)
      next
        case nz: False
        have "\<exists>st data' w'. cobs_decode_loop ?d (length ?d) ?r (w + ?n) = Some (st, data', w') \<and>
            length data' = length ?d \<and> (case cobs_decode (drop ?r ?d) of
              None \<Rightarrow> st = BOOT_ERR_INVALID_ARG
            | Some out \<Rightarrow> st = BOOT_OK \<and> w' = w + ?n + length out \<and> w' \<le> length ?d \<and>
                take w' data' = take (w + ?n) ?d @ out)"
          by (rule less.hyps) (use \<open>r < length data\<close> less.prems r' ld in auto)
        moreover have "cobs_decode_loop data (length data) r w =
            cobs_decode_loop ?d (length ?d) ?r (w + ?n)"
          by (subst cobs_decode_loop.simps)
            (use nz False \<open>r < length data\<close> ld copy in \<open>auto simp: rd_at_def Let_def\<close>)
        moreover have "cobs_decode (drop r data) =
            map_option (\<lambda>out. ?S @ out) (cobs_decode (drop ?r data))"
          unfolding dec more using nz by auto
        ultimately show ?thesis
          using ld lS tk drop' by (cases "cobs_decode (drop ?r data)") (auto simp: add.assoc)
      qed
    qed
  qed
qed

text \<open>The exported decoder: total, memory-safe, and its result on every input.\<close>

lemma boot_cobs_decode_refines:
  "\<exists>st data' ol. boot_cobs_decode_in_place data = Some (st, data', ol) \<and>
     length data' = length data \<and>
     (case cobs_decode data of
        None \<Rightarrow> st = BOOT_ERR_INVALID_ARG \<and> ol = None
      | Some out \<Rightarrow>
          (if data = [] then st = BOOT_ERR_INVALID_ARG \<and> ol = None
           else st = BOOT_OK \<and> ol = Some (length out) \<and>
                data' = out @ zeroed (length data - length out) \<and> length out \<le> length data))"
proof (cases "data = []")
  case True
  then show ?thesis by (simp add: boot_cobs_decode_in_place_def)
next
  case False
  from cobs_decode_loop_refines [of 0 0 data] obtain st data' w' where
    l: "cobs_decode_loop data (length data) 0 0 = Some (st, data', w')" "length data' = length data"
    "case cobs_decode data of None \<Rightarrow> st = BOOT_ERR_INVALID_ARG
      | Some out \<Rightarrow> st = BOOT_OK \<and> w' = length out \<and> w' \<le> length data \<and> take w' data' = out"
    by (auto split: option.splits)
  show ?thesis
  proof (cases "cobs_decode data")
    case None
    then show ?thesis using l False by (simp add: boot_cobs_decode_in_place_def)
  next
    case (Some out)
    moreover have "\<not> w' < length data \<Longrightarrow> data' = out"
      using l Some by auto
    ultimately show ?thesis using l False
      by (auto simp: boot_cobs_decode_in_place_def Let_def zeroed_def)
  qed
qed

section \<open>The wire\<close>

context uart_contract begin

lemma send_block_tx:
  "tx (fold (\<lambda>d s. wdt_kick p (put d s)) blk s) = tx s @ blk \<and>
   rx (fold (\<lambda>d s. wdt_kick p (put d s)) blk s) = rx s"
  by (induction blk arbitrary: s) (simp_all add: kick_tx kick_rx put_tx put_rx)

lemma send_loop_tx:
  "tx (cobs_send_loop p put data s) = tx s @ cobs_encode data \<and>
   rx (cobs_send_loop p put data s) = rx s"
proof (induction data arbitrary: s rule: cobs_encode.induct)
  case (1 data)
  show ?case
  proof (cases "data = []")
    case True
    then show ?thesis by (simp add: cobs_send_loop.simps)
  next
    case False
    obtain blk c where s: "cobs_scan data 1 = (blk, c)" by fastforce
    show ?thesis
      by (subst (1 2) cobs_send_loop.simps, subst cobs_encode.simps)
        (use "1.IH" [OF False s [symmetric]] False in
          \<open>simp add: s Let_def send_block_tx put_tx put_rx\<close>)
  qed
qed

lemma send_frame_tx:
  "tx (boot_cobs_send_frame p data s) =
     tx s @ (if data = [] then [] else [0] @ cobs_encode data @ [0])"
  using send_loop_tx [of data "put 0 s"]
  by (simp add: boot_cobs_send_frame_def console put_ptr Let_def flush_tx put_tx)

text \<open>
  Receiving the body of a frame: the non-zero bytes of \<open>evs\<close> (\<open>None\<close>s are timeouts) followed by
  a marker, when they fit behind the \<open>n\<close> bytes already collected.
\<close>

lemma recv_timeout:
  "rx s = None # r \<Longrightarrow> \<exists>s'. rx s' = r \<and> tx s' = tx s \<and>
     cobs_recv_loop p get buf n s = cobs_recv_loop p get buf n s'"
proof -
  assume "rx s = None # r"
  then have "rx (wdt_kick p s) = None # r" by (simp add: kick_rx)
  from get_timeout [OF this, of 100] obtain st c s' where
    g: "get 100 (wdt_kick p s) = (st, c, s')" "st \<noteq> BOOT_OK" "rx s' = r" "tx s' = tx (wdt_kick p s)"
    by blast
  then have "cobs_recv_loop p get buf n s = cobs_recv_loop p get buf n s'"
    by (subst cobs_recv_loop.simps) (simp add: Let_def)
  with g kick_tx show ?thesis by auto
qed

lemma recv_byte:
  "rx s = Some c # r \<Longrightarrow> \<exists>s'. rx s' = r \<and> tx s' = tx s \<and>
     cobs_recv_loop p get buf n s =
       (if c = 0 then (if n > 0 then Some (BOOT_OK, buf, Some n, s')
                       else cobs_recv_loop p get buf n s')
        else if n < length buf then cobs_recv_loop p get (buf[n := c]) (n + 1) s'
        else cobs_recv_loop p get (zeroed (length buf)) 0 s')"
proof -
  assume "rx s = Some c # r"
  then have "rx (wdt_kick p s) = Some c # r" by (simp add: kick_rx)
  from get_byte [OF this, of 100] obtain s' where
    g: "get 100 (wdt_kick p s) = (BOOT_OK, c, s')" "rx s' = r" "tx s' = tx (wdt_kick p s)"
    by blast
  show ?thesis
    by (rule exI [of _ s'], subst cobs_recv_loop.simps) (use g kick_tx in \<open>simp add: Let_def\<close>)
qed

lemma recv_body:
  assumes "rx s = evs @ [Some 0] @ rest" and "Some 0 \<notin> set evs"
    and "n + length (filter (\<lambda>e. e \<noteq> None) evs) \<le> length buf"
    and "0 < n + length (filter (\<lambda>e. e \<noteq> None) evs)"
  shows "\<exists>buf' s'. cobs_recv_loop p get buf n s =
       Some (BOOT_OK, buf', Some (n + length (List.map_filter id evs)), s') \<and>
     buf' = patch n (List.map_filter id evs) buf \<and> rx s' = rest \<and> tx s' = tx s"
  using assms
proof (induction evs arbitrary: s n buf)
  case Nil
  then have "rx s = Some 0 # rest" by simp
  from recv_byte [OF this, of buf n] Nil.prems show ?case
    by (auto simp: List.map_filter_def)
next
  case (Cons e evs)
  show ?case
  proof (cases e)
    case None
    then have "rx s = None # (evs @ [Some 0] @ rest)" using Cons.prems by simp
    from recv_timeout [OF this, of buf n] obtain s1 where s1: "rx s1 = evs @ [Some 0] @ rest"
      "tx s1 = tx s" "cobs_recv_loop p get buf n s = cobs_recv_loop p get buf n s1" by blast
    from Cons.IH [OF s1(1), of n buf] Cons.prems None s1 show ?thesis
      by (auto simp: List.map_filter_def)
  next
    case (Some c)
    then have c0: "c \<noteq> 0" and rx: "rx s = Some c # (evs @ [Some 0] @ rest)"
      using Cons.prems by auto
    have n: "n < length buf" using Cons.prems(3) Some by simp
    from recv_byte [OF rx, of buf n] c0 n obtain s1 where s1: "rx s1 = evs @ [Some 0] @ rest"
      "tx s1 = tx s"
      "cobs_recv_loop p get buf n s = cobs_recv_loop p get (buf[n := c]) (n + 1) s1" by auto
    from Cons.IH [OF s1(1), of "n + 1" "buf[n := c]"] Cons.prems Some s1 n show ?thesis
      by (auto simp: List.map_filter_def patch_Cons)
  qed
qed

lemma recv_frame:
  assumes "rx s = Some 0 # evs @ [Some 0] @ rest" and "Some 0 \<notin> set evs"
    and "List.map_filter id evs = bs" and "bs \<noteq> []" and "length bs \<le> length buf"
  shows "\<exists>s'. boot_cobs_recv_frame p buf s = Some (BOOT_OK, fill_prefix bs buf, Some (length bs), s') \<and>
     rx s' = rest \<and> tx s' = tx s"
proof -
  have len: "length (filter (\<lambda>e. e \<noteq> None) evs) = length bs"
    unfolding assms(3) [symmetric] List.map_filter_def by simp
  from recv_byte [OF assms(1), of buf 0] obtain s1 where s1: "rx s1 = evs @ [Some 0] @ rest"
    "tx s1 = tx s" "cobs_recv_loop p get buf 0 s = cobs_recv_loop p get buf 0 s1" by auto
  have "0 + length (filter (\<lambda>e. e \<noteq> None) evs) \<le> length buf"
    "0 < 0 + length (filter (\<lambda>e. e \<noteq> None) evs)"
    unfolding len using assms(4,5) by simp_all
  from recv_body [OF s1(1) assms(2) this] assms s1 show ?thesis
    by (auto simp: boot_cobs_recv_frame_def console get_ptr patch_def fill_prefix_def)
qed

end

section \<open>Properties\<close>

text \<open>
  C20. The in-place decoder returns on every buffer, never touches a cell outside it, and
  implements the COBS format: a malformed buffer gives \<open>BOOT_ERR_INVALID_ARG\<close>, a well-formed one
  gives the decoded payload at its start with every remaining byte zeroized.
\<close>

theorem cobs_decode_in_place_correct:
  "\<exists>st data' ol. boot_cobs_decode_in_place data = Some (st, data', ol) \<and>
     length data' = length data \<and>
     (case cobs_decode data of
        None \<Rightarrow> st = BOOT_ERR_INVALID_ARG \<and> ol = None
      | Some out \<Rightarrow>
          (if data = [] then st = BOOT_ERR_INVALID_ARG \<and> ol = None
           else st = BOOT_OK \<and> ol = Some (length out) \<and>
                data' = out @ zeroed (length data - length out)))"
  using boot_cobs_decode_refines [of data] by (fastforce split: option.splits if_splits)

text \<open>
  C21. What the sender puts between the two markers, given to the in-place decoder, comes back as the
  payload exactly when the payload is not empty and lossless: it does not end in a zero and no full
  block of 254 non-zero bytes is followed by a zero. Every other payload comes back shorter.
\<close>

theorem cobs_roundtrip_iff:
  "(\<exists>tail. boot_cobs_decode_in_place (butlast (tl (ht_stdout (boot_cobs_send_frame
        host_console_platform data \<lparr> ht_stdin = [], ht_stdout = [] \<rparr>)))) =
      Some (BOOT_OK, data @ tail, Some (length data)))
   \<longleftrightarrow> data \<noteq> [] \<and> cobs_lossless data"
proof (cases "data = []")
  case True
  then show ?thesis
    using tty.send_frame_tx [of data "\<lparr> ht_stdin = [], ht_stdout = [] \<rparr>"]
    by (simp add: boot_cobs_decode_in_place_def)
next
  case False
  then have "butlast (tl (ht_stdout (boot_cobs_send_frame host_console_platform data
      \<lparr> ht_stdin = [], ht_stdout = [] \<rparr>))) = cobs_encode data"
    using tty.send_frame_tx [of data "\<lparr> ht_stdin = [], ht_stdout = [] \<rparr>"] by simp
  then show ?thesis
    using boot_cobs_decode_refines [of "cobs_encode data"] cobs_delivered_lossless [of data] False
    by (auto simp: cobs_decode_encode)
qed

text \<open>
  The two classes of payload that are not delivered: a trailing zero, and a zero behind a full
  block.
\<close>

lemma cobs_trailing_zero_lost: "cobs_decode (cobs_encode [0x2A, 0]) = Some [0x2A]"
  by (simp add: cobs_encode.simps cobs_decode.simps)

lemma cobs_trailing_zero_not_lossless:
  "\<not> cobs_lossless [0x2A, 0]"
  by (simp add: cobs_lossless.simps)

text \<open>A payload without zero bytes, and a short payload with no zero at its end, is lossless.\<close>

lemma cobs_lossless_short:
  "length xs < 254 \<Longrightarrow> cobs_lossless xs \<longleftrightarrow> xs = [] \<or> last xs \<noteq> 0"
proof (induction xs rule: cobs_lossless.induct)
  case (1 data)
  show ?case
  proof (cases "data = []")
    case False
    obtain blk c where s: "cobs_scan data 1 = (blk, c)" by fastforce
    from cobs_scan1 [OF s] obtain rest where r: "data = blk @ rest" "0 \<notin> set blk"
      "unat c = 1 + length blk" "rest = [] \<or> hd rest = 0 \<or> c = 0xFF" by blast
    have dr: "drop (length blk) data = rest" using r(1) by simp
    have c: "c \<noteq> 0xFF" using r(1,3) "1.prems" by auto
    have l: "cobs_lossless data \<longleftrightarrow> (if rest = [] then True
        else if hd rest = 0 then c < 0xFF \<and> tl rest \<noteq> [] \<and> cobs_lossless (skip_zero rest)
        else cobs_lossless (skip_zero rest))"
      by (subst cobs_lossless.simps) (simp add: False s dr Let_def del: drop_eq_Nil)
    show ?thesis
    proof (cases rest)
      case Nil
      then have "last data \<noteq> 0" using r False by (metis append_Nil2 last_in_set)
      then show ?thesis using l Nil by simp
    next
      case (Cons z zs)
      then have z: "z = 0" using r(4) c by simp
      have "zs \<noteq> [] \<Longrightarrow> cobs_lossless zs \<longleftrightarrow> last zs \<noteq> 0"
        using "1.IH"(1) [OF False s [symmetric] refl] Cons z dr "1.prems" r(1) by simp
      then show ?thesis using l Cons z c r(1) by (auto simp: u8_less_255_iff)
    qed
  qed simp
qed

text \<open>
  C19. End to end over a serial line: a lossless payload is sent as a frame, the frame arrives
  byte by byte with any timeouts in between, and the receiver and the in-place decoder give the
  payload back, with the rest of the buffer zeroized and the line consumed exactly up to the end
  marker.
\<close>

theorem cobs_frame_transfer:
  assumes "uart_contract p con put get tx rx" and "uart_contract p' con' put' get' tx' rx'"
    and "data \<noteq> []" and "cobs_lossless data" and "tx s = []"
    and "rx' s' = Some 0 # evs @ [Some 0] @ rest" and "Some 0 \<notin> set evs"
    and "[0] @ List.map_filter id evs @ [0] = tx (boot_cobs_send_frame p data s)"
    and "length (List.map_filter id evs) \<le> length buf"
  shows "\<exists>buf' n s2. boot_cobs_recv_frame p' buf s' = Some (BOOT_OK, buf', Some n, s2) \<and>
     rx' s2 = rest \<and>
     boot_cobs_decode_in_place (take n buf') =
       Some (BOOT_OK, data @ zeroed (n - length data), Some (length data))"
proof -
  let ?bs = "cobs_encode data"
  have bs: "List.map_filter id evs = ?bs"
    using uart_contract.send_frame_tx [OF assms(1), of data s] assms(3,5,8) by simp
  have ne: "?bs \<noteq> []" using assms(3) by simp
  from uart_contract.recv_frame [OF assms(2,6,7) bs ne] assms(9) bs obtain s2 where
    r: "boot_cobs_recv_frame p' buf s' = Some (BOOT_OK, fill_prefix ?bs buf, Some (length ?bs), s2)"
    "rx' s2 = rest" by auto
  have "cobs_decode ?bs = Some data"
    using assms(4) cobs_delivered_lossless [of data] by (simp add: cobs_decode_encode)
  with boot_cobs_decode_refines [of ?bs] ne have
    "boot_cobs_decode_in_place ?bs = Some (BOOT_OK, data @ zeroed (length ?bs - length data), Some (length data))"
    by auto
  with r show ?thesis by (simp add: take_fill_prefix_n)
qed

lemma demo_line_frame:
  "ht_stdout (boot_cobs_send_frame host_console_platform [1, 0, 2] \<lparr> ht_stdin = [], ht_stdout = [] \<rparr>) =
     [0, 2, 1, 2, 2, 0]"
  using tty.send_frame_tx [of "[1, 0, 2]" "\<lparr> ht_stdin = [], ht_stdout = [] \<rparr>"]
  by (simp add: cobs_encode.simps)

lemma cobs_frame_transfer_witness:
  "\<exists>buf' n s2. boot_cobs_recv_frame host_console_platform (zeroed 8)
       \<lparr> ht_stdin = [Some 0, Some 2, None, Some 1, Some 2, Some 2, Some 0, Some 7], ht_stdout = [] \<rparr> =
         Some (BOOT_OK, buf', Some n, s2) \<and>
     ht_stdin s2 = [Some 7] \<and>
     boot_cobs_decode_in_place (take n buf') = Some (BOOT_OK, [1, 0, 2] @ zeroed (n - 3), Some 3)"
  using cobs_frame_transfer [OF tty.uart_contract_axioms tty.uart_contract_axioms,
    where data = "[1, 0, 2]" and s = "\<lparr> ht_stdin = [], ht_stdout = [] \<rparr>"
    and evs = "[Some 2, None, Some 1, Some 2, Some 2]" and rest = "[Some 7]" and buf = "zeroed 8"
    and s' = "\<lparr> ht_stdin = [Some 0, Some 2, None, Some 1, Some 2, Some 2, Some 0, Some 7],
               ht_stdout = [] \<rparr>"]
  by (simp add: demo_line_frame cobs_lossless_short map_filter_simps numeral_3_eq_3)

text \<open>
  The overflow defence does not wait for the next marker: the bytes of an oversized frame that
  come after the overflow are delivered as if they were a frame of their own.
\<close>

theorem cobs_overflow_tail_accepted:
  "\<exists>buf' s'. boot_cobs_recv_frame host_console_platform [0, 0]
       \<lparr> ht_stdin = [Some 0, Some 1, Some 2, Some 3, Some 4, Some 0], ht_stdout = [] \<rparr> =
     Some (BOOT_OK, buf', Some 1, s') \<and> take 1 buf' = [4]"
  by (simp add: boot_cobs_recv_frame_def host_console_platform_def host_console_def
      cobs_recv_loop.simps recovery_serial_getchar_def wdt_kick_def zeroed_def)

end
