(* ===== verification/Boot_Ct_Utils.thy ===== *)
theory Boot_Ct_Utils
  imports Boot_Hal
begin

text \<open>
  \<open>toobloader/core/utils/include/boot_ct_utils.h\<close> and \<open>boot_proof.h\<close>: the constant-time
  comparisons, the double-read of the monotonic counter, serial-number arithmetic, the TRNG
  health check and the sealed boot proof.
\<close>

section \<open>Constant-time comparison\<close>

fun ct_cmp_loop :: "u8 list \<Rightarrow> u8 list \<Rightarrow> nat \<Rightarrow> nat \<Rightarrow> nat \<Rightarrow> u32 \<Rightarrow> u32 \<Rightarrow> u32 \<times> u32" where
  "ct_cmp_loop a b len i 0 acc_fwd acc_rev = (acc_fwd, acc_rev)"
| "ct_cmp_loop a b len i (Suc n) acc_fwd acc_rev =
     ct_cmp_loop a b len (i + 1) n
       (acc_fwd OR ucast (a ! i XOR b ! i))
       (acc_rev OR ucast (a ! (len - 1 - i) XOR b ! (len - 1 - i)))"

definition constant_time_memcmp_glitch_safe :: "u8 list \<Rightarrow> u8 list \<Rightarrow> nat \<Rightarrow> boot_status" where
  "constant_time_memcmp_glitch_safe a b len =
     (if len = 0 then BOOT_ERR_VERIFY
      else case ct_cmp_loop a b len 0 len 0 0 of (acc_fwd, acc_rev) \<Rightarrow>
        if \<not> secure_require (acc_fwd = 0 \<and> acc_rev = 0) then BOOT_ERR_VERIFY else BOOT_OK)"

fun erased_diff :: "u8 list \<Rightarrow> u8 \<Rightarrow> u32 \<Rightarrow> u32" where
  "erased_diff [] ev diff = diff"
| "erased_diff (b # bs) ev diff = erased_diff bs ev (diff OR ucast (b XOR ev))"

definition is_fully_erased_constant_time :: "u8 list \<Rightarrow> u8 \<Rightarrow> bool" where
  "is_fully_erased_constant_time buf ev \<longleftrightarrow> erased_diff buf ev 0 = 0"

lemma word_xor_eq_0: "(a :: 'a::len word) XOR b = 0 \<longleftrightarrow> a = b"
  using word_xor_left_cancel [of a b a] by auto

lemma word_or_eq_0: "(a :: 'a::len word) OR b = 0 \<longleftrightarrow> a = 0 \<and> b = 0"
  by (auto simp: bit_eq_iff bit_or_iff)

lemma ct_cmp_loop_zero:
  "ct_cmp_loop a b len i n f r = (0, 0) \<longleftrightarrow>
     f = 0 \<and> r = 0 \<and> (\<forall>j < n. a ! (i + j) = b ! (i + j) \<and>
       a ! (len - 1 - (i + j)) = b ! (len - 1 - (i + j)))"
proof (induction n arbitrary: i f r)
  case 0
  then show ?case by simp
next
  case (Suc n)
  show ?case
    by (auto simp: Suc.IH word_or_eq_0 ucast_u8_eq_0 word_xor_eq_0 All_less_Suc2)
qed

theorem memcmp_iff:
  "len \<le> length a \<Longrightarrow> len \<le> length b \<Longrightarrow>
   constant_time_memcmp_glitch_safe a b len = BOOT_OK \<longleftrightarrow> 0 < len \<and> take len a = take len b"
proof -
  assume l: "len \<le> length a" "len \<le> length b"
  have *: "take len a = take len b \<longleftrightarrow> (\<forall>j < len. a ! j = b ! j)"
    using l by (simp add: list_eq_iff_nth_eq)
  have "(\<forall>j < len. a ! j = b ! j \<and> a ! (len - 1 - j) = b ! (len - 1 - j)) \<longleftrightarrow>
      (\<forall>j < len. a ! j = b ! j)"
    by auto
  then show ?thesis
    using ct_cmp_loop_zero [of a b len 0 len 0 0]
    by (auto simp: constant_time_memcmp_glitch_safe_def * split: prod.splits)
qed

lemma memcmp_values:
  "constant_time_memcmp_glitch_safe a b len \<in> {BOOT_OK, BOOT_ERR_VERIFY}"
  by (auto simp: constant_time_memcmp_glitch_safe_def split: prod.splits)

lemma erased_diff_zero: "erased_diff buf ev d = 0 \<longleftrightarrow> d = 0 \<and> (\<forall>b \<in> set buf. b = ev)"
  by (induction buf arbitrary: d) (auto simp: word_or_eq_0 ucast_u8_eq_0 word_xor_eq_0)

lemma is_fully_erased_iff:
  "is_fully_erased_constant_time buf ev \<longleftrightarrow> buf = replicate (length buf) ev"
  by (simp add: is_fully_erased_constant_time_def erased_diff_zero)
    (metis in_set_replicate replicate_eqI)

section \<open>Monotonic counter\<close>

definition boot_read_monotonic_counter_safe ::
  "'s platform \<Rightarrow> 's \<Rightarrow> boot_status \<times> u32 option \<times> 's" where
  "boot_read_monotonic_counter_safe p s =
     (case pf_crypto p of None \<Rightarrow> (BOOT_ERR_NOT_SUPPORTED, None, s)
      | Some c \<Rightarrow> (case ch_read_monotonic_counter c of None \<Rightarrow> (BOOT_ERR_NOT_SUPPORTED, None, s)
        | Some rd \<Rightarrow>
          (case rd s of (s1, val1, s) \<Rightarrow> case rd s of (s2, val2, s) \<Rightarrow>
             if \<not> secure_require (s1 = BOOT_OK \<and> s2 = BOOT_OK \<and> val1 = val2)
             then (if s1 \<noteq> BOOT_OK then s1 else if s2 \<noteq> BOOT_OK then s2 else BOOT_ERR_VERIFY, None, s)
             else (BOOT_OK, Some val1, s))))"

section \<open>Buffer containment\<close>

text \<open>
  Addresses are \<open>uintptr_t\<close> values of the 32-bit targets; \<open>UINTPTR_MAX\<close> is \<open>2^32 - 1\<close>.
\<close>

definition is_buffer_within :: "u32 \<Rightarrow> nat \<Rightarrow> u32 \<Rightarrow> nat \<Rightarrow> bool" where
  "is_buffer_within i_start inner_len o_start outer_len =
     (if inner_len = 0 \<or> outer_len = 0 then False
      else if unat UINT32_MAX - unat i_start < inner_len then False
      else if unat UINT32_MAX - unat o_start < outer_len then False
      else i_start \<ge> o_start \<and> i_start + of_nat inner_len \<le> o_start + of_nat outer_len)"

lemma is_buffer_within_iff:
  "is_buffer_within i n ob m \<longleftrightarrow> 0 < n \<and> 0 < m \<and> unat ob \<le> unat i \<and>
     unat i + n \<le> unat ob + m \<and> unat i + n \<le> 4294967295 \<and> unat ob + m \<le> 4294967295"
proof (cases "unat i + n \<le> 4294967295 \<and> unat ob + m \<le> 4294967295")
  case True
  then have "unat (i + of_nat n) = unat i + n" "unat (ob + of_nat m) = unat ob + m"
    by (simp_all add: unat_add_no_wrap unat_of_nat_u32)
  with True show ?thesis by (auto simp: is_buffer_within_def word_le_nat_alt)
next
  case False
  then show ?thesis using unat_u32_le_max [of i] unat_u32_le_max [of ob]
    by (auto simp: is_buffer_within_def)
qed

section \<open>TRNG health check and key sanity\<close>

fun or_and_acc :: "u8 list \<Rightarrow> u8 \<Rightarrow> u8 \<Rightarrow> u8 \<times> u8" where
  "or_and_acc [] o_acc a_acc = (o_acc, a_acc)"
| "or_and_acc (b # bs) o_acc a_acc = or_and_acc bs (o_acc OR b) (a_acc AND b)"

definition boot_random_safe :: "'s platform \<Rightarrow> nat \<Rightarrow> 's \<Rightarrow> boot_status \<times> u8 list \<times> 's" where
  "boot_random_safe p len s =
     (case pf_crypto p of None \<Rightarrow> (BOOT_ERR_NOT_SUPPORTED, [], s)
      | Some c \<Rightarrow> (case ch_random c of None \<Rightarrow> (BOOT_ERR_NOT_SUPPORTED, [], s)
        | Some rnd \<Rightarrow>
          (case rnd len s of (stat, buf, s) \<Rightarrow>
             if stat \<noteq> BOOT_OK then (stat, buf, s)
             else case or_and_acc buf 0x00 0xFF of (or_acc, and_acc) \<Rightarrow>
               if or_acc = 0x00 \<or> and_acc = 0xFF then (BOOT_ERR_CRYPTO, buf, s)
               else (BOOT_OK, buf, s))))"

definition verify_not_all_zeros_glitch_safe :: "u8 list \<Rightarrow> boot_status" where
  "verify_not_all_zeros_glitch_safe buf =
     (case or_and_acc buf 0x00 0xFF of (or_acc, and_acc) \<Rightarrow>
        if \<not> secure_require (or_acc \<noteq> 0x00 \<and> and_acc \<noteq> 0xFF) then BOOT_ERR_VERIFY else BOOT_OK)"

lemma u8_ones: "(0xFF :: u8) = - 1"
  by simp

lemma and_eq_ones: "(a :: u8) AND b = 0xFF \<longleftrightarrow> a = 0xFF \<and> b = 0xFF"
  unfolding u8_ones by (auto simp: bit_eq_iff bit_and_iff)

lemma or_and_acc_fst: "fst (or_and_acc bs ob ab) = 0 \<longleftrightarrow> ob = 0 \<and> (\<forall>b \<in> set bs. b = 0)"
  by (induction bs arbitrary: ob ab) (auto simp: word_or_eq_0)

lemma or_and_acc_snd: "snd (or_and_acc bs ob ab) = 0xFF \<longleftrightarrow> ab = 0xFF \<and> (\<forall>b \<in> set bs. b = 0xFF)"
  by (induction bs arbitrary: ob ab) (auto simp: and_eq_ones)

lemma verify_not_all_zeros_iff:
  "verify_not_all_zeros_glitch_safe buf = BOOT_OK \<longleftrightarrow>
     (\<exists>b \<in> set buf. b \<noteq> 0) \<and> (\<exists>b \<in> set buf. b \<noteq> 0xFF)"
  using or_and_acc_fst [where bs = buf and ob = 0 and ab = "0xFF"]
    or_and_acc_snd [where bs = buf and ob = 0 and ab = "0xFF"]
  by (auto simp: verify_not_all_zeros_glitch_safe_def split: prod.splits)

section \<open>Serial-number arithmetic\<close>

definition is_newer_sequence :: "u32 \<Rightarrow> u32 \<Rightarrow> bool" where
  "is_newer_sequence new_seq old_seq =
     (if new_seq = old_seq then False
      else (new_seq > old_seq \<and> new_seq - old_seq \<le> push_bit 31 1) \<or>
           (new_seq < old_seq \<and> old_seq - new_seq > push_bit 31 1))"

lemma two31: "unat (push_bit 31 1 :: u32) = 2147483648"
  by simp

text \<open>In terms of the distance travelled around the ring.\<close>

lemma is_newer_unat:
  "is_newer_sequence n m \<longleftrightarrow>
     (unat m < unat n \<and> unat n - unat m \<le> 2147483648) \<or>
     (unat n < unat m \<and> unat m - unat n > 2147483648)"
  by (auto simp: is_newer_sequence_def word_le_nat_alt word_less_nat_alt two31 unat_sub
      simp del: push_bit_numeral)

lemma newer_irrefl: "\<not> is_newer_sequence n n"
  by (simp add: is_newer_sequence_def)

lemma newer_trichotomy: "n \<noteq> m \<Longrightarrow> is_newer_sequence n m \<noteq> is_newer_sequence m n"
  by (auto simp: is_newer_unat) (metis linorder_neqE_nat unsigned_word_eqI)+

lemma newer_succ: "is_newer_sequence (n + 1) n"
proof -
  consider "unat n = 4294967295" | "Suc (unat n) < 4294967296"
    using unat_u32_lt [of n] by linarith
  then have "unat (n + 1) = (if unat n = 4294967295 then 0 else unat n + 1)"
    by cases (auto simp: unat_word_ariths)
  then show ?thesis by (auto simp: is_newer_unat)
qed

text \<open>Inside half the ring the comparison is that of the distances from a common base.\<close>

lemma newer_window:
  assumes "x < 2147483648" and "y < 2147483648"
  shows "is_newer_sequence (b + of_nat x) (b + of_nat y) \<longleftrightarrow> y < x"
proof -
  have m: "unat (b + of_nat z) = (unat b + z) mod 4294967296" for z
    by (simp add: unat_word_ariths unat_of_nat mod_add_right_eq)
  have w: "(unat b + z) mod 4294967296 =
      (if unat b + z < 4294967296 then unat b + z else unat b + z - 4294967296)" if "z < 2147483648" for z
  proof -
    have "unat b + z - 4294967296 < 4294967296" using that unat_u32_lt [of b] by linarith
    then show ?thesis by (simp add: le_mod_geq)
  qed
  have n: "is_newer_sequence (b + of_nat x) (b + of_nat y) \<longleftrightarrow>
      (if unat b + y < 4294967296 then unat b + y else unat b + y - 4294967296)
        < (if unat b + x < 4294967296 then unat b + x else unat b + x - 4294967296) \<and>
      (if unat b + x < 4294967296 then unat b + x else unat b + x - 4294967296)
        - (if unat b + y < 4294967296 then unat b + y else unat b + y - 4294967296) \<le> 2147483648 \<or>
      (if unat b + x < 4294967296 then unat b + x else unat b + x - 4294967296)
        < (if unat b + y < 4294967296 then unat b + y else unat b + y - 4294967296) \<and>
      (if unat b + y < 4294967296 then unat b + y else unat b + y - 4294967296)
        - (if unat b + x < 4294967296 then unat b + x else unat b + x - 4294967296) > 2147483648"
    unfolding is_newer_unat m w [OF assms(1)] w [OF assms(2)] by (rule refl)
  obtain B where B: "unat b = B" "B < 4294967296" using unat_u32_lt [of b] by blast
  show ?thesis
    unfolding n B(1) using assms B(2)
    by (cases "B + x < 4294967296"; cases "B + y < 4294967296"; simp; linarith)
qed

section \<open>The sealed boot proof\<close>

record boot_proof =
  pr_image_addr :: u32
  pr_image_size :: u32
  pr_entry_point :: u32
  pr_svn :: u32
  pr_seal0 :: u32
  pr_seal1 :: u32

definition boot_proof_mix :: "u32 \<Rightarrow> u32" where
  "boot_proof_mix h0 =
     (let h = h0 XOR drop_bit 16 h0; h = h * 0x85ebca6b;
          h = h XOR drop_bit 13 h; h = h * 0xc2b2ae35
      in h XOR drop_bit 16 h)"

definition boot_proof_seal :: "boot_proof \<Rightarrow> u32 list \<Rightarrow> boot_proof" where
  "boot_proof_seal pr key =
     (let h1 = key ! 0 XOR pr_image_addr pr; h2 = key ! 1 XOR pr_image_size pr;
          h1 = boot_proof_mix (h1 XOR pr_entry_point pr XOR key ! 2);
          h2 = boot_proof_mix (h2 XOR pr_svn pr XOR key ! 3)
      in pr\<lparr> pr_seal0 := h1, pr_seal1 := h2 \<rparr>)"

definition boot_proof_verify :: "boot_proof \<Rightarrow> u32 list \<Rightarrow> boot_status" where
  "boot_proof_verify pr key =
     (let e0 = key ! 0 XOR pr_image_addr pr; e1 = key ! 1 XOR pr_image_size pr;
          e0 = boot_proof_mix (e0 XOR pr_entry_point pr XOR key ! 2);
          e1 = boot_proof_mix (e1 XOR pr_svn pr XOR key ! 3);
          diff = (pr_seal0 pr XOR e0) OR (pr_seal1 pr XOR e1)
      in if diff \<noteq> 0 then BOOT_ERR_VERIFY else BOOT_OK)"

end
