(* ===== verification/Flash_Model.thy ===== *)
theory Flash_Model
  imports Boot_Hal
begin

text \<open>
  The NOR flash simulator of the host tests (\<open>test/host/flash_model.c\<close>): a flash file with
  sector erase, AND-programming, alignment and bounds checks, and an injected power failure at
  the \<open>fail_at_op\<close>-th destructive operation that lets only \<open>torn_prefix\<close> bytes of a write
  through. The backing file is the byte list \<open>fm_file\<close>; failures of the host's own file system
  and heap are left out. The model discharges \<open>flash_contract\<close>, which is how the contract's
  theorems are applied to concrete devices.
\<close>

section \<open>The simulator\<close>

record flash_model =
  fm_file :: "u8 list"
  fm_total_size :: nat
  fm_sector_size :: nat
  fm_erased_value :: u8
  fm_write_align :: nat
  fm_fail_at_op :: nat
  fm_torn_prefix :: nat
  fm_op_counter :: nat

definition model_read :: "u32 \<Rightarrow> nat \<Rightarrow> flash_model \<Rightarrow> boot_status \<times> u8 list \<times> flash_model" where
  "model_read addr len m =
     (if unat addr + len > fm_total_size m then (BOOT_ERR_FLASH_BOUNDS, [], m)
      else (BOOT_OK, slice_of (unat addr) len (fm_file m), m))"

text \<open>The programming loop: every byte is checked against the NOR rule, then ANDed in.\<close>

fun nor_program :: "u8 list \<Rightarrow> u8 list \<Rightarrow> u8 list option" where
  "nor_program (t # ts) (b # bs) =
     (if (t AND b) \<noteq> b then None else map_option ((#) (t AND b)) (nor_program ts bs))"
| "nor_program ts [] = Some ts"
| "nor_program [] (b # bs) = None"

definition model_write :: "u32 \<Rightarrow> u8 list \<Rightarrow> flash_model \<Rightarrow> boot_status \<times> flash_model" where
  "model_write addr buf m =
     (if unat addr mod fm_write_align m \<noteq> 0 \<or> length buf mod fm_write_align m \<noteq> 0
      then (BOOT_ERR_FLASH_ALIGN, m)
      else if unat addr + length buf > fm_total_size m then (BOOT_ERR_FLASH_BOUNDS, m)
      else
        let m = m\<lparr>fm_op_counter := fm_op_counter m + 1\<rparr>;
            crash = (fm_fail_at_op m > 0 \<and> fm_op_counter m = fm_fail_at_op m);
            eff = (if crash then min (fm_torn_prefix m) (length buf) else length buf)
        in case nor_program (slice_of (unat addr) eff (fm_file m)) (take eff buf) of
             None \<Rightarrow> (BOOT_ERR_FLASH_NOT_ERASED, m)
           | Some temp \<Rightarrow>
               (if crash then BOOT_ERR_FLASH_HW else BOOT_OK,
                m\<lparr>fm_file := patch (unat addr) temp (fm_file m)\<rparr>))"

definition model_erase_sector :: "u32 \<Rightarrow> flash_model \<Rightarrow> boot_status \<times> flash_model" where
  "model_erase_sector addr m =
     (if unat addr mod fm_sector_size m \<noteq> 0 then (BOOT_ERR_FLASH_ALIGN, m)
      else if unat addr \<ge> fm_total_size m then (BOOT_ERR_FLASH_BOUNDS, m)
      else
        let m = m\<lparr>fm_op_counter := fm_op_counter m + 1\<rparr>
        in if fm_fail_at_op m > 0 \<and> fm_op_counter m = fm_fail_at_op m then (BOOT_ERR_FLASH_HW, m)
           else (BOOT_OK, m\<lparr>fm_file :=
                   patch (unat addr) (replicate (fm_sector_size m) (fm_erased_value m)) (fm_file m)\<rparr>))"

definition model_get_sector_size :: "u32 \<Rightarrow> flash_model \<Rightarrow> boot_status \<times> nat" where
  "model_get_sector_size addr m =
     (if unat addr \<ge> fm_total_size m then (BOOT_ERR_FLASH_BOUNDS, 0)
      else (BOOT_OK, fm_sector_size m))"

text \<open>
  \<open>hal_interface\<close> names only the callbacks; the data fields of the \<open>flash_hal_t\<close> it initialises
  are therefore all zero, including \<open>erased_value\<close>.
\<close>

definition hal_interface :: "flash_model flash_hal" where
  "hal_interface = \<lparr> fh_read = model_read, fh_write = model_write,
     fh_erase_sector = model_erase_sector, fh_get_sector_size = model_get_sector_size,
     fh_max_sector_size = 0, fh_total_size = 0, fh_max_erase_cycles = 0, fh_write_align = 0,
     fh_erased_value = 0, fh_erase_time_us_max = 0, fh_write_time_us_page = 0,
     fh_get_supply_mv = None \<rparr>"

text \<open>
  A port built on the same callbacks that also fills the data fields the core reads, the way the
  trailing initialisers of \<open>TOOB_FLASH_HAL_V2\<close> are meant for.
\<close>

definition model_port :: "u32 \<Rightarrow> u8 \<Rightarrow> u8 \<Rightarrow> u32 \<Rightarrow> flash_model flash_hal" where
  "model_port sec wa ev cycles = hal_interface\<lparr> fh_max_sector_size := sec, fh_write_align := wa,
     fh_erased_value := ev, fh_max_erase_cycles := cycles \<rparr>"

definition model_platform :: "flash_model flash_hal \<Rightarrow> flash_model platform" where
  "model_platform fl = \<lparr> pf_flash = Some fl, pf_crypto = None, pf_clock = None,
     pf_wdt = Some \<lparr> wh_kick = Some (\<lambda>s. s), wh_suspend_for_critical_section = Some (\<lambda>s. s),
                     wh_resume = Some (\<lambda>s. s) \<rparr>,
     pf_console = None, pf_soc = None, pf_confirm = None, pf_slot_caps = None \<rparr>"

lemma model_platform_sel [simp]:
  "pf_flash (model_platform fl) = Some fl"
  "pf_wdt (model_platform fl) = Some \<lparr> wh_kick = Some (\<lambda>s. s),
      wh_suspend_for_critical_section = Some (\<lambda>s. s), wh_resume = Some (\<lambda>s. s) \<rparr>"
  by (simp_all add: model_platform_def)

lemma model_wdt [simp]:
  "wdt_kick (model_platform fl) s = s"
  "wdt_suspend (model_platform fl) s = s"
  "wdt_resume (model_platform fl) s = s"
  by (simp_all add: wdt_kick_def wdt_suspend_def wdt_resume_def call_opt_def)

lemma model_port_sel [simp]:
  "fh_read (model_port sec wa ev cy) = model_read"
  "fh_write (model_port sec wa ev cy) = model_write"
  "fh_erase_sector (model_port sec wa ev cy) = model_erase_sector"
  "fh_get_sector_size (model_port sec wa ev cy) = model_get_sector_size"
  "fh_erased_value (model_port sec wa ev cy) = ev"
  "fh_write_align (model_port sec wa ev cy) = wa"
  "fh_max_sector_size (model_port sec wa ev cy) = sec"
  "fh_max_erase_cycles (model_port sec wa ev cy) = cy"
  "fh_get_supply_mv (model_port sec wa ev cy) = None"
  by (simp_all add: model_port_def hal_interface_def)

section \<open>Programming\<close>

lemma nor_program_programmable:
  "programmable ts bs \<Longrightarrow> nor_program ts bs = Some bs"
  unfolding programmable_def by (induction ts bs rule: list_all2_induct) auto

lemma nor_program_SomeD: "nor_program ts bs = Some out \<Longrightarrow> length out = length ts"
  by (induction ts bs arbitrary: out rule: nor_program.induct) (auto split: if_splits)

lemma nor_program_exact:
  "nor_program ts bs = Some out \<Longrightarrow> length ts = length bs \<Longrightarrow> out = bs \<and> programmable ts bs"
  unfolding programmable_def
  by (induction ts bs arbitrary: out rule: nor_program.induct) (auto split: if_splits)

lemma and_ones_u8 [simp]: "(0xFF :: u8) AND b = b" "b AND (0xFF :: u8) = b"
proof -
  have ones: "(0xFF :: u8) = - 1" by simp
  show "(0xFF :: u8) AND b = b" "b AND (0xFF :: u8) = b"
    unfolding ones by simp_all
qed

lemma programmable_erased: "length bs = n \<Longrightarrow> programmable (replicate n 0xFF) bs"
  by (auto simp: programmable_def list_all2_conv_all_nth)

section \<open>The simulator satisfies the contract\<close>

text \<open>
  A well-formed device with the given geometry on which no further power failure is scheduled.
\<close>

definition model_live :: "nat \<Rightarrow> nat \<Rightarrow> nat \<Rightarrow> u8 \<Rightarrow> flash_model \<Rightarrow> bool" where
  "model_live tot sec wa ev m \<longleftrightarrow>
     length (fm_file m) = tot \<and> fm_total_size m = tot \<and> fm_sector_size m = sec \<and>
     fm_write_align m = wa \<and> fm_erased_value m = ev \<and>
     (fm_fail_at_op m = 0 \<or> fm_fail_at_op m \<le> fm_op_counter m)"

lemma model_contract:
  assumes "0 < sec" and "tot mod sec = 0" and "0 < wa" and "sec mod wa = 0"
    and "tot < 4294967296"
  shows "flash_contract (model_platform (model_port msec a8 ev cy)) (model_port msec a8 ev cy)
     fm_file (model_live tot sec wa ev) tot sec wa"
proof (unfold_locales)
  fix s and a :: u32
  assume "model_live tot sec wa ev s" "unat a < tot" "unat a mod sec = 0"
  moreover have "unat a + sec \<le> tot"
  proof -
    obtain q where "tot = sec * q" using assms(2) by auto
    moreover obtain r where "unat a = sec * r" using \<open>unat a mod sec = 0\<close> by auto
    ultimately have "r < q" using \<open>unat a < tot\<close> by simp
    then have "sec * Suc r \<le> sec * q" by (intro mult_le_mono2) simp
    then show ?thesis using \<open>tot = sec * q\<close> \<open>unat a = sec * r\<close> by simp
  qed
  ultimately show "\<exists>s'. fh_erase_sector (model_port msec a8 ev cy) a s = (BOOT_OK, s') \<and>
      fm_file s' = patch (unat a) (replicate sec (fh_erased_value (model_port msec a8 ev cy))) (fm_file s)
      \<and> model_live tot sec wa ev s'"
    by (auto simp: model_erase_sector_def model_live_def Let_def)
next
  fix s and a :: u32 and d
  assume a: "model_live tot sec wa ev s" "unat a + length d \<le> tot" "unat a mod wa = 0"
    "length d mod wa = 0" "programmable (slice_of (unat a) (length d) (fm_file s)) d"
  then show "\<exists>s'. fh_write (model_port msec a8 ev cy) a d s = (BOOT_OK, s') \<and>
      fm_file s' = patch (unat a) d (fm_file s) \<and> model_live tot sec wa ev s'"
    using nor_program_programmable [OF a(5)] by (auto simp: model_write_def model_live_def Let_def)
qed (use assms in \<open>auto simp: model_live_def model_read_def model_get_sector_size_def\<close>)

text \<open>
  The reference device of the witnesses: 4 sectors of 16 bytes, byte-aligned writes, erased
  value \<open>0xFF\<close>.
\<close>

definition small_port :: "flash_model flash_hal" where
  "small_port = model_port 16 1 0xFF 0"

definition small_platform :: "flash_model platform" where
  "small_platform = model_platform small_port"

definition small_device :: "u8 list \<Rightarrow> flash_model" where
  "small_device img = \<lparr> fm_file = img, fm_total_size = 64, fm_sector_size = 16,
     fm_erased_value = 0xFF, fm_write_align = 1, fm_fail_at_op = 0, fm_torn_prefix = 0,
     fm_op_counter = 0 \<rparr>"

interpretation small: flash_contract small_platform small_port fm_file
    "model_live 64 16 1 0xFF" 64 16 1
  unfolding small_platform_def small_port_def by (rule model_contract) simp_all

lemma small_device_live: "length img = 64 \<Longrightarrow> model_live 64 16 1 0xFF (small_device img)"
  by (simp add: model_live_def small_device_def)

text \<open>The geometry of the repository's own host tests: 16 MiB, 4 KiB sectors, 4-byte writes.\<close>

interpretation host: flash_contract "model_platform (model_port 4096 4 0xFF 0)"
    "model_port 4096 4 0xFF 0" fm_file "model_live 16777216 4096 4 0xFF" 16777216 4096 4
  by (rule model_contract) simp_all

section \<open>The simulator as a device that dies\<close>

text \<open>
  A port that stays down once the injected failure has happened: from the \<open>fail_at_op\<close>-th destructive
  operation on, every call reports a hardware error. A write torn by the failure keeps its prefix.
\<close>

definition model_down :: "flash_model \<Rightarrow> bool" where
  "model_down m \<longleftrightarrow> 0 < fm_fail_at_op m \<and> fm_fail_at_op m \<le> fm_op_counter m"

definition brownout_port :: "u32 \<Rightarrow> u8 \<Rightarrow> u8 \<Rightarrow> u32 \<Rightarrow> flash_model flash_hal" where
  "brownout_port sec wa ev cycles = (model_port sec wa ev cycles)\<lparr>
     fh_read := \<lambda>a n m. if model_down m then (BOOT_ERR_FLASH_HW, [], m) else model_read a n m,
     fh_write := \<lambda>a d m. if model_down m then (BOOT_ERR_FLASH_HW, m) else model_write a d m,
     fh_erase_sector := \<lambda>a m. if model_down m then (BOOT_ERR_FLASH_HW, m) else model_erase_sector a m \<rparr>"

definition brownout_live :: "nat \<Rightarrow> nat \<Rightarrow> nat \<Rightarrow> u8 \<Rightarrow> flash_model \<Rightarrow> bool" where
  "brownout_live tot sec wa ev m \<longleftrightarrow>
     length (fm_file m) = tot \<and> fm_total_size m = tot \<and> fm_sector_size m = sec \<and>
     fm_write_align m = wa \<and> fm_erased_value m = ev \<and> \<not> model_down m"

lemma nor_program_prefix:
  assumes "programmable ts bs" and "k \<le> length bs"
  shows "nor_program (take k ts) (take k bs) = Some (take k bs)"
proof (rule nor_program_programmable)
  have "length ts = length bs" using assms(1) by (rule programmable_length)
  then show "programmable (take k ts) (take k bs)"
    using assms by (auto simp: programmable_def list_all2_conv_all_nth)
qed

lemma brownout_contract:
  assumes "0 < sec" and "tot mod sec = 0" and "0 < wa" and "sec mod wa = 0" and "tot < 4294967296"
  shows "mortal_flash (model_platform (brownout_port msec a8 ev cy)) (brownout_port msec a8 ev cy)
     fm_file (brownout_live tot sec wa ev) model_down tot sec wa"
proof unfold_locales
  fix s and a :: u32 and d
  assume a: "brownout_live tot sec wa ev s" "unat a + length d \<le> tot" "unat a mod wa = 0"
    "length d mod wa = 0" "programmable (slice_of (unat a) (length d) (fm_file s)) d"
  let ?b = "brownout_port msec a8 ev cy"
  show "(\<exists>s'. fh_write ?b a d s = (BOOT_OK, s') \<and> fm_file s' = patch (unat a) d (fm_file s) \<and>
          brownout_live tot sec wa ev s') \<or>
      (\<exists>st s'. fh_write ?b a d s = (st, s') \<and> st \<noteq> BOOT_OK \<and>
          touches (unat a) (length d) (fm_file s) (fm_file s') \<and> model_down s')"
  proof (cases "0 < fm_fail_at_op s \<and> Suc (fm_op_counter s) = fm_fail_at_op s")
    case False
    have "nor_program (slice_of (unat a) (length d) (fm_file s)) d = Some d"
      using a(5) by (rule nor_program_programmable)
    then have "\<exists>s'. fh_write ?b a d s = (BOOT_OK, s') \<and> fm_file s' = patch (unat a) d (fm_file s) \<and>
          brownout_live tot sec wa ev s'"
      using a False
      by (auto simp: brownout_port_def model_write_def brownout_live_def model_down_def Let_def)
    then show ?thesis ..
  next
    case True
    define k where "k = min (fm_torn_prefix s) (length d)"
    have k: "k \<le> length d" by (simp add: k_def)
    have sl: "slice_of (unat a) k (fm_file s) = take k (slice_of (unat a) (length d) (fm_file s))"
      using k by (simp add: slice_of_def min_def)
    have pr: "nor_program (slice_of (unat a) k (fm_file s)) (take k d) = Some (take k d)"
      unfolding sl using a(5) k by (rule nor_program_prefix)
    have t: "touches (unat a) (length d) (fm_file s) (patch (unat a) (take k d) (fm_file s))"
      by (rule touches_mono [OF touches_patch [of "unat a" "take k d"]])
        (use a k in \<open>auto simp: brownout_live_def\<close>)
    have "fh_write ?b a d s = (BOOT_ERR_FLASH_HW,
        s\<lparr>fm_op_counter := Suc (fm_op_counter s), fm_file := patch (unat a) (take k d) (fm_file s)\<rparr>)"
      using a True pr by (auto simp: brownout_port_def model_write_def brownout_live_def Let_def k_def [symmetric])
    then show ?thesis using t True by (auto simp: model_down_def)
  qed
next
  fix s and a :: u32
  assume a: "brownout_live tot sec wa ev s" "unat a < tot" "unat a mod sec = 0"
  let ?b = "brownout_port msec a8 ev cy"
  show "(\<exists>s'. fh_erase_sector ?b a s = (BOOT_OK, s') \<and>
          fm_file s' = patch (unat a) (replicate sec (fh_erased_value ?b)) (fm_file s) \<and>
          brownout_live tot sec wa ev s') \<or>
      (\<exists>st s'. fh_erase_sector ?b a s = (st, s') \<and> st \<noteq> BOOT_OK \<and>
          touches (unat a) sec (fm_file s) (fm_file s') \<and> model_down s')"
  proof (cases "0 < fm_fail_at_op s \<and> Suc (fm_op_counter s) = fm_fail_at_op s")
    case True
    then show ?thesis using a
      by (auto simp: brownout_port_def model_erase_sector_def brownout_live_def model_down_def Let_def)
  next
    case False
    have "unat a + sec \<le> tot"
      using a(2,3) assms(1,2)
      by (metis add_0 dvd_add_right_iff dvd_diff_nat dvd_imp_le le_add_diff_inverse le_diff_conv2
          less_imp_le_nat mod_0_imp_dvd zero_less_diff add.commute)
    then show ?thesis using a False
      by (auto simp: brownout_port_def model_erase_sector_def brownout_live_def model_down_def Let_def)
  qed
qed (use assms in \<open>auto simp: brownout_port_def brownout_live_def model_read_def model_get_sector_size_def\<close>)

definition brownout_small :: "flash_model flash_hal" where
  "brownout_small = brownout_port 16 1 0xFF 0"

definition brownout_platform :: "flash_model platform" where
  "brownout_platform = model_platform brownout_small"

interpretation brownout: mortal_flash brownout_platform brownout_small fm_file
    "brownout_live 64 16 1 0xFF" model_down 64 16 1
  unfolding brownout_platform_def brownout_small_def by (rule brownout_contract) simp_all

end
