(* ===== verification/Boot_Flash_Stream.thy ===== *)
theory Boot_Flash_Stream
  imports Boot_Crc32 Boot_Ct_Utils Flash_Model
begin

text \<open>
  The streaming helpers that move flash through the RAM arena: the CRC over a flash range
  (\<open>boot_crc32_flash_stream\<close> in \<open>core/utils/boot_crc32.c\<close>), the block copy (\<open>stream_copy\<close> in
  \<open>core/boot_effect.c\<close>) and the smart erase (\<open>_boot_swap_erase_tracked\<close> in
  \<open>core/boot_swap.c\<close>). The arena is threaded as a byte list. The loops advance by
  \<open>min(arena_len, rest)\<close>; with an empty arena they never end, which \<open>partial_function\<close> renders as
  \<open>None\<close>.
\<close>

section \<open>CRC of a flash range\<close>

text \<open>The result carries \<open>*out_crc\<close> as an option: \<open>None\<close> where the code leaves it unwritten.\<close>

partial_function (option) crc_stream_loop ::
  "'s platform \<Rightarrow> 's flash_hal \<Rightarrow> u32 \<Rightarrow> nat \<Rightarrow> nat \<Rightarrow> nat \<Rightarrow> u32 \<Rightarrow> u8 list \<Rightarrow> 's \<Rightarrow>
     (boot_status \<times> u32 option \<times> u8 list \<times> 's) option" where
  "crc_stream_loop p fl addr len arena_len offset crc arena s =
     (if offset < len then
        let s = wdt_kick p s;
            step = (if len - offset > arena_len then arena_len else len - offset)
        in case fh_read fl (addr + of_nat offset) step s of (st, d, s) \<Rightarrow>
             if st \<noteq> BOOT_OK then Some (st, None, zeroed arena_len, s)
             else
               let arena = fill_prefix d arena
               in crc_stream_loop p fl addr len arena_len (offset + step)
                    (boot_crc32_update crc (take step arena)) arena s
      else Some (BOOT_OK, Some (crc XOR TOOB_CRC32_FINAL_XOR), zeroed arena_len, s))"

definition boot_crc32_flash_stream ::
  "'s platform \<Rightarrow> 's flash_hal \<Rightarrow> u32 \<Rightarrow> nat \<Rightarrow> u8 list \<Rightarrow> 's \<Rightarrow>
     (boot_status \<times> u32 option \<times> u8 list \<times> 's) option" where
  "boot_crc32_flash_stream p fl addr len arena s =
     crc_stream_loop p fl addr len (length arena) 0 TOOB_CRC32_INIT arena s"

section \<open>Copying a flash range\<close>

partial_function (option) stream_copy_loop ::
  "'s platform \<Rightarrow> 's flash_hal \<Rightarrow> u32 \<Rightarrow> u32 \<Rightarrow> nat \<Rightarrow> nat \<Rightarrow> nat \<Rightarrow> u8 list \<Rightarrow> 's \<Rightarrow>
     (boot_status \<times> u8 list \<times> 's) option" where
  "stream_copy_loop p fl src dest len arena_len offset arena s =
     (if offset < len then
        let s = wdt_kick p s;
            step = (if len - offset > arena_len then arena_len else len - offset)
        in case fh_read fl (src + of_nat offset) step s of (st, d, s) \<Rightarrow>
             if st \<noteq> BOOT_OK then Some (st, zeroed arena_len, s)
             else
               let arena = fill_prefix d arena
               in case fh_write fl (dest + of_nat offset) (take step arena) s of (st, s) \<Rightarrow>
                    if st \<noteq> BOOT_OK then Some (st, zeroed arena_len, s)
                    else stream_copy_loop p fl src dest len arena_len (offset + step) arena s
      else Some (BOOT_OK, zeroed arena_len, s))"

definition stream_copy ::
  "'s platform \<Rightarrow> 's flash_hal \<Rightarrow> u32 \<Rightarrow> u32 \<Rightarrow> nat \<Rightarrow> u8 list \<Rightarrow> 's \<Rightarrow>
     (boot_status \<times> u8 list \<times> 's) option" where
  "stream_copy p fl src dest len arena s =
     stream_copy_loop p fl src dest len (length arena) 0 arena s"

section \<open>Smart erase\<close>

text \<open>
  The scan of one sector: every chunk is looked at even after a dirty one has been found, and a
  failed read counts as dirty.
\<close>

partial_function (option) erase_scan_loop ::
  "'s platform \<Rightarrow> 's flash_hal \<Rightarrow> u32 \<Rightarrow> nat \<Rightarrow> nat \<Rightarrow> nat \<Rightarrow> bool \<Rightarrow> u8 list \<Rightarrow> 's \<Rightarrow>
     (bool \<times> u8 list \<times> 's) option" where
  "erase_scan_loop p fl cur sec_size arena_len chk_off needs arena s =
     (if chk_off < sec_size then
        let s = wdt_kick p s;
            read_len = (if sec_size - chk_off > arena_len then arena_len else sec_size - chk_off)
        in case fh_read fl (cur + of_nat chk_off) read_len s of (st, d, s) \<Rightarrow>
             let arena = fill_prefix d arena;
                 needs = (needs \<or> st \<noteq> BOOT_OK \<or>
                   \<not> is_fully_erased_constant_time (take read_len arena) (fh_erased_value fl))
             in erase_scan_loop p fl cur sec_size arena_len (chk_off + read_len) needs arena s
      else Some (needs, zeroed arena_len, s))"

definition erase_one_sector ::
  "u32 \<Rightarrow> 's platform \<Rightarrow> 's flash_hal \<Rightarrow> u32 \<Rightarrow> nat \<Rightarrow> 's \<Rightarrow> boot_status \<times> 's" where
  "erase_one_sector max_sector p fl cur sec_size s =
     (if sec_size \<ge> unat max_sector then
        let s = wdt_suspend p s
        in case fh_erase_sector fl cur s of (st, s) \<Rightarrow> (st, wdt_resume p s)
      else
        let s = wdt_kick p s
        in case fh_erase_sector fl cur s of (st, s) \<Rightarrow> (st, wdt_kick p s))"

text \<open>
  \<open>loops\<close> is \<open>MAX_ERASE_LOOPS - loop_guard\<close>: the iteration that would make \<open>loop_guard\<close> reach
  the limit returns \<open>BOOT_ERR_FLASH_HW\<close>. \<open>erases\<close> counts \<open>*erases_out\<close>.
\<close>

fun erase_tracked_loop ::
  "nat \<Rightarrow> u32 \<Rightarrow> 's platform \<Rightarrow> 's flash_hal \<Rightarrow> u32 \<Rightarrow> u32 \<Rightarrow> u32 \<Rightarrow> u8 list \<Rightarrow> 's \<Rightarrow>
     (boot_status \<times> u32 \<times> u8 list \<times> 's) option" where
  "erase_tracked_loop loops max_sector p fl cur end_addr erases arena s =
     (if \<not> cur < end_addr then Some (BOOT_OK, erases, arena, s)
      else case loops of
        0 \<Rightarrow> Some (BOOT_ERR_FLASH_HW, erases, arena, s)
      | Suc loops' \<Rightarrow>
          (case fh_get_sector_size fl cur s of (st, sec_size) \<Rightarrow>
             if st \<noteq> BOOT_OK \<or> sec_size = 0 then Some (BOOT_ERR_FLASH_HW, erases, arena, s)
             else
               case erase_scan_loop p fl cur sec_size (length arena) 0 False arena s of
                 None \<Rightarrow> None
               | Some (needs, arena, s) \<Rightarrow>
                   if needs then
                     case erase_one_sector max_sector p fl cur sec_size s of (st, s) \<Rightarrow>
                       if st \<noteq> BOOT_OK then Some (st, erases, arena, s)
                       else erase_tracked_loop loops' max_sector p fl (cur + of_nat sec_size) end_addr
                              (erases + 1) arena s
                   else erase_tracked_loop loops' max_sector p fl (cur + of_nat sec_size) end_addr
                          erases arena s))"

definition MAX_ERASE_LOOPS :: nat where "MAX_ERASE_LOOPS = 100000"

text \<open>\<open>max_sector\<close> is \<open>CHIP_FLASH_MAX_SECTOR_SIZE\<close> of the generated configuration.\<close>

definition boot_swap_erase_tracked ::
  "u32 \<Rightarrow> 's platform \<Rightarrow> u32 \<Rightarrow> nat \<Rightarrow> u8 list \<Rightarrow> 's \<Rightarrow>
     (boot_status \<times> u32 \<times> u8 list \<times> 's) option" where
  "boot_swap_erase_tracked max_sector p addr len arena s =
     (case pf_flash p of
        None \<Rightarrow> Some (BOOT_ERR_INVALID_ARG, 0, arena, s)
      | Some fl \<Rightarrow>
          if len = 0 then Some (BOOT_OK, 0, arena, s)
          else if unat (UINT32_MAX - addr) < len then Some (BOOT_ERR_INVALID_ARG, 0, arena, s)
          else erase_tracked_loop (MAX_ERASE_LOOPS - 1) max_sector p fl addr (addr + of_nat len) 0
                 arena s)"

definition boot_swap_erase_safe ::
  "u32 \<Rightarrow> 's platform \<Rightarrow> u32 \<Rightarrow> nat \<Rightarrow> u8 list \<Rightarrow> 's \<Rightarrow> (boot_status \<times> u8 list \<times> 's) option" where
  "boot_swap_erase_safe max_sector p addr len arena s =
     (case boot_swap_erase_tracked max_sector p addr len arena s of
        None \<Rightarrow> None
      | Some (st, erases, arena, s) \<Rightarrow> Some (st, arena, s))"

declare erase_tracked_loop.simps [simp del]

section \<open>Streams on a device that may die\<close>

context mortal_flash
begin

text \<open>
  Each routine, started on a live device, either does its work and leaves the device live or
  returns an error with the device dead and nothing but its target range changed.
\<close>

lemma crc_stream_loop_fate:
  assumes "live s" "unat addr + len \<le> total" "0 < n" "offset \<le> len"
  shows "\<exists>st c s'. crc_stream_loop p fl addr len n offset crc arena s = Some (st, c, zeroed n, s') \<and>
      mem s' = mem s \<and>
      (st = BOOT_OK \<and> live s' \<and>
         c = Some (boot_crc32_update crc (slice_of (unat addr + offset) (len - offset) (mem s))
           XOR TOOB_CRC32_FINAL_XOR) \<or>
       st \<noteq> BOOT_OK \<and> c = None \<and> dead s')"
  using assms
proof (induction "len - offset" arbitrary: offset crc arena s rule: less_induct)
  case less
  show ?case
  proof (cases "offset < len")
    case False
    then show ?thesis using less.prems by (subst crc_stream_loop.simps) simp
  next
    case True
    define step where "step = (if len - offset > n then n else len - offset)"
    define blk where "blk = slice_of (unat addr + offset) step (mem s)"
    have st: "0 < step" "offset + step \<le> len" using True less.prems by (auto simp: step_def)
    have a: "unat (addr + of_nat offset) = unat addr + offset"
      using less.prems True total_addr by (intro flash_addr) simp
    have k: "live (wdt_kick p s)" "mem (wdt_kick p s) = mem s"
      using less.prems by (simp_all add: wdt_fates)
    have fit: "unat (addr + of_nat offset) + step \<le> total" using a st less.prems by simp
    consider s1 where "fh_read fl (addr + of_nat offset) step (wdt_kick p s) = (BOOT_OK, blk, s1)"
        "mem s1 = mem s" "live s1"
      | st d s1 where "fh_read fl (addr + of_nat offset) step (wdt_kick p s) = (st, d, s1)"
        "st \<noteq> BOOT_OK" "mem s1 = mem s" "dead s1"
      using read_fate [OF k(1) fit] a k(2) by (auto simp: blk_def)
    then show ?thesis
    proof cases
      case 1
      have len: "length blk = step" using st less.prems mem_len by (simp add: blk_def)
      have sp: "slice_of (unat addr + offset) (len - offset) (mem s) =
          blk @ slice_of (unat addr + (offset + step)) (len - (offset + step)) (mem s)"
        using slice_of_split [of step "len - offset" "unat addr + offset" "mem s"] st
        by (simp add: add.assoc blk_def)
      show ?thesis
        using less.hyps [of "offset + step" s1 "boot_crc32_update crc blk" "fill_prefix blk arena"]
          True st less.prems 1(2,3)
        by (subst crc_stream_loop.simps)
          (simp add: step_def [symmetric] 1(1) take_fill_prefix_n [OF len] sp)
    next
      case 2
      then show ?thesis using True
        by (subst crc_stream_loop.simps) (simp add: step_def [symmetric])
    qed
  qed
qed

lemma crc_stream_fate:
  assumes "live s" "unat addr + len \<le> total" "arena \<noteq> []"
  shows "\<exists>st c s'. boot_crc32_flash_stream p fl addr len arena s =
        Some (st, c, zeroed (length arena), s') \<and> mem s' = mem s \<and>
      (st = BOOT_OK \<and> live s' \<and> c = Some (compute_boot_crc32 (slice_of (unat addr) len (mem s))) \<or>
       st \<noteq> BOOT_OK \<and> c = None \<and> dead s')"
  using crc_stream_loop_fate [OF assms(1,2), of "length arena" 0 TOOB_CRC32_INIT arena] assms(3)
  by (simp add: boot_crc32_flash_stream_def compute_boot_crc32_def)

lemma crc_stream_dead:
  assumes "dead s" "0 < len"
  shows "\<exists>st s'. boot_crc32_flash_stream p fl addr len arena s =
        Some (st, None, zeroed (length arena), s') \<and> mem s' = mem s \<and> st \<noteq> BOOT_OK \<and> dead s'"
proof -
  have k: "dead (wdt_kick p s)" "mem (wdt_kick p s) = mem s" using assms by (simp_all add: wdt_fates)
  obtain st d s' where "fh_read fl addr (if len > length arena then length arena else len) (wdt_kick p s) =
      (st, d, s')" "st \<noteq> BOOT_OK" "mem s' = mem s" "dead s'"
    using dead_readE [OF k(1)] k(2) by metis
  then show ?thesis using assms(2) unfolding boot_crc32_flash_stream_def
    by (cases "len > length arena") (subst crc_stream_loop.simps, simp add: Let_def)+
qed

lemma stream_copy_loop_fate:
  assumes "live s" "unat src + len \<le> total" "unat dest + len \<le> total" "0 < n" "offset \<le> len"
    and "unat src + len \<le> unat dest \<or> unat dest + len \<le> unat src"
    and "unat dest mod walign = 0" "len mod walign = 0" "n mod walign = 0" "offset mod walign = 0"
    and "programmable (slice_of (unat dest + offset) (len - offset) (mem s))
           (slice_of (unat src + offset) (len - offset) (mem s))"
  shows "\<exists>st s'. stream_copy_loop p fl src dest len n offset arena s = Some (st, zeroed n, s') \<and>
      (st = BOOT_OK \<and> live s' \<and>
         mem s' = patch (unat dest + offset) (slice_of (unat src + offset) (len - offset) (mem s)) (mem s) \<or>
       st \<noteq> BOOT_OK \<and> dead s' \<and> touches (unat dest + offset) (len - offset) (mem s) (mem s'))"
  using assms
proof (induction "len - offset" arbitrary: offset arena s rule: less_induct)
  case less
  show ?case
  proof (cases "offset < len")
    case False
    then show ?thesis using less.prems by (subst stream_copy_loop.simps) simp
  next
    case True
    define step where "step = (if len - offset > n then n else len - offset)"
    define blk where "blk = slice_of (unat src + offset) step (mem s)"
    define rest where "rest = slice_of (unat src + (offset + step)) (len - (offset + step)) (mem s)"
    have st: "0 < step" "offset + step \<le> len" using True less.prems by (auto simp: step_def)
    have sa: "step mod walign = 0" "(offset + step) mod walign = 0"
    proof -
      have "(len - offset) mod walign = 0" using less.prems(8,10) True
        by (metis dvd_diff_nat dvd_eq_mod_eq_0)
      then show "step mod walign = 0" using less.prems(9) by (simp add: step_def)
      then show "(offset + step) mod walign = 0" using less.prems(10) by (metis dvd_add mod_0_imp_dvd dvd_imp_mod_0)
    qed
    have a: "unat (src + of_nat offset) = unat src + offset" "unat (dest + of_nat offset) = unat dest + offset"
      using less.prems True total_addr by (simp_all add: flash_addr)
    have k: "live (wdt_kick p s)" "mem (wdt_kick p s) = mem s"
      using less.prems by (simp_all add: wdt_fates)
    have ml: "length (mem s) = total" using mem_len less.prems by simp
    have fit: "unat (src + of_nat offset) + step \<le> total" using a st less.prems by simp
    consider (ok) s1 where "fh_read fl (src + of_nat offset) step (wdt_kick p s) = (BOOT_OK, blk, s1)"
        "mem s1 = mem s" "live s1"
      | (rfail) st d s1 where "fh_read fl (src + of_nat offset) step (wdt_kick p s) = (st, d, s1)"
        "st \<noteq> BOOT_OK" "mem s1 = mem s" "dead s1"
      using read_fate [OF k(1) fit] a k(2) by (auto simp: blk_def)
    then show ?thesis
    proof cases
      case rfail
      then show ?thesis using True
        by (subst stream_copy_loop.simps) (simp add: step_def [symmetric])
    next
      case ok
      have lb: "length blk = step" using st less.prems ml by (simp add: blk_def)
      have sp: "slice_of (unat src + offset) (len - offset) (mem s) = blk @ rest"
        using slice_of_split [of step "len - offset" "unat src + offset" "mem s"] st
        by (simp add: add.assoc blk_def rest_def)
      have sd: "slice_of (unat dest + offset) (len - offset) (mem s) =
          slice_of (unat dest + offset) step (mem s) @
          slice_of (unat dest + (offset + step)) (len - (offset + step)) (mem s)"
        using slice_of_split [of step "len - offset" "unat dest + offset" "mem s"] st
        by (simp add: add.assoc)
      have pr: "programmable (slice_of (unat dest + offset) step (mem s)) blk"
          "programmable (slice_of (unat dest + (offset + step)) (len - (offset + step)) (mem s)) rest"
        using less.prems(11) lb st less.prems(3) ml unfolding sp sd
        by (simp_all add: programmable_append)
      have wa: "(unat dest + offset) mod walign = 0"
        using less.prems(7,10) by (metis dvd_add mod_0_imp_dvd dvd_imp_mod_0)
      consider (wok) s2 where "fh_write fl (dest + of_nat offset) blk s1 = (BOOT_OK, s2)"
          "mem s2 = patch (unat dest + offset) blk (mem s)" "live s2"
        | (wfail) st s2 where "fh_write fl (dest + of_nat offset) blk s1 = (st, s2)" "st \<noteq> BOOT_OK"
          "touches (unat dest + offset) step (mem s) (mem s2)" "dead s2"
        using write_fate [OF ok(3), of "dest + of_nat offset" blk] a wa sa lb pr(1) ok(2) st less.prems
        by auto
      then show ?thesis
      proof cases
        case wfail
        have "touches (unat dest + offset) (len - offset) (mem s) (mem s2)"
          by (rule touches_mono [OF wfail(3)]) (use st in auto)
        then show ?thesis using True wfail ok(1)
          by (subst stream_copy_loop.simps) (simp add: step_def [symmetric] take_fill_prefix_n [OF lb])
      next
        case wok
        have o1: "slice_of (unat src + (offset + step)) (len - (offset + step)) (mem s2) = rest"
          unfolding wok(2) rest_def using lb ml st less.prems(2,3,6) by (intro slice_of_patch_other) auto
        have o2: "slice_of (unat dest + (offset + step)) (len - (offset + step)) (mem s2) =
            slice_of (unat dest + (offset + step)) (len - (offset + step)) (mem s)"
          unfolding wok(2) using lb ml st less.prems(2,3) by (intro slice_of_patch_other) auto
        have pp: "patch (unat dest + (offset + step)) rest (mem s2) =
            patch (unat dest + offset) (blk @ rest) (mem s)"
          unfolding wok(2) using patch_patch_next [of "unat dest + offset" blk rest "mem s"] lb ml st less.prems(2,3)
          by (simp add: rest_def add.assoc)
        have tt: "touches (unat dest + offset) (len - offset) (mem s) m"
          if "touches (unat dest + (offset + step)) (len - (offset + step)) (mem s2) m" for m
        proof (rule touches_trans)
          show "touches (unat dest + offset) (len - offset) (mem s) (mem s2)"
            unfolding wok(2) using lb ml st less.prems(3)
            by (intro touches_mono [OF touches_patch [of "unat dest + offset" blk "mem s"]]) auto
          show "touches (unat dest + offset) (len - offset) (mem s2) m"
            using that by (rule touches_mono) (use st in auto)
        qed
        have "\<exists>st' s3. stream_copy_loop p fl src dest len n (offset + step) (fill_prefix blk arena) s2 =
              Some (st', zeroed n, s3) \<and>
            (st' = BOOT_OK \<and> live s3 \<and> mem s3 = patch (unat dest + (offset + step)) rest (mem s2) \<or>
             st' \<noteq> BOOT_OK \<and> dead s3 \<and>
             touches (unat dest + (offset + step)) (len - (offset + step)) (mem s2) (mem s3))"
          using less.hyps [of "offset + step" s2 "fill_prefix blk arena"] True st sa less.prems(2-9) wok(3) pr(2)
          by (simp add: o1 o2)
        then obtain st' s3 where r: "stream_copy_loop p fl src dest len n (offset + step) (fill_prefix blk arena) s2 =
              Some (st', zeroed n, s3)"
            "st' = BOOT_OK \<and> live s3 \<and> mem s3 = patch (unat dest + (offset + step)) rest (mem s2) \<or>
             st' \<noteq> BOOT_OK \<and> dead s3 \<and>
             touches (unat dest + (offset + step)) (len - (offset + step)) (mem s2) (mem s3)"
          by blast
        have "st' = BOOT_OK \<and> live s3 \<and> mem s3 = patch (unat dest + offset) (blk @ rest) (mem s) \<or>
            st' \<noteq> BOOT_OK \<and> dead s3 \<and> touches (unat dest + offset) (len - offset) (mem s) (mem s3)"
          using r(2) tt [of "mem s3"] unfolding pp by blast
        then show ?thesis
          using True by (subst stream_copy_loop.simps)
            (simp add: step_def [symmetric] ok(1) wok(1) take_fill_prefix_n [OF lb] sp r(1))
      qed
    qed
  qed
qed

lemma stream_copy_fate:
  assumes "live s" "unat src + len \<le> total" "unat dest + len \<le> total" "arena \<noteq> []"
    and "unat src + len \<le> unat dest \<or> unat dest + len \<le> unat src"
    and "unat dest mod walign = 0" "len mod walign = 0" "length arena mod walign = 0"
    and "programmable (slice_of (unat dest) len (mem s)) (slice_of (unat src) len (mem s))"
  shows "\<exists>st s'. stream_copy p fl src dest len arena s = Some (st, zeroed (length arena), s') \<and>
      (st = BOOT_OK \<and> live s' \<and> mem s' = patch (unat dest) (slice_of (unat src) len (mem s)) (mem s) \<or>
       st \<noteq> BOOT_OK \<and> dead s' \<and> touches (unat dest) len (mem s) (mem s'))"
  using stream_copy_loop_fate [OF assms(1-3), of "length arena" 0 arena] assms(4-)
  by (simp add: stream_copy_def)

lemma stream_copy_dead:
  assumes "dead s" "0 < len"
  shows "\<exists>st s'. stream_copy p fl src dest len arena s = Some (st, zeroed (length arena), s') \<and>
      mem s' = mem s \<and> st \<noteq> BOOT_OK \<and> dead s'"
proof -
  have k: "dead (wdt_kick p s)" "mem (wdt_kick p s) = mem s" using assms by (simp_all add: wdt_fates)
  obtain st d s' where "fh_read fl src (if len > length arena then length arena else len) (wdt_kick p s) =
      (st, d, s')" "st \<noteq> BOOT_OK" "mem s' = mem s" "dead s'"
    using dead_readE [OF k(1)] k(2) by metis
  then show ?thesis using assms(2) unfolding stream_copy_def
    by (cases "len > length arena") (subst stream_copy_loop.simps, simp add: Let_def)+
qed

lemma erase_scan_dead:
  assumes "dead s" "0 < n" "off \<le> sz"
  shows "\<exists>s'. erase_scan_loop p fl cur sz n off needs arena s = Some (needs \<or> off < sz, zeroed n, s') \<and>
      mem s' = mem s \<and> dead s'"
  using assms
proof (induction "sz - off" arbitrary: off needs arena s rule: less_induct)
  case less
  show ?case
  proof (cases "off < sz")
    case False
    then show ?thesis using less.prems by (subst erase_scan_loop.simps) simp
  next
    case True
    define step where "step = (if sz - off > n then n else sz - off)"
    have st: "0 < step" "off + step \<le> sz" using True less.prems by (auto simp: step_def)
    have k: "dead (wdt_kick p s)" "mem (wdt_kick p s) = mem s"
      using less.prems by (simp_all add: wdt_fates)
    obtain st d s1 where r: "fh_read fl (cur + of_nat off) step (wdt_kick p s) = (st, d, s1)"
        "st \<noteq> BOOT_OK" "mem s1 = mem s" "dead s1"
      using dead_readE [OF k(1)] k(2) by metis
    show ?thesis
      using less.hyps [of "off + step" s1 True "fill_prefix d arena"] True st less.prems r
      by (subst erase_scan_loop.simps) (simp add: step_def [symmetric])
  qed
qed

lemma erase_scan_fate:
  assumes "live s" "unat cur + sz \<le> total" "0 < n" "off \<le> sz"
  shows "\<exists>nd s'. erase_scan_loop p fl cur sz n off needs arena s = Some (nd, zeroed n, s') \<and>
      mem s' = mem s \<and>
      (live s' \<and> nd = (needs \<or> slice_of (unat cur + off) (sz - off) (mem s) \<noteq>
                       replicate (sz - off) (fh_erased_value fl)) \<or>
       dead s' \<and> nd)"
  using assms
proof (induction "sz - off" arbitrary: off needs arena s rule: less_induct)
  case less
  show ?case
  proof (cases "off < sz")
    case False
    then show ?thesis using less.prems by (subst erase_scan_loop.simps) simp
  next
    case True
    define step where "step = (if sz - off > n then n else sz - off)"
    define blk where "blk = slice_of (unat cur + off) step (mem s)"
    have st: "0 < step" "off + step \<le> sz" using True less.prems by (auto simp: step_def)
    have a: "unat (cur + of_nat off) = unat cur + off"
      using less.prems True total_addr by (intro flash_addr) simp
    have k: "live (wdt_kick p s)" "mem (wdt_kick p s) = mem s"
      using less.prems by (simp_all add: wdt_fates)
    have fit: "unat (cur + of_nat off) + step \<le> total" using a st less.prems by simp
    consider (ok) s1 where "fh_read fl (cur + of_nat off) step (wdt_kick p s) = (BOOT_OK, blk, s1)"
        "mem s1 = mem s" "live s1"
      | (rfail) st d s1 where "fh_read fl (cur + of_nat off) step (wdt_kick p s) = (st, d, s1)"
        "st \<noteq> BOOT_OK" "mem s1 = mem s" "dead s1"
      using read_fate [OF k(1) fit] a k(2) by (auto simp: blk_def)
    then show ?thesis
    proof cases
      case ok
      have lb: "length blk = step" using st less.prems mem_len by (simp add: blk_def)
      have sp: "slice_of (unat cur + off) (sz - off) (mem s) =
          blk @ slice_of (unat cur + (off + step)) (sz - (off + step)) (mem s)"
        using slice_of_split [of step "sz - off" "unat cur + off" "mem s"] st
        by (simp add: add.assoc blk_def)
      have rp: "replicate (sz - off) (fh_erased_value fl) =
          replicate step (fh_erased_value fl) @ replicate (sz - (off + step)) (fh_erased_value fl)"
        using st by (simp add: replicate_add [symmetric])
      have fe: "is_fully_erased_constant_time blk (fh_erased_value fl) \<longleftrightarrow>
          blk = replicate step (fh_erased_value fl)"
        using lb by (auto simp: is_fully_erased_iff replicate_length_same [symmetric] dest: in_set_replicate [THEN iffD1])
      show ?thesis
        using less.hyps [of "off + step" s1 "needs \<or> \<not> is_fully_erased_constant_time blk (fh_erased_value fl)"
          "fill_prefix blk arena"] True st less.prems ok(2,3) lb
        by (subst erase_scan_loop.simps)
          (simp add: step_def [symmetric] ok(1) take_fill_prefix_n [OF lb] sp rp fe)
    next
      case rfail
      then show ?thesis
        using erase_scan_dead [OF rfail(4) less.prems(3) st(2), of cur True "fill_prefix d arena"] True
        by (subst erase_scan_loop.simps) (auto simp: step_def [symmetric])
    qed
  qed
qed

lemma erase_one_fate:
  assumes "live s" "unat cur < total" "unat cur mod sec = 0"
  shows "\<exists>st s'. erase_one_sector ms p fl cur sz s = (st, s') \<and>
      (st = BOOT_OK \<and> live s' \<and> mem s' = patch (unat cur) (replicate sec (fh_erased_value fl)) (mem s) \<or>
       st \<noteq> BOOT_OK \<and> dead s' \<and> touches (unat cur) sec (mem s) (mem s'))"
proof -
  have "\<exists>st s'. fh_erase_sector fl cur t = (st, s') \<and>
      (st = BOOT_OK \<and> live s' \<and> mem s' = patch (unat cur) (replicate sec (fh_erased_value fl)) (mem s) \<or>
       st \<noteq> BOOT_OK \<and> dead s' \<and> touches (unat cur) sec (mem s) (mem s'))"
    if "live t" "mem t = mem s" for t
    using erase_fate [of t cur] that assms by fastforce
  from this [of "wdt_suspend p s"] this [of "wdt_kick p s"] show ?thesis
    using assms by (auto simp: erase_one_sector_def Let_def wdt_fates; metis)
qed

lemma erase_one_dead:
  assumes "dead s"
  shows "\<exists>st s'. erase_one_sector ms p fl cur sz s = (st, s') \<and> st \<noteq> BOOT_OK \<and> mem s' = mem s \<and> dead s'"
  using dead_erase [of "wdt_suspend p s" cur] dead_erase [of "wdt_kick p s" cur] assms
  by (auto simp: erase_one_sector_def Let_def wdt_fates)

lemma erase_loop_fate:
  assumes "live s" "unat cur mod sec = 0" "unat cur + m * sec \<le> total" "m \<le> loops"
    "unat end_addr \<le> unat cur + m * sec" "unat cur < unat end_addr + sec"
    "m = 0 \<or> unat cur + (m - 1) * sec < unat end_addr" "arena \<noteq> []"
  shows "\<exists>st er s'. erase_tracked_loop loops ms p fl cur end_addr erases arena s =
      Some (st, er, if m = 0 then arena else zeroed (length arena), s') \<and>
      (st = BOOT_OK \<and> live s' \<and> mem s' = patch (unat cur) (replicate (m * sec) (fh_erased_value fl)) (mem s) \<or>
       st \<noteq> BOOT_OK \<and> dead s' \<and> touches (unat cur) (m * sec) (mem s) (mem s'))"
  using assms
proof (induction m arbitrary: cur loops erases arena s)
  case 0
  then show ?case by (subst erase_tracked_loop.simps) (simp add: word_less_nat_alt)
next
  case (Suc m)
  let ?ev = "fh_erased_value fl"
  let ?done = "\<lambda>st s'. st = BOOT_OK \<and> live s' \<and> mem s' = patch (unat cur) (replicate (Suc m * sec) ?ev) (mem s) \<or>
       st \<noteq> BOOT_OK \<and> dead s' \<and> touches (unat cur) (Suc m * sec) (mem s) (mem s')"
  obtain l where l: "loops = Suc l" "m \<le> l" using Suc.prems(4) by (cases loops) auto
  have lt: "cur < end_addr" "unat cur < total"
    using Suc.prems sec_pos by (auto simp: word_less_nat_alt)
  have ml: "length (mem s) = total" using mem_len Suc.prems by simp
  have nx: "unat (cur + of_nat sec) = unat cur + sec"
    using Suc.prems(3) total_addr sec_pos by (intro flash_addr) (simp add: algebra_simps)
  have al: "(unat cur + sec) mod sec = 0" using Suc.prems(2) by simp
  have sz: "fh_get_sector_size fl cur s = (BOOT_OK, sec)" using sector_size_law Suc.prems(1) lt by simp
  have len: "0 < length arena" using Suc.prems(8) by simp
  have fit: "unat cur + sec \<le> total" using Suc.prems(3) by simp
  obtain nd s1 where sc: "erase_scan_loop p fl cur sec (length arena) 0 False arena s =
      Some (nd, zeroed (length arena), s1)" "mem s1 = mem s"
      "live s1 \<and> nd = (slice_of (unat cur) sec (mem s) \<noteq> replicate sec ?ev) \<or> dead s1 \<and> nd"
    using erase_scan_fate [OF Suc.prems(1) fit len, of 0 False arena] by auto
  have cont: "\<exists>st er s'. erase_tracked_loop l ms p fl (cur + of_nat sec) end_addr e (zeroed (length arena)) t =
      Some (st, er, zeroed (length arena), s') \<and> ?done st s'"
    if t: "live t" "mem t = patch (unat cur) (replicate sec ?ev) (mem s)" for t e
  proof -
    have "\<exists>st er s'. erase_tracked_loop l ms p fl (cur + of_nat sec) end_addr e (zeroed (length arena)) t =
      Some (st, er, if m = 0 then zeroed (length arena) else zeroed (length (zeroed (length arena))), s') \<and>
      (st = BOOT_OK \<and> live s' \<and> mem s' = patch (unat (cur + of_nat sec)) (replicate (m * sec) ?ev) (mem t) \<or>
       st \<noteq> BOOT_OK \<and> dead s' \<and> touches (unat (cur + of_nat sec)) (m * sec) (mem t) (mem s'))"
    proof (rule Suc.IH [OF t(1)])
      show "zeroed (length arena) \<noteq> []" using Suc.prems(8) by (simp add: zeroed_def)
      show "unat (cur + of_nat sec) < unat end_addr + sec" using nx lt by (simp add: word_less_nat_alt)
      show "m = 0 \<or> unat (cur + of_nat sec) + (m - 1) * sec < unat end_addr"
        using Suc.prems(7) nx by (cases m) auto
    qed (use Suc.prems nx al l in \<open>simp_all add: algebra_simps\<close>)
    moreover have "patch (unat (cur + of_nat sec)) (replicate (m * sec) ?ev) (mem t) =
        patch (unat cur) (replicate (Suc m * sec) ?ev) (mem s)"
      using patch_patch_next [of "unat cur" "replicate sec ?ev" "replicate (m * sec) ?ev" "mem s"]
        Suc.prems(3) ml nx t(2) by (simp add: replicate_add [symmetric])
    moreover have "touches (unat cur) (Suc m * sec) (mem s) im"
      if "touches (unat (cur + of_nat sec)) (m * sec) (mem t) im" for im
    proof (rule touches_trans)
      show "touches (unat cur) (Suc m * sec) (mem s) (mem t)"
        unfolding t(2) using fit ml
        by (intro touches_mono [OF touches_patch [of "unat cur" "replicate sec ?ev" "mem s"]]) auto
      show "touches (unat cur) (Suc m * sec) (mem t) im"
        using that by (rule touches_mono) (simp_all add: nx)
    qed
    ultimately show ?thesis by (cases "m = 0") fastforce+
  qed
  have die: "touches (unat cur) (Suc m * sec) (mem s) im" if "touches (unat cur) sec (mem s) im" for im
    using that by (rule touches_mono) simp_all
  note step = erase_tracked_loop.simps [of loops ms p fl cur end_addr erases arena s]
  consider (clean) "live s1" "\<not> nd" "slice_of (unat cur) sec (mem s) = replicate sec ?ev"
    | (dirty) "live s1" nd | (gone) "dead s1" nd using sc(3) by blast
  then show ?case
  proof cases
    case clean
    then have "mem s1 = patch (unat cur) (replicate sec ?ev) (mem s)"
      using patch_slice_id [of "unat cur" sec "mem s"] fit ml sc(2) by simp
    from cont [OF clean(1) this, of erases] show ?thesis
      unfolding step using clean lt sec_pos by (simp add: l sz sc(1))
  next
    case dirty
    obtain st s2 where er: "erase_one_sector ms p fl cur sec s1 = (st, s2)"
        "st = BOOT_OK \<and> live s2 \<and> mem s2 = patch (unat cur) (replicate sec ?ev) (mem s) \<or>
         st \<noteq> BOOT_OK \<and> dead s2 \<and> touches (unat cur) sec (mem s) (mem s2)"
      using erase_one_fate [OF dirty(1) lt(2) Suc.prems(2), of ms sec] unfolding sc(2) by blast
    from er(2) show ?thesis
    proof
      assume ok: "st = BOOT_OK \<and> live s2 \<and> mem s2 = patch (unat cur) (replicate sec ?ev) (mem s)"
      then show ?thesis
        unfolding step using cont [of s2 "erases + 1"] dirty lt sec_pos by (simp add: l sz sc(1) er(1))
    next
      assume "st \<noteq> BOOT_OK \<and> dead s2 \<and> touches (unat cur) sec (mem s) (mem s2)"
      then show ?thesis
        unfolding step using dirty lt sec_pos die by (simp add: l sz sc(1) er(1))
    qed
  next
    case gone
    obtain st s2 where er: "erase_one_sector ms p fl cur sec s1 = (st, s2)" "st \<noteq> BOOT_OK"
        "mem s2 = mem s1" "dead s2" using erase_one_dead [OF gone(1)] by blast
    then show ?thesis
      unfolding step using gone lt sec_pos sc(2) by (simp add: l sz sc(1))
  qed
qed

text \<open>The sectors an erase of \<open>len\<close> bytes touches.\<close>

lemmas sectors_cover = nat_ceil_cover [OF sec_pos]

lemma erase_tracked_fate:
  assumes "live s" "unat addr mod sec = 0" "unat addr + (len + sec - Suc 0) div sec * sec \<le> total"
    "(len + sec - Suc 0) div sec < MAX_ERASE_LOOPS" "arena \<noteq> []" "0 < len"
  shows "\<exists>st er s'. boot_swap_erase_tracked ms p addr len arena s = Some (st, er, zeroed (length arena), s') \<and>
      (st = BOOT_OK \<and> live s' \<and> mem s' = patch (unat addr)
         (replicate ((len + sec - Suc 0) div sec * sec) (fh_erased_value fl)) (mem s) \<or>
       st \<noteq> BOOT_OK \<and> dead s' \<and> touches (unat addr) ((len + sec - Suc 0) div sec * sec) (mem s) (mem s'))"
proof -
  let ?m = "(len + sec - Suc 0) div sec"
  have fit: "unat addr + len < 4294967296" using sectors_cover(1) [of len] assms(3) total_addr by linarith
  have e: "unat (addr + of_nat len) = unat addr + len" by (rule flash_addr [OF fit])
  have g: "\<not> unat (UINT32_MAX - addr) < len"
    using fit unat_u32_le_max [of addr] by (simp add: unat_sub_no_wrap)
  have m: "?m \<noteq> 0" using assms(6) sectors_cover(1) [of len] by (cases ?m) auto
  have "\<exists>st er s'. erase_tracked_loop (MAX_ERASE_LOOPS - 1) ms p fl addr (addr + of_nat len) 0 arena s =
      Some (st, er, if ?m = 0 then arena else zeroed (length arena), s') \<and>
      (st = BOOT_OK \<and> live s' \<and> mem s' = patch (unat addr) (replicate (?m * sec) (fh_erased_value fl)) (mem s) \<or>
       st \<noteq> BOOT_OK \<and> dead s' \<and> touches (unat addr) (?m * sec) (mem s) (mem s'))"
  proof (rule erase_loop_fate [OF assms(1,2,3)])
    show "?m \<le> MAX_ERASE_LOOPS - 1" using assms(4) by simp
    show "unat (addr + of_nat len) \<le> unat addr + ?m * sec" using e sectors_cover(1) [of len] by simp
    show "unat addr < unat (addr + of_nat len) + sec" using e sec_pos by simp
    show "?m = 0 \<or> unat addr + (?m - 1) * sec < unat (addr + of_nat len)"
      using e sectors_cover(2) [OF assms(6)] by simp
  qed (rule assms(5))
  then show ?thesis using m g assms(6) flash_ptr by (simp add: boot_swap_erase_tracked_def)
qed

lemma erase_safe_fate:
  assumes "live s" "unat addr mod sec = 0" "unat addr + (len + sec - Suc 0) div sec * sec \<le> total"
    "(len + sec - Suc 0) div sec < MAX_ERASE_LOOPS" "arena \<noteq> []" "0 < len"
  shows "\<exists>st s'. boot_swap_erase_safe ms p addr len arena s = Some (st, zeroed (length arena), s') \<and>
      (st = BOOT_OK \<and> live s' \<and> mem s' = patch (unat addr)
         (replicate ((len + sec - Suc 0) div sec * sec) (fh_erased_value fl)) (mem s) \<or>
       st \<noteq> BOOT_OK \<and> dead s' \<and> touches (unat addr) ((len + sec - Suc 0) div sec * sec) (mem s) (mem s'))"
  using erase_tracked_fate [OF assms, of ms] by (auto simp: boot_swap_erase_safe_def)

lemma erase_safe_dead:
  assumes "dead s" "0 < len" "arena \<noteq> []"
  shows "\<exists>st a s'. boot_swap_erase_safe ms p addr len arena s = Some (st, a, s') \<and> length a = length arena \<and>
      st \<noteq> BOOT_OK \<and> mem s' = mem s \<and> dead s'"
proof (cases "unat (UINT32_MAX - addr) < len")
  case True
  then show ?thesis using assms flash_ptr
    by (simp add: boot_swap_erase_safe_def boot_swap_erase_tracked_def)
next
  case False
  have lt: "addr < addr + of_nat len"
  proof -
    have "unat addr + len < 4294967296"
      using False unat_u32_le_max [of addr] by (simp add: unat_sub_no_wrap)
    then show ?thesis using assms(2) by (simp add: word_less_nat_alt flash_addr)
  qed
  obtain n where n: "MAX_ERASE_LOOPS - 1 = Suc n" by (simp add: MAX_ERASE_LOOPS_def)
  obtain st sz where sz: "fh_get_sector_size fl addr s = (st, sz)" by force
  show ?thesis
  proof (cases "st \<noteq> BOOT_OK \<or> sz = 0")
    case True
    then show ?thesis using assms flash_ptr False lt n sz
      by (simp add: boot_swap_erase_safe_def boot_swap_erase_tracked_def erase_tracked_loop.simps)
  next
    case ok: False
    have len: "0 < length arena" using assms(3) by simp
    obtain s1 where sc: "erase_scan_loop p fl addr sz (length arena) 0 False arena s =
        Some (True, zeroed (length arena), s1)" "mem s1 = mem s" "dead s1"
      using erase_scan_dead [OF assms(1) len, of 0 sz addr False arena] ok by auto
    obtain st2 s2 where "erase_one_sector ms p fl addr sz s1 = (st2, s2)" "st2 \<noteq> BOOT_OK"
        "mem s2 = mem s1" "dead s2" using erase_one_dead [OF sc(3)] by blast
    then show ?thesis using assms flash_ptr False lt n sz ok sc
      by (simp add: boot_swap_erase_safe_def boot_swap_erase_tracked_def erase_tracked_loop.simps)
  qed
qed

end

section \<open>Streams on a device that does not die\<close>

context flash_contract
begin

lemma crc_stream_ok:
  assumes "live s" "unat addr + len \<le> total" "arena \<noteq> []"
  shows "\<exists>s'. boot_crc32_flash_stream p fl addr len arena s =
      Some (BOOT_OK, Some (compute_boot_crc32 (slice_of (unat addr) len (mem s))),
        zeroed (length arena), s') \<and> mem s' = mem s \<and> live s'"
  using mortal.crc_stream_fate [OF assms] by auto

lemma stream_copy_ok:
  assumes "live s" "unat src + len \<le> total" "unat dest + len \<le> total" "arena \<noteq> []"
    and "unat src + len \<le> unat dest \<or> unat dest + len \<le> unat src"
    and "unat dest mod walign = 0" "len mod walign = 0" "length arena mod walign = 0"
    and "programmable (slice_of (unat dest) len (mem s)) (slice_of (unat src) len (mem s))"
  shows "\<exists>s'. stream_copy p fl src dest len arena s = Some (BOOT_OK, zeroed (length arena), s') \<and>
      mem s' = patch (unat dest) (slice_of (unat src) len (mem s)) (mem s) \<and> live s'"
  using mortal.stream_copy_fate [OF assms] by auto

lemma erase_tracked_ok:
  assumes "live s" "unat addr mod sec = 0" "unat addr + (len + sec - Suc 0) div sec * sec \<le> total"
    "(len + sec - Suc 0) div sec < MAX_ERASE_LOOPS" "arena \<noteq> []" "0 < len"
  shows "\<exists>er s'. boot_swap_erase_tracked ms p addr len arena s =
      Some (BOOT_OK, er, zeroed (length arena), s') \<and> live s' \<and>
      mem s' = patch (unat addr)
        (replicate ((len + sec - Suc 0) div sec * sec) (fh_erased_value fl)) (mem s)"
  using mortal.erase_tracked_fate [OF assms, of ms] by auto

lemma erase_safe_ok:
  assumes "live s" "unat addr mod sec = 0" "unat addr + (len + sec - Suc 0) div sec * sec \<le> total"
    "(len + sec - Suc 0) div sec < MAX_ERASE_LOOPS" "arena \<noteq> []" "0 < len"
  shows "\<exists>s'. boot_swap_erase_safe ms p addr len arena s = Some (BOOT_OK, zeroed (length arena), s') \<and>
      live s' \<and> mem s' = patch (unat addr)
        (replicate ((len + sec - Suc 0) div sec * sec) (fh_erased_value fl)) (mem s)"
  using mortal.erase_safe_fate [OF assms, of ms] by auto

lemma erase_then_copy_ok:
  assumes "live s" and "fh_erased_value fl = 0xFF"
    and "unat dest mod sec = 0" and "unat dest + k * sec \<le> total" and "0 < k" and "k < MAX_ERASE_LOOPS"
    and "unat src + k * sec \<le> unat dest \<or> unat dest + k * sec \<le> unat src \<and> unat src + k * sec \<le> total"
    and "arena \<noteq> []" and "length arena mod walign = 0"
  shows "\<exists>s1 s2. boot_swap_erase_safe ms p dest (k * sec) arena s = Some (BOOT_OK, zeroed (length arena), s1) \<and>
      stream_copy p fl src dest (k * sec) (zeroed (length arena)) s1 =
        Some (BOOT_OK, zeroed (length arena), s2) \<and> live s2 \<and>
      mem s2 = patch (unat dest) (slice_of (unat src) (k * sec) (mem s)) (mem s)"
proof -
  have c: "(k * sec + sec - Suc 0) div sec = k" using sec_pos by (simp add: nat_ceil_div)
  have ml: "length (mem s) = total" using mem_len assms(1) by simp
  have src: "unat src + k * sec \<le> total" using assms(4,7) by auto
  obtain s1 where e: "boot_swap_erase_safe ms p dest (k * sec) arena s = Some (BOOT_OK, zeroed (length arena), s1)"
      "live s1" "mem s1 = patch (unat dest) (replicate (k * sec) 0xFF) (mem s)"
    using erase_safe_ok [OF assms(1,3), of "k * sec" arena ms] assms(2,4-6,8) c sec_pos by auto
  have sl: "slice_of (unat src) (k * sec) (mem s1) = slice_of (unat src) (k * sec) (mem s)"
    unfolding e(3) using ml src assms(4,7) by (intro slice_of_patch_other) auto
  have dl: "slice_of (unat dest) (k * sec) (mem s1) = replicate (k * sec) 0xFF"
    unfolding e(3) using slice_of_patch_same [of "unat dest" "replicate (k * sec) 0xFF" "mem s"] ml assms(4) by simp
  have w: "unat dest mod walign = 0" "k * sec mod walign = 0"
    using sec_walign assms(3) by (metis dvd_trans mod_0_imp_dvd dvd_imp_mod_0) (simp add: sec_walign mod_mult_right_eq [symmetric])
  have "\<exists>s2. stream_copy p fl src dest (k * sec) (zeroed (length arena)) s1 =
        Some (BOOT_OK, zeroed (length (zeroed (length arena))), s2) \<and>
      mem s2 = patch (unat dest) (slice_of (unat src) (k * sec) (mem s1)) (mem s1) \<and> live s2"
    using stream_copy_ok [OF e(2) src assms(4), of "zeroed (length arena)"] assms(7-9) w ml src
    by (auto simp: sl dl programmable_erased zeroed_def)
  moreover have "patch (unat dest) (slice_of (unat src) (k * sec) (mem s)) (mem s1) =
      patch (unat dest) (slice_of (unat src) (k * sec) (mem s)) (mem s)"
    unfolding e(3) using ml assms(4) src by (simp add: patch_patch_same)
  ultimately show ?thesis using e(1) sl by auto
qed

end

section \<open>No residue in the arena\<close>

lemma crc_stream_loop_zeroes:
  assumes "crc_stream_loop p fl addr len n offset crc arena s = Some r"
  shows "fst (snd (snd r)) = zeroed n \<and> (fst (snd r) = None \<longleftrightarrow> fst r \<noteq> BOOT_OK)"
  by (rule crc_stream_loop.raw_induct [OF _ assms, where P = "\<lambda>p fl addr len n offset crc arena s r.
      fst (snd (snd r)) = zeroed n \<and> (fst (snd r) = None \<longleftrightarrow> fst r \<noteq> BOOT_OK)"])
    (auto simp: Let_def split: if_splits prod.splits)

lemma stream_copy_loop_zeroes:
  assumes "stream_copy_loop p fl src dest len n offset arena s = Some r"
  shows "fst (snd r) = zeroed n"
  by (rule stream_copy_loop.raw_induct [OF _ assms, where P = "\<lambda>p fl src dest len n offset arena s r.
      fst (snd r) = zeroed n"])
    (auto simp: Let_def split: if_splits prod.splits)

section \<open>Properties\<close>

text \<open>
  C26. On any flash that honours the HAL contract the streaming CRC returns, with whatever non-empty
  arena it is given, and its result is the CRC of the bytes in flash; flash is unchanged and no
  byte of it stays in the arena.
\<close>

theorem flash_crc_correct:
  assumes "flash_contract p fl mem live tot sec wa" and "live s" and "unat addr + len \<le> tot"
    and "arena \<noteq> []"
  shows "\<exists>s'. boot_crc32_flash_stream p fl addr len arena s =
      Some (BOOT_OK, Some (compute_boot_crc32 (slice_of (unat addr) len (mem s))),
        zeroed (length arena), s') \<and> mem s' = mem s \<and> live s'"
  by (rule flash_contract.crc_stream_ok [OF assms])

lemma flash_crc_correct_witness:
  "\<exists>s'. boot_crc32_flash_stream small_platform small_port 8 20 [1, 2, 3] (small_device (replicate 64 7)) =
     Some (BOOT_OK, Some (compute_boot_crc32 (replicate 20 7)), zeroed 3, s')"
  using flash_crc_correct [OF small.flash_contract_axioms small_device_live [of "replicate 64 7"],
      of 8 20 "[1, 2, 3]"]
  by (auto simp: slice_of_def small_device_def numeral_3_eq_3)

text \<open>
  C25. Erasing a destination and copying a source over it leaves exactly the source's bytes there,
  in an arena of any size that is a multiple of the write alignment, and changes nothing outside
  the erased sectors.
\<close>

theorem erase_then_copy:
  assumes "flash_contract p fl mem live tot sec wa" and "live s"
    and "fh_erased_value fl = 0xFF"
    and "unat dest mod sec = 0" and "unat dest + k * sec \<le> tot" and "0 < k" and "k < MAX_ERASE_LOOPS"
    and "unat src + k * sec \<le> unat dest \<or> unat dest + k * sec \<le> unat src \<and> unat src + k * sec \<le> tot"
    and "arena \<noteq> []" and "length arena mod wa = 0"
  shows "\<exists>s1 s2. boot_swap_erase_safe ms p dest (k * sec) arena s = Some (BOOT_OK, zeroed (length arena), s1) \<and>
      stream_copy p fl src dest (k * sec) (zeroed (length arena)) s1 =
        Some (BOOT_OK, zeroed (length arena), s2) \<and> live s2 \<and>
      mem s2 = patch (unat dest) (slice_of (unat src) (k * sec) (mem s)) (mem s)"
  using flash_contract.erase_then_copy_ok [OF assms] by blast

lemma erase_then_copy_witness:
  "\<exists>s1 s2. boot_swap_erase_safe 4096 small_platform 32 32 [0, 0, 0] (small_device (replicate 32 7 @ replicate 32 9)) =
       Some (BOOT_OK, zeroed 3, s1) \<and>
     stream_copy small_platform small_port 0 32 32 (zeroed 3) s1 = Some (BOOT_OK, zeroed 3, s2) \<and>
     fm_file s2 = replicate 64 7"
proof -
  have e: "fh_erased_value small_port = 0xFF" by (simp add: small_port_def)
  have p: "patch 32 (slice_of 0 32 (fm_file (small_device (replicate 32 7 @ replicate 32 9))))
      (fm_file (small_device (replicate 32 7 @ replicate 32 9))) = replicate 64 (7 :: u8)"
    by (simp add: patch_def slice_of_def small_device_def flip: replicate_add)
  show ?thesis
    using erase_then_copy [OF small.flash_contract_axioms
        small_device_live [of "replicate 32 7 @ replicate 32 9"] e,
        where dest = 32 and src = 0 and k = 2 and arena = "[0, 0, 0]" and ms = 4096] p
    by (auto simp: MAX_ERASE_LOOPS_def numeral_3_eq_3)
qed

text \<open>
  Whatever the drivers do, the checksum and copy streams leave the arena zeroized when they
  return, and the checksum is handed out on success only.
\<close>

theorem streams_leave_no_residue:
  "(case boot_crc32_flash_stream p fl addr len arena s of
      None \<Rightarrow> True
    | Some (st, c, arena', s') \<Rightarrow> arena' = zeroed (length arena) \<and> (c = None \<longleftrightarrow> st \<noteq> BOOT_OK)) \<and>
   (case stream_copy p fl src dest len arena s of
      None \<Rightarrow> True
    | Some (st, arena', s') \<Rightarrow> arena' = zeroed (length arena))"
  using crc_stream_loop_zeroes [of p fl addr len "length arena" 0 TOOB_CRC32_INIT arena s]
    stream_copy_loop_zeroes [of p fl src dest len "length arena" 0 arena s]
  by (auto simp: boot_crc32_flash_stream_def stream_copy_def split: option.splits)

end
