(* ===== verification/Boot_Panic.thy ===== *)
theory Boot_Panic
  imports Boot_Crc32 Boot_Hal
begin

text \<open>
  Terminal halts (\<open>core/include/boot_panic.h\<close>, \<open>boot_terminal_halt\<close> in \<open>core/boot_panic.c\<close>).
  A call of the \<open>_Noreturn\<close> function ends the run: an operation that may make it gives an
  \<open>outcome\<close>, either a return value or the halt with its reason, its site and the device state at
  the call. \<open>boot_terminal_halt\<close> itself is modelled up to the point where the CPU freezes: the
  forensic record and where it is stored. The serial rescue protocol of \<open>boot_panic\<close> is not
  modelled.
\<close>

datatype boot_site_id =
    SITE_DELAY_WARP | SITE_DELAY_GLITCH | SITE_ROLLBACK_CONFUSION | SITE_PROVISIONING_GLITCH
  | SITE_CLOUD_CMD_GLITCH | SITE_MAIN_CFI_MISMATCH | SITE_MAIN_WIPE_FAIL | SITE_STATE_CFI_MISMATCH
  | SITE_STATE_LOCK_FAIL | SITE_ENERGY_CFI_MISMATCH | SITE_ENERGY_BROWNOUT | SITE_VERIFY_SHIELD_FAIL
  | SITE_SWAP_SHIELD_FAIL | SITE_JOURNAL_SHIELD_FAIL | SITE_DELTA_SHIELD_FAIL | SITE_COBS_SHIELD_FAIL
  | SITE_MULTIIMAGE_SHIELD_FAIL | SITE_CONFIRM_SHIELD_FAIL | SITE_TMR_FUTURE | SITE_RSTORE_SHIELD_FAIL
  | SITE_BRINGUP_CLOCK | SITE_BRINGUP_FLASH | SITE_BRINGUP_WDT | SITE_BRINGUP_CRYPTO
  | SITE_BRINGUP_CONFIRM

fun site_code :: "boot_site_id \<Rightarrow> u16" where
  "site_code SITE_DELAY_WARP = 1"
| "site_code SITE_DELAY_GLITCH = 2"
| "site_code SITE_ROLLBACK_CONFUSION = 3"
| "site_code SITE_PROVISIONING_GLITCH = 4"
| "site_code SITE_CLOUD_CMD_GLITCH = 5"
| "site_code SITE_MAIN_CFI_MISMATCH = 6"
| "site_code SITE_MAIN_WIPE_FAIL = 7"
| "site_code SITE_STATE_CFI_MISMATCH = 8"
| "site_code SITE_STATE_LOCK_FAIL = 9"
| "site_code SITE_ENERGY_CFI_MISMATCH = 10"
| "site_code SITE_ENERGY_BROWNOUT = 11"
| "site_code SITE_VERIFY_SHIELD_FAIL = 12"
| "site_code SITE_SWAP_SHIELD_FAIL = 13"
| "site_code SITE_JOURNAL_SHIELD_FAIL = 14"
| "site_code SITE_DELTA_SHIELD_FAIL = 15"
| "site_code SITE_COBS_SHIELD_FAIL = 16"
| "site_code SITE_MULTIIMAGE_SHIELD_FAIL = 17"
| "site_code SITE_CONFIRM_SHIELD_FAIL = 18"
| "site_code SITE_TMR_FUTURE = 19"
| "site_code SITE_RSTORE_SHIELD_FAIL = 20"
| "site_code SITE_BRINGUP_CLOCK = 21"
| "site_code SITE_BRINGUP_FLASH = 22"
| "site_code SITE_BRINGUP_WDT = 23"
| "site_code SITE_BRINGUP_CRYPTO = 24"
| "site_code SITE_BRINGUP_CONFIRM = 25"

datatype ('r, 's) outcome =
    Returns 'r 's
  | Halts boot_status boot_site_id 's

text \<open>
  Sequencing of calls that may halt (\<open>Halts\<close>) or never come back (\<open>None\<close>).
\<close>

definition bind_out ::
  "('r, 's) outcome option \<Rightarrow> ('r \<Rightarrow> 's \<Rightarrow> ('q, 's) outcome option) \<Rightarrow> ('q, 's) outcome option" where
  "bind_out m k = (case m of None \<Rightarrow> None
     | Some (Returns r s) \<Rightarrow> k r s
     | Some (Halts st site s) \<Rightarrow> Some (Halts st site s))"

lemma bind_out_simps [simp]:
  "bind_out None k = None"
  "bind_out (Some (Returns r s)) k = k r s"
  "bind_out (Some (Halts st site s)) k = Some (Halts st site s)"
  by (simp_all add: bind_out_def)

lemma bind_out_assoc: "bind_out (bind_out m k) l = bind_out m (\<lambda>r s. bind_out (k r s) l)"
  by (simp add: bind_out_def split: option.splits outcome.splits)

section \<open>The forensic record\<close>

definition FORENSIC_MAGIC :: u32 where "FORENSIC_MAGIC = 0x464F524E"

definition forensic_record :: "boot_status \<Rightarrow> boot_site_id \<Rightarrow> u32 \<Rightarrow> u8 list" where
  "forensic_record reason site counter =
     (let body = to_le32 FORENSIC_MAGIC @ to_le32 (status_code reason) @
                 to_le32 (ucast (site_code site)) @ to_le32 counter
      in body @ to_le32 (compute_boot_crc32 body))"

fun write_rtc_slots ::
  "(u8 \<Rightarrow> u32 \<Rightarrow> 's \<Rightarrow> boot_status \<times> 's) \<Rightarrow> u8 list \<Rightarrow> nat \<Rightarrow> nat \<Rightarrow> boot_status \<Rightarrow> 's \<Rightarrow> boot_status \<times> 's" where
  "write_rtc_slots wr rec slot 0 acc s = (acc, s)"
| "write_rtc_slots wr rec slot (Suc n) acc s =
     (case wr (of_nat slot) (rd32 (4 * (slot - 1)) rec) s of (st, s) \<Rightarrow>
        write_rtc_slots wr rec (slot + 1) n (if st \<noteq> BOOT_OK then st else acc) s)"

text \<open>
  \<open>forensic_addr\<close> is \<open>CHIP_FORENSIC_SLOT_ABS_ADDR\<close>. The state returned is the one the CPU is
  frozen in, up to the de-initialisation of the drivers.
\<close>

definition boot_terminal_halt ::
  "u32 \<Rightarrow> 's platform \<Rightarrow> boot_status \<Rightarrow> boot_site_id \<Rightarrow> 's \<Rightarrow> 's" where
  "boot_terminal_halt forensic_addr p reason site s =
     (let (counter, s) =
            (case pf_crypto p of
               None \<Rightarrow> (0, s)
             | Some c \<Rightarrow> (case ch_read_monotonic_counter c of
                            None \<Rightarrow> (0, s)
                          | Some rd \<Rightarrow> (case rd s of (st, v, s) \<Rightarrow> (v, s))));
          rec = forensic_record reason site counter;
          (written, s) =
            (case pf_soc p of
               None \<Rightarrow> (False, s)
             | Some soc \<Rightarrow> (case sh_write_rtc_backup soc of
                              None \<Rightarrow> (False, s)
                            | Some wr \<Rightarrow> (case write_rtc_slots wr rec 1 5 BOOT_OK s of
                                            (st, s) \<Rightarrow> (st = BOOT_OK, s))))
      in case pf_flash p of
           None \<Rightarrow> s
         | Some fl \<Rightarrow>
             if written then s
             else case fh_erase_sector fl forensic_addr s of (st, s) \<Rightarrow>
                    if st = BOOT_OK then snd (fh_write fl forensic_addr rec s) else s)"

end
