(* ===== verification/Boot_Delay.thy ===== *)
theory Boot_Delay
  imports Boot_Panic
begin

text \<open>
  The glitch-hardened delay (\<open>core/utils/boot_delay.c\<close>). Two accumulators run: the clock ticks
  seen, each difference above a second counted as zero, and the milliseconds asked of
  \<open>delay_ms\<close>, kept a second time in complemented form. The loop is a \<open>while (1)\<close>, so its model is
  partial; \<open>delay_loop_total\<close> shows that it ends on every device.
\<close>

section \<open>The delay loop\<close>

definition BOOT_DELAY_TOLERANCE_MULTIPLIER :: u32 where "BOOT_DELAY_TOLERANCE_MULTIPLIER = 8"

definition delay_safe_cap :: u32 where
  "delay_safe_cap = (UINT32_MAX - 1001) div BOOT_DELAY_TOLERANCE_MULTIPLIER"

definition delay_sw_limit :: "u32 \<Rightarrow> u32" where
  "delay_sw_limit target_ms = target_ms * BOOT_DELAY_TOLERANCE_MULTIPLIER + 1001"

definition delay_step :: "u32 \<Rightarrow> u32 \<Rightarrow> u32" where
  "delay_step target_ms sw_accum =
     (let remaining = (if target_ms > sw_accum then target_ms - sw_accum else 1);
          step = (if remaining > 50 then 50 else remaining)
      in if step = 0 then 1 else step)"

partial_function (option) delay_loop ::
  "'s platform \<Rightarrow> ('s \<Rightarrow> u32 \<times> 's) \<Rightarrow> (u32 \<Rightarrow> 's \<Rightarrow> 's) \<Rightarrow> u32 \<Rightarrow> u32 \<Rightarrow> u32 \<Rightarrow> u32 \<Rightarrow> u32 \<Rightarrow> 's \<Rightarrow>
     (boot_status, 's) outcome option" where
  "delay_loop p get_tick_ms delay_ms target_ms last_time elapsed_hw sw_accum sw_accum_inv s =
     (case get_tick_ms (wdt_kick p s) of (current_time, s) \<Rightarrow>
        let iteration_delta = current_time - last_time;
            iteration_delta = (if iteration_delta > 1000 then 0 else iteration_delta);
            elapsed_hw = elapsed_hw + iteration_delta;
            hw_ok = (elapsed_hw \<ge> target_ms);
            sw_ok = (sw_accum \<ge> target_ms)
        in if secure_require (hw_ok \<and> sw_ok) then
             if \<not> secure_require (elapsed_hw \<ge> target_ms \<and> sw_accum \<ge> target_ms)
             then Some (Halts BOOT_ERR_VERIFY SITE_DELAY_GLITCH s)
             else Some (Returns BOOT_OK s)
           else if \<not> secure_require (sw_accum \<le> delay_sw_limit target_ms)
           then Some (Halts BOOT_ERR_VERIFY SITE_DELAY_WARP s)
           else
             let step = delay_step target_ms sw_accum;
                 s = delay_ms step s;
                 sw_accum = sw_accum + step;
                 sw_accum_inv = sw_accum_inv - step
             in if \<not> secure_require (sw_accum = NOT sw_accum_inv)
                then Some (Halts BOOT_ERR_VERIFY SITE_DELAY_GLITCH s)
                else delay_loop p get_tick_ms delay_ms target_ms current_time elapsed_hw
                       sw_accum sw_accum_inv s)"

definition boot_delay_with_wdt ::
  "'s platform \<Rightarrow> u32 \<Rightarrow> 's \<Rightarrow> (boot_status, 's) outcome option" where
  "boot_delay_with_wdt p ms s =
     (case pf_clock p of
        None \<Rightarrow> Some (Returns BOOT_ERR_INVALID_ARG s)
      | Some clk \<Rightarrow>
          (case (kh_get_tick_ms clk, kh_delay_ms clk) of
             (Some get_tick_ms, Some delay_ms) \<Rightarrow>
               if ms = 0 then Some (Returns BOOT_OK s)
               else
                 let target_ms = (if ms > delay_safe_cap then delay_safe_cap else ms)
                 in case get_tick_ms s of (last_time, s) \<Rightarrow>
                      delay_loop p get_tick_ms delay_ms target_ms last_time 0 0 (NOT 0) s
           | _ \<Rightarrow> Some (Returns BOOT_ERR_INVALID_ARG s)))"

section \<open>Bounds\<close>

lemma delay_cap_value: "unat delay_safe_cap = 536870786"
  by (simp add: delay_safe_cap_def BOOT_DELAY_TOLERANCE_MULTIPLIER_def)

lemma delay_limit_unat:
  "unat t \<le> 536870786 \<Longrightarrow> unat (delay_sw_limit t) = unat t * 8 + 1001"
  by (simp add: delay_sw_limit_def BOOT_DELAY_TOLERANCE_MULTIPLIER_def unat_word_ariths)

lemma delay_step_unat:
  "unat (delay_step t a) = (if unat a < unat t then min 50 (unat t - unat a) else 1)"
  by (auto simp: delay_step_def Let_def word_less_nat_alt unat_sub_no_wrap word_unat_eq_iff min_def)

lemma delay_step_add:
  assumes "sw \<le> delay_sw_limit t" "unat t \<le> 536870786"
  shows "unat (sw + delay_step t sw) = unat sw + unat (delay_step t sw)"
proof (rule unat_add_no_wrap)
  show "unat sw + unat (delay_step t sw) < 4294967296"
    using assms delay_limit_unat [OF assms(2)]
    unfolding delay_step_unat word_le_nat_alt by (auto simp: min_def)
qed

text \<open>The complemented accumulator never disagrees in a fault-free run.\<close>

lemma not_sub: "NOT (NOT a - b) = a + (b :: u32)"
  by (simp add: not_eq_complement)

lemma delay_loop_total:
  assumes "unat target \<le> 536870786" and "unat sw \<le> unat (delay_sw_limit target) + 1"
    and slept: "\<And>t s. slept (dly t s) = slept s + unat t" "\<And>s. slept (snd (get s)) = slept s"
      "\<And>s. slept (wdt_kick p s) = slept s"
  shows "\<exists>r. delay_loop p get dly target lst elapsed sw (NOT sw) s = Some r \<and>
    (case r of Returns st s' \<Rightarrow> st = BOOT_OK \<and> slept s + unat target \<le> slept s' + unat sw
     | Halts st site s' \<Rightarrow> st = BOOT_ERR_VERIFY \<and> site = SITE_DELAY_WARP)"
  using assms(1,2)
proof (induction "unat (delay_sw_limit target) + 1 - unat sw" arbitrary: lst elapsed sw s rule: less_induct)
  case less
  obtain cur s1 where g: "get (wdt_kick p s) = (cur, s1)" by fastforce
  then have s1: "slept s1 = slept s" using slept(2) [of "wdt_kick p s"] slept(3) [of s] by simp
  show ?case
  proof (cases "sw \<le> delay_sw_limit target")
    case False
    then show ?thesis using g s1
      by (subst delay_loop.simps) (auto simp: Let_def word_le_nat_alt)
  next
    case True
    let ?step = "delay_step target sw"
    have lim: "unat (delay_sw_limit target) = unat target * 8 + 1001"
      using less.prems(1) by (rule delay_limit_unat)
    have sw': "unat (sw + ?step) = unat sw + unat ?step"
      by (rule delay_step_add [OF True less.prems(1)])
    have pos: "0 < unat ?step" "unat ?step \<le> max 1 (unat target - unat sw)"
      by (simp_all add: delay_step_unat)
    have ub: "unat (sw + ?step) \<le> unat (delay_sw_limit target) + 1"
      using True pos(2) sw' lim by (simp add: word_le_nat_alt)
    have dec: "unat (delay_sw_limit target) + 1 - unat (sw + ?step) <
        unat (delay_sw_limit target) + 1 - unat sw"
      using sw' pos(1) True by (simp add: word_le_nat_alt)
    have sl: "slept (dly ?step s1) = slept s + unat ?step" using s1 slept(1) by simp
    note IH = less.hyps [OF dec less.prems(1) ub]
    have nn: "NOT (sw + ?step) = NOT sw - ?step" by (simp add: not_eq_complement)
    show ?thesis
    proof (cases "elapsed + (if cur - lst > 1000 then 0 else cur - lst) \<ge> target \<and> sw \<ge> target")
      case fin: True
      then show ?thesis using g s1
        by (subst delay_loop.simps) (simp add: Let_def word_le_nat_alt)
    next
      case False
      obtain r where r: "delay_loop p get dly target cur
          (elapsed + (if cur - lst > 1000 then 0 else cur - lst)) (sw + ?step) (NOT sw - ?step)
          (dly ?step s1) = Some r"
        "case r of Returns st s' \<Rightarrow> st = BOOT_OK \<and>
           slept (dly ?step s1) + unat target \<le> slept s' + unat (sw + ?step)
         | Halts st site s' \<Rightarrow> st = BOOT_ERR_VERIFY \<and> site = SITE_DELAY_WARP"
        using IH [of cur "elapsed + (if cur - lst > 1000 then 0 else cur - lst)" "dly ?step s1"]
        unfolding nn by blast
      have e: "delay_loop p get dly target lst elapsed sw (NOT sw) s = Some r"
        using False True r(1) g by (subst delay_loop.simps) (auto simp: Let_def not_sub)
      show ?thesis unfolding e using r(2) sl sw' by (auto split: outcome.splits)
    qed
  qed
qed

section \<open>Honest and frozen clocks\<close>

text \<open>
  A clock that shows the time \<open>now\<close>, with \<open>delay_ms\<close> sleeping at least what it is asked and at
  most 900 ms more: the loop ends having asked for exactly the target.
\<close>

lemma delay_loop_honest:
  assumes "unat target \<le> 134217728"
    and get: "\<And>s. get s = (of_nat (now s), s)"
    and dly: "\<And>t s. now s + unat t \<le> now (dly t s) \<and> now (dly t s) \<le> now s + unat t + 900"
    and kick: "\<And>s. now (wdt_kick p s) = now s"
    and slept: "\<And>t s. slept (dly t s) = slept s + unat t" "\<And>s. slept (wdt_kick p s) = slept s"
    and "unat sw \<le> unat target" and "tb \<le> now s" and "now s \<le> tb + 950"
    and "unat sw \<le> unat elapsed + (now s - tb)"
    and "unat elapsed + (now s - tb) \<le> 19 * unat sw + (if sw = target then 950 else 0)"
  shows "\<exists>s'. delay_loop p get dly target (of_nat tb) elapsed sw (NOT sw) s = Some (Returns BOOT_OK s') \<and>
    slept s' + unat sw = slept s + unat target \<and> now s + unat target \<le> now s' + unat sw"
  using assms(7-)
proof (induction "unat target - unat sw" arbitrary: tb elapsed sw s rule: less_induct)
  case less
  let ?d = "now s - tb"
  let ?s1 = "wdt_kick p s"
  have nt: "now ?s1 = now s" by (rule kick)
  have dw: "of_nat (now s) - of_nat tb = (of_nat ?d :: u32)"
    using less.prems(2) by (simp add: of_nat_diff)
  have d: "unat (of_nat ?d :: u32) = ?d" "?d \<le> 950" using less.prems(3) by (simp_all add: unat_of_nat_u32)
  then have dl: "\<not> (of_nat ?d :: u32) > 1000" by (simp add: word_less_nat_alt)
  have tot: "unat elapsed + ?d < 4294967296"
    using less.prems(1,5) assms(1) by (auto split: if_splits)
  then have el: "unat (elapsed + of_nat ?d) = unat elapsed + ?d"
    using d(1) by (simp add: unat_add_no_wrap)
  have lim: "unat (delay_sw_limit target) = unat target * 8 + 1001"
    using assms(1) by (intro delay_limit_unat) simp
  show ?case
  proof (cases "sw = target")
    case True
    then have "target \<le> elapsed + of_nat ?d" using less.prems(4) el by (simp add: word_le_nat_alt)
    then show ?thesis using True dl
      by (subst delay_loop.simps) (auto simp: get nt dw Let_def slept kick)
  next
    case False
    then have lt: "unat sw < unat target"
      using less.prems(1) by (metis le_neq_implies_less word_unat_eq_iff)
    let ?st = "delay_step target sw"
    have st: "unat ?st = min 50 (unat target - unat sw)" using lt by (simp add: delay_step_unat)
    have sw': "unat (sw + ?st) = unat sw + unat ?st"
      using st assms(1) lt by (intro unat_add_no_wrap) (auto simp: min_def)
    let ?s2 = "dly ?st ?s1"
    have n2: "now s + unat ?st \<le> now ?s2" "now ?s2 \<le> now s + unat ?st + 900"
      using dly [of ?s1 ?st] nt by simp_all
    have nn: "NOT (sw + ?st) = NOT sw - ?st" by (simp add: not_eq_complement)
    have "\<exists>s'. delay_loop p get dly target (of_nat (now s)) (elapsed + of_nat ?d) (sw + ?st)
        (NOT (sw + ?st)) ?s2 = Some (Returns BOOT_OK s') \<and>
      slept s' + unat (sw + ?st) = slept ?s2 + unat target \<and>
      now ?s2 + unat target \<le> now s' + unat (sw + ?st)"
    proof (rule less.hyps)
      show "unat target - unat (sw + ?st) < unat target - unat sw" using sw' st lt by linarith
      show "unat (sw + ?st) \<le> unat target" using sw' st lt by linarith
      show "unat (sw + ?st) \<le> unat (elapsed + of_nat ?d) + (now ?s2 - now s)"
        using less.prems(4) el sw' n2 by simp
      have e: "unat elapsed + ?d \<le> 19 * unat sw" using less.prems(5) False by simp
      have w: "now ?s2 - now s \<le> unat ?st + 900" using n2 by linarith
      consider "unat ?st = 50" | "sw + ?st = target" "unat ?st \<le> 50"
        using st sw' lt by (cases "50 \<le> unat target - unat sw") (auto simp: word_unat_eq_iff)
      then show "unat (elapsed + of_nat ?d) + (now ?s2 - now s)
          \<le> 19 * unat (sw + ?st) + (if sw + ?st = target then 950 else 0)"
        using e w el sw' by cases auto
      show "now ?s2 \<le> now s + 950" using n2(2) st by linarith
    qed (use n2 in auto)
    then obtain s' where r: "delay_loop p get dly target (of_nat (now s)) (elapsed + of_nat ?d) (sw + ?st)
        (NOT sw - ?st) ?s2 = Some (Returns BOOT_OK s')"
      "slept s' + unat (sw + ?st) = slept ?s2 + unat target"
      "now ?s2 + unat target \<le> now s' + unat (sw + ?st)" unfolding nn by blast
    have "\<not> target \<le> sw" "sw \<le> delay_sw_limit target"
      using lt lim by (simp_all add: word_le_nat_alt)
    then have "delay_loop p get dly target (of_nat tb) elapsed sw (NOT sw) s = Some (Returns BOOT_OK s')"
      using r(1) dl by (subst delay_loop.simps) (simp add: get nt dw Let_def not_sub)
    then show ?thesis using r(2,3) sw' n2 slept by simp
  qed
qed

text \<open>A tick register that never moves: the loop runs into the instruction-skip trap.\<close>

lemma delay_loop_frozen:
  assumes "0 < unat target" "unat target \<le> 536870786" and "unat sw \<le> unat (delay_sw_limit target) + 1"
    and get: "\<And>s. fst (get s) = c"
  shows "\<exists>s'. delay_loop p get dly target c 0 sw (NOT sw) s = Some (Halts BOOT_ERR_VERIFY SITE_DELAY_WARP s')"
proof -
  have "\<exists>r. delay_loop p get dly target c 0 sw (NOT sw) s = Some r \<and>
      (\<exists>s'. r = Halts BOOT_ERR_VERIFY SITE_DELAY_WARP s')"
    using assms(3)
  proof (induction "unat (delay_sw_limit target) + 1 - unat sw" arbitrary: sw s rule: less_induct)
    case less
    obtain s1 where g: "get (wdt_kick p s) = (c, s1)" using get [of "wdt_kick p s"] by (metis prod.collapse)
    have t0: "\<not> target \<le> 0" using assms(1) by (simp add: word_le_nat_alt)
    show ?case
    proof (cases "sw \<le> delay_sw_limit target")
      case False
      then show ?thesis using g t0 by (subst delay_loop.simps) (simp add: Let_def)
    next
      case True
      let ?st = "delay_step target sw"
      have lim: "unat (delay_sw_limit target) = unat target * 8 + 1001"
        using assms(2) by (rule delay_limit_unat)
      have sw': "unat (sw + ?st) = unat sw + unat ?st"
        by (rule delay_step_add [OF True assms(2)])
      have pos: "0 < unat ?st" "unat ?st \<le> max 1 (unat target - unat sw)"
        by (simp_all add: delay_step_unat)
      have nn: "NOT (sw + ?st) = NOT sw - ?st" by (simp add: not_eq_complement)
      have "\<exists>r. delay_loop p get dly target c 0 (sw + ?st) (NOT (sw + ?st)) (dly ?st s1) = Some r \<and>
          (\<exists>s'. r = Halts BOOT_ERR_VERIFY SITE_DELAY_WARP s')"
        by (rule less.hyps) (use True pos sw' lim in \<open>auto simp: word_le_nat_alt\<close>)
      then show ?thesis using True g t0 unfolding nn
        by (subst delay_loop.simps) (simp add: Let_def not_sub)
    qed
  qed
  then show ?thesis by blast
qed

section \<open>Properties\<close>


text \<open>A device that is a perfect millisecond clock with a counter of the time slept.\<close>

definition ideal_clock :: "(nat \<times> nat) platform" where
  "ideal_clock = \<lparr> pf_flash = None, pf_crypto = None,
     pf_clock = Some \<lparr> kh_get_tick_ms = Some (\<lambda>s. (of_nat (fst s), s)),
       kh_delay_ms = Some (\<lambda>t s. (fst s + unat t, snd s + unat t)), kh_get_reset_reason = None \<rparr>,
     pf_wdt = None, pf_console = None, pf_soc = None,
     pf_confirm = None, pf_slot_caps = None \<rparr>"

lemma ideal_clock_sel [simp]: "pf_clock ideal_clock = Some \<lparr> kh_get_tick_ms = Some (\<lambda>s. (of_nat (fst s), s)),
    kh_delay_ms = Some (\<lambda>t s. (fst s + unat t, snd s + unat t)), kh_get_reset_reason = None \<rparr>"
  by (simp add: ideal_clock_def)

lemma ideal_kick [simp]: "wdt_kick ideal_clock s = s"
  by (simp add: wdt_kick_def ideal_clock_def)


lemma boot_delay_honest:
  assumes "pf_clock p = Some clk" and "kh_get_tick_ms clk = Some get" and "kh_delay_ms clk = Some dly"
    and "\<And>s. get s = (of_nat (now s), s)"
    and "\<And>t s. now s + unat t \<le> now (dly t s) \<and> now (dly t s) \<le> now s + unat t + 900"
    and "\<And>s. now (wdt_kick p s) = now s"
    and "\<And>t s. slept (dly t s) = slept s + unat t" and "\<And>s. slept (wdt_kick p s) = slept s"
    and "unat ms \<le> 134217728"
  shows "\<exists>s'. boot_delay_with_wdt p ms s = Some (Returns BOOT_OK s') \<and>
    slept s' = slept s + unat ms \<and> now s + unat ms \<le> now s'"
proof -
  have t: "\<not> ms > delay_safe_cap" using assms(9) by (simp add: word_less_nat_alt delay_cap_value)
  have "\<exists>s'. delay_loop p get dly ms (of_nat (now s)) 0 0 (NOT 0) s = Some (Returns BOOT_OK s') \<and>
      slept s' + unat (0 :: u32) = slept s + unat ms \<and> now s + unat ms \<le> now s' + unat (0 :: u32)"
    by (rule delay_loop_honest [where now = now and tb = "now s"]) (simp_all add: assms(4-9))
  then show ?thesis using assms(1-4) t
    by (cases "ms = 0") (auto simp: boot_delay_with_wdt_def Let_def)
qed

text \<open>
  C28. With a clock that runs true (\<open>delay_ms\<close> sleeps at least as long as asked and at most 900 ms
  longer) every delay of up to 134217728 ms returns \<open>BOOT_OK\<close>, having slept exactly the requested
  time and with at least that much time passed.
\<close>

theorem delay_returns_on_honest_clock:
  assumes "pf_clock p = Some clk" and "kh_get_tick_ms clk = Some get" and "kh_delay_ms clk = Some dly"
    and "\<And>s. get s = (of_nat (now s), s)"
    and "\<And>t s. now s + unat t \<le> now (dly t s) \<and> now (dly t s) \<le> now s + unat t + 900"
    and "\<And>s. now (wdt_kick p s) = now s"
    and "\<And>t s. slept (dly t s) = slept s + unat t" and "\<And>s. slept (wdt_kick p s) = slept s"
    and "unat ms \<le> 134217728"
  shows "\<exists>s'. boot_delay_with_wdt p ms s = Some (Returns BOOT_OK s') \<and>
    slept s' = slept s + unat ms \<and> now s + unat ms \<le> now s'"
  by (rule boot_delay_honest [OF assms])

lemma delay_returns_on_honest_clock_witness:
  "\<exists>s'. boot_delay_with_wdt ideal_clock 120 (5, 0) = Some (Returns BOOT_OK s') \<and> snd s' = 120"
  using delay_returns_on_honest_clock [where p = ideal_clock and slept = snd and s = "(5, 0)"
      and ms = 120 and now = fst
      and get = "\<lambda>s. (of_nat (fst s), s)" and dly = "\<lambda>t s. (fst s + unat t, snd s + unat t)"
      and clk = "\<lparr> kh_get_tick_ms = Some (\<lambda>s. (of_nat (fst s), s)),
        kh_delay_ms = Some (\<lambda>t s. (fst s + unat t, snd s + unat t)), kh_get_reset_reason = None \<rparr>"]
  by auto

text \<open>
  With a tick register stuck at one value no delay ends normally: every request of at least one
  millisecond ends in the instruction-skip trap.
\<close>

theorem delay_frozen_clock_halts:
  assumes "pf_clock p = Some clk" and "kh_get_tick_ms clk = Some get" and "kh_delay_ms clk = Some dly"
    and "\<And>s. fst (get s) = c" and "ms \<noteq> 0"
  shows "\<exists>s'. boot_delay_with_wdt p ms s = Some (Halts BOOT_ERR_VERIFY SITE_DELAY_WARP s')"
proof -
  define t where "t = (if ms > delay_safe_cap then delay_safe_cap else ms)"
  have t: "0 < unat t" "unat t \<le> 536870786" using assms(5)
    unfolding t_def by (auto simp: word_less_nat_alt delay_cap_value unat_gt_0 simp flip: unat_gt_0 [of delay_safe_cap])
  obtain s1 where g: "get s = (c, s1)" using assms(4) [of s] by (metis prod.collapse)
  have "\<exists>s'. delay_loop p get dly t c 0 0 (NOT 0) s1 = Some (Halts BOOT_ERR_VERIFY SITE_DELAY_WARP s')"
    by (rule delay_loop_frozen [where get = get]) (simp_all add: t assms(4))
  then show ?thesis using assms(1-3,5) g
    by (simp add: boot_delay_with_wdt_def t_def [symmetric] Let_def)
qed

lemma delay_frozen_clock_halts_witness:
  "\<exists>s'. boot_delay_with_wdt (ideal_clock\<lparr> pf_clock := Some \<lparr> kh_get_tick_ms = Some (\<lambda>s. (7, s)),
      kh_delay_ms = Some (\<lambda>t s. s), kh_get_reset_reason = None \<rparr> \<rparr>) 3 (0, 0) =
    Some (Halts BOOT_ERR_VERIFY SITE_DELAY_WARP s')"
  by (rule delay_frozen_clock_halts [where c = 7 and get = "Pair 7" and dly = "\<lambda>t s. s"
      and clk = "\<lparr> kh_get_tick_ms = Some (\<lambda>s. (7, s)), kh_delay_ms = Some (\<lambda>t s. s),
        kh_get_reset_reason = None \<rparr>"]) simp_all

end
