(* ===== verification/Boot_Energy.thy ===== *)
theory Boot_Energy
  imports Boot_Delay Boot_Ct_Utils
begin

text \<open>
  The energy guard before a flash update (\<open>core/utils/boot_energy.c\<close>): the PMIC veto, three ADC
  samples with delays between them, their median against the threshold, the brownout hysteresis,
  and the halt on an empty battery. \<open>unattended\<close> and \<open>backoff_s\<close> are
  \<open>BOOT_CONFIG_EDGE_UNATTENDED_MODE\<close> and \<open>BOOT_CONFIG_BACKOFF_BASE_S\<close> of the generated
  configuration.
\<close>

definition branchless_median_3 :: "u32 \<Rightarrow> u32 \<Rightarrow> u32 \<Rightarrow> u32" where
  "branchless_median_3 a b c =
     (let min_ab = (if a < b then a else b);
          max_ab = (if a > b then a else b);
          min_max_ab_c = (if max_ab < c then max_ab else c)
      in if min_ab > min_max_ab_c then min_ab else min_max_ab_c)"

definition ENERGY_CFI_SLOT_NO_HAL :: u8 where "ENERGY_CFI_SLOT_NO_HAL = 1"
definition ENERGY_CFI_SLOT_PMIC :: u8 where "ENERGY_CFI_SLOT_PMIC = 2"
definition ENERGY_CFI_SLOT_ADC :: u8 where "ENERGY_CFI_SLOT_ADC = 3"

text \<open>Section 3 of the function: the PMIC's verdict.\<close>

definition energy_pmic :: "'s platform \<Rightarrow> 's soc_hal \<Rightarrow> 's \<Rightarrow> bool \<times> 's" where
  "energy_pmic p soc s =
     (case sh_can_sustain_update soc of
        None \<Rightarrow> (True, s)
      | Some f \<Rightarrow> (case f (wdt_kick p s) of (result, s) \<Rightarrow> (result, wdt_kick p s)))"

text \<open>Section 4: the three samples; the results of the two delays are ignored, as in the code.\<close>

definition energy_samples ::
  "'s platform \<Rightarrow> ('s \<Rightarrow> u32 \<times> 's) \<Rightarrow> 's \<Rightarrow> (u32 \<times> u32 \<times> u32, 's) outcome option" where
  "energy_samples p battery_level_mv s =
     (case battery_level_mv (wdt_kick p s) of (sample_1, s) \<Rightarrow>
        bind_out (boot_delay_with_wdt p 2 s) (\<lambda>_ s.
          case battery_level_mv (wdt_kick p s) of (sample_2, s) \<Rightarrow>
            bind_out (boot_delay_with_wdt p 2 s) (\<lambda>_ s.
              case battery_level_mv (wdt_kick p s) of (sample_3, s) \<Rightarrow>
                Some (Returns (sample_1, sample_2, sample_3) s))))"

definition energy_required_mv :: "u32 \<Rightarrow> reset_reason \<Rightarrow> u32" where
  "energy_required_mv required_mv rst =
     (if rst = RESET_REASON_BROWNOUT then
        let margin = drop_bit 3 required_mv
        in if UINT32_MAX - required_mv \<ge> margin then required_mv + margin else UINT32_MAX
      else required_mv)"

definition energy_adc ::
  "'s platform \<Rightarrow> 's soc_hal \<Rightarrow> ('s \<Rightarrow> reset_reason \<times> 's) \<Rightarrow> 's \<Rightarrow> (bool, 's) outcome option" where
  "energy_adc p soc get_reset_reason s =
     (case sh_battery_level_mv soc of
        None \<Rightarrow> Some (Returns True s)
      | Some battery_level_mv \<Rightarrow>
          if \<not> sh_min_battery_mv soc > 0 then Some (Returns True s)
          else
            bind_out (energy_samples p battery_level_mv s) (\<lambda>(sample_1, sample_2, sample_3) s.
              let stable_mv = branchless_median_3 sample_1 sample_2 sample_3
              in if stable_mv = 0 \<or> stable_mv = 0xFFFFFFFF then Some (Returns False s)
                 else case get_reset_reason s of (rst, s) \<Rightarrow>
                        Some (Returns (\<not> stable_mv < energy_required_mv (sh_min_battery_mv soc) rst) s)))"

definition energy_brownout_trap :: "bool \<Rightarrow> u32 \<Rightarrow> 's soc_hal \<Rightarrow> 's \<Rightarrow> (boot_status, 's) outcome option" where
  "energy_brownout_trap unattended backoff_s soc s =
     (let s = (if unattended then (case sh_enter_low_power soc of None \<Rightarrow> s | Some f \<Rightarrow> f backoff_s s) else s)
      in Some (Halts BOOT_ERR_POWER SITE_ENERGY_BROWNOUT s))"

definition boot_energy_check_safe_update ::
  "bool \<Rightarrow> u32 \<Rightarrow> 's platform \<Rightarrow> 's \<Rightarrow> (boot_status, 's) outcome option" where
  "boot_energy_check_safe_update unattended backoff_s p s =
     (case pf_clock p of
        None \<Rightarrow> Some (Returns BOOT_ERR_INVALID_ARG s)
      | Some clk \<Rightarrow>
          (case kh_get_reset_reason clk of
             None \<Rightarrow> Some (Returns BOOT_ERR_INVALID_ARG s)
           | Some get_reset_reason \<Rightarrow>
               (case boot_random_safe p 4 s of (_, buf, s) \<Rightarrow>
                  let ctx = boot_cfi_init (rd32 0 (fill_prefix buf (zeroed 4)))
                  in case pf_soc p of
                       None \<Rightarrow>
                         let ctx = boot_cfi_add_expected ENERGY_CFI_SLOT_NO_HAL ctx;
                             ctx = boot_cfi_step ENERGY_CFI_SLOT_NO_HAL ctx
                         in if \<not> boot_cfi_require False ctx then Some (Returns BOOT_ERR_INVALID_STATE s)
                            else Some (Returns BOOT_OK s)
                     | Some soc \<Rightarrow>
                         let ctx = boot_cfi_add_expected ENERGY_CFI_SLOT_PMIC ctx;
                             ctx = boot_cfi_add_expected ENERGY_CFI_SLOT_ADC ctx
                         in case energy_pmic p soc s of (pmic_sustain_ok, s) \<Rightarrow>
                              let ctx = boot_cfi_step ENERGY_CFI_SLOT_PMIC ctx
                              in bind_out (energy_adc p soc get_reset_reason s) (\<lambda>adc_voltage_ok s.
                                   let ctx = boot_cfi_step ENERGY_CFI_SLOT_ADC ctx
                                   in if \<not> boot_cfi_require False ctx
                                      then Some (Halts BOOT_ERR_INVALID_STATE SITE_ENERGY_CFI_MISMATCH s)
                                      else if \<not> secure_require (pmic_sustain_ok \<and> adc_voltage_ok)
                                      then energy_brownout_trap unattended backoff_s soc s
                                      else Some (Returns BOOT_OK s)))))"

section \<open>Median and threshold\<close>

text \<open>The middle one of three values.\<close>

lemma median_is_middle: "branchless_median_3 a b c = sort [a, b, c] ! 1"
  by (auto simp: branchless_median_3_def Let_def)

lemma required_mv_unat:
  "unat (energy_required_mv m rst) =
     (if rst = RESET_REASON_BROWNOUT then min 4294967295 (unat m + unat m div 8) else unat m)"
proof -
  have d: "unat (drop_bit 3 m) = unat m div 8" by (simp add: unsigned_drop_bit_eq drop_bit_eq_div unat_div_distrib)
  have u: "unat (UINT32_MAX - m) = 4294967295 - unat m"
    using unat_u32_le_max [of m] by (simp add: unat_sub_no_wrap)
  show ?thesis
  proof (cases "rst = RESET_REASON_BROWNOUT \<and> UINT32_MAX - m \<ge> drop_bit 3 m")
    case True
    then have "unat m + unat m div 8 \<le> 4294967295" using u d unat_u32_le_max [of m]
      unfolding word_le_nat_alt by linarith
    then show ?thesis using True d
      by (simp add: energy_required_mv_def unat_add_no_wrap)
  next
    case False
    then show ?thesis using u d unat_u32_le_max [of m]
      by (auto simp: energy_required_mv_def word_le_nat_alt)
  qed
qed

text \<open>
  What the battery check demands, over the natural numbers: the middle sample is no failure value
  and reaches the threshold, raised by an eighth (and capped at the largest 32-bit value) after a
  brownout.
\<close>

definition battery_ok :: "u32 \<Rightarrow> reset_reason \<Rightarrow> u32 list \<Rightarrow> bool" where
  "battery_ok min_mv rst samples \<longleftrightarrow>
     (let med = unat (sort samples ! 1) in
      med \<noteq> 0 \<and> med \<noteq> 4294967295 \<and>
      (if rst = RESET_REASON_BROWNOUT then min 4294967295 (unat min_mv + unat min_mv div 8)
       else unat min_mv) \<le> med)"

lemma battery_ok_code:
  "battery_ok m rst [a, b, c] \<longleftrightarrow>
     (let v = branchless_median_3 a b c
      in v \<noteq> 0 \<and> v \<noteq> 0xFFFFFFFF \<and> \<not> v < energy_required_mv m rst)"
proof -
  have "v = 0 \<longleftrightarrow> unat v = 0" "v = 0xFFFFFFFF \<longleftrightarrow> unat v = 4294967295" for v :: u32
    by (simp_all add: word_unat_eq_iff)
  then show ?thesis
    unfolding battery_ok_def median_is_middle [symmetric] Let_def
    by (simp add: not_less word_le_nat_alt required_mv_unat)
qed

lemma cfi_planned:
  "boot_cfi_require False (boot_cfi_step b (boot_cfi_step a
     (boot_cfi_add_expected b (boot_cfi_add_expected a (boot_cfi_init seed)))))"
  "boot_cfi_require False (boot_cfi_step a (boot_cfi_add_expected a (boot_cfi_init seed)))"
  by (simp_all add: boot_cfi_require_iff boot_cfi_step_def boot_cfi_add_expected_def
      boot_cfi_init_def ac_simps)

lemma energy_with_soc:
  assumes "pf_clock p = Some clk" "kh_get_reset_reason clk = Some rr" "pf_soc p = Some soc"
    "boot_random_safe p 4 s = (st, buf, s1)" "energy_pmic p soc s1 = (pmic, s2)"
  shows "boot_energy_check_safe_update un bo p s =
    bind_out (energy_adc p soc rr s2) (\<lambda>adc s.
      if pmic \<and> adc then Some (Returns BOOT_OK s) else energy_brownout_trap un bo soc s)"
proof -
  have e: "(\<lambda>adc s. if pmic \<longrightarrow> \<not> adc then energy_brownout_trap un bo soc s else Some (Returns BOOT_OK s)) =
      (\<lambda>adc s. if pmic \<and> adc then Some (Returns BOOT_OK s) else energy_brownout_trap un bo soc s)"
    by (intro ext) simp
  show ?thesis using assms
    by (simp add: boot_energy_check_safe_update_def Let_def cfi_planned e)
qed

text \<open>
  C38. On a device with a battery monitor the guard lets an update through exactly when the PMIC
  does not object and the middle one of the three samples meets the threshold, raised by 12.5
  percent after a brownout; in every other case it never returns but halts with \<open>BOOT_ERR_POWER\<close>.
\<close>

theorem energy_guard_decides:
  assumes "pf_clock p = Some clk" and "kh_get_reset_reason clk = Some rr" and "pf_soc p = Some soc"
    and "boot_random_safe p 4 s = (st, buf, s1)" and "energy_pmic p soc s1 = (pmic, s2)"
    and "sh_battery_level_mv soc = Some bat" and "sh_min_battery_mv soc \<noteq> 0"
    and "energy_samples p bat s2 = Some (Returns (m1, m2, m3) s3)" and "rr s3 = (rst, s4)"
  shows "\<exists>s'. boot_energy_check_safe_update un bo p s =
    Some (if pmic \<and> battery_ok (sh_min_battery_mv soc) rst [m1, m2, m3] then Returns BOOT_OK s'
          else Halts BOOT_ERR_POWER SITE_ENERGY_BROWNOUT s')"
proof -
  have "\<exists>s'. energy_adc p soc rr s2 =
      Some (Returns (battery_ok (sh_min_battery_mv soc) rst [m1, m2, m3]) s')"
    using assms(6-9)
    by (auto simp: energy_adc_def battery_ok_code Let_def word_neq_0_conv)
  then show ?thesis
    unfolding energy_with_soc [OF assms(1-5)]
    by (auto simp: energy_brownout_trap_def Let_def)
qed

text \<open>A battery device on the ideal clock.\<close>

definition demo_soc :: "(nat \<times> nat) soc_hal" where
  "demo_soc = \<lparr> sh_battery_level_mv = Some (\<lambda>s. (3300 + of_nat (snd s), s)), sh_can_sustain_update = None,
     sh_enter_low_power = None, sh_read_rtc_backup = None, sh_write_rtc_backup = None,
     sh_min_battery_mv = 2900, sh_swap_notify = None \<rparr>"

definition battery_device :: "(nat \<times> nat) platform" where
  "battery_device = ideal_clock\<lparr> pf_clock := Some \<lparr> kh_get_tick_ms = Some (\<lambda>s. (of_nat (fst s), s)),
       kh_delay_ms = Some (\<lambda>t s. (fst s + unat t, snd s + unat t)),
       kh_get_reset_reason = Some (Pair RESET_REASON_BROWNOUT) \<rparr>, pf_soc := Some demo_soc \<rparr>"

lemma battery_device_kick [simp]: "wdt_kick battery_device s = s"
  by (simp add: wdt_kick_def battery_device_def ideal_clock_def)

lemma battery_device_sel [simp]:
  "pf_clock battery_device = Some \<lparr> kh_get_tick_ms = Some (\<lambda>s. (of_nat (fst s), s)),
     kh_delay_ms = Some (\<lambda>t s. (fst s + unat t, snd s + unat t)),
     kh_get_reset_reason = Some (Pair RESET_REASON_BROWNOUT) \<rparr>"
  "pf_soc battery_device = Some demo_soc" "pf_crypto battery_device = None"
  by (simp_all add: battery_device_def ideal_clock_def)

lemma battery_device_delay:
  "\<exists>s'. boot_delay_with_wdt battery_device 2 s = Some (Returns BOOT_OK s') \<and> snd s' = snd s + 2"
  using boot_delay_honest [where p = battery_device and slept = snd and now = fst and ms = 2 and s = s
      and get = "\<lambda>s. (of_nat (fst s), s)" and dly = "\<lambda>t s. (fst s + unat t, snd s + unat t)"
      and clk = "\<lparr> kh_get_tick_ms = Some (\<lambda>s. (of_nat (fst s), s)),
        kh_delay_ms = Some (\<lambda>t s. (fst s + unat t, snd s + unat t)),
        kh_get_reset_reason = Some (Pair RESET_REASON_BROWNOUT) \<rparr>"]
  by auto

lemma battery_device_samples:
  "\<exists>s'. energy_samples battery_device (\<lambda>s. (3300 + of_nat (snd s), s)) (0, 0) =
     Some (Returns (3300, 3302, 3304) s')"
proof -
  obtain s1 where d1: "boot_delay_with_wdt battery_device 2 (0, 0) = Some (Returns BOOT_OK s1)" "snd s1 = 2"
    using battery_device_delay [of "(0, 0)"] by auto
  obtain s2 where d2: "boot_delay_with_wdt battery_device 2 s1 = Some (Returns BOOT_OK s2)" "snd s2 = 4"
    using battery_device_delay [of s1] d1(2) by auto
  show ?thesis by (simp add: energy_samples_def d1 d2)
qed

lemma energy_guard_decides_witness:
  "\<exists>s'. boot_energy_check_safe_update True 10 battery_device (0, 0) = Some (Returns BOOT_OK s')"
proof -
  obtain s3 where e: "energy_samples battery_device (\<lambda>s. (3300 + of_nat (snd s), s)) (0, 0) =
      Some (Returns (3300, 3302, 3304) s3)"
    using battery_device_samples by blast
  have "battery_ok 2900 RESET_REASON_BROWNOUT [3300, 3302, 3304]"
    by (simp add: battery_ok_def)
  then show ?thesis
    using energy_guard_decides [where p = battery_device and s = "(0, 0)" and soc = demo_soc
        and rr = "Pair RESET_REASON_BROWNOUT" and pmic = True and un = True and bo = 10
        and st = BOOT_ERR_NOT_SUPPORTED and buf = "[]", OF _ _ _ _ _ _ _ e]
    by (simp add: boot_random_safe_def energy_pmic_def demo_soc_def)
qed

end
