(* ===== verification/Sandbox_Platform.thy ===== *)
theory Sandbox_Platform
  imports Flash_Model
begin

text \<open>
  The mock crypto HAL of the host sandbox (\<open>test/host/sandbox_platform.c\<close>): the hash functions of
  the simulated device, on which the verification contract is interpreted. The other sub-HALs of
  that platform are declared \<open>extern\<close> there and come from the registry.
\<close>

definition sandbox_crypto_hash_init :: "u8 list \<Rightarrow> 's \<Rightarrow> boot_status \<times> u8 list \<times> 's" where
  "sandbox_crypto_hash_init ctx s = (BOOT_OK, ctx, s)"

definition sandbox_crypto_hash_update :: "u8 list \<Rightarrow> u8 list \<Rightarrow> 's \<Rightarrow> boot_status \<times> u8 list \<times> 's" where
  "sandbox_crypto_hash_update ctx data s = (BOOT_OK, ctx, s)"

definition sandbox_crypto_hash_finish ::
  "u8 list \<Rightarrow> nat \<Rightarrow> 's \<Rightarrow> boot_status \<times> u8 list \<times> nat \<times> 's" where
  "sandbox_crypto_hash_finish ctx digest_len s = (BOOT_OK, replicate digest_len 0, digest_len, s)"

definition sandbox_crypto_read_monotonic_counter :: "'s \<Rightarrow> boot_status \<times> u32 \<times> 's" where
  "sandbox_crypto_read_monotonic_counter s = (BOOT_OK, 0, s)"

definition sandbox_crypto_read_pubkey :: "nat \<Rightarrow> u8 \<Rightarrow> 's \<Rightarrow> boot_status \<times> u8 list \<times> 's" where
  "sandbox_crypto_read_pubkey key_len key_index s = (BOOT_OK, replicate key_len 0, s)"

definition sandbox_crypto_read_chip_uid :: "nat \<Rightarrow> 's \<Rightarrow> boot_status \<times> u8 list \<times> nat \<times> 's" where
  "sandbox_crypto_read_chip_uid max_len s = (BOOT_OK, replicate max_len 0x42, max_len, s)"

definition sandbox_crypto_verify_signature :: "u8 list \<Rightarrow> u8 list \<Rightarrow> u8 list \<Rightarrow> 's \<Rightarrow> boot_status \<times> 's" where
  "sandbox_crypto_verify_signature message sig pubkey s = (BOOT_OK, s)"

definition sandbox_crypto_verify_signature_ph :: "u8 list \<Rightarrow> u8 list \<Rightarrow> u8 list \<Rightarrow> 's \<Rightarrow> boot_status \<times> 's" where
  "sandbox_crypto_verify_signature_ph msg_digest sig pubkey s = (BOOT_OK, s)"

definition sandbox_crypto_verify_pqc :: "u8 list \<Rightarrow> u8 list \<Rightarrow> u8 list \<Rightarrow> 's \<Rightarrow> boot_status \<times> 's" where
  "sandbox_crypto_verify_pqc message sig pubkey s = (BOOT_OK, s)"

definition sandbox_crypto_read_dslc :: "nat \<Rightarrow> 's \<Rightarrow> boot_status \<times> u8 list \<times> nat \<times> 's" where
  "sandbox_crypto_read_dslc len s = (BOOT_OK, replicate len 0, len, s)"

definition sandbox_crypto_write_dslc :: "u8 list \<Rightarrow> 's \<Rightarrow> boot_status \<times> 's" where
  "sandbox_crypto_write_dslc value s = (BOOT_OK, s)"

definition sandbox_crypto_advance_monotonic_counter :: "'s \<Rightarrow> boot_status \<times> 's" where
  "sandbox_crypto_advance_monotonic_counter s = (BOOT_OK, s)"

definition sandbox_crypto_get_hash_ctx_size :: nat where
  "sandbox_crypto_get_hash_ctx_size = 64"

text \<open>\<open>rnd\<close> stands for the C library's \<open>rand()\<close>.\<close>

definition sandbox_crypto_random ::
  "('s \<Rightarrow> nat \<times> 's) \<Rightarrow> nat \<Rightarrow> 's \<Rightarrow> boot_status \<times> u8 list \<times> 's" where
  "sandbox_crypto_random rnd len s =
     (let r = ((\<lambda>(bs, s). case rnd s of (v, s) \<Rightarrow> (bs @ [of_nat (v mod 256)], s)) ^^ len) ([], s)
      in (BOOT_OK, fst r, snd r))"

definition sandbox_crypto_hal :: "('s \<Rightarrow> nat \<times> 's) \<Rightarrow> 's crypto_hal" where
  "sandbox_crypto_hal rnd = \<lparr> ch_hash_init = sandbox_crypto_hash_init,
     ch_hash_update = sandbox_crypto_hash_update, ch_hash_finish = sandbox_crypto_hash_finish,
     ch_get_hash_ctx_size = sandbox_crypto_get_hash_ctx_size,
     ch_random = Some (sandbox_crypto_random rnd),
     ch_read_monotonic_counter = Some sandbox_crypto_read_monotonic_counter,
     ch_read_chip_uid = Some sandbox_crypto_read_chip_uid,
     ch_read_pubkey = Some sandbox_crypto_read_pubkey,
     ch_verify_signature = Some sandbox_crypto_verify_signature,
     ch_verify_pqc = Some sandbox_crypto_verify_pqc,
     ch_read_dslc = Some sandbox_crypto_read_dslc,
     ch_write_dslc = Some sandbox_crypto_write_dslc,
     ch_advance_monotonic_counter = Some sandbox_crypto_advance_monotonic_counter,
     ch_is_pqc_enforced = None,
     ch_verify_signature_ph = Some sandbox_crypto_verify_signature_ph \<rparr>"

definition sandbox_platform :: "flash_model flash_hal \<Rightarrow> (flash_model \<Rightarrow> nat \<times> flash_model) \<Rightarrow> flash_model platform" where
  "sandbox_platform fl rnd = (model_platform fl)\<lparr> pf_crypto := Some (sandbox_crypto_hal rnd) \<rparr>"

lemma sandbox_platform_sel [simp]:
  "pf_flash (sandbox_platform fl rnd) = Some fl"
  "pf_crypto (sandbox_platform fl rnd) = Some (sandbox_crypto_hal rnd)"
  "pf_wdt (sandbox_platform fl rnd) = pf_wdt (model_platform fl)"
  by (simp_all add: sandbox_platform_def)

lemma sandbox_wdt [simp]:
  "wdt_kick (sandbox_platform fl rnd) s = s"
  "wdt_suspend (sandbox_platform fl rnd) s = s"
  "wdt_resume (sandbox_platform fl rnd) s = s"
  by (simp_all add: wdt_kick_def wdt_suspend_def wdt_resume_def call_opt_def)

lemma sandbox_contract:
  assumes "flash_contract (model_platform fl) fl mem live tot sec wa"
  shows "flash_contract (sandbox_platform fl rnd) fl mem live tot sec wa"
  using assms by (simp add: flash_contract_def)

definition sandbox_hash :: "u8 list \<Rightarrow> u8 list" where
  "sandbox_hash d = replicate 32 0"

lemma sandbox_hash_contract:
  "hash_contract (sandbox_crypto_hal rnd) sandbox_hash (\<lambda>_ _ _. True) mem live"
  by unfold_locales
    (simp_all add: sandbox_crypto_hal_def sandbox_hash_def sandbox_crypto_hash_init_def
      sandbox_crypto_hash_update_def sandbox_crypto_hash_finish_def
      sandbox_crypto_get_hash_ctx_size_def)

definition small_sandbox :: "flash_model platform" where
  "small_sandbox = sandbox_platform small_port (Pair 4)"

interpretation sandbox_flash: flash_contract small_sandbox small_port fm_file "model_live 64 16 1 0xFF" 64 16 1
  unfolding small_sandbox_def
  by (rule sandbox_contract) (use small.flash_contract_axioms in \<open>simp add: small_platform_def\<close>)

interpretation sandbox_engine: hash_contract "sandbox_crypto_hal (Pair 4)" sandbox_hash "\<lambda>_ _ _. True"
    fm_file "model_live 64 16 1 0xFF"
  by (rule sandbox_hash_contract)

end
