(* ===== verification/Boot_Merkle.thy ===== *)
theory Boot_Merkle
  imports Boot_Ct_Utils Sandbox_Platform
begin

text \<open>
  Chunk-wise verification of an image in flash against a list of 32-byte hashes
  (\<open>core/utils/boot_merkle.c\<close>). The caller's buffers are the arena (\<open>arena_size\<close> bytes at a
  non-\<open>NULL\<close> address iff \<open>arena_ptr\<close> holds) and the hash array, given with its address for the
  wrap guard. Every exit zeroizes arena, context and digest, so only the status and the device
  state are results.
\<close>

section \<open>The function\<close>

definition BOOT_MERKLE_HASH_LEN :: nat where "BOOT_MERKLE_HASH_LEN = 32"
definition BOOT_MERKLE_MAX_CTX_SIZE :: nat where "BOOT_MERKLE_MAX_CTX_SIZE = 256"

text \<open>One pass of the loop: hash the chunk just read and compare with the expected digest.\<close>

definition merkle_check_chunk ::
  "'s crypto_hal \<Rightarrow> u8 list \<Rightarrow> u8 list \<Rightarrow> u8 list \<Rightarrow> 's \<Rightarrow> boot_status \<times> u8 list \<times> 's" where
  "merkle_check_chunk c hash_ctx data expected s =
     (case ch_hash_init c hash_ctx s of (stat, hash_ctx, s) \<Rightarrow>
        if stat \<noteq> BOOT_OK then (stat, hash_ctx, s)
        else case ch_hash_update c hash_ctx data s of (stat, hash_ctx, s) \<Rightarrow>
          if stat \<noteq> BOOT_OK then (stat, hash_ctx, s)
          else case ch_hash_finish c hash_ctx BOOT_MERKLE_HASH_LEN s of (stat, digest, digest_len, s) \<Rightarrow>
            if stat \<noteq> BOOT_OK \<or> digest_len \<noteq> BOOT_MERKLE_HASH_LEN
            then (if stat \<noteq> BOOT_OK then stat else BOOT_ERR_VERIFY, hash_ctx, s)
            else (constant_time_memcmp_glitch_safe (fill_prefix digest (zeroed BOOT_MERKLE_HASH_LEN))
                    expected BOOT_MERKLE_HASH_LEN, hash_ctx, s))"

fun merkle_loop ::
  "'s platform \<Rightarrow> 's flash_hal \<Rightarrow> 's crypto_hal \<Rightarrow> u32 \<Rightarrow> nat \<Rightarrow> u32 \<Rightarrow> u32 \<Rightarrow> u8 list \<Rightarrow> u8 list \<Rightarrow> 's \<Rightarrow>
     boot_status \<times> u32 \<times> 's" where
  "merkle_loop p fl c chunk_size 0 addr remaining hashes hash_ctx s = (BOOT_OK, remaining, s)"
| "merkle_loop p fl c chunk_size (Suc n) addr remaining hashes hash_ctx s =
     (let s = wdt_kick p s;
          read_len = (if remaining < chunk_size then remaining else chunk_size)
      in case fh_read fl addr (unat read_len) s of (stat, data, s) \<Rightarrow>
           let s = wdt_kick p s
           in if stat \<noteq> BOOT_OK then (stat, remaining, s)
              else case merkle_check_chunk c hash_ctx data (take BOOT_MERKLE_HASH_LEN hashes) s of
                (stat, hash_ctx, s) \<Rightarrow>
                  if stat \<noteq> BOOT_OK then (stat, remaining, s)
                  else merkle_loop p fl c chunk_size n (addr + read_len) (remaining - read_len)
                         (drop BOOT_MERKLE_HASH_LEN hashes) hash_ctx s)"

text \<open>The guards of section 3, in the order of the code.\<close>

definition merkle_bounds ::
  "'s flash_hal \<Rightarrow> u32 \<Rightarrow> u32 \<Rightarrow> u32 \<Rightarrow> u32 \<Rightarrow> u32 \<Rightarrow> u32 \<Rightarrow> nat \<Rightarrow> boot_status" where
  "merkle_bounds fl image_flash_addr image_size chunk_size hashes_addr chunk_hashes_len num_chunks
     arena_size =
     (if UINT32_MAX - image_flash_addr < image_size then BOOT_ERR_FLASH_BOUNDS
      else if num_chunks > UINT32_MAX div chunk_size then BOOT_ERR_INVALID_ARG
      else if num_chunks > UINT32_MAX div of_nat BOOT_MERKLE_HASH_LEN then BOOT_ERR_INVALID_ARG
      else if num_chunks * of_nat BOOT_MERKLE_HASH_LEN > chunk_hashes_len then BOOT_ERR_INVALID_ARG
      else if hashes_addr > UINT32_MAX - num_chunks * of_nat BOOT_MERKLE_HASH_LEN
        then BOOT_ERR_INVALID_ARG
      else if chunk_size > fh_max_sector_size fl then BOOT_ERR_INVALID_ARG
      else if fh_write_align fl > 0 \<and> chunk_size mod ucast (fh_write_align fl) \<noteq> 0
        then BOOT_ERR_INVALID_ARG
      else if arena_size < unat chunk_size then BOOT_ERR_INVALID_ARG
      else if num_chunks \<noteq> image_size div chunk_size + (if image_size mod chunk_size > 0 then 1 else 0)
        then BOOT_ERR_VERIFY
      else BOOT_OK)"

definition boot_merkle_verify_stream ::
  "'s platform \<Rightarrow> u32 \<Rightarrow> u32 \<Rightarrow> u32 \<Rightarrow> u32 \<Rightarrow> u8 list \<Rightarrow> u32 \<Rightarrow> u32 \<Rightarrow> bool \<Rightarrow> nat \<Rightarrow> 's \<Rightarrow>
     boot_status \<times> 's" where
  "boot_merkle_verify_stream p image_flash_addr image_size chunk_size hashes_addr chunk_hashes
     chunk_hashes_len num_chunks arena_ptr arena_size s =
     (case (pf_wdt p, pf_crypto p, pf_flash p) of
        (Some w, Some c, Some fl) \<Rightarrow>
          if wh_kick w = None then (BOOT_ERR_NOT_SUPPORTED, s)
          else if hashes_addr = 0 \<or> \<not> arena_ptr then (BOOT_ERR_INVALID_ARG, s)
          else if image_size = 0 \<or> chunk_size = 0 \<or> num_chunks = 0 \<or> arena_size = 0 \<or>
                  chunk_hashes_len = 0 then (BOOT_ERR_INVALID_ARG, s)
          else if ch_get_hash_ctx_size c > BOOT_MERKLE_MAX_CTX_SIZE then (BOOT_ERR_INVALID_ARG, s)
          else
            let stat = merkle_bounds fl image_flash_addr image_size chunk_size hashes_addr
                         chunk_hashes_len num_chunks arena_size
            in if stat \<noteq> BOOT_OK then (stat, s)
               else case merkle_loop p fl c chunk_size (unat num_chunks) image_flash_addr image_size
                           chunk_hashes (zeroed BOOT_MERKLE_MAX_CTX_SIZE) s of
                 (stat, remaining_bytes, s) \<Rightarrow>
                   if stat \<noteq> BOOT_OK then (stat, s)
                   else if \<not> secure_require (remaining_bytes = 0) then (BOOT_ERR_VERIFY, s)
                   else (BOOT_OK, s)
      | _ \<Rightarrow> (BOOT_ERR_INVALID_ARG, s))"

section \<open>What an accepted image is\<close>

text \<open>Chunk \<open>i\<close> of an image, and the digest the array gives for it.\<close>

definition image_chunk :: "u8 list \<Rightarrow> nat \<Rightarrow> nat \<Rightarrow> u8 list" where
  "image_chunk img cs i = take cs (drop (i * cs) img)"

definition hash_entry :: "u8 list \<Rightarrow> nat \<Rightarrow> u8 list" where
  "hash_entry hashes i = slice_of (i * 32) 32 hashes"

fun chunks_match :: "(u8 list \<Rightarrow> u8 list) \<Rightarrow> nat \<Rightarrow> nat \<Rightarrow> u8 list \<Rightarrow> u8 list \<Rightarrow> bool" where
  "chunks_match H cs 0 img hashes \<longleftrightarrow> True"
| "chunks_match H cs (Suc n) img hashes \<longleftrightarrow>
     H (take cs img) = take 32 hashes \<and> chunks_match H cs n (drop cs img) (drop 32 hashes)"

lemma chunks_match_iff:
  "chunks_match H cs n img hashes \<longleftrightarrow> (\<forall>i < n. H (image_chunk img cs i) = hash_entry hashes i)"
proof (induction n arbitrary: img hashes)
  case (Suc n)
  show ?case
    by (auto simp: Suc.IH All_less_Suc2 image_chunk_def hash_entry_def slice_of_def add.commute)
qed simp

text \<open>
  What the verification relies on: the flash contract, a mandatory watchdog, and a hash engine
  computing a function \<open>H\<close> with 32-byte values without touching the flash.
\<close>

locale hash_device = flash_contract p fl mem live total sec walign + hash_contract c H absorbed mem live
  for p :: "'s platform" and fl mem live total sec walign and c :: "'s crypto_hal" and H absorbed +
  assumes crypto_ptr: "pf_crypto p = Some c"
    and wdt_ptr: "\<exists>w k. pf_wdt p = Some w \<and> wh_kick w = Some k"
begin

lemma check_chunk_iff:
  assumes "live s" "length expected = 32"
  obtains ctx' s' where "merkle_check_chunk c ctx d expected s =
      (if H d = expected then BOOT_OK else BOOT_ERR_VERIFY, ctx', s')"
    and "mem s' = mem s" and "live s'"
proof -
  have e: "fill_prefix (H d) (zeroed 32) = H d" using H_len [of d] by (simp add: fill_prefix_def)
  have m: "constant_time_memcmp_glitch_safe (H d) expected 32 =
      (if H d = expected then BOOT_OK else BOOT_ERR_VERIFY)"
    using memcmp_iff [of 32 "H d" expected] H_len [of d] assms(2)
    by (auto simp: constant_time_memcmp_glitch_safe_def split: prod.splits if_splits)
  from hash_once [OF assms(1), of ctx d] show thesis
    using that by (auto simp: merkle_check_chunk_def BOOT_MERKLE_HASH_LEN_def e m)
qed

lemma loop_iff:
  assumes "live s" "unat addr + unat remaining \<le> total" "0 < unat chunk" "n * 32 \<le> length hashes"
    "unat remaining \<le> n * unat chunk" "n = 0 \<or> (n - 1) * unat chunk < unat remaining"
  shows "\<exists>stat rem s'. merkle_loop p fl c chunk n addr remaining hashes ctx s = (stat, rem, s') \<and>
    (if chunks_match H (unat chunk) n (slice_of (unat addr) (unat remaining) (mem s)) hashes
     then stat = BOOT_OK \<and> rem = 0 else stat = BOOT_ERR_VERIFY)"
  using assms
proof (induction n arbitrary: addr remaining hashes ctx s)
  case 0
  then show ?case by (simp add: unsigned_eq_0_iff)
next
  case (Suc n)
  define rl where "rl = (if remaining < chunk then remaining else chunk)"
  have rl: "unat rl = min (unat remaining) (unat chunk)" by (auto simp: rl_def word_less_nat_alt)
  then have rl_le: "unat addr + unat rl \<le> total" using Suc.prems(2) by simp
  have k: "live (wdt_kick p s)" "mem (wdt_kick p s) = mem s" using Suc.prems by (simp_all add: wdt_laws)
  obtain s1 where r: "fh_read fl addr (unat rl) (wdt_kick p s) = (BOOT_OK, slice_of (unat addr) (unat rl) (mem s), s1)"
      "mem s1 = mem s" "live s1"
    using readE [OF k(1), of addr "unat rl"] k(2) rl_le Suc.prems(2) by auto
  have k1: "live (wdt_kick p s1)" "mem (wdt_kick p s1) = mem s" using r by (simp_all add: wdt_laws)
  have ex: "length (take 32 hashes) = 32" using Suc.prems(4) by simp
  obtain ctx' s2 where ck: "merkle_check_chunk c ctx (slice_of (unat addr) (unat rl) (mem s)) (take 32 hashes)
        (wdt_kick p s1) = (if H (slice_of (unat addr) (unat rl) (mem s)) = take 32 hashes
           then BOOT_OK else BOOT_ERR_VERIFY, ctx', s2)" "mem s2 = mem s" "live s2"
    using check_chunk_iff [OF k1(1) ex] k1(2) by metis
  have sp: "take (unat chunk) (slice_of (unat addr) (unat remaining) (mem s)) = slice_of (unat addr) (unat rl) (mem s)"
    by (simp add: slice_of_def rl min.commute)
  have a: "unat (addr + rl) = unat addr + unat rl"
    using Suc.prems(2) rl total_addr by (intro unat_add_no_wrap) simp
  have rm: "unat (remaining - rl) = unat remaining - unat rl" using rl by (intro unat_sub_no_wrap) simp
  have dr: "drop (unat chunk) (slice_of (unat addr) (unat remaining) (mem s)) =
      slice_of (unat (addr + rl)) (unat (remaining - rl)) (mem s)"
    by (cases "unat remaining \<le> unat chunk")
      (auto simp: slice_of_def a rm rl drop_take min_def add.commute)
  show ?case
  proof (cases "H (slice_of (unat addr) (unat rl) (mem s)) = take 32 hashes")
    case False
    then show ?thesis
      by (simp add: Let_def rl_def [symmetric] r(1) ck(1) BOOT_MERKLE_HASH_LEN_def sp)
  next
    case True
    have "\<exists>stat rem s'. merkle_loop p fl c chunk n (addr + rl) (remaining - rl) (drop 32 hashes) ctx' s2 =
        (stat, rem, s') \<and>
      (if chunks_match H (unat chunk) n (slice_of (unat (addr + rl)) (unat (remaining - rl)) (mem s2)) (drop 32 hashes)
       then stat = BOOT_OK \<and> rem = 0 else stat = BOOT_ERR_VERIFY)"
    proof (rule Suc.IH [OF ck(3)])
      show "unat (addr + rl) + unat (remaining - rl) \<le> total" using a rm rl Suc.prems(2) by simp
      show "0 < unat chunk" by (rule Suc.prems(3))
      show "n * 32 \<le> length (drop 32 hashes)" using Suc.prems(4) by simp
      show "unat (remaining - rl) \<le> n * unat chunk"
        using rm rl Suc.prems(5) by (auto simp: min_def le_diff_conv add.commute)
      show "n = 0 \<or> (n - 1) * unat chunk < unat (remaining - rl)"
        using rm rl Suc.prems(6) by (cases n) (auto simp: min_def)
    qed
    then show ?thesis using True
      by (simp add: Let_def rl_def [symmetric] r(1) ck(1,2) BOOT_MERKLE_HASH_LEN_def sp dr)
  qed
qed

end

section \<open>The guards, over the natural numbers\<close>

definition merkle_args_ok ::
  "'s flash_hal \<Rightarrow> u32 \<Rightarrow> u32 \<Rightarrow> u32 \<Rightarrow> u32 \<Rightarrow> u32 \<Rightarrow> u32 \<Rightarrow> nat \<Rightarrow> bool" where
  "merkle_args_ok fl addr isz chunk hashes_addr hashes_len num arena_size \<longleftrightarrow>
     isz \<noteq> 0 \<and> chunk \<noteq> 0 \<and> hashes_addr \<noteq> 0 \<and>
     unat addr + unat isz \<le> 4294967295 \<and>
     unat num * unat chunk \<le> 4294967295 \<and>
     unat num * 32 \<le> unat hashes_len \<and>
     unat hashes_addr + unat num * 32 \<le> 4294967295 \<and>
     chunk \<le> fh_max_sector_size fl \<and>
     (fh_write_align fl = 0 \<or> unat chunk mod unat (fh_write_align fl) = 0) \<and>
     unat chunk \<le> arena_size \<and>
     unat num = (unat isz + unat chunk - 1) div unat chunk"

lemma u32_not_less_sub: "\<not> UINT32_MAX - a < b \<longleftrightarrow> unat a + unat b \<le> 4294967295" for a b :: u32
  using unat_u32_le_max [of a]
  by (auto simp: word_less_nat_alt unat_sub_no_wrap)

lemma u32_not_greater_div:
  "c \<noteq> 0 \<Longrightarrow> \<not> n > UINT32_MAX div c \<longleftrightarrow> unat n * unat c \<le> 4294967295" for n c :: u32
  by (simp add: word_less_nat_alt not_less unat_div_distrib less_eq_div_iff_mult_less_eq unat_gt_0)

lemma merkle_bounds_iff:
  assumes "chunk \<noteq> 0" "isz \<noteq> 0" "hashes_addr \<noteq> 0"
  shows "merkle_bounds fl addr isz chunk hashes_addr hashes_len num arena_size = BOOT_OK \<longleftrightarrow>
    merkle_args_ok fl addr isz chunk hashes_addr hashes_len num arena_size"
proof -
  have m32: "\<not> num > UINT32_MAX div 32 \<longleftrightarrow> unat num * 32 \<le> 4294967295"
    using u32_not_greater_div [of 32 num] by simp
  have al: "(fh_write_align fl > 0 \<longrightarrow> chunk mod ucast (fh_write_align fl) = 0) \<longleftrightarrow>
      fh_write_align fl = 0 \<or> unat chunk mod unat (fh_write_align fl) = 0"
    by (auto simp: word_gt_0 word_unat_eq_iff [of "chunk mod _"] unat_mod_distrib)
  have n: "num = isz div chunk + (if isz mod chunk > 0 then 1 else 0) \<longleftrightarrow>
      unat num = (unat isz + unat chunk - 1) div unat chunk"
    using unat_ceil_u32 [OF assms(1), of isz] by (simp add: word_unat_eq_iff [of num] word_gt_0)
  have "merkle_bounds fl addr isz chunk hashes_addr hashes_len num arena_size = BOOT_OK \<longleftrightarrow>
      \<not> UINT32_MAX - addr < isz \<and> \<not> num > UINT32_MAX div chunk \<and> \<not> num > UINT32_MAX div 32 \<and>
      \<not> num * 32 > hashes_len \<and> \<not> hashes_addr > UINT32_MAX - num * 32 \<and>
      \<not> chunk > fh_max_sector_size fl \<and>
      (fh_write_align fl > 0 \<longrightarrow> chunk mod ucast (fh_write_align fl) = 0) \<and>
      \<not> arena_size < unat chunk \<and> num = isz div chunk + (if isz mod chunk > 0 then 1 else 0)"
    unfolding merkle_bounds_def BOOT_MERKLE_HASH_LEN_def by (simp only: of_nat_numeral) simp
  also have "\<dots> \<longleftrightarrow> merkle_args_ok fl addr isz chunk hashes_addr hashes_len num arena_size"
  proof (cases "unat num * 32 \<le> 4294967295")
    case True
    then have u: "unat (num * 32) = unat num * 32" by (simp add: unat_word_ariths)
    have h: "\<not> hashes_addr > UINT32_MAX - num * 32 \<longleftrightarrow> unat hashes_addr + unat num * 32 \<le> 4294967295"
      using u32_not_less_sub [of "num * 32" hashes_addr] u by (simp only: not_less word_le_nat_alt add.commute)
    have l: "\<not> num * 32 > hashes_len \<longleftrightarrow> unat num * 32 \<le> unat hashes_len"
      using u by (simp only: not_less word_le_nat_alt)
    show ?thesis
      unfolding merkle_args_ok_def u32_not_less_sub u32_not_greater_div [OF assms(1)] m32 h l al n
      using True assms by (simp only: not_less simp_thms u add.commute)
  next
    case False
    then have "\<not> unat hashes_addr + unat num * 32 \<le> 4294967295" by linarith
    then show ?thesis unfolding m32 merkle_args_ok_def using False by (simp only: simp_thms)
  qed
  finally show ?thesis .
qed

context hash_device
begin

lemma verify_stream_iff:
  assumes "live s" "unat addr + unat isz \<le> total" "arena_ptr" "length hashes = unat hashes_len"
  shows "fst (boot_merkle_verify_stream p addr isz chunk hashes_addr hashes hashes_len num arena_ptr
       arena_size s) = BOOT_OK \<longleftrightarrow>
     merkle_args_ok fl addr isz chunk hashes_addr hashes_len num arena_size \<and>
     (\<forall>i < unat num. H (image_chunk (slice_of (unat addr) (unat isz) (mem s)) (unat chunk) i) =
        hash_entry hashes i)"
proof -
  obtain w k where w: "pf_wdt p = Some w" "wh_kick w = Some k" using wdt_ptr by blast
  show ?thesis
  proof (cases "merkle_args_ok fl addr isz chunk hashes_addr hashes_len num arena_size")
    case False
    then show ?thesis
      using merkle_bounds_iff [of chunk isz hashes_addr fl addr hashes_len num arena_size]
      by (auto simp: boot_merkle_verify_stream_def w crypto_ptr flash_ptr Let_def split: prod.splits)
  next
    case True
    note ok = True [unfolded merkle_args_ok_def]
    have c: "0 < unat chunk" "0 < unat isz" using ok by (simp_all add: unat_gt_0)
    have b: "unat isz \<le> unat num * unat chunk" "(unat num - 1) * unat chunk < unat isz" "num \<noteq> 0"
      using nat_ceil_cover [OF c(1), of "unat isz"] ok c(2) by auto
    obtain stat rem s' where r: "merkle_loop p fl c chunk (unat num) addr isz hashes (zeroed 256) s = (stat, rem, s')"
      "if chunks_match H (unat chunk) (unat num) (slice_of (unat addr) (unat isz) (mem s)) hashes
       then stat = BOOT_OK \<and> rem = 0 else stat = BOOT_ERR_VERIFY"
      using loop_iff [OF assms(1,2) c(1), of "unat num" hashes "zeroed 256"] ok b assms(4) by auto
    have ar: "unat chunk \<le> arena_size" "unat num * 32 \<le> unat hashes_len"
      using ok by blast+
    have "0 < unat num" using b(3) by (simp only: unat_gt_0 not_False_eq_True)
    then have "arena_size \<noteq> 0" "hashes_len \<noteq> 0" using c ar by auto
    then show ?thesis
      using merkle_bounds_iff [of chunk isz hashes_addr fl addr hashes_len num arena_size] True ok r b
        ctx_fits assms(3)
      by (auto simp: boot_merkle_verify_stream_def w crypto_ptr flash_ptr Let_def chunks_match_iff
          BOOT_MERKLE_MAX_CTX_SIZE_def split: if_splits)
  qed
qed

end

section \<open>The sandbox device\<close>

interpretation sandbox: hash_device small_sandbox small_port fm_file "model_live 64 16 1 0xFF" 64 16 1
    "sandbox_crypto_hal (Pair 4)" sandbox_hash "\<lambda>_ _ _. True"
  by (intro hash_device.intro sandbox_flash.flash_contract_axioms sandbox_engine.hash_contract_axioms,
      unfold_locales)
    (simp_all add: small_sandbox_def)

section \<open>Properties\<close>

text \<open>
  C24. On a device with a working flash, watchdog and hash engine, an image inside the flash verifies
  exactly when the arguments are consistent (no 32-bit overflow of any address or product, as many
  hashes as chunks, a chunk that fits arena and sector) and the hash of every chunk, the short last
  one included, is the corresponding 32-byte entry of the hash array: nothing is skipped and nothing
  beyond the image is hashed.
\<close>

theorem merkle_accepts_iff_all_chunks_match:
  assumes "hash_device p fl mem live tot sec wa c H absorbed" and "live s"
    and "unat addr + unat isz \<le> tot" and "arena_ptr" and "length hashes = unat hashes_len"
  shows "fst (boot_merkle_verify_stream p addr isz chunk hashes_addr hashes hashes_len num arena_ptr
       arena_size s) = BOOT_OK \<longleftrightarrow>
     merkle_args_ok fl addr isz chunk hashes_addr hashes_len num arena_size \<and>
     (\<forall>i < unat num. H (image_chunk (slice_of (unat addr) (unat isz) (mem s)) (unat chunk) i) =
        hash_entry hashes i)"
  by (rule hash_device.verify_stream_iff [OF assms])

lemma merkle_accepts_iff_all_chunks_match_witness:
  "fst (boot_merkle_verify_stream small_sandbox 8 40 16 0x1000 (replicate 96 0) 96 3 True 16
     (small_device (replicate 64 7))) = BOOT_OK"
proof -
  have "merkle_args_ok small_port 8 40 16 0x1000 96 3 16"
    by (simp add: merkle_args_ok_def small_port_def)
  moreover have "hash_entry (replicate 96 0) i = replicate 32 0" if "i < 3" for i
    using that by (simp add: hash_entry_def slice_of_def min_def)
  ultimately show ?thesis
    using merkle_accepts_iff_all_chunks_match [OF sandbox.hash_device_axioms
        small_device_live [of "replicate 64 7"], where addr = 8 and isz = 40 and arena_ptr = True and hashes = "replicate 96 0"
        and hashes_len = 96 and chunk = 16 and hashes_addr = "0x1000" and num = 3 and arena_size = 16]
    by (simp add: sandbox_hash_def)
qed

end
