(* ===== verification/Boot_Identity.thy ===== *)
theory Boot_Identity
  imports Boot_Merkle
begin

text \<open>
  Key derivation from the chip identity (\<open>core/utils/boot_identity.c\<close>): the device id and the key
  of the journal chain are \<open>H(uid, root key, domain separator)\<close>. A \<open>memcpy\<close> into a zeroized buffer
  is \<open>fill_prefix\<close>.
\<close>

text \<open>The byte values of the two separator strings.\<close>

definition device_id_separator :: "u8 list" where
  "device_id_separator = map of_char ''toob-device-id-v1''"

definition journal_key_separator :: "u8 list" where
  "journal_key_separator = map of_char ''toob-journal-key-v1''"

fun hash_update_all ::
  "'s crypto_hal \<Rightarrow> u8 list list \<Rightarrow> u8 list \<Rightarrow> 's \<Rightarrow> boot_status \<times> u8 list \<times> 's" where
  "hash_update_all c [] ctx s = (BOOT_OK, ctx, s)"
| "hash_update_all c (d # ds) ctx s =
     (case ch_hash_update c ctx d s of (status, ctx, s) \<Rightarrow>
        if status \<noteq> BOOT_OK then (status, ctx, s) else hash_update_all c ds ctx s)"

definition kdf_core ::
  "'s crypto_hal \<Rightarrow> (nat \<Rightarrow> 's \<Rightarrow> boot_status \<times> u8 list \<times> nat \<times> 's) \<Rightarrow>
   (nat \<Rightarrow> u8 \<Rightarrow> 's \<Rightarrow> boot_status \<times> u8 list \<times> 's) \<Rightarrow> u8 list \<Rightarrow> 's \<Rightarrow> boot_status \<times> u8 list \<times> 's" where
  "kdf_core c read_chip_uid read_pubkey domain_sep s =
     (case read_chip_uid 32 s of (status, d, uid_len, s) \<Rightarrow>
        if status \<noteq> BOOT_OK \<or> uid_len = 0 \<or> uid_len > 32
        then (if status \<noteq> BOOT_OK then status else BOOT_ERR_INVALID_ARG, zeroed 32, s)
        else
          let uid = fill_prefix d (zeroed 32)
          in case read_pubkey 32 0 s of (status, d, s) \<Rightarrow>
               if status \<noteq> BOOT_OK then (status, zeroed 32, s)
               else
                 let pubkey = fill_prefix d (zeroed 32)
                 in case ch_hash_init c (zeroed BOOT_MERKLE_MAX_CTX_SIZE) s of (status, ctx, s) \<Rightarrow>
                      if status \<noteq> BOOT_OK then (status, zeroed 32, s)
                      else case hash_update_all c [take uid_len uid, pubkey, domain_sep] ctx s of
                        (status, ctx, s) \<Rightarrow>
                          if status = BOOT_OK then
                            (case ch_hash_finish c ctx 32 s of (status, d, dl, s) \<Rightarrow>
                               (status, fill_prefix d (zeroed 32), s))
                          else
                            (case ch_hash_finish c ctx 64 s of (_, _, _, s) \<Rightarrow>
                               (status, zeroed 32, s)))"

definition boot_kdf_checked ::
  "'s platform \<Rightarrow> u8 list \<Rightarrow> 's \<Rightarrow> boot_status \<times> u8 list \<times> 's" where
  "boot_kdf_checked p domain_sep s =
     (case pf_crypto p of
        None \<Rightarrow> (BOOT_ERR_INVALID_ARG, zeroed 32, s)
      | Some c \<Rightarrow>
          (case (ch_read_chip_uid c, ch_read_pubkey c) of
             (Some read_chip_uid, Some read_pubkey) \<Rightarrow>
               if ch_get_hash_ctx_size c > BOOT_MERKLE_MAX_CTX_SIZE
               then (BOOT_ERR_INVALID_ARG, zeroed 32, s)
               else kdf_core c read_chip_uid read_pubkey domain_sep s
           | _ \<Rightarrow> (BOOT_ERR_INVALID_ARG, zeroed 32, s)))"

text \<open>
  \<open>out_key\<close> of the failing paths is what the code leaves there: zeros. (Before the prerequisites
  are checked it is not written; the callers zeroize it themselves.)
\<close>

definition boot_derive_device_id :: "'s platform \<Rightarrow> 's \<Rightarrow> boot_status \<times> u8 list \<times> 's" where
  "boot_derive_device_id p s = boot_kdf_checked p device_id_separator s"

definition boot_derive_journal_key :: "'s platform \<Rightarrow> 's \<Rightarrow> boot_status \<times> u8 list \<times> 's" where
  "boot_derive_journal_key p s =
     (case boot_kdf_checked p journal_key_separator s of (status, full_digest, s) \<Rightarrow>
        (status, if status = BOOT_OK then take 16 full_digest else zeroed 16, s))"

context hash_contract
begin

lemma update_all:
  assumes "live s" "absorbed ctx s xs"
  shows "\<exists>x s'. hash_update_all c ds ctx s = (BOOT_OK, x, s') \<and> absorbed x s' (xs @ concat ds) \<and>
     mem s' = mem s \<and> live s'"
  using assms
proof (induction ds arbitrary: ctx s xs)
  case (Cons d ds)
  obtain x s1 where 1: "ch_hash_update c ctx d s = (BOOT_OK, x, s1)" "absorbed x s1 (xs @ d)"
    "mem s1 = mem s" "live s1" using update_law [OF Cons.prems] by blast
  from Cons.IH [OF 1(4,2)] show ?case using 1 by auto
qed auto

lemma kdf_core_ok:
  assumes "live s" "uidf 32 s = (BOOT_OK, uid, length uid, s1)" "uid \<noteq> []" "length uid \<le> 32"
    "pkf 32 0 s1 = (BOOT_OK, pk, s2)" "length pk = 32" "live s2" "mem s2 = mem s"
  shows "\<exists>s'. kdf_core c uidf pkf sep s = (BOOT_OK, H (uid @ pk @ sep), s') \<and> mem s' = mem s \<and> live s'"
proof -
  obtain x s3 where 3: "ch_hash_init c (zeroed 256) s2 = (BOOT_OK, x, s3)" "absorbed x s3 []"
    "mem s3 = mem s2" "live s3" using init_law [OF assms(7)] by blast
  obtain y s4 where 4: "hash_update_all c [uid, pk, sep] x s3 = (BOOT_OK, y, s4)"
    "absorbed y s4 (uid @ pk @ sep)" "mem s4 = mem s3" "live s4"
    using update_all [OF 3(4,2), of "[uid, pk, sep]"] by auto
  obtain s5 where 5: "ch_hash_finish c y 32 s4 = (BOOT_OK, H (uid @ pk @ sep), 32, s5)"
    "mem s5 = mem s4" "live s5" using finish_law [OF 4(4,2)] by blast
  have f: "fill_prefix (H (uid @ pk @ sep)) (zeroed 32) = H (uid @ pk @ sep)"
    "fill_prefix pk (zeroed 32) = pk" "take (length uid) (fill_prefix uid (zeroed 32)) = uid"
    using assms(6) H_len by (simp_all add: fill_prefix_def)
  show ?thesis using 3 5 assms
    by (simp add: kdf_core_def f 4 BOOT_MERKLE_MAX_CTX_SIZE_def Let_def del: hash_update_all.simps)
qed

end

end
