(* ===== verification/Journal_Wire.thy ===== *)
theory Journal_Wire
  imports Boot_Crc32 Boot_Ct_Utils
begin

text \<open>
  The flash format of the write-ahead log: \<open>common/include/toob_wal_wire.h\<close> and
  \<open>core/include/boot_journal.h\<close>. Entries, TMR payloads and sector headers are records, with the
  byte image the packed C structs have and the way back; copying a struct is copying its bytes.
\<close>

section \<open>Entries\<close>

definition WAL_ENTRY_MAGIC :: u32 where "WAL_ENTRY_MAGIC = 0xB007BEEF"
definition WAL_ABI_VERSION_MAGIC_LEGACY :: u32 where "WAL_ABI_VERSION_MAGIC_LEGACY = 0x57414C02"
definition WAL_ABI_VERSION_MAGIC_CURRENT :: u32 where "WAL_ABI_VERSION_MAGIC_CURRENT = 0x57414C03"

text \<open>\<open>toob_wal_intent_t\<close>; the field holding it is a 32-bit number.\<close>

definition WAL_INTENT_NONE :: u32 where "WAL_INTENT_NONE = 0"
definition WAL_INTENT_TXN_BEGIN :: u32 where "WAL_INTENT_TXN_BEGIN = 1"
definition WAL_INTENT_UPDATE_PENDING :: u32 where "WAL_INTENT_UPDATE_PENDING = 2"
definition WAL_INTENT_TXN_COMMIT :: u32 where "WAL_INTENT_TXN_COMMIT = 3"
definition WAL_INTENT_CONFIRM_COMMIT :: u32 where "WAL_INTENT_CONFIRM_COMMIT = 4"
definition WAL_INTENT_RECOVERY_RESOLVED :: u32 where "WAL_INTENT_RECOVERY_RESOLVED = 5"
definition WAL_INTENT_TXN_ROLLBACK :: u32 where "WAL_INTENT_TXN_ROLLBACK = 6"
definition WAL_INTENT_DEPRECATED_NONCE :: u32 where "WAL_INTENT_DEPRECATED_NONCE = 7"
definition WAL_INTENT_NET_SEARCH_ACCUM :: u32 where "WAL_INTENT_NET_SEARCH_ACCUM = 8"
definition WAL_INTENT_SLEEP_BACKOFF :: u32 where "WAL_INTENT_SLEEP_BACKOFF = 9"
definition WAL_INTENT_TXN_ROLLBACK_PENDING :: u32 where "WAL_INTENT_TXN_ROLLBACK_PENDING = 10"
definition WAL_INTENT_DOWNLOAD_CHECKPOINT :: u32 where "WAL_INTENT_DOWNLOAD_CHECKPOINT = 11"
definition WAL_INTENT_CLOUD_CMD :: u32 where "WAL_INTENT_CLOUD_CMD = 12"
definition WAL_INTENT_DEVICE_LOCKED :: u32 where "WAL_INTENT_DEVICE_LOCKED = 13"

lemmas wal_intent_defs = WAL_INTENT_NONE_def WAL_INTENT_TXN_BEGIN_def WAL_INTENT_UPDATE_PENDING_def
  WAL_INTENT_TXN_COMMIT_def WAL_INTENT_CONFIRM_COMMIT_def WAL_INTENT_RECOVERY_RESOLVED_def
  WAL_INTENT_TXN_ROLLBACK_def WAL_INTENT_DEPRECATED_NONCE_def WAL_INTENT_NET_SEARCH_ACCUM_def
  WAL_INTENT_SLEEP_BACKOFF_def WAL_INTENT_TXN_ROLLBACK_PENDING_def
  WAL_INTENT_DOWNLOAD_CHECKPOINT_def WAL_INTENT_CLOUD_CMD_def WAL_INTENT_DEVICE_LOCKED_def

definition wal_intent_is_security_bearing :: "u32 \<Rightarrow> bool" where
  "wal_intent_is_security_bearing intent \<longleftrightarrow>
     intent = WAL_INTENT_DEVICE_LOCKED \<or> intent = WAL_INTENT_CONFIRM_COMMIT \<or>
     intent = WAL_INTENT_TXN_COMMIT"

record wal_entry_payload =
  we_magic :: u32
  we_intent :: u32
  we_expected_nonce :: u64
  we_update_deadline :: u16
  we_transport_id :: u8
  we_pad_txn :: u8
  we_transfer_bitmap :: "u32 list"
  we_delta_chunk_id :: u32
  we_offset :: u32
  we_crc32_trailer :: u32

definition entry_body :: "wal_entry_payload \<Rightarrow> u8 list" where
  "entry_body e = to_le32 (we_magic e) @ to_le32 (we_intent e) @ to_le64 (we_expected_nonce e) @
     to_le16 (we_update_deadline e) @ [we_transport_id e, we_pad_txn e] @
     concat (map to_le32 (we_transfer_bitmap e)) @ to_le32 (we_delta_chunk_id e) @
     to_le32 (we_offset e)"

definition entry_bytes :: "wal_entry_payload \<Rightarrow> u8 list" where
  "entry_bytes e = entry_body e @ to_le32 (we_crc32_trailer e)"

definition rd64 :: "nat \<Rightarrow> u8 list \<Rightarrow> u64" where
  "rd64 off b = ucast (rd32 off b) OR push_bit 32 (ucast (rd32 (off + 4) b))"

definition entry_of :: "u8 list \<Rightarrow> wal_entry_payload" where
  "entry_of b = \<lparr> we_magic = rd32 0 b, we_intent = rd32 4 b, we_expected_nonce = rd64 8 b,
     we_update_deadline = rd16 16 b, we_transport_id = rd8 18 b, we_pad_txn = rd8 19 b,
     we_transfer_bitmap = map (\<lambda>i. rd32 (20 + 4 * i) b) [0..<8],
     we_delta_chunk_id = rd32 52 b, we_offset = rd32 56 b, we_crc32_trailer = rd32 60 b \<rparr>"

definition entry_crc :: "wal_entry_payload \<Rightarrow> u32" where
  "entry_crc e = compute_boot_crc32 (entry_body e)"

definition WAL_ENTRY_SIZE :: nat where "WAL_ENTRY_SIZE = 64"
definition WAL_HEADER_SIZE :: nat where "WAL_HEADER_SIZE = 128"

datatype wal_entry_state = WAL_E_ERASED | WAL_E_VALID | WAL_E_CORRUPT

definition classify_entry :: "u8 list \<Rightarrow> u8 \<Rightarrow> wal_entry_state" where
  "classify_entry raw erased_val =
     (if is_fully_erased_constant_time raw erased_val then WAL_E_ERASED
      else if we_magic (entry_of raw) = WAL_ENTRY_MAGIC \<and>
              compute_boot_crc32 (take 60 raw) = we_crc32_trailer (entry_of raw)
      then WAL_E_VALID
      else WAL_E_CORRUPT)"

section \<open>The TMR payload\<close>

record wal_tmr_payload =
  tm_struct_version :: u16
  tm_populated_size :: u16
  tm_primary_slot_id :: u32
  tm_active_stage1_bank :: u32
  tm_app_svn :: u32
  tm_boot_failure_counter :: u32
  tm_svn_recovery_counter :: u32
  tm_app_slot_erase_counter :: u32
  tm_staging_slot_erase_counter :: u32
  tm_swap_buffer_erase_counter :: u32
  tm_active_nonce_lo :: u32
  tm_active_nonce_hi :: u32
  tm_deprecated_kdm_sequence :: u32
  tm_deprecated_active_kdm_slot :: u32
  tm_stage1_svn :: u32
  tm_chain_tag :: "u8 list"
  tm_chain_entry_count :: u32
  tm_last_mbx_request_id :: u32
  tm_recovery_failure_counter :: u32
  tm_active_app_slot :: u8
  tm_active_transport_id :: u8
  tm_pad_tmr :: "u8 list"
  tm_last_accepted_issued_at :: u32
  tm_reserved :: "u8 list"

definition tmr_bytes :: "wal_tmr_payload \<Rightarrow> u8 list" where
  "tmr_bytes t = to_le16 (tm_struct_version t) @ to_le16 (tm_populated_size t) @
     to_le32 (tm_primary_slot_id t) @ to_le32 (tm_active_stage1_bank t) @ to_le32 (tm_app_svn t) @
     to_le32 (tm_boot_failure_counter t) @ to_le32 (tm_svn_recovery_counter t) @
     to_le32 (tm_app_slot_erase_counter t) @ to_le32 (tm_staging_slot_erase_counter t) @
     to_le32 (tm_swap_buffer_erase_counter t) @ to_le32 (tm_active_nonce_lo t) @
     to_le32 (tm_active_nonce_hi t) @ to_le32 (tm_deprecated_kdm_sequence t) @
     to_le32 (tm_deprecated_active_kdm_slot t) @ to_le32 (tm_stage1_svn t) @ tm_chain_tag t @
     to_le32 (tm_chain_entry_count t) @ to_le32 (tm_last_mbx_request_id t) @
     to_le32 (tm_recovery_failure_counter t) @ [tm_active_app_slot t, tm_active_transport_id t] @
     tm_pad_tmr t @ to_le32 (tm_last_accepted_issued_at t) @ tm_reserved t"

definition tmr_of :: "u8 list \<Rightarrow> wal_tmr_payload" where
  "tmr_of b = \<lparr> tm_struct_version = rd16 0 b, tm_populated_size = rd16 2 b,
     tm_primary_slot_id = rd32 4 b, tm_active_stage1_bank = rd32 8 b, tm_app_svn = rd32 12 b,
     tm_boot_failure_counter = rd32 16 b, tm_svn_recovery_counter = rd32 20 b,
     tm_app_slot_erase_counter = rd32 24 b, tm_staging_slot_erase_counter = rd32 28 b,
     tm_swap_buffer_erase_counter = rd32 32 b, tm_active_nonce_lo = rd32 36 b,
     tm_active_nonce_hi = rd32 40 b, tm_deprecated_kdm_sequence = rd32 44 b,
     tm_deprecated_active_kdm_slot = rd32 48 b, tm_stage1_svn = rd32 52 b,
     tm_chain_tag = slice_of 56 16 b, tm_chain_entry_count = rd32 72 b,
     tm_last_mbx_request_id = rd32 76 b, tm_recovery_failure_counter = rd32 80 b,
     tm_active_app_slot = rd8 84 b, tm_active_transport_id = rd8 85 b,
     tm_pad_tmr = slice_of 86 2 b, tm_last_accepted_issued_at = rd32 88 b,
     tm_reserved = slice_of 92 20 b \<rparr>"

definition tmr_wf :: "wal_tmr_payload \<Rightarrow> bool" where
  "tmr_wf t \<longleftrightarrow> length (tm_chain_tag t) = 16 \<and> length (tm_pad_tmr t) = 2 \<and> length (tm_reserved t) = 20"

definition WAL_TMR_VERSION_CURRENT :: u16 where "WAL_TMR_VERSION_CURRENT = 7"
definition WAL_TMR_POPULATED_SIZE :: u16 where "WAL_TMR_POPULATED_SIZE = 92"

text \<open>The zeroized payload.\<close>

definition tmr_zero :: wal_tmr_payload where
  "tmr_zero = \<lparr> tm_struct_version = 0, tm_populated_size = 0, tm_primary_slot_id = 0,
     tm_active_stage1_bank = 0, tm_app_svn = 0, tm_boot_failure_counter = 0,
     tm_svn_recovery_counter = 0, tm_app_slot_erase_counter = 0, tm_staging_slot_erase_counter = 0,
     tm_swap_buffer_erase_counter = 0, tm_active_nonce_lo = 0, tm_active_nonce_hi = 0,
     tm_deprecated_kdm_sequence = 0, tm_deprecated_active_kdm_slot = 0, tm_stage1_svn = 0,
     tm_chain_tag = zeroed 16, tm_chain_entry_count = 0, tm_last_mbx_request_id = 0,
     tm_recovery_failure_counter = 0, tm_active_app_slot = 0, tm_active_transport_id = 0,
     tm_pad_tmr = zeroed 2, tm_last_accepted_issued_at = 0, tm_reserved = zeroed 20 \<rparr>"

record wal_tmr_payload_v1 =
  v1_primary_slot_id :: u32
  v1_active_stage1_bank :: u32
  v1_app_svn :: u32
  v1_boot_failure_counter :: u32
  v1_svn_recovery_counter :: u32
  v1_app_slot_erase_counter :: u32
  v1_staging_slot_erase_counter :: u32
  v1_swap_buffer_erase_counter :: u32
  v1_active_nonce_lo :: u32
  v1_active_nonce_hi :: u32
  v1_kdm_sequence :: u32
  v1_active_kdm_slot :: u32

definition tmr_v1_of :: "u8 list \<Rightarrow> wal_tmr_payload_v1" where
  "tmr_v1_of b = \<lparr> v1_primary_slot_id = rd32 0 b, v1_active_stage1_bank = rd32 4 b,
     v1_app_svn = rd32 8 b, v1_boot_failure_counter = rd32 12 b, v1_svn_recovery_counter = rd32 16 b,
     v1_app_slot_erase_counter = rd32 20 b, v1_staging_slot_erase_counter = rd32 24 b,
     v1_swap_buffer_erase_counter = rd32 28 b, v1_active_nonce_lo = rd32 32 b,
     v1_active_nonce_hi = rd32 36 b, v1_kdm_sequence = rd32 40 b, v1_active_kdm_slot = rd32 44 b \<rparr>"

text \<open>\<open>stage1_svn\<close> is the compile-time constant \<open>BOOT_STAGE1_SVN\<close>.\<close>

definition migrate_v1_tmr :: "u32 \<Rightarrow> wal_tmr_payload_v1 \<Rightarrow> wal_tmr_payload" where
  "migrate_v1_tmr stage1_svn src = tmr_zero \<lparr>
     tm_struct_version := WAL_TMR_VERSION_CURRENT, tm_populated_size := WAL_TMR_POPULATED_SIZE,
     tm_primary_slot_id := v1_primary_slot_id src, tm_active_stage1_bank := v1_active_stage1_bank src,
     tm_app_svn := v1_app_svn src, tm_boot_failure_counter := v1_boot_failure_counter src,
     tm_svn_recovery_counter := v1_svn_recovery_counter src,
     tm_app_slot_erase_counter := v1_app_slot_erase_counter src,
     tm_staging_slot_erase_counter := v1_staging_slot_erase_counter src,
     tm_swap_buffer_erase_counter := v1_swap_buffer_erase_counter src,
     tm_active_nonce_lo := v1_active_nonce_lo src, tm_active_nonce_hi := v1_active_nonce_hi src,
     tm_deprecated_kdm_sequence := v1_kdm_sequence src,
     tm_deprecated_active_kdm_slot := v1_active_kdm_slot src, tm_stage1_svn := stage1_svn \<rparr>"

definition upgrade_tmr_payload :: "u32 \<Rightarrow> wal_tmr_payload \<Rightarrow> wal_tmr_payload" where
  "upgrade_tmr_payload stage1_svn tmr =
     (let t = (if tm_struct_version tmr < 2 then tmr\<lparr>tm_stage1_svn := stage1_svn\<rparr> else tmr);
          t = (if tm_struct_version tmr < 4 then t\<lparr>tm_last_mbx_request_id := 0\<rparr> else t);
          t = (if tm_struct_version tmr < 5 then t\<lparr>tm_recovery_failure_counter := 0\<rparr> else t);
          t = (if tm_struct_version tmr < 6 then t\<lparr>tm_active_app_slot := 0, tm_active_transport_id := 0\<rparr> else t)
      in t\<lparr>tm_struct_version := WAL_TMR_VERSION_CURRENT, tm_populated_size := WAL_TMR_POPULATED_SIZE\<rparr>)"

section \<open>Sector headers\<close>

record wal_sector_header =
  hd_sector_magic :: u32
  hd_sequence_id :: u32
  hd_erase_count :: u32
  hd_tmr_data :: wal_tmr_payload
  hd_header_crc32 :: u32

definition header_body :: "wal_sector_header \<Rightarrow> u8 list" where
  "header_body h = to_le32 (hd_sector_magic h) @ to_le32 (hd_sequence_id h) @
     to_le32 (hd_erase_count h) @ tmr_bytes (hd_tmr_data h)"

definition header_bytes :: "wal_sector_header \<Rightarrow> u8 list" where
  "header_bytes h = header_body h @ to_le32 (hd_header_crc32 h)"

definition header_of :: "u8 list \<Rightarrow> wal_sector_header" where
  "header_of b = \<lparr> hd_sector_magic = rd32 0 b, hd_sequence_id = rd32 4 b, hd_erase_count = rd32 8 b,
     hd_tmr_data = tmr_of (drop 12 b), hd_header_crc32 = rd32 124 b \<rparr>"

definition header_zero :: wal_sector_header where
  "header_zero = \<lparr> hd_sector_magic = 0, hd_sequence_id = 0, hd_erase_count = 0,
     hd_tmr_data = tmr_zero, hd_header_crc32 = 0 \<rparr>"

definition sector_hdr_crc :: "wal_sector_header \<Rightarrow> u32" where
  "sector_hdr_crc h = compute_boot_crc32 (header_body h)"

text \<open>The legacy header is 64 bytes: three words, the v1 payload, the CRC at offset 60.\<close>

definition verify_header_crc_glitch_safe :: "u8 list \<Rightarrow> bool" where
  "verify_header_crc_glitch_safe raw =
     (let magic = hd_sector_magic (header_of raw)
      in if magic = WAL_ABI_VERSION_MAGIC_LEGACY then
           secure_require (compute_boot_crc32 (take 60 raw) = rd32 60 raw)
         else if magic = WAL_ABI_VERSION_MAGIC_CURRENT then
           secure_require (compute_boot_crc32 (take 124 raw) = rd32 124 raw)
         else False)"

text \<open>
  The majority vote over whole structs. Index 0 is the newest candidate and the answer when no two
  agree.
\<close>

definition tmr_same :: "wal_tmr_payload \<Rightarrow> wal_tmr_payload \<Rightarrow> bool" where
  "tmr_same a b \<longleftrightarrow> constant_time_memcmp_glitch_safe (tmr_bytes a) (tmr_bytes b) 112 = BOOT_OK"

definition tmr_majority_vote_idx :: "wal_tmr_payload list \<Rightarrow> nat \<Rightarrow> nat" where
  "tmr_majority_vote_idx c n =
     (if n \<ge> 2 \<and> tmr_same (c ! 0) (c ! 1) then 0
      else if n = 3 \<and> tmr_same (c ! 0) (c ! 2) then 0
      else if n = 3 \<and> tmr_same (c ! 1) (c ! 2) then 1
      else 0)"

section \<open>Bytes and back\<close>

lemma rd_skip [le_simps]:
  "length xs \<le> k \<Longrightarrow> rd32 k (xs @ r) = rd32 (k - length xs) r"
  "length xs \<le> k \<Longrightarrow> rd16 k (xs @ r) = rd16 (k - length xs) r"
  "length xs \<le> k \<Longrightarrow> rd8 k (xs @ r) = rd8 (k - length xs) r"
  "length xs \<le> k \<Longrightarrow> slice_of k n (xs @ r) = slice_of (k - length xs) n r"
  by (simp_all add: rd32_def rd16_def rd8_def slice_of_def nth_append)

lemma rd_here [le_simps]:
  "rd32 0 (to_le32 w @ r) = w" "rd16 0 (to_le16 v @ r) = v" "rd8 0 (x # r) = x"
  "rd8 (Suc k) (x # r) = rd8 k r" "length xs = n \<Longrightarrow> slice_of 0 n (xs @ r) = xs"
  by (simp_all add: rd32_def rd16_def rd8_def slice_of_def)

lemma rd_skip1 [le_simps]:
  "0 < k \<Longrightarrow> rd32 k (x # r) = rd32 (k - 1) r"
  "0 < k \<Longrightarrow> rd16 k (x # r) = rd16 (k - 1) r"
  "0 < k \<Longrightarrow> rd8 k (x # r) = rd8 (k - 1) r"
  "0 < k \<Longrightarrow> slice_of k n (x # r) = slice_of (k - 1) n r"
  by (simp_all add: rd32_def rd16_def rd8_def slice_of_def drop_Cons' nth_Cons')

lemma length_tmr_bytes [simp]: "tmr_wf t \<Longrightarrow> length (tmr_bytes t) = 112"
  by (simp add: tmr_bytes_def tmr_wf_def)

lemma tmr_roundtrip: "tmr_wf t \<Longrightarrow> tmr_of (tmr_bytes t @ r) = t"
  by (simp add: tmr_of_def tmr_bytes_def tmr_wf_def le_simps)

lemma tmr_bytes_inject: "tmr_wf a \<Longrightarrow> tmr_wf b \<Longrightarrow> tmr_bytes a = tmr_bytes b \<longleftrightarrow> a = b"
  by (metis append_Nil2 tmr_roundtrip)

lemma tmr_of_wf: "112 \<le> length b \<Longrightarrow> tmr_wf (tmr_of b)"
  by (simp add: tmr_of_def tmr_wf_def)

lemma tmr_zero_wf: "tmr_wf tmr_zero"
  by (simp add: tmr_zero_def tmr_wf_def)

lemma migrate_wf: "tmr_wf (migrate_v1_tmr v src)"
  by (simp add: migrate_v1_tmr_def tmr_wf_def tmr_zero_def)

lemma upgrade_wf [simp]: "tmr_wf (upgrade_tmr_payload v t) = tmr_wf t"
  by (simp add: upgrade_tmr_payload_def tmr_wf_def Let_def)

lemma tmr_same_iff: "tmr_wf a \<Longrightarrow> tmr_wf b \<Longrightarrow> tmr_same a b \<longleftrightarrow> a = b"
  using memcmp_iff [of 112 "tmr_bytes a" "tmr_bytes b"]
  by (simp add: tmr_same_def tmr_bytes_inject)

definition header_wf :: "wal_sector_header \<Rightarrow> bool" where
  "header_wf h \<longleftrightarrow> tmr_wf (hd_tmr_data h)"

lemma length_header_bytes [simp]:
  "header_wf h \<Longrightarrow> length (header_body h) = 124"
  "header_wf h \<Longrightarrow> length (header_bytes h) = 128"
  by (simp_all add: header_bytes_def header_body_def header_wf_def)

lemma header_roundtrip: "header_wf h \<Longrightarrow> header_of (header_bytes h @ r) = h"
proof -
  assume "header_wf h"
  then have t: "tmr_wf (hd_tmr_data h)" by (simp add: header_wf_def)
  have "drop 12 (header_bytes h @ r) = tmr_bytes (hd_tmr_data h) @ to_le32 (hd_header_crc32 h) @ r"
    by (simp add: header_bytes_def header_body_def)
  then show ?thesis using t
    by (simp add: header_of_def tmr_roundtrip)
      (simp add: header_bytes_def header_body_def le_simps)
qed

text \<open>A header whose CRC field is set passes verification, on the wire.\<close>

lemma verify_header_written:
  assumes "header_wf h" "hd_sector_magic h = WAL_ABI_VERSION_MAGIC_CURRENT"
    "hd_header_crc32 h = sector_hdr_crc h"
  shows "verify_header_crc_glitch_safe (header_bytes h @ r)"
proof -
  have t: "take 124 (header_bytes h @ r) = header_body h"
    using assms(1) by (simp add: header_bytes_def)
  have c: "rd32 124 (header_bytes h @ r) = hd_header_crc32 h"
    using arg_cong [OF header_roundtrip [OF assms(1), of r], of hd_header_crc32]
    by (simp add: header_of_def)
  show ?thesis using assms
    by (simp add: verify_header_crc_glitch_safe_def header_roundtrip t c sector_hdr_crc_def
        WAL_ABI_VERSION_MAGIC_CURRENT_def WAL_ABI_VERSION_MAGIC_LEGACY_def
        del: take_append)
qed

definition entry_wf :: "wal_entry_payload \<Rightarrow> bool" where
  "entry_wf e \<longleftrightarrow> length (we_transfer_bitmap e) = 8"

lemma concat_le32_length: "length (concat (map to_le32 ws)) = 4 * length ws"
  by (induction ws) simp_all

lemma rd32_concat_le32:
  "i < length ws \<Longrightarrow> rd32 (4 * i) (concat (map to_le32 ws) @ r) = ws ! i"
proof (induction ws arbitrary: i)
  case (Cons w ws)
  then show ?case by (cases i) (simp_all add: le_simps)
qed simp

lemma rd64_here [le_simps]: "rd64 0 (to_le64 w @ r) = w"
proof -
  have "rd64 0 (to_le64 w @ r) = ucast (ucast w :: u32) OR push_bit 32 (ucast (ucast (drop_bit 32 w) :: u32))"
    by (simp add: rd64_def to_le64_def le_simps)
  also have "\<dots> = w"
    by (rule bit_word_eqI) (auto simp: bit_or_iff bit_push_bit_iff bit_ucast_iff bit_drop_bit_eq
      simp del: push_bit_numeral)
  finally show ?thesis .
qed

lemma rd64_skip [le_simps]: "length xs \<le> k \<Longrightarrow> rd64 k (xs @ r) = rd64 (k - length xs) r"
  by (simp add: rd64_def rd_skip)

lemma length_entry_bytes [simp]:
  "entry_wf e \<Longrightarrow> length (entry_body e) = 60"
  "entry_wf e \<Longrightarrow> length (entry_bytes e) = 64"
  by (simp_all add: entry_bytes_def entry_body_def entry_wf_def concat_le32_length)

lemma entry_roundtrip:
  assumes "entry_wf e"
  shows "entry_of (entry_bytes e @ r) = e"
proof -
  have l: "length (we_transfer_bitmap e) = 8" using assms by (simp add: entry_wf_def)
  let ?t = "concat (map to_le32 (we_transfer_bitmap e))"
  have lt: "length ?t = 32" by (simp add: concat_le32_length l)
  have m: "map (\<lambda>i. rd32 (20 + 4 * i) (entry_bytes e @ r)) [0..<8] = we_transfer_bitmap e"
  proof (rule nth_equalityI)
    fix i assume "i < length (map (\<lambda>i. rd32 (20 + 4 * i) (entry_bytes e @ r)) [0..<8])"
    then have i: "i < 8" by simp
    have "rd32 (20 + 4 * i) (entry_bytes e @ r) = rd32 (4 * i) (?t @ to_le32 (we_delta_chunk_id e) @
        to_le32 (we_offset e) @ to_le32 (we_crc32_trailer e) @ r)"
      by (simp add: entry_bytes_def entry_body_def rd_skip rd_skip1 del: rd_here)
    then show "map (\<lambda>i. rd32 (20 + 4 * i) (entry_bytes e @ r)) [0..<8] ! i = we_transfer_bitmap e ! i"
      using i l by (simp add: rd32_concat_le32)
  qed (simp add: l)
  have "rd32 52 (entry_bytes e @ r) = we_delta_chunk_id e" "rd32 56 (entry_bytes e @ r) = we_offset e"
    "rd32 60 (entry_bytes e @ r) = we_crc32_trailer e"
    by (simp_all add: entry_bytes_def entry_body_def le_simps lt)
  moreover have "rd32 0 (entry_bytes e @ r) = we_magic e" "rd32 4 (entry_bytes e @ r) = we_intent e"
    "rd64 8 (entry_bytes e @ r) = we_expected_nonce e" "rd16 16 (entry_bytes e @ r) = we_update_deadline e"
    "rd8 18 (entry_bytes e @ r) = we_transport_id e" "rd8 19 (entry_bytes e @ r) = we_pad_txn e"
    by (simp_all add: entry_bytes_def entry_body_def le_simps)
  ultimately show ?thesis by (simp add: entry_of_def m)
qed

text \<open>An entry as \<open>boot_journal_append\<close> writes it is valid, unless it is all erased bytes.\<close>

lemma classify_written:
  assumes "entry_wf e" "we_magic e = WAL_ENTRY_MAGIC" "we_crc32_trailer e = entry_crc e"
  shows "classify_entry (entry_bytes e) ev = WAL_E_VALID"
proof -
  have r: "entry_of (entry_bytes e) = e" using entry_roundtrip [OF assms(1), of "[]"] by simp
  have t: "take 60 (entry_bytes e) = entry_body e" using assms(1) by (simp add: entry_bytes_def)
  have "entry_bytes e \<noteq> replicate (length (entry_bytes e)) ev"
  proof
    assume a: "entry_bytes e = replicate (length (entry_bytes e)) ev"
    have "take 4 (entry_bytes e) = to_le32 WAL_ENTRY_MAGIC"
      using assms(2) by (simp add: entry_bytes_def entry_body_def)
    moreover have "take 4 (entry_bytes e) = replicate 4 ev"
      using a assms(1) by (metis length_entry_bytes(2) take_replicate min_def le_numeral_extra(4)
          numeral_le_iff semiring_norm(71) semiring_norm(68))
    moreover have "to_le32 WAL_ENTRY_MAGIC = [0xEF, 0xBE, 0x07, 0xB0]"
      by (simp add: to_le32_def WAL_ENTRY_MAGIC_def word_eq_iff_unsigned unsigned_ucast_eq)
    ultimately have "ev = 0xEF" "ev = 0x07" by (auto simp: replicate_numeral)
    then show False by simp
  qed
  then show ?thesis using assms
    by (simp add: classify_entry_def is_fully_erased_iff r t entry_crc_def)
qed

text \<open>The vote: two equal candidates win; without a majority the newest does.\<close>

lemma vote_majority:
  assumes "\<forall>t \<in> set c. tmr_wf t" "length c = 3"
  shows "c ! tmr_majority_vote_idx c 3 =
    (if c ! 0 = c ! 1 \<or> c ! 0 = c ! 2 then c ! 0 else if c ! 1 = c ! 2 then c ! 1 else c ! 0)"
  using assms by (simp add: tmr_majority_vote_idx_def tmr_same_iff)

end
