(* ===== verification/Boot_Journal.thy ===== *)
theory Boot_Journal
  imports Journal_Wire Boot_Identity Boot_Panic
begin

text \<open>
  The write-ahead log (\<open>core/boot_journal.c\<close>): operations. The file-scope statics are the record
  \<open>journal_state\<close>; the constants the build generates (sector addresses and sizes, the largest
  sector, \<open>BOOT_STAGE1_SVN\<close>) are the record \<open>wal_config\<close>. \<open>read_header\<close> returns the scratch buffer
  it fills instead of leaving it in \<open>g_hdr_scratch\<close>.
\<close>

section \<open>State and configuration\<close>

record wal_config =
  wc_sector_addrs :: "u32 list"
  wc_sector_sizes :: "nat list"
  wc_max_sector_size :: nat
  wc_stage1_svn :: u32

abbreviation wal_sectors :: "wal_config \<Rightarrow> nat" where
  "wal_sectors cfg \<equiv> length (wc_sector_addrs cfg)"

record journal_state =
  jn_active_wal_index :: nat
  jn_current_active_header :: wal_sector_header
  jn_wal_initialized :: bool
  jn_cached_write_offset :: nat
  jn_journal_key :: "u8 list"
  jn_journal_key_valid :: bool

text \<open>The zero-initialised statics.\<close>

definition journal_reset :: journal_state where
  "journal_reset = \<lparr> jn_active_wal_index = 0, jn_current_active_header = header_zero,
     jn_wal_initialized = False, jn_cached_write_offset = 0, jn_journal_key = zeroed 16,
     jn_journal_key_valid = False \<rparr>"

definition MAX_WAL_SECTORS :: nat where "MAX_WAL_SECTORS = 8"
definition WAL_PROTECT_WINDOW :: u32 where "WAL_PROTECT_WINDOW = 4"

section \<open>Chain tags\<close>

definition hash_chain_compute ::
  "'s crypto_hal \<Rightarrow> u8 list list \<Rightarrow> 's \<Rightarrow> boot_status \<times> u8 list \<times> 's" where
  "hash_chain_compute c segs s =
     (case ch_hash_init c (zeroed BOOT_MERKLE_MAX_CTX_SIZE) s of (st, ctx, s) \<Rightarrow>
        case (if st = BOOT_OK then hash_update_all c segs ctx s else (st, ctx, s)) of (st, ctx, s) \<Rightarrow>
          case ch_hash_finish c ctx 32 s of (fin, d, dl, s) \<Rightarrow>
            if st = BOOT_OK
            then (fin, if fin = BOOT_OK then take 16 (fill_prefix d (zeroed 32)) else zeroed 16, s)
            else (st, zeroed 16, s))"

definition compute_chain_tag ::
  "'s crypto_hal \<Rightarrow> u8 list \<Rightarrow> wal_entry_payload \<Rightarrow> u8 list \<Rightarrow> 's \<Rightarrow> boot_status \<times> u8 list \<times> 's" where
  "compute_chain_tag c key entry prev_tag s = hash_chain_compute c [key, entry_body entry, prev_tag] s"

section \<open>Reading headers\<close>

definition read_header :: "wal_config \<Rightarrow> 's flash_hal \<Rightarrow> nat \<Rightarrow> 's \<Rightarrow> u8 list option \<times> 's" where
  "read_header cfg fl idx s =
     (case fh_read fl (wc_sector_addrs cfg ! idx) WAL_HEADER_SIZE s of (st, d, s) \<Rightarrow>
        if st \<noteq> BOOT_OK then (None, s)
        else
          let raw = fill_prefix d (zeroed WAL_HEADER_SIZE)
          in (if verify_header_crc_glitch_safe raw then Some raw else None, s))"

fun find_seq_loop ::
  "wal_config \<Rightarrow> 's flash_hal \<Rightarrow> u32 \<Rightarrow> nat list \<Rightarrow> 's \<Rightarrow> (nat \<times> u8 list) option \<times> 's" where
  "find_seq_loop cfg fl seq [] s = (None, s)"
| "find_seq_loop cfg fl seq (i # is) s =
     (case read_header cfg fl i s of
        (Some raw, s) \<Rightarrow> if hd_sequence_id (header_of raw) = seq then (Some (i, raw), s)
                        else find_seq_loop cfg fl seq is s
      | (None, s) \<Rightarrow> find_seq_loop cfg fl seq is s)"

definition find_sector_by_seq ::
  "wal_config \<Rightarrow> 's flash_hal \<Rightarrow> u32 \<Rightarrow> 's \<Rightarrow> (nat \<times> u8 list) option \<times> 's" where
  "find_sector_by_seq cfg fl seq s = find_seq_loop cfg fl seq [0..<wal_sectors cfg] s"

section \<open>Erase and rotation\<close>

function smart_scan_loop ::
  "'s platform \<Rightarrow> 's flash_hal \<Rightarrow> u32 \<Rightarrow> nat \<Rightarrow> nat \<Rightarrow> u8 list \<Rightarrow> bool \<Rightarrow> 's \<Rightarrow> bool \<times> 's" where
  "smart_scan_loop p fl addr sec_size chk_off chk_buf needs s =
     (if chk_off < sec_size then
        let read_len = (if sec_size - chk_off > 64 then 64 else sec_size - chk_off)
        in case fh_read fl (addr + of_nat chk_off) read_len s of (st, d, s) \<Rightarrow>
             let chk_buf = fill_prefix d chk_buf;
                 needs = (needs \<or> st \<noteq> BOOT_OK \<or>
                   \<not> is_fully_erased_constant_time (take read_len chk_buf) (fh_erased_value fl))
             in smart_scan_loop p fl addr sec_size (chk_off + read_len) chk_buf needs (wdt_kick p s)
      else (needs, s))"
  by pat_completeness auto
termination
  by (relation "measure (\<lambda>(p, fl, addr, sec_size, chk_off, chk_buf, needs, s). sec_size - chk_off)") auto

definition wdt_guard ::
  "('s wdt_hal \<Rightarrow> ('s \<Rightarrow> 's) option) \<Rightarrow> 's platform \<Rightarrow> bool \<Rightarrow> 's \<Rightarrow> 's" where
  "wdt_guard f p big s =
     (case pf_wdt p of
        None \<Rightarrow> s
      | Some w \<Rightarrow> (case f w of
                    Some g \<Rightarrow> if big then g s else call_opt (wh_kick w) s
                  | None \<Rightarrow> call_opt (wh_kick w) s))"

definition smart_erase_sector ::
  "wal_config \<Rightarrow> 's platform \<Rightarrow> 's flash_hal \<Rightarrow> nat \<Rightarrow> 's \<Rightarrow> boot_status \<times> 's" where
  "smart_erase_sector cfg p fl sector_idx s =
     (let addr = wc_sector_addrs cfg ! sector_idx;
          sec_size = wc_sector_sizes cfg ! sector_idx
      in case smart_scan_loop p fl addr sec_size 0 (zeroed 64) False s of (needs_erase, s) \<Rightarrow>
           if \<not> needs_erase then (BOOT_OK, s)
           else
             let big = (sec_size \<ge> wc_max_sector_size cfg);
                 s = wdt_guard wh_suspend_for_critical_section p big s
             in case fh_erase_sector fl addr s of (st, s) \<Rightarrow> (st, wdt_guard wh_resume p big s))"

definition make_header :: "u32 \<Rightarrow> u32 \<Rightarrow> wal_tmr_payload \<Rightarrow> wal_sector_header" where
  "make_header seq erase_count tmr =
     (let h = \<lparr> hd_sector_magic = WAL_ABI_VERSION_MAGIC_CURRENT, hd_sequence_id = seq,
                hd_erase_count = erase_count, hd_tmr_data = tmr, hd_header_crc32 = 0 \<rparr>
      in h\<lparr>hd_header_crc32 := sector_hdr_crc h\<rparr>)"

text \<open>Returns the status, the new erase count and the device.\<close>

definition rotate_to_sector ::
  "wal_config \<Rightarrow> 's platform \<Rightarrow> 's flash_hal \<Rightarrow> nat \<Rightarrow> u32 \<Rightarrow> wal_tmr_payload \<Rightarrow> 's \<Rightarrow>
     boot_status \<times> u32 \<times> 's" where
  "rotate_to_sector cfg p fl idx seq tmr s =
     (case read_header cfg fl idx s of (hdr, s) \<Rightarrow>
        let prev = (case hdr of None \<Rightarrow> 0 | Some raw \<Rightarrow> hd_erase_count (header_of raw))
        in case smart_erase_sector cfg p fl idx s of (st, s) \<Rightarrow>
             if st \<noteq> BOOT_OK then (st, 0, s)
             else
               let wh = make_header seq (prev + 1) tmr;
                   s = wdt_kick p s
               in case fh_write fl (wc_sector_addrs cfg ! idx) (header_bytes wh) s of (st, s) \<Rightarrow>
                    (st, if st = BOOT_OK then prev + 1 else 0, s))"

fun wear_loop ::
  "wal_config \<Rightarrow> 's flash_hal \<Rightarrow> u32 \<Rightarrow> nat list \<Rightarrow> nat list \<Rightarrow> nat option \<Rightarrow> u32 \<Rightarrow> 's \<Rightarrow> nat option \<times> 's" where
  "wear_loop cfg fl highest_seq exclude [] best min_erase s = (best, s)"
| "wear_loop cfg fl highest_seq exclude (i # is) best min_erase s =
     (if i \<in> set exclude then wear_loop cfg fl highest_seq exclude is best min_erase s
      else case read_header cfg fl i s of
        (None, s) \<Rightarrow> (Some i, s)
      | (Some raw, s) \<Rightarrow>
          if highest_seq - hd_sequence_id (header_of raw) < WAL_PROTECT_WINDOW
          then wear_loop cfg fl highest_seq exclude is best min_erase s
          else if hd_erase_count (header_of raw) < min_erase
          then wear_loop cfg fl highest_seq exclude is (Some i) (hd_erase_count (header_of raw)) s
          else wear_loop cfg fl highest_seq exclude is best min_erase s)"

text \<open>With no candidate left the function falls back to sector 0.\<close>

definition get_best_wear_leveling_sector ::
  "wal_config \<Rightarrow> 's flash_hal \<Rightarrow> u32 \<Rightarrow> nat list \<Rightarrow> 's \<Rightarrow> nat \<times> 's" where
  "get_best_wear_leveling_sector cfg fl highest_seq exclude s =
     (case wear_loop cfg fl highest_seq exclude [0..<wal_sectors cfg] None UINT32_MAX s of
        (best, s) \<Rightarrow> (case best of Some i \<Rightarrow> i | None \<Rightarrow> 0, s))"

section \<open>The frontier\<close>

text \<open>
  The scan steps over every entry that is not erased, valid or not: the \<open>break\<close> for an invalid
  one stands inside \<open>BOOT_SECURE_REQUIRE\<close>, whose own \<open>do { } while (0)\<close> it leaves.
\<close>

function frontier_loop ::
  "'s platform \<Rightarrow> 's flash_hal \<Rightarrow> u32 \<Rightarrow> nat \<Rightarrow> u8 \<Rightarrow> nat \<Rightarrow> nat \<Rightarrow> 's \<Rightarrow> nat \<times> 's" where
  "frontier_loop p fl sector_addr sec_size erased_val offset frontier s =
     (if offset + WAL_ENTRY_SIZE \<le> sec_size then
        case fh_read fl (sector_addr + of_nat offset) WAL_ENTRY_SIZE (wdt_kick p s) of (st, d, s) \<Rightarrow>
          if st \<noteq> BOOT_OK then (frontier, s)
          else
            if classify_entry d erased_val = WAL_E_ERASED then (offset, s)
            else frontier_loop p fl sector_addr sec_size erased_val (offset + WAL_ENTRY_SIZE)
                   (offset + WAL_ENTRY_SIZE) s
      else (frontier, s))"
  by pat_completeness auto
termination
  by (relation "measure (\<lambda>(p, fl, sector_addr, sec_size, ev, offset, fr, s). Suc sec_size - offset)")
    (auto simp: WAL_ENTRY_SIZE_def)

definition scan_for_frontier_linear ::
  "'s platform \<Rightarrow> 's flash_hal \<Rightarrow> u32 \<Rightarrow> nat \<Rightarrow> u8 \<Rightarrow> 's \<Rightarrow> nat \<times> 's" where
  "scan_for_frontier_linear p fl sector_addr sec_size erased_val s =
     frontier_loop p fl sector_addr sec_size erased_val WAL_HEADER_SIZE WAL_HEADER_SIZE s"

declare smart_scan_loop.simps [simp del] frontier_loop.simps [simp del]

section \<open>Reading the transaction state\<close>

definition boot_journal_get_tmr :: "journal_state \<Rightarrow> boot_status \<times> wal_tmr_payload option" where
  "boot_journal_get_tmr j =
     (if \<not> jn_wal_initialized j then (BOOT_ERR_STATE, None)
      else (BOOT_OK, Some (hd_tmr_data (jn_current_active_header j))))"

text \<open>
  The out-parameters and flags of \<open>boot_journal_reconstruct_txn\<close>. \<open>want_accum\<close> and
  \<open>want_resume\<close> say whether the two optional pointers are non-\<open>NULL\<close>.
\<close>

record recon =
  rc_state :: wal_entry_payload
  rc_net_accum :: u32
  rc_resume_offset :: u32
  rc_found_main :: bool
  rc_found_accum :: bool
  rc_found_resume :: bool

definition recon_start :: recon where
  "recon_start = \<lparr> rc_state = entry_of (zeroed 64), rc_net_accum = 0, rc_resume_offset = 0,
     rc_found_main = False, rc_found_accum = False, rc_found_resume = False \<rparr>"

definition recon_done :: "bool \<Rightarrow> bool \<Rightarrow> recon \<Rightarrow> bool" where
  "recon_done want_accum want_resume r \<longleftrightarrow>
     rc_found_main r \<and> (rc_found_accum r \<or> \<not> want_accum) \<and> (rc_found_resume r \<or> \<not> want_resume)"

definition recon_entry :: "bool \<Rightarrow> bool \<Rightarrow> wal_entry_payload \<Rightarrow> recon \<Rightarrow> recon" where
  "recon_entry want_accum want_resume e r =
     (let intent = we_intent e
      in if intent = WAL_INTENT_NET_SEARCH_ACCUM then
           (if \<not> rc_found_accum r \<and> want_accum
            then r\<lparr>rc_net_accum := we_offset e, rc_found_accum := True\<rparr> else r)
         else if intent = WAL_INTENT_DOWNLOAD_CHECKPOINT then
           (if \<not> rc_found_resume r \<and> want_resume
            then r\<lparr>rc_resume_offset := we_delta_chunk_id e, rc_found_resume := True\<rparr> else r)
         else if intent = WAL_INTENT_SLEEP_BACKOFF \<or> intent = WAL_INTENT_DEPRECATED_NONCE \<or>
                 intent = WAL_INTENT_TXN_ROLLBACK_PENDING then r
         else if \<not> rc_found_main r then r\<lparr>rc_state := e, rc_found_main := True\<rparr>
         else r)"

text \<open>
  The backward scan of one sector. For an entry that is not valid the handler zeroizes the buffer
  and says \<open>continue\<close>, inside the macro again: the loop body goes on with the zeroized entry.
\<close>

function recon_entries ::
  "'s platform \<Rightarrow> 's flash_hal \<Rightarrow> u32 \<Rightarrow> bool \<Rightarrow> bool \<Rightarrow> nat \<Rightarrow> recon \<Rightarrow> 's \<Rightarrow> recon \<times> 's" where
  "recon_entries p fl sector_addr want_accum want_resume current_offset r s =
     (if current_offset \<ge> WAL_HEADER_SIZE + WAL_ENTRY_SIZE then
        let off = current_offset - WAL_ENTRY_SIZE
        in case fh_read fl (sector_addr + of_nat off) WAL_ENTRY_SIZE (wdt_kick p s) of (st, d, s) \<Rightarrow>
             if st \<noteq> BOOT_OK then recon_entries p fl sector_addr want_accum want_resume off r s
             else
               let entry = (if secure_require (classify_entry d (fh_erased_value fl) = WAL_E_VALID)
                            then d else zeroed WAL_ENTRY_SIZE);
                   r = recon_entry want_accum want_resume (entry_of entry) r
               in if recon_done want_accum want_resume r then (r, s)
                  else recon_entries p fl sector_addr want_accum want_resume off r s
      else (r, s))"
  by pat_completeness auto
termination
  by (relation "measure (\<lambda>(p, fl, sector_addr, wa, wr, off, r, s). off)")
    (auto simp: WAL_ENTRY_SIZE_def WAL_HEADER_SIZE_def)

text \<open>The outer loop; \<open>steps\<close> iterations are left, \<open>at_head\<close> marks \<open>step == 0\<close>.\<close>

fun recon_sectors ::
  "wal_config \<Rightarrow> 's platform \<Rightarrow> 's flash_hal \<Rightarrow> journal_state \<Rightarrow> bool \<Rightarrow> bool \<Rightarrow> nat \<Rightarrow> bool \<Rightarrow> u32 \<Rightarrow>
     recon \<Rightarrow> 's \<Rightarrow> recon \<times> 's" where
  "recon_sectors cfg p fl j want_accum want_resume 0 at_head search_seq r s = (r, s)"
| "recon_sectors cfg p fl j want_accum want_resume (Suc steps) at_head search_seq r s =
     (let young = (search_seq \<le> 1 \<and>
            hd_erase_count (jn_current_active_header j) \<le> of_nat (wal_sectors cfg))
      in case find_sector_by_seq cfg fl search_seq s of
           (None, s) \<Rightarrow>
             if young then (r, s)
             else recon_sectors cfg p fl j want_accum want_resume steps False (search_seq - 1) r s
         | (Some (i, raw), s) \<Rightarrow>
             let sec_size = wc_sector_sizes cfg ! i;
                 addr = wc_sector_addrs cfg ! i
             in case (if at_head then (jn_cached_write_offset j, s)
                      else scan_for_frontier_linear p fl addr sec_size (fh_erased_value fl) s) of
                  (off, s) \<Rightarrow>
                    case recon_entries p fl addr want_accum want_resume off r s of (r, s) \<Rightarrow>
                      if recon_done want_accum want_resume r \<or> young then (r, s)
                      else recon_sectors cfg p fl j want_accum want_resume steps False
                             (search_seq - 1) r s)"

definition boot_journal_reconstruct_txn ::
  "wal_config \<Rightarrow> 's platform \<Rightarrow> journal_state \<Rightarrow> bool \<Rightarrow> bool \<Rightarrow> 's \<Rightarrow>
     boot_status \<times> recon option \<times> 's" where
  "boot_journal_reconstruct_txn cfg p j want_accum want_resume s =
     (case pf_flash p of
        None \<Rightarrow> (BOOT_ERR_INVALID_ARG, None, s)
      | Some fl \<Rightarrow>
          if \<not> jn_wal_initialized j then (BOOT_ERR_STATE, None, s)
          else case recon_sectors cfg p fl j want_accum want_resume (wal_sectors cfg) True
                      (hd_sequence_id (jn_current_active_header j)) recon_start s of
            (r, s) \<Rightarrow> (if rc_found_main r then BOOT_OK else BOOT_ERR_STATE, Some r, s))"

declare recon_entries.simps [simp del]

section \<open>Appending an entry\<close>

text \<open>The ECC pre-emption guard: the offset to use, 0 and a rotation if the slot is not blank.\<close>

definition append_slot ::
  "wal_config \<Rightarrow> 's flash_hal \<Rightarrow> journal_state \<Rightarrow> 's \<Rightarrow> nat \<times> bool \<times> 's" where
  "append_slot cfg fl j s =
     (let idx = jn_active_wal_index j;
          off = jn_cached_write_offset j
      in if off + WAL_ENTRY_SIZE \<le> wc_sector_sizes cfg ! idx then
           case fh_read fl (wc_sector_addrs cfg ! idx + of_nat off) WAL_ENTRY_SIZE s of (st, d, s) \<Rightarrow>
             if st = BOOT_OK \<and> is_fully_erased_constant_time d (fh_erased_value fl)
             then (off, False, s)
             else (0, True, s)
         else (off, True, s))"

definition append_rotate ::
  "wal_config \<Rightarrow> 's platform \<Rightarrow> 's flash_hal \<Rightarrow> journal_state \<Rightarrow> 's \<Rightarrow>
     boot_status \<times> journal_state \<times> 's" where
  "append_rotate cfg p fl j s =
     (let h = jn_current_active_header j
      in case get_best_wear_leveling_sector cfg fl (hd_sequence_id h) [jn_active_wal_index j] s of
           (new_idx, s) \<Rightarrow>
             if fh_max_erase_cycles fl > 0 \<and> hd_erase_count h \<ge> fh_max_erase_cycles fl
             then (BOOT_ERR_COUNTER_EXHAUSTED, j, s)
             else case rotate_to_sector cfg p fl new_idx (hd_sequence_id h + 1) (hd_tmr_data h) s of
               (st, new_erase, s) \<Rightarrow>
                 if st \<noteq> BOOT_OK then (st, j, s)
                 else (BOOT_OK,
                       j\<lparr> jn_active_wal_index := new_idx,
                          jn_current_active_header := h\<lparr> hd_sequence_id := hd_sequence_id h + 1,
                                                         hd_erase_count := new_erase \<rparr>,
                          jn_cached_write_offset := WAL_HEADER_SIZE \<rparr>, s))"

definition append_chain_tag ::
  "'s platform \<Rightarrow> journal_state \<Rightarrow> wal_entry_payload \<Rightarrow> u32 \<Rightarrow> 's \<Rightarrow> journal_state \<times> 's" where
  "append_chain_tag p j entry intent s =
     (case pf_crypto p of
        None \<Rightarrow> (j, s)
      | Some c \<Rightarrow>
          if jn_journal_key_valid j \<and> wal_intent_is_security_bearing intent then
            let h = jn_current_active_header j;
                t = hd_tmr_data h
            in case compute_chain_tag c (jn_journal_key j) entry (tm_chain_tag t) s of
                 (st, new_tag, s) \<Rightarrow>
                   (if st = BOOT_OK
                    then j\<lparr> jn_current_active_header := h\<lparr> hd_tmr_data :=
                              t\<lparr> tm_chain_tag := new_tag, tm_chain_entry_count := tm_chain_entry_count t + 1 \<rparr> \<rparr> \<rparr>
                    else j, s)
          else (j, s))"

definition seal_entry :: "wal_entry_payload \<Rightarrow> wal_entry_payload" where
  "seal_entry e = (let e = e\<lparr>we_magic := WAL_ENTRY_MAGIC\<rparr> in e\<lparr>we_crc32_trailer := entry_crc e\<rparr>)"

definition append_write ::
  "wal_config \<Rightarrow> 's platform \<Rightarrow> 's flash_hal \<Rightarrow> nat \<Rightarrow> nat \<Rightarrow> wal_entry_payload \<Rightarrow> journal_state \<Rightarrow> 's \<Rightarrow>
     boot_status \<times> journal_state \<times> 's" where
  "append_write cfg p fl sec_size off new_entry j s =
     (let entry = seal_entry new_entry;
          addr = wc_sector_addrs cfg ! jn_active_wal_index j + of_nat off
      in case fh_write fl addr (entry_bytes entry) (wdt_kick p s) of (st, s) \<Rightarrow>
           if st \<noteq> BOOT_OK then (st, j, s)
           else case fh_read fl addr WAL_ENTRY_SIZE s of (st, d, s) \<Rightarrow>
             if st \<noteq> BOOT_OK \<or>
                constant_time_memcmp_glitch_safe (entry_bytes entry)
                  (fill_prefix d (zeroed WAL_ENTRY_SIZE)) WAL_ENTRY_SIZE \<noteq> BOOT_OK
             then (BOOT_ERR_FLASH_HW, j\<lparr>jn_cached_write_offset := sec_size\<rparr>, s)
             else case append_chain_tag p j entry (we_intent new_entry) s of (j, s) \<Rightarrow>
               (BOOT_OK, j\<lparr>jn_cached_write_offset := off + WAL_ENTRY_SIZE\<rparr>, s))"

text \<open>
  \<open>sec_size\<close> is read before the rotation and stays the old sector's.
\<close>

definition boot_journal_append ::
  "wal_config \<Rightarrow> 's platform \<Rightarrow> journal_state \<Rightarrow> wal_entry_payload \<Rightarrow> 's \<Rightarrow>
     boot_status \<times> journal_state \<times> 's" where
  "boot_journal_append cfg p j new_entry s =
     (case pf_flash p of
        None \<Rightarrow> (BOOT_ERR_INVALID_ARG, j, s)
      | Some fl \<Rightarrow>
          if \<not> jn_wal_initialized j then (BOOT_ERR_STATE, j, s)
          else
            let sec_size = wc_sector_sizes cfg ! jn_active_wal_index j
            in case append_slot cfg fl j s of (off, needs_rotation, s) \<Rightarrow>
                 if needs_rotation \<or> off = 0 then
                   case append_rotate cfg p fl j s of (st, j, s) \<Rightarrow>
                     if st \<noteq> BOOT_OK then (st, j, s)
                     else append_write cfg p fl sec_size WAL_HEADER_SIZE new_entry j s
                 else append_write cfg p fl sec_size off new_entry j s)"

section \<open>Updating the TMR payload\<close>

text \<open>
  The epoch anchor. \<open>hash_chain_compute\<close> zeroizes its output buffer before it hashes, and the
  output buffer is the \<open>chain_tag\<close> member of the struct that is the second segment.
\<close>

definition bind_epoch ::
  "'s platform \<Rightarrow> journal_state \<Rightarrow> wal_tmr_payload \<Rightarrow> 's \<Rightarrow> wal_tmr_payload \<times> 's" where
  "bind_epoch p j t s =
     (case pf_crypto p of
        None \<Rightarrow> (t, s)
      | Some c \<Rightarrow>
          if jn_journal_key_valid j \<and> tm_chain_entry_count t > 0 then
            case boot_read_monotonic_counter_safe p s of (_, v, s) \<Rightarrow>
              let efuse_epoch = (case v of None \<Rightarrow> 0 | Some v \<Rightarrow> v)
              in case hash_chain_compute c [jn_journal_key j, tmr_bytes (t\<lparr>tm_chain_tag := zeroed 16\<rparr>),
                          to_le32 efuse_epoch] s of
                   (st, tag, s) \<Rightarrow> (t\<lparr>tm_chain_tag := tag\<rparr>, s)
          else (t, s))"

text \<open>
  The three header writes: \<open>steps\<close> are left, \<open>idx\<close> is \<open>active_wal_index\<close>. The result carries
  the sequence number, index and erase count reached.
\<close>

fun quorum_write ::
  "wal_config \<Rightarrow> 's platform \<Rightarrow> 's flash_hal \<Rightarrow> wal_tmr_payload \<Rightarrow> nat \<Rightarrow> u32 \<Rightarrow> nat \<Rightarrow> nat list \<Rightarrow> u32 \<Rightarrow> 's \<Rightarrow>
     boot_status \<times> u32 \<times> nat \<times> u32 \<times> 's" where
  "quorum_write cfg p fl t 0 seq idx exclude erase_count s = (BOOT_OK, seq, idx, erase_count, s)"
| "quorum_write cfg p fl t (Suc steps) seq idx exclude erase_count s =
     (case get_best_wear_leveling_sector cfg fl seq exclude s of (new_idx, s) \<Rightarrow>
        case rotate_to_sector cfg p fl new_idx (seq + 1) t s of (st, new_erase, s) \<Rightarrow>
          if st \<noteq> BOOT_OK then (st, seq + 1, idx, erase_count, s)
          else quorum_write cfg p fl t steps (seq + 1) new_idx (exclude @ [new_idx]) new_erase s)"

definition active_magic_legacy ::
  "wal_config \<Rightarrow> 's flash_hal \<Rightarrow> journal_state \<Rightarrow> 's \<Rightarrow> bool \<times> 's" where
  "active_magic_legacy cfg fl j s =
     (case read_header cfg fl (jn_active_wal_index j) s of
        (None, s) \<Rightarrow> (False, s)
      | (Some raw, s) \<Rightarrow> (hd_sector_magic (header_of raw) = WAL_ABI_VERSION_MAGIC_LEGACY, s))"

definition boot_journal_update_tmr ::
  "wal_config \<Rightarrow> 's platform \<Rightarrow> journal_state \<Rightarrow> wal_tmr_payload \<Rightarrow> 's \<Rightarrow>
     boot_status \<times> journal_state \<times> 's" where
  "boot_journal_update_tmr cfg p j new_tmr s =
     (case (pf_flash p, pf_wdt p) of
        (Some fl, Some w) \<Rightarrow>
          if \<not> jn_wal_initialized j then (BOOT_ERR_STATE, j, s)
          else
            let h = jn_current_active_header j
            in case active_magic_legacy cfg fl j s of (magic_legacy, s) \<Rightarrow>
              if \<not> magic_legacy \<and> tmr_same (hd_tmr_data h) new_tmr then (BOOT_OK, j, s)
              else if fh_max_erase_cycles fl > 0 \<and> hd_erase_count h \<ge> fh_max_erase_cycles fl - 3
              then (BOOT_ERR_COUNTER_EXHAUSTED, j, s)
              else case bind_epoch p j new_tmr s of (tmr_to_write, s) \<Rightarrow>
                case quorum_write cfg p fl tmr_to_write 3 (hd_sequence_id h) (jn_active_wal_index j)
                       [jn_active_wal_index j] (hd_erase_count h) s of
                  (st, seq, idx, erase_count, s) \<Rightarrow>
                    if st \<noteq> BOOT_OK then (st, j\<lparr>jn_active_wal_index := idx\<rparr>, s)
                    else
                      let h = h\<lparr> hd_sequence_id := seq, hd_erase_count := erase_count,
                                 hd_tmr_data := tmr_to_write \<rparr>
                      in (BOOT_OK,
                          j\<lparr> jn_active_wal_index := idx, jn_cached_write_offset := WAL_HEADER_SIZE,
                             jn_current_active_header := h\<lparr>hd_header_crc32 := sector_hdr_crc h\<rparr> \<rparr>, s)
      | _ \<Rightarrow> (BOOT_ERR_INVALID_ARG, j, s))"

section \<open>Initialisation\<close>

text \<open>Step 2: the sector with the highest sequence number and the header read from it.\<close>

fun highest_loop ::
  "wal_config \<Rightarrow> 's flash_hal \<Rightarrow> nat list \<Rightarrow> (nat \<times> u8 list) option \<Rightarrow> 's \<Rightarrow> (nat \<times> u8 list) option \<times> 's" where
  "highest_loop cfg fl [] best s = (best, s)"
| "highest_loop cfg fl (i # is) best s =
     (case read_header cfg fl i s of
        (None, s) \<Rightarrow> highest_loop cfg fl is best s
      | (Some raw, s) \<Rightarrow>
          highest_loop cfg fl is
            (case best of
               None \<Rightarrow> Some (i, raw)
             | Some (k, braw) \<Rightarrow>
                 if is_newer_sequence (hd_sequence_id (header_of raw)) (hd_sequence_id (header_of braw))
                 then Some (i, raw) else Some (k, braw)) s)"

definition factory_header :: wal_sector_header where
  "factory_header =
     (let h = header_zero\<lparr> hd_sector_magic := WAL_ABI_VERSION_MAGIC_CURRENT, hd_sequence_id := 1,
                hd_erase_count := 1,
                hd_tmr_data := tmr_zero\<lparr> tm_struct_version := WAL_TMR_VERSION_CURRENT,
                                        tm_populated_size := WAL_TMR_POPULATED_SIZE \<rparr> \<rparr>
      in h\<lparr>hd_header_crc32 := sector_hdr_crc h\<rparr>)"

text \<open>The winner's header as it is kept in RAM, and whether it has to be migrated.\<close>

definition adopt_header :: "u32 \<Rightarrow> u8 list \<Rightarrow> wal_sector_header \<times> bool" where
  "adopt_header stage1_svn raw =
     (let h = header_of raw
      in if hd_sector_magic h = WAL_ABI_VERSION_MAGIC_LEGACY then
           let h = h\<lparr> hd_sector_magic := WAL_ABI_VERSION_MAGIC_CURRENT,
                      hd_tmr_data := upgrade_tmr_payload stage1_svn
                        (migrate_v1_tmr stage1_svn (tmr_v1_of (drop 12 raw))) \<rparr>
           in (h\<lparr>hd_header_crc32 := sector_hdr_crc h\<rparr>, True)
         else if tm_struct_version (hd_tmr_data h) < WAL_TMR_VERSION_CURRENT
         then (h\<lparr>hd_tmr_data := upgrade_tmr_payload stage1_svn (hd_tmr_data h)\<rparr>, True)
         else (h, False))"

definition candidate_of :: "u32 \<Rightarrow> u8 list \<Rightarrow> wal_tmr_payload" where
  "candidate_of stage1_svn raw =
     (if hd_sector_magic (header_of raw) = WAL_ABI_VERSION_MAGIC_LEGACY
      then migrate_v1_tmr stage1_svn (tmr_v1_of (drop 12 raw))
      else hd_tmr_data (header_of raw))"

text \<open>Collects the payloads of the two preceding sequence numbers; \<open>steps\<close> runs 1, 2.\<close>

fun collect_candidates ::
  "wal_config \<Rightarrow> 's flash_hal \<Rightarrow> u32 \<Rightarrow> u32 \<Rightarrow> u32 list \<Rightarrow> wal_tmr_payload list \<Rightarrow> 's \<Rightarrow>
     wal_tmr_payload list \<times> 's" where
  "collect_candidates cfg fl highest_seq erase_count [] cs s = (cs, s)"
| "collect_candidates cfg fl highest_seq erase_count (step # steps) cs s =
     (if highest_seq \<le> step \<and> erase_count \<le> of_nat (wal_sectors cfg) then (cs, s)
      else case find_sector_by_seq cfg fl (highest_seq - step) s of
        (None, s) \<Rightarrow> (cs, s)
      | (Some (i, raw), s) \<Rightarrow>
          collect_candidates cfg fl highest_seq erase_count steps
            (cs @ [candidate_of (wc_stage1_svn cfg) raw]) s)"

text \<open>The vote over what has been collected.\<close>

definition voted_tmr :: "wal_tmr_payload list \<Rightarrow> wal_tmr_payload" where
  "voted_tmr cs = (if length cs \<ge> 2 then cs ! tmr_majority_vote_idx cs (length cs) else cs ! 0)"

text \<open>The frontier scan, a pending migration, and the journal key.\<close>

definition init_finish ::
  "wal_config \<Rightarrow> 's platform \<Rightarrow> 's flash_hal \<Rightarrow> bool \<Rightarrow> journal_state \<Rightarrow> 's \<Rightarrow>
     boot_status \<times> journal_state \<times> 's" where
  "init_finish cfg p fl migration_required j s =
     (case scan_for_frontier_linear p fl (wc_sector_addrs cfg ! jn_active_wal_index j)
             (wc_sector_sizes cfg ! jn_active_wal_index j) (fh_erased_value fl) s of
        (off, s) \<Rightarrow>
          let j = j\<lparr>jn_cached_write_offset := off, jn_wal_initialized := True\<rparr>
          in case (if migration_required
                   then boot_journal_update_tmr cfg p j (hd_tmr_data (jn_current_active_header j)) s
                   else (BOOT_OK, j, s)) of
               (mig_stat, j, s) \<Rightarrow>
                 if mig_stat \<noteq> BOOT_OK then (mig_stat, j, s)
                 else case boot_derive_journal_key p s of (st, key, s) \<Rightarrow>
                   (BOOT_OK, j\<lparr>jn_journal_key_valid := (st = BOOT_OK), jn_journal_key := key\<rparr>, s))"

definition init_blank ::
  "wal_config \<Rightarrow> 's platform \<Rightarrow> 's flash_hal \<Rightarrow> journal_state \<Rightarrow> 's \<Rightarrow>
     boot_status \<times> journal_state \<times> 's" where
  "init_blank cfg p fl j s =
     (case smart_erase_sector cfg p fl 0 s of (st, s) \<Rightarrow>
        if st \<noteq> BOOT_OK
        then (st, j\<lparr> jn_active_wal_index := 0,
                     jn_current_active_header := factory_header\<lparr>hd_header_crc32 := 0\<rparr> \<rparr>, s)
        else
          let j = j\<lparr>jn_active_wal_index := 0, jn_current_active_header := factory_header\<rparr>
          in case fh_write fl (wc_sector_addrs cfg ! 0) (header_bytes factory_header) s of (st, s) \<Rightarrow>
               if st \<noteq> BOOT_OK then (BOOT_ERR_FLASH, j, s)
               else init_finish cfg p fl False j s)"

definition boot_journal_init ::
  "wal_config \<Rightarrow> 's platform \<Rightarrow> journal_state \<Rightarrow> 's \<Rightarrow> (boot_status \<times> journal_state, 's) outcome" where
  "boot_journal_init cfg p j s =
     (case (pf_flash p, pf_wdt p) of
        (Some fl, Some w) \<Rightarrow>
          if wal_sectors cfg < 4 \<or> wal_sectors cfg > MAX_WAL_SECTORS
          then Returns (BOOT_ERR_INVALID_ARG, j) s
          else if \<exists>sz \<in> set (take (wal_sectors cfg) (wc_sector_sizes cfg)).
                    sz < WAL_HEADER_SIZE + WAL_ENTRY_SIZE
          then Returns (BOOT_ERR_FLASH_HW, j) s
          else case highest_loop cfg fl [0..<wal_sectors cfg] None s of
            (None, s) \<Rightarrow>
              (case init_blank cfg p fl j s of (st, j, s) \<Rightarrow> Returns (st, j) s)
          | (Some (i, raw), s) \<Rightarrow>
              (case adopt_header (wc_stage1_svn cfg) raw of (h, migration_required) \<Rightarrow>
                 if tm_struct_version (hd_tmr_data h) > WAL_TMR_VERSION_CURRENT
                 then Halts BOOT_ERR_ABI_MISMATCH SITE_TMR_FUTURE s
                 else case collect_candidates cfg fl (hd_sequence_id (header_of raw))
                        (hd_erase_count h) [1, 2] [hd_tmr_data h] s of
                   (cs, s) \<Rightarrow>
                     let j = j\<lparr>jn_active_wal_index := i,
                               jn_current_active_header := h\<lparr>hd_tmr_data := voted_tmr cs\<rparr>\<rparr>
                     in case init_finish cfg p fl migration_required j s of
                          (st, j, s) \<Rightarrow> Returns (st, j) s)
      | _ \<Rightarrow> Returns (BOOT_ERR_INVALID_ARG, j) s)"

end
