(* ===== verification/Journal_Laws.thy ===== *)
theory Journal_Laws
  imports Boot_Journal
begin

text \<open>
  The journal on a working flash: every operation of \<open>Boot_Journal\<close> as a function of the sector
  images. The locale \<open>wal_device\<close> adds to the flash contract the geometry the journal is built
  for: sectors of one erase block each, disjoint, big enough for a header and an entry, erased to
  \<open>0xFF\<close>.
\<close>

section \<open>Sector images\<close>

definition wal_sector :: "wal_config \<Rightarrow> u8 list \<Rightarrow> nat \<Rightarrow> u8 list" where
  "wal_sector cfg m i = slice_of (unat (wc_sector_addrs cfg ! i)) (wc_sector_sizes cfg ! i) m"

definition header_in :: "u8 list \<Rightarrow> u8 list option" where
  "header_in b = (if verify_header_crc_glitch_safe (take 128 b) then Some (take 128 b) else None)"

definition wal_header :: "wal_config \<Rightarrow> u8 list \<Rightarrow> nat \<Rightarrow> u8 list option" where
  "wal_header cfg m i = header_in (wal_sector cfg m i)"

definition wal_seq :: "wal_config \<Rightarrow> u8 list \<Rightarrow> nat \<Rightarrow> u32 option" where
  "wal_seq cfg m i = map_option (\<lambda>raw. hd_sequence_id (header_of raw)) (wal_header cfg m i)"

definition wal_find :: "wal_config \<Rightarrow> u8 list \<Rightarrow> u32 \<Rightarrow> nat option" where
  "wal_find cfg m q = find (\<lambda>i. wal_seq cfg m i = Some q) [0..<wal_sectors cfg]"

definition entry_at :: "u8 list \<Rightarrow> nat \<Rightarrow> u8 list" where
  "entry_at b k = slice_of (128 + 64 * k) 64 b"

definition entry_slots :: "nat \<Rightarrow> nat" where
  "entry_slots n = (n - 128) div 64"

abbreviation blank_entry :: "u8 list" where
  "blank_entry \<equiv> replicate 64 0xFF"

text \<open>The number of leading slots that are not blank, and the write offset after them.\<close>

definition used_from :: "u8 list \<Rightarrow> nat \<Rightarrow> nat" where
  "used_from b k = length (takeWhile (\<lambda>i. entry_at b i \<noteq> blank_entry) [k..<entry_slots (length b)])"

definition frontier_of :: "u8 list \<Rightarrow> nat" where
  "frontier_of b = 128 + 64 * used_from b 0"

text \<open>What the backward scan makes of a slot: an invalid one counts as a zeroized entry.\<close>

definition scanned :: "u8 list \<Rightarrow> wal_entry_payload" where
  "scanned e = entry_of (if classify_entry e 0xFF = WAL_E_VALID then e else zeroed 64)"

definition scan_slots :: "bool \<Rightarrow> bool \<Rightarrow> u8 list \<Rightarrow> nat \<Rightarrow> recon \<Rightarrow> recon" where
  "scan_slots wa wr b k r = fold (\<lambda>i. recon_entry wa wr (scanned (entry_at b i))) (rev [0..<k]) r"

definition old_erase_count :: "wal_config \<Rightarrow> u8 list \<Rightarrow> nat \<Rightarrow> u32" where
  "old_erase_count cfg m i =
     (case wal_header cfg m i of None \<Rightarrow> 0 | Some raw \<Rightarrow> hd_erase_count (header_of raw))"

text \<open>A freshly rotated sector.\<close>

definition fresh_sector :: "nat \<Rightarrow> u32 \<Rightarrow> u32 \<Rightarrow> wal_tmr_payload \<Rightarrow> u8 list" where
  "fresh_sector n seq ec t = header_bytes (make_header seq ec t) @ replicate (n - 128) 0xFF"

lemma make_header_wf [simp]: "header_wf (make_header seq ec t) = tmr_wf t"
  by (simp add: make_header_def header_wf_def Let_def)

lemma header_in_fresh:
  assumes "tmr_wf t"
  shows "header_in (fresh_sector n seq ec t) = Some (header_bytes (make_header seq ec t))"
proof -
  have "verify_header_crc_glitch_safe (header_bytes (make_header seq ec t) @ [])"
    by (rule verify_header_written)
      (use assms in \<open>simp_all add: make_header_def Let_def header_wf_def sector_hdr_crc_def header_body_def\<close>)
  then show ?thesis using assms by (simp add: header_in_def fresh_sector_def)
qed

lemma header_of_fresh [simp]:
  "tmr_wf t \<Longrightarrow> header_of (header_bytes (make_header seq ec t)) = make_header seq ec t"
  using header_roundtrip [of "make_header seq ec t" "[]"] by simp

lemma make_header_sel [simp]:
  "hd_sector_magic (make_header seq ec t) = WAL_ABI_VERSION_MAGIC_CURRENT"
  "hd_sequence_id (make_header seq ec t) = seq" "hd_erase_count (make_header seq ec t) = ec"
  "hd_tmr_data (make_header seq ec t) = t"
  by (simp_all add: make_header_def Let_def)

text \<open>Once everything sought is found, further entries change nothing.\<close>

lemma recon_done_stable: "recon_done wa wr r \<Longrightarrow> recon_entry wa wr e r = r"
  by (auto simp: recon_done_def recon_entry_def Let_def)

lemma recon_done_fold: "recon_done wa wr r \<Longrightarrow> fold (\<lambda>i. recon_entry wa wr (f i)) is r = r"
  by (induction "is") (auto simp: recon_done_stable)

section \<open>The journal's flash\<close>

text \<open>Hashing, fuses and the chip identity do not touch the flash.\<close>

locale crypto_frame =
  fixes p :: "'s platform" and c :: "'s crypto_hal" and mem :: "'s \<Rightarrow> u8 list" and live :: "'s \<Rightarrow> bool"
  assumes crypto_ptr: "pf_crypto p = Some c"
    and hash_init_frame: "ch_hash_init c x s = (st, y, s') \<Longrightarrow> live s \<longrightarrow> mem s' = mem s \<and> live s'"
    and hash_update_frame: "ch_hash_update c x d s = (st, y, s') \<Longrightarrow> live s \<longrightarrow> mem s' = mem s \<and> live s'"
    and hash_finish_frame: "ch_hash_finish c x n s = (st, d, dl, s') \<Longrightarrow> live s \<longrightarrow> mem s' = mem s \<and> live s'"
    and counter_frame: "ch_read_monotonic_counter c = Some rd \<Longrightarrow> rd s = (st, v, s') \<Longrightarrow>
      live s \<longrightarrow> mem s' = mem s \<and> live s'"
    and uid_frame: "ch_read_chip_uid c = Some ru \<Longrightarrow> ru n s = (st, d, k, s') \<Longrightarrow>
      live s \<longrightarrow> mem s' = mem s \<and> live s'"
    and pubkey_frame: "ch_read_pubkey c = Some rp \<Longrightarrow> rp n i s = (st, d, s') \<Longrightarrow>
      live s \<longrightarrow> mem s' = mem s \<and> live s'"
begin

lemma update_all_frame:
  "hash_update_all c ds ctx s = (st, y, s') \<Longrightarrow> live s \<longrightarrow> mem s' = mem s \<and> live s'"
proof (induction ds arbitrary: ctx s)
  case (Cons d ds)
  obtain st1 y1 s1 where u: "ch_hash_update c ctx d s = (st1, y1, s1)" by (metis prod_cases3)
  from hash_update_frame [OF u] Cons.IH [of y1 s1] Cons.prems u show ?case
    by (auto split: if_splits)
qed auto

lemma kdf_core_frame:
  assumes "ch_read_chip_uid c = Some ru" "ch_read_pubkey c = Some rp"
    and "kdf_core c ru rp sep s = (st, k, s')"
  shows "live s \<longrightarrow> mem s' = mem s \<and> live s'"
  using assms(3) unfolding kdf_core_def
  by (auto simp: Let_def simp del: hash_update_all.simps split: prod.splits if_splits
      dest!: uid_frame [OF assms(1)] pubkey_frame [OF assms(2)] hash_init_frame hash_finish_frame
        update_all_frame)

lemma kdf_frame:
  assumes "boot_kdf_checked p sep s = (st, k, s')"
  shows "live s \<longrightarrow> mem s' = mem s \<and> live s'"
  using assms kdf_core_frame unfolding boot_kdf_checked_def
  by (auto simp: crypto_ptr split: option.splits if_splits)

lemma journal_key_frame:
  assumes "boot_derive_journal_key p s = (st, k, s')"
  shows "live s \<longrightarrow> mem s' = mem s \<and> live s'"
  using assms kdf_frame by (auto simp: boot_derive_journal_key_def split: prod.splits)

lemma chain_frame:
  assumes "hash_chain_compute c segs s = (st, tag, s')"
  shows "live s \<longrightarrow> mem s' = mem s \<and> live s'"
  using assms unfolding hash_chain_compute_def
  by (auto simp: Let_def simp del: hash_update_all.simps split: prod.splits if_splits
      dest!: hash_init_frame hash_finish_frame update_all_frame)

lemma append_tag_frame:
  assumes "append_chain_tag p j e i s = (j', s')"
  shows "live s \<longrightarrow> mem s' = mem s \<and> live s'"
  using assms unfolding append_chain_tag_def compute_chain_tag_def
  by (auto simp: Let_def crypto_ptr split: prod.splits if_splits dest!: chain_frame)

lemma counter_safe_frame:
  assumes "boot_read_monotonic_counter_safe p s = (st, v, s')"
  shows "live s \<longrightarrow> mem s' = mem s \<and> live s'"
proof (cases "ch_read_monotonic_counter c")
  case None
  then show ?thesis using assms by (simp add: boot_read_monotonic_counter_safe_def crypto_ptr)
next
  case (Some rd)
  then show ?thesis using assms unfolding boot_read_monotonic_counter_safe_def
    by (auto simp: crypto_ptr split: prod.splits if_splits dest!: counter_frame [OF Some])
qed

lemma bind_epoch_frame:
  assumes "bind_epoch p j t s = (t', s')"
  shows "live s \<longrightarrow> mem s' = mem s \<and> live s'"
  using assms unfolding bind_epoch_def
  by (auto simp: crypto_ptr Let_def split: prod.splits if_splits dest!: chain_frame counter_safe_frame)

end

text \<open>The host sandbox's crypto mock.\<close>

lemma sandbox_leaves_flash:
  "crypto_frame (sandbox_platform fl rnd) (sandbox_crypto_hal rnd) mem live"
  by unfold_locales
    (auto simp: sandbox_crypto_hal_def sandbox_crypto_hash_init_def sandbox_crypto_hash_update_def
      sandbox_crypto_hash_finish_def sandbox_crypto_read_monotonic_counter_def
      sandbox_crypto_read_chip_uid_def sandbox_crypto_read_pubkey_def)

interpretation sandbox_frame: crypto_frame small_sandbox "sandbox_crypto_hal (Pair 4)" fm_file
    "model_live 64 16 1 0xFF"
  unfolding small_sandbox_def by (rule sandbox_leaves_flash)

section \<open>Sectors of the log\<close>

locale wal_device =
  flash_contract p fl mem live total sec walign + crypto_frame p c mem live
  for p :: "'s platform" and fl and mem :: "'s \<Rightarrow> u8 list" and live and total and sec and walign and c +
  fixes cfg :: wal_config and N :: nat
  assumes wal_count: "wal_sectors cfg = N" "4 \<le> N" "N \<le> 8"
    and wal_sizes: "wc_sector_sizes cfg = replicate N sec"
    and wal_min: "192 \<le> sec"
    and wal_addr: "i < N \<Longrightarrow> unat (wc_sector_addrs cfg ! i) mod sec = 0 \<and>
      unat (wc_sector_addrs cfg ! i) < total"
    and wal_distinct: "distinct (wc_sector_addrs cfg)"
    and wal_walign: "64 mod walign = 0"
    and wal_erased: "fh_erased_value fl = 0xFF"
    and wal_wdt: "pf_wdt p \<noteq> None"
begin

abbreviation addr :: "nat \<Rightarrow> nat" where
  "addr i \<equiv> unat (wc_sector_addrs cfg ! i)"

lemma wal_end: "i < N \<Longrightarrow> addr i + sec \<le> total"
  using wal_addr [of i] sector_end [of "wc_sector_addrs cfg ! i"] by simp

lemma wal_sz [simp]: "i < N \<Longrightarrow> wc_sector_sizes cfg ! i = sec"
  by (simp add: wal_sizes)

lemma wal_disjoint:
  assumes "i < N" "k < N" "i \<noteq> k"
  shows "addr i + sec \<le> addr k \<or> addr k + sec \<le> addr i"
proof -
  have "wc_sector_addrs cfg ! i \<noteq> wc_sector_addrs cfg ! k"
    using assms wal_distinct wal_count(1) by (simp add: nth_eq_iff_index_eq)
  then have ne: "addr i \<noteq> addr k" by (simp add: word_unat_eq_iff)
  obtain a b where ab: "addr i = sec * a" "addr k = sec * b"
    using wal_addr assms by (metis mod_0_imp_dvd dvd_def)
  then have "a < b \<or> b < a" using ne by (cases a b rule: linorder_cases) auto
  then have "sec * Suc a \<le> sec * b \<or> sec * Suc b \<le> sec * a" by (metis Suc_leI mult_le_mono2)
  then show ?thesis unfolding ab by (simp add: add.commute)
qed

lemma wal_offset: "i < N \<Longrightarrow> k \<le> sec \<Longrightarrow> k < sec \<or> addr i + k < 4294967296 \<Longrightarrow>
    unat (wc_sector_addrs cfg ! i + of_nat k) = addr i + k"
  using wal_end [of i] total_addr by (intro flash_addr) linarith

lemma length_sector: "live s \<Longrightarrow> i < N \<Longrightarrow> length (wal_sector cfg (mem s) i) = sec"
  using wal_end mem_len by (simp add: wal_sector_def)

lemma sector_slice:
  assumes "i < N" "k + n \<le> sec"
  shows "slice_of (addr i + k) n m = slice_of k n (wal_sector cfg m i)"
  using assms by (simp add: wal_sector_def slice_of_slice_of)

text \<open>Replacing one sector's image leaves the others.\<close>

lemma sector_patch:
  assumes "live s" "i < N" "k < N" "off + length d \<le> sec"
  shows "wal_sector cfg (patch (addr i + off) d (mem s)) k =
    (if k = i then patch off d (wal_sector cfg (mem s) i) else wal_sector cfg (mem s) k)"
proof (cases "k = i")
  case True
  have ml: "length (mem s) = total" using assms mem_len by simp
  have e: "addr i + sec \<le> total" using wal_end assms by simp
  have l1: "length (wal_sector cfg (patch (addr i + off) d (mem s)) i) = sec"
    using e assms ml by (simp add: wal_sector_def)
  have l2: "length (patch off d (wal_sector cfg (mem s) i)) = sec"
    using assms length_sector by simp
  have "wal_sector cfg (patch (addr i + off) d (mem s)) i = patch off d (wal_sector cfg (mem s) i)"
  proof (rule nth_equalityI)
    fix x assume "x < length (wal_sector cfg (patch (addr i + off) d (mem s)) i)"
    then have x: "x < sec" using l1 by simp
    show "wal_sector cfg (patch (addr i + off) d (mem s)) i ! x =
        patch off d (wal_sector cfg (mem s) i) ! x"
      using x e assms ml length_sector [OF assms(1,2)]
      by (simp add: nth_patch) (auto simp: wal_sector_def nth_slice_of nth_patch)
  qed (simp add: l1 l2)
  then show ?thesis using True by simp
next
  case False
  have d: "addr i + sec \<le> addr k \<or> addr k + sec \<le> addr i"
    by (rule wal_disjoint) (use assms False in auto)
  have "slice_of (addr k) sec (patch (addr i + off) d (mem s)) = slice_of (addr k) sec (mem s)"
    by (rule slice_of_patch_other)
      (use d assms(4) wal_end [OF assms(2)] wal_end [OF assms(3)] mem_len [OF assms(1)] in linarith)+
  then show ?thesis using False assms(3) by (simp add: wal_sector_def)
qed

section \<open>Headers\<close>

lemma read_header_ok:
  assumes "live s" "i < N"
  shows "\<exists>s'. read_header cfg fl i s = (wal_header cfg (mem s) i, s') \<and> mem s' = mem s \<and> live s'"
proof -
  obtain s' where r: "fh_read fl (wc_sector_addrs cfg ! i) 128 s = (BOOT_OK, slice_of (addr i) 128 (mem s), s')"
    "mem s' = mem s" "live s'"
    using readE [OF assms(1), of "wc_sector_addrs cfg ! i" 128] wal_end [OF assms(2)] wal_min by auto
  have l: "length (slice_of (addr i) 128 (mem s)) = 128"
    using wal_end [OF assms(2)] wal_min mem_len [OF assms(1)] by simp
  have t: "take 128 (wal_sector cfg (mem s) i) = slice_of (addr i) 128 (mem s)"
    using assms(2) wal_min by (simp add: wal_sector_def slice_of_def min_def)
  show ?thesis using r l
    by (auto simp: read_header_def WAL_HEADER_SIZE_def fill_prefix_def wal_header_def header_in_def t Let_def)
qed

lemma find_seq_ok:
  assumes "live s" "\<forall>i \<in> set is. i < N"
  shows "\<exists>s'. find_seq_loop cfg fl q is s =
      (map_option (\<lambda>i. (i, the (wal_header cfg (mem s) i))) (find (\<lambda>i. wal_seq cfg (mem s) i = Some q) is), s')
    \<and> mem s' = mem s \<and> live s'"
  using assms
proof (induction "is" arbitrary: s)
  case (Cons i "is")
  obtain s1 where r: "read_header cfg fl i s = (wal_header cfg (mem s) i, s1)" "mem s1 = mem s" "live s1"
    using read_header_ok Cons.prems by force
  show ?case using Cons.IH [OF r(3)] Cons.prems r
    by (cases "wal_header cfg (mem s) i") (auto simp: wal_seq_def)
qed auto

lemma find_sector_ok:
  assumes "live s"
  shows "\<exists>s'. find_sector_by_seq cfg fl q s =
      (map_option (\<lambda>i. (i, the (wal_header cfg (mem s) i))) (wal_find cfg (mem s) q), s')
    \<and> mem s' = mem s \<and> live s'"
  using find_seq_ok [OF assms, of "[0..<N]" q]
  by (simp add: find_sector_by_seq_def wal_find_def wal_count(1))

section \<open>Erase and rotation\<close>

lemma smart_scan_ok:
  assumes "live s" "i < N" "off \<le> sec" "length buf = 64"
  shows "\<exists>s'. smart_scan_loop p fl (wc_sector_addrs cfg ! i) sec off buf needs s =
      (needs \<or> slice_of (addr i + off) (sec - off) (mem s) \<noteq> replicate (sec - off) 0xFF, s')
    \<and> mem s' = mem s \<and> live s'"
  using assms
proof (induction "sec - off" arbitrary: off buf needs s rule: less_induct)
  case less
  show ?case
  proof (cases "off < sec")
    case False
    then show ?thesis using less.prems by (subst smart_scan_loop.simps) simp
  next
    case True
    define rl where "rl = (if sec - off > 64 then 64 else sec - off)"
    define blk where "blk = slice_of (addr i + off) rl (mem s)"
    have rl: "0 < rl" "rl \<le> 64" "off + rl \<le> sec" using True by (auto simp: rl_def)
    have a: "unat (wc_sector_addrs cfg ! i + of_nat off) = addr i + off"
      using True less.prems by (intro wal_offset) auto
    obtain s1 where r: "fh_read fl (wc_sector_addrs cfg ! i + of_nat off) rl s = (BOOT_OK, blk, s1)"
      "mem s1 = mem s" "live s1"
      using readE [OF less.prems(1), of "wc_sector_addrs cfg ! i + of_nat off" rl] a rl
        wal_end [OF less.prems(2)] by (auto simp: blk_def)
    have lb: "length blk = rl" using rl wal_end [OF less.prems(2)] mem_len [OF less.prems(1)]
      by (simp add: blk_def)
    let ?nd = "needs \<or> blk \<noteq> replicate rl 0xFF"
    have k: "live (wdt_kick p s1)" "mem (wdt_kick p s1) = mem s" using r by (simp_all add: kick_live kick_mem)
    obtain s2 where 2: "smart_scan_loop p fl (wc_sector_addrs cfg ! i) sec (off + rl) (fill_prefix blk buf) ?nd
        (wdt_kick p s1) =
      (?nd \<or> slice_of (addr i + (off + rl)) (sec - (off + rl)) (mem s) \<noteq> replicate (sec - (off + rl)) 0xFF, s2)"
      "mem s2 = mem s" "live s2"
    proof -
      have "sec - (off + rl) < sec - off" "length (fill_prefix blk buf) = 64"
        using rl lb less.prems(4) by auto
      from less.hyps [OF this(1) k(1) less.prems(2) rl(3) this(2), of ?nd] show ?thesis
        unfolding k(2) using that by blast
    qed
    have sp: "slice_of (addr i + off) (sec - off) (mem s) =
        blk @ slice_of (addr i + (off + rl)) (sec - (off + rl)) (mem s)"
      using slice_of_split [of rl "sec - off" "addr i + off" "mem s"] rl by (simp add: blk_def add.assoc)
    have rp: "replicate (sec - off) (0xFF :: u8) = replicate rl 0xFF @ replicate (sec - (off + rl)) 0xFF"
      using rl by (simp flip: replicate_add)
    have lf: "length (fill_prefix blk buf) = 64" using rl lb less.prems(4) by simp
    have eq: "smart_scan_loop p fl (wc_sector_addrs cfg ! i) sec off buf needs s =
        smart_scan_loop p fl (wc_sector_addrs cfg ! i) sec (off + rl) (fill_prefix blk buf) ?nd (wdt_kick p s1)"
      using True by (subst smart_scan_loop.simps)
        (simp add: rl_def [symmetric] r take_fill_prefix_n [OF lb] is_fully_erased_iff lb wal_erased Let_def
          lf min_absorb2 [OF rl(2)])
    show ?thesis unfolding eq 2(1) sp rp using 2(2,3) lb by auto
  qed
qed

lemma wdt_guard_ok:
  assumes "live s"
  shows "live (wdt_guard wh_suspend_for_critical_section p b s)"
    "mem (wdt_guard wh_suspend_for_critical_section p b s) = mem s"
    "live (wdt_guard wh_resume p b s)" "mem (wdt_guard wh_resume p b s) = mem s"
  using kick_live [OF assms] kick_mem [of s] suspend_live [OF assms] suspend_mem [of s]
    resume_live [OF assms] resume_mem [of s]
  by (auto simp: wdt_guard_def wdt_kick_def wdt_suspend_def wdt_resume_def call_opt_def
      split: option.splits)

lemma smart_erase_ok:
  assumes "live s" "i < N"
  shows "\<exists>s'. smart_erase_sector cfg p fl i s = (BOOT_OK, s') \<and>
    mem s' = patch (addr i) (replicate sec 0xFF) (mem s) \<and> live s'"
proof -
  obtain s1 where 1: "smart_scan_loop p fl (wc_sector_addrs cfg ! i) sec 0 (zeroed 64) False s =
      (slice_of (addr i) sec (mem s) \<noteq> replicate sec 0xFF, s1)" "mem s1 = mem s" "live s1"
    using smart_scan_ok [OF assms, of 0 "zeroed 64" False] by auto
  show ?thesis
  proof (cases "slice_of (addr i) sec (mem s) = replicate sec 0xFF")
    case True
    then show ?thesis using 1 assms(2) patch_slice_id [of "addr i" sec "mem s"] wal_end [OF assms(2)]
        mem_len [OF assms(1)]
      by (simp add: smart_erase_sector_def)
  next
    case False
    let ?g = "wdt_guard wh_suspend_for_critical_section p (wc_max_sector_size cfg \<le> sec) s1"
    have g: "live ?g" "mem ?g = mem s" using wdt_guard_ok [OF 1(3)] 1(2) by auto
    obtain s2 where 2: "fh_erase_sector fl (wc_sector_addrs cfg ! i) ?g = (BOOT_OK, s2)"
      "mem s2 = patch (addr i) (replicate sec 0xFF) (mem s)" "live s2"
      using eraseE [OF g(1), of "wc_sector_addrs cfg ! i"] wal_addr [OF assms(2)] g(2) wal_erased by auto
    then show ?thesis using 1(1) False assms(2) wdt_guard_ok [OF 2(3)]
      by (simp add: smart_erase_sector_def Let_def)
  qed
qed

lemma erased_programmable:
  "length d = n \<Longrightarrow> programmable (replicate n 0xFF) d"
  by (rule programmable_erased)

lemma walign_128: "128 mod walign = 0" "192 mod walign = 0"
proof -
  have w: "walign dvd 64" using wal_walign by (rule mod_0_imp_dvd)
  have "walign dvd 64 * 2" "walign dvd 64 * 3" by (rule dvd_mult2, rule w)+
  then show "128 mod walign = 0" "192 mod walign = 0" by simp_all
qed

lemma addr_walign: "i < N \<Longrightarrow> addr i mod walign = 0"
proof -
  assume "i < N"
  then have "sec dvd addr i" using wal_addr by auto
  moreover have "walign dvd sec" using sec_walign by auto
  ultimately show ?thesis by (metis dvd_trans dvd_imp_mod_0)
qed

lemma rotate_ok:
  assumes "live s" "i < N" "tmr_wf t"
  shows "\<exists>s'. rotate_to_sector cfg p fl i seq t s = (BOOT_OK, old_erase_count cfg (mem s) i + 1, s') \<and>
    mem s' = patch (addr i) (fresh_sector sec seq (old_erase_count cfg (mem s) i + 1) t) (mem s) \<and> live s'"
proof -
  let ?ec = "old_erase_count cfg (mem s) i"
  let ?h = "header_bytes (make_header seq (?ec + 1) t)"
  obtain s1 where 1: "read_header cfg fl i s = (wal_header cfg (mem s) i, s1)" "mem s1 = mem s" "live s1"
    using read_header_ok [OF assms(1,2)] by blast
  obtain s2 where 2: "smart_erase_sector cfg p fl i s1 = (BOOT_OK, s2)"
    "mem s2 = patch (addr i) (replicate sec 0xFF) (mem s)" "live s2"
    using smart_erase_ok [OF 1(3) assms(2)] 1(2) by auto
  have k: "live (wdt_kick p s2)" "mem (wdt_kick p s2) = mem s2" using 2(3) by (simp_all add: kick_live kick_mem)
  have e: "addr i + sec \<le> total" "length (mem s) = total" using wal_end assms mem_len by auto
  have lh: "length ?h = 128" using assms(3) by simp
  have sl: "slice_of (addr i) 128 (mem s2) = replicate 128 0xFF"
    using wal_min e unfolding 2(2) by (simp add: patch_def slice_of_def)
  obtain s3 where 3: "fh_write fl (wc_sector_addrs cfg ! i) ?h (wdt_kick p s2) = (BOOT_OK, s3)"
    "mem s3 = patch (addr i) ?h (mem s2)" "live s3"
    using writeE [OF k(1), of "wc_sector_addrs cfg ! i" ?h] lh e wal_min addr_walign [OF assms(2)]
      walign_128 sl erased_programmable [OF lh] k(2) by auto
  have "mem s3 = patch (addr i) (fresh_sector sec seq (?ec + 1) t) (mem s)"
    unfolding 3(2) 2(2) using e lh wal_min
    by (simp add: patch_def fresh_sector_def min_def)
  then show ?thesis using 3(1,3)
    by (simp add: rotate_to_sector_def 1(1) 2(1) Let_def old_erase_count_def [symmetric] 3(1))
qed

lemma rotated_sector:
  assumes "live s" "i < N" "k < N" "tmr_wf t" "mem s' = patch (addr i) (fresh_sector sec seq ec t) (mem s)"
  shows "wal_sector cfg (mem s') k =
    (if k = i then fresh_sector sec seq ec t else wal_sector cfg (mem s) k)"
proof -
  have l: "length (fresh_sector sec seq ec t) = sec"
    using assms(4) wal_min by (simp add: fresh_sector_def)
  show ?thesis using sector_patch [OF assms(1-3), of 0 "fresh_sector sec seq ec t"] l
      length_sector [OF assms(1,2)]
    by (simp add: assms(5)) (simp add: patch_def)
qed

section \<open>Wear levelling\<close>

definition wear_open :: "u8 list \<Rightarrow> u32 \<Rightarrow> nat list \<Rightarrow> nat \<Rightarrow> bool" where
  "wear_open m hs ex i \<longleftrightarrow> i \<notin> set ex \<and>
     (\<forall>raw. wal_header cfg m i = Some raw \<longrightarrow> \<not> hs - hd_sequence_id (header_of raw) < WAL_PROTECT_WINDOW)"

definition wear_result :: "u8 list \<Rightarrow> u32 \<Rightarrow> nat list \<Rightarrow> nat list \<Rightarrow> nat option \<Rightarrow> u32 \<Rightarrow> nat option \<Rightarrow> bool" where
  "wear_result m hs ex is best me r \<longleftrightarrow> (case r of
       None \<Rightarrow> best = None \<and> (\<forall>i \<in> set is. wear_open m hs ex i \<longrightarrow>
         wal_header cfg m i \<noteq> None \<and> me \<le> old_erase_count cfg m i)
     | Some k \<Rightarrow>
         k \<in> set is \<and> wear_open m hs ex k \<and>
           (wal_header cfg m k = None \<or> old_erase_count cfg m k < me \<and>
             (\<forall>i \<in> set is. wear_open m hs ex i \<longrightarrow> wal_header cfg m i \<noteq> None \<and>
                old_erase_count cfg m k \<le> old_erase_count cfg m i)) \<or>
         best = Some k \<and> (\<forall>i \<in> set is. wear_open m hs ex i \<longrightarrow>
           wal_header cfg m i \<noteq> None \<and> me \<le> old_erase_count cfg m i))"

lemma wear_result_skip:
  "\<not> wear_open m hs ex i \<or> wal_header cfg m i \<noteq> None \<and> me \<le> old_erase_count cfg m i \<Longrightarrow>
   wear_result m hs ex is best me r \<Longrightarrow> wear_result m hs ex (i # is) best me r"
  by (cases r) (auto simp: wear_result_def)

lemma wear_result_take:
  "wear_open m hs ex i \<Longrightarrow> wal_header cfg m i \<noteq> None \<Longrightarrow> old_erase_count cfg m i < me \<Longrightarrow>
   wear_result m hs ex is (Some i) (old_erase_count cfg m i) r \<Longrightarrow> wear_result m hs ex (i # is) best me r"
  by (cases r) (auto simp: wear_result_def)

lemma wear_loop_ok:
  assumes "live s" "\<forall>i \<in> set is. i < N"
  shows "\<exists>r s'. wear_loop cfg fl hs ex is best me s = (r, s') \<and> mem s' = mem s \<and> live s' \<and>
    wear_result (mem s) hs ex is best me r"
  using assms
proof (induction "is" arbitrary: best me s)
  case Nil
  then show ?case by (cases best) (auto simp: wear_result_def)
next
  case (Cons i "is")
  have tl: "\<forall>i \<in> set is. i < N" using Cons.prems by simp
  show ?case
  proof (cases "i \<in> set ex")
    case True
    then have "\<not> wear_open (mem s) hs ex i" by (simp add: wear_open_def)
    then show ?thesis using Cons.IH [OF Cons.prems(1) tl, of best me] True wear_result_skip by auto
  next
    case False
    obtain s1 where r: "read_header cfg fl i s = (wal_header cfg (mem s) i, s1)" "mem s1 = mem s" "live s1"
      using read_header_ok Cons.prems by force
    note IH = Cons.IH [OF r(3) tl, unfolded r(2)]
    show ?thesis
    proof (cases "wal_header cfg (mem s) i")
      case None
      then show ?thesis using False r by (simp add: wear_open_def wear_result_def)
    next
      case (Some raw)
      define ec where "ec = hd_erase_count (header_of raw)"
      have ec: "old_erase_count cfg (mem s) i = ec" using Some by (simp add: old_erase_count_def ec_def)
      show ?thesis
      proof (cases "hs - hd_sequence_id (header_of raw) < WAL_PROTECT_WINDOW")
        case True
        then have "\<not> wear_open (mem s) hs ex i" using Some by (simp add: wear_open_def)
        then show ?thesis using IH [of best me] False True r(1) Some wear_result_skip by auto
      next
        case open': False
        then have op: "wear_open (mem s) hs ex i" using Some False by (simp add: wear_open_def)
        show ?thesis
        proof (cases "ec < me")
          case True
          have eq: "wear_loop cfg fl hs ex (i # is) best me s = wear_loop cfg fl hs ex is (Some i) ec s1"
            using False r(1) Some open' True by (simp add: ec_def)
          show ?thesis unfolding eq
            using IH [of "Some i" ec] wear_result_take [OF op, of me "is"] Some ec True by auto
        next
          case le: False
          have eq: "wear_loop cfg fl hs ex (i # is) best me s = wear_loop cfg fl hs ex is best me s1"
            using False r(1) Some open' le by (simp add: ec_def)
          show ?thesis unfolding eq
            using IH [of best me] wear_result_skip [of "mem s" hs ex i me "is" best] Some ec le by (auto simp: not_less)
        qed
      qed
    qed
  qed
qed

text \<open>The choice: an open sector, a corrupt one or the least worn; without any, sector 0.\<close>

lemma wear_ok:
  assumes "live s"
  shows "\<exists>k s'. get_best_wear_leveling_sector cfg fl hs ex s = (k, s') \<and> mem s' = mem s \<and> live s' \<and>
    k < N \<and>
    ((\<exists>i < N. wear_open (mem s) hs ex i \<and>
        (wal_header cfg (mem s) i = None \<or> old_erase_count cfg (mem s) i < UINT32_MAX)) \<longrightarrow>
      wear_open (mem s) hs ex k \<and>
        (wal_header cfg (mem s) k = None \<or>
          (\<forall>i < N. wear_open (mem s) hs ex i \<longrightarrow> wal_header cfg (mem s) i \<noteq> None \<and>
             old_erase_count cfg (mem s) k \<le> old_erase_count cfg (mem s) i))) \<and>
    ((\<forall>i < N. \<not> wear_open (mem s) hs ex i) \<longrightarrow> k = 0)"
proof -
  obtain r s' where w: "wear_loop cfg fl hs ex [0..<N] None UINT32_MAX s = (r, s')" "mem s' = mem s" "live s'"
    "wear_result (mem s) hs ex [0..<N] None UINT32_MAX r"
    using wear_loop_ok [OF assms, of "[0..<N]" hs ex None UINT32_MAX] by auto
  show ?thesis
    using w wal_count(2)
    by (cases r) (auto simp: get_best_wear_leveling_sector_def wal_count(1) not_less wear_result_def)
qed

section \<open>Scanning entries\<close>

lemma slot_room: "k < entry_slots sec \<longleftrightarrow> 128 + 64 * k + 64 \<le> sec"
proof -
  have "k < (sec - 128) div 64 \<longleftrightarrow> Suc k * 64 \<le> sec - 128" using less_eq_div_iff_mult_less_eq [of 64 "Suc k"]
    by (simp add: Suc_le_eq)
  then show ?thesis using wal_min by (auto simp: entry_slots_def)
qed

lemma read_slot:
  assumes "live s" "i < N" "k < entry_slots sec"
  shows "\<exists>s'. fh_read fl (wc_sector_addrs cfg ! i + of_nat (128 + 64 * k)) 64 s =
    (BOOT_OK, entry_at (wal_sector cfg (mem s) i) k, s') \<and> mem s' = mem s \<and> live s'"
proof -
  have k: "128 + 64 * k + 64 \<le> sec" using assms(3) slot_room by simp
  have a: "unat (wc_sector_addrs cfg ! i + of_nat (128 + 64 * k)) = addr i + (128 + 64 * k)"
    by (rule wal_offset [OF assms(2)]) (use k in auto)
  have le: "addr i + (128 + 64 * k) + 64 \<le> total" using wal_end [OF assms(2)] k by linarith
  have e: "slice_of (addr i + (128 + 64 * k)) 64 (mem s) = entry_at (wal_sector cfg (mem s) i) k"
    unfolding entry_at_def using k by (intro sector_slice assms(2)) simp
  show ?thesis
    using read_law [OF assms(1), of "wc_sector_addrs cfg ! i + of_nat (128 + 64 * k)" 64] le
    unfolding a e by blast
qed

lemma length_entry_at: "live s \<Longrightarrow> i < N \<Longrightarrow> k < entry_slots sec \<Longrightarrow>
    length (entry_at (wal_sector cfg (mem s) i) k) = 64"
  using slot_room length_sector by (simp add: entry_at_def)

lemma frontier_loop_ok:
  assumes "live s" "i < N" "k \<le> entry_slots sec"
  shows "\<exists>s'. frontier_loop p fl (wc_sector_addrs cfg ! i) sec 0xFF (128 + 64 * k) (128 + 64 * k) s =
    (128 + 64 * (k + used_from (wal_sector cfg (mem s) i) k), s') \<and> mem s' = mem s \<and> live s'"
  using assms
proof (induction "entry_slots sec - k" arbitrary: k s)
  case 0
  then have "k = entry_slots sec" by simp
  moreover from this have "\<not> 128 + 64 * k + 64 \<le> sec" using slot_room [of k] by simp
  ultimately show ?case using 0 length_sector
    by (subst frontier_loop.simps) (simp add: WAL_ENTRY_SIZE_def used_from_def)
next
  case (Suc n)
  then have k: "k < entry_slots sec" by simp
  let ?b = "wal_sector cfg (mem s) i"
  have kk: "live (wdt_kick p s)" "mem (wdt_kick p s) = mem s"
    using Suc.prems by (simp_all add: kick_live kick_mem)
  obtain s1 where r: "fh_read fl (wc_sector_addrs cfg ! i + of_nat (128 + 64 * k)) 64 (wdt_kick p s) =
      (BOOT_OK, entry_at ?b k, s1)" "mem s1 = mem s" "live s1"
    using read_slot [OF kk(1) Suc.prems(2) k] kk(2) by auto
  have le: "length (entry_at ?b k) = 64" using length_entry_at Suc.prems(1,2) k by simp
  have er: "classify_entry (entry_at ?b k) 0xFF = WAL_E_ERASED \<longleftrightarrow> entry_at ?b k = blank_entry"
    using le by (simp add: classify_entry_def is_fully_erased_iff)
  have uf: "used_from ?b k = (if entry_at ?b k = blank_entry then 0 else Suc (used_from ?b (Suc k)))"
    using k length_sector [OF Suc.prems(1,2)] by (simp add: used_from_def upt_conv_Cons)
  obtain s2 where 2: "frontier_loop p fl (wc_sector_addrs cfg ! i) sec 0xFF (128 + 64 * Suc k) (128 + 64 * Suc k) s1 =
      (128 + 64 * (Suc k + used_from ?b (Suc k)), s2)" "mem s2 = mem s" "live s2"
  proof -
    have "n = entry_slots sec - Suc k" using Suc.hyps(2) by simp
    from Suc.hyps(1) [OF this r(3) Suc.prems(2)] k r(2) that show ?thesis by auto
  qed
  have g: "128 + 64 * k + 64 \<le> sec" using k slot_room by simp
  have eq: "frontier_loop p fl (wc_sector_addrs cfg ! i) sec 0xFF (128 + 64 * k) (128 + 64 * k) s =
      (if entry_at ?b k = blank_entry then (128 + 64 * k, s1)
       else frontier_loop p fl (wc_sector_addrs cfg ! i) sec 0xFF (128 + 64 * Suc k) (128 + 64 * Suc k) s1)"
    using g er by (subst frontier_loop.simps, simp only: r(1) WAL_ENTRY_SIZE_def) (simp add: algebra_simps)
  show ?case unfolding eq uf using 2 r(2,3) by auto
qed

lemma frontier_ok:
  assumes "live s" "i < N"
  shows "\<exists>s'. scan_for_frontier_linear p fl (wc_sector_addrs cfg ! i) sec (fh_erased_value fl) s =
    (frontier_of (wal_sector cfg (mem s) i), s') \<and> mem s' = mem s \<and> live s'"
  using frontier_loop_ok [OF assms, of 0]
  by (simp add: scan_for_frontier_linear_def frontier_of_def WAL_HEADER_SIZE_def wal_erased)

lemma recon_entries_ok:
  assumes "live s" "i < N" "k \<le> entry_slots sec"
  shows "\<exists>s'. recon_entries p fl (wc_sector_addrs cfg ! i) wa wr (128 + 64 * k) r s =
    (scan_slots wa wr (wal_sector cfg (mem s) i) k r, s') \<and> mem s' = mem s \<and> live s'"
  using assms
proof (induction k arbitrary: r s)
  case 0
  then show ?case
    by (subst recon_entries.simps) (simp add: WAL_ENTRY_SIZE_def WAL_HEADER_SIZE_def scan_slots_def)
next
  case (Suc k)
  let ?b = "wal_sector cfg (mem s) i"
  let ?e = "scanned (entry_at ?b k)"
  let ?r = "recon_entry wa wr ?e r"
  have kk: "live (wdt_kick p s)" "mem (wdt_kick p s) = mem s"
    using Suc.prems by (simp_all add: kick_live kick_mem)
  obtain s1 where r: "fh_read fl (wc_sector_addrs cfg ! i + of_nat (128 + 64 * k)) 64 (wdt_kick p s) =
      (BOOT_OK, entry_at ?b k, s1)" "mem s1 = mem s" "live s1"
    using read_slot [OF kk(1) Suc.prems(2), of k] Suc.prems(3) kk(2) by auto
  obtain s2 where 2: "recon_entries p fl (wc_sector_addrs cfg ! i) wa wr (128 + 64 * k) ?r s1 =
      (scan_slots wa wr ?b k ?r, s2)" "mem s2 = mem s" "live s2"
    using Suc.IH [OF r(3) Suc.prems(2)] Suc.prems(3) r(2) by auto
  have fd: "scan_slots wa wr ?b (Suc k) r = scan_slots wa wr ?b k ?r"
    by (simp add: scan_slots_def)
  have st: "recon_done wa wr ?r \<Longrightarrow> scan_slots wa wr ?b k ?r = ?r"
    by (simp add: scan_slots_def recon_done_fold)
  have eq: "recon_entries p fl (wc_sector_addrs cfg ! i) wa wr (128 + 64 * Suc k) r s =
      (if recon_done wa wr ?r then (?r, s1)
       else recon_entries p fl (wc_sector_addrs cfg ! i) wa wr (128 + 64 * k) ?r s1)"
    using r(1) by (subst recon_entries.simps)
      (simp add: WAL_ENTRY_SIZE_def WAL_HEADER_SIZE_def scanned_def Let_def wal_erased)
  show ?case unfolding eq fd using 2 r(2,3) st by auto
qed

end

end
