(* ===== verification/Journal_Crash.thy ===== *)
theory Journal_Crash
  imports Journal_Laws
begin

text \<open>
  The quorum of the write-ahead log under power failures. \<open>wal_ring cfg m S\<close> says that the valid
  sector headers of flash image \<open>m\<close> carry distinct sequence numbers with newest \<open>S\<close>; \<open>tmr_at\<close> is
  the payload stored under a sequence number. Recycling an unprotected sector keeps the last three
  payloads, so the majority vote of \<open>boot_journal_init\<close> gives the old payload until two of the
  three new headers are written and the new one from then on.
\<close>

section \<open>Rings of sectors\<close>

definition nseq :: "wal_config \<Rightarrow> u8 list \<Rightarrow> nat \<Rightarrow> nat option" where
  "nseq cfg m i = map_option unat (wal_seq cfg m i)"

definition current_header :: "u8 list \<Rightarrow> bool" where
  "current_header raw \<longleftrightarrow> hd_sector_magic (header_of raw) = WAL_ABI_VERSION_MAGIC_CURRENT"

text \<open>Every erase counter is at least \<open>B\<close> below the 32-bit limit.\<close>

definition worn :: "wal_config \<Rightarrow> u8 list \<Rightarrow> nat \<Rightarrow> bool" where
  "worn cfg m B \<longleftrightarrow> (\<forall>i < wal_sectors cfg. unat (old_erase_count cfg m i) + B < 4294967296)"

definition wal_ring :: "wal_config \<Rightarrow> u8 list \<Rightarrow> nat \<Rightarrow> bool" where
  "wal_ring cfg m S \<longleftrightarrow> S < 2147483648 \<and>
     (\<forall>i < wal_sectors cfg. \<forall>q. nseq cfg m i = Some q \<longrightarrow> q \<le> S) \<and>
     (\<forall>i < wal_sectors cfg. \<forall>k < wal_sectors cfg. nseq cfg m i \<noteq> None \<longrightarrow> nseq cfg m i = nseq cfg m k \<longrightarrow> i = k) \<and>
     (\<exists>i < wal_sectors cfg. nseq cfg m i = Some S) \<and>
     (\<forall>i < wal_sectors cfg. \<forall>raw. wal_header cfg m i = Some raw \<longrightarrow> current_header raw)"

definition tmr_at :: "wal_config \<Rightarrow> u8 list \<Rightarrow> nat \<Rightarrow> wal_tmr_payload option" where
  "tmr_at cfg m q = (case find (\<lambda>i. nseq cfg m i = Some q) [0..<wal_sectors cfg] of
     None \<Rightarrow> None
   | Some i \<Rightarrow> map_option (\<lambda>raw. hd_tmr_data (header_of raw)) (wal_header cfg m i))"

lemma nseq_header: "nseq cfg m i = Some q \<longleftrightarrow>
    (\<exists>raw. wal_header cfg m i = Some raw \<and> unat (hd_sequence_id (header_of raw)) = q)"
  by (auto simp: nseq_def wal_seq_def)

lemma find_unique:
  assumes "i < n" "P i" "\<And>k. k < n \<Longrightarrow> P k \<Longrightarrow> k = i"
  shows "find P [0..<n] = Some i"
proof -
  have "find P [0..<n] \<noteq> None" using assms(1,2) by (auto simp: find_None_iff)
  then obtain k where k: "find P [0..<n] = Some k" by blast
  then have "P k" "k < n" by (auto simp: find_Some_iff)
  from assms(3) [OF this(2,1)] k show ?thesis by simp
qed

lemma ring_find:
  assumes "wal_ring cfg m S" "i < wal_sectors cfg" "nseq cfg m i = Some q"
  shows "find (\<lambda>i. nseq cfg m i = Some q) [0..<wal_sectors cfg] = Some i"
proof (rule find_unique)
  fix k assume "k < wal_sectors cfg" "nseq cfg m k = Some q"
  then show "k = i" using assms by (force simp: wal_ring_def)
qed (use assms in auto)

lemma tmr_at_sector:
  assumes "wal_ring cfg m S" "i < wal_sectors cfg" "nseq cfg m i = Some q"
  shows "tmr_at cfg m q = map_option (\<lambda>raw. hd_tmr_data (header_of raw)) (wal_header cfg m i)"
  by (simp add: tmr_at_def ring_find [OF assms])

lemma tmr_at_SomeE:
  assumes "wal_ring cfg m S" "tmr_at cfg m q = Some t"
  obtains i raw where "i < wal_sectors cfg" "nseq cfg m i = Some q" "wal_header cfg m i = Some raw"
    "hd_tmr_data (header_of raw) = t"
  using assms by (auto simp: tmr_at_def find_Some_iff split: option.splits)

lemma ring_seqD: "wal_ring cfg m S \<Longrightarrow> i < wal_sectors cfg \<Longrightarrow> nseq cfg m i = Some q \<Longrightarrow> q \<le> S"
  by (auto simp: wal_ring_def)

lemma ring_inj:
  "wal_ring cfg m S \<Longrightarrow> i < wal_sectors cfg \<Longrightarrow> k < wal_sectors cfg \<Longrightarrow> nseq cfg m i = Some q \<Longrightarrow>
   nseq cfg m k = Some q \<Longrightarrow> i = k"
  by (auto simp: wal_ring_def)

lemma wal_find_nseq:
  "q < 4294967296 \<Longrightarrow> wal_find cfg m (of_nat q) = find (\<lambda>i. nseq cfg m i = Some q) [0..<wal_sectors cfg]"
proof -
  assume q: "q < 4294967296"
  have "wal_seq cfg m i = Some (of_nat q) \<longleftrightarrow> nseq cfg m i = Some q" for i
    using q by (auto simp: nseq_def unat_of_nat_u32)
  then show ?thesis by (simp add: wal_find_def)
qed

text \<open>Ages of sequence numbers as natural numbers.\<close>

lemma seq_age:
  assumes "unat (q :: u32) \<le> unat s"
  shows "s - q < WAL_PROTECT_WINDOW \<longleftrightarrow> unat s - unat q < 4"
  using assms by (simp add: WAL_PROTECT_WINDOW_def word_less_nat_alt unat_sub_no_wrap)

lemma newer_nat:
  assumes "unat (a :: u32) < 2147483648" "unat b < 2147483648"
  shows "is_newer_sequence a b \<longleftrightarrow> unat b < unat a"
  using assms by (auto simp: is_newer_unat unat_sub_no_wrap word_unat_eq_iff unat_word_ariths)

text \<open>\<open>recyclable cfg m S v\<close>: the sector \<open>v\<close> is not one of the last four of the ring.\<close>

definition recyclable :: "wal_config \<Rightarrow> u8 list \<Rightarrow> nat \<Rightarrow> nat \<Rightarrow> bool" where
  "recyclable cfg m S v \<longleftrightarrow> v < wal_sectors cfg \<and> (\<forall>q. nseq cfg m v = Some q \<longrightarrow> q + 4 \<le> S)"

text \<open>
  What a power failure while sector \<open>v\<close> is being rotated leaves: every other sector as it was, and
  in \<open>v\<close> anything whose header does not verify.
\<close>

definition interrupted :: "wal_config \<Rightarrow> u8 list \<Rightarrow> nat \<Rightarrow> nat \<Rightarrow> u8 list \<Rightarrow> bool" where
  "interrupted cfg m S v m' \<longleftrightarrow> recyclable cfg m S v \<and> wal_header cfg m' v = None \<and>
     (\<forall>k < wal_sectors cfg. k \<noteq> v \<longrightarrow> wal_sector cfg m' k = wal_sector cfg m k)"

text \<open>The payloads the vote sees on a ring with newest sequence number \<open>S\<close> of at least 3.\<close>

definition candidates :: "wal_config \<Rightarrow> u8 list \<Rightarrow> nat \<Rightarrow> wal_tmr_payload \<Rightarrow> wal_tmr_payload list" where
  "candidates cfg m S t = t # (case tmr_at cfg m (S - 1) of None \<Rightarrow> []
     | Some t1 \<Rightarrow> t1 # (case tmr_at cfg m (S - 2) of None \<Rightarrow> [] | Some t2 \<Rightarrow> [t2]))"

context wal_device
begin

section \<open>Recycling a sector\<close>

lemma open_recyclable:
  assumes "wal_ring cfg m S" "v < N" "wear_open m (of_nat S) ex v"
  shows "recyclable cfg m S v"
proof -
  have S: "unat (of_nat S :: u32) = S" using assms(1) by (simp add: wal_ring_def unat_of_nat_u32)
  have "q + 4 \<le> S" if nq: "nseq cfg m v = Some q" for q
  proof -
    obtain raw where raw: "wal_header cfg m v = Some raw" "unat (hd_sequence_id (header_of raw)) = q"
      using nq by (auto simp: nseq_header)
    have "q \<le> S" using ring_seqD [OF assms(1) _ nq] assms(2) wal_count(1) by simp
    then show ?thesis using assms(3) raw S seq_age [of "hd_sequence_id (header_of raw)" "of_nat S"]
      by (auto simp: wear_open_def)
  qed
  then show ?thesis using assms(2) by (simp add: recyclable_def wal_count(1))
qed

lemma nseq_other:
  assumes "\<And>k. k < N \<Longrightarrow> k \<noteq> v \<Longrightarrow> wal_sector cfg m' k = wal_sector cfg m k" "k < N" "k \<noteq> v"
  shows "wal_header cfg m' k = wal_header cfg m k" "nseq cfg m' k = nseq cfg m k"
  using assms by (simp_all add: wal_header_def nseq_def wal_seq_def)

text \<open>The sector is blank or torn: its header does not verify.\<close>

lemma ring_junk:
  assumes "wal_ring cfg m S" "recyclable cfg m S v"
    and "\<And>k. k < N \<Longrightarrow> k \<noteq> v \<Longrightarrow> wal_sector cfg m' k = wal_sector cfg m k"
    and "wal_header cfg m' v = None"
  shows "wal_ring cfg m' S" "S < q + 4 \<Longrightarrow> tmr_at cfg m' q = tmr_at cfg m q"
proof -
  note o = nseq_other [OF assms(3)]
  have v: "v < N" using assms(2) by (simp add: recyclable_def wal_count(1))
  have n: "nseq cfg m' v = None" using assms(4) by (simp add: nseq_def wal_seq_def)
  have r: "S < 2147483648" "\<And>i q. i < N \<Longrightarrow> nseq cfg m i = Some q \<Longrightarrow> q \<le> S"
    "\<And>i k. i < N \<Longrightarrow> k < N \<Longrightarrow> nseq cfg m i \<noteq> None \<Longrightarrow> nseq cfg m i = nseq cfg m k \<Longrightarrow> i = k"
    "\<exists>i < N. nseq cfg m i = Some S"
    "\<And>i raw. i < N \<Longrightarrow> wal_header cfg m i = Some raw \<Longrightarrow> current_header raw"
    using assms(1) unfolding wal_ring_def wal_count(1) by blast+
  have sub: "nseq cfg m' i \<noteq> None \<Longrightarrow> i < N \<Longrightarrow> i \<noteq> v \<and> nseq cfg m' i = nseq cfg m i" for i
    using o(2) n by (cases "i = v") auto
  show "wal_ring cfg m' S"
    unfolding wal_ring_def wal_count(1)
  proof (intro conjI allI impI)
    show "\<exists>i < N. nseq cfg m' i = Some S"
    proof -
      obtain i where i: "i < N" "nseq cfg m i = Some S" using r(4) by blast
      then have "i \<noteq> v" using assms(2) by (auto simp: recyclable_def wal_count(1))
      then show ?thesis using i o(2) by auto
    qed
    show "current_header raw" if "i < N" "wal_header cfg m' i = Some raw" for i raw
      using that o(1) r(5) assms(4) by (cases "i = v") auto
    show "q \<le> S" if "i < N" "nseq cfg m' i = Some q" for i q using that sub r(2) by force
    show "i = k" if "i < N" "k < N" "nseq cfg m' i \<noteq> None" "nseq cfg m' i = nseq cfg m' k" for i k
      using that sub [of i] sub [of k] r(3) [of i k] by force
  qed (use r in simp)
  show "tmr_at cfg m' q = tmr_at cfg m q" if "S < q + 4"
  proof -
    have "nseq cfg m' i = Some q \<longleftrightarrow> nseq cfg m i = Some q" if "i < N" for i
      using that o(2) n assms(2) \<open>S < q + 4\<close> by (cases "i = v") (auto simp: recyclable_def wal_count(1))
    then have f: "find (\<lambda>i. nseq cfg m' i = Some q) [0..<N] = find (\<lambda>i. nseq cfg m i = Some q) [0..<N]"
      by (intro find_cong) auto
    show ?thesis
    proof (cases "find (\<lambda>i. nseq cfg m i = Some q) [0..<N]")
      case None
      then show ?thesis by (simp add: tmr_at_def wal_count(1) f)
    next
      case (Some i)
      then have "i < N" "nseq cfg m i = Some q" by (auto simp: find_Some_iff)
      then have "i \<noteq> v" using assms(2) \<open>S < q + 4\<close> by (auto simp: recyclable_def wal_count(1))
      then show ?thesis using Some f o(1) \<open>i < N\<close> by (simp add: tmr_at_def wal_count(1))
    qed
  qed
qed

text \<open>The sector holds a fresh header with the next sequence number.\<close>

lemma ring_fresh:
  assumes "wal_ring cfg m S" "recyclable cfg m S v" "S + 1 < 2147483648" "tmr_wf t"
    and "\<And>k. k < N \<Longrightarrow> wal_sector cfg m' k =
      (if k = v then fresh_sector sec (of_nat (S + 1)) ec t else wal_sector cfg m k)"
  shows "wal_ring cfg m' (S + 1)" "tmr_at cfg m' (S + 1) = Some t"
    "S < q + 4 \<Longrightarrow> q \<le> S \<Longrightarrow> tmr_at cfg m' q = tmr_at cfg m q" "nseq cfg m' v = Some (S + 1)"
proof -
  have v: "v < N" using assms(2) by (simp add: recyclable_def wal_count(1))
  have o: "wal_header cfg m' k = wal_header cfg m k" "nseq cfg m' k = nseq cfg m k"
    if "k < N" "k \<noteq> v" for k
    using that assms(5) by (simp_all add: wal_header_def nseq_def wal_seq_def)
  have hv: "wal_header cfg m' v = Some (header_bytes (make_header (of_nat (S + 1)) ec t))"
    using assms(5) [OF v] header_in_fresh [OF assms(4)] by (simp add: wal_header_def)
  have u: "unat (of_nat (S + 1) :: u32) = S + 1" using assms(3) by (intro unat_of_nat_u32) simp
  show nv: "nseq cfg m' v = Some (S + 1)"
    using hv assms(4) u by (simp add: nseq_def wal_seq_def)
  have r: "\<And>i q. i < N \<Longrightarrow> nseq cfg m i = Some q \<Longrightarrow> q \<le> S"
    "\<And>i k. i < N \<Longrightarrow> k < N \<Longrightarrow> nseq cfg m i \<noteq> None \<Longrightarrow> nseq cfg m i = nseq cfg m k \<Longrightarrow> i = k"
    "\<And>i raw. i < N \<Longrightarrow> wal_header cfg m i = Some raw \<Longrightarrow> current_header raw"
    using assms(1) unfolding wal_ring_def wal_count(1) by blast+
  have le: "q \<le> S" if "i < N" "i \<noteq> v" "nseq cfg m' i = Some q" for i q using that o(2) r(1) by force
  show ring: "wal_ring cfg m' (S + 1)"
    unfolding wal_ring_def wal_count(1)
  proof (intro conjI allI impI)
    show "\<exists>i < N. nseq cfg m' i = Some (S + 1)" using v nv by blast
    show "current_header raw" if "i < N" "wal_header cfg m' i = Some raw" for i raw
      using that o(1) r(3) hv assms(4) by (cases "i = v") (auto simp: current_header_def)
    show "q \<le> S + 1" if "i < N" "nseq cfg m' i = Some q" for i q
      using that le [of i q] nv by (cases "i = v") auto
    show "i = k" if ik: "i < N" "k < N" "nseq cfg m' i \<noteq> None" "nseq cfg m' i = nseq cfg m' k" for i k
    proof (cases "i = v")
      case True
      then have "nseq cfg m' k = Some (S + 1)" using ik(4) nv by simp
      then show ?thesis using le [OF ik(2)] True by (metis add_le_same_cancel1 not_one_le_zero)
    next
      case False
      have "nseq cfg m' k \<noteq> Some (S + 1)" using le [OF ik(1) False] ik(4) by fastforce
      then have "k \<noteq> v" using nv by auto
      note ik(3,4) [unfolded o(2) [OF ik(1) False] o(2) [OF ik(2) this]]
      then show ?thesis using r(2) [OF ik(1,2)] by blast
    qed
  qed (use assms(3) in simp)
  show "tmr_at cfg m' (S + 1) = Some t"
    using tmr_at_sector [OF ring _ nv] v wal_count(1) hv assms(4) by simp
  show "tmr_at cfg m' q = tmr_at cfg m q" if q: "S < q + 4" "q \<le> S"
  proof -
    have "nseq cfg m' i = Some q \<longleftrightarrow> nseq cfg m i = Some q" if "i < N" for i
      using that o(2) nv assms(2) q by (cases "i = v") (auto simp: recyclable_def wal_count(1))
    then have f: "find (\<lambda>i. nseq cfg m' i = Some q) [0..<N] = find (\<lambda>i. nseq cfg m i = Some q) [0..<N]"
      by (intro find_cong) auto
    show ?thesis
    proof (cases "find (\<lambda>i. nseq cfg m i = Some q) [0..<N]")
      case None
      then show ?thesis by (simp add: tmr_at_def wal_count(1) f)
    next
      case (Some i)
      then have "i < N" "nseq cfg m i = Some q" by (auto simp: find_Some_iff)
      then have "i \<noteq> v" using assms(2) q by (auto simp: recyclable_def wal_count(1))
      then show ?thesis using Some f o(1) \<open>i < N\<close> by (simp add: tmr_at_def wal_count(1))
    qed
  qed
qed

section \<open>Initialisation\<close>

lemma ring_header:
  assumes "wal_ring cfg m S" "i < N" "wal_header cfg m i = Some raw"
  shows "nseq cfg m i = Some (unat (hd_sequence_id (header_of raw)))"
    "unat (hd_sequence_id (header_of raw)) \<le> S"
    "hd_sector_magic (header_of raw) = WAL_ABI_VERSION_MAGIC_CURRENT"
proof -
  show n: "nseq cfg m i = Some (unat (hd_sequence_id (header_of raw)))"
    using assms(3) by (simp add: nseq_def wal_seq_def)
  show "unat (hd_sequence_id (header_of raw)) \<le> S"
    using ring_seqD [OF assms(1) _ n] assms(2) wal_count(1) by simp
  show "hd_sector_magic (header_of raw) = WAL_ABI_VERSION_MAGIC_CURRENT"
    using assms unfolding wal_ring_def current_header_def wal_count(1) by blast
qed

lemma highest_ok:
  assumes "wal_ring cfg (mem s) S" "a < N" "nseq cfg (mem s) a = Some S" "wal_header cfg (mem s) a = Some rawa"
    and "live s" "\<forall>i \<in> set is. i < N"
    and "best = None \<or> (\<exists>k raw. best = Some (k, raw) \<and> k < N \<and> wal_header cfg (mem s) k = Some raw)"
    and "a \<in> set is \<or> best = Some (a, rawa)"
  shows "\<exists>s'. highest_loop cfg fl is best s = (Some (a, rawa), s') \<and> mem s' = mem s \<and> live s'"
  using assms
proof (induction "is" arbitrary: best s)
  case Nil
  then show ?case by auto
next
  case (Cons i "is")
  have i: "i < N" and tl: "\<forall>i \<in> set is. i < N" using Cons.prems(6) by auto
  obtain s1 where r: "read_header cfg fl i s = (wal_header cfg (mem s) i, s1)" "mem s1 = mem s" "live s1"
    using read_header_ok [OF Cons.prems(5) i] by blast
  note IH = Cons.IH [OF _ Cons.prems(2), where s = s1, unfolded r(2), OF Cons.prems(1,3,4) r(3) tl]
  have S: "S < 2147483648" "unat (hd_sequence_id (header_of rawa)) = S"
    using Cons.prems(1,3,4) by (auto simp: wal_ring_def nseq_header)
  show ?case
  proof (cases "wal_header cfg (mem s) i")
    case None
    then have "i \<noteq> a" using Cons.prems(4) by auto
    then show ?thesis using IH [OF Cons.prems(7)] Cons.prems(8) r(1) None by auto
  next
    case (Some raw)
    note h = ring_header [OF Cons.prems(1) i Some]
    let ?b = "case best of None \<Rightarrow> Some (i, raw) | Some (k, braw) \<Rightarrow>
      if is_newer_sequence (hd_sequence_id (header_of raw)) (hd_sequence_id (header_of braw))
      then Some (i, raw) else Some (k, braw)"
    have eq: "highest_loop cfg fl (i # is) best s = highest_loop cfg fl is ?b s1" using r(1) Some by simp
    have w: "?b = None \<or> (\<exists>k raw. ?b = Some (k, raw) \<and> k < N \<and> wal_header cfg (mem s) k = Some raw)"
      using Cons.prems(7) i Some by (cases best; auto split: if_splits; fastforce)
    have "a \<in> set is \<or> ?b = Some (a, rawa)"
    proof (cases best)
      case None
      then show ?thesis using Cons.prems(4,8) Some by auto
    next
      case b: (Some kb)
      obtain k braw where k: "kb = (k, braw)" "k < N" "wal_header cfg (mem s) k = Some braw"
        using Cons.prems(7) b by auto
      note hk = ring_header [OF Cons.prems(1) k(2,3)]
      have nw: "is_newer_sequence (hd_sequence_id (header_of raw)) (hd_sequence_id (header_of braw)) \<longleftrightarrow>
          unat (hd_sequence_id (header_of braw)) < unat (hd_sequence_id (header_of raw))"
        using h(2) hk(2) S(1) by (intro newer_nat) auto
      show ?thesis
      proof (cases "i = a")
        case True
        then have "raw = rawa" using Some Cons.prems(4) by simp
        then show ?thesis using b k nw S(2) hk True Cons.prems(1-3)
            ring_inj [OF Cons.prems(1), of k a S] wal_count(1) Cons.prems(4)
          by (cases "k = a") (auto simp: order.strict_iff_order)
      next
        case False
        then show ?thesis using Cons.prems(8) b k(1) nw S(2) h(2) by auto
      qed
    qed
    then show ?thesis unfolding eq by (rule IH [OF w])
  qed
qed

lemma find_tmr:
  assumes "live s" "wal_ring cfg (mem s) S" "q \<le> S"
  shows "\<exists>r s'. find_sector_by_seq cfg fl (of_nat q) s = (r, s') \<and> mem s' = mem s \<and> live s' \<and>
    map_option (\<lambda>(i, raw). candidate_of (wc_stage1_svn cfg) raw) r = tmr_at cfg (mem s) q"
proof -
  have q: "q < 4294967296" using assms(2,3) by (simp add: wal_ring_def)
  obtain s' where s': "find_sector_by_seq cfg fl (of_nat q) s =
      (map_option (\<lambda>i. (i, the (wal_header cfg (mem s) i))) (wal_find cfg (mem s) (of_nat q)), s')"
    "mem s' = mem s" "live s'" using find_sector_ok [OF assms(1)] by blast
  show ?thesis
  proof (cases "wal_find cfg (mem s) (of_nat q)")
    case None
    then show ?thesis using s' by (simp add: tmr_at_def wal_find_nseq [OF q])
  next
    case (Some i)
    then have "i < N" "nseq cfg (mem s) i = Some q"
      by (auto simp: wal_find_nseq [OF q] find_Some_iff wal_count(1))
    then obtain raw where "wal_header cfg (mem s) i = Some raw" by (auto simp: nseq_header)
    then show ?thesis using s' Some ring_header(3) [OF assms(2) \<open>i < N\<close>]
      by (simp add: tmr_at_def wal_find_nseq [OF q] candidate_of_def WAL_ABI_VERSION_MAGIC_CURRENT_def
          WAL_ABI_VERSION_MAGIC_LEGACY_def)
  qed
qed

lemma collect_ok:
  assumes "live s" "wal_ring cfg (mem s) S" "3 \<le> S"
  shows "\<exists>s'. collect_candidates cfg fl (of_nat S) ec [1, 2] [t] s = (candidates cfg (mem s) S t, s') \<and>
    mem s' = mem s \<and> live s'"
proof -
  have S: "S < 2147483648" using assms(2) by (simp add: wal_ring_def)
  have g: "\<not> (of_nat S :: u32) \<le> 1" "\<not> (of_nat S :: u32) \<le> 2"
    using assms(3) S by (simp_all add: word_le_nat_alt unat_of_nat_u32)
  have n: "(of_nat S - 1 :: u32) = of_nat (S - 1)" "(of_nat S - 2 :: u32) = of_nat (S - 2)"
    using assms(3) by (simp_all add: of_nat_diff)
  obtain r s1 where 1: "find_sector_by_seq cfg fl (of_nat (S - 1)) s = (r, s1)" "mem s1 = mem s" "live s1"
    "map_option (\<lambda>(i, raw). candidate_of (wc_stage1_svn cfg) raw) r = tmr_at cfg (mem s) (S - 1)"
    using find_tmr [OF assms(1,2), of "S - 1"] by auto
  obtain r' s2 where 2: "find_sector_by_seq cfg fl (of_nat (S - 2)) s1 = (r', s2)" "mem s2 = mem s" "live s2"
    "map_option (\<lambda>(i, raw). candidate_of (wc_stage1_svn cfg) raw) r' = tmr_at cfg (mem s) (S - 2)"
    using find_tmr [OF 1(3), of S "S - 2"] assms(2) 1(2) by auto
  show ?thesis using g n 1 2
    by (auto simp: candidates_def split: option.splits)
qed

lemma init_finish_ok:
  assumes "live s" "jn_active_wal_index j < N"
  shows "\<exists>st key s'. init_finish cfg p fl False j s = (BOOT_OK, j\<lparr>
      jn_cached_write_offset := frontier_of (wal_sector cfg (mem s) (jn_active_wal_index j)),
      jn_wal_initialized := True, jn_journal_key_valid := (st = BOOT_OK), jn_journal_key := key\<rparr>, s') \<and>
    mem s' = mem s \<and> live s'"
proof -
  let ?off = "frontier_of (wal_sector cfg (mem s) (jn_active_wal_index j))"
  obtain s1 where 1: "scan_for_frontier_linear p fl (wc_sector_addrs cfg ! jn_active_wal_index j) sec
      (fh_erased_value fl) s = (?off, s1)" "mem s1 = mem s" "live s1"
    using frontier_ok [OF assms] by blast
  obtain st key s2 where 2: "boot_derive_journal_key p s1 = (st, key, s2)" by (metis prod_cases3)
  then have "mem s2 = mem s" "live s2" using journal_key_frame 1 by auto
  then show ?thesis using 1(1) 2 assms(2)
    by (intro exI [of _ st] exI [of _ key] exI [of _ s2]) (simp add: init_finish_def Let_def)
qed

lemma init_ok:
  assumes "live s" "wal_ring cfg (mem s) S" "3 \<le> S" "a < N" "nseq cfg (mem s) a = Some S"
    and "wal_header cfg (mem s) a = Some raw"
    and "tm_struct_version (hd_tmr_data (header_of raw)) = WAL_TMR_VERSION_CURRENT"
  shows "\<exists>j' s'. boot_journal_init cfg p j s = Returns (BOOT_OK, j') s' \<and> mem s' = mem s \<and> live s' \<and>
    jn_wal_initialized j' \<and> jn_active_wal_index j' = a \<and>
    jn_cached_write_offset j' = frontier_of (wal_sector cfg (mem s) a) \<and>
    jn_current_active_header j' = (header_of raw)\<lparr>hd_tmr_data :=
      voted_tmr (candidates cfg (mem s) S (hd_tmr_data (header_of raw)))\<rparr>"
proof -
  let ?h = "header_of raw" and ?c = "candidates cfg (mem s) S (hd_tmr_data (header_of raw))"
  note h = ring_header [OF assms(2,4,6)]
  have sq: "hd_sequence_id ?h = of_nat S"
  proof -
    have "unat (hd_sequence_id ?h) = S" "S < 4294967296" using h(1) assms(2,5) by (auto simp: wal_ring_def)
    then show ?thesis by (simp add: word_unat_eq_iff unat_of_nat_u32)
  qed
  obtain s1 where 1: "highest_loop cfg fl [0..<N] None s = (Some (a, raw), s1)" "mem s1 = mem s" "live s1"
    using highest_ok [OF assms(2,4,5,6,1), of "[0..<N]" None] assms(4) by auto
  obtain s2 where 2: "collect_candidates cfg fl (of_nat S) (hd_erase_count ?h) [1, 2] [hd_tmr_data ?h] s1 = (?c, s2)"
    "mem s2 = mem s" "live s2"
    using collect_ok [OF 1(3), of S "hd_erase_count ?h" "hd_tmr_data ?h"] assms(2,3) 1(2) by auto
  have ad: "adopt_header (wc_stage1_svn cfg) raw = (?h, False)"
    using h(3) assms(7) by (simp add: adopt_header_def WAL_ABI_VERSION_MAGIC_CURRENT_def
        WAL_ABI_VERSION_MAGIC_LEGACY_def)
  let ?j = "j\<lparr>jn_active_wal_index := a, jn_current_active_header := ?h\<lparr>hd_tmr_data := voted_tmr ?c\<rparr>\<rparr>"
  obtain st key s3 where 3: "init_finish cfg p fl False ?j s2 = (BOOT_OK, ?j\<lparr>
      jn_cached_write_offset := frontier_of (wal_sector cfg (mem s) a),
      jn_wal_initialized := True, jn_journal_key_valid := (st = BOOT_OK), jn_journal_key := key\<rparr>, s3)"
    "mem s3 = mem s" "live s3"
    using init_finish_ok [OF 2(3), of ?j] assms(4) 2(2) by auto
  have sz: "\<not> (\<exists>sz \<in> set (take (wal_sectors cfg) (wc_sector_sizes cfg)). sz < WAL_HEADER_SIZE + WAL_ENTRY_SIZE)"
    using wal_min by (auto simp: wal_sizes WAL_HEADER_SIZE_def WAL_ENTRY_SIZE_def dest: in_set_takeD)
  obtain w where w: "pf_wdt p = Some w" using wal_wdt by blast
  show ?thesis
    unfolding boot_journal_init_def flash_ptr w
    using sz 1(1) 2(1) 3 ad assms(7) wal_count
    by (simp add: MAX_WAL_SECTORS_def sq Let_def del: collect_candidates.simps)
qed

section \<open>The quorum write\<close>

lemma exists_open:
  assumes "wal_ring cfg m S" "5 \<le> N"
    and "\<And>x. x \<in> set ex \<Longrightarrow> x < N \<and> (\<exists>q. nseq cfg m x = Some q \<and> S < q + 4)"
  shows "\<exists>i < N. wear_open m (of_nat S) ex i"
proof (rule ccontr)
  assume c: "\<not> ?thesis"
  have S: "unat (of_nat S :: u32) = S" using assms(1) by (simp add: wal_ring_def unat_of_nat_u32)
  have q: "\<exists>q. nseq cfg m i = Some q \<and> S < q + 4 \<and> q \<le> S" if i: "i < N" for i
  proof (cases "i \<in> set ex")
    case True
    then show ?thesis using assms(3) ring_seqD [OF assms(1)] i wal_count(1) by blast
  next
    case False
    then obtain raw where raw: "wal_header cfg m i = Some raw"
      "of_nat S - hd_sequence_id (header_of raw) < WAL_PROTECT_WINDOW"
      using c i by (auto simp: wear_open_def)
    note h = ring_header [OF assms(1) i raw(1)]
    show ?thesis using h(1,2) raw(2) S seq_age [of "hd_sequence_id (header_of raw)" "of_nat S"] by auto
  qed
  have inj: "inj_on (\<lambda>i. the (nseq cfg m i)) {..<N}"
  proof (rule inj_onI)
    fix i k assume "i \<in> {..<N}" "k \<in> {..<N}" "the (nseq cfg m i) = the (nseq cfg m k)"
    then show "i = k" using q [of i] q [of k] ring_inj [OF assms(1), of i k] wal_count(1) by auto
  qed
  have "(\<lambda>i. the (nseq cfg m i)) ` {..<N} \<subseteq> {S - 3..S}" using q by fastforce
  then have "card {..<N} \<le> card {S - 3..S}" using card_inj_on_le [OF inj] by blast
  then show False using assms(2) by simp
qed

lemma quorum_step:
  assumes "live s" "wal_ring cfg (mem s) S" "5 \<le> N" "S + 1 < 2147483648" "tmr_wf t"
    and "worn cfg (mem s) B" "2 \<le> B"
    and "\<And>x. x \<in> set ex \<Longrightarrow> x < N \<and> (\<exists>q. nseq cfg (mem s) x = Some q \<and> S < q + 4)"
  shows "\<exists>v ec s1 s2. get_best_wear_leveling_sector cfg fl (of_nat S) ex s = (v, s1) \<and>
    rotate_to_sector cfg p fl v (of_nat (S + 1)) t s1 = (BOOT_OK, ec, s2) \<and> live s2 \<and> v \<notin> set ex \<and>
    recyclable cfg (mem s) S v \<and> worn cfg (mem s2) (B - 1) \<and>
    (\<forall>k < N. wal_sector cfg (mem s2) k =
       (if k = v then fresh_sector sec (of_nat (S + 1)) ec t else wal_sector cfg (mem s) k))"
proof -
  obtain v s1 where 1: "get_best_wear_leveling_sector cfg fl (of_nat S) ex s = (v, s1)" "mem s1 = mem s" "live s1"
    "v < N" "(\<exists>i < N. wear_open (mem s) (of_nat S) ex i \<and>
        (wal_header cfg (mem s) i = None \<or> old_erase_count cfg (mem s) i < UINT32_MAX)) \<longrightarrow>
      wear_open (mem s) (of_nat S) ex v"
    using wear_ok [OF assms(1), of "of_nat S" ex] by blast
  have ec: "unat (old_erase_count cfg (mem s) i) + B < 4294967296" if "i < N" for i
    using assms(6) that by (simp add: worn_def wal_count(1))
  obtain i where i: "i < N" "wear_open (mem s) (of_nat S) ex i"
    using exists_open [OF assms(2,3,8)] by blast
  have "old_erase_count cfg (mem s) i < UINT32_MAX" using ec [OF i(1)] assms(7)
    by (simp add: word_less_nat_alt)
  then have op: "wear_open (mem s) (of_nat S) ex v" using 1(5) i by blast
  obtain s2 where 2: "rotate_to_sector cfg p fl v (of_nat (S + 1)) t s1 =
      (BOOT_OK, old_erase_count cfg (mem s) v + 1, s2)" "live s2"
    "mem s2 = patch (addr v) (fresh_sector sec (of_nat (S + 1)) (old_erase_count cfg (mem s) v + 1) t) (mem s)"
    using rotate_ok [OF 1(3,4) assms(5), of "of_nat (S + 1)"] 1(2) by auto
  let ?ec = "old_erase_count cfg (mem s) v + 1"
  have sc: "wal_sector cfg (mem s2) k =
       (if k = v then fresh_sector sec (of_nat (S + 1)) ?ec t else wal_sector cfg (mem s) k)" if "k < N" for k
    by (rule rotated_sector [OF assms(1) 1(4) that assms(5) 2(3)])
  have "worn cfg (mem s2) (B - 1)"
    unfolding worn_def wal_count(1)
  proof (intro allI impI)
    fix k assume k: "k < N"
    have u: "unat ?ec = unat (old_erase_count cfg (mem s) v) + 1"
      using ec [OF 1(4)] assms(7) by (simp add: unat_add_no_wrap)
    have "old_erase_count cfg (mem s2) k = (if k = v then ?ec else old_erase_count cfg (mem s) k)"
      using sc [OF k] header_in_fresh [OF assms(5)] assms(5)
      by (simp add: old_erase_count_def wal_header_def)
    then show "unat (old_erase_count cfg (mem s2) k) + (B - 1) < 4294967296"
      using ec [OF k] ec [OF 1(4)] u assms(7) by (cases "k = v") auto
  qed
  moreover have "v \<notin> set ex" using op by (simp add: wear_open_def)
  ultimately show ?thesis
    using 1(1) 2(1,2) sc open_recyclable [OF assms(2) 1(4) op] by blast
qed

lemma quorum_write_ok:
  assumes "live s" "wal_ring cfg (mem s) S" "5 \<le> N" "S + n < 2147483648" "tmr_wf t"
    and "worn cfg (mem s) B" "n + 1 \<le> B" "base \<le> S \<and> S + n \<le> base + 3"
    and "\<And>x. x \<in> set ex \<Longrightarrow> x < N \<and> (\<exists>q. nseq cfg (mem s) x = Some q \<and> base \<le> q)"
  shows "\<exists>idx' ec' s'. quorum_write cfg p fl t n (of_nat S) idx ex ec s =
      (BOOT_OK, of_nat (S + n), idx', ec', s') \<and> live s' \<and> wal_ring cfg (mem s') (S + n) \<and>
    (\<forall>q \<le> S + n. S + n < q + 4 \<longrightarrow>
       tmr_at cfg (mem s') q = (if q \<le> S then tmr_at cfg (mem s) q else Some t)) \<and>
    (0 < n \<longrightarrow> idx' < N \<and> nseq cfg (mem s') idx' = Some (S + n) \<and>
       wal_sector cfg (mem s') idx' = fresh_sector sec (of_nat (S + n)) ec' t)"
  using assms
proof (induction n arbitrary: S idx ex ec s B)
  case 0
  then show ?case by auto
next
  case (Suc n)
  have ex4: "x < N \<and> (\<exists>q. nseq cfg (mem s) x = Some q \<and> S < q + 4)" if "x \<in> set ex" for x
    using Suc.prems(9) [OF that] Suc.prems(8) by force
  have S1: "S + 1 < 2147483648" and B2: "2 \<le> B" using Suc.prems(4,7) by simp_all
  obtain v ec1 s1 s2 where 1: "get_best_wear_leveling_sector cfg fl (of_nat S) ex s = (v, s1)"
    "rotate_to_sector cfg p fl v (of_nat (S + 1)) t s1 = (BOOT_OK, ec1, s2)" "live s2" "v \<notin> set ex"
    "recyclable cfg (mem s) S v" "worn cfg (mem s2) (B - 1)"
    and sc: "\<And>k. k < N \<Longrightarrow> wal_sector cfg (mem s2) k =
       (if k = v then fresh_sector sec (of_nat (S + 1)) ec1 t else wal_sector cfg (mem s) k)"
    using quorum_step [where ex = ex, OF Suc.prems(1-3) S1 Suc.prems(5,6) B2 ex4] by blast
  note f = ring_fresh [OF Suc.prems(2) 1(5) S1 Suc.prems(5) sc]
  have v: "v < N" using 1(5) by (simp add: recyclable_def wal_count(1))
  have ex': "x < N \<and> (\<exists>q. nseq cfg (mem s2) x = Some q \<and> base \<le> q)" if "x \<in> set (ex @ [v])" for x
  proof (cases "x = v")
    case True
    then show ?thesis using v f(4) Suc.prems(8) Suc.prems(9) by auto
  next
    case False
    then have x: "x \<in> set ex" using that by simp
    then have "nseq cfg (mem s2) x = nseq cfg (mem s) x"
      using sc [of x] Suc.prems(9) [OF x] False by (simp add: nseq_def wal_seq_def wal_header_def)
    then show ?thesis using Suc.prems(9) [OF x] by simp
  qed
  obtain idx' ec' s' where 2: "quorum_write cfg p fl t n (of_nat (S + 1)) v (ex @ [v]) ec1 s2 =
      (BOOT_OK, of_nat (S + 1 + n), idx', ec', s')" "live s'" "wal_ring cfg (mem s') (S + 1 + n)"
    "\<forall>q \<le> S + 1 + n. S + 1 + n < q + 4 \<longrightarrow>
       tmr_at cfg (mem s') q = (if q \<le> S + 1 then tmr_at cfg (mem s2) q else Some t)"
    "0 < n \<longrightarrow> idx' < N \<and> nseq cfg (mem s') idx' = Some (S + 1 + n) \<and>
       wal_sector cfg (mem s') idx' = fresh_sector sec (of_nat (S + 1 + n)) ec' t"
  proof -
    have "S + 1 + n < 2147483648" "n + 1 \<le> B - 1" "base \<le> S + 1 \<and> S + 1 + n \<le> base + 3"
      using Suc.prems(4,7,8) by auto
    from Suc.IH [where idx = v and ec = ec1 and ex = "ex @ [v]", OF 1(3) f(1) Suc.prems(3) this(1)
        Suc.prems(5) 1(6) this(2,3) ex'] that show ?thesis by blast
  qed
  have w: "quorum_write cfg p fl t (Suc n) (of_nat S) idx ex ec s =
      (BOOT_OK, of_nat (S + Suc n), idx', ec', s')"
    using 1(1,2) 2(1) by (simp add: add.commute add.left_commute)
  have q: "tmr_at cfg (mem s') q = (if q \<le> S then tmr_at cfg (mem s) q else Some t)"
    if "q \<le> S + Suc n" "S + Suc n < q + 4" for q
    using that 2(4) f(2) f(3) [of q] by (cases "q = S + 1") auto
  have z: "n = 0 \<Longrightarrow> idx' = v \<and> ec' = ec1 \<and> s' = s2" using 2(1) by simp
  have "idx' < N \<and> nseq cfg (mem s') idx' = Some (S + Suc n) \<and>
       wal_sector cfg (mem s') idx' = fresh_sector sec (of_nat (S + Suc n)) ec' t"
    using 2(5) z v f(4) sc [OF v] by (cases "n = 0") auto
  then show ?case using w q 2(2,3) by auto
qed

section \<open>Power failures during an update\<close>

lemma voted_three:
  assumes "tmr_wf x" "tmr_wf y" "tmr_wf z"
  shows "voted_tmr [x, y, z] = (if x = y \<or> x = z then x else if y = z then y else x)"
  using vote_majority [of "[x, y, z]"] assms by (simp add: voted_tmr_def numeral_2_eq_2 numeral_3_eq_3)

text \<open>The boot after a ring whose three newest payloads are \<open>x\<close>, \<open>y\<close> and \<open>z\<close>.\<close>

lemma boot_vote:
  assumes "live s" "wal_ring cfg (mem s) S" "3 \<le> S"
    and "tmr_at cfg (mem s) S = Some x" "tmr_at cfg (mem s) (S - 1) = Some y" "tmr_at cfg (mem s) (S - 2) = Some z"
    and "tmr_wf x" "tmr_wf y" "tmr_wf z" "tm_struct_version x = WAL_TMR_VERSION_CURRENT"
  shows "\<exists>j' s'. boot_journal_init cfg p j s = Returns (BOOT_OK, j') s' \<and> mem s' = mem s \<and> live s' \<and>
    boot_journal_get_tmr j' = (BOOT_OK, Some (if x = y \<or> x = z then x else if y = z then y else x))"
proof -
  obtain a raw where a: "a < N" "nseq cfg (mem s) a = Some S" "wal_header cfg (mem s) a = Some raw"
    "hd_tmr_data (header_of raw) = x"
    using tmr_at_SomeE [OF assms(2,4)] wal_count(1) by metis
  have c: "candidates cfg (mem s) S x = [x, y, z]" using assms(5,6) by (simp add: candidates_def)
  show ?thesis
    using init_ok [OF assms(1-3) a(1-3), of j] a(4) assms(10) c voted_three [OF assms(7-9)]
    by (auto simp: boot_journal_get_tmr_def)
qed

lemma crash_ok:
  assumes "live s" "wal_ring cfg (mem s) S" "5 \<le> N" "3 \<le> S" "S + 3 < 2147483648" "worn cfg (mem s) 4"
    and "\<And>q. q \<le> S \<Longrightarrow> S < q + 3 \<Longrightarrow> tmr_at cfg (mem s) q = Some t"
    and "tmr_wf t" "tmr_wf t'" "tm_struct_version t = WAL_TMR_VERSION_CURRENT"
    and "tm_struct_version t' = WAL_TMR_VERSION_CURRENT"
    and "a < N" "nseq cfg (mem s) a = Some S" "n \<le> 3"
  shows "\<exists>idx ec' s1. quorum_write cfg p fl t' n (of_nat S) a [a] ec s =
      (BOOT_OK, of_nat (S + n), idx, ec', s1) \<and> live s1 \<and>
    (\<forall>s2. live s2 \<and> (mem s2 = mem s1 \<or> (\<exists>v. interrupted cfg (mem s1) (S + n) v (mem s2))) \<longrightarrow>
      (\<exists>j' s3. boot_journal_init cfg p j s2 = Returns (BOOT_OK, j') s3 \<and>
         boot_journal_get_tmr j' = (BOOT_OK, Some (if n \<le> 1 then t else t'))))"
proof -
  have ex: "x < N \<and> (\<exists>q. nseq cfg (mem s) x = Some q \<and> S \<le> q)" if "x \<in> set [a]" for x
    using that assms(12,13) by simp
  obtain idx ec' s1 where 1: "quorum_write cfg p fl t' n (of_nat S) a [a] ec s =
      (BOOT_OK, of_nat (S + n), idx, ec', s1)" "live s1" "wal_ring cfg (mem s1) (S + n)"
    and q: "\<And>q. q \<le> S + n \<Longrightarrow> S + n < q + 4 \<Longrightarrow>
       tmr_at cfg (mem s1) q = (if q \<le> S then tmr_at cfg (mem s) q else Some t')"
  proof -
    have "S + n < 2147483648" "n + 1 \<le> 4" "S \<le> S \<and> S + n \<le> S + 3" using assms(5,14) by auto
    from quorum_write_ok [where ex = "[a]" and idx = a and ec = ec, OF assms(1-3) this(1) assms(9,6) this(2,3) ex]
    show ?thesis using that by blast
  qed
  show ?thesis
  proof (rule exI [of _ idx], rule exI [of _ ec'], rule exI [of _ s1], intro conjI allI impI)
    fix s2 assume s2: "live s2 \<and> (mem s2 = mem s1 \<or> (\<exists>v. interrupted cfg (mem s1) (S + n) v (mem s2)))"
    have r: "wal_ring cfg (mem s2) (S + n) \<and>
      (\<forall>q \<le> S + n. S + n < q + 4 \<longrightarrow> tmr_at cfg (mem s2) q = tmr_at cfg (mem s1) q)"
      using s2 1(3) ring_junk [OF 1(3)] unfolding interrupted_def wal_count(1) by metis
    have t: "tmr_at cfg (mem s2) q = (if q \<le> S then Some t else Some t')"
      if "q \<le> S + n" "S + n < q + 3" for q
      using that r q [of q] assms(7) [of q] by auto
    have b: "tmr_at cfg (mem s2) (S + n) = Some (if n = 0 then t else t')"
      "tmr_at cfg (mem s2) (S + n - 1) = Some (if n \<le> 1 then t else t')"
      "tmr_at cfg (mem s2) (S + n - 2) = Some (if n \<le> 2 then t else t')"
      using t [of "S + n"] t [of "S + n - 1"] t [of "S + n - 2"] assms(4) by auto
    show "\<exists>j' s3. boot_journal_init cfg p j s2 = Returns (BOOT_OK, j') s3 \<and>
         boot_journal_get_tmr j' = (BOOT_OK, Some (if n \<le> 1 then t else t'))"
    proof -
      let ?x = "if n = 0 then t else t'" and ?y = "if n \<le> 1 then t else t'" and ?z = "if n \<le> 2 then t else t'"
      have w: "tmr_wf ?x" "tmr_wf ?y" "tmr_wf ?z" "tm_struct_version ?x = WAL_TMR_VERSION_CURRENT"
        using assms(8-11) by auto
      have v: "(if ?x = ?y \<or> ?x = ?z then ?x else if ?y = ?z then ?y else ?x) = ?y"
        by (cases "n = 0"; cases "n = 1"; cases "n = 2") auto
      have "3 \<le> S + n" using assms(4) by simp
      from boot_vote [OF conjunct1 [OF s2] conjunct1 [OF r] this b w, of j, unfolded v] show ?thesis by blast
    qed
  qed (use 1 in auto)
qed

section \<open>A completed update\<close>

lemma bind_epoch_shape:
  assumes "bind_epoch p j t s = (t', s')" "tmr_wf t"
  shows "\<exists>tag. t' = t\<lparr>tm_chain_tag := tag\<rparr> \<and> tmr_wf t'"
proof -
  have h: "length tag = 16" if "hash_chain_compute c segs x = (st, tag, x')" for segs x st tag x'
    using that by (auto simp: hash_chain_compute_def fill_prefix_def split: prod.splits if_splits)
  have "\<exists>tag. t' = t\<lparr>tm_chain_tag := tag\<rparr> \<and> length tag = 16"
  proof (cases "t' = t")
    case True
    then show ?thesis using assms(2) by (intro exI [of _ "tm_chain_tag t"]) (simp add: tmr_wf_def)
  next
    case False
    then show ?thesis using assms(1) h
      by (fastforce simp: bind_epoch_def crypto_ptr Let_def split: prod.splits if_splits)
  qed
  then show ?thesis using assms(2) by (auto simp: tmr_wf_def)
qed

lemma update_ok:
  assumes "live s" "wal_ring cfg (mem s) S" "5 \<le> N" "3 \<le> S" "S + 3 < 2147483648" "worn cfg (mem s) 4"
    and "tmr_wf t'" "tm_struct_version t' = WAL_TMR_VERSION_CURRENT"
    and "jn_wal_initialized j" "jn_active_wal_index j < N" "nseq cfg (mem s) (jn_active_wal_index j) = Some S"
    and "hd_sequence_id (jn_current_active_header j) = of_nat S"
    and "tmr_wf (hd_tmr_data (jn_current_active_header j))" "hd_tmr_data (jn_current_active_header j) \<noteq> t'"
    and "fh_max_erase_cycles fl = 0"
  shows "\<exists>tag j' s'. boot_journal_update_tmr cfg p j t' s = (BOOT_OK, j', s') \<and> live s' \<and>
    boot_journal_get_tmr j' = (BOOT_OK, Some (t'\<lparr>tm_chain_tag := tag\<rparr>)) \<and>
    wal_ring cfg (mem s') (S + 3) \<and>
    (\<exists>j2 s2. boot_journal_init cfg p jram s' = Returns (BOOT_OK, j2) s2 \<and>
       boot_journal_get_tmr j2 = (BOOT_OK, Some (t'\<lparr>tm_chain_tag := tag\<rparr>)))"
proof -
  let ?a = "jn_active_wal_index j" and ?h = "jn_current_active_header j"
  obtain w where w: "pf_wdt p = Some w" using wal_wdt by blast
  obtain raw where raw: "wal_header cfg (mem s) ?a = Some raw" using assms(11) by (auto simp: nseq_header)
  obtain s1 where "read_header cfg fl ?a s = (Some raw, s1)" and m1: "mem s1 = mem s" "live s1"
    using read_header_ok [OF assms(1,10)] raw by auto
  then have lg: "active_magic_legacy cfg fl j s = (False, s1)"
    using ring_header(3) [OF assms(2,10) raw]
    by (simp add: active_magic_legacy_def WAL_ABI_VERSION_MAGIC_CURRENT_def WAL_ABI_VERSION_MAGIC_LEGACY_def)
  have ns: "\<not> tmr_same (hd_tmr_data ?h) t'" using tmr_same_iff assms(7,13,14) by blast
  obtain u s2 where u: "bind_epoch p j t' s1 = (u, s2)" by fastforce
  then have m2: "mem s2 = mem s" "live s2" using bind_epoch_frame m1 by auto
  obtain tag where tag: "u = t'\<lparr>tm_chain_tag := tag\<rparr>" "tmr_wf u" using bind_epoch_shape [OF u assms(7)] by blast
  have ex: "x < N \<and> (\<exists>q. nseq cfg (mem s2) x = Some q \<and> S \<le> q)" if "x \<in> set [?a]" for x
    using that assms(10,11) m2 by simp
  have b: "S + 3 < 2147483648" "3 + 1 \<le> (4 :: nat)" "S \<le> S \<and> S + 3 \<le> S + 3" using assms(5) by auto
  obtain idx ec s3 where 3: "quorum_write cfg p fl u 3 (of_nat S) ?a [?a] (hd_erase_count ?h) s2 =
      (BOOT_OK, of_nat (S + 3), idx, ec, s3)" "live s3" "wal_ring cfg (mem s3) (S + 3)"
    and q: "\<And>q. q \<le> S + 3 \<Longrightarrow> S + 3 < q + 4 \<Longrightarrow>
       tmr_at cfg (mem s3) q = (if q \<le> S then tmr_at cfg (mem s2) q else Some u)"
    using quorum_write_ok [where ex = "[?a]" and idx = ?a and ec = "hd_erase_count ?h",
        OF m2(2) assms(2) [folded m2(1)] assms(3) b(1) tag(2) assms(6) [folded m2(1)] b(2,3) ex] by blast
  have t: "tmr_at cfg (mem s3) (S + 3) = Some u" "tmr_at cfg (mem s3) (S + 3 - 1) = Some u"
    "tmr_at cfg (mem s3) (S + 3 - 2) = Some u" using q [of "S + 3"] q [of "S + 2"] q [of "S + 1"] by auto
  have v: "tm_struct_version u = WAL_TMR_VERSION_CURRENT" using tag(1) assms(8) by simp
  obtain j2 s4 where 4: "boot_journal_init cfg p jram s3 = Returns (BOOT_OK, j2) s4"
    "boot_journal_get_tmr j2 = (BOOT_OK, Some u)"
    using boot_vote [OF 3(2,3) _ t tag(2) tag(2) tag(2) v, of jram] assms(4) by auto
  show ?thesis
    unfolding boot_journal_update_tmr_def flash_ptr w
    using assms(9,12,15) lg ns u 3 4 tag(1)
    by (intro exI [of _ tag]) (simp add: Let_def boot_journal_get_tmr_def)
qed

end

section \<open>A device of five sectors\<close>

text \<open>
  The witnesses' device: five WAL sectors of 192 bytes on the simulator, holding the quorum of one
  payload under the sequence numbers 3 to 7.
\<close>

definition demo_config :: wal_config where
  "demo_config = \<lparr> wc_sector_addrs = [0, 192, 384, 576, 768], wc_sector_sizes = replicate 5 192,
     wc_max_sector_size = 192, wc_stage1_svn = 0 \<rparr>"

definition demo_port :: "flash_model flash_hal" where
  "demo_port = model_port 192 1 0xFF 0"

definition demo_platform :: "flash_model platform" where
  "demo_platform = sandbox_platform demo_port (Pair 4)"

definition demo_tmr :: wal_tmr_payload where
  "demo_tmr = tmr_zero\<lparr> tm_struct_version := WAL_TMR_VERSION_CURRENT,
     tm_populated_size := WAL_TMR_POPULATED_SIZE \<rparr>"

definition demo_image_of :: "wal_tmr_payload \<Rightarrow> u8 list" where
  "demo_image_of t = concat (map (\<lambda>i. fresh_sector 192 (of_nat (3 + i)) 1 t) [0..<5])"

abbreviation demo_image :: "u8 list" where
  "demo_image \<equiv> demo_image_of demo_tmr"

definition demo_state_of :: "wal_tmr_payload \<Rightarrow> flash_model" where
  "demo_state_of t = \<lparr> fm_file = demo_image_of t, fm_total_size = 960, fm_sector_size = 192,
     fm_erased_value = 0xFF, fm_write_align = 1, fm_fail_at_op = 0, fm_torn_prefix = 0,
     fm_op_counter = 0 \<rparr>"

abbreviation demo_state :: flash_model where
  "demo_state \<equiv> demo_state_of demo_tmr"

lemma demo_file [simp]: "fm_file (demo_state_of t) = demo_image_of t"
  by (simp add: demo_state_of_def)

lemma demo_tmr_wf [simp]: "tmr_wf demo_tmr"
  using tmr_zero_wf by (simp add: demo_tmr_def tmr_wf_def)

lemma demo_version [simp]: "tm_struct_version demo_tmr = WAL_TMR_VERSION_CURRENT"
  by (simp add: demo_tmr_def)

lemma length_fresh [simp]: "tmr_wf t \<Longrightarrow> 128 \<le> n \<Longrightarrow> length (fresh_sector n q ec t) = n"
  by (simp add: fresh_sector_def)

lemma demo_sel [simp]: "wal_sectors demo_config = 5" "wc_sector_sizes demo_config = replicate 5 192"
  by (simp_all add: demo_config_def)

lemma demo_addr: "i < 5 \<Longrightarrow> unat (wc_sector_addrs demo_config ! i) = 192 * i"
proof -
  assume "i < 5"
  then consider "i = 0" | "i = 1" | "i = 2" | "i = 3" | "i = 4" by linarith
  then show ?thesis by cases (simp_all add: demo_config_def)
qed

interpretation demo: wal_device demo_platform demo_port fm_file "model_live 960 192 1 0xFF" 960 192 1
    "sandbox_crypto_hal (Pair 4)" demo_config 5
proof (intro_locales)
  show "flash_contract demo_platform demo_port fm_file (model_live 960 192 1 255) 960 192 1"
    unfolding demo_platform_def demo_port_def by (rule sandbox_contract, rule model_contract) simp_all
  show "crypto_frame demo_platform (sandbox_crypto_hal (Pair 4)) fm_file (model_live 960 192 1 255)"
    unfolding demo_platform_def by (rule sandbox_leaves_flash)
  have "distinct (wc_sector_addrs demo_config)" by (simp add: demo_config_def)
  then show "wal_device_axioms demo_platform demo_port 960 192 1 demo_config 5"
    by unfold_locales (simp_all add: demo_addr demo_port_def demo_platform_def)
qed

lemma demo_image_blocks:
  "tmr_wf t \<Longrightarrow> \<forall>x \<in> set (map (\<lambda>i. fresh_sector 192 (of_nat (3 + i)) 1 t) [0..<5]). length x = 192"
  by simp

lemma demo_live: "tmr_wf t \<Longrightarrow> model_live 960 192 1 0xFF (demo_state_of t)"
  using length_concat_blocks [OF demo_image_blocks [of t]]
  by (simp add: model_live_def demo_state_of_def demo_image_of_def)

lemma demo_sector:
  assumes "tmr_wf t" "i < 5"
  shows "wal_sector demo_config (demo_image_of t) i = fresh_sector 192 (of_nat (3 + i)) 1 t"
  using assms slice_concat_blocks [OF demo_image_blocks [OF assms(1)], of i]
  by (simp add: wal_sector_def demo_addr demo_image_of_def)

lemma demo_header:
  "tmr_wf t \<Longrightarrow> i < 5 \<Longrightarrow> wal_header demo_config (demo_image_of t) i =
     Some (header_bytes (make_header (of_nat (3 + i)) 1 t))"
  by (simp add: wal_header_def demo_sector header_in_fresh)

lemma demo_nseq: "tmr_wf t \<Longrightarrow> i < 5 \<Longrightarrow> nseq demo_config (demo_image_of t) i = Some (3 + i)"
  using unat_of_nat_u32 [of "3 + i"] by (simp add: nseq_def wal_seq_def demo_header)

lemma demo_ring: "tmr_wf t \<Longrightarrow> wal_ring demo_config (demo_image_of t) 7"
  unfolding wal_ring_def demo_sel
proof (intro conjI allI impI)
  assume "tmr_wf t"
  then show "\<exists>i < 5. nseq demo_config (demo_image_of t) i = Some 7"
    using demo_nseq [of t 4] by (intro exI [of _ 4]) simp
qed (auto simp: demo_nseq demo_header current_header_def)

lemma demo_quorum: "tmr_wf t \<Longrightarrow> q \<le> 7 \<Longrightarrow> 3 \<le> q \<Longrightarrow> tmr_at demo_config (demo_image_of t) q = Some t"
  using tmr_at_sector [OF demo_ring, of t "q - 3" q] demo_nseq [of t "q - 3"] demo_header [of t "q - 3"]
  by simp

lemma demo_worn: "B \<le> 8 \<Longrightarrow> worn demo_config demo_image B"
  by (simp add: worn_def old_erase_count_def demo_header)

definition demo_update :: wal_tmr_payload where
  "demo_update = demo_tmr\<lparr>tm_app_svn := 5\<rparr>"

lemma demo_update_wf [simp]: "tmr_wf demo_update"
  "tm_struct_version demo_update = WAL_TMR_VERSION_CURRENT" "demo_tmr \<noteq> demo_update"
proof -
  show "tmr_wf demo_update" using demo_tmr_wf unfolding demo_update_def tmr_wf_def by simp
  show "tm_struct_version demo_update = WAL_TMR_VERSION_CURRENT" by (simp add: demo_update_def)
  have "tm_app_svn demo_tmr = 0" by (simp add: demo_tmr_def tmr_zero_def)
  then show "demo_tmr \<noteq> demo_update" by (auto simp: demo_update_def dest: arg_cong [of _ _ tm_app_svn])
qed

section \<open>The properties\<close>

text \<open>
  C9. A TMR update is atomic across power failures on a log of at least five sectors. Stop it after
  any number \<open>n\<close> of its three header writes, leave the sector of the next one blank or torn, and
  boot: the journal comes up and its majority vote gives the old payload for \<open>n \<le> 1\<close> and the new
  one for \<open>n \<ge> 2\<close>, never a mixture.
\<close>

theorem tmr_update_crash_safe:
  assumes "wal_device p fl mem live tot sec wa c cfg N"
    and "live s" "wal_ring cfg (mem s) S" "5 \<le> N" "3 \<le> S" "S + 3 < 2147483648" "worn cfg (mem s) 4"
    and "\<And>q. q \<le> S \<Longrightarrow> S < q + 3 \<Longrightarrow> tmr_at cfg (mem s) q = Some t"
    and "tmr_wf t" "tmr_wf t'" "tm_struct_version t = WAL_TMR_VERSION_CURRENT"
    and "tm_struct_version t' = WAL_TMR_VERSION_CURRENT"
    and "a < N" "nseq cfg (mem s) a = Some S" "n \<le> 3"
  shows "\<exists>idx ec' s1. quorum_write cfg p fl t' n (of_nat S) a [a] ec s =
      (BOOT_OK, of_nat (S + n), idx, ec', s1) \<and> live s1 \<and>
    (\<forall>s2. live s2 \<and> (mem s2 = mem s1 \<or> (\<exists>v. interrupted cfg (mem s1) (S + n) v (mem s2))) \<longrightarrow>
      (\<exists>j' s3. boot_journal_init cfg p j s2 = Returns (BOOT_OK, j') s3 \<and>
         boot_journal_get_tmr j' = (BOOT_OK, Some (if n \<le> 1 then t else t'))))"
  by (rule wal_device.crash_ok [OF assms])

lemma tmr_update_crash_safe_witness:
  "\<exists>idx ec' s1 j' s3. quorum_write demo_config demo_platform demo_port demo_update 2 7 4 [4] 1 demo_state =
      (BOOT_OK, 9, idx, ec', s1) \<and>
     boot_journal_init demo_config demo_platform journal_reset s1 = Returns (BOOT_OK, j') s3 \<and>
     boot_journal_get_tmr j' = (BOOT_OK, Some demo_update)"
proof -
  have q: "tmr_at demo_config (fm_file demo_state) q = Some demo_tmr" if "q \<le> 7" "7 < q + 3" for q
    using demo_quorum that by simp
  show ?thesis
    using tmr_update_crash_safe [OF demo.wal_device_axioms demo_live [OF demo_tmr_wf], where S = 7 and t = demo_tmr
        and t' = demo_update and a = 4 and n = 2 and ec = 1 and j = journal_reset]
      q demo_ring [of demo_tmr] demo_worn [of 4] demo_nseq [of demo_tmr 4]
    by (auto simp: numeral_2_eq_2)
qed


definition demo_journal :: journal_state where
  "demo_journal = journal_reset\<lparr> jn_wal_initialized := True, jn_active_wal_index := 4,
     jn_current_active_header := make_header 7 1 demo_tmr, jn_cached_write_offset := 128 \<rparr>"

lemma demo_journal_sel [simp]:
  "jn_wal_initialized demo_journal" "jn_active_wal_index demo_journal = 4"
  "jn_current_active_header demo_journal = make_header 7 1 demo_tmr"
  "jn_cached_write_offset demo_journal = 128"
  by (simp_all add: demo_journal_def)


text \<open>
  The epoch anchor does not depend on the chain tag it is meant to extend: on a device with a
  journal key and a non-empty chain, two payloads that differ in the old tag only are given the
  same new tag.
\<close>

theorem epoch_anchor_forgets_tag:
  assumes "pf_crypto p = Some c" and "jn_journal_key_valid j" and "0 < tm_chain_entry_count t"
  shows "bind_epoch p j (t\<lparr>tm_chain_tag := x\<rparr>) s = bind_epoch p j (t\<lparr>tm_chain_tag := y\<rparr>) s"
  using assms by (simp add: bind_epoch_def)

lemma epoch_anchor_forgets_tag_witness:
  "bind_epoch demo_platform (demo_journal\<lparr>jn_journal_key_valid := True\<rparr>)
      (demo_tmr\<lparr>tm_chain_entry_count := 3, tm_chain_tag := replicate 16 1\<rparr>) demo_state =
   bind_epoch demo_platform (demo_journal\<lparr>jn_journal_key_valid := True\<rparr>)
      (demo_tmr\<lparr>tm_chain_entry_count := 3, tm_chain_tag := replicate 16 2\<rparr>) demo_state"
  by (rule epoch_anchor_forgets_tag [of _ "sandbox_crypto_hal (Pair 4)"]) (simp_all add: demo_platform_def)

end
