(* ===== verification/Journal_Txn.thy ===== *)
theory Journal_Txn
  imports Journal_Crash
begin

text \<open>
  Transactions in the write-ahead log: what has been appended is what the reconstruction finds,
  also after a power cycle, and what a torn entry does to it.
\<close>

section \<open>What the backward scan keeps\<close>

text \<open>Once found, a component of the transaction state stays.\<close>

definition recon_ext :: "recon \<Rightarrow> recon \<Rightarrow> bool" where
  "recon_ext r r' \<longleftrightarrow>
     (rc_found_main r \<longrightarrow> rc_found_main r' \<and> rc_state r' = rc_state r) \<and>
     (rc_found_accum r \<longrightarrow> rc_found_accum r' \<and> rc_net_accum r' = rc_net_accum r) \<and>
     (rc_found_resume r \<longrightarrow> rc_found_resume r' \<and> rc_resume_offset r' = rc_resume_offset r)"

lemma recon_ext_refl [simp]: "recon_ext r r"
  by (simp add: recon_ext_def)

lemma recon_ext_trans: "recon_ext r r' \<Longrightarrow> recon_ext r' r'' \<Longrightarrow> recon_ext r r''"
  by (auto simp: recon_ext_def)

lemma recon_entry_ext [simp]: "recon_ext r (recon_entry wa wr e r)"
  by (simp add: recon_ext_def recon_entry_def Let_def)

lemma scan_slots_ext: "recon_ext r (scan_slots wa wr b k r)"
proof (induction k arbitrary: r)
  case (Suc k)
  have "scan_slots wa wr b (Suc k) r = scan_slots wa wr b k (recon_entry wa wr (scanned (entry_at b k)) r)"
    by (simp add: scan_slots_def)
  then show ?case using recon_ext_trans [OF recon_entry_ext Suc.IH] by simp
qed (simp add: scan_slots_def)

lemma recon_entries_ext: "recon_ext r (fst (recon_entries p fl addr wa wr off r s))"
proof (induction off arbitrary: r s rule: less_induct)
  case (less off)
  show ?case
    by (subst recon_entries.simps)
      (auto simp: Let_def WAL_HEADER_SIZE_def WAL_ENTRY_SIZE_def split: prod.splits
        intro: recon_ext_trans [OF recon_entry_ext] less.IH [of "off - 64", simplified]
          less.IH [of "off - 64", THEN recon_ext_trans [rotated]])
qed

lemma recon_sectors_ext:
  "recon_ext r (fst (recon_sectors cfg p fl j wa wr n h q r s))"
proof (induction n arbitrary: h q r s)
  case (Suc n)
  show ?case
  proof (cases "find_sector_by_seq cfg fl q s")
    case (Pair o1 s1)
    show ?thesis
    proof (cases o1)
      case None
      then show ?thesis using Suc.IH Pair by (simp add: Let_def)
    next
      case (Some ir)
      obtain i raw where ir: "ir = (i, raw)" by fastforce
      obtain off s2 where o: "(if h then (jn_cached_write_offset j, s1)
          else scan_for_frontier_linear p fl (wc_sector_addrs cfg ! i) (wc_sector_sizes cfg ! i)
            (fh_erased_value fl) s1) = (off, s2)" by fastforce
      obtain r2 s3 where e: "recon_entries p fl (wc_sector_addrs cfg ! i) wa wr off r s2 = (r2, s3)"
        by fastforce
      have "recon_ext r r2" using recon_entries_ext [of r p fl "wc_sector_addrs cfg ! i" wa wr off s2] e by simp
      then show ?thesis using Suc.IH recon_ext_trans Pair Some ir o e by (simp add: Let_def)
    qed
  qed
qed simp

section \<open>Clean sectors and the journal's invariant\<close>

text \<open>The first \<open>k\<close> slots of the sector are used, the rest are blank.\<close>

definition clean :: "u8 list \<Rightarrow> nat \<Rightarrow> bool" where
  "clean b k \<longleftrightarrow> k \<le> entry_slots (length b) \<and> (\<forall>i < k. entry_at b i \<noteq> blank_entry) \<and>
     (\<forall>i. k \<le> i \<and> i < entry_slots (length b) \<longrightarrow> entry_at b i = blank_entry)"

lemma clean_frontier: "clean b k \<Longrightarrow> frontier_of b = 128 + 64 * k"
proof -
  assume c: "clean b k"
  let ?n = "entry_slots (length b)" and ?P = "\<lambda>i. entry_at b i \<noteq> blank_entry"
  have "[0..<?n] = [0..<k] @ [k..<?n]" using c by (metis clean_def upt_add_eq_append le_add_diff_inverse le0)
  moreover have "takeWhile ?P [k..<?n] = []"
    using c by (cases "k < ?n") (auto simp: clean_def upt_conv_Cons)
  moreover have "takeWhile ?P [0..<k] = [0..<k]" using c by (auto simp: clean_def takeWhile_eq_all_conv)
  ultimately have "takeWhile ?P [0..<?n] = [0..<k]" using c by (auto simp: clean_def takeWhile_append)
  then show ?thesis by (simp add: frontier_of_def used_from_def)
qed

text \<open>
  The RAM state describes the ring: the active sector is the newest, its used slots are a prefix
  and the cached offset points behind them.
\<close>

definition journal_inv :: "wal_config \<Rightarrow> u8 list \<Rightarrow> nat \<Rightarrow> nat \<Rightarrow> journal_state \<Rightarrow> bool" where
  "journal_inv cfg m S k j \<longleftrightarrow> jn_wal_initialized j \<and> jn_active_wal_index j < wal_sectors cfg \<and>
     nseq cfg m (jn_active_wal_index j) = Some S \<and>
     hd_sequence_id (jn_current_active_header j) = of_nat S \<and>
     clean (wal_sector cfg m (jn_active_wal_index j)) k \<and> jn_cached_write_offset j = 128 + 64 * k \<and>
     tmr_wf (hd_tmr_data (jn_current_active_header j)) \<and>
     tm_struct_version (hd_tmr_data (jn_current_active_header j)) = WAL_TMR_VERSION_CURRENT"

text \<open>No header on flash is of an older version.\<close>

definition all_current :: "wal_config \<Rightarrow> u8 list \<Rightarrow> bool" where
  "all_current cfg m \<longleftrightarrow> (\<forall>i < wal_sectors cfg. \<forall>raw. wal_header cfg m i = Some raw \<longrightarrow>
     tm_struct_version (hd_tmr_data (header_of raw)) = WAL_TMR_VERSION_CURRENT)"

text \<open>Entries of the main transaction; the other intents are side-band.\<close>

definition main_intent :: "u32 \<Rightarrow> bool" where
  "main_intent i \<longleftrightarrow> i \<notin> {WAL_INTENT_NET_SEARCH_ACCUM, WAL_INTENT_DOWNLOAD_CHECKPOINT,
     WAL_INTENT_SLEEP_BACKOFF, WAL_INTENT_DEPRECATED_NONCE, WAL_INTENT_TXN_ROLLBACK_PENDING}"

definition newest_found :: "bool \<Rightarrow> bool \<Rightarrow> wal_entry_payload \<Rightarrow> boot_status \<Rightarrow> recon \<Rightarrow> bool" where
  "newest_found wa wr e st r \<longleftrightarrow>
     (main_intent (we_intent e) \<longrightarrow> st = BOOT_OK \<and> rc_state r = e) \<and>
     (we_intent e = WAL_INTENT_NET_SEARCH_ACCUM \<and> wa \<longrightarrow> rc_net_accum r = we_offset e) \<and>
     (we_intent e = WAL_INTENT_DOWNLOAD_CHECKPOINT \<and> wr \<longrightarrow> rc_resume_offset r = we_delta_chunk_id e)"

lemma newest_found_ext:
  assumes "recon_ext (recon_entry wa wr e recon_start) r"
  shows "newest_found wa wr e (if rc_found_main r then BOOT_OK else BOOT_ERR_STATE) r"
  using assms by (auto simp: newest_found_def main_intent_def recon_ext_def recon_entry_def
      recon_start_def Let_def WAL_INTENT_NET_SEARCH_ACCUM_def WAL_INTENT_DOWNLOAD_CHECKPOINT_def)

section \<open>Appending\<close>

lemma seal_wf [simp]: "entry_wf (seal_entry e) = entry_wf e" "we_intent (seal_entry e) = we_intent e"
  "we_offset (seal_entry e) = we_offset e" "we_delta_chunk_id (seal_entry e) = we_delta_chunk_id e"
  by (simp_all add: seal_entry_def entry_wf_def Let_def)

lemma seal_valid: "entry_wf e \<Longrightarrow> classify_entry (entry_bytes (seal_entry e)) ev = WAL_E_VALID"
  by (rule classify_written)
    (simp_all add: seal_entry_def Let_def entry_crc_def entry_body_def entry_wf_def)

lemma seal_scanned: "entry_wf e \<Longrightarrow> scanned (entry_bytes (seal_entry e)) = seal_entry e"
  using entry_roundtrip [of "seal_entry e" "[]"] by (simp add: scanned_def seal_valid)

lemma seal_not_blank: "entry_wf e \<Longrightarrow> entry_bytes (seal_entry e) \<noteq> blank_entry"
  using seal_valid [of e "0xFF"] by (auto simp: classify_entry_def is_fully_erased_iff)

lemma chain_tag_length:
  "hash_chain_compute c segs x = (st, tag, x') \<Longrightarrow> length tag = 16"
  by (auto simp: hash_chain_compute_def fill_prefix_def split: prod.splits if_splits)

lemma append_tag_shape:
  assumes "append_chain_tag p j e i s = (j', s')" "tmr_wf (hd_tmr_data (jn_current_active_header j))"
  shows "jn_wal_initialized j' = jn_wal_initialized j" "jn_active_wal_index j' = jn_active_wal_index j"
    "hd_sequence_id (jn_current_active_header j') = hd_sequence_id (jn_current_active_header j)"
    "tmr_wf (hd_tmr_data (jn_current_active_header j'))"
    "tm_struct_version (hd_tmr_data (jn_current_active_header j')) =
      tm_struct_version (hd_tmr_data (jn_current_active_header j))"
  using assms chain_tag_length
  by (auto simp: append_chain_tag_def compute_chain_tag_def tmr_wf_def Let_def
      split: option.splits prod.splits if_splits)

text \<open>Programming one blank slot.\<close>

lemma header_in_patch:
  assumes "128 \<le> off" "off \<le> length b"
  shows "header_in (patch off d b) = header_in b"
  using assms by (simp add: header_in_def patch_def)

lemma clean_patch:
  assumes "clean b k" "k < entry_slots (length b)" "length d = 64" "d \<noteq> blank_entry"
  shows "clean (patch (128 + 64 * k) d b) (Suc k)"
    "entry_at (patch (128 + 64 * k) d b) k = d"
    "length (patch (128 + 64 * k) d b) = length b"
proof -
  let ?b = "patch (128 + 64 * k) d b"
  have r: "128 + 64 * i + 64 \<le> length b" if "i < entry_slots (length b)" for i
    using that by (auto simp: entry_slots_def)
  have k: "128 + 64 * k + 64 \<le> length b" using r assms(2) by blast
  show l: "length ?b = length b" using k assms(3) by simp
  show e: "entry_at ?b k = d"
    using slice_of_patch_same [of "128 + 64 * k" d b] k assms(3) by (simp add: entry_at_def)
  have o: "entry_at ?b i = entry_at b i" if "i < entry_slots (length b)" "i \<noteq> k" for i
    unfolding entry_at_def
    by (rule slice_of_patch_other) (use that r [of i] k assms(3) in auto)
  show "clean ?b (Suc k)"
    unfolding clean_def l
  proof (intro conjI allI impI)
    show "Suc k \<le> entry_slots (length b)" using assms(2) by simp
    show "entry_at ?b i \<noteq> blank_entry" if "i < Suc k" for i
    proof (cases "i = k")
      case False
      then have "i < k" "i < entry_slots (length b)" using that assms(2) by auto
      then show ?thesis using o [of i] False assms(1) by (simp add: clean_def)
    qed (simp add: e assms(4))
    show "entry_at ?b i = blank_entry" if "Suc k \<le> i \<and> i < entry_slots (length b)" for i
      using that o [of i] assms(1) by (simp add: clean_def)
  qed
qed

context wal_device
begin

text \<open>The reconstruction begins with the newest entry of the active sector.\<close>

lemma reconstruct_newest:
  assumes "live s" "wal_ring cfg (mem s) S" "journal_inv cfg (mem s) S (Suc k) j"
  shows "\<exists>r s'. boot_journal_reconstruct_txn cfg p j wa wr s =
      (if rc_found_main r then BOOT_OK else BOOT_ERR_STATE, Some r, s') \<and>
    recon_ext (recon_entry wa wr
      (scanned (entry_at (wal_sector cfg (mem s) (jn_active_wal_index j)) k)) recon_start) r"
proof -
  let ?a = "jn_active_wal_index j" and ?q = "hd_sequence_id (jn_current_active_header j)"
  let ?b = "wal_sector cfg (mem s) ?a"
  let ?r1 = "recon_entry wa wr (scanned (entry_at ?b k)) recon_start"
  have a: "?a < N" using assms(3) by (simp add: journal_inv_def wal_count(1))
  have S: "S < 4294967296" using assms(2) by (simp add: wal_ring_def)
  have "wal_find cfg (mem s) ?q = Some ?a"
    using assms(2,3) ring_find [OF assms(2), of ?a S] wal_find_nseq [OF S] by (auto simp: journal_inv_def)
  then obtain raw s1 where 1: "find_sector_by_seq cfg fl ?q s = (Some (?a, raw), s1)" "mem s1 = mem s" "live s1"
    using find_sector_ok [OF assms(1), of ?q] by auto
  have kk: "Suc k \<le> entry_slots sec"
    using assms(3) length_sector [OF assms(1) a] by (simp add: journal_inv_def clean_def)
  obtain s2 where 2: "recon_entries p fl (wc_sector_addrs cfg ! ?a) wa wr (128 + 64 * Suc k) recon_start s1 =
      (scan_slots wa wr ?b (Suc k) recon_start, s2)" "mem s2 = mem s1" "live s2"
    using recon_entries_ok [OF 1(3) a kk, of wa wr recon_start] 1(2) by auto
  let ?r2 = "scan_slots wa wr ?b (Suc k) recon_start"
  have e1: "recon_ext ?r1 ?r2"
    using scan_slots_ext [of ?r1 wa wr ?b k] by (simp add: scan_slots_def)
  obtain n where n: "wal_sectors cfg = Suc n" using wal_count by (cases N) auto
  obtain r s3 where 3: "recon_sectors cfg p fl j wa wr (Suc n) True ?q recon_start s = (r, s3)" by fastforce
  have off: "jn_cached_write_offset j = 128 + 64 * Suc k" using assms(3) by (simp add: journal_inv_def)
  have "recon_ext ?r2 r"
    using 3 1(1) 2(1) a off recon_sectors_ext [of ?r2 cfg p fl j wa wr n False "?q - 1" s2]
    by (auto simp: Let_def split: if_splits)
  then have "recon_ext ?r1 r" using e1 recon_ext_trans by blast
  then show ?thesis using 3 assms(3)
    by (simp add: boot_journal_reconstruct_txn_def flash_ptr n journal_inv_def del: recon_sectors.simps)
qed

lemma append_write_ok:
  assumes "live s" "jn_active_wal_index j = i" "i < N" "k < entry_slots sec"
    and "entry_at (wal_sector cfg (mem s) i) k = blank_entry" "entry_wf e"
    and "tmr_wf (hd_tmr_data (jn_current_active_header j))"
  shows "\<exists>j1 j' s0 s'. append_write cfg p fl n (128 + 64 * k) e j s = (BOOT_OK, j', s') \<and> live s' \<and>
    mem s' = patch (addr i + (128 + 64 * k)) (entry_bytes (seal_entry e)) (mem s) \<and>
    append_chain_tag p j (seal_entry e) (we_intent e) s0 = (j1, s') \<and>
    j' = j1\<lparr>jn_cached_write_offset := 128 + 64 * Suc k\<rparr>"
proof -
  let ?d = "entry_bytes (seal_entry e)" and ?ad = "wc_sector_addrs cfg ! i + of_nat (128 + 64 * k)"
  let ?o = "128 + 64 * k"
  have ld: "length ?d = 64" using assms(6) by simp
  have k: "?o + 64 \<le> sec" using assms(4) slot_room by simp
  have a: "unat ?ad = addr i + ?o" by (rule wal_offset [OF assms(3)]) (use k in auto)
  have e: "addr i + ?o + 64 \<le> total" using wal_end [OF assms(3)] k by linarith
  have kk: "live (wdt_kick p s)" "mem (wdt_kick p s) = mem s" using assms(1) by (simp_all add: kick_live kick_mem)
  have sl: "slice_of (addr i + ?o) 64 (mem s) = blank_entry"
    using sector_slice [OF assms(3), of ?o 64 "mem s"] k assms(5) by (simp add: entry_at_def)
  have w64: "walign dvd 64" using wal_walign by auto
  have wa: "(addr i + ?o) mod walign = 0" "length ?d mod walign = 0"
  proof -
    have "walign dvd addr i" "walign dvd 128" "walign dvd 64 * k"
      using addr_walign [OF assms(3)] walign_128(1) dvd_mult2 [OF w64] by auto
    then have "walign dvd addr i + (128 + 64 * k)" by (intro dvd_add) simp_all
    then show "(addr i + ?o) mod walign = 0" by simp
    show "length ?d mod walign = 0" using ld w64 by simp
  qed
  obtain s1 where 1: "fh_write fl ?ad ?d (wdt_kick p s) = (BOOT_OK, s1)"
    "mem s1 = patch (addr i + ?o) ?d (mem s)" "live s1"
    using writeE [OF kk(1), of ?ad ?d] a e wa ld sl erased_programmable [OF ld] kk(2) by auto
  have ml: "length (mem s) = total" using mem_len assms(1) by simp
  have "slice_of (addr i + ?o) 64 (mem s1) = ?d"
    using slice_of_patch_same [of "addr i + ?o" ?d "mem s"] ld e ml 1(2) by simp
  then obtain s2 where 2: "fh_read fl ?ad 64 s1 = (BOOT_OK, ?d, s2)" "mem s2 = mem s1" "live s2"
    using readE [OF 1(3), of ?ad 64] a e by auto
  have cmp: "constant_time_memcmp_glitch_safe ?d (fill_prefix ?d (zeroed 64)) 64 = BOOT_OK"
    using memcmp_iff [of 64 ?d "fill_prefix ?d (zeroed 64)"] ld by (simp add: fill_prefix_def)
  obtain j1 s3 where 3: "append_chain_tag p j (seal_entry e) (we_intent e) s2 = (j1, s3)" by fastforce
  then have m3: "mem s3 = mem s1" "live s3" using append_tag_frame 2 by auto
  have "append_write cfg p fl n ?o e j s =
      (BOOT_OK, j1\<lparr>jn_cached_write_offset := 128 + 64 * Suc k\<rparr>, s3)"
    unfolding append_write_def Let_def assms(2)
    by (simp only: 1(1) 2(1) WAL_ENTRY_SIZE_def prod.case) (simp add: cmp 3)
  then show ?thesis using 3 m3 1(2) by metis
qed

text \<open>The effect of the write on the ring.\<close>

lemma entry_written:
  assumes "live s" "wal_ring cfg (mem s) S" "i < N" "nseq cfg (mem s) i = Some S"
    and "clean (wal_sector cfg (mem s) i) k" "k < entry_slots sec" "length d = 64" "d \<noteq> blank_entry"
    and "mem s' = patch (addr i + (128 + 64 * k)) d (mem s)" "all_current cfg (mem s)"
  shows "wal_ring cfg (mem s') S" "nseq cfg (mem s') i = Some S"
    "clean (wal_sector cfg (mem s') i) (Suc k)" "entry_at (wal_sector cfg (mem s') i) k = d"
    "all_current cfg (mem s')"
proof -
  have o: "128 + 64 * k + length d \<le> sec" using assms(6,7) slot_room by simp
  have sc: "wal_sector cfg (mem s') k' = (if k' = i then patch (128 + 64 * k) d (wal_sector cfg (mem s) i)
      else wal_sector cfg (mem s) k')" if "k' < N" for k'
    using sector_patch [OF assms(1,3) that o] assms(9) by simp
  have lb: "length (wal_sector cfg (mem s) i) = sec" by (rule length_sector [OF assms(1,3)])
  have h: "wal_header cfg (mem s') k' = wal_header cfg (mem s) k'" if "k' < N" for k'
    using sc [OF that] header_in_patch [of "128 + 64 * k" "wal_sector cfg (mem s) i" d] lb o
    by (simp add: wal_header_def)
  then have n: "nseq cfg (mem s') k' = nseq cfg (mem s) k'" if "k' < N" for k'
    using that by (simp add: nseq_def wal_seq_def)
  show "wal_ring cfg (mem s') S" using assms(2) h n unfolding wal_ring_def wal_count(1) by auto
  show "nseq cfg (mem s') i = Some S" using n assms(3,4) by simp
  show "all_current cfg (mem s')" using assms(10) h unfolding all_current_def wal_count(1) by auto
  show "clean (wal_sector cfg (mem s') i) (Suc k)" "entry_at (wal_sector cfg (mem s') i) k = d"
    using clean_patch [OF assms(5) _ assms(7,8)] lb assms(6) sc [OF assms(3)] by auto
qed

lemma fresh_clean:
  assumes "tmr_wf t"
  shows "clean (fresh_sector sec q ec t) 0"
proof -
  have "entry_at (fresh_sector sec q ec t) i = blank_entry" if "i < entry_slots sec" for i
    using that slot_room [of i] assms
    by (simp add: entry_at_def fresh_sector_def slice_of_def flip: replicate_add)
  then show ?thesis using assms wal_min by (simp add: clean_def)
qed

lemma fresh_room: "0 < entry_slots sec"
  using wal_min by (simp add: entry_slots_def div_greater_zero_iff)

lemma append_rotate_ok:
  assumes "live s" "wal_ring cfg (mem s) S" "5 \<le> N" "S + 1 < 2147483648" "worn cfg (mem s) 2"
    and "journal_inv cfg (mem s) S k j" "fh_max_erase_cycles fl = 0" "all_current cfg (mem s)"
  shows "\<exists>j' s'. append_rotate cfg p fl j s = (BOOT_OK, j', s') \<and> live s' \<and>
    wal_ring cfg (mem s') (S + 1) \<and> journal_inv cfg (mem s') (S + 1) 0 j' \<and> all_current cfg (mem s')"
proof -
  let ?h = "jn_current_active_header j" and ?a = "jn_active_wal_index j"
  have t: "tmr_wf (hd_tmr_data ?h)" and a: "?a < N" and na: "nseq cfg (mem s) ?a = Some S"
    and sq: "hd_sequence_id ?h = of_nat S" and
    vt: "tm_struct_version (hd_tmr_data ?h) = WAL_TMR_VERSION_CURRENT"
    using assms(6) by (auto simp: journal_inv_def wal_count(1))
  have ex: "x < N \<and> (\<exists>q. nseq cfg (mem s) x = Some q \<and> S < q + 4)" if "x \<in> set [?a]" for x
    using that a na by simp
  obtain v ec s1 s2 where 1: "get_best_wear_leveling_sector cfg fl (of_nat S) [?a] s = (v, s1)"
    "rotate_to_sector cfg p fl v (of_nat (S + 1)) (hd_tmr_data ?h) s1 = (BOOT_OK, ec, s2)" "live s2"
    "recyclable cfg (mem s) S v"
    and sc: "\<And>k. k < N \<Longrightarrow> wal_sector cfg (mem s2) k =
       (if k = v then fresh_sector sec (of_nat (S + 1)) ec (hd_tmr_data ?h) else wal_sector cfg (mem s) k)"
    using quorum_step [where ex = "[?a]", OF assms(1-4) t assms(5) order_refl ex] by blast
  have v: "v < N" using 1(4) by (simp add: recyclable_def wal_count(1))
  note f = ring_fresh [OF assms(2) 1(4) assms(4) t sc]
  have h: "wal_header cfg (mem s2) i = (if i = v then Some (header_bytes (make_header (of_nat (S + 1)) ec (hd_tmr_data ?h)))
      else wal_header cfg (mem s) i)" if "i < N" for i
    using sc [OF that] header_in_fresh [OF t] by (simp add: wal_header_def)
  have ac: "all_current cfg (mem s2)"
    using assms(8) h t vt unfolding all_current_def wal_count(1) by auto
  let ?j = "j\<lparr>jn_active_wal_index := v, jn_current_active_header :=
      ?h\<lparr>hd_sequence_id := of_nat S + 1, hd_erase_count := ec\<rparr>, jn_cached_write_offset := 128\<rparr>"
  have "append_rotate cfg p fl j s = (BOOT_OK, ?j, s2)"
    using 1(1,2) assms(7) sq by (simp add: append_rotate_def Let_def WAL_HEADER_SIZE_def add.commute)
  moreover have "journal_inv cfg (mem s2) (S + 1) 0 ?j"
    using assms(6) v f(4) sc [OF v] fresh_clean [OF t] t vt
    by (simp add: journal_inv_def wal_count(1) add.commute)
  ultimately show ?thesis using 1(3) f(1) ac by blast
qed

lemma append_here_ok:
  assumes "live s" "wal_ring cfg (mem s) S" "journal_inv cfg (mem s) S k j" "k < entry_slots sec"
    and "entry_wf e" "all_current cfg (mem s)"
  shows "\<exists>j' s'. append_write cfg p fl n (128 + 64 * k) e j s = (BOOT_OK, j', s') \<and> live s' \<and>
    wal_ring cfg (mem s') S \<and> journal_inv cfg (mem s') S (Suc k) j' \<and> all_current cfg (mem s') \<and>
    entry_at (wal_sector cfg (mem s') (jn_active_wal_index j')) k = entry_bytes (seal_entry e)"
proof -
  let ?a = "jn_active_wal_index j"
  have t: "tmr_wf (hd_tmr_data (jn_current_active_header j))" and a: "?a < N"
    and na: "nseq cfg (mem s) ?a = Some S" and cl: "clean (wal_sector cfg (mem s) ?a) k"
    using assms(3) by (auto simp: journal_inv_def wal_count(1))
  have bl: "entry_at (wal_sector cfg (mem s) ?a) k = blank_entry"
    using cl assms(4) length_sector [OF assms(1) a] by (simp add: clean_def)
  obtain j1 j' s0 s' where 1: "append_write cfg p fl n (128 + 64 * k) e j s = (BOOT_OK, j', s')" "live s'"
    "mem s' = patch (addr ?a + (128 + 64 * k)) (entry_bytes (seal_entry e)) (mem s)"
    "append_chain_tag p j (seal_entry e) (we_intent e) s0 = (j1, s')"
    "j' = j1\<lparr>jn_cached_write_offset := 128 + 64 * Suc k\<rparr>"
    using append_write_ok [OF assms(1) refl a assms(4) bl assms(5) t] by blast
  note sh = append_tag_shape [OF 1(4) t]
  have d: "length (entry_bytes (seal_entry e)) = 64" using assms(5) by simp
  note w = entry_written [OF assms(1,2) a na cl assms(4) d seal_not_blank [OF assms(5)] 1(3) assms(6)]
  have "journal_inv cfg (mem s') S (Suc k) j'"
    using assms(3) sh w(2,3) 1(5) by (simp add: journal_inv_def)
  then show ?thesis using 1(1,2,5) w sh by auto
qed

lemma append_ok:
  assumes "live s" "wal_ring cfg (mem s) S" "5 \<le> N" "S + 1 < 2147483648" "worn cfg (mem s) 2"
    and "journal_inv cfg (mem s) S k j" "fh_max_erase_cycles fl = 0" "all_current cfg (mem s)" "entry_wf e"
  shows "\<exists>j' s' S' k'. boot_journal_append cfg p j e s = (BOOT_OK, j', s') \<and> live s' \<and> S \<le> S' \<and>
    wal_ring cfg (mem s') S' \<and> journal_inv cfg (mem s') S' (Suc k') j' \<and> all_current cfg (mem s') \<and>
    entry_at (wal_sector cfg (mem s') (jn_active_wal_index j')) k' = entry_bytes (seal_entry e)"
proof -
  let ?a = "jn_active_wal_index j"
  have a: "?a < N" and init: "jn_wal_initialized j" and off: "jn_cached_write_offset j = 128 + 64 * k"
    and cl: "clean (wal_sector cfg (mem s) ?a) k"
    using assms(6) by (auto simp: journal_inv_def wal_count(1))
  have lb: "length (wal_sector cfg (mem s) ?a) = sec" by (rule length_sector [OF assms(1) a])
  show ?thesis
  proof (cases "k < entry_slots sec")
    case True
    have bl: "entry_at (wal_sector cfg (mem s) ?a) k = blank_entry" using cl True lb by (simp add: clean_def)
    obtain s1 where r: "fh_read fl (wc_sector_addrs cfg ! ?a + of_nat (128 + 64 * k)) 64 s = (BOOT_OK, blank_entry, s1)"
      "mem s1 = mem s" "live s1"
      using read_slot [OF assms(1) a True] bl by auto
    have sl: "append_slot cfg fl j s = (128 + 64 * k, False, s1)"
      unfolding append_slot_def Let_def off
      using r(1) a True slot_room
      by (simp only: WAL_ENTRY_SIZE_def) (simp add: is_fully_erased_iff wal_erased)
    show ?thesis
      using append_here_ok [of s1 S k j e sec] r(2,3) assms(2,6,8,9) True
      by (auto simp: boot_journal_append_def flash_ptr init Let_def sl a)
  next
    case False
    then have "\<not> 128 + 64 * k + 64 \<le> sec" using slot_room by simp
    then have sl: "append_slot cfg fl j s = (128 + 64 * k, True, s)"
      by (simp add: append_slot_def Let_def off a WAL_ENTRY_SIZE_def)
    obtain j1 s1 where 1: "append_rotate cfg p fl j s = (BOOT_OK, j1, s1)" "live s1"
      "wal_ring cfg (mem s1) (S + 1)" "journal_inv cfg (mem s1) (S + 1) 0 j1" "all_current cfg (mem s1)"
      using append_rotate_ok [OF assms(1-8)] by blast
    obtain j' s' where 2: "append_write cfg p fl sec 128 e j1 s1 = (BOOT_OK, j', s')" "live s'"
      "wal_ring cfg (mem s') (S + 1)" "journal_inv cfg (mem s') (S + 1) (Suc 0) j'" "all_current cfg (mem s')"
      "entry_at (wal_sector cfg (mem s') (jn_active_wal_index j')) 0 = entry_bytes (seal_entry e)"
      using append_here_ok [OF 1(2-4) fresh_room assms(9) 1(5), of sec] by auto
    have "boot_journal_append cfg p j e s = (BOOT_OK, j', s')"
      using 1(1) 2(1) a by (simp add: boot_journal_append_def flash_ptr init Let_def sl WAL_HEADER_SIZE_def)
    moreover have "S \<le> S + 1" by simp
    ultimately show ?thesis using 2(2-6) by blast
  qed
qed

section \<open>Booting\<close>

lemma voted_in: "voted_tmr (candidates cfg m S t) \<in> set (candidates cfg m S t)"
proof -
  have "tmr_majority_vote_idx xs n \<le> 1" for xs n by (simp add: tmr_majority_vote_idx_def)
  then have v: "length xs \<ge> 1 \<Longrightarrow> voted_tmr xs \<in> set xs" for xs
    by (auto simp: voted_tmr_def intro!: nth_mem dest: order.strict_trans1)
      (metis One_nat_def Suc_1 Suc_le_lessD le_trans less_Suc_eq_le not_less_eq_eq nth_mem)
  show ?thesis by (rule v) (simp add: candidates_def)
qed

lemma header_tmr:
  assumes "live s" "i < N" "wal_header cfg (mem s) i = Some raw" "all_current cfg (mem s)"
  shows "tmr_wf (hd_tmr_data (header_of raw))"
    "tm_struct_version (hd_tmr_data (header_of raw)) = WAL_TMR_VERSION_CURRENT"
proof -
  have "length raw = 128"
    using assms(3) length_sector [OF assms(1,2)] wal_min
    by (auto simp: wal_header_def header_in_def split: if_splits)
  then show "tmr_wf (hd_tmr_data (header_of raw))" by (simp add: header_of_def tmr_of_wf)
  show "tm_struct_version (hd_tmr_data (header_of raw)) = WAL_TMR_VERSION_CURRENT"
    using assms(2-4) unfolding all_current_def wal_count(1) by blast
qed

lemma boot_inv:
  assumes "live s" "wal_ring cfg (mem s) S" "3 \<le> S" "all_current cfg (mem s)"
    and "a < N" "nseq cfg (mem s) a = Some S" "clean (wal_sector cfg (mem s) a) k"
  shows "\<exists>j' s'. boot_journal_init cfg p j s = Returns (BOOT_OK, j') s' \<and> mem s' = mem s \<and> live s' \<and>
    journal_inv cfg (mem s') S k j' \<and> jn_active_wal_index j' = a"
proof -
  obtain raw where raw: "wal_header cfg (mem s) a = Some raw" using assms(6) by (auto simp: nseq_header)
  note h = header_tmr [OF assms(1,5) raw assms(4)]
  let ?t = "hd_tmr_data (header_of raw)"
  have at: "tmr_wf t \<and> tm_struct_version t = WAL_TMR_VERSION_CURRENT" if "tmr_at cfg (mem s) q = Some t" for q t
    using tmr_at_SomeE [OF assms(2) that] header_tmr [OF assms(1) _ _ assms(4)] wal_count(1) by metis
  have v: "tmr_wf (voted_tmr (candidates cfg (mem s) S ?t)) \<and>
      tm_struct_version (voted_tmr (candidates cfg (mem s) S ?t)) = WAL_TMR_VERSION_CURRENT"
    using voted_in [of "mem s" S ?t] h at by (auto simp: candidates_def split: option.splits)
  obtain j' s' where 1: "boot_journal_init cfg p j s = Returns (BOOT_OK, j') s'" "mem s' = mem s" "live s'"
    "jn_wal_initialized j'" "jn_active_wal_index j' = a"
    "jn_cached_write_offset j' = frontier_of (wal_sector cfg (mem s) a)"
    "jn_current_active_header j' = (header_of raw)\<lparr>hd_tmr_data := voted_tmr (candidates cfg (mem s) S ?t)\<rparr>"
    using init_ok [OF assms(1-3,5,6) raw h(2), of j] by blast
  have "hd_sequence_id (header_of raw) = of_nat S"
  proof -
    have "unat (hd_sequence_id (header_of raw)) = S" "S < 4294967296"
      using ring_header(1) [OF assms(2,5) raw] assms(2,6) by (auto simp: wal_ring_def)
    then show ?thesis by (simp add: word_unat_eq_iff unat_of_nat_u32)
  qed
  then have "journal_inv cfg (mem s') S k j'"
    using 1 assms(5-7) clean_frontier [OF assms(7)] v by (simp add: journal_inv_def wal_count(1))
  then show ?thesis using 1 by blast
qed

lemma append_boot_reconstruct:
  assumes "live s" "wal_ring cfg (mem s) S" "5 \<le> N" "3 \<le> S" "S + 1 < 2147483648" "worn cfg (mem s) 2"
    and "journal_inv cfg (mem s) S k j" "fh_max_erase_cycles fl = 0" "all_current cfg (mem s)" "entry_wf e"
  shows "\<exists>j' s'. boot_journal_append cfg p j e s = (BOOT_OK, j', s') \<and>
    (\<exists>st r s1. boot_journal_reconstruct_txn cfg p j' wa wr s' = (st, Some r, s1) \<and>
       newest_found wa wr (seal_entry e) st r) \<and>
    (\<exists>j2 s2. boot_journal_init cfg p jram s' = Returns (BOOT_OK, j2) s2 \<and>
       (\<exists>st r s3. boot_journal_reconstruct_txn cfg p j2 wa wr s2 = (st, Some r, s3) \<and>
          newest_found wa wr (seal_entry e) st r))"
proof -
  obtain j' s' S' k' where 1: "boot_journal_append cfg p j e s = (BOOT_OK, j', s')" "live s'" "S \<le> S'"
    "wal_ring cfg (mem s') S'" "journal_inv cfg (mem s') S' (Suc k') j'" "all_current cfg (mem s')"
    "entry_at (wal_sector cfg (mem s') (jn_active_wal_index j')) k' = entry_bytes (seal_entry e)"
    using append_ok [OF assms(1-3,5-10)] by blast
  have *: "\<exists>st r s1. boot_journal_reconstruct_txn cfg p j1 wa wr s1' = (st, Some r, s1) \<and>
       newest_found wa wr (seal_entry e) st r"
    if j1: "journal_inv cfg (mem s') S' (Suc k') j1" "jn_active_wal_index j1 = jn_active_wal_index j'"
      and s1': "mem s1' = mem s'" "live s1'" for j1 s1'
    using reconstruct_newest [OF s1'(2), of S' k' j1 wa wr] j1 s1' 1(4,7) seal_scanned [OF assms(10)]
      newest_found_ext by metis
  obtain j2 s2 where 2: "boot_journal_init cfg p jram s' = Returns (BOOT_OK, j2) s2" "mem s2 = mem s'"
    "live s2" "journal_inv cfg (mem s2) S' (Suc k') j2" "jn_active_wal_index j2 = jn_active_wal_index j'"
    using boot_inv [OF 1(2,4) _ 1(6), of "jn_active_wal_index j'" "Suc k'" jram] 1(3,5) assms(4)
    by (auto simp: journal_inv_def wal_count(1))
  show ?thesis using 1(1) * [OF 1(5) refl refl 1(2)] 2(1) * [OF _ 2(5,2,3)] 2(2,4) by auto
qed

text \<open>A newest entry that is neither blank nor valid is taken for an entry of zeros.\<close>

lemma torn_boot_reconstruct:
  assumes "live s" "wal_ring cfg (mem s) S" "3 \<le> S" "all_current cfg (mem s)"
    and "a < N" "nseq cfg (mem s) a = Some S" "clean (wal_sector cfg (mem s) a) (Suc k)"
    and "classify_entry (entry_at (wal_sector cfg (mem s) a) k) 0xFF = WAL_E_CORRUPT"
  shows "\<exists>j' s'. boot_journal_init cfg p j s = Returns (BOOT_OK, j') s' \<and>
    (\<exists>r s1. boot_journal_reconstruct_txn cfg p j' wa wr s' = (BOOT_OK, Some r, s1) \<and>
       we_intent (rc_state r) = WAL_INTENT_NONE)"
proof -
  obtain j' s' where 1: "boot_journal_init cfg p j s = Returns (BOOT_OK, j') s'" "mem s' = mem s" "live s'"
    "journal_inv cfg (mem s') S (Suc k) j'" "jn_active_wal_index j' = a"
    using boot_inv [OF assms(1-7), of j] by blast
  have z: "scanned (entry_at (wal_sector cfg (mem s) a) k) = entry_of (zeroed 64)"
    using assms(8) by (simp add: scanned_def)
  have i: "we_intent (entry_of (zeroed 64)) = WAL_INTENT_NONE"
    by (simp add: entry_of_def zeroed_def rd32_def le32_def WAL_INTENT_NONE_def numeral_eq_Suc)
  have m: "main_intent (we_intent (entry_of (zeroed 64)))"
    unfolding i by (simp add: main_intent_def wal_intent_defs)
  obtain r s1 where 2: "boot_journal_reconstruct_txn cfg p j' wa wr s' =
      (if rc_found_main r then BOOT_OK else BOOT_ERR_STATE, Some r, s1)"
    "recon_ext (recon_entry wa wr (entry_of (zeroed 64)) recon_start) r"
    using reconstruct_newest [OF 1(3) _ 1(4), of wa wr] assms(2) 1(2,5) z by auto
  show ?thesis using 1(1) 2(1) newest_found_ext [OF 2(2)] m i by (auto simp: newest_found_def)
qed

section \<open>A payload of an older version\<close>

lemma update_self:
  assumes "live s" "jn_wal_initialized j" "jn_active_wal_index j < N"
    and "wal_header cfg (mem s) (jn_active_wal_index j) = Some raw"
    and "hd_sector_magic (header_of raw) = WAL_ABI_VERSION_MAGIC_CURRENT"
    and "tmr_wf (hd_tmr_data (jn_current_active_header j))"
  shows "\<exists>s'. boot_journal_update_tmr cfg p j (hd_tmr_data (jn_current_active_header j)) s = (BOOT_OK, j, s') \<and>
    mem s' = mem s \<and> live s'"
proof -
  obtain w where w: "pf_wdt p = Some w" using wal_wdt by blast
  obtain s1 where "read_header cfg fl (jn_active_wal_index j) s = (Some raw, s1)" and m: "mem s1 = mem s" "live s1"
    using read_header_ok [OF assms(1,3)] assms(4) by auto
  then have "active_magic_legacy cfg fl j s = (False, s1)"
    using assms(5)
    by (simp add: active_magic_legacy_def WAL_ABI_VERSION_MAGIC_CURRENT_def WAL_ABI_VERSION_MAGIC_LEGACY_def)
  then show ?thesis using assms(2,6) tmr_same_iff m
    by (simp add: boot_journal_update_tmr_def flash_ptr w Let_def)
qed

lemma old_version_boot:
  assumes "live s" "wal_ring cfg (mem s) S" "3 \<le> S" "tmr_wf t"
    and "tm_struct_version t < WAL_TMR_VERSION_CURRENT"
    and "\<And>q. q \<le> S \<Longrightarrow> S < q + 3 \<Longrightarrow> tmr_at cfg (mem s) q = Some t"
  shows "\<exists>j' s'. boot_journal_init cfg p j s = Returns (BOOT_OK, j') s' \<and> mem s' = mem s \<and>
    boot_journal_get_tmr j' = (BOOT_OK, Some t)"
proof -
  obtain a raw where a: "a < N" "nseq cfg (mem s) a = Some S" "wal_header cfg (mem s) a = Some raw"
    "hd_tmr_data (header_of raw) = t"
    using tmr_at_SomeE [OF assms(2)] assms(6) [of S] wal_count(1) by (metis less_add_same_cancel1 order_refl zero_less_numeral)
  note h = ring_header [OF assms(2) a(1,3)]
  let ?h = "header_of raw" and ?u = "upgrade_tmr_payload (wc_stage1_svn cfg) t"
  have sq: "hd_sequence_id ?h = of_nat S"
  proof -
    have "unat (hd_sequence_id ?h) = S" "S < 4294967296" using h(1) assms(2) a(2) by (auto simp: wal_ring_def)
    then show ?thesis by (simp add: word_unat_eq_iff unat_of_nat_u32)
  qed
  have uv: "tm_struct_version ?u = WAL_TMR_VERSION_CURRENT" "tmr_wf ?u"
    using assms(4) by (simp add: upgrade_tmr_payload_def Let_def) (simp add: assms(4))
  have ne: "?u \<noteq> t" using uv(1) assms(5) by force
  have ad: "adopt_header (wc_stage1_svn cfg) raw = (?h\<lparr>hd_tmr_data := ?u\<rparr>, True)"
    using h(3) assms(5) a(4) by (simp add: adopt_header_def WAL_ABI_VERSION_MAGIC_CURRENT_def
        WAL_ABI_VERSION_MAGIC_LEGACY_def)
  have c: "candidates cfg (mem s) S ?u = [?u, t, t]"
    using assms(3) assms(6) [of "S - 1"] assms(6) [of "S - 2"] by (simp add: candidates_def)
  have vt: "voted_tmr [?u, t, t] = t" using voted_three [OF uv(2) assms(4,4)] ne by auto
  obtain s1 where 1: "highest_loop cfg fl [0..<N] None s = (Some (a, raw), s1)" "mem s1 = mem s" "live s1"
    using highest_ok [OF assms(2) a(1-3) assms(1), of "[0..<N]" None] a(1) by auto
  obtain s2 where 2: "collect_candidates cfg fl (of_nat S) (hd_erase_count ?h) [1, 2] [?u] s1 = ([?u, t, t], s2)"
    "mem s2 = mem s" "live s2"
    using collect_ok [OF 1(3), of S "hd_erase_count ?h" ?u] assms(2,3) 1(2) c by auto
  let ?j = "j\<lparr>jn_active_wal_index := a, jn_current_active_header := ?h\<lparr>hd_tmr_data := t\<rparr>\<rparr>"
  obtain off s3 where 3: "scan_for_frontier_linear p fl (wc_sector_addrs cfg ! a) sec (fh_erased_value fl) s2 = (off, s3)"
    "mem s3 = mem s" "live s3" using frontier_ok [OF 2(3) a(1)] 2(2) by auto
  let ?j3 = "?j\<lparr>jn_cached_write_offset := off, jn_wal_initialized := True\<rparr>"
  obtain s4 where 4: "boot_journal_update_tmr cfg p ?j3 t s3 = (BOOT_OK, ?j3, s4)" "mem s4 = mem s" "live s4"
    using update_self [OF 3(3), of ?j3 raw] a h(3) 3(2) assms(4) by auto
  obtain st key s5 where 5: "boot_derive_journal_key p s4 = (st, key, s5)" by (metis prod_cases3)
  then have m5: "mem s5 = mem s" using journal_key_frame 4 by auto
  let ?j5 = "?j3\<lparr>jn_journal_key_valid := (st = BOOT_OK), jn_journal_key := key\<rparr>"
  have fin: "init_finish cfg p fl True ?j s2 = (BOOT_OK, ?j5, s5)"
    using 3(1) 4(1) 5 a(1) by (simp add: init_finish_def Let_def)
  obtain w where w: "pf_wdt p = Some w" using wal_wdt by blast
  have sz: "\<not> (\<exists>sz \<in> set (take (wal_sectors cfg) (wc_sector_sizes cfg)). sz < WAL_HEADER_SIZE + WAL_ENTRY_SIZE)"
    using wal_min by (auto simp: wal_sizes WAL_HEADER_SIZE_def WAL_ENTRY_SIZE_def dest: in_set_takeD)
  have "boot_journal_init cfg p j s = Returns (BOOT_OK, ?j5) s5"
    unfolding boot_journal_init_def flash_ptr w
    using sz 1(1) 2(1) fin ad uv(1) wal_count vt
    by (simp add: MAX_WAL_SECTORS_def sq Let_def del: collect_candidates.simps)
  then show ?thesis using m5 by (auto simp: boot_journal_get_tmr_def)
qed

lemma full_window_fallback:
  assumes "live s" "wal_ring cfg (mem s) S"
    and "\<And>i. i < N \<Longrightarrow> \<exists>q. nseq cfg (mem s) i = Some q \<and> S < q + 4"
  shows "\<exists>s'. get_best_wear_leveling_sector cfg fl (of_nat S) ex s = (0, s') \<and> mem s' = mem s \<and> live s'"
proof -
  have "\<not> wear_open (mem s) (of_nat S) ex i" if "i < N" for i
    using open_recyclable [OF assms(2) that] assms(3) [OF that] by (fastforce simp: recyclable_def)
  then show ?thesis using wear_ok [OF assms(1), of "of_nat S" ex] by auto
qed

end

section \<open>The properties\<close>

lemma demo_current: "all_current demo_config demo_image"
  by (simp add: all_current_def demo_header)

lemma demo_clean: "clean (wal_sector demo_config demo_image 4) 0"
  using demo.fresh_clean [OF demo_tmr_wf] by (simp add: demo_sector)

lemma demo_inv: "journal_inv demo_config demo_image 7 0 demo_journal"
  using demo_clean demo_nseq [of demo_tmr 4] by (simp add: journal_inv_def)


definition demo_entry :: wal_entry_payload where
  "demo_entry = (entry_of (zeroed 64))\<lparr>we_intent := WAL_INTENT_UPDATE_PENDING, we_offset := 77\<rparr>"

lemma demo_entry_wf: "entry_wf demo_entry"
  by (simp add: demo_entry_def entry_wf_def entry_of_def)


text \<open>
  C40. A torn entry hides the open transaction. When the newest used slot is neither blank nor valid
  (a write the power failure cut short), the boot steps over it and the reconstruction reports
  \<open>BOOT_OK\<close> with an all-zero entry, intent \<open>WAL_INTENT_NONE\<close>, whatever transaction the slots before
  it hold: \<open>continue\<close> and \<open>break\<close> in the handlers of \<open>BOOT_SECURE_REQUIRE\<close> leave only the macro.
\<close>

theorem torn_entry_masks_transaction:
  assumes "wal_device p fl mem live tot sec wa c cfg N"
    and "live s" "wal_ring cfg (mem s) S" "3 \<le> S" "all_current cfg (mem s)"
    and "a < N" "nseq cfg (mem s) a = Some S" "clean (wal_sector cfg (mem s) a) (Suc k)"
    and "classify_entry (entry_at (wal_sector cfg (mem s) a) k) 0xFF = WAL_E_CORRUPT"
  shows "\<exists>j' s'. boot_journal_init cfg p j s = Returns (BOOT_OK, j') s' \<and>
    (\<exists>r s1. boot_journal_reconstruct_txn cfg p j' wacc wres s' = (BOOT_OK, Some r, s1) \<and>
       we_intent (rc_state r) = WAL_INTENT_NONE)"
  by (rule wal_device.torn_boot_reconstruct [OF assms])

text \<open>The device after a write of an entry of which only zeros arrived.\<close>

definition demo_torn :: flash_model where
  "demo_torn = demo_state\<lparr>fm_file := patch 896 (zeroed 64) demo_image\<rparr>"

lemma torn_entry_masks_transaction_witness:
  "\<exists>j' s' r s1. boot_journal_init demo_config demo_platform journal_reset demo_torn = Returns (BOOT_OK, j') s' \<and>
     boot_journal_reconstruct_txn demo_config demo_platform j' False False s' = (BOOT_OK, Some r, s1) \<and>
     we_intent (rc_state r) = WAL_INTENT_NONE"
proof -
  have l: "model_live 960 192 1 0xFF demo_torn"
    using demo_live [OF demo_tmr_wf] by (simp add: demo_torn_def model_live_def)
  have a: "unat (wc_sector_addrs demo_config ! 4) = 768" using demo_addr [of 4] by simp
  have f: "fm_file demo_torn = patch (unat (wc_sector_addrs demo_config ! 4) + (128 + 64 * 0)) (zeroed 64) (fm_file demo_state)"
    by (simp add: demo_torn_def a)
  have r: "0 < entry_slots 192" by (simp add: entry_slots_def)
  have nb: "zeroed 64 \<noteq> blank_entry" by (simp add: zeroed_def replicate_numeral)
  have n: "nseq demo_config (fm_file demo_state) 4 = Some 7" using demo_nseq [of demo_tmr 4] by simp
  note w = demo.entry_written [OF demo_live [OF demo_tmr_wf] _ _ n _ r _ nb f, unfolded demo_file, OF demo_ring [OF demo_tmr_wf] _
      demo_clean _ demo_current, simplified]
  have c: "classify_entry (zeroed 64) 0xFF = WAL_E_CORRUPT"
  proof -
    have "we_magic (entry_of (zeroed 64)) = 0"
      by (simp add: entry_of_def zeroed_def rd32_def le32_def numeral_eq_Suc)
    then show ?thesis using nb by (simp add: classify_entry_def is_fully_erased_iff WAL_ENTRY_MAGIC_def)
  qed
  show ?thesis
    using torn_entry_masks_transaction [OF demo.wal_device_axioms l w(1) _ w(5) _ w(2,3), where j = journal_reset and wacc = False and wres = False] w(4) c by simp
qed

text \<open>
  C36. A payload of an older version on flash is never migrated. With the quorum holding it under
  current headers, \<open>boot_journal_init\<close> upgrades the newest copy, is outvoted by the two others,
  compares the result with itself in \<open>boot_journal_update_tmr\<close> and writes nothing: it returns
  \<open>BOOT_OK\<close>, the flash is unchanged and the payload handed out is the old version.
\<close>

theorem old_version_not_migrated:
  assumes "wal_device p fl mem live tot sec wa c cfg N"
    and "live s" "wal_ring cfg (mem s) S" "3 \<le> S" "tmr_wf t"
    and "tm_struct_version t < WAL_TMR_VERSION_CURRENT"
    and "\<And>q. q \<le> S \<Longrightarrow> S < q + 3 \<Longrightarrow> tmr_at cfg (mem s) q = Some t"
  shows "\<exists>j' s'. boot_journal_init cfg p j s = Returns (BOOT_OK, j') s' \<and> mem s' = mem s \<and>
    boot_journal_get_tmr j' = (BOOT_OK, Some t)"
  by (rule wal_device.old_version_boot [OF assms])

lemma old_version_not_migrated_witness:
  "\<exists>j' s'. boot_journal_init demo_config demo_platform journal_reset (demo_state_of (demo_tmr\<lparr>tm_struct_version := 6\<rparr>)) =
      Returns (BOOT_OK, j') s' \<and>
     fm_file s' = demo_image_of (demo_tmr\<lparr>tm_struct_version := 6\<rparr>) \<and>
     boot_journal_get_tmr j' = (BOOT_OK, Some (demo_tmr\<lparr>tm_struct_version := 6\<rparr>))"
proof -
  let ?t = "demo_tmr\<lparr>tm_struct_version := 6\<rparr>"
  have w: "tmr_wf ?t" using demo_tmr_wf unfolding tmr_wf_def by simp
  have q: "tmr_at demo_config (fm_file (demo_state_of ?t)) q = Some ?t" if "q \<le> 7" "7 < q + 3" for q
    using demo_quorum [OF w] that by simp
  have v: "tm_struct_version ?t < WAL_TMR_VERSION_CURRENT" by (simp add: WAL_TMR_VERSION_CURRENT_def)
  show ?thesis
    using old_version_not_migrated [OF demo.wal_device_axioms demo_live [OF w] _ _ w v q, of 7 journal_reset]
      demo_ring [OF w] by simp
qed

text \<open>
  With every sector among the last four of the ring, which is the steady state of a log of four
  sectors, the wear levelling has no candidate left and answers sector 0, even if the caller has
  excluded it because it is the active one.
\<close>

theorem full_window_picks_sector_zero:
  assumes "wal_device p fl mem live tot sec wa c cfg N"
    and "live s" "wal_ring cfg (mem s) S"
    and "\<And>i. i < N \<Longrightarrow> \<exists>q. nseq cfg (mem s) i = Some q \<and> S < q + 4"
  shows "\<exists>s'. get_best_wear_leveling_sector cfg fl (of_nat S) ex s = (0, s') \<and> mem s' = mem s \<and> live s'"
  by (rule wal_device.full_window_fallback [OF assms])

text \<open>The last four sectors of the device as a log of their own.\<close>

definition demo4_config :: wal_config where
  "demo4_config = \<lparr> wc_sector_addrs = [192, 384, 576, 768], wc_sector_sizes = replicate 4 192,
     wc_max_sector_size = 192, wc_stage1_svn = 0 \<rparr>"

lemma demo4_sel [simp]: "wal_sectors demo4_config = 4" "wc_sector_sizes demo4_config = replicate 4 192"
  by (simp_all add: demo4_config_def)

lemma demo4_addr: "i < 4 \<Longrightarrow> wc_sector_addrs demo4_config ! i = wc_sector_addrs demo_config ! Suc i"
  by (simp add: demo4_config_def demo_config_def)

interpretation demo4: wal_device demo_platform demo_port fm_file "model_live 960 192 1 0xFF" 960 192 1
    "sandbox_crypto_hal (Pair 4)" demo4_config 4
proof -
  have "distinct (wc_sector_addrs demo4_config)" by (simp add: demo4_config_def)
  then have "wal_device_axioms demo_platform demo_port 960 192 1 demo4_config 4"
    by unfold_locales (simp_all add: demo4_addr demo_addr demo_port_def demo_platform_def)
  then show "wal_device demo_platform demo_port fm_file (model_live 960 192 1 255) 960 192 1
      (sandbox_crypto_hal (Pair 4)) demo4_config 4"
    by (intro wal_device.intro demo.flash_contract_axioms demo.crypto_frame_axioms)
qed

lemma demo4_header: "i < 4 \<Longrightarrow> wal_header demo4_config demo_image i = wal_header demo_config demo_image (Suc i)"
  by (simp add: wal_header_def wal_sector_def demo4_addr)

lemma demo4_nseq: "i < 4 \<Longrightarrow> nseq demo4_config demo_image i = Some (4 + i)"
  using demo_nseq [of demo_tmr "Suc i"] demo4_header by (simp add: nseq_def wal_seq_def)

lemma demo4_ring: "wal_ring demo4_config demo_image 7"
  unfolding wal_ring_def demo4_sel
proof (intro conjI allI impI)
  show "\<exists>i < 4. nseq demo4_config demo_image i = Some 7"
    using demo4_nseq [of 3] by (intro exI [of _ 3]) simp
qed (auto simp: demo4_nseq demo4_header demo_header current_header_def)

lemma full_window_picks_sector_zero_witness:
  "\<exists>s'. get_best_wear_leveling_sector demo4_config demo_port 7 [0] demo_state = (0, s')"
  using full_window_picks_sector_zero [OF demo4.wal_device_axioms demo_live [OF demo_tmr_wf], where S = 7 and ex = "[0]"]
    demo4_ring demo4_nseq by auto

end
