(* ===== verification/Boot_Config.thy ===== *)
theory Boot_Config
  imports Boot_Journal
begin

text \<open>
  What a build fixes: the partition map and limits that the manifest compiler writes into
  \<open>generated_boot_config.h\<close> (\<open>chip_config\<close>), the layout of the write-ahead log (\<open>wal_config\<close>), and the
  capability sheet the driver glue hands out through \<open>boot_get_slot_caps\<close>.
\<close>

record chip_config =
  cc_app_addr :: u32
  cc_app_size :: u32
  cc_staging_addr :: u32
  cc_staging_size :: u32
  cc_scratch_addr :: u32
  cc_scratch_size :: u32
  cc_max_sector_size :: u32
  cc_flash_total_size :: u32
  cc_max_retries :: u32
  cc_max_recovery_retries :: u32
  cc_mailbox_addr :: u32
  cc_mailbox_slot_size :: u32

record 's build =
  bd_wal :: wal_config
  bd_chip :: chip_config
  bd_caps :: "'s slot_caps option"

text \<open>
  The header checked in with the CLI. It predates \<open>CHIP_SCRATCH_SLOT_SIZE\<close> and the mailbox
  symbols; the partition map in its comment gives the scratch slot 64 KB, and the mailbox is put
  behind the log here.
\<close>

definition generated_chip_config :: chip_config where
  "generated_chip_config = \<lparr> cc_app_addr = 0x00070000, cc_app_size = 0x00100000,
     cc_staging_addr = 0x00170000, cc_staging_size = 0x00100000,
     cc_scratch_addr = 0x00270000, cc_scratch_size = 0x00010000,
     cc_max_sector_size = 4096, cc_flash_total_size = 0x00400000,
     cc_max_retries = 3, cc_max_recovery_retries = 5,
     cc_mailbox_addr = 0x00284000, cc_mailbox_slot_size = 4096 \<rparr>"

definition generated_wal_config :: wal_config where
  "generated_wal_config = \<lparr> wc_sector_addrs = [0x00280000, 0x00281000, 0x00282000, 0x00283000],
     wc_sector_sizes = [4096, 4096, 4096, 4096], wc_max_sector_size = 4096, wc_stage1_svn = 0 \<rparr>"

end
