(* ===== verification/Boot_Effect.thy ===== *)
theory Boot_Effect
  imports Boot_Config Boot_Flash_Stream "HOL-Library.Monad_Syntax"
begin

text \<open>
  Flash effects (\<open>core/boot_effect.c\<close>): a planned destructive operation names its target range and the
  checksum the range must have afterwards. \<open>boot_effect_execute\<close> checks every effect against the
  whitelist, skips it when the checksum already fits, performs it and reads it back. The admission
  check weighs wear, time and supply voltage before an update starts.
\<close>

section \<open>Effects\<close>

datatype effect_op = EFF_ERASE | EFF_COPY | EFF_FLIP

record flash_effect =
  fx_op :: effect_op
  fx_src :: u32
  fx_dst :: u32
  fx_len :: u32
  fx_post_crc :: u32

record allowed_region =
  ar_base_addr :: u32
  ar_max_size :: u32

definition effect_allowed :: "allowed_region list \<Rightarrow> flash_effect \<Rightarrow> bool" where
  "effect_allowed wl e =
     list_ex (\<lambda>w. is_buffer_within (fx_dst e) (unat (fx_len e)) (ar_base_addr w) (unat (ar_max_size w))) wl"

text \<open>
  The switch of the active slot. Its status decides whether the executor goes on: \<open>BOOT_OK\<close>
  continues with the next effect, everything else is returned.
\<close>

definition effect_caps :: "'s build \<Rightarrow> 's platform \<Rightarrow> 's slot_caps option" where
  "effect_caps b p = (case pf_slot_caps p of None \<Rightarrow> bd_caps b | Some c \<Rightarrow> Some c)"

definition flip_pointer ::
  "'s build \<Rightarrow> 's platform \<Rightarrow> u32 \<Rightarrow> journal_state \<Rightarrow> 's \<Rightarrow> boot_status \<times> journal_state \<times> 's" where
  "flip_pointer b p dst j s =
     (case boot_journal_get_tmr j of
        (BOOT_OK, Some t) \<Rightarrow> boot_journal_update_tmr (bd_wal b) p j (t\<lparr>tm_active_app_slot := ucast dst\<rparr>) s
      | (st, _) \<Rightarrow> (st, j, s))"

definition flip_commit ::
  "'s build \<Rightarrow> 's platform \<Rightarrow> 's slot_caps \<Rightarrow> flash_effect \<Rightarrow> journal_state \<Rightarrow> 's \<Rightarrow>
     boot_status \<times> journal_state \<times> 's" where
  "flip_commit b p caps e j s =
     (case sc_exec_model caps of
        SLOT_EXEC_BANK_SWAP \<Rightarrow>
          (case sc_bank_flip caps of
             None \<Rightarrow> (BOOT_ERR_NOT_SUPPORTED, j, s)
           | Some f \<Rightarrow> (case f (fx_dst e) s of (st, s) \<Rightarrow> (st, j, s)))
      | SLOT_EXEC_XIP_REMAP \<Rightarrow>
          (case sc_xip_remap_commit caps of
             None \<Rightarrow> (BOOT_ERR_NOT_SUPPORTED, j, s)
           | Some f \<Rightarrow> (case f (fx_src e) s of (st, s) \<Rightarrow> (st, j, s)))
      | SLOT_EXEC_RELOCATABLE \<Rightarrow> flip_pointer b p (fx_dst e) j s
      | SLOT_EXEC_FIXED \<Rightarrow> (BOOT_ERR_NOT_SUPPORTED, j, s))"

definition effect_flip ::
  "'s build \<Rightarrow> 's platform \<Rightarrow> flash_effect \<Rightarrow> journal_state \<Rightarrow> 's \<Rightarrow> boot_status \<times> journal_state \<times> 's" where
  "effect_flip b p e j s =
     (case effect_caps b p of
        None \<Rightarrow> (BOOT_ERR_INVALID_ARG, j, s)
      | Some caps \<Rightarrow>
          (case flip_commit b p caps e j s of (st, j, s) \<Rightarrow>
             case (if st = BOOT_OK then sc_get_active_slot caps else None) of
               None \<Rightarrow> (st, j, s)
             | Some get \<Rightarrow>
                 (case get s of (st, active, s) \<Rightarrow>
                    (if st = BOOT_OK \<and> active \<noteq> fx_dst e then BOOT_ERR_VERIFY else st, j, s))))"

section \<open>The executor\<close>

text \<open>Step 3 for an erase or a copy; the watchdog, the checks and the read-back are in the loop.\<close>

definition effect_write ::
  "'s build \<Rightarrow> 's platform \<Rightarrow> 's flash_hal \<Rightarrow> flash_effect \<Rightarrow> u8 list \<Rightarrow> 's \<Rightarrow>
     (boot_status \<times> u8 list \<times> 's) option" where
  "effect_write b p fl e arena s =
     (case fx_op e of
        EFF_ERASE \<Rightarrow> boot_swap_erase_safe (cc_max_sector_size (bd_chip b)) p (fx_dst e) (unat (fx_len e)) arena s
      | EFF_COPY \<Rightarrow> stream_copy p fl (fx_src e) (fx_dst e) (unat (fx_len e)) arena s
      | EFF_FLIP \<Rightarrow> Some (BOOT_OK, arena, s))"

text \<open>One effect that is not a flip, from step 3 on.\<close>

definition effect_apply ::
  "'s build \<Rightarrow> 's platform \<Rightarrow> 's flash_hal \<Rightarrow> flash_effect \<Rightarrow> u8 list \<Rightarrow> 's \<Rightarrow>
     (boot_status \<times> u8 list \<times> 's) option" where
  "effect_apply b p fl e arena s = do {
     (st, arena, s) \<leftarrow> effect_write b p fl e arena s;
     if st \<noteq> BOOT_OK then Some (st, arena, s)
     else do {
       (st, crc, arena, s) \<leftarrow> boot_crc32_flash_stream p fl (fx_dst e) (unat (fx_len e)) arena s;
       Some (if st \<noteq> BOOT_OK then st
             else if crc = Some (fx_post_crc e) then BOOT_OK else BOOT_ERR_FLASH_HW, arena, s)
     }
   }"

fun boot_effect_execute ::
  "'s build \<Rightarrow> 's platform \<Rightarrow> 's flash_hal \<Rightarrow> allowed_region list \<Rightarrow> flash_effect list \<Rightarrow> u8 list \<Rightarrow>
     journal_state \<Rightarrow> 's \<Rightarrow> (boot_status \<times> u8 list \<times> journal_state \<times> 's) option" where
  "boot_effect_execute b p fl wl [] arena j s = Some (BOOT_OK, arena, j, s)"
| "boot_effect_execute b p fl wl (e # es) arena j s =
     (let s = wdt_kick p s
      in if \<not> effect_allowed wl e then Some (BOOT_ERR_FLASH_BOUNDS, arena, j, s)
         else do {
           (st, crc, arena, s) \<leftarrow> boot_crc32_flash_stream p fl (fx_dst e) (unat (fx_len e)) arena s;
           if st = BOOT_OK \<and> crc = Some (fx_post_crc e)
           then boot_effect_execute b p fl wl es arena j s
           else if fx_op e = EFF_FLIP then
             (case effect_flip b p e j s of (st, j, s) \<Rightarrow>
                if st \<noteq> BOOT_OK then Some (st, arena, j, s)
                else boot_effect_execute b p fl wl es arena j s)
           else do {
             (st, arena, s) \<leftarrow> effect_apply b p fl e arena s;
             if st \<noteq> BOOT_OK then Some (st, arena, j, s)
             else boot_effect_execute b p fl wl es arena j s
           }
         })"

declare boot_effect_execute.simps(2) [simp del]

text \<open>The checksum of \<open>len\<close> erased bytes, for an erased value of \<open>0xFF\<close>.\<close>

definition boot_effect_compute_erased_crc :: "nat \<Rightarrow> u32" where
  "boot_effect_compute_erased_crc len = NOT (boot_crc32_fill 0xFFFFFFFF 0xFF len)"

section \<open>Admission\<close>

record boot_component =
  bc_component_id :: u32
  bc_staging_offset :: u32
  bc_target_addr :: u32
  bc_image_size :: u32
  bc_expected_hash :: "u8 list"

definition supply_sufficient :: "u32 \<Rightarrow> u64 \<Rightarrow> u32 \<Rightarrow> bool" where
  "supply_sufficient mv worst_us margin =
     (let required_mv = 2700 + margin;
          required_mv = (if worst_us > 5000000 then required_mv + 100 else required_mv)
      in mv \<ge> required_mv)"

record wear_plan =
  wp_app :: u32
  wp_staging :: u32
  wp_scratch :: u32
  wp_write_bytes :: u64

definition admit_component :: "chip_config \<Rightarrow> u32 \<Rightarrow> boot_component \<Rightarrow> wear_plan \<Rightarrow> wear_plan" where
  "admit_component cc sector_size c w =
     (let num_sectors = (bc_image_size c + sector_size - 1) div sector_size;
          a = bc_target_addr c;
          w = (if a \<ge> cc_app_addr cc \<and> a < cc_app_addr cc + cc_app_size cc
               then w\<lparr>wp_app := wp_app w + num_sectors\<rparr>
               else if a \<ge> cc_staging_addr cc \<and> a < cc_staging_addr cc + cc_staging_size cc
               then w\<lparr>wp_staging := wp_staging w + num_sectors\<rparr> else w)
      in w\<lparr>wp_write_bytes := wp_write_bytes w + ucast (bc_image_size c)\<rparr>)"

definition admit_plan ::
  "chip_config \<Rightarrow> u32 \<Rightarrow> u32 \<Rightarrow> boot_component list \<Rightarrow> bool \<Rightarrow> wear_plan" where
  "admit_plan cc sector_size image_size components requires_swap =
     (let num_sectors = (image_size + sector_size - 1) div sector_size;
          w = (if requires_swap
               then \<lparr> wp_app = num_sectors, wp_staging = num_sectors, wp_scratch = num_sectors,
                      wp_write_bytes = ucast image_size * 3 \<rparr>
               else \<lparr> wp_app = 0, wp_staging = 0, wp_scratch = 0, wp_write_bytes = 0 \<rparr>)
      in fold (admit_component cc sector_size) components w)"

definition worst_case_us :: "'s flash_hal \<Rightarrow> wear_plan \<Rightarrow> u64" where
  "worst_case_us fl w =
     (let us = (if fh_erase_time_us_max fl > 0
                then ucast (wp_app w + wp_staging w + wp_scratch w) * ucast (fh_erase_time_us_max fl)
                else 0)
      in if fh_write_time_us_page fl > 0 \<and> fh_write_align fl > 0
         then us + (wp_write_bytes w + ucast (fh_write_align fl) - 1) div ucast (fh_write_align fl) *
                   ucast (fh_write_time_us_page fl)
         else us)"

definition boot_effect_admit_or_defer ::
  "chip_config \<Rightarrow> 's flash_hal \<Rightarrow> wal_tmr_payload \<Rightarrow> u32 \<Rightarrow> boot_component list \<Rightarrow> bool \<Rightarrow> 's \<Rightarrow>
     boot_status \<times> 's" where
  "boot_effect_admit_or_defer cc fl tmr image_size components requires_swap s =
     (let sector_size = (if fh_max_sector_size fl = 0 then 4096 else fh_max_sector_size fl);
          w = admit_plan cc sector_size image_size components requires_swap
      in if fh_max_erase_cycles fl > 0 \<and>
            (tm_app_slot_erase_counter tmr + wp_app w \<ge> fh_max_erase_cycles fl \<or>
             tm_staging_slot_erase_counter tmr + wp_staging w \<ge> fh_max_erase_cycles fl \<or>
             tm_swap_buffer_erase_counter tmr + wp_scratch w \<ge> fh_max_erase_cycles fl)
         then (BOOT_ERR_COUNTER_EXHAUSTED, s)
         else case fh_get_supply_mv fl of
           None \<Rightarrow> (BOOT_OK, s)
         | Some get \<Rightarrow>
             (case get s of (st, mv, s) \<Rightarrow>
                (if st = BOOT_OK \<and> \<not> supply_sufficient mv (worst_case_us fl w) 100
                 then BOOT_ERR_DEFER else BOOT_OK, s)))"

section \<open>An effect on a device that may die\<close>

lemma erased_crc: "boot_effect_compute_erased_crc n = compute_boot_crc32 (replicate n 0xFF)"
proof -
  have ones: "(0xFFFFFFFF :: u32) = - 1" by simp
  have "NOT x = x XOR (0xFFFFFFFF :: u32)" for x
    unfolding ones by (rule bit_word_eqI) (simp add: bit_simps)
  then show ?thesis
    by (simp add: boot_effect_compute_erased_crc_def compute_boot_crc32_def boot_crc32_fill_eq
        TOOB_CRC32_INIT_def TOOB_CRC32_FINAL_XOR_def)
qed

lemma one_sector: "0 < n \<Longrightarrow> n \<le> k \<Longrightarrow> (n + k - Suc 0) div k = (1 :: nat)"
  by (rule div_nat_eqI) simp_all

context mortal_flash
begin

text \<open>
  The executor's first effect, when it is an erase of at most one sector: it either gets the range
  erased and goes on, or stops with the device dead.
\<close>

lemma read_back_fate:
  assumes "live s" and "unat (fx_dst e) + unat (fx_len e) \<le> total" and "arena \<noteq> []"
    and "compute_boot_crc32 (slice_of (unat (fx_dst e)) (unat (fx_len e)) (mem s)) = fx_post_crc e"
    and "effect_write b p fl e a t = Some (BOOT_OK, arena, s)"
  shows "\<exists>st s'. effect_apply b p fl e a t = Some (st, zeroed (length arena), s') \<and>
      mem s' = mem s \<and> (st = BOOT_OK \<and> live s' \<or> st \<noteq> BOOT_OK \<and> dead s')"
  using crc_stream_fate [OF assms(1-3)] assms(4,5) by (auto simp: effect_apply_def)

lemma erase_effect_fate:
  assumes "live s" and "arena \<noteq> []" and "fh_erased_value fl = 0xFF" and "effect_allowed wl e"
    and "fx_op e = EFF_ERASE" and "n = unat (fx_len e)" and "dst = unat (fx_dst e)"
    and "fx_post_crc e = boot_effect_compute_erased_crc n"
    and "0 < n" and "n \<le> sec" and "dst mod sec = 0" and "dst + sec \<le> total"
    and "compute_boot_crc32 (slice_of dst n (mem s)) = compute_boot_crc32 (replicate n 0xFF) \<Longrightarrow>
         slice_of dst n (mem s) = replicate n 0xFF"
  shows "\<exists>st a s'. boot_effect_execute b p fl wl (e # es) arena j s =
        (if st = BOOT_OK then boot_effect_execute b p fl wl es a j s' else Some (st, a, j, s')) \<and>
      length a = length arena \<and> touches dst sec (mem s) (mem s') \<and>
      (st = BOOT_OK \<and> live s' \<and> slice_of dst n (mem s') = replicate n 0xFF \<or> st \<noteq> BOOT_OK \<and> dead s')"
proof -
  have ml: "length (mem s) = total" using mem_len assms(1) by simp
  have k: "live (wdt_kick p s)" "mem (wdt_kick p s) = mem s" using assms(1) by (simp_all add: wdt_fates)
  have fit: "unat (fx_dst e) + unat (fx_len e) \<le> total" using assms(6,7,10,12) by simp
  note unfold = boot_effect_execute.simps(2) [of b p fl wl e es arena j s]
  obtain st0 c s1 where c1: "boot_crc32_flash_stream p fl (fx_dst e) (unat (fx_len e)) arena (wdt_kick p s) =
        Some (st0, c, zeroed (length arena), s1)" "mem s1 = mem s"
      "st0 = BOOT_OK \<and> live s1 \<and> c = Some (compute_boot_crc32 (slice_of dst n (mem s))) \<or>
       st0 \<noteq> BOOT_OK \<and> c = None \<and> dead s1"
    using crc_stream_fate [OF k(1) fit assms(2)] k(2) assms(6,7) by auto
  show ?thesis
  proof (cases "st0 = BOOT_OK")
    case False
    have z: "zeroed (length arena) \<noteq> []" using assms(2) by (simp add: zeroed_def)
    obtain st a s2 where d: "boot_swap_erase_safe (cc_max_sector_size (bd_chip b)) p (fx_dst e) (unat (fx_len e))
          (zeroed (length arena)) s1 = Some (st, a, s2)" "length a = length arena" "st \<noteq> BOOT_OK"
          "mem s2 = mem s1" "dead s2"
      using erase_safe_dead [OF _ _ z, of s1 "unat (fx_len e)"] c1(3) False assms(6,9) by fastforce
    have "effect_apply b p fl e (zeroed (length arena)) s1 = Some (st, a, s2)"
      using d assms(5) by (simp add: effect_apply_def effect_write_def)
    then show ?thesis
      unfolding unfold using d c1 False assms(4,5)
      by (intro exI [of _ st] exI [of _ a] exI [of _ s2]) (simp add: Let_def)
  next
    case ok: True
    then have l1: "live s1" and cv: "c = Some (compute_boot_crc32 (slice_of dst n (mem s)))" using c1(3) by auto
    show ?thesis
    proof (cases "c = Some (fx_post_crc e)")
      case True
      then have "slice_of dst n (mem s) = replicate n 0xFF"
        using assms(8,13) cv by (simp add: erased_crc)
      then show ?thesis
        unfolding unfold using c1(1,2) ok True l1 assms(4)
        by (intro exI [of _ BOOT_OK] exI [of _ "zeroed (length arena)"] exI [of _ s1]) (simp add: Let_def)
    next
      case False
      have z: "zeroed (length arena) \<noteq> []" using assms(2) by (simp add: zeroed_def)
      have one: "(unat (fx_len e) + sec - Suc 0) div sec = 1" using one_sector assms(6,9,10) by simp
      obtain st s2 where er: "boot_swap_erase_safe (cc_max_sector_size (bd_chip b)) p (fx_dst e) (unat (fx_len e))
            (zeroed (length arena)) s1 = Some (st, zeroed (length arena), s2)"
          "st = BOOT_OK \<and> live s2 \<and> mem s2 = patch dst (replicate sec 0xFF) (mem s) \<or>
           st \<noteq> BOOT_OK \<and> dead s2 \<and> touches dst sec (mem s) (mem s2)"
        using erase_safe_fate [OF l1, of "fx_dst e" "unat (fx_len e)" "zeroed (length arena)"
            "cc_max_sector_size (bd_chip b)"] assms(3,6,7,9,11,12) z one c1(2)
        by (auto simp: MAX_ERASE_LOOPS_def)
      show ?thesis
      proof (cases "st = BOOT_OK")
        case bad: False
        then have "effect_apply b p fl e (zeroed (length arena)) s1 = Some (st, zeroed (length arena), s2)"
          using er(1) assms(5) by (simp add: effect_apply_def effect_write_def)
        then show ?thesis
          unfolding unfold using bad er(2) c1(1) ok False assms(4,5)
          by (intro exI [of _ st] exI [of _ "zeroed (length arena)"] exI [of _ s2]) (simp add: Let_def)
      next
        case good: True
        then have m2: "mem s2 = patch dst (replicate sec 0xFF) (mem s)" and l2: "live s2" using er(2) by auto
        have t: "touches dst sec (mem s) (mem s2)"
          unfolding m2 using touches_patch [of dst "replicate sec 0xFF" "mem s"] ml assms(12) by simp
        have "slice_of dst sec (mem s2) = replicate sec 0xFF"
          unfolding m2 using slice_of_patch_same [of dst "replicate sec 0xFF" "mem s"] ml assms(12) by simp
        then have sl: "slice_of dst n (mem s2) = replicate n 0xFF"
          using slice_of_slice_of [of 0 n sec dst "mem s2"] assms(10) by (simp add: slice_of_def)
        obtain st3 s3 where r: "effect_apply b p fl e (zeroed (length arena)) s1 =
              Some (st3, zeroed (length arena), s3)" "mem s3 = mem s2"
              "st3 = BOOT_OK \<and> live s3 \<or> st3 \<noteq> BOOT_OK \<and> dead s3"
          using read_back_fate [OF l2 fit z, of b "zeroed (length arena)" s1] er(1) good sl assms(5-8)
          by (auto simp: effect_write_def erased_crc)
        then show ?thesis
          unfolding unfold using c1(1) ok False assms(4,5) t sl
          by (intro exI [of _ st3] exI [of _ "zeroed (length arena)"] exI [of _ s3]) (auto simp: Let_def)
      qed
    qed
  qed
qed

text \<open>The executor's first effect, when it is a copy onto an erased range.\<close>

lemma copy_effect_fate:
  assumes "live s" and "arena \<noteq> []" and "length arena mod walign = 0" and "effect_allowed wl e"
    and "fx_op e = EFF_COPY" and "n = unat (fx_len e)" and "dst = unat (fx_dst e)" and "src = unat (fx_src e)"
    and "fx_post_crc e = compute_boot_crc32 (slice_of src n (mem s))"
    and "0 < n" and "dst + n \<le> total" and "src + n \<le> total" and "src + n \<le> dst \<or> dst + n \<le> src"
    and "dst mod walign = 0" and "n mod walign = 0"
    and "slice_of dst n (mem s) = replicate n 0xFF"
    and "compute_boot_crc32 (replicate n 0xFF) = fx_post_crc e \<Longrightarrow> replicate n 0xFF = slice_of src n (mem s)"
  shows "\<exists>st a s'. boot_effect_execute b p fl wl (e # es) arena j s =
        (if st = BOOT_OK then boot_effect_execute b p fl wl es a j s' else Some (st, a, j, s')) \<and>
      length a = length arena \<and> touches dst n (mem s) (mem s') \<and>
      (st = BOOT_OK \<and> live s' \<and> slice_of dst n (mem s') = slice_of src n (mem s) \<or> st \<noteq> BOOT_OK \<and> dead s')"
proof -
  have ml: "length (mem s) = total" using mem_len assms(1) by simp
  have k: "live (wdt_kick p s)" "mem (wdt_kick p s) = mem s" using assms(1) by (simp_all add: wdt_fates)
  have fit: "unat (fx_dst e) + unat (fx_len e) \<le> total" "unat (fx_src e) + unat (fx_len e) \<le> total"
    using assms(6-8,11,12) by simp_all
  have z: "zeroed (length arena) \<noteq> []" using assms(2) by (simp add: zeroed_def)
  note unfold = boot_effect_execute.simps(2) [of b p fl wl e es arena j s]
  obtain st0 c s1 where c1: "boot_crc32_flash_stream p fl (fx_dst e) (unat (fx_len e)) arena (wdt_kick p s) =
        Some (st0, c, zeroed (length arena), s1)" "mem s1 = mem s"
      "st0 = BOOT_OK \<and> live s1 \<and> c = Some (compute_boot_crc32 (replicate n 0xFF)) \<or>
       st0 \<noteq> BOOT_OK \<and> c = None \<and> dead s1"
    using crc_stream_fate [OF k(1) fit(1) assms(2)] k(2) assms(6,7,16) by auto
  show ?thesis
  proof (cases "st0 = BOOT_OK")
    case False
    obtain st s2 where d: "stream_copy p fl (fx_src e) (fx_dst e) (unat (fx_len e))
          (zeroed (length arena)) s1 = Some (st, zeroed (length arena), s2)" "st \<noteq> BOOT_OK"
          "mem s2 = mem s1" "dead s2"
      using stream_copy_dead [of s1 "unat (fx_len e)" "fx_src e" "fx_dst e" "zeroed (length arena)"]
        c1(3) False assms(6,10) by auto
    have "effect_apply b p fl e (zeroed (length arena)) s1 = Some (st, zeroed (length arena), s2)"
      using d assms(5) by (simp add: effect_apply_def effect_write_def)
    then show ?thesis
      unfolding unfold using d c1 False assms(4,5)
      by (intro exI [of _ st] exI [of _ "zeroed (length arena)"] exI [of _ s2]) (simp add: Let_def)
  next
    case ok: True
    then have l1: "live s1" and cv: "c = Some (compute_boot_crc32 (replicate n 0xFF))" using c1(3) by auto
    show ?thesis
    proof (cases "c = Some (fx_post_crc e)")
      case True
      then show ?thesis
        unfolding unfold using c1(1,2) ok True l1 assms(4,16,17) cv
        by (intro exI [of _ BOOT_OK] exI [of _ "zeroed (length arena)"] exI [of _ s1]) (simp add: Let_def)
    next
      case False
      have pr: "programmable (slice_of (unat (fx_dst e)) (unat (fx_len e)) (mem s1))
          (slice_of (unat (fx_src e)) (unat (fx_len e)) (mem s1))"
        using assms(6-8,12,16) c1(2) ml by (simp flip: assms(6-8) add: programmable_erased)
      have "\<exists>st s2. stream_copy p fl (fx_src e) (fx_dst e) (unat (fx_len e)) (zeroed (length arena)) s1 =
            Some (st, zeroed (length arena), s2) \<and>
          (st = BOOT_OK \<and> live s2 \<and> mem s2 = patch dst (slice_of src n (mem s)) (mem s) \<or>
           st \<noteq> BOOT_OK \<and> dead s2 \<and> touches dst n (mem s) (mem s2))"
        using stream_copy_fate [OF l1 fit(2,1) z _ _ _ _ pr] assms(3,13-15) c1(2)
        by (simp flip: assms(6-8))
      then obtain st s2 where cp: "stream_copy p fl (fx_src e) (fx_dst e) (unat (fx_len e)) (zeroed (length arena)) s1 =
            Some (st, zeroed (length arena), s2)"
          "st = BOOT_OK \<and> live s2 \<and> mem s2 = patch dst (slice_of src n (mem s)) (mem s) \<or>
           st \<noteq> BOOT_OK \<and> dead s2 \<and> touches dst n (mem s) (mem s2)" by blast
      show ?thesis
      proof (cases "st = BOOT_OK")
        case bad: False
        then have "effect_apply b p fl e (zeroed (length arena)) s1 = Some (st, zeroed (length arena), s2)"
          using cp(1) assms(5) by (simp add: effect_apply_def effect_write_def)
        then show ?thesis
          unfolding unfold using bad cp(2) c1(1) ok False assms(4,5)
          by (intro exI [of _ st] exI [of _ "zeroed (length arena)"] exI [of _ s2]) (simp add: Let_def)
      next
        case good: True
        then have m2: "mem s2 = patch dst (slice_of src n (mem s)) (mem s)" and l2: "live s2" using cp(2) by auto
        have ls: "length (slice_of src n (mem s)) = n" using ml assms(12) by simp
        have t: "touches dst n (mem s) (mem s2)"
          unfolding m2 using touches_patch [of dst "slice_of src n (mem s)" "mem s"] ml assms(11) ls by simp
        have sl: "slice_of dst n (mem s2) = slice_of src n (mem s)"
          unfolding m2 using slice_of_patch_same [of dst "slice_of src n (mem s)" "mem s"] ml assms(11) ls by simp
        obtain st3 s3 where r: "effect_apply b p fl e (zeroed (length arena)) s1 =
              Some (st3, zeroed (length arena), s3)" "mem s3 = mem s2"
              "st3 = BOOT_OK \<and> live s3 \<or> st3 \<noteq> BOOT_OK \<and> dead s3"
          using read_back_fate [OF l2 fit(1) z, of b "zeroed (length arena)" s1] cp(1) good sl assms(5-9)
          by (auto simp: effect_write_def)
        then show ?thesis
          unfolding unfold using c1(1) ok False assms(4,5) t sl
          by (intro exI [of _ st3] exI [of _ "zeroed (length arena)"] exI [of _ s3]) (auto simp: Let_def)
      qed
    qed
  qed
qed

end

end
