(* ===== verification/Boot_Swap.thy ===== *)
theory Boot_Swap
  imports Boot_Effect
begin

text \<open>
  The in-place swap of two flash slots through a scratch sector (\<open>core/boot_swap.c\<close>): the end-of-life
  gate, the chunk loop with its identity check and its log checkpoint, the deduction of how far an
  interrupted chunk had come, the plan of the remaining erase and copy effects, and the one-way
  copy. The erase routine of the same file is in \<open>Boot_Flash_Stream\<close>. \<open>size_t\<close> values are \<open>nat\<close>;
  the swap event switches have their default values (state and progress on, sub-phases off).
  A routine returns \<open>None\<close> where it dereferences a \<open>NULL\<close> clock or never returns.
\<close>

section \<open>End-of-life gate\<close>

text \<open>The static \<open>current_swap_state\<close> is threaded through.\<close>

datatype swap_state = SWAP_STATE_NORMAL | SWAP_STATE_READ_ONLY

definition boot_swap_check_eol_survival ::
  "'s platform \<Rightarrow> journal_state \<Rightarrow> swap_state \<Rightarrow> boot_status \<times> swap_state" where
  "boot_swap_check_eol_survival p j ss =
     (if ss = SWAP_STATE_READ_ONLY then (BOOT_ERR_COUNTER_EXHAUSTED, ss)
      else case pf_flash p of
        None \<Rightarrow> (BOOT_ERR_INVALID_ARG, ss)
      | Some fl \<Rightarrow>
          (case boot_journal_get_tmr j of
             (BOOT_OK, Some t) \<Rightarrow>
               if fh_max_erase_cycles fl > 0 \<and> tm_app_slot_erase_counter t \<ge> fh_max_erase_cycles fl
               then (BOOT_ERR_COUNTER_EXHAUSTED, SWAP_STATE_READ_ONLY)
               else (BOOT_OK, ss)
           | (st, _) \<Rightarrow> (st, ss)))"

section \<open>Argument checks\<close>

datatype boot_dest_slot = BOOT_DEST_SLOT_APP | BOOT_DEST_SLOT_STAGING

text \<open>The checks the swap and the copy share; \<open>extra\<close> is the scratch base the swap bounds too.\<close>

definition transfer_bounds_ok :: "u32 list \<Rightarrow> u32 \<Rightarrow> bool" where
  "transfer_bounds_ok bases len = list_all (\<lambda>base. \<not> len > UINT32_MAX - base) bases"

definition transfer_aligned :: "'s flash_hal \<Rightarrow> u32 \<Rightarrow> u32 \<Rightarrow> u32 \<Rightarrow> bool" where
  "transfer_aligned fl src_base dest_base len \<longleftrightarrow>
     (fh_write_align fl > 0 \<longrightarrow>
        src_base mod ucast (fh_write_align fl) = 0 \<and> dest_base mod ucast (fh_write_align fl) = 0 \<and>
        len mod ucast (fh_write_align fl) = 0)"

section \<open>Progress events\<close>

definition swap_event_of :: "swap_phase \<Rightarrow> u32 \<Rightarrow> nat \<Rightarrow> u32 \<Rightarrow> u32 \<Rightarrow> swap_event" where
  "swap_event_of phase flags std_sec len offset =
     (let tot = of_nat ((unat len + std_sec - 1) div std_sec);
          dn = of_nat (unat offset div std_sec)
      in \<lparr> ev_abi_version = 1, ev_phase = phase,
           ev_sectors_done = (if dn > tot then tot else dn),
           ev_sectors_total = tot, ev_flags = flags \<rparr>)"

text \<open>The notification, timed with the tick counter: did it overrun \<open>NOTIFY_TIMEOUT_MS\<close>?\<close>

definition swap_notify_timed :: "'s platform \<Rightarrow> swap_event \<Rightarrow> 's \<Rightarrow> (bool \<times> 's) option" where
  "swap_notify_timed p ev s =
     (case Option.bind (pf_soc p) sh_swap_notify of
        None \<Rightarrow> Some (False, s)
      | Some notify \<Rightarrow>
          (case Option.bind (pf_clock p) kh_get_tick_ms of
             None \<Rightarrow> None
           | Some tick \<Rightarrow>
               (case tick (wdt_kick p s) of (t0, s) \<Rightarrow>
                  case tick (notify ev s) of (t1, s) \<Rightarrow> Some (t1 - t0 > 50, wdt_kick p s))))"

definition swap_notify_done :: "'s platform \<Rightarrow> swap_event \<Rightarrow> 's \<Rightarrow> 's" where
  "swap_notify_done p ev s =
     (case Option.bind (pf_soc p) sh_swap_notify of
        None \<Rightarrow> s
      | Some notify \<Rightarrow> wdt_kick p (notify ev (wdt_kick p s)))"

section \<open>Block geometry\<close>

definition sector_aligned_at :: "'s flash_hal \<Rightarrow> u32 \<Rightarrow> 's \<Rightarrow> nat option" where
  "sector_aligned_at fl addr s =
     (case fh_get_sector_size fl addr s of (st, n) \<Rightarrow>
        if st \<noteq> BOOT_OK \<or> n = 0 \<or> unat addr mod n \<noteq> 0 then None else Some n)"

text \<open>The last block is what is left, padded up to the write alignment.\<close>

definition clip_block :: "'s flash_hal \<Rightarrow> u32 \<Rightarrow> u32 \<Rightarrow> nat \<Rightarrow> nat" where
  "clip_block fl offset len block_size =
     (if unat offset + block_size > unat len then
        let block_size = unat len - unat offset;
            rem = block_size mod unat (fh_write_align fl)
        in if fh_write_align fl > 0 \<and> rem \<noteq> 0 then block_size + (unat (fh_write_align fl) - rem) else block_size
      else block_size)"

text \<open>Sector sizes at destination, source and scratch, and the block the loop works on.\<close>

definition swap_geometry ::
  "chip_config \<Rightarrow> 's flash_hal \<Rightarrow> u32 \<Rightarrow> u32 \<Rightarrow> u32 \<Rightarrow> u32 \<Rightarrow> 's \<Rightarrow> (nat \<times> nat \<times> nat \<times> nat) option" where
  "swap_geometry cc fl cur_src cur_dest offset len s = do {
     dest_sec \<leftarrow> sector_aligned_at fl cur_dest s;
     src_sec \<leftarrow> sector_aligned_at fl cur_src s;
     scratch_sec \<leftarrow> (case fh_get_sector_size fl (cc_scratch_addr cc) s of (st, n) \<Rightarrow>
                        if st \<noteq> BOOT_OK \<or> n = 0 then None else Some n);
     Some (dest_sec, src_sec, scratch_sec,
           clip_block fl offset len (max (max dest_sec src_sec) scratch_sec))
   }"

section \<open>Identity check\<close>

text \<open>
  The byte comparison after equal checksums, through two halves of the arena.
\<close>

partial_function (option) identity_loop ::
  "'s platform \<Rightarrow> 's flash_hal \<Rightarrow> u32 \<Rightarrow> u32 \<Rightarrow> nat \<Rightarrow> nat \<Rightarrow> nat \<Rightarrow> u8 list \<Rightarrow> u8 list \<Rightarrow> 's \<Rightarrow>
     (bool \<times> 's) option" where
  "identity_loop p fl dest src n half chk_off buf_dst buf_src s =
     (if chk_off < n then
        let s = wdt_kick p s;
            step = (if n - chk_off > half then half else n - chk_off)
        in case fh_read fl (dest + of_nat chk_off) step s of (st, d, s) \<Rightarrow>
             if st \<noteq> BOOT_OK then Some (False, s)
             else case fh_read fl (src + of_nat chk_off) step s of (st, d', s) \<Rightarrow>
               if st \<noteq> BOOT_OK then Some (False, s)
               else
                 let buf_dst = fill_prefix d buf_dst; buf_src = fill_prefix d' buf_src
                 in if constant_time_memcmp_glitch_safe buf_dst buf_src step \<noteq> BOOT_OK then Some (False, s)
                    else identity_loop p fl dest src n half (chk_off + step) buf_dst buf_src s
      else Some (True, s))"

text \<open>Both checksums, and whether the two ranges hold the same bytes.\<close>

definition identity_check ::
  "nat \<Rightarrow> 's platform \<Rightarrow> 's flash_hal \<Rightarrow> u32 \<Rightarrow> u32 \<Rightarrow> nat \<Rightarrow> u8 list \<Rightarrow> 's \<Rightarrow>
     (boot_status \<times> u32 \<times> u32 \<times> bool \<times> u8 list \<times> 's) option" where
  "identity_check half p fl src dest n arena s = do {
     (st, c_src, arena, s) \<leftarrow> boot_crc32_flash_stream p fl src n arena s;
     if st \<noteq> BOOT_OK then Some (st, 0, 0, False, arena, s)
     else do {
       (st, c_dest, arena, s) \<leftarrow> boot_crc32_flash_stream p fl dest n arena s;
       if st \<noteq> BOOT_OK then Some (st, the c_src, 0, False, arena, s)
       else if c_src = c_dest then do {
         (same, s) \<leftarrow> identity_loop p fl dest src n half 0 (take half arena) (drop half arena) s;
         Some (BOOT_OK, the c_src, the c_dest, same, zeroed (length arena), s)
       }
       else Some (BOOT_OK, the c_src, the c_dest, False, arena, s)
     }
   }"

section \<open>How far an interrupted chunk had come\<close>

datatype swap_verdict =
    Swap_complete
  | Swap_phases bool bool bool
  | Swap_fatal boot_status

definition swap_deduce :: "u32 \<Rightarrow> u32 \<Rightarrow> u32 \<Rightarrow> u32 \<Rightarrow> u32 \<Rightarrow> swap_verdict" where
  "swap_deduce crc_src crc_dest phys_src phys_dest phys_scratch =
     (let dest_has_src = (phys_dest = crc_src);
          src_has_dest = (phys_src = crc_dest);
          scratch_has_dest = (phys_scratch = crc_dest);
          dest_has_dest = (phys_dest = crc_dest);
          src_has_src = (phys_src = crc_src)
      in if dest_has_src \<and> src_has_dest then Swap_complete
         else if dest_has_src \<and> \<not> src_has_dest then
           (if \<not> scratch_has_dest then Swap_fatal BOOT_ERR_FLASH_HW else Swap_phases False False True)
         else if \<not> dest_has_src then
           (if scratch_has_dest then
              (if \<not> src_has_src then Swap_fatal BOOT_ERR_FLASH_HW else Swap_phases False True True)
            else
              (if \<not> dest_has_dest \<or> \<not> src_has_src then Swap_fatal BOOT_ERR_FLASH_HW
               else Swap_phases True True True))
         else Swap_fatal BOOT_ERR_INVALID_STATE)"

section \<open>Planning\<close>

definition erase_effect :: "u32 \<Rightarrow> u32 \<Rightarrow> flash_effect" where
  "erase_effect dst n = \<lparr> fx_op = EFF_ERASE, fx_src = 0, fx_dst = dst, fx_len = n,
     fx_post_crc = boot_effect_compute_erased_crc (unat n) \<rparr>"

definition copy_effect :: "u32 \<Rightarrow> u32 \<Rightarrow> u32 \<Rightarrow> u32 \<Rightarrow> flash_effect" where
  "copy_effect src dst n crc = \<lparr> fx_op = EFF_COPY, fx_src = src, fx_dst = dst, fx_len = n,
     fx_post_crc = crc \<rparr>"

lemma effect_sel [simp]:
  "fx_op (erase_effect d n) = EFF_ERASE" "fx_dst (erase_effect d n) = d" "fx_len (erase_effect d n) = n"
  "fx_post_crc (erase_effect d n) = boot_effect_compute_erased_crc (unat n)"
  "fx_op (copy_effect sr d n crc) = EFF_COPY" "fx_src (copy_effect sr d n crc) = sr"
  "fx_dst (copy_effect sr d n crc) = d" "fx_len (copy_effect sr d n crc) = n"
  "fx_post_crc (copy_effect sr d n crc) = crc"
  by (simp_all add: erase_effect_def copy_effect_def)

text \<open>One phase appends its erase and its copy if they fit the capacity.\<close>

definition plan_phase ::
  "bool \<Rightarrow> u32 \<Rightarrow> u32 \<Rightarrow> u32 \<Rightarrow> u32 \<Rightarrow> nat \<Rightarrow> flash_effect list \<Rightarrow> boot_status \<times> flash_effect list" where
  "plan_phase run src dst n crc cap fx =
     (if \<not> run then (BOOT_OK, fx)
      else if length fx + 2 > cap then (BOOT_ERR_INVALID_ARG, fx)
      else (BOOT_OK, fx @ [erase_effect dst n, copy_effect src dst n crc]))"

definition boot_swap_plan_chunk ::
  "chip_config \<Rightarrow> u32 \<Rightarrow> u32 \<Rightarrow> u32 \<Rightarrow> u32 \<Rightarrow> u32 \<Rightarrow> bool \<Rightarrow> bool \<Rightarrow> bool \<Rightarrow> nat \<Rightarrow>
     boot_status \<times> flash_effect list" where
  "boot_swap_plan_chunk cc cur_src cur_dest n crc_src crc_dest run_a run_b run_c cap =
     (case plan_phase run_a cur_dest (cc_scratch_addr cc) n crc_dest cap [] of (st, fx) \<Rightarrow>
        if st \<noteq> BOOT_OK then (st, fx)
        else case plan_phase run_b cur_src cur_dest n crc_src cap fx of (st, fx) \<Rightarrow>
          if st \<noteq> BOOT_OK then (st, fx)
          else plan_phase run_c (cc_scratch_addr cc) cur_src n crc_dest cap fx)"

lemma plan_chunk_eq:
  "boot_swap_plan_chunk cc a d n cs cd pa pb pc 6 = (BOOT_OK,
     (if pa then [erase_effect (cc_scratch_addr cc) n, copy_effect d (cc_scratch_addr cc) n cd] else []) @
     (if pb then [erase_effect d n, copy_effect a d n cs] else []) @
     (if pc then [erase_effect a n, copy_effect (cc_scratch_addr cc) a n cd] else []))"
  by (simp add: boot_swap_plan_chunk_def plan_phase_def)

definition swap_whitelist :: "chip_config \<Rightarrow> allowed_region list" where
  "swap_whitelist cc = [ \<lparr> ar_base_addr = cc_app_addr cc, ar_max_size = cc_app_size cc \<rparr>,
     \<lparr> ar_base_addr = cc_staging_addr cc, ar_max_size = cc_staging_size cc \<rparr>,
     \<lparr> ar_base_addr = cc_scratch_addr cc, ar_max_size = 65536 \<rparr> ]"

section \<open>One chunk\<close>

text \<open>
  From the checksums recorded for a chunk to the chunk swapped. The verdict comes back for the
  erase counters.
\<close>

definition swap_chunk ::
  "'s build \<Rightarrow> 's platform \<Rightarrow> 's flash_hal \<Rightarrow> u32 \<Rightarrow> u32 \<Rightarrow> nat \<Rightarrow> u32 \<Rightarrow> u32 \<Rightarrow> u8 list \<Rightarrow> journal_state \<Rightarrow> 's \<Rightarrow>
     (boot_status \<times> swap_verdict \<times> u8 list \<times> journal_state \<times> 's) option" where
  "swap_chunk b p fl cur_src cur_dest n crc_src crc_dest arena j s = do {
     (st, phys_src, arena, s) \<leftarrow> boot_crc32_flash_stream p fl cur_src n arena s;
     if st \<noteq> BOOT_OK then Some (st, Swap_fatal st, arena, j, s)
     else do {
       (st, phys_dest, arena, s) \<leftarrow> boot_crc32_flash_stream p fl cur_dest n arena s;
       if st \<noteq> BOOT_OK then Some (st, Swap_fatal st, arena, j, s)
       else do {
         (st, phys_scratch, arena, s) \<leftarrow>
            boot_crc32_flash_stream p fl (cc_scratch_addr (bd_chip b)) n arena s;
         if st \<noteq> BOOT_OK then Some (st, Swap_fatal st, arena, j, s)
         else
           (case swap_deduce crc_src crc_dest (the phys_src) (the phys_dest) (the phys_scratch) of
              Swap_complete \<Rightarrow> Some (BOOT_OK, Swap_complete, arena, j, s)
            | Swap_fatal st \<Rightarrow> Some (st, Swap_fatal st, arena, j, s)
            | Swap_phases pa pb pc \<Rightarrow>
                (case boot_swap_plan_chunk (bd_chip b) cur_src cur_dest (of_nat n) crc_src crc_dest pa pb pc 6 of
                   (st, fx) \<Rightarrow>
                     if st \<noteq> BOOT_OK then Some (st, Swap_fatal st, arena, j, s)
                     else do {
                       (st, arena, j, s) \<leftarrow>
                         boot_effect_execute b p fl (swap_whitelist (bd_chip b)) fx arena j s;
                       Some (st, Swap_phases pa pb pc, arena, j, s)
                     }))
       }
     }
   }"

section \<open>The chunk loop\<close>

text \<open>
  What the loop of \<open>boot_swap_apply\<close> carries: offset, erase counters, the notification switch, the arena,
  the open transaction, the journal statics and the device.
\<close>

record 's swap_run =
  sw_offset :: u32
  sw_scratch_erases :: u32
  sw_dest_erases :: u32
  sw_src_erases :: u32
  sw_notify_disabled :: bool
  sw_arena :: "u8 list"
  sw_txn :: "wal_entry_payload option"
  sw_jn :: journal_state
  sw_dev :: 's

definition SWAP_SHIELD :: u32 where "SWAP_SHIELD = 0xAA55AA55"

definition resuming_chunk :: "wal_entry_payload option \<Rightarrow> u32 \<Rightarrow> bool" where
  "resuming_chunk txn offset \<longleftrightarrow>
     (case txn of None \<Rightarrow> False
      | Some e \<Rightarrow> we_delta_chunk_id e = offset \<and> we_transfer_bitmap e ! 2 = SWAP_SHIELD)"

definition swap_checkpoint :: "u32 \<Rightarrow> u32 \<Rightarrow> u32 \<Rightarrow> wal_entry_payload \<Rightarrow> wal_entry_payload" where
  "swap_checkpoint offset crc_src crc_dest e = e\<lparr> we_delta_chunk_id := offset,
     we_transfer_bitmap := (we_transfer_bitmap e)[0 := crc_src, 1 := crc_dest, 2 := SWAP_SHIELD] \<rparr>"

text \<open>
  The checksums of a chunk: from the log when it is being resumed, otherwise measured, with the
  identity check and then the checkpoint. The flag says the chunk can be skipped.
\<close>

definition swap_prepare ::
  "'s build \<Rightarrow> 's platform \<Rightarrow> 's flash_hal \<Rightarrow> u32 \<Rightarrow> u32 \<Rightarrow> nat \<Rightarrow> 's swap_run \<Rightarrow>
     (boot_status \<times> u32 \<times> u32 \<times> bool \<times> 's swap_run) option" where
  "swap_prepare b p fl cur_src cur_dest n r =
     (if resuming_chunk (sw_txn r) (sw_offset r) then
        let e = the (sw_txn r)
        in Some (BOOT_OK, we_transfer_bitmap e ! 0, we_transfer_bitmap e ! 1, False, r)
      else do {
        (st, cs, cd, same, arena, s) \<leftarrow>
          identity_check (length (sw_arena r) div 2) p fl cur_src cur_dest n (sw_arena r) (sw_dev r);
        let r = r\<lparr>sw_arena := arena, sw_dev := s\<rparr>
        in if st \<noteq> BOOT_OK then Some (st, cs, cd, False, r)
           else if same then Some (BOOT_OK, cs, cd, True, r)
           else
             (case sw_txn r of
                None \<Rightarrow> Some (BOOT_OK, cs, cd, False, r)
              | Some e \<Rightarrow>
                  let e = swap_checkpoint (sw_offset r) cs cd e
                  in case boot_journal_append (bd_wal b) p (sw_jn r) e s of (st, j, s) \<Rightarrow>
                       Some (st, cs, cd, False, r\<lparr>sw_txn := Some e, sw_jn := j, sw_dev := s\<rparr>))
      })"

definition erase_share :: "nat \<Rightarrow> nat \<Rightarrow> u32" where
  "erase_share block_size sec = of_nat (if block_size div sec > 0 then block_size div sec else 1)"

definition count_erases :: "nat \<Rightarrow> nat \<Rightarrow> nat \<Rightarrow> nat \<Rightarrow> bool \<Rightarrow> bool \<Rightarrow> bool \<Rightarrow> 's swap_run \<Rightarrow> 's swap_run" where
  "count_erases n dest_sec src_sec scratch_sec pa pb pc r =
     r\<lparr> sw_scratch_erases := (if pa then sw_scratch_erases r + erase_share n scratch_sec else sw_scratch_erases r),
        sw_dest_erases := (if pb then sw_dest_erases r + erase_share n dest_sec else sw_dest_erases r),
        sw_src_erases := (if pc then sw_src_erases r + erase_share n src_sec else sw_src_erases r) \<rparr>"

text \<open>One pass of the loop: \<open>BOOT_OK\<close> goes on, anything else leaves through \<open>swap_cleanup\<close>.\<close>

definition swap_step ::
  "'s build \<Rightarrow> 's platform \<Rightarrow> 's flash_hal \<Rightarrow> u32 \<Rightarrow> u32 \<Rightarrow> u32 \<Rightarrow> nat \<Rightarrow> 's swap_run \<Rightarrow>
     (boot_status \<times> 's swap_run) option" where
  "swap_step b p fl src_base dest_base len std_sec r =
     (let cur_src = src_base + sw_offset r; cur_dest = dest_base + sw_offset r
      in case swap_geometry (bd_chip b) fl cur_src cur_dest (sw_offset r) len (sw_dev r) of
           None \<Rightarrow> Some (BOOT_ERR_FLASH_HW, r)
         | Some (dest_sec, src_sec, scratch_sec, n) \<Rightarrow> do {
             (st, cs, cd, same, r) \<leftarrow> swap_prepare b p fl cur_src cur_dest n r;
             if st \<noteq> BOOT_OK then Some (st, r)
             else if same then Some (BOOT_OK, r\<lparr>sw_offset := sw_offset r + of_nat n\<rparr>)
             else do {
               (st, v, arena, j, s) \<leftarrow> swap_chunk b p fl cur_src cur_dest n cs cd (sw_arena r) (sw_jn r) (sw_dev r);
               let r = r\<lparr>sw_arena := arena, sw_jn := j, sw_dev := s\<rparr>
               in if st \<noteq> BOOT_OK then Some (st, r)
                  else
                    (case v of
                       Swap_phases pa pb pc \<Rightarrow>
                         let r = count_erases n dest_sec src_sec scratch_sec pa pb pc r;
                             r = r\<lparr>sw_offset := sw_offset r + of_nat n\<rparr>
                         in if sw_notify_disabled r then Some (BOOT_OK, r)
                            else do {
                              (late, s) \<leftarrow> swap_notify_timed p
                                 (swap_event_of SWAP_PHASE_SWAPPING 0 std_sec len (sw_offset r)) (sw_dev r);
                              Some (BOOT_OK, r\<lparr>sw_notify_disabled := late, sw_dev := s\<rparr>)
                            }
                     | _ \<Rightarrow> Some (BOOT_OK, r\<lparr>sw_offset := sw_offset r + of_nat n\<rparr>))
             }
           })"

text \<open>\<open>loops\<close> is \<open>MAX_ERASE_LOOPS - 1 - loop_guard\<close>.\<close>

fun swap_loop ::
  "nat \<Rightarrow> 's build \<Rightarrow> 's platform \<Rightarrow> 's flash_hal \<Rightarrow> u32 \<Rightarrow> u32 \<Rightarrow> u32 \<Rightarrow> nat \<Rightarrow> 's swap_run \<Rightarrow>
     (boot_status \<times> 's swap_run) option" where
  "swap_loop loops b p fl src_base dest_base len std_sec r =
     (if \<not> sw_offset r < len then Some (BOOT_OK, r)
      else case loops of
        0 \<Rightarrow> Some (BOOT_ERR_FLASH_HW, r)
      | Suc l \<Rightarrow> do {
          (st, r) \<leftarrow> swap_step b p fl src_base dest_base len std_sec r;
          if st \<noteq> BOOT_OK then Some (st, r)
          else swap_loop l b p fl src_base dest_base len std_sec r
        })"

declare swap_loop.simps [simp del]

text \<open>The wrap-up: erase counters into the TMR payload, failures ignored.\<close>

definition swap_telemetry :: "'s build \<Rightarrow> 's platform \<Rightarrow> boot_dest_slot \<Rightarrow> 's swap_run \<Rightarrow> 's swap_run" where
  "swap_telemetry b p dest_slot r =
     (if sw_dest_erases r > 0 \<or> sw_src_erases r > 0 \<or> sw_scratch_erases r > 0 then
        (case boot_journal_get_tmr (sw_jn r) of
           (BOOT_OK, Some t) \<Rightarrow>
             let (to_app, to_staging) =
                   (if dest_slot = BOOT_DEST_SLOT_APP then (sw_dest_erases r, sw_src_erases r)
                    else (sw_src_erases r, sw_dest_erases r));
                 t = t\<lparr> tm_app_slot_erase_counter := tm_app_slot_erase_counter t + to_app,
                        tm_staging_slot_erase_counter := tm_staging_slot_erase_counter t + to_staging,
                        tm_swap_buffer_erase_counter := tm_swap_buffer_erase_counter t + sw_scratch_erases r \<rparr>
             in (case boot_journal_update_tmr (bd_wal b) p (sw_jn r) t (sw_dev r) of (_, j, s) \<Rightarrow>
                   r\<lparr>sw_jn := j, sw_dev := s\<rparr>)
         | _ \<Rightarrow> r)
      else r)"

definition resume_offset :: "u32 list \<Rightarrow> wal_entry_payload option \<Rightarrow> u32 \<Rightarrow> u32" where
  "resume_offset intents txn len =
     (case txn of
        Some e \<Rightarrow> if we_intent e \<in> set intents
                  then (if we_delta_chunk_id e > len then len else we_delta_chunk_id e) else 0
      | None \<Rightarrow> 0)"

text \<open>The result: status, arena, open transaction, journal statics, swap state and device.\<close>

type_synonym 's swap_result =
  "boot_status \<times> u8 list \<times> wal_entry_payload option \<times> journal_state \<times> swap_state \<times> 's"

definition swap_run_all ::
  "'s build \<Rightarrow> 's platform \<Rightarrow> 's flash_hal \<Rightarrow> u32 \<Rightarrow> u32 \<Rightarrow> u32 \<Rightarrow> boot_dest_slot \<Rightarrow> 's swap_run \<Rightarrow>
     (boot_status \<times> 's swap_run) option" where
  "swap_run_all b p fl src_base dest_base len dest_slot r =
     (let std_sec = (case fh_get_sector_size fl dest_base (sw_dev r) of (st, n) \<Rightarrow>
                       if st \<noteq> BOOT_OK \<or> n = 0 then 4096 else n)
      in do {
        (late, s) \<leftarrow> swap_notify_timed p
           (swap_event_of SWAP_PHASE_SWAPPING (if sw_offset r > 0 then 1 else 0) std_sec len (sw_offset r)) (sw_dev r);
        (st, r) \<leftarrow> swap_loop (MAX_ERASE_LOOPS - 1) b p fl src_base dest_base len std_sec
           (r\<lparr>sw_notify_disabled := late, sw_dev := s\<rparr>);
        if st \<noteq> BOOT_OK then Some (st, r)
        else
          let r = swap_telemetry b p dest_slot r;
              ev = swap_event_of SWAP_PHASE_DONE 0 std_sec len 0
          in Some (BOOT_OK,
                   if sw_notify_disabled r then r
                   else r\<lparr>sw_dev := swap_notify_done p (ev\<lparr>ev_sectors_done := ev_sectors_total ev\<rparr>) (sw_dev r)\<rparr>)
      })"

definition boot_swap_apply ::
  "'s build \<Rightarrow> 's platform \<Rightarrow> u32 \<Rightarrow> u32 \<Rightarrow> u32 \<Rightarrow> boot_dest_slot \<Rightarrow> wal_entry_payload option \<Rightarrow>
     u8 list \<Rightarrow> journal_state \<Rightarrow> swap_state \<Rightarrow> 's \<Rightarrow> 's swap_result option" where
  "boot_swap_apply b p src_base dest_base len dest_slot txn arena j ss s =
     (if length arena < 512 then Some (BOOT_ERR_INVALID_ARG, arena, txn, j, ss, s)
      else case pf_flash p of
        None \<Rightarrow> Some (BOOT_ERR_INVALID_ARG, arena, txn, j, ss, s)
      | Some fl \<Rightarrow>
          if \<not> transfer_bounds_ok [src_base, dest_base, cc_scratch_addr (bd_chip b)] len
          then Some (BOOT_ERR_FLASH_BOUNDS, arena, txn, j, ss, s)
          else if len = 0 then Some (BOOT_OK, arena, txn, j, ss, s)
          else if \<not> transfer_aligned fl src_base dest_base len
          then Some (BOOT_ERR_FLASH_ALIGN, arena, txn, j, ss, s)
          else
            (case boot_swap_check_eol_survival p j ss of (st, ss) \<Rightarrow>
               if st \<noteq> BOOT_OK then Some (st, arena, txn, j, ss, s)
               else do {
                 (st, r) \<leftarrow> swap_run_all b p fl src_base dest_base len dest_slot
                   \<lparr> sw_offset = resume_offset [WAL_INTENT_UPDATE_PENDING, WAL_INTENT_TXN_ROLLBACK_PENDING] txn len,
                     sw_scratch_erases = 0, sw_dest_erases = 0, sw_src_erases = 0,
                     sw_notify_disabled = False, sw_arena = arena, sw_txn = txn, sw_jn = j, sw_dev = s \<rparr>;
                 Some (st, zeroed (length arena), sw_txn r, sw_jn r, ss, sw_dev r)
               }))"

section \<open>Splash image check\<close>

record splash_header =
  sp_magic :: u32
  sp_crc32 :: u32
  sp_width :: u16
  sp_height :: u16
  sp_data_size :: u32

definition splash_header_of :: "u8 list \<Rightarrow> splash_header" where
  "splash_header_of b = \<lparr> sp_magic = rd32 0 b, sp_crc32 = rd32 4 b, sp_width = rd16 8 b,
     sp_height = rd16 10 b, sp_data_size = rd32 12 b \<rparr>"

definition boot_splash_verify ::
  "'s platform \<Rightarrow> u32 \<Rightarrow> u32 \<Rightarrow> u8 list \<Rightarrow> 's \<Rightarrow> (boot_status \<times> u8 list \<times> 's) option" where
  "boot_splash_verify p splash_addr max_size arena s =
     (case pf_flash p of
        None \<Rightarrow> Some (BOOT_ERR_INVALID_ARG, arena, s)
      | Some fl \<Rightarrow>
          if max_size < 16 then Some (BOOT_ERR_INVALID_ARG, arena, s)
          else case fh_read fl splash_addr 16 s of (st, d, s) \<Rightarrow>
            if st \<noteq> BOOT_OK then Some (st, arena, s)
            else
              let h = splash_header_of (fill_prefix d (zeroed 16))
              in if sp_magic h \<noteq> 0x534C5053 then Some (BOOT_ERR_NOT_FOUND, arena, s)
                 else if sp_data_size h > max_size - 16 then Some (BOOT_ERR_FLASH_BOUNDS, arena, s)
                 else do {
                   (st, crc, arena, s) \<leftarrow>
                     boot_crc32_flash_stream p fl (splash_addr + 8) (8 + unat (sp_data_size h)) arena s;
                   Some (if st \<noteq> BOOT_OK then st
                         else if crc \<noteq> Some (sp_crc32 h) then BOOT_ERR_VERIFY else BOOT_OK, arena, s)
                 })"

section \<open>One-way copy\<close>

definition copy_geometry ::
  "'s flash_hal \<Rightarrow> u32 \<Rightarrow> u32 \<Rightarrow> u32 \<Rightarrow> u32 \<Rightarrow> 's \<Rightarrow> (nat \<times> nat) option" where
  "copy_geometry fl cur_src cur_dest offset len s = do {
     dest_sec \<leftarrow> sector_aligned_at fl cur_dest s;
     src_sec \<leftarrow> sector_aligned_at fl cur_src s;
     Some (dest_sec, clip_block fl offset len (max dest_sec src_sec))
   }"

definition copy_checkpoint :: "u32 \<Rightarrow> u32 \<Rightarrow> wal_entry_payload \<Rightarrow> wal_entry_payload" where
  "copy_checkpoint offset phase_id e = e\<lparr> we_delta_chunk_id := offset,
     we_transfer_bitmap := (we_transfer_bitmap e)[0 := phase_id] \<rparr>"

definition copy_whitelist :: "chip_config \<Rightarrow> allowed_region list" where
  "copy_whitelist cc = [ \<lparr> ar_base_addr = cc_app_addr cc, ar_max_size = cc_app_size cc \<rparr>,
     \<lparr> ar_base_addr = cc_staging_addr cc, ar_max_size = cc_staging_size cc \<rparr>,
     \<lparr> ar_base_addr = cc_scratch_addr cc, ar_max_size = cc_scratch_size cc \<rparr> ]"

text \<open>The state is the swap's; \<open>sw_dest_erases\<close> is \<open>physical_erases\<close>.\<close>

definition copy_step ::
  "'s build \<Rightarrow> 's platform \<Rightarrow> 's flash_hal \<Rightarrow> u32 \<Rightarrow> u32 \<Rightarrow> u32 \<Rightarrow> u32 \<Rightarrow> 's swap_run \<Rightarrow>
     (boot_status \<times> 's swap_run) option" where
  "copy_step b p fl src_base dest_base len phase_id r =
     (let cur_src = src_base + sw_offset r; cur_dest = dest_base + sw_offset r
      in case copy_geometry fl cur_src cur_dest (sw_offset r) len (sw_dev r) of
           None \<Rightarrow> Some (BOOT_ERR_FLASH_HW, r)
         | Some (dest_sec, n) \<Rightarrow> do {
             (st, cs, cd, same, arena, s) \<leftarrow>
               identity_check (length (sw_arena r) div 2) p fl cur_src cur_dest n (sw_arena r) (sw_dev r);
             let r = r\<lparr>sw_arena := arena, sw_dev := s\<rparr>
             in if st \<noteq> BOOT_OK then Some (st, r)
                else if same then Some (BOOT_OK, r\<lparr>sw_offset := sw_offset r + of_nat n\<rparr>)
                else
                  (case (case sw_txn r of
                           None \<Rightarrow> (BOOT_OK, r)
                         | Some e \<Rightarrow>
                             let e = copy_checkpoint (sw_offset r) phase_id e
                             in case boot_journal_append (bd_wal b) p (sw_jn r) e s of (st, j, s) \<Rightarrow>
                                  (st, r\<lparr>sw_txn := Some e, sw_jn := j, sw_dev := s\<rparr>)) of
                     (st, r) \<Rightarrow>
                       if st \<noteq> BOOT_OK then Some (st, r)
                       else do {
                         (st, arena, j, s) \<leftarrow> boot_effect_execute b p fl (copy_whitelist (bd_chip b))
                           [erase_effect cur_dest (of_nat n), copy_effect cur_src cur_dest (of_nat n) cs]
                           (sw_arena r) (sw_jn r) (sw_dev r);
                         let r = r\<lparr>sw_arena := arena, sw_jn := j, sw_dev := s\<rparr>
                         in if st \<noteq> BOOT_OK then Some (st, r)
                            else Some (BOOT_OK, r\<lparr> sw_dest_erases := sw_dest_erases r + erase_share n dest_sec,
                                                   sw_offset := sw_offset r + of_nat n \<rparr>)
                       })
           })"

fun copy_loop ::
  "nat \<Rightarrow> 's build \<Rightarrow> 's platform \<Rightarrow> 's flash_hal \<Rightarrow> u32 \<Rightarrow> u32 \<Rightarrow> u32 \<Rightarrow> u32 \<Rightarrow> 's swap_run \<Rightarrow>
     (boot_status \<times> 's swap_run) option" where
  "copy_loop loops b p fl src_base dest_base len phase_id r =
     (if \<not> sw_offset r < len then Some (BOOT_OK, r)
      else case loops of
        0 \<Rightarrow> Some (BOOT_ERR_FLASH_HW, r)
      | Suc l \<Rightarrow> do {
          (st, r) \<leftarrow> copy_step b p fl src_base dest_base len phase_id r;
          if st \<noteq> BOOT_OK then Some (st, r)
          else copy_loop l b p fl src_base dest_base len phase_id r
        })"

declare copy_loop.simps [simp del]

definition copy_telemetry :: "'s build \<Rightarrow> 's platform \<Rightarrow> u32 \<Rightarrow> 's swap_run \<Rightarrow> 's swap_run" where
  "copy_telemetry b p dest_base r =
     (if sw_dest_erases r > 0 then
        (case boot_journal_get_tmr (sw_jn r) of
           (BOOT_OK, Some t) \<Rightarrow>
             let t = (if dest_base = cc_app_addr (bd_chip b)
                      then t\<lparr>tm_app_slot_erase_counter := tm_app_slot_erase_counter t + sw_dest_erases r\<rparr>
                      else if dest_base = cc_staging_addr (bd_chip b)
                      then t\<lparr>tm_staging_slot_erase_counter := tm_staging_slot_erase_counter t + sw_dest_erases r\<rparr>
                      else t)
             in (case boot_journal_update_tmr (bd_wal b) p (sw_jn r) t (sw_dev r) of (_, j, s) \<Rightarrow>
                   r\<lparr>sw_jn := j, sw_dev := s\<rparr>)
         | _ \<Rightarrow> r)
      else r)"

definition copy_resume_offset :: "u32 \<Rightarrow> wal_entry_payload option \<Rightarrow> u32 \<Rightarrow> u32" where
  "copy_resume_offset phase_id txn len =
     (case txn of
        Some e \<Rightarrow> if we_intent e = WAL_INTENT_UPDATE_PENDING \<and> we_transfer_bitmap e ! 0 = phase_id
                  then (if we_delta_chunk_id e > len then len else we_delta_chunk_id e) else 0
      | None \<Rightarrow> 0)"

definition boot_copy_apply ::
  "'s build \<Rightarrow> 's platform \<Rightarrow> u32 \<Rightarrow> u32 \<Rightarrow> u32 \<Rightarrow> u32 \<Rightarrow> wal_entry_payload option \<Rightarrow>
     u8 list \<Rightarrow> journal_state \<Rightarrow> swap_state \<Rightarrow> 's \<Rightarrow> 's swap_result option" where
  "boot_copy_apply b p src_base dest_base len phase_id txn arena j ss s =
     (if length arena < 512 then Some (BOOT_ERR_INVALID_ARG, arena, txn, j, ss, s)
      else case pf_flash p of
        None \<Rightarrow> Some (BOOT_ERR_INVALID_ARG, arena, txn, j, ss, s)
      | Some fl \<Rightarrow>
          if \<not> transfer_bounds_ok [src_base, dest_base] len
          then Some (BOOT_ERR_FLASH_BOUNDS, arena, txn, j, ss, s)
          else if len = 0 then Some (BOOT_OK, arena, txn, j, ss, s)
          else if \<not> transfer_aligned fl src_base dest_base len
          then Some (BOOT_ERR_FLASH_ALIGN, arena, txn, j, ss, s)
          else
            (case boot_swap_check_eol_survival p j ss of (st, ss) \<Rightarrow>
               if st \<noteq> BOOT_OK then Some (st, arena, txn, j, ss, s)
               else do {
                 (st, r) \<leftarrow> copy_loop (MAX_ERASE_LOOPS - 1) b p fl src_base dest_base len phase_id
                   \<lparr> sw_offset = copy_resume_offset phase_id txn len,
                     sw_scratch_erases = 0, sw_dest_erases = 0, sw_src_erases = 0,
                     sw_notify_disabled = False, sw_arena = arena, sw_txn = txn, sw_jn = j, sw_dev = s \<rparr>;
                 let r = (if st = BOOT_OK then copy_telemetry b p dest_base r else r)
                 in Some (st, zeroed (length arena), sw_txn r, sw_jn r, ss, sw_dev r)
               }))"

end
