(* ===== verification/Swap_Chunk.thy ===== *)
theory Swap_Chunk
  imports Boot_Swap
begin

text \<open>
  One chunk of the slot swap on a device that may lose power at any flash operation. The locale
  \<open>swap_chunk_device\<close> adds the three sectors of a chunk to \<open>mortal_flash\<close>; \<open>phase_c_fate\<close>,
  \<open>phase_bc_fate\<close> and \<open>phase_abc_fate\<close> follow the effects from the three places a failure can leave
  the chunk at, \<open>chunk_fate\<close> puts the deduction in front of them. The locale is interpreted on the
  simulator port that stays down after an injected failure.
\<close>

section \<open>A chunk survives power failures\<close>

text \<open>
  The images from which a chunk can be finished: the swap has not begun to touch the source and
  destination, or two of the three places that matter still hold what the next phase needs.
\<close>

definition swap_recoverable ::
  "nat \<Rightarrow> nat \<Rightarrow> nat \<Rightarrow> nat \<Rightarrow> u8 list \<Rightarrow> u8 list \<Rightarrow> u8 list \<Rightarrow> bool" where
  "swap_recoverable n src dst scr S D m \<longleftrightarrow>
     slice_of src n m = S \<and> slice_of dst n m = D \<or>
     slice_of src n m = S \<and> slice_of scr n m = D \<or>
     slice_of dst n m = S \<and> slice_of scr n m = D \<or>
     slice_of dst n m = S \<and> slice_of src n m = D"

definition apart :: "nat \<Rightarrow> nat \<Rightarrow> nat \<Rightarrow> bool" where
  "apart k a c \<longleftrightarrow> a + k \<le> c \<or> c + k \<le> a"

context mortal_flash
begin

lemma erase_copy_fate:
  assumes "live s" and "arena \<noteq> []" and "length arena mod walign = 0" and "fh_erased_value fl = 0xFF"
    and "effect_allowed wl (erase_effect d ln)" and "n = unat ln" and "0 < n" and "n \<le> sec" and "n mod walign = 0"
    and "dst = unat d" and "src = unat sr" and "dst mod sec = 0" and "dst + sec \<le> total" and "src + sec \<le> total"
    and "apart sec src dst" and "crc = compute_boot_crc32 (slice_of src n (mem s))"
    and "inj_on compute_boot_crc32 {slice_of src n (mem s), replicate n 0xFF, slice_of dst n (mem s)}"
  shows "\<exists>st a s'. boot_effect_execute b p fl wl (erase_effect d ln # copy_effect sr d ln crc # es) arena j s =
        (if st = BOOT_OK then boot_effect_execute b p fl wl es a j s' else Some (st, a, j, s')) \<and>
      length a = length arena \<and> touches dst sec (mem s) (mem s') \<and>
      (st = BOOT_OK \<and> live s' \<and> slice_of dst n (mem s') = slice_of src n (mem s) \<or> st \<noteq> BOOT_OK \<and> dead s')"
proof -
  let ?e = "erase_effect d ln" and ?c = "copy_effect sr d ln crc"
  have ml: "length (mem s) = total" using mem_len assms(1) by simp
  have inj: "slice_of dst n (mem s) = replicate n 0xFF"
    if "compute_boot_crc32 (slice_of dst n (mem s)) = compute_boot_crc32 (replicate n 0xFF)"
    using inj_onD [OF assms(17) that] by simp
  have "\<exists>st a s1. boot_effect_execute b p fl wl (?e # ?c # es) arena j s =
        (if st = BOOT_OK then boot_effect_execute b p fl wl (?c # es) a j s1 else Some (st, a, j, s1)) \<and>
      length a = length arena \<and> touches dst sec (mem s) (mem s1) \<and>
      (st = BOOT_OK \<and> live s1 \<and> slice_of dst n (mem s1) = replicate n 0xFF \<or> st \<noteq> BOOT_OK \<and> dead s1)"
    by (rule erase_effect_fate [OF assms(1,2,4,5)]) (use assms(6-8,10,12,13) inj in \<open>simp_all\<close>)
  then obtain st a s1 where e: "boot_effect_execute b p fl wl (?e # ?c # es) arena j s =
        (if st = BOOT_OK then boot_effect_execute b p fl wl (?c # es) a j s1 else Some (st, a, j, s1))"
      "length a = length arena" "touches dst sec (mem s) (mem s1)"
      "st = BOOT_OK \<and> live s1 \<and> slice_of dst n (mem s1) = replicate n 0xFF \<or> st \<noteq> BOOT_OK \<and> dead s1"
    by blast
  show ?thesis
  proof (cases "st = BOOT_OK")
    case False
    then show ?thesis using e by (intro exI [of _ st] exI [of _ a] exI [of _ s1]) simp
  next
    case True
    then have l1: "live s1" and er: "slice_of dst n (mem s1) = replicate n 0xFF" using e(4) by auto
    have src: "slice_of src n (mem s1) = slice_of src n (mem s)"
      using e(3) by (rule slice_of_touches) (use assms(8,14,15) ml in \<open>auto simp: apart_def\<close>)
    have w: "dst mod walign = 0" using sec_walign assms(12) by (metis dvd_trans mod_0_imp_dvd dvd_imp_mod_0)
    have a: "a \<noteq> []" "length a mod walign = 0" using e(2) assms(2,3) by auto
    have wl: "effect_allowed wl ?c" using assms(5) by (simp add: effect_allowed_def erase_effect_def copy_effect_def)
    have inj2: "replicate n 0xFF = slice_of src n (mem s)"
      if "compute_boot_crc32 (replicate n 0xFF) = compute_boot_crc32 (slice_of src n (mem s))"
      using inj_onD [OF assms(17) that] by simp
    have "\<exists>st2 a2 s2. boot_effect_execute b p fl wl (?c # es) a j s1 =
          (if st2 = BOOT_OK then boot_effect_execute b p fl wl es a2 j s2 else Some (st2, a2, j, s2)) \<and>
        length a2 = length a \<and> touches dst n (mem s1) (mem s2) \<and>
        (st2 = BOOT_OK \<and> live s2 \<and> slice_of dst n (mem s2) = slice_of src n (mem s1) \<or> st2 \<noteq> BOOT_OK \<and> dead s2)"
      by (rule copy_effect_fate [OF l1 a wl])
        (use assms(6-9,10,11,13-16) src w er inj2 in \<open>auto simp: apart_def\<close>)
    then obtain st2 a2 s2 where c: "boot_effect_execute b p fl wl (?c # es) a j s1 =
          (if st2 = BOOT_OK then boot_effect_execute b p fl wl es a2 j s2 else Some (st2, a2, j, s2))"
        "length a2 = length a" "touches dst n (mem s1) (mem s2)"
        "st2 = BOOT_OK \<and> live s2 \<and> slice_of dst n (mem s2) = slice_of src n (mem s1) \<or> st2 \<noteq> BOOT_OK \<and> dead s2"
      by blast
    have "touches dst sec (mem s) (mem s2)"
      using touches_trans [OF e(3) touches_mono [OF c(3)]] assms(8) by simp
    then show ?thesis
      using e(1,2) True c(1,2,4) src
      by (intro exI [of _ st2] exI [of _ a2] exI [of _ s2]) auto
  qed
qed

end

text \<open>
  A chunk of \<open>n\<close> bytes in front of the swap: three sectors, pairwise apart, inside the flash and inside
  the whitelist.
\<close>

locale swap_chunk_device = mortal_flash p fl mem live dead total sec walign
  for p :: "'s platform" and fl :: "'s flash_hal" and mem :: "'s \<Rightarrow> u8 list" and live :: "'s \<Rightarrow> bool"
    and dead :: "'s \<Rightarrow> bool" and total :: nat and sec :: nat and walign :: nat +
  fixes bld :: "'s build" and csrc :: u32 and cdst :: u32 and n :: nat
  assumes erased: "fh_erased_value fl = 0xFF"
    and n_pos: "0 < n" and n_sec: "n \<le> sec" and n_walign: "n mod walign = 0"
    and sector: "x \<in> {csrc, cdst, cc_scratch_addr (bd_chip bld)} \<Longrightarrow> unat x mod sec = 0 \<and> unat x + sec \<le> total"
    and windows: "apart sec (unat csrc) (unat cdst)"
      "apart sec (unat csrc) (unat (cc_scratch_addr (bd_chip bld)))"
      "apart sec (unat cdst) (unat (cc_scratch_addr (bd_chip bld)))"
    and allowed: "x \<in> {csrc, cdst, cc_scratch_addr (bd_chip bld)} \<Longrightarrow>
      effect_allowed (swap_whitelist (bd_chip bld)) (erase_effect x (of_nat n))"
begin

abbreviation cscr :: u32 where "cscr \<equiv> cc_scratch_addr (bd_chip bld)"
abbreviation at_src :: "u8 list \<Rightarrow> u8 list" where "at_src m \<equiv> slice_of (unat csrc) n m"
abbreviation at_dst :: "u8 list \<Rightarrow> u8 list" where "at_dst m \<equiv> slice_of (unat cdst) n m"
abbreviation at_scr :: "u8 list \<Rightarrow> u8 list" where "at_scr m \<equiv> slice_of (unat cscr) n m"
abbreviation ln :: u32 where "ln \<equiv> of_nat n"
abbreviation touched :: "nat set" where
  "touched \<equiv> {unat csrc..<unat csrc + sec} \<union> {unat cdst..<unat cdst + sec} \<union> {unat cscr..<unat cscr + sec}"
abbreviation run :: "flash_effect list \<Rightarrow> u8 list \<Rightarrow> journal_state \<Rightarrow> 's \<Rightarrow> (boot_status \<times> u8 list \<times> journal_state \<times> 's) option"
  where "run \<equiv> boot_effect_execute bld p fl (swap_whitelist (bd_chip bld))"
abbreviation recoverable :: "u8 list \<Rightarrow> u8 list \<Rightarrow> u8 list \<Rightarrow> bool" where
  "recoverable \<equiv> swap_recoverable n (unat csrc) (unat cdst) (unat cscr)"

lemma len_n: "unat ln = n"
  using n_sec sector [of csrc] total_addr by (intro unat_of_nat_u32) auto

lemma places:
  "unat csrc mod sec = 0" "unat cdst mod sec = 0" "unat cscr mod sec = 0"
  "unat csrc + sec \<le> total" "unat cdst + sec \<le> total" "unat cscr + sec \<le> total"
  using sector by auto

text \<open>What an effect pair on one of the places leaves at the other two.\<close>

lemma kept:
  assumes "touches (unat x) sec m m'" and "length m = total" and "apart sec (unat y) (unat x)"
    and "unat y + sec \<le> total"
  shows "slice_of (unat y) n m' = slice_of (unat y) n m"
  using assms(1) by (rule slice_of_touches) (use assms n_sec in \<open>auto simp: apart_def\<close>)

lemma apart_sym: "apart k a c = apart k c a"
  by (auto simp: apart_def)

lemma pair_fate:
  assumes "live s" and "arena \<noteq> []" and "length arena mod walign = 0"
    and "x \<in> {csrc, cdst, cscr}" and "y \<in> {csrc, cdst, cscr}" and "x \<noteq> y"
    and "crc = compute_boot_crc32 (slice_of (unat y) n (mem s))"
    and "inj_on compute_boot_crc32 {slice_of (unat y) n (mem s), replicate n 0xFF, slice_of (unat x) n (mem s)}"
  shows "\<exists>st a s'. run (erase_effect x ln # copy_effect y x ln crc # es) arena j s =
        (if st = BOOT_OK then run es a j s' else Some (st, a, j, s')) \<and>
      length a = length arena \<and> touches (unat x) sec (mem s) (mem s') \<and>
      (st = BOOT_OK \<and> live s' \<and> slice_of (unat x) n (mem s') = slice_of (unat y) n (mem s) \<or>
       st \<noteq> BOOT_OK \<and> dead s')"
proof -
  have "apart sec (unat y) (unat x)" using assms(4-6) windows apart_sym by auto
  then show ?thesis
    by (intro erase_copy_fate [OF assms(1-3) erased allowed [OF assms(4)]])
      (use assms(4,5,7,8) n_pos n_sec n_walign sector len_n in auto)
qed

lemma phase_c_fate:
  assumes "live s" and "arena \<noteq> []" and "length arena mod walign = 0"
    and "at_dst (mem s) = S" and "at_scr (mem s) = D"
    and "inj_on compute_boot_crc32 {D, replicate n 0xFF, at_src (mem s)}"
  shows "\<exists>st a s'. run [erase_effect csrc ln, copy_effect cscr csrc ln (compute_boot_crc32 D)] arena j s =
        Some (st, a, j, s') \<and> length a = length arena \<and> changes touched (mem s) (mem s') \<and>
      recoverable S D (mem s') \<and>
      (st = BOOT_OK \<and> live s' \<and> at_dst (mem s') = S \<and> at_src (mem s') = D \<or> st \<noteq> BOOT_OK \<and> dead s')"
proof -
  have ml: "length (mem s) = total" using mem_len assms(1) by simp
  have ne: "csrc \<noteq> cscr" using windows(2) sec_pos by (auto simp: apart_def)
  have "\<exists>st a s'. run [erase_effect csrc ln, copy_effect cscr csrc ln (compute_boot_crc32 D)] arena j s =
        (if st = BOOT_OK then run [] a j s' else Some (st, a, j, s')) \<and>
      length a = length arena \<and> touches (unat csrc) sec (mem s) (mem s') \<and>
      (st = BOOT_OK \<and> live s' \<and> at_src (mem s') = at_scr (mem s) \<or> st \<noteq> BOOT_OK \<and> dead s')"
    by (rule pair_fate [OF assms(1-3)]) (use ne assms(5,6) in auto)
  then obtain st a s' where r: "run [erase_effect csrc ln, copy_effect cscr csrc ln (compute_boot_crc32 D)] arena j s =
        (if st = BOOT_OK then run [] a j s' else Some (st, a, j, s'))" "length a = length arena"
      "touches (unat csrc) sec (mem s) (mem s')"
      "st = BOOT_OK \<and> live s' \<and> at_src (mem s') = at_scr (mem s) \<or> st \<noteq> BOOT_OK \<and> dead s'" by blast
  have k: "at_dst (mem s') = S" "at_scr (mem s') = D"
    using kept [OF r(3) ml, of cdst] kept [OF r(3) ml, of cscr] windows places apart_sym assms(4,5) by auto
  have c: "changes touched (mem s) (mem s')" by (rule touches_changes [OF r(3)]) auto
  show ?thesis
    using r(1,2,4) k c assms(5)
    by (intro exI [of _ st] exI [of _ a] exI [of _ s']) (auto simp: swap_recoverable_def)
qed

lemma phase_bc_fate:
  assumes "live s" and "arena \<noteq> []" and "length arena mod walign = 0"
    and "at_src (mem s) = S" and "at_scr (mem s) = D"
    and "inj_on compute_boot_crc32 {S, D, replicate n 0xFF, at_dst (mem s)}"
  shows "\<exists>st a s'. run [erase_effect cdst ln, copy_effect csrc cdst ln (compute_boot_crc32 S),
        erase_effect csrc ln, copy_effect cscr csrc ln (compute_boot_crc32 D)] arena j s =
        Some (st, a, j, s') \<and> length a = length arena \<and> changes touched (mem s) (mem s') \<and>
      recoverable S D (mem s') \<and>
      (st = BOOT_OK \<and> live s' \<and> at_dst (mem s') = S \<and> at_src (mem s') = D \<or> st \<noteq> BOOT_OK \<and> dead s')"
proof -
  let ?c = "[erase_effect csrc ln, copy_effect cscr csrc ln (compute_boot_crc32 D)]"
  have ml: "length (mem s) = total" using mem_len assms(1) by simp
  have ne: "cdst \<noteq> csrc" using windows(1) sec_pos by (auto simp: apart_def)
  have i0: "inj_on compute_boot_crc32 {at_src (mem s), replicate n 0xFF, at_dst (mem s)}"
    by (rule inj_on_subset [OF assms(6)]) (use assms(4) in auto)
  have "\<exists>st a s'. run (erase_effect cdst ln # copy_effect csrc cdst ln (compute_boot_crc32 S) # ?c) arena j s =
        (if st = BOOT_OK then run ?c a j s' else Some (st, a, j, s')) \<and>
      length a = length arena \<and> touches (unat cdst) sec (mem s) (mem s') \<and>
      (st = BOOT_OK \<and> live s' \<and> at_dst (mem s') = at_src (mem s) \<or> st \<noteq> BOOT_OK \<and> dead s')"
    by (rule pair_fate [OF assms(1-3)]) (use ne i0 assms(4) in simp_all)
  then obtain st a s1 where r: "run (erase_effect cdst ln # copy_effect csrc cdst ln (compute_boot_crc32 S) # ?c) arena j s =
        (if st = BOOT_OK then run ?c a j s1 else Some (st, a, j, s1))" "length a = length arena"
      "touches (unat cdst) sec (mem s) (mem s1)"
      "st = BOOT_OK \<and> live s1 \<and> at_dst (mem s1) = at_src (mem s) \<or> st \<noteq> BOOT_OK \<and> dead s1" by blast
  have k: "at_src (mem s1) = S" "at_scr (mem s1) = D"
    using kept [OF r(3) ml, of csrc] kept [OF r(3) ml, of cscr] windows places apart_sym assms(4,5) by auto
  have c: "changes touched (mem s) (mem s1)" by (rule touches_changes [OF r(3)]) auto
  show ?thesis
  proof (cases "st = BOOT_OK")
    case False
    then show ?thesis using r k c
      by (intro exI [of _ st] exI [of _ a] exI [of _ s1]) (auto simp: swap_recoverable_def)
  next
    case True
    then have l: "live s1" "at_dst (mem s1) = S" using r(4) assms(4) by auto
    have a: "a \<noteq> []" "length a mod walign = 0" using r(2) assms(2,3) by auto
    have i: "inj_on compute_boot_crc32 {D, replicate n 0xFF, at_src (mem s1)}"
      unfolding k(1) by (rule inj_on_subset [OF assms(6)]) auto
    show ?thesis
      using phase_c_fate [OF l(1) a l(2) k(2) i, of j] r(1,2) True changes_trans [OF c] by auto
  qed
qed

lemma phase_abc_fate:
  assumes "live s" and "arena \<noteq> []" and "length arena mod walign = 0"
    and "at_src (mem s) = S" and "at_dst (mem s) = D"
    and "inj_on compute_boot_crc32 {S, D, replicate n 0xFF, at_scr (mem s)}"
  shows "\<exists>st a s'. run [erase_effect cscr ln, copy_effect cdst cscr ln (compute_boot_crc32 D),
        erase_effect cdst ln, copy_effect csrc cdst ln (compute_boot_crc32 S),
        erase_effect csrc ln, copy_effect cscr csrc ln (compute_boot_crc32 D)] arena j s =
        Some (st, a, j, s') \<and> length a = length arena \<and> changes touched (mem s) (mem s') \<and>
      recoverable S D (mem s') \<and>
      (st = BOOT_OK \<and> live s' \<and> at_dst (mem s') = S \<and> at_src (mem s') = D \<or> st \<noteq> BOOT_OK \<and> dead s')"
proof -
  let ?c = "[erase_effect cdst ln, copy_effect csrc cdst ln (compute_boot_crc32 S),
        erase_effect csrc ln, copy_effect cscr csrc ln (compute_boot_crc32 D)]"
  have ml: "length (mem s) = total" using mem_len assms(1) by simp
  have ne: "cscr \<noteq> cdst" using windows(3) sec_pos by (auto simp: apart_def)
  have i0: "inj_on compute_boot_crc32 {at_dst (mem s), replicate n 0xFF, at_scr (mem s)}"
    by (rule inj_on_subset [OF assms(6)]) (use assms(5) in auto)
  have "\<exists>st a s'. run (erase_effect cscr ln # copy_effect cdst cscr ln (compute_boot_crc32 D) # ?c) arena j s =
        (if st = BOOT_OK then run ?c a j s' else Some (st, a, j, s')) \<and>
      length a = length arena \<and> touches (unat cscr) sec (mem s) (mem s') \<and>
      (st = BOOT_OK \<and> live s' \<and> at_scr (mem s') = at_dst (mem s) \<or> st \<noteq> BOOT_OK \<and> dead s')"
    by (rule pair_fate [OF assms(1-3)]) (use ne i0 assms(5) in simp_all)
  then obtain st a s1 where r: "run (erase_effect cscr ln # copy_effect cdst cscr ln (compute_boot_crc32 D) # ?c) arena j s =
        (if st = BOOT_OK then run ?c a j s1 else Some (st, a, j, s1))" "length a = length arena"
      "touches (unat cscr) sec (mem s) (mem s1)"
      "st = BOOT_OK \<and> live s1 \<and> at_scr (mem s1) = at_dst (mem s) \<or> st \<noteq> BOOT_OK \<and> dead s1" by blast
  have k: "at_src (mem s1) = S" "at_dst (mem s1) = D"
    using kept [OF r(3) ml, of csrc] kept [OF r(3) ml, of cdst] windows places apart_sym assms(4,5) by auto
  have c: "changes touched (mem s) (mem s1)" by (rule touches_changes [OF r(3)]) auto
  show ?thesis
  proof (cases "st = BOOT_OK")
    case False
    then show ?thesis using r k c
      by (intro exI [of _ st] exI [of _ a] exI [of _ s1]) (auto simp: swap_recoverable_def)
  next
    case True
    then have l: "live s1" "at_scr (mem s1) = D" using r(4) assms(5) by auto
    have a: "a \<noteq> []" "length a mod walign = 0" using r(2) assms(2,3) by auto
    have i: "inj_on compute_boot_crc32 {S, D, replicate n 0xFF, at_dst (mem s1)}"
      unfolding k(2) by (rule inj_on_subset [OF assms(6)]) auto
    show ?thesis
      using phase_bc_fate [OF l(1) a k(1) l(2) i, of j] r(1,2) True changes_trans [OF c] by auto
  qed
qed

text \<open>The recorded and the measured checksums tell apart the images a power failure can leave.\<close>

lemma deduce_cases:
  assumes "inj_on compute_boot_crc32 {S, D, X, Y, Z}"
    and "X = S \<and> Y = D \<or> X = S \<and> Z = D \<or> Y = S \<and> Z = D \<or> Y = S \<and> X = D"
  shows "swap_deduce (compute_boot_crc32 S) (compute_boot_crc32 D) (compute_boot_crc32 X)
      (compute_boot_crc32 Y) (compute_boot_crc32 Z) =
    (if Y = S \<and> X = D then Swap_complete
     else if Y = S then Swap_phases False False True
     else if Z = D then Swap_phases False True True
     else Swap_phases True True True)"
proof -
  have "compute_boot_crc32 U = compute_boot_crc32 V \<longleftrightarrow> U = V"
    if "U \<in> {S, D, X, Y, Z}" "V \<in> {S, D, X, Y, Z}" for U V
    using inj_on_eq_iff [OF assms(1)] that by blast
  then have e: "compute_boot_crc32 Y = compute_boot_crc32 S \<longleftrightarrow> Y = S"
      "compute_boot_crc32 X = compute_boot_crc32 D \<longleftrightarrow> X = D"
      "compute_boot_crc32 Z = compute_boot_crc32 D \<longleftrightarrow> Z = D"
      "compute_boot_crc32 Y = compute_boot_crc32 D \<longleftrightarrow> Y = D"
      "compute_boot_crc32 X = compute_boot_crc32 S \<longleftrightarrow> X = S"
    by blast+
  show ?thesis using assms(2) by (auto simp: swap_deduce_def e Let_def)
qed

lemma crc_read:
  assumes "live s" and "unat x + sec \<le> total" and "arena \<noteq> []"
  shows "\<exists>st c s'. boot_crc32_flash_stream p fl x n arena s = Some (st, c, zeroed (length arena), s') \<and>
      mem s' = mem s \<and>
      (st = BOOT_OK \<and> live s' \<and> c = Some (compute_boot_crc32 (slice_of (unat x) n (mem s))) \<or>
       st \<noteq> BOOT_OK \<and> c = None \<and> dead s')"
  using crc_stream_fate [OF assms(1) _ assms(3), of x n] assms(2) n_sec by auto

lemma chunk_fate:
  assumes "live s" and "arena \<noteq> []" and "length arena mod walign = 0" and "recoverable S D (mem s)"
    and "inj_on compute_boot_crc32 {S, D, replicate n 0xFF, at_src (mem s), at_dst (mem s), at_scr (mem s)}"
  shows "\<exists>st v a s'. swap_chunk bld p fl csrc cdst n (compute_boot_crc32 S) (compute_boot_crc32 D) arena j s =
        Some (st, v, a, j, s') \<and> length a = length arena \<and> changes touched (mem s) (mem s') \<and>
      recoverable S D (mem s') \<and>
      (st = BOOT_OK \<and> live s' \<and> at_dst (mem s') = S \<and> at_src (mem s') = D \<or> st \<noteq> BOOT_OK \<and> dead s')"
    (is "\<exists>st v a s'. ?run = Some (st, v, a, j, s') \<and> ?good st a s'")
proof -
  let ?z = "zeroed (length arena)"
  have z: "?z \<noteq> []" "length ?z mod walign = 0" using assms(2,3) by (simp_all add: zeroed_def)
  have stop: ?thesis if "?run = Some (st, v, a, j, t)" "st \<noteq> BOOT_OK" "dead t" "mem t = mem s"
      "length a = length arena" for st v a t
    using that assms(4) by (intro exI [of _ st] exI [of _ v] exI [of _ a] exI [of _ t]) simp
  note crc = crc_read [OF _ _ z(1)]
  obtain st1 c1 s1 where r1: "boot_crc32_flash_stream p fl csrc n arena s = Some (st1, c1, ?z, s1)"
      "mem s1 = mem s"
      "st1 = BOOT_OK \<and> live s1 \<and> c1 = Some (compute_boot_crc32 (at_src (mem s))) \<or>
       st1 \<noteq> BOOT_OK \<and> c1 = None \<and> dead s1"
    using crc_read [OF assms(1) places(4) assms(2)] by blast
  show ?thesis
  proof (cases "st1 = BOOT_OK")
    case False
    show ?thesis by (rule stop [of st1 "Swap_fatal st1" ?z s1]) (use r1 False in \<open>simp_all add: swap_chunk_def\<close>)
  next
    case ok1: True
    obtain st2 c2 s2 where r2: "boot_crc32_flash_stream p fl cdst n ?z s1 = Some (st2, c2, ?z, s2)"
        "mem s2 = mem s"
        "st2 = BOOT_OK \<and> live s2 \<and> c2 = Some (compute_boot_crc32 (at_dst (mem s))) \<or>
         st2 \<noteq> BOOT_OK \<and> c2 = None \<and> dead s2"
      using crc [OF _ places(5), of s1] r1 ok1 by auto
    show ?thesis
    proof (cases "st2 = BOOT_OK")
      case False
      show ?thesis
        by (rule stop [of st2 "Swap_fatal st2" ?z s2]) (use r1 r2 ok1 False in \<open>simp_all add: swap_chunk_def\<close>)
    next
      case ok2: True
      obtain st3 c3 s3 where r3: "boot_crc32_flash_stream p fl cscr n ?z s2 = Some (st3, c3, ?z, s3)"
          "mem s3 = mem s"
          "st3 = BOOT_OK \<and> live s3 \<and> c3 = Some (compute_boot_crc32 (at_scr (mem s))) \<or>
           st3 \<noteq> BOOT_OK \<and> c3 = None \<and> dead s3"
        using crc [OF _ places(6), of s2] r2 ok2 by auto
      show ?thesis
      proof (cases "st3 = BOOT_OK")
        case False
        show ?thesis
          by (rule stop [of st3 "Swap_fatal st3" ?z s3]) (use r1 r2 r3 ok1 ok2 False in \<open>simp_all add: swap_chunk_def\<close>)
      next
        case ok3: True
        let ?X = "at_src (mem s)" and ?Y = "at_dst (mem s)" and ?Z = "at_scr (mem s)"
        have l3: "live s3" using r3 ok3 by simp
        have inj: "inj_on compute_boot_crc32 {S, D, ?X, ?Y, ?Z}"
          by (rule inj_on_subset [OF assms(5)]) auto
        have ded: "swap_deduce (compute_boot_crc32 S) (compute_boot_crc32 D) (the c1) (the c2) (the c3) =
            (if ?Y = S \<and> ?X = D then Swap_complete
             else if ?Y = S then Swap_phases False False True
             else if ?Z = D then Swap_phases False True True
             else Swap_phases True True True)"
          using deduce_cases [OF inj] assms(4) r1(3) r2(3) r3(3) ok1 ok2 ok3
          by (simp add: swap_recoverable_def)
        have chunk: "?run = (case swap_deduce (compute_boot_crc32 S) (compute_boot_crc32 D) (the c1) (the c2) (the c3) of
              Swap_complete \<Rightarrow> Some (BOOT_OK, Swap_complete, ?z, j, s3)
            | Swap_fatal st \<Rightarrow> Some (st, Swap_fatal st, ?z, j, s3)
            | Swap_phases pa pb pc \<Rightarrow>
                (case boot_swap_plan_chunk (bd_chip bld) csrc cdst ln (compute_boot_crc32 S) (compute_boot_crc32 D) pa pb pc 6 of
                   (st, fx) \<Rightarrow>
                     if st \<noteq> BOOT_OK then Some (st, Swap_fatal st, ?z, j, s3)
                     else do {
                       (st, arena, j, s) \<leftarrow> run fx ?z j s3;
                       Some (st, Swap_phases pa pb pc, arena, j, s)
                     }))"
          using r1(1) r2(1) r3(1) ok1 ok2 ok3 by (simp add: swap_chunk_def)
        consider (complete) "?Y = S" "?X = D" | (c) "?Y = S" "?X \<noteq> D" "?Z = D"
          | (bc) "?Y \<noteq> S" "?Z = D" "?X = S" | (abc) "?Y \<noteq> S" "?Z \<noteq> D" "?X = S" "?Y = D"
          using assms(4) unfolding swap_recoverable_def by blast
        then show ?thesis
        proof cases
          case complete
          then show ?thesis unfolding chunk ded
            using l3 r3(2) assms(4) by auto
        next
          case c
          have i: "inj_on compute_boot_crc32 {D, replicate n 0xFF, at_src (mem s3)}"
            unfolding r3(2) by (rule inj_on_subset [OF assms(5)]) auto
          show ?thesis unfolding chunk ded plan_chunk_eq
            using phase_c_fate [OF l3 z _ _ i, of S j] c r3(2) by auto
        next
          case bc
          have i: "inj_on compute_boot_crc32 {S, D, replicate n 0xFF, at_dst (mem s3)}"
            unfolding r3(2) by (rule inj_on_subset [OF assms(5)]) auto
          show ?thesis unfolding chunk ded plan_chunk_eq
            using phase_bc_fate [OF l3 z _ _ i, of j] bc r3(2) by auto
        next
          case abc
          have i: "inj_on compute_boot_crc32 {S, D, replicate n 0xFF, at_scr (mem s3)}"
            unfolding r3(2) by (rule inj_on_subset [OF assms(5)]) auto
          show ?thesis unfolding chunk ded plan_chunk_eq
            using phase_abc_fate [OF l3 z _ _ i, of j] abc r3(2) by auto
        qed
      qed
    qed
  qed
qed

end

section \<open>The reference device of the witnesses\<close>

text \<open>Four 16-byte sectors: application slot, staging slot, scratch, and one for nothing.\<close>

definition demo_chip :: chip_config where
  "demo_chip = generated_chip_config\<lparr> cc_app_addr := 16, cc_app_size := 16, cc_staging_addr := 0,
     cc_staging_size := 16, cc_scratch_addr := 32, cc_scratch_size := 16 \<rparr>"

definition demo_build :: "flash_model build" where
  "demo_build = \<lparr> bd_wal = generated_wal_config, bd_chip = demo_chip, bd_caps = Some (default_slot_caps 16) \<rparr>"

lemma demo_build_sel [simp]:
  "bd_chip demo_build = demo_chip" "cc_scratch_addr demo_chip = 32" "cc_app_addr demo_chip = 16"
  "cc_staging_addr demo_chip = 0" "cc_app_size demo_chip = 16" "cc_staging_size demo_chip = 16"
  by (simp_all add: demo_build_def demo_chip_def)

interpretation demo_chunk: swap_chunk_device brownout_platform brownout_small fm_file
    "brownout_live 64 16 1 0xFF" model_down 64 16 1 demo_build 0 16 4
proof unfold_locales
  show "fh_erased_value brownout_small = 0xFF" by (simp add: brownout_small_def brownout_port_def)
  show "effect_allowed (swap_whitelist (bd_chip demo_build)) (erase_effect x (word_of_nat 4))"
    if "x \<in> {0, 16, cc_scratch_addr (bd_chip demo_build)}" for x
    using that by (auto simp: effect_allowed_def swap_whitelist_def is_buffer_within_iff)
qed (auto simp: apart_def)

text \<open>
  Blocks \<open>[1, 1, 1, 1]\<close> and \<open>[2, 2, 2, 2]\<close> to be swapped, \<open>z\<close> in the scratch sector; the device dies in
  its \<open>k\<close>-th destructive operation.
\<close>

definition demo_swap_image :: "u8 list \<Rightarrow> u8 list \<Rightarrow> u8 list \<Rightarrow> u8 list" where
  "demo_swap_image x y z = x @ replicate 12 0xFF @ y @ replicate 12 0xFF @ z @ replicate 28 0xFF"

definition demo_swap_device :: "nat \<Rightarrow> u8 list \<Rightarrow> u8 list \<Rightarrow> u8 list \<Rightarrow> flash_model" where
  "demo_swap_device k x y z = (small_device (demo_swap_image x y z))\<lparr>fm_fail_at_op := k, fm_torn_prefix := 1\<rparr>"

lemma demo_crcs:
  "compute_boot_crc32 [1, 1, 1, 1] = 0xF626D399" "compute_boot_crc32 [2, 2, 2, 2] = 0x54F1C057"
  "compute_boot_crc32 (replicate 4 0xFF) = 0xFFFFFFFF"
  by (simp_all add: compute_boot_crc32_def crc32_byte_unroll crc32_bit_def TOOB_CRC32_INIT_def
      TOOB_CRC32_POLY_def TOOB_CRC32_FINAL_XOR_def replicate_numeral)

section \<open>Properties\<close>

text \<open>
  C1. A chunk swap is safe against power failures. Take any device that may die in any flash operation
  and leave the sector being erased or the bytes being written in any state, and any image from
  which the chunk can still be finished: untouched, or source saved in one of the three ways a
  previous failure can leave it. Whatever happens, \<open>swap_chunk\<close> returns; if the device lived, it reports
  success and the blocks are exchanged; if it died, the image it left is again one from which the
  chunk can be finished, so the next boot may die as well. Outside the three sectors nothing
  changes. The recorded checksums only have to tell apart the blocks on the device, the two
  originals and the erased block.
\<close>

theorem swap_chunk_survives_power_failure:
  assumes "swap_chunk_device p fl mem live dead tot sec wa bld csrc cdst n" and "live s"
    and "arena \<noteq> []" and "length arena mod wa = 0"
    and "swap_recoverable n (unat csrc) (unat cdst) (unat (cc_scratch_addr (bd_chip bld))) S D (mem s)"
    and "inj_on compute_boot_crc32 {S, D, replicate n 0xFF, slice_of (unat csrc) n (mem s),
           slice_of (unat cdst) n (mem s), slice_of (unat (cc_scratch_addr (bd_chip bld))) n (mem s)}"
  shows "\<exists>st v a s'. swap_chunk bld p fl csrc cdst n (compute_boot_crc32 S) (compute_boot_crc32 D) arena j s =
        Some (st, v, a, j, s') \<and>
      swap_recoverable n (unat csrc) (unat cdst) (unat (cc_scratch_addr (bd_chip bld))) S D (mem s') \<and>
      (st = BOOT_OK \<and> live s' \<and> slice_of (unat cdst) n (mem s') = S \<and> slice_of (unat csrc) n (mem s') = D \<or>
       st \<noteq> BOOT_OK \<and> dead s') \<and>
      changes ({unat csrc..<unat csrc + sec} \<union> {unat cdst..<unat cdst + sec} \<union>
        {unat (cc_scratch_addr (bd_chip bld))..<unat (cc_scratch_addr (bd_chip bld)) + sec}) (mem s) (mem s')"
  using swap_chunk_device.chunk_fate [OF assms, of j] by blast

lemma swap_chunk_survives_power_failure_witness:
  "\<exists>st v a s'. swap_chunk demo_build brownout_platform brownout_small 0 16 4 0xF626D399 0x54F1C057
       [0, 0, 0, 0] journal_reset (demo_swap_device 3 [1, 1, 1, 1] [2, 2, 2, 2] [0xFF, 0xFF, 0xFF, 0xFF]) = Some (st, v, a, journal_reset, s') \<and>
     (st = BOOT_OK \<and> slice_of 16 4 (fm_file s') = [1, 1, 1, 1] \<and> slice_of 0 4 (fm_file s') = [2, 2, 2, 2] \<or>
      st \<noteq> BOOT_OK \<and> model_down s')"
proof -
  let ?s = "demo_swap_device 3 [1, 1, 1, 1] [2, 2, 2, 2] [0xFF, 0xFF, 0xFF, 0xFF]"
  have l: "brownout_live 64 16 1 0xFF ?s"
    by (simp add: brownout_live_def demo_swap_device_def small_device_def demo_swap_image_def model_down_def)
  have sl: "slice_of 0 4 (fm_file ?s) = [1, 1, 1, 1]" "slice_of 16 4 (fm_file ?s) = [2, 2, 2, 2]"
      "slice_of 32 4 (fm_file ?s) = [0xFF, 0xFF, 0xFF, 0xFF]"
    by (simp_all add: demo_swap_device_def small_device_def demo_swap_image_def slice_of_def)
  have e: "replicate 4 0xFF = [0xFF, 0xFF, 0xFF, 0xFF :: u8]" by (simp add: replicate_numeral)
  have r: "swap_recoverable 4 0 16 32 [1, 1, 1, 1] [2, 2, 2, 2] (fm_file ?s)"
    by (simp add: swap_recoverable_def sl)
  have i: "inj_on compute_boot_crc32 {[1, 1, 1, 1], [2, 2, 2, 2], replicate 4 0xFF, slice_of 0 4 (fm_file ?s),
      slice_of 16 4 (fm_file ?s), slice_of 32 4 (fm_file ?s)}"
    unfolding sl using demo_crcs unfolding e by (auto simp: inj_on_def)
  show ?thesis
    using swap_chunk_survives_power_failure [OF demo_chunk.swap_chunk_device_axioms l,
        of "[0, 0, 0, 0]" "[1, 1, 1, 1]" "[2, 2, 2, 2]" journal_reset] r i
    by (simp add: demo_crcs) blast
qed

end
