(* ===== verification/Boot_Rstore.thy ===== *)
theory Boot_Rstore
  imports Boot_Ct_Utils Boot_Crc32 Flash_Model
begin

text \<open>
  The quorum-protected record store (\<open>core/boot_rstore.c\<close>): a record is kept in three to eight slots,
  each a sector with a 16-byte header, a checksum and a sequence number; a read votes over the
  valid slots and repairs at most one, a write goes through all slots in turn.
\<close>

section \<open>Descriptor and slots\<close>

record rstore_desc =
  rs_slot_addrs :: "u32 list"
  rs_slot_sizes :: "nat list"
  rs_slot_count :: u8
  rs_record_size :: u16
  rs_magic :: u32

record rstore_header =
  rh_magic :: u32
  rh_sequence_id :: u32
  rh_erase_count :: u32
  rh_header_crc32 :: u32

definition RSTORE_MAX_SLOTS :: u8 where "RSTORE_MAX_SLOTS = 8"
definition RSTORE_MAX_RECORD_BYTES :: u16 where "RSTORE_MAX_RECORD_BYTES = 256"

abbreviation rs_total :: "rstore_desc \<Rightarrow> nat" where
  "rs_total d \<equiv> 16 + unat (rs_record_size d)"

abbreviation rs_slots :: "rstore_desc \<Rightarrow> nat" where
  "rs_slots d \<equiv> unat (rs_slot_count d)"

definition rheader_bytes :: "rstore_header \<Rightarrow> u8 list" where
  "rheader_bytes h = to_le32 (rh_magic h) @ to_le32 (rh_sequence_id h) @ to_le32 (rh_erase_count h) @
     to_le32 (rh_header_crc32 h)"

definition rheader_of :: "u8 list \<Rightarrow> rstore_header" where
  "rheader_of b = \<lparr> rh_magic = rd32 0 b, rh_sequence_id = rd32 4 b, rh_erase_count = rd32 8 b,
     rh_header_crc32 = rd32 12 b \<rparr>"

section \<open>Smart erase\<close>

text \<open>\<open>iters\<close> is \<open>max_iterations - iteration\<close>.\<close>

fun rstore_scan_loop ::
  "'s platform \<Rightarrow> 's flash_hal \<Rightarrow> u32 \<Rightarrow> nat \<Rightarrow> nat \<Rightarrow> nat \<Rightarrow> u8 list \<Rightarrow> bool \<Rightarrow> 's \<Rightarrow> bool \<times> 's" where
  "rstore_scan_loop p fl addr sec_size chk_off 0 chk_buf needs s = (needs, s)"
| "rstore_scan_loop p fl addr sec_size chk_off (Suc iters) chk_buf needs s =
     (if chk_off < sec_size then
        let read_len = (if sec_size - chk_off > 64 then 64 else sec_size - chk_off)
        in case fh_read fl (addr + of_nat chk_off) read_len s of (st, d, s) \<Rightarrow>
             let chk_buf = fill_prefix d chk_buf;
                 needs = (needs \<or> st \<noteq> BOOT_OK \<or>
                   \<not> is_fully_erased_constant_time (take read_len chk_buf) (fh_erased_value fl))
             in rstore_scan_loop p fl addr sec_size (chk_off + read_len) iters chk_buf needs (wdt_kick p s)
      else (needs, s))"

definition rstore_smart_erase ::
  "'s platform \<Rightarrow> 's flash_hal \<Rightarrow> u32 \<Rightarrow> nat \<Rightarrow> 's \<Rightarrow> boot_status \<times> 's" where
  "rstore_smart_erase p fl addr sec_size s =
     (case rstore_scan_loop p fl addr sec_size 0 (sec_size div 64 + 1) (zeroed 64) False s of (needs, s) \<Rightarrow>
        if \<not> needs then (BOOT_OK, s) else fh_erase_sector fl addr s)"

section \<open>Slot access\<close>

definition rstore_parse :: "rstore_desc \<Rightarrow> u8 list \<Rightarrow> (rstore_header \<times> u8 list) option" where
  "rstore_parse d buf =
     (let h = rheader_of buf
      in if rh_magic h \<noteq> rs_magic d then None
         else if compute_boot_crc32 (take (rs_total d) (take 12 buf @ to_le32 0 @ drop 16 buf)) = rh_header_crc32 h
         then Some (h, slice_of 16 (unat (rs_record_size d)) buf) else None)"

definition rstore_read_slot ::
  "'s flash_hal \<Rightarrow> rstore_desc \<Rightarrow> nat \<Rightarrow> 's \<Rightarrow> (rstore_header \<times> u8 list) option \<times> 's" where
  "rstore_read_slot fl d i s =
     (if rs_total d > 16 + unat RSTORE_MAX_RECORD_BYTES then (None, s)
      else case fh_read fl (rs_slot_addrs d ! i) (rs_total d) s of (st, bs, s) \<Rightarrow>
        if st \<noteq> BOOT_OK then (None, s)
        else (rstore_parse d (fill_prefix bs (zeroed (16 + unat RSTORE_MAX_RECORD_BYTES))), s))"

definition rstore_image :: "rstore_desc \<Rightarrow> u32 \<Rightarrow> u32 \<Rightarrow> u8 list \<Rightarrow> u8 list" where
  "rstore_image d seq erases rec =
     (let h = \<lparr> rh_magic = rs_magic d, rh_sequence_id = seq, rh_erase_count = erases, rh_header_crc32 = 0 \<rparr>;
          crc = compute_boot_crc32 (rheader_bytes h @ take (unat (rs_record_size d)) rec)
      in rheader_bytes (h\<lparr>rh_header_crc32 := crc\<rparr>) @ take (unat (rs_record_size d)) rec)"

definition rstore_write_slot ::
  "'s platform \<Rightarrow> 's flash_hal \<Rightarrow> rstore_desc \<Rightarrow> nat \<Rightarrow> u32 \<Rightarrow> u32 \<Rightarrow> u8 list \<Rightarrow> 's \<Rightarrow> boot_status \<times> 's" where
  "rstore_write_slot p fl d i seq erases rec s =
     (if rs_total d > 16 + unat RSTORE_MAX_RECORD_BYTES then (BOOT_ERR_INVALID_ARG, s)
      else fh_write fl (rs_slot_addrs d ! i) (rstore_image d seq erases rec) (wdt_kick p s))"

section \<open>Reading\<close>

definition rstore_args_ok :: "'s platform \<Rightarrow> rstore_desc \<Rightarrow> bool" where
  "rstore_args_ok p d \<longleftrightarrow> pf_flash p \<noteq> None \<and> pf_wdt p \<noteq> None \<and>
     \<not> (rs_slot_count d < 3 \<or> rs_slot_count d > RSTORE_MAX_SLOTS) \<and>
     \<not> (rs_record_size d = 0 \<or> rs_record_size d > RSTORE_MAX_RECORD_BYTES)"

fun rstore_scan ::
  "'s platform \<Rightarrow> 's flash_hal \<Rightarrow> rstore_desc \<Rightarrow> nat list \<Rightarrow> 's \<Rightarrow>
     (rstore_header \<times> u8 list) option list \<times> 's" where
  "rstore_scan p fl d [] s = ([], s)"
| "rstore_scan p fl d (i # is) s =
     (case rstore_read_slot fl d i s of (x, s) \<Rightarrow>
        case rstore_scan p fl d is (wdt_kick p s) of (xs, s) \<Rightarrow> (x # xs, s))"

text \<open>The index and sequence number of the newest valid slot; \<open>None\<close> is \<open>newest_idx == 0xFF\<close>.\<close>

fun rstore_newest ::
  "(rstore_header \<times> u8 list) option list \<Rightarrow> nat \<Rightarrow> (nat \<times> u32) option \<Rightarrow> (nat \<times> u32) option" where
  "rstore_newest [] i best = best"
| "rstore_newest (None # xs) i best = rstore_newest xs (Suc i) best"
| "rstore_newest (Some (h, r) # xs) i best =
     rstore_newest xs (Suc i)
       (case best of
          None \<Rightarrow> Some (i, rh_sequence_id h)
        | Some (_, q) \<Rightarrow> if is_newer_sequence (rh_sequence_id h) q then Some (i, rh_sequence_id h) else best)"

definition same_record :: "rstore_desc \<Rightarrow> u8 list \<Rightarrow> u8 list \<Rightarrow> bool" where
  "same_record d a b = (constant_time_memcmp_glitch_safe a b (unat (rs_record_size d)) = BOOT_OK)"

text \<open>How many of the slots in \<open>is\<close> agree with \<open>r\<close>, beside the slot \<open>r\<close> came from.\<close>

definition agree_count ::
  "rstore_desc \<Rightarrow> (rstore_header \<times> u8 list) option list \<Rightarrow> u8 list \<Rightarrow> nat list \<Rightarrow> nat" where
  "agree_count d xs r is =
     1 + length (filter (\<lambda>i. case xs ! i of None \<Rightarrow> False | Some (_, r') \<Rightarrow> same_record d r r') is)"

definition rec_of :: "(rstore_header \<times> u8 list) option list \<Rightarrow> nat \<Rightarrow> u8 list" where
  "rec_of xs i = snd (the (xs ! i))"

text \<open>The first other slot that some later slot agrees with, once the newest stands alone.\<close>

definition rstore_pair ::
  "rstore_desc \<Rightarrow> (rstore_header \<times> u8 list) option list \<Rightarrow> nat \<Rightarrow> nat option" where
  "rstore_pair d xs newest =
     find (\<lambda>i. xs ! i \<noteq> None \<and> i \<noteq> newest \<and>
       agree_count d xs (rec_of xs i) (filter (\<lambda>k. k \<noteq> newest) [Suc i..<length xs]) \<ge> 2) [0..<length xs]"

definition rstore_vote ::
  "rstore_desc \<Rightarrow> (rstore_header \<times> u8 list) option list \<Rightarrow> nat \<Rightarrow> u8 list" where
  "rstore_vote d xs newest =
     (if length (filter (\<lambda>x. x \<noteq> None) xs) \<ge> 2 then
        (if agree_count d xs (rec_of xs newest) (filter (\<lambda>k. k \<noteq> newest) [0..<length xs]) \<ge> 2
         then rec_of xs newest
         else case rstore_pair d xs newest of Some i \<Rightarrow> rec_of xs i | None \<Rightarrow> rec_of xs newest)
      else rec_of xs newest)"

definition needs_heal :: "rstore_desc \<Rightarrow> u8 list \<Rightarrow> (rstore_header \<times> u8 list) option \<Rightarrow> bool" where
  "needs_heal d majority x =
     (case x of None \<Rightarrow> True | Some (_, r) \<Rightarrow> \<not> same_record d r majority)"

text \<open>The one repair a read may do; its outcome is ignored.\<close>

definition rstore_heal ::
  "'s platform \<Rightarrow> 's flash_hal \<Rightarrow> rstore_desc \<Rightarrow> (rstore_header \<times> u8 list) option list \<Rightarrow> u32 \<Rightarrow> u8 list \<Rightarrow> 's \<Rightarrow> 's" where
  "rstore_heal p fl d xs newest_seq majority s =
     (case find (\<lambda>i. needs_heal d majority (xs ! i)) [0..<length xs] of
        None \<Rightarrow> s
      | Some i \<Rightarrow>
          let erases = (case xs ! i of None \<Rightarrow> 0 | Some (h, _) \<Rightarrow> rh_erase_count h);
              s = wdt_suspend p s
          in case rstore_smart_erase p fl (rs_slot_addrs d ! i) (rs_slot_sizes d ! i) s of (st, s) \<Rightarrow>
               wdt_resume p
                 (if st = BOOT_OK
                  then snd (rstore_write_slot p fl d i (newest_seq + 1) (erases + 1) majority s) else s))"

definition boot_rstore_read ::
  "'s platform \<Rightarrow> rstore_desc \<Rightarrow> 's \<Rightarrow> boot_status \<times> u8 list option \<times> 's" where
  "boot_rstore_read p d s =
     (if \<not> rstore_args_ok p d then (BOOT_ERR_INVALID_ARG, None, s)
      else
        let fl = the (pf_flash p)
        in case rstore_scan p fl d [0..<rs_slots d] s of (xs, s) \<Rightarrow>
             case rstore_newest xs 0 None of
               None \<Rightarrow> (BOOT_ERR_NOT_FOUND, None, s)
             | Some (newest, newest_seq) \<Rightarrow>
                 let majority = rstore_vote d xs newest
                 in (BOOT_OK, Some majority, rstore_heal p fl d xs newest_seq majority s))"

section \<open>Writing\<close>

fun rstore_highest ::
  "'s platform \<Rightarrow> 's flash_hal \<Rightarrow> rstore_desc \<Rightarrow> nat list \<Rightarrow> u32 option \<Rightarrow> 's \<Rightarrow> u32 option \<times> 's" where
  "rstore_highest p fl d [] best s = (best, s)"
| "rstore_highest p fl d (i # is) best s =
     (case rstore_read_slot fl d i s of (x, s) \<Rightarrow>
        rstore_highest p fl d is
          (case x of
             None \<Rightarrow> best
           | Some (h, _) \<Rightarrow>
               (case best of
                  None \<Rightarrow> Some (rh_sequence_id h)
                | Some q \<Rightarrow> if is_newer_sequence (rh_sequence_id h) q then Some (rh_sequence_id h) else best))
          (wdt_kick p s))"

fun rstore_write_loop ::
  "'s platform \<Rightarrow> 's flash_hal \<Rightarrow> rstore_desc \<Rightarrow> u8 list \<Rightarrow> nat list \<Rightarrow> u32 \<Rightarrow> 's \<Rightarrow> boot_status \<times> 's" where
  "rstore_write_loop p fl d rec [] seq s = (BOOT_OK, s)"
| "rstore_write_loop p fl d rec (i # is) seq s =
     (case rstore_read_slot fl d i s of (x, s) \<Rightarrow>
        let prev = (case x of None \<Rightarrow> 0 | Some (h, _) \<Rightarrow> rh_erase_count h)
        in case rstore_smart_erase p fl (rs_slot_addrs d ! i) (rs_slot_sizes d ! i) s of (st, s) \<Rightarrow>
             if st \<noteq> BOOT_OK then (st, s)
             else case rstore_write_slot p fl d i (seq + 1) (prev + 1) rec s of (st, s) \<Rightarrow>
               if st \<noteq> BOOT_OK then (st, s)
               else rstore_write_loop p fl d rec is (seq + 1) (wdt_kick p s))"

definition boot_rstore_write :: "'s platform \<Rightarrow> rstore_desc \<Rightarrow> u8 list \<Rightarrow> 's \<Rightarrow> boot_status \<times> 's" where
  "boot_rstore_write p d rec s =
     (if \<not> rstore_args_ok p d then (BOOT_ERR_INVALID_ARG, s)
      else
        let fl = the (pf_flash p)
        in case rstore_highest p fl d [0..<rs_slots d] None s of (best, s) \<Rightarrow>
             rstore_write_loop p fl d rec [0..<rs_slots d] (case best of None \<Rightarrow> 0 | Some q \<Rightarrow> q) s)"

section \<open>The erase scan on a device that may die\<close>

context mortal_flash
begin

text \<open>The erase scan: on a dead device it asks for an erase, which then fails.\<close>

lemma scan_loop_dead:
  assumes "dead s"
  shows "\<exists>s'. rstore_scan_loop p fl addr sz off iters buf needs s = (needs \<or> off < sz \<and> 0 < iters, s') \<and>
    mem s' = mem s \<and> dead s'"
  using assms
proof (induction iters arbitrary: off buf needs s)
  case (Suc iters)
  show ?case
  proof (cases "off < sz")
    case True
    define rl where "rl = (if sz - off > 64 then 64 else sz - off)"
    obtain st b s1 where r: "fh_read fl (addr + of_nat off) rl s = (st, b, s1)" "st \<noteq> BOOT_OK" "mem s1 = mem s" "dead s1"
      using dead_readE [OF Suc.prems] by metis
    have k: "dead (wdt_kick p s1)" "mem (wdt_kick p s1) = mem s" using r by (simp_all add: wdt_fates)
    show ?thesis
      using Suc.IH [OF k(1), of "off + rl" "fill_prefix b buf" True] k(2) True r(1,2)
      by (simp add: rl_def [symmetric])
  qed (use Suc.prems in simp)
qed simp

lemma scan_loop_fate:
  assumes "live s" and "unat addr + sz \<le> total" and "off \<le> sz" and "sz - off \<le> 64 * iters"
  shows "\<exists>nd s'. rstore_scan_loop p fl addr sz off iters buf needs s = (nd, s') \<and> mem s' = mem s \<and>
    (live s' \<and> nd = (needs \<or> slice_of (unat addr + off) (sz - off) (mem s) \<noteq> replicate (sz - off) (fh_erased_value fl))
     \<or> dead s' \<and> nd)"
  using assms
proof (induction iters arbitrary: off buf needs s)
  case 0
  then show ?case by simp
next
  case (Suc iters)
  show ?case
  proof (cases "off < sz")
    case False
    then show ?thesis using Suc.prems by simp
  next
    case True
    define rl where "rl = (if sz - off > 64 then 64 else sz - off)"
    define blk where "blk = slice_of (unat addr + off) rl (mem s)"
    have st: "0 < rl" "off + rl \<le> sz" "sz - (off + rl) \<le> 64 * iters"
      using True Suc.prems(4) by (auto simp: rl_def)
    have a: "unat (addr + of_nat off) = unat addr + off"
      using Suc.prems True total_addr by (intro flash_addr) simp
    have fit: "unat (addr + of_nat off) + rl \<le> total" using a st Suc.prems by simp
    consider (ok) s1 where "fh_read fl (addr + of_nat off) rl s = (BOOT_OK, blk, s1)" "mem s1 = mem s" "live s1"
      | (rfail) e b s1 where "fh_read fl (addr + of_nat off) rl s = (e, b, s1)" "e \<noteq> BOOT_OK" "mem s1 = mem s" "dead s1"
      using read_fate [OF Suc.prems(1) fit] a by (auto simp: blk_def)
    then show ?thesis
    proof cases
      case ok
      have lb: "length blk = rl" using st Suc.prems mem_len by (simp add: blk_def)
      have sp: "slice_of (unat addr + off) (sz - off) (mem s) =
          blk @ slice_of (unat addr + (off + rl)) (sz - (off + rl)) (mem s)"
        using slice_of_split [of rl "sz - off" "unat addr + off" "mem s"] st by (simp add: add.assoc blk_def)
      have rp: "replicate (sz - off) (fh_erased_value fl) =
          replicate rl (fh_erased_value fl) @ replicate (sz - (off + rl)) (fh_erased_value fl)"
        using st by (simp add: replicate_add [symmetric])
      have fe: "is_fully_erased_constant_time blk (fh_erased_value fl) \<longleftrightarrow> blk = replicate rl (fh_erased_value fl)"
        using lb is_fully_erased_iff [of blk] by simp
      have k: "live (wdt_kick p s1)" "mem (wdt_kick p s1) = mem s" using ok by (simp_all add: wdt_fates)
      show ?thesis
        using Suc.IH [OF k(1) Suc.prems(2) st(2,3), of "fill_prefix blk buf"
            "needs \<or> \<not> is_fully_erased_constant_time blk (fh_erased_value fl)"] True k(2) ok(1) lb
        by (simp add: rl_def [symmetric] take_fill_prefix_n [OF lb] sp rp fe)
    next
      case rfail
      have k: "dead (wdt_kick p s1)" "mem (wdt_kick p s1) = mem s" using rfail by (simp_all add: wdt_fates)
      show ?thesis
        using scan_loop_dead [OF k(1), of addr sz "off + rl" iters "fill_prefix b buf" True] True k(2) rfail(1,2)
        by (auto simp: rl_def [symmetric])
    qed
  qed
qed

end

end
