(* ===== verification/Rstore_Crash.thy ===== *)
theory Rstore_Crash
  imports Boot_Rstore
begin

text \<open>
  The record store against power failures. The locale \<open>rstore_device\<close> adds the geometry of a
  descriptor to \<open>mortal_flash\<close>; \<open>write_loop_fate\<close> says how far a write has come when the device
  dies, and the vote lemmas say which record such an image reads back as.
\<close>

section \<open>Slots as images\<close>

definition rstore_slot :: "rstore_desc \<Rightarrow> u8 list \<Rightarrow> nat \<Rightarrow> (rstore_header \<times> u8 list) option" where
  "rstore_slot d m i = rstore_parse d (slice_of (unat (rs_slot_addrs d ! i)) (rs_total d) m)"

lemma le32_take: "4 \<le> k \<Longrightarrow> le32 (take k b) = le32 b"
  by (simp add: le32_def)

lemma rd32_append_left: "off + 4 \<le> length b \<Longrightarrow> rd32 off (b @ r) = rd32 off b"
  by (simp add: rd32_def le32_def nth_append)

lemma rstore_parse_append:
  assumes "length b = rs_total d"
  shows "rstore_parse d (b @ r) = rstore_parse d b"
proof -
  have "rheader_of (b @ r) = rheader_of b"
    using assms by (simp add: rheader_of_def rd32_append_left)
  moreover have "take (rs_total d) (take 12 (b @ r) @ to_le32 0 @ drop 16 (b @ r)) =
      take (rs_total d) (take 12 b @ to_le32 0 @ drop 16 b)"
    using assms by simp
  moreover have "slice_of 16 (unat (rs_record_size d)) (b @ r) = slice_of 16 (unat (rs_record_size d)) b"
    using assms by (simp add: slice_of_def)
  ultimately show ?thesis by (simp only: rstore_parse_def)
qed

definition rstore_sealed :: "rstore_desc \<Rightarrow> u32 \<Rightarrow> u32 \<Rightarrow> u8 list \<Rightarrow> rstore_header" where
  "rstore_sealed d seq erases rec =
     (let h = \<lparr> rh_magic = rs_magic d, rh_sequence_id = seq, rh_erase_count = erases, rh_header_crc32 = 0 \<rparr>
      in h\<lparr>rh_header_crc32 := compute_boot_crc32 (rheader_bytes h @ rec)\<rparr>)"

lemma rstore_sealed_seq [simp]: "rh_sequence_id (rstore_sealed d seq erases rec) = seq"
  by (simp add: rstore_sealed_def Let_def)

lemma length_rheader_bytes [simp]: "length (rheader_bytes h) = 16"
  by (simp add: rheader_bytes_def)

lemma length_rstore_image [simp]:
  "length rec = unat (rs_record_size d) \<Longrightarrow> length (rstore_image d seq erases rec) = rs_total d"
  by (simp add: rstore_image_def Let_def)

lemma rheader_of_bytes: "rheader_of (rheader_bytes h @ r) = h"
proof -
  have "rd32 0 (rheader_bytes h @ r) = rh_magic h" by (simp add: rheader_bytes_def rd32_def)
  moreover have "rd32 4 (rheader_bytes h @ r) = rh_sequence_id h"
    unfolding rheader_bytes_def append.assoc by (rule rd32_append) simp
  moreover have "rd32 8 (rheader_bytes h @ r) = rh_erase_count h"
    using rd32_append [of "to_le32 (rh_magic h) @ to_le32 (rh_sequence_id h)" 8 "rh_erase_count h"
      "to_le32 (rh_header_crc32 h) @ r"] by (simp add: rheader_bytes_def)
  moreover have "rd32 12 (rheader_bytes h @ r) = rh_header_crc32 h"
    using rd32_append [of "to_le32 (rh_magic h) @ to_le32 (rh_sequence_id h) @ to_le32 (rh_erase_count h)" 12
      "rh_header_crc32 h" r] by (simp add: rheader_bytes_def)
  ultimately show ?thesis by (simp add: rheader_of_def)
qed

text \<open>What is written is what is parsed.\<close>

lemma rstore_parse_image:
  assumes "length rec = unat (rs_record_size d)"
  shows "rstore_parse d (rstore_image d seq erases rec) = Some (rstore_sealed d seq erases rec, rec)"
proof -
  let ?h = "\<lparr> rh_magic = rs_magic d, rh_sequence_id = seq, rh_erase_count = erases, rh_header_crc32 = 0 \<rparr>"
  let ?s = "rstore_sealed d seq erases rec"
  have im: "rstore_image d seq erases rec = rheader_bytes ?s @ rec"
    using assms by (simp add: rstore_image_def rstore_sealed_def Let_def)
  have z: "take 12 (rheader_bytes ?s @ rec) @ to_le32 0 @ drop 16 (rheader_bytes ?s @ rec) = rheader_bytes ?h @ rec"
    by (simp add: rheader_bytes_def rstore_sealed_def Let_def)
  have "rh_header_crc32 ?s = compute_boot_crc32 (rheader_bytes ?h @ rec)" "rh_magic ?s = rs_magic d"
    by (simp_all add: rstore_sealed_def Let_def)
  then show ?thesis
    unfolding im rstore_parse_def rheader_of_bytes Let_def z using assms by (simp add: slice_of_def)
qed

section \<open>Voting\<close>

text \<open>The slots' sequence numbers lie within half the ring behind a common base.\<close>

definition ages :: "u32 \<Rightarrow> (rstore_header \<times> u8 list) option list \<Rightarrow> nat list \<Rightarrow> bool" where
  "ages b xs ks \<longleftrightarrow> length ks = length xs \<and>
     (\<forall>i < length xs. ks ! i < 2147483648 \<and>
        (\<forall>h r. xs ! i = Some (h, r) \<longrightarrow> rh_sequence_id h = b + of_nat (ks ! i)))"

lemma ages_Cons [simp]:
  "ages b (x # xs) (k # ks) \<longleftrightarrow> k < 2147483648 \<and>
     (\<forall>h r. x = Some (h, r) \<longrightarrow> rh_sequence_id h = b + of_nat k) \<and> ages b xs ks"
  by (auto simp: ages_def All_less_Suc2)

lemma newest_some:
  assumes "rstore_newest xs n best = Some (i, q)"
  shows "best = Some (i, q) \<or> (\<exists>k h r. i = n + k \<and> k < length xs \<and> xs ! k = Some (h, r) \<and> rh_sequence_id h = q)"
  using assms
proof (induction xs n best rule: rstore_newest.induct)
  case (2 xs n best)
  then show ?case by auto
next
  case (3 h r xs n best)
  let ?best = "case best of None \<Rightarrow> Some (n, rh_sequence_id h)
        | Some (_, q) \<Rightarrow> if is_newer_sequence (rh_sequence_id h) q then Some (n, rh_sequence_id h) else best"
  have "?best = Some (i, q) \<or> (\<exists>k h r. i = Suc n + k \<and> k < length xs \<and> xs ! k = Some (h, r) \<and> rh_sequence_id h = q)"
    using 3 by simp
  then show ?case
  proof
    assume "?best = Some (i, q)"
    then have "best = Some (i, q) \<or> i = n \<and> rh_sequence_id h = q"
      by (auto split: option.splits if_splits)
    then show ?thesis by auto
  next
    assume "\<exists>k h r. i = Suc n + k \<and> k < length xs \<and> xs ! k = Some (h, r) \<and> rh_sequence_id h = q"
    then show ?thesis by auto
  qed
qed simp

lemma age_inj:
  assumes "x < 2147483648" and "y < 2147483648" and "b + of_nat x = (b + of_nat y :: u32)"
  shows "x = y"
  using newer_window [OF assms(1,2), of b] newer_window [OF assms(2,1), of b] assms(3)
  by (simp add: newer_irrefl)

text \<open>The slot the scan settles on is at least as new as every valid slot.\<close>

lemma newest_age:
  assumes "ages b xs ks" and "rstore_newest xs n best = Some (i, q)"
    and "\<And>i0 q0. best = Some (i0, q0) \<Longrightarrow> \<exists>a < 2147483648. q0 = b + of_nat a"
  shows "\<exists>a < 2147483648. q = b + of_nat a \<and> (\<forall>k h r. k < length xs \<longrightarrow> xs ! k = Some (h, r) \<longrightarrow> ks ! k \<le> a) \<and>
    (\<forall>i0 a0. best = Some (i0, b + of_nat a0) \<longrightarrow> a0 < 2147483648 \<longrightarrow> a0 \<le> a)"
  using assms
proof (induction xs n best arbitrary: ks rule: rstore_newest.induct)
  case (1 n best)
  then obtain a where a: "a < 2147483648" "q = b + of_nat a" by auto
  have "a0 \<le> a" if "best = Some (i0, b + of_nat a0)" "a0 < 2147483648" for i0 a0
    using 1(2) that age_inj [OF that(2) a(1), of b] a(2) by simp
  then show ?case using a by auto
next
  case (2 xs n best)
  obtain k0 ks' where ks: "ks = k0 # ks'" using 2(2) by (cases ks) (auto simp: ages_def)
  have ag: "ages b xs ks'" using 2(2) unfolding ks by simp
  obtain a where a: "a < 2147483648" "q = b + of_nat a"
      "\<forall>k h r. k < length xs \<longrightarrow> xs ! k = Some (h, r) \<longrightarrow> ks' ! k \<le> a"
      "\<forall>i0 a0. best = Some (i0, b + of_nat a0) \<longrightarrow> a0 < 2147483648 \<longrightarrow> a0 \<le> a"
    using 2(1) [OF ag] 2(3,4) by auto
  have "\<forall>k h r. k < length (None # xs) \<longrightarrow> (None # xs) ! k = Some (h, r) \<longrightarrow> ks ! k \<le> a"
    using a(3) unfolding ks by (auto simp: nth_Cons split: nat.splits)
  then show ?case using a(1,2,4) by blast
next
  case (3 h r xs n best)
  obtain k0 ks' where ks: "ks = k0 # ks'" using 3(2) by (cases ks) (auto simp: ages_def)
  have ag: "ages b xs ks'" and hd: "k0 < 2147483648" "rh_sequence_id h = b + of_nat k0"
    using 3(2) unfolding ks by auto
  let ?best = "case best of None \<Rightarrow> Some (n, rh_sequence_id h)
        | Some (_, q) \<Rightarrow> if is_newer_sequence (rh_sequence_id h) q then Some (n, rh_sequence_id h) else best"
  have "\<exists>a < 2147483648. q0 = b + of_nat a" if "?best = Some (i0, q0)" for i0 q0
  proof -
    have "q0 = rh_sequence_id h \<or> best = Some (i0, q0)"
      using that by (auto split: option.splits if_splits)
    then show ?thesis using hd 3(4) by blast
  qed
  then obtain a where a: "a < 2147483648" "q = b + of_nat a"
      "\<forall>k h r. k < length xs \<longrightarrow> xs ! k = Some (h, r) \<longrightarrow> ks' ! k \<le> a"
      "\<forall>i0 a0. ?best = Some (i0, b + of_nat a0) \<longrightarrow> a0 < 2147483648 \<longrightarrow> a0 \<le> a"
    using 3(1) [OF ag] 3(3) by auto
  have tp: "k0 \<le> a \<and> (\<forall>i0 a0. best = Some (i0, b + of_nat a0) \<longrightarrow> a0 < 2147483648 \<longrightarrow> a0 \<le> a)"
  proof (cases best)
    case None
    then show ?thesis using a(4) hd by auto
  next
    case (Some p)
    obtain i1 q1 where p: "p = (i1, q1)" by force
    obtain a1 where a1: "a1 < 2147483648" "q1 = b + of_nat a1" using 3(4) Some p by blast
    have nw: "is_newer_sequence (rh_sequence_id h) q1 \<longleftrightarrow> a1 < k0"
      unfolding hd(2) a1(2) by (rule newer_window [OF hd(1) a1(1)])
    have "max a1 k0 \<le> a"
      using a(4) Some p nw hd a1 by (cases "a1 < k0") auto
    moreover have "a0 \<le> a1" if "best = Some (i0, b + of_nat a0)" "a0 < 2147483648" for i0 a0
      using that Some p a1 age_inj [OF that(2) a1(1), of b] by simp
    ultimately show ?thesis by fastforce
  qed
  have "\<forall>k h' r'. k < length (Some (h, r) # xs) \<longrightarrow> (Some (h, r) # xs) ! k = Some (h', r') \<longrightarrow> ks ! k \<le> a"
    using a(3) tp unfolding ks by (auto simp: nth_Cons split: nat.splits)
  then show ?case using a(1,2) tp by blast
qed

lemma newest_index:
  assumes "rstore_newest xs 0 None = Some (i, q)"
  obtains h r where "i < length xs" and "xs ! i = Some (h, r)" and "q = rh_sequence_id h"
  using newest_some [OF assms] by auto

lemma newest_is_max:
  assumes "ages b xs ks" and "rstore_newest xs 0 None = Some (i, q)" and "k < length xs" and "xs ! k = Some (h, r)"
  shows "ks ! k \<le> ks ! i"
proof -
  obtain a where a: "a < 2147483648" "q = b + of_nat a"
      "\<forall>k h r. k < length xs \<longrightarrow> xs ! k = Some (h, r) \<longrightarrow> ks ! k \<le> a"
    using newest_age [OF assms(1,2)] by auto
  obtain h' r' where i: "i < length xs" "xs ! i = Some (h', r')" "q = rh_sequence_id h'"
    using assms(2) by (rule newest_index)
  have "ks ! i < 2147483648" "rh_sequence_id h' = b + of_nat (ks ! i)"
    using assms(1) i unfolding ages_def by blast+
  then have "ks ! i = a" using a(1,2) i(3) age_inj by metis
  then show ?thesis using a(3) assms(3,4) by blast
qed

lemma newest_exists:
  assumes "k < length xs" and "xs ! k = Some (h, r)"
  shows "\<exists>i q. rstore_newest xs n best = Some (i, q)"
  using assms
proof (induction xs n best arbitrary: k rule: rstore_newest.induct)
  case (2 xs n best)
  then show ?case by (cases k) auto
next
  case (3 h' r' xs n best)
  have "\<exists>i q. rstore_newest ys m (Some z) = Some (i, q)" for ys m z
    by (induction ys m "Some z" arbitrary: z rule: rstore_newest.induct) (auto split: option.splits)
  then show ?case by (auto split: option.splits)
qed simp

text \<open>The records in the slots have the descriptor's length.\<close>

definition records_fit :: "rstore_desc \<Rightarrow> (rstore_header \<times> u8 list) option list \<Rightarrow> bool" where
  "records_fit d xs \<longleftrightarrow> 0 < rs_record_size d \<and> (\<forall>k < length xs. \<forall>h r. xs ! k = Some (h, r) \<longrightarrow> length r = unat (rs_record_size d))"

lemma same_record_iff:
  assumes "length a = unat (rs_record_size d)" and "length c = unat (rs_record_size d)" and "0 < rs_record_size d"
  shows "same_record d a c \<longleftrightarrow> a = c"
  using memcmp_iff [of "unat (rs_record_size d)" a c] assms by (auto simp: same_record_def word_less_nat_alt)

lemma agree_two:
  assumes "records_fit d xs" and "length r = unat (rs_record_size d)"
    and "\<And>k. k \<in> set is \<Longrightarrow> k < length xs"
  shows "2 \<le> agree_count d xs r is \<longleftrightarrow> (\<exists>k \<in> set is. \<exists>h. xs ! k = Some (h, r))"
proof -
  have s: "(case xs ! k of None \<Rightarrow> False | Some (_, r') \<Rightarrow> same_record d r r') \<longleftrightarrow> (\<exists>h. xs ! k = Some (h, r))"
    if "k \<in> set is" for k
    using assms(1) assms(3) [OF that] same_record_iff [OF assms(2)]
    by (auto simp: records_fit_def split: option.splits)
  have f: "filter (\<lambda>i. case xs ! i of None \<Rightarrow> False | Some (_, r') \<Rightarrow> same_record d r r') is =
      filter (\<lambda>k. \<exists>h. xs ! k = Some (h, r)) is"
    using s by (intro filter_cong) auto
  have "2 \<le> agree_count d xs r is \<longleftrightarrow> filter (\<lambda>k. \<exists>h. xs ! k = Some (h, r)) is \<noteq> []"
    unfolding agree_count_def f by (cases "filter (\<lambda>k. \<exists>h. xs ! k = Some (h, r)) is") auto
  then show ?thesis by (simp add: filter_empty_conv)
qed

lemma two_valid:
  assumes "i < length xs" and "k < length xs" and "i \<noteq> k" and "xs ! i \<noteq> None" and "xs ! k \<noteq> None"
  shows "2 \<le> length (filter (\<lambda>x. x \<noteq> None) xs)"
proof -
  have "{i, k} \<subseteq> {j. j < length xs \<and> xs ! j \<noteq> None}" using assms by auto
  then have "card {i, k} \<le> card {j. j < length xs \<and> xs ! j \<noteq> None}" by (intro card_mono) auto
  then show ?thesis using assms(3) by (simp add: length_filter_conv_card)
qed

text \<open>A newest record that some other slot holds too wins.\<close>

lemma vote_twin:
  assumes "records_fit d xs" and "i < length xs" and "xs ! i = Some (h, r)"
    and "k < length xs" and "k \<noteq> i" and "xs ! k = Some (h', r)"
  shows "rstore_vote d xs i = r"
proof -
  have l: "length r = unat (rs_record_size d)" using assms(1-3) unfolding records_fit_def by blast
  have "2 \<le> agree_count d xs r (filter (\<lambda>k. k \<noteq> i) [0..<length xs])"
    using agree_two [OF assms(1) l, of "filter (\<lambda>k. k \<noteq> i) [0..<length xs]"] assms(4-6) by auto
  then show ?thesis
    using two_valid [of i xs k] assms(2-6) by (simp add: rstore_vote_def rec_of_def)
qed

text \<open>Otherwise two older slots that agree win, and the voted record is always one of the slots'.\<close>

lemma vote_in:
  assumes "i < length xs" and "xs ! i = Some (h, r)"
  shows "\<exists>k h'. k < length xs \<and> xs ! k = Some (h', rstore_vote d xs i)"
proof (cases "rstore_vote d xs i = rec_of xs i")
  case True
  then show ?thesis using assms by (auto simp: rec_of_def)
next
  case False
  then obtain k where k: "rstore_pair d xs i = Some k" "rstore_vote d xs i = rec_of xs k"
    by (auto simp: rstore_vote_def split: if_splits option.splits)
  then have "k < length xs" "xs ! k \<noteq> None"
    by (auto simp: rstore_pair_def find_Some_iff)
  then show ?thesis using k(2) by (auto simp: rec_of_def)
qed

lemma vote_outvoted:
  assumes "records_fit d xs" and "i < length xs" and "xs ! i = Some (h, r)"
    and "\<And>k. k < length xs \<Longrightarrow> k \<noteq> i \<Longrightarrow> \<exists>h. xs ! k = Some (h, r')" and "3 \<le> length xs"
  shows "rstore_vote d xs i = r'"
proof (cases "r = r'")
  case True
  obtain k where k: "k < length xs" "k \<noteq> i" using assms(2,5) by (metis One_nat_def Suc_leD Suc_le_lessD
        less_2_cases_iff less_not_refl2 numeral_3_eq_3 numeral_2_eq_2)
  then show ?thesis using vote_twin [OF assms(1-3) k] assms(4) [OF k] True by auto
next
  case False
  let ?o = "filter (\<lambda>k. k \<noteq> i) [0..<length xs]"
  have l: "length r = unat (rs_record_size d)" using assms(1-3) unfolding records_fit_def by blast
  have alone: "\<not> 2 \<le> agree_count d xs r ?o"
    using agree_two [OF assms(1) l, of ?o] assms(4) False by fastforce
  obtain a c where ac: "a < c" "c < length xs" "a \<noteq> i" "c \<noteq> i"
  proof (cases "i = 0")
    case True then show ?thesis using assms(5) by (intro that [of 1 2]) auto
  next
    case False
    show ?thesis
      by (cases "i = 1") (use False assms(5) in \<open>auto intro: that [of 0 1] that [of 0 2]\<close>)
  qed
  have l': "length r' = unat (rs_record_size d)"
    using assms(1) assms(4) [of a] ac unfolding records_fit_def by (meson order.strict_trans)
  have "\<exists>k \<in> set (filter (\<lambda>k. k \<noteq> i) [Suc a..<length xs]). \<exists>h. xs ! k = Some (h, r')"
    using assms(4) [of c] ac by (intro bexI [of _ c]) auto
  then have "2 \<le> agree_count d xs r' (filter (\<lambda>k. k \<noteq> i) [Suc a..<length xs])"
    by (subst agree_two [OF assms(1) l']) auto
  then have pa: "xs ! a \<noteq> None \<and> a \<noteq> i \<and>
      agree_count d xs (rec_of xs a) (filter (\<lambda>k. k \<noteq> i) [Suc a..<length xs]) \<ge> 2"
    using assms(4) [of a] ac by (auto simp: rec_of_def)
  moreover have "a \<in> set [0..<length xs]" using ac by simp
  ultimately have "rstore_pair d xs i \<noteq> None"
    unfolding rstore_pair_def find_None_iff by blast
  then obtain k where k: "rstore_pair d xs i = Some k" by blast
  then have "k < length xs" "k \<noteq> i" by (auto simp: rstore_pair_def find_Some_iff)
  then have "rec_of xs k = r'" using assms(4) [of k] by (auto simp: rec_of_def)
  moreover have "2 \<le> length (filter (\<lambda>x. x \<noteq> None) xs)"
    using two_valid [of a xs c] assms(4) [of a] assms(4) [of c] ac by auto
  ultimately show ?thesis using alone k assms(3) by (simp add: rstore_vote_def rec_of_def)
qed

text \<open>The header a write puts into a slot on top of what the slot held.\<close>

definition fresh_slot :: "rstore_desc \<Rightarrow> u32 \<Rightarrow> u8 list \<Rightarrow> (rstore_header \<times> u8 list) option \<Rightarrow> (rstore_header \<times> u8 list) option" where
  "fresh_slot d seq rec x =
     Some (rstore_sealed d seq ((case x of None \<Rightarrow> 0 | Some (h, _) \<Rightarrow> rh_erase_count h) + 1) rec, rec)"

section \<open>Slots on a device that may die\<close>

locale rstore_device = mortal_flash p fl mem live dead total sec walign
  for p :: "'s platform" and fl :: "'s flash_hal" and mem :: "'s \<Rightarrow> u8 list" and live :: "'s \<Rightarrow> bool"
    and dead :: "'s \<Rightarrow> bool" and total :: nat and sec :: nat and walign :: nat +
  fixes d :: rstore_desc
  assumes erased: "fh_erased_value fl = 0xFF"
    and wdt: "pf_wdt p \<noteq> None"
    and count: "3 \<le> rs_slots d" "rs_slots d \<le> 8"
    and rsize: "0 < unat (rs_record_size d)" "unat (rs_record_size d) \<le> 256"
    and slot: "i < rs_slots d \<Longrightarrow> unat (rs_slot_addrs d ! i) mod sec = 0 \<and>
       unat (rs_slot_addrs d ! i) + sec \<le> total \<and> rs_slot_sizes d ! i = sec"
    and slots_apart: "i < rs_slots d \<Longrightarrow> k < rs_slots d \<Longrightarrow> i \<noteq> k \<Longrightarrow>
       unat (rs_slot_addrs d ! i) + sec \<le> unat (rs_slot_addrs d ! k) \<or>
       unat (rs_slot_addrs d ! k) + sec \<le> unat (rs_slot_addrs d ! i)"
    and fits: "rs_total d \<le> sec" and rtotal_walign: "rs_total d mod walign = 0"
begin

abbreviation slot_in :: "u8 list \<Rightarrow> nat \<Rightarrow> (rstore_header \<times> u8 list) option" where
  "slot_in \<equiv> rstore_slot d"

lemma args_ok: "rstore_args_ok p d"
  using flash_ptr wdt count rsize
  by (auto simp: rstore_args_ok_def RSTORE_MAX_SLOTS_def RSTORE_MAX_RECORD_BYTES_def word_less_nat_alt)

lemma not_too_long: "\<not> rs_total d > 16 + unat RSTORE_MAX_RECORD_BYTES"
  using rsize by (simp add: RSTORE_MAX_RECORD_BYTES_def)

lemma read_slot_fate:
  assumes "live s" and "i < rs_slots d"
  shows "\<exists>x s'. rstore_read_slot fl d i s = (x, s') \<and> mem s' = mem s \<and>
    (live s' \<and> x = slot_in (mem s) i \<or> dead s' \<and> x = None)"
proof -
  have fit: "unat (rs_slot_addrs d ! i) + rs_total d \<le> total" using slot [OF assms(2)] fits by auto
  have l: "length (slice_of (unat (rs_slot_addrs d ! i)) (rs_total d) (mem s)) = rs_total d"
    using fit mem_len [OF assms(1)] by simp
  have pad: "rstore_parse d (fill_prefix (slice_of (unat (rs_slot_addrs d ! i)) (rs_total d) (mem s)) z) =
      slot_in (mem s) i" for z
    unfolding fill_prefix_def rstore_slot_def by (rule rstore_parse_append [OF l])
  from read_fate [OF assms(1) fit] show ?thesis
  proof (elim disjE exE conjE)
    fix s' assume "fh_read fl (rs_slot_addrs d ! i) (rs_total d) s =
        (BOOT_OK, slice_of (unat (rs_slot_addrs d ! i)) (rs_total d) (mem s), s')" "mem s' = mem s" "live s'"
    then show ?thesis using not_too_long pad by (simp add: rstore_read_slot_def)
  next
    fix st b s' assume "fh_read fl (rs_slot_addrs d ! i) (rs_total d) s = (st, b, s')" "st \<noteq> BOOT_OK"
      "mem s' = mem s" "dead s'"
    then show ?thesis using not_too_long by (simp add: rstore_read_slot_def)
  qed
qed

lemma read_slot_dead:
  assumes "dead s"
  shows "\<exists>s'. rstore_read_slot fl d i s = (None, s') \<and> mem s' = mem s \<and> dead s'"
proof -
  obtain st b s' where "fh_read fl (rs_slot_addrs d ! i) (rs_total d) s = (st, b, s')" "st \<noteq> BOOT_OK"
      "mem s' = mem s" "dead s'" using dead_readE [OF assms] by metis
  then show ?thesis using not_too_long by (simp add: rstore_read_slot_def)
qed

lemma smart_erase_fate:
  assumes "live s" and "unat addr mod sec = 0" and "unat addr + sec \<le> total"
  shows "\<exists>st s'. rstore_smart_erase p fl addr sec s = (st, s') \<and> touches (unat addr) sec (mem s) (mem s') \<and>
    (st = BOOT_OK \<and> live s' \<and> slice_of (unat addr) sec (mem s') = replicate sec 0xFF \<or> st \<noteq> BOOT_OK \<and> dead s')"
proof -
  have ml: "length (mem s) = total" using mem_len assms(1) by simp
  have it: "sec - 0 \<le> 64 * (sec div 64 + 1)" by presburger
  obtain nd s1 where sc: "rstore_scan_loop p fl addr sec 0 (sec div 64 + 1) (zeroed 64) False s = (nd, s1)"
      "mem s1 = mem s"
      "live s1 \<and> nd = (slice_of (unat addr) sec (mem s) \<noteq> replicate sec 0xFF) \<or> dead s1 \<and> nd"
    using scan_loop_fate [OF assms(1,3) _ it, of "zeroed 64" False] erased by auto
  consider (clean) "live s1" "\<not> nd" "slice_of (unat addr) sec (mem s) = replicate sec 0xFF"
    | (dirty) "live s1" nd | (gone) "dead s1" nd using sc(3) by blast
  then show ?thesis
  proof cases
    case clean
    then show ?thesis using sc by (simp add: rstore_smart_erase_def)
  next
    case dirty
    have lt: "unat addr < total" using assms(3) sec_pos by simp
    from erase_fate [OF dirty(1) lt assms(2)] show ?thesis
    proof (elim disjE exE conjE)
      fix s' assume e: "fh_erase_sector fl addr s1 = (BOOT_OK, s')"
        "mem s' = patch (unat addr) (replicate sec (fh_erased_value fl)) (mem s1)" "live s'"
      have "touches (unat addr) sec (mem s) (mem s')"
        using touches_patch [of "unat addr" "replicate sec 0xFF" "mem s"] ml assms(3) e(2) sc(2) erased by simp
      moreover have "slice_of (unat addr) sec (mem s') = replicate sec 0xFF"
        using slice_of_patch_same [of "unat addr" "replicate sec 0xFF" "mem s"] ml assms(3) e(2) sc(2) erased by simp
      ultimately show ?thesis using e(1,3) sc(1) dirty by (simp add: rstore_smart_erase_def)
    next
      fix st s' assume "fh_erase_sector fl addr s1 = (st, s')" "st \<noteq> BOOT_OK"
        "touches (unat addr) sec (mem s1) (mem s')" "dead s'"
      then show ?thesis using sc dirty by (simp add: rstore_smart_erase_def)
    qed
  next
    case gone
    obtain st s' where "fh_erase_sector fl addr s1 = (st, s')" "st \<noteq> BOOT_OK" "mem s' = mem s1" "dead s'"
      using dead_erase [OF gone(1)] by blast
    then show ?thesis using sc gone by (simp add: rstore_smart_erase_def)
  qed
qed

lemma write_slot_fate:
  assumes "live s" and "i < rs_slots d" and "length rec = unat (rs_record_size d)"
    and "slice_of (unat (rs_slot_addrs d ! i)) sec (mem s) = replicate sec 0xFF"
  shows "\<exists>st s'. rstore_write_slot p fl d i seq erases rec s = (st, s') \<and>
    touches (unat (rs_slot_addrs d ! i)) sec (mem s) (mem s') \<and>
    (st = BOOT_OK \<and> live s' \<and> slot_in (mem s') i = Some (rstore_sealed d seq erases rec, rec) \<or>
     st \<noteq> BOOT_OK \<and> dead s')"
proof -
  let ?a = "rs_slot_addrs d ! i" and ?im = "rstore_image d seq erases rec"
  have ml: "length (mem s) = total" using mem_len assms(1) by simp
  have k: "live (wdt_kick p s)" "mem (wdt_kick p s) = mem s" using assms(1) by (simp_all add: wdt_fates)
  have li: "length ?im = rs_total d" using assms(3) by simp
  have fit: "unat ?a + length ?im \<le> total" "unat ?a + sec \<le> total" using slot [OF assms(2)] fits li by auto
  have al: "unat ?a mod walign = 0" using sec_walign slot [OF assms(2)]
    by (metis dvd_trans mod_0_imp_dvd dvd_imp_mod_0)
  have "slice_of (unat ?a) (rs_total d) (mem s) = replicate (rs_total d) 0xFF"
    using slice_of_prefix [OF fits, of "unat ?a" "mem s"] fits assms(4) by (simp add: min_def)
  then have pr: "programmable (slice_of (unat ?a) (length ?im) (mem (wdt_kick p s))) ?im"
    unfolding k(2) li using programmable_erased [OF li] by simp
  have lw: "length ?im mod walign = 0" using li rtotal_walign by simp
  from write_fate [OF k(1) fit(1) al lw pr] show ?thesis
  proof (elim disjE exE conjE)
    fix s' assume w: "fh_write fl ?a ?im (wdt_kick p s) = (BOOT_OK, s')"
      "mem s' = patch (unat ?a) ?im (mem (wdt_kick p s))" "live s'"
    have t: "touches (unat ?a) sec (mem s) (mem s')"
      unfolding w(2) k(2) using fits li fit ml
      by (intro touches_mono [OF touches_patch [of "unat ?a" ?im "mem s"]]) auto
    have "slice_of (unat ?a) (rs_total d) (mem s') = ?im"
      unfolding w(2) k(2) using slice_of_patch_same [of "unat ?a" ?im "mem s"] fit(1) ml li by simp
    then have "slot_in (mem s') i = Some (rstore_sealed d seq erases rec, rec)"
      using rstore_parse_image [OF assms(3)] by (simp add: rstore_slot_def)
    then show ?thesis using w(1,3) t not_too_long by (simp add: rstore_write_slot_def)
  next
    fix st s' assume w: "fh_write fl ?a ?im (wdt_kick p s) = (st, s')" "st \<noteq> BOOT_OK"
      "touches (unat ?a) (length ?im) (mem (wdt_kick p s)) (mem s')" "dead s'"
    have "touches (unat ?a) sec (mem s) (mem s')"
      using touches_mono [OF w(3), of "unat ?a" sec] k(2) li fits by simp
    then show ?thesis using w not_too_long by (simp add: rstore_write_slot_def)
  qed
qed

lemma other_slot:
  assumes "touches (unat (rs_slot_addrs d ! i)) sec m m'" and "length m = total"
    and "i < rs_slots d" and "k < rs_slots d" and "k \<noteq> i"
  shows "slot_in m' k = slot_in m k"
proof -
  have "slice_of (unat (rs_slot_addrs d ! k)) (rs_total d) m' = slice_of (unat (rs_slot_addrs d ! k)) (rs_total d) m"
    using assms(1) by (rule slice_of_touches)
      (use slot [OF assms(4)] slots_apart [OF assms(3,4)] assms(2,5) fits in auto)
  then show ?thesis by (simp add: rstore_slot_def)
qed

text \<open>
  The write loop from slot \<open>k\<close> on: it completes \<open>c - k\<close> slots, may die in slot \<open>c\<close>, and leaves the
  others alone.
\<close>

lemma write_loop_fate:
  assumes "live s" and "k \<le> rs_slots d" and "length rec = unat (rs_record_size d)"
  shows "\<exists>st s' c. rstore_write_loop p fl d rec [k..<rs_slots d] seq s = (st, s') \<and> k \<le> c \<and> c \<le> rs_slots d \<and>
    (\<forall>i. k \<le> i \<and> i < c \<longrightarrow>
       slot_in (mem s') i = fresh_slot d (seq + of_nat (i - k) + 1) rec (slot_in (mem s) i)) \<and>
    (\<forall>i < rs_slots d. i < k \<or> c < i \<longrightarrow> slot_in (mem s') i = slot_in (mem s) i) \<and>
    (st = BOOT_OK \<and> live s' \<and> c = rs_slots d \<or> st \<noteq> BOOT_OK \<and> dead s' \<and> c < rs_slots d)"
  using assms
proof (induction "rs_slots d - k" arbitrary: k seq s)
  case 0
  then show ?case by (intro exI [of _ BOOT_OK] exI [of _ s] exI [of _ "rs_slots d"]) auto
next
  case (Suc n)
  have k: "k < rs_slots d" using Suc.hyps(2) by simp
  have n: "n = rs_slots d - Suc k" and sk: "Suc k \<le> rs_slots d" using Suc.hyps(2) by simp_all
  have up: "[k..<rs_slots d] = k # [Suc k..<rs_slots d]" using k by (rule upt_conv_Cons)
  have ml: "length (mem s) = total" using mem_len Suc.prems(1) by simp
  have sl: "unat (rs_slot_addrs d ! k) mod sec = 0" "unat (rs_slot_addrs d ! k) + sec \<le> total"
      "rs_slot_sizes d ! k = sec" using slot [OF k] by auto
  have stop: ?case
    if "rstore_write_loop p fl d rec [k..<rs_slots d] seq s = (st, t)" "st \<noteq> BOOT_OK" "dead t"
      "touches (unat (rs_slot_addrs d ! k)) sec (mem s) (mem t)" for st t
    using that k other_slot [OF that(4) ml k] by (intro exI [of _ st] exI [of _ t] exI [of _ k]) auto
  obtain x s1 where r: "rstore_read_slot fl d k s = (x, s1)" "mem s1 = mem s"
      "live s1 \<and> x = slot_in (mem s) k \<or> dead s1 \<and> x = None"
    using read_slot_fate [OF Suc.prems(1) k] by blast
  show ?case
  proof (cases "live s1 \<and> x = slot_in (mem s) k")
    case False
    then have "dead s1" "x = None" using r(3) by auto
    obtain nd s2 where "rstore_scan_loop p fl (rs_slot_addrs d ! k) sec 0 (sec div 64 + 1) (zeroed 64) False s1 = (nd, s2)"
        "nd" "mem s2 = mem s1" "dead s2"
      using scan_loop_dead [OF \<open>dead s1\<close>, of "rs_slot_addrs d ! k" sec 0 "sec div 64 + 1" "zeroed 64" False] sec_pos
      by auto
    moreover obtain st s3 where "fh_erase_sector fl (rs_slot_addrs d ! k) s2 = (st, s3)" "st \<noteq> BOOT_OK"
        "mem s3 = mem s2" "dead s3" using dead_erase [OF \<open>dead s2\<close>] by blast
    ultimately show ?thesis
      using r(1,2) sl(3) by (intro stop [of st s3]) (simp_all add: up rstore_smart_erase_def)
  next
    case True
    let ?erases = "(case x of None \<Rightarrow> 0 | Some (h, _) \<Rightarrow> rh_erase_count h) + 1"
    obtain st2 s2 where e: "rstore_smart_erase p fl (rs_slot_addrs d ! k) sec s1 = (st2, s2)"
        "touches (unat (rs_slot_addrs d ! k)) sec (mem s) (mem s2)"
        "st2 = BOOT_OK \<and> live s2 \<and> slice_of (unat (rs_slot_addrs d ! k)) sec (mem s2) = replicate sec 0xFF \<or>
         st2 \<noteq> BOOT_OK \<and> dead s2"
      using smart_erase_fate [of s1 "rs_slot_addrs d ! k"] True sl r(2) by auto
    show ?thesis
    proof (cases "st2 = BOOT_OK")
      case bad: False
      show ?thesis by (rule stop [of st2 s2]) (use bad e r sl(3) in \<open>simp_all add: up\<close>)
    next
      case ok: True
      then have l2: "live s2" "slice_of (unat (rs_slot_addrs d ! k)) sec (mem s2) = replicate sec 0xFF"
        using e(3) by auto
      obtain st3 s3 where w: "rstore_write_slot p fl d k (seq + 1) ?erases rec s2 = (st3, s3)"
          "touches (unat (rs_slot_addrs d ! k)) sec (mem s2) (mem s3)"
          "st3 = BOOT_OK \<and> live s3 \<and> slot_in (mem s3) k = Some (rstore_sealed d (seq + 1) ?erases rec, rec) \<or>
           st3 \<noteq> BOOT_OK \<and> dead s3"
        using write_slot_fate [OF l2(1) k Suc.prems(3) l2(2)] by blast
      have t: "touches (unat (rs_slot_addrs d ! k)) sec (mem s) (mem s3)"
        using e(2) w(2) by (rule touches_trans)
      show ?thesis
      proof (cases "st3 = BOOT_OK")
        case bad: False
        show ?thesis by (rule stop [of st3 s3]) (use bad ok e(1) w r t sl(3) in \<open>simp_all add: up Let_def\<close>)
      next
        case fin: True
        have k3: "live (wdt_kick p s3)" "mem (wdt_kick p s3) = mem s3" using w(3) fin by (simp_all add: wdt_fates)
        obtain st s' c where IH: "rstore_write_loop p fl d rec [Suc k..<rs_slots d] (seq + 1) (wdt_kick p s3) = (st, s')"
            "Suc k \<le> c" "c \<le> rs_slots d"
            "\<forall>i. Suc k \<le> i \<and> i < c \<longrightarrow> slot_in (mem s') i =
               fresh_slot d (seq + 1 + of_nat (i - Suc k) + 1) rec (slot_in (mem s3) i)"
            "\<forall>i < rs_slots d. i < Suc k \<or> c < i \<longrightarrow> slot_in (mem s') i = slot_in (mem s3) i"
            "st = BOOT_OK \<and> live s' \<and> c = rs_slots d \<or> st \<noteq> BOOT_OK \<and> dead s' \<and> c < rs_slots d"
          using Suc.hyps(1) [OF n k3(1) sk Suc.prems(3), of "seq + 1"] unfolding k3(2) by blast
        have run: "rstore_write_loop p fl d rec [k..<rs_slots d] seq s = (st, s')"
          using r(1) e(1) ok w(1) fin IH(1) sl(3) by (simp add: up Let_def)
        have o: "slot_in (mem s3) i = slot_in (mem s) i" if "i < rs_slots d" "i \<noteq> k" for i
          using other_slot [OF t ml k that] .
        have own: "slot_in (mem s') k = fresh_slot d (seq + 1) rec (slot_in (mem s) k)"
          using IH(5) k w(3) fin True by (simp add: fresh_slot_def)
        have seqs: "seq + 1 + of_nat (i - Suc k) + 1 = seq + of_nat (i - k) + 1" if "Suc k \<le> i" for i
        proof -
          have "i - k = Suc (i - Suc k)" using that by simp
          then show ?thesis by (simp add: add.commute add.left_commute)
        qed
        have new: "\<forall>i. k \<le> i \<and> i < c \<longrightarrow>
            slot_in (mem s') i = fresh_slot d (seq + of_nat (i - k) + 1) rec (slot_in (mem s) i)"
        proof (intro allI impI)
          fix i assume i: "k \<le> i \<and> i < c"
          show "slot_in (mem s') i = fresh_slot d (seq + of_nat (i - k) + 1) rec (slot_in (mem s) i)"
          proof (cases "i = k")
            case True
            then show ?thesis using own by simp
          next
            case False
            then have "Suc k \<le> i" "i < rs_slots d" using i IH(3) by auto
            then show ?thesis using IH(4) i o False seqs by simp
          qed
        qed
        show ?thesis
          using run IH(2,3,5,6) new o by (intro exI [of _ st] exI [of _ s'] exI [of _ c]) auto
      qed
    qed
  qed
qed

lemma write_loop_dead:
  assumes "dead s" and "k < rs_slots d"
  shows "\<exists>st s'. rstore_write_loop p fl d rec [k..<rs_slots d] seq s = (st, s') \<and> st \<noteq> BOOT_OK \<and>
    mem s' = mem s \<and> dead s'"
proof -
  obtain s1 where r: "rstore_read_slot fl d k s = (None, s1)" "mem s1 = mem s" "dead s1"
    using read_slot_dead [OF assms(1)] by blast
  obtain nd s2 where "rstore_scan_loop p fl (rs_slot_addrs d ! k) sec 0 (sec div 64 + 1) (zeroed 64) False s1 = (nd, s2)"
      "nd" "mem s2 = mem s1" "dead s2"
    using scan_loop_dead [OF r(3), of "rs_slot_addrs d ! k" sec 0 "sec div 64 + 1" "zeroed 64" False] sec_pos
    by auto
  moreover obtain st s3 where "fh_erase_sector fl (rs_slot_addrs d ! k) s2 = (st, s3)" "st \<noteq> BOOT_OK"
      "mem s3 = mem s2" "dead s3" using dead_erase [OF \<open>dead s2\<close>] by blast
  ultimately show ?thesis
    using r slot [OF assms(2)] upt_conv_Cons [OF assms(2)]
    by (intro exI [of _ st] exI [of _ s3]) (simp add: rstore_smart_erase_def)
qed

text \<open>The scan for the highest sequence number finds the newest slot's.\<close>

lemma highest_fate:
  assumes "live s \<or> dead s" and "\<And>i. i \<in> set is \<Longrightarrow> i < rs_slots d"
  shows "\<exists>hi s'. rstore_highest p fl d is (map_option snd best) s = (hi, s') \<and> mem s' = mem s \<and>
    (live s' \<and> hi = map_option snd (rstore_newest (map (slot_in (mem s)) is) n best) \<or> dead s')"
  using assms
proof (induction "is" arbitrary: best n s)
  case Nil
  then show ?case by auto
next
  case (Cons i "is")
  obtain x s1 where r: "rstore_read_slot fl d i s = (x, s1)" "mem s1 = mem s"
      "live s1 \<and> x = slot_in (mem s) i \<or> dead s1"
    using read_slot_fate [of s i] read_slot_dead [of s i] Cons.prems by fastforce
  let ?best = "case x of None \<Rightarrow> best | Some (h, _) \<Rightarrow>
      (case best of None \<Rightarrow> Some (n, rh_sequence_id h)
       | Some (_, q) \<Rightarrow> if is_newer_sequence (rh_sequence_id h) q then Some (n, rh_sequence_id h) else best)"
  have k: "live (wdt_kick p s1) \<or> dead (wdt_kick p s1)" "mem (wdt_kick p s1) = mem s"
    using r(2,3) by (auto simp: wdt_fates)
  have b: "map_option snd ?best = (case x of None \<Rightarrow> map_option snd best | Some (h, _) \<Rightarrow>
      (case map_option snd best of None \<Rightarrow> Some (rh_sequence_id h)
       | Some q \<Rightarrow> if is_newer_sequence (rh_sequence_id h) q then Some (rh_sequence_id h) else map_option snd best))"
    by (auto split: option.splits)
  obtain hi s' where IH: "rstore_highest p fl d is (map_option snd ?best) (wdt_kick p s1) = (hi, s')" "mem s' = mem s"
      "live s' \<and> hi = map_option snd (rstore_newest (map (slot_in (mem s)) is) (Suc n) ?best) \<or> dead s'"
    using Cons.IH [OF k(1), of ?best "Suc n"] Cons.prems(2) k(2) by auto
  have run: "rstore_highest p fl d (i # is) (map_option snd best) s = (hi, s')"
    using r(1) IH(1) b by simp
  have stuck: "dead s'" if "dead s1"
  proof -
    have "\<exists>hi s'. rstore_highest p fl d js bb t = (hi, s') \<and> dead s'" if "dead t" for js bb t
      using that
    proof (induction js arbitrary: bb t)
      case (Cons j js)
      obtain t1 where "rstore_read_slot fl d j t = (None, t1)" "dead t1" using read_slot_dead [OF Cons.prems] by blast
      then show ?case using Cons.IH [of "wdt_kick p t1"] by (simp add: wdt_fates)
    qed simp
    from this [of "wdt_kick p s1" "is" "map_option snd ?best"] show ?thesis using that IH(1) by (simp add: wdt_fates)
  qed
  show ?case
  proof (cases "dead s1")
    case True
    then show ?thesis using run IH(2) stuck by blast
  next
    case False
    then have x: "x = slot_in (mem s) i" using r(3) by blast
    have "rstore_newest (map (slot_in (mem s)) (i # is)) n best = rstore_newest (map (slot_in (mem s)) is) (Suc n) ?best"
      unfolding x by (cases "slot_in (mem s) i") auto
    then show ?thesis using run IH(2,3) by auto
  qed
qed

lemma scan_fate:
  assumes "live s \<or> dead s" and "\<And>i. i \<in> set is \<Longrightarrow> i < rs_slots d"
  shows "\<exists>xs s'. rstore_scan p fl d is s = (xs, s') \<and> mem s' = mem s \<and>
    (live s \<and> live s' \<and> xs = map (slot_in (mem s)) is \<or> dead s')"
  using assms
proof (induction "is" arbitrary: s)
  case Nil
  then show ?case by auto
next
  case (Cons i "is")
  obtain x s1 where r: "rstore_read_slot fl d i s = (x, s1)" "mem s1 = mem s"
      "live s \<and> live s1 \<and> x = slot_in (mem s) i \<or> dead s1"
    using read_slot_fate [of s i] read_slot_dead [of s i] Cons.prems by fastforce
  have k: "live (wdt_kick p s1) \<or> dead (wdt_kick p s1)" "mem (wdt_kick p s1) = mem s"
    using r(2,3) by (auto simp: wdt_fates)
  obtain xs s' where IH: "rstore_scan p fl d is (wdt_kick p s1) = (xs, s')" "mem s' = mem s"
      "live (wdt_kick p s1) \<and> live s' \<and> xs = map (slot_in (mem s)) is \<or> dead s'"
    using Cons.IH [OF k(1)] Cons.prems(2) k(2) by auto
  have stuck: "dead s'" if "dead s1"
  proof -
    have "\<exists>hi s'. rstore_scan p fl d js t = (hi, s') \<and> dead s'" if "dead t" for js t
      using that
    proof (induction js arbitrary: t)
      case (Cons j js)
      obtain t1 where "rstore_read_slot fl d j t = (None, t1)" "dead t1" using read_slot_dead [OF Cons.prems] by blast
      then show ?case using Cons.IH [of "wdt_kick p t1"] by (auto simp: wdt_fates)
    qed simp
    from this [of "wdt_kick p s1" "is"] show ?thesis using that IH(1) by (simp add: wdt_fates)
  qed
  show ?case using r IH stuck by auto
qed

lemma heal_dead:
  assumes "dead s"
  shows "dead (rstore_heal p fl d xs q r s)"
proof (cases "find (\<lambda>i. needs_heal d r (xs ! i)) [0..<length xs]")
  case None
  then show ?thesis using assms by (simp add: rstore_heal_def)
next
  case (Some i)
  have k: "dead (wdt_suspend p s)" using assms by (simp add: wdt_fates)
  obtain nd s1 where sc: "rstore_scan_loop p fl (rs_slot_addrs d ! i) (rs_slot_sizes d ! i) 0
      (rs_slot_sizes d ! i div 64 + 1) (zeroed 64) False (wdt_suspend p s) = (nd, s1)" "dead s1"
    using scan_loop_dead [OF k] by blast
  obtain st s2 where "rstore_smart_erase p fl (rs_slot_addrs d ! i) (rs_slot_sizes d ! i) (wdt_suspend p s) = (st, s2)"
      "dead s2"
    using sc dead_erase [OF sc(2), of "rs_slot_addrs d ! i"] by (cases nd) (auto simp: rstore_smart_erase_def)
  moreover have "dead (snd (rstore_write_slot p fl d i q' er r t))" if "dead t" for q' er t
    using dead_write [of "wdt_kick p t" "rs_slot_addrs d ! i" "rstore_image d q' er r"] that not_too_long
    by (auto simp: rstore_write_slot_def wdt_fates)
  ultimately show ?thesis using Some by (simp add: rstore_heal_def wdt_fates Let_def)
qed

lemma read_result:
  assumes "live s" and "boot_rstore_read p d s = (st, r, s')" and "\<not> dead s'"
  shows "case rstore_newest (map (slot_in (mem s)) [0..<rs_slots d]) 0 None of
      None \<Rightarrow> st = BOOT_ERR_NOT_FOUND \<and> r = None
    | Some (i, q) \<Rightarrow> st = BOOT_OK \<and> r = Some (rstore_vote d (map (slot_in (mem s)) [0..<rs_slots d]) i)"
proof -
  obtain xs s1 where sc: "rstore_scan p fl d [0..<rs_slots d] s = (xs, s1)" "mem s1 = mem s"
      "live s1 \<and> xs = map (slot_in (mem s)) [0..<rs_slots d] \<or> dead s1"
    using scan_fate [of s "[0..<rs_slots d]"] assms(1) by auto
  have "dead s1 \<Longrightarrow> dead s'"
    using assms(2) args_ok flash_ptr sc(1) heal_dead
    by (auto simp: boot_rstore_read_def Let_def split: option.splits)
  then have "xs = map (slot_in (mem s)) [0..<rs_slots d]" using sc(3) assms(3) by blast
  then show ?thesis
    using assms(2) args_ok flash_ptr sc(1)
    by (auto simp: boot_rstore_read_def Let_def split: option.splits prod.splits)
qed

lemma slot_len:
  assumes "slot_in m i = Some (h, r)" and "length m = total" and "i < rs_slots d"
  shows "length r = unat (rs_record_size d)"
  using assms slot [OF assms(3)] fits
  by (auto simp: rstore_slot_def rstore_parse_def Let_def slice_of_def split: if_splits)

lemma write_extent:
  assumes "live s" and "length new = unat (rs_record_size d)" and "boot_rstore_write p d new s = (st, s')"
    and "rstore_newest (map (slot_in (mem s)) [0..<rs_slots d]) 0 None = Some (i0, tp)"
  shows "\<exists>c \<le> rs_slots d. (\<forall>i < c. slot_in (mem s') i = fresh_slot d (tp + of_nat i + 1) new (slot_in (mem s) i)) \<and>
    (\<forall>i < rs_slots d. c < i \<longrightarrow> slot_in (mem s') i = slot_in (mem s) i) \<and> (st = BOOT_OK \<longrightarrow> c = rs_slots d)"
proof -
  have n0: "0 < rs_slots d" using count by simp
  obtain hi s1 where h: "rstore_highest p fl d [0..<rs_slots d] None s = (hi, s1)" "mem s1 = mem s"
      "live s1 \<and> hi = Some tp \<or> dead s1"
    using highest_fate [of s "[0..<rs_slots d]" None 0] assms(1,4) by auto
  have run: "boot_rstore_write p d new s =
      rstore_write_loop p fl d new [0..<rs_slots d] (case hi of None \<Rightarrow> 0 | Some q \<Rightarrow> q) s1"
    using args_ok flash_ptr h(1) by (simp add: boot_rstore_write_def)
  show ?thesis
  proof (cases "live s1 \<and> hi = Some tp")
    case True
    then obtain st2 s2 c where "rstore_write_loop p fl d new [0..<rs_slots d] tp s1 = (st2, s2)" "c \<le> rs_slots d"
        "\<forall>i. 0 \<le> i \<and> i < c \<longrightarrow> slot_in (mem s2) i = fresh_slot d (tp + of_nat (i - 0) + 1) new (slot_in (mem s1) i)"
        "\<forall>i < rs_slots d. i < 0 \<or> c < i \<longrightarrow> slot_in (mem s2) i = slot_in (mem s1) i"
        "st2 = BOOT_OK \<and> live s2 \<and> c = rs_slots d \<or> st2 \<noteq> BOOT_OK \<and> dead s2 \<and> c < rs_slots d"
      using write_loop_fate [of s1 0 new tp] assms(2) by blast
    then show ?thesis using run True h(2) assms(3) by (intro exI [of _ c]) auto
  next
    case False
    then have "dead s1" using h(3) by blast
    then obtain st2 s2 where "rstore_write_loop p fl d new [0..<rs_slots d] (case hi of None \<Rightarrow> 0 | Some q \<Rightarrow> q) s1 = (st2, s2)"
        "st2 \<noteq> BOOT_OK" "mem s2 = mem s1"
      using write_loop_dead [OF _ n0] by blast
    then show ?thesis using run h(2) assms(3) by (intro exI [of _ 0]) simp
  qed
qed

lemma write_then_read:
  assumes "live s" and "length new = unat (rs_record_size d)"
    and old: "\<And>i. i < rs_slots d \<Longrightarrow> \<exists>h. slot_in (mem s) i = Some (h, old)"
    and young: "ages b (map (slot_in (mem s)) [0..<rs_slots d]) ks" "\<And>k. k \<in> set ks \<Longrightarrow> k < 1073741824"
    and tp: "rstore_newest (map (slot_in (mem s)) [0..<rs_slots d]) 0 None = Some (i0, tp)"
    and run: "boot_rstore_write p d new s = (st, s1)"
    and torn: "\<And>i. i < rs_slots d \<Longrightarrow> slot_in (mem s1) i \<in>
        {None, slot_in (mem s) i, fresh_slot d (tp + of_nat i + 1) new (slot_in (mem s) i)}"
    and reboot: "live s2" "mem s2 = mem s1" "boot_rstore_read p d s2 = (st2, r, s3)" "\<not> dead s3"
    and N: "N = {i. i < rs_slots d \<and> (\<exists>h. slot_in (mem s1) i = Some (h, new))}"
  shows "st2 = BOOT_OK \<and> (r = Some old \<or> r = Some new) \<and> (st = BOOT_OK \<longrightarrow> r = Some new) \<and>
    (2 \<le> card N \<longrightarrow> r = Some new) \<and>
    (card N = 1 \<and> (\<forall>i < rs_slots d. slot_in (mem s1) i \<noteq> None) \<or> card N = 0 \<longrightarrow> r = Some old)"
proof -
  let ?n = "rs_slots d" and ?xs = "map (slot_in (mem s1)) [0..<rs_slots d]"
  let ?fresh = "\<lambda>i. fresh_slot d (tp + of_nat i + 1) new (slot_in (mem s) i)"
  obtain c where c: "c \<le> ?n" "\<forall>i < c. slot_in (mem s1) i = ?fresh i"
      "\<forall>i < ?n. c < i \<longrightarrow> slot_in (mem s1) i = slot_in (mem s) i" "st = BOOT_OK \<longrightarrow> c = ?n"
    using write_extent [OF assms(1,2) run tp] by blast
  obtain a where a: "a < 1073741824" "tp = b + of_nat a" "\<forall>k < ?n. ks ! k \<le> a"
  proof -
    obtain h' r' where i: "i0 < ?n" "slot_in (mem s) i0 = Some (h', r')" "tp = rh_sequence_id h'"
      using newest_index [OF tp] by auto
    have "ks ! k \<le> ks ! i0" if kn: "k < ?n" for k
      using newest_is_max [OF young(1) tp, of k] old [OF kn] kn by fastforce
    moreover have "tp = b + of_nat (ks ! i0)" "i0 < length ks"
      using young(1) i unfolding ages_def by auto
    ultimately show ?thesis using that [of "ks ! i0"] young(2) by auto
  qed
  have ml: "length (mem s2) = total" using mem_len reboot(1) by simp
  have three: "slot_in (mem s1) i = None \<or> (\<exists>h. slot_in (mem s1) i = Some (h, old) \<and> rh_sequence_id h = b + of_nat (ks ! i)) \<or>
      (\<exists>h. slot_in (mem s1) i = Some (h, new) \<and> rh_sequence_id h = b + of_nat (a + 1 + i) \<and> slot_in (mem s1) i = ?fresh i)"
    if jn: "i < ?n" for i
  proof -
    obtain h where h: "slot_in (mem s) i = Some (h, old)" using old [OF jn] by blast
    then have "rh_sequence_id h = b + of_nat (ks ! i)" using young(1) jn unfolding ages_def by auto
    then show ?thesis using torn [OF jn] h a(2) by (auto simp: fresh_slot_def algebra_simps)
  qed
  define kk where "kk = map (\<lambda>i. if slot_in (mem s1) i = ?fresh i then a + 1 + i else ks ! i) [0..<?n]"
  have small: "ks ! i < 1073741824" if "i < ?n" for i
    using young that by (auto simp: ages_def)
  have ag: "ages b ?xs kk"
  proof -
    have "kk ! i < 2147483648 \<and> (\<forall>h r. ?xs ! i = Some (h, r) \<longrightarrow> rh_sequence_id h = b + of_nat (kk ! i))"
      if i: "i < ?n" for i
    proof (cases "slot_in (mem s1) i = ?fresh i")
      case True
      have "a + 1 + i < 2147483648" using a(1) i count by simp
      then show ?thesis using True i a(2) by (simp add: kk_def fresh_slot_def algebra_simps)
    next
      case False
      then show ?thesis using three [OF i] small [OF i] i by (auto simp: kk_def)
    qed
    then show ?thesis by (simp add: ages_def kk_def)
  qed
  have fit: "records_fit d ?xs"
    using slot_len [OF _ ml] rsize reboot(2) by (simp add: records_fit_def word_less_nat_alt)
  obtain g h where g: "g < ?n" "slot_in (mem s1) g = Some (h, if g < c then new else old)"
  proof (cases "c = 0")
    case True
    then show ?thesis using that [of 1] c(3) old [of 1] count by auto
  next
    case False
    then show ?thesis using that [of 0] c(1,2) count by (auto simp: fresh_slot_def)
  qed
  obtain i q where nw: "rstore_newest ?xs 0 None = Some (i, q)"
    using newest_exists [of g ?xs] g by force
  have res: "st2 = BOOT_OK" "r = Some (rstore_vote d ?xs i)"
    using read_result [OF reboot(1,3,4)] nw reboot(2) by auto
  obtain hi ri where vi: "i < ?n" "slot_in (mem s1) i = Some (hi, ri)"
  proof -
    obtain h r where "i < length ?xs" "?xs ! i = Some (h, r)" using newest_index [OF nw] by blast
    then show ?thesis using that [of h r] by simp
  qed
  obtain k hk where vk: "k < ?n" "slot_in (mem s1) k = Some (hk, rstore_vote d ?xs i)"
    using vote_in [of i ?xs hi ri d] vi by auto
  have rin: "r = Some old \<or> r = Some new" using three [OF vk(1)] vk(2) res(2) by auto
  have newer: "ri = new" if "k \<in> N" for k
  proof (rule ccontr)
    assume "ri \<noteq> new"
    then have o: "kk ! i = ks ! i" using vi by (auto simp: kk_def fresh_slot_def)
    have k: "k < ?n" "\<exists>h. slot_in (mem s1) k = Some (h, new)" using that N by auto
    have "old \<noteq> new" using three [OF vi(1)] vi(2) \<open>ri \<noteq> new\<close> by auto
    then have "slot_in (mem s1) k = ?fresh k" using three [OF k(1)] k(2) by auto
    then have "kk ! k = a + 1 + k" using k(1) by (simp add: kk_def)
    moreover have "kk ! k \<le> kk ! i" using newest_is_max [OF ag nw, of k] k by auto
    ultimately show False using o a(3) vi(1) by fastforce
  qed
  have fin: "finite N" using N by simp
  have two: "r = Some new" if cn: "2 \<le> card N"
  proof -
    have "\<not> N \<subseteq> {i}" using cn card_mono [of "{i}" N] by auto
    then obtain k where k: "k \<in> N" "k \<noteq> i" by blast
    then show ?thesis
      using vote_twin [OF fit, of i hi new k] vi newer [OF k(1)] N res(2) by auto
  qed
  have none: "r = Some old" if "card N = 0"
  proof -
    have "N = {}" using that fin by simp
    then show ?thesis using vk N res(2) three [OF vk(1)] by auto
  qed
  have one: "r = Some old" if cn: "card N = 1" "\<forall>i < ?n. slot_in (mem s1) i \<noteq> None"
  proof -
    obtain k where k: "N = {k}" using cn(1) by (auto simp: card_1_singleton_iff)
    then have "ri = new" using newer by blast
    then have "i = k" using vi k N by auto
    have "\<exists>h. ?xs ! m = Some (h, old)" if m: "m < length ?xs" "m \<noteq> i" for m
    proof -
      have mn: "m < ?n" using m(1) by simp
      have "m \<notin> N" using m(2) \<open>i = k\<close> k by simp
      then show ?thesis using three [OF mn] cn(2) mn N by auto
    qed
    then show ?thesis
      using vote_outvoted [OF fit, of i hi ri old] vi res(2) count by auto
  qed
  have all: "r = Some new" if "st = BOOT_OK"
  proof -
    have "N = {0..<?n}" using c that N by (auto simp: fresh_slot_def)
    then show ?thesis using two count by simp
  qed
  show ?thesis using res(1) rin two none one all by blast
qed

text \<open>A write that reported success is read back, whatever the slots held before.\<close>

lemma write_ok_extent:
  assumes "live s" and "length new = unat (rs_record_size d)" and "boot_rstore_write p d new s = (BOOT_OK, s')"
  shows "\<exists>q. \<forall>i < rs_slots d. slot_in (mem s') i = fresh_slot d (q + of_nat i + 1) new (slot_in (mem s) i)"
proof -
  have n0: "0 < rs_slots d" using count by simp
  obtain hi s1 where h: "rstore_highest p fl d [0..<rs_slots d] None s = (hi, s1)" "mem s1 = mem s" "live s1 \<or> dead s1"
    using highest_fate [of s "[0..<rs_slots d]" None 0] assms(1) by auto
  let ?q = "case hi of None \<Rightarrow> 0 | Some q \<Rightarrow> q"
  have run: "rstore_write_loop p fl d new [0..<rs_slots d] ?q s1 = (BOOT_OK, s')"
    using args_ok flash_ptr h(1) assms(3) by (simp add: boot_rstore_write_def)
  have "\<not> dead s1"
  proof
    assume "dead s1"
    then obtain st2 s2 where "rstore_write_loop p fl d new [0..<rs_slots d] ?q s1 = (st2, s2)" "st2 \<noteq> BOOT_OK"
      using write_loop_dead [OF _ n0] by blast
    then show False using run by simp
  qed
  then have "live s1" using h(3) by blast
  then obtain st2 s2 c where "rstore_write_loop p fl d new [0..<rs_slots d] ?q s1 = (st2, s2)" "c \<le> rs_slots d"
      "\<forall>i. 0 \<le> i \<and> i < c \<longrightarrow> slot_in (mem s2) i = fresh_slot d (?q + of_nat (i - 0) + 1) new (slot_in (mem s1) i)"
      "st2 = BOOT_OK \<and> live s2 \<and> c = rs_slots d \<or> st2 \<noteq> BOOT_OK \<and> dead s2 \<and> c < rs_slots d"
    using write_loop_fate [of s1 0 new ?q] assms(2) by blast
  then show ?thesis using run h(2) by (intro exI [of _ ?q]) auto
qed

lemma write_status:
  assumes "live s" and "length new = unat (rs_record_size d)" and "boot_rstore_write p d new s = (st, s')"
  shows "st = BOOT_OK \<and> live s' \<or> st \<noteq> BOOT_OK \<and> dead s'"
proof -
  have n0: "0 < rs_slots d" using count by simp
  obtain hi s1 where h: "rstore_highest p fl d [0..<rs_slots d] None s = (hi, s1)" "live s1 \<or> dead s1"
    using highest_fate [of s "[0..<rs_slots d]" None 0] assms(1) by auto
  have run: "rstore_write_loop p fl d new [0..<rs_slots d] (case hi of None \<Rightarrow> 0 | Some q \<Rightarrow> q) s1 = (st, s')"
    using args_ok flash_ptr h(1) assms(3) by (simp add: boot_rstore_write_def)
  from h(2) show ?thesis
  proof
    assume l: "live s1"
    show ?thesis
      using write_loop_fate [OF l le0 assms(2), of "case hi of None \<Rightarrow> 0 | Some q \<Rightarrow> q"] run by auto
  next
    assume dd: "dead s1"
    show ?thesis using write_loop_dead [OF dd n0, of new "case hi of None \<Rightarrow> 0 | Some q \<Rightarrow> q"] run by auto
  qed
qed

lemma write_reads_back:
  assumes "live s" and "length new = unat (rs_record_size d)" and "boot_rstore_write p d new s = (BOOT_OK, s1)"
    and "live s2" and "mem s2 = mem s1" and "boot_rstore_read p d s2 = (st2, r, s3)" and "\<not> dead s3"
  shows "st2 = BOOT_OK \<and> r = Some new"
proof -
  let ?xs = "map (slot_in (mem s1)) [0..<rs_slots d]"
  obtain q where q: "\<forall>i < rs_slots d. slot_in (mem s1) i = fresh_slot d (q + of_nat i + 1) new (slot_in (mem s) i)"
    using write_ok_extent [OF assms(1-3)] by blast
  have all: "\<exists>h. slot_in (mem s1) i = Some (h, new)" if "i < rs_slots d" for i
    using q that by (simp add: fresh_slot_def)
  have n0: "0 < rs_slots d" using count by simp
  obtain i q' where nw: "rstore_newest ?xs 0 None = Some (i, q')"
    using newest_exists [of 0 ?xs] all [OF n0] n0 by force
  have i: "i < rs_slots d" using newest_index [OF nw] by auto
  obtain hi where hi: "slot_in (mem s1) i = Some (hi, new)" using all [OF i] by blast
  obtain k hk where k: "k < rs_slots d" "slot_in (mem s1) k = Some (hk, rstore_vote d ?xs i)"
    using vote_in [of i ?xs hi new d] hi i by auto
  show ?thesis
    using read_result [OF assms(4,6,7)] nw assms(5) k(2) all [OF k(1)] by auto
qed

end

section \<open>The reference store of the witnesses\<close>

text \<open>Three 32-byte sectors, one record of four bytes.\<close>

definition demo_rstore :: rstore_desc where
  "demo_rstore = \<lparr> rs_slot_addrs = [0, 32, 64], rs_slot_sizes = [32, 32, 32], rs_slot_count = 3,
     rs_record_size = 4, rs_magic = 0x52535430 \<rparr>"

definition rstore_port :: "flash_model flash_hal" where
  "rstore_port = brownout_port 32 1 0xFF 0"

definition rstore_platform :: "flash_model platform" where
  "rstore_platform = model_platform rstore_port"

lemma demo_rstore_sel [simp]:
  "rs_slots demo_rstore = 3" "unat (rs_record_size demo_rstore) = 4" "rs_slot_addrs demo_rstore = [0, 32, 64]"
  "rs_slot_sizes demo_rstore = [32, 32, 32]"
  by (simp_all add: demo_rstore_def)

lemma three_slots: "[0..<rs_slots demo_rstore] = [0, 1, 2]"
  by (simp add: upt_rec)

lemma rstore_port_mortal:
  "mortal_flash rstore_platform rstore_port fm_file (brownout_live 96 32 1 0xFF) model_down 96 32 1"
  unfolding rstore_platform_def rstore_port_def by (rule brownout_contract) simp_all

interpretation demo_rs: rstore_device rstore_platform rstore_port fm_file
    "brownout_live 96 32 1 0xFF" model_down 96 32 1 demo_rstore
proof (rule rstore_device.intro [OF rstore_port_mortal], unfold_locales)
  show "fh_erased_value rstore_port = 0xFF" by (simp add: rstore_port_def brownout_port_def)
  show "pf_wdt rstore_platform \<noteq> None" by (simp add: rstore_platform_def)
qed (auto simp: less_Suc_eq numeral_3_eq_3)

definition rstore_image_of :: "u8 list \<Rightarrow> u8 list" where
  "rstore_image_of rec = concat (map (\<lambda>q. rstore_image demo_rstore q 1 rec @ replicate 12 0xFF) [1, 2, 3])"

definition rstore_state_of :: "nat \<Rightarrow> u8 list \<Rightarrow> flash_model" where
  "rstore_state_of k rec = \<lparr> fm_file = rstore_image_of rec, fm_total_size = 96, fm_sector_size = 32,
     fm_erased_value = 0xFF, fm_write_align = 1, fm_fail_at_op = k, fm_torn_prefix = 0, fm_op_counter = 0 \<rparr>"

lemma rstore_image_slots:
  assumes "length rec = 4"
  shows "length (rstore_image_of rec) = 96"
    and "i < 3 \<Longrightarrow> rstore_slot demo_rstore (rstore_image_of rec) i =
      Some (rstore_sealed demo_rstore (of_nat i + 1) 1 rec, rec)"
proof -
  have l: "length (rstore_image demo_rstore q e rec) = 20" for q e using assms by simp
  then show "length (rstore_image_of rec) = 96" by (simp add: rstore_image_of_def)
  have s: "slice_of 0 20 (rstore_image_of rec) = rstore_image demo_rstore 1 1 rec"
      "slice_of 32 20 (rstore_image_of rec) = rstore_image demo_rstore 2 1 rec"
      "slice_of 64 20 (rstore_image_of rec) = rstore_image demo_rstore 3 1 rec"
    using l by (simp_all add: rstore_image_of_def slice_of_def)
  assume "i < 3"
  then consider "i = 0" | "i = 1" | "i = 2" by linarith
  then show "rstore_slot demo_rstore (rstore_image_of rec) i = Some (rstore_sealed demo_rstore (of_nat i + 1) 1 rec, rec)"
    by cases (use s rstore_parse_image [of rec demo_rstore] assms in \<open>simp_all add: rstore_slot_def\<close>)
qed

text \<open>The same store on the port that never fails.\<close>

definition rstore_safe_port :: "flash_model flash_hal" where
  "rstore_safe_port = model_port 32 1 0xFF 0"

definition rstore_safe_platform :: "flash_model platform" where
  "rstore_safe_platform = model_platform rstore_safe_port"

interpretation rs_flash: flash_contract rstore_safe_platform rstore_safe_port fm_file
    "model_live 96 32 1 0xFF" 96 32 1
  unfolding rstore_safe_platform_def rstore_safe_port_def by (rule model_contract) simp_all

interpretation safe_rs: rstore_device rstore_safe_platform rstore_safe_port fm_file
    "model_live 96 32 1 0xFF" "\<lambda>_. False" 96 32 1 demo_rstore
proof (rule rstore_device.intro [OF rs_flash.mortal.mortal_flash_axioms], unfold_locales)
  show "fh_erased_value rstore_safe_port = 0xFF" by (simp add: rstore_safe_port_def)
  show "pf_wdt rstore_safe_platform \<noteq> None" by (simp add: rstore_safe_platform_def)
qed (auto simp: less_Suc_eq numeral_3_eq_3)

section \<open>Properties\<close>

text \<open>
  C2. A record write is atomic against power failures. Take a store all of whose slots hold \<open>old\<close>, with
  sequence numbers within a quarter of the ring, and a device that may die at any flash operation
  of \<open>boot_rstore_write\<close>, leaving the sector it was working on in any state that does not happen to
  form a different record with a matching checksum. After the reboot \<open>boot_rstore_read\<close> delivers the
  old or the new record and nothing else: the new one if the write reported success or at least two
  slots had been written, the old one if none had, or if exactly one had and no slot was torn.
\<close>

theorem rstore_write_crash_safe:
  assumes "rstore_device p fl mem live dead tot sec wa d" and "live s"
    and "length new = unat (rs_record_size d)"
    and "\<And>i. i < rs_slots d \<Longrightarrow> \<exists>h. rstore_slot d (mem s) i = Some (h, old)"
    and "ages b (map (rstore_slot d (mem s)) [0..<rs_slots d]) ks" and "\<And>k. k \<in> set ks \<Longrightarrow> k < 1073741824"
    and "rstore_newest (map (rstore_slot d (mem s)) [0..<rs_slots d]) 0 None = Some (i0, tp)"
    and "boot_rstore_write p d new s = (st, s1)"
    and "\<And>i. i < rs_slots d \<Longrightarrow> rstore_slot d (mem s1) i \<in>
        {None, rstore_slot d (mem s) i, fresh_slot d (tp + of_nat i + 1) new (rstore_slot d (mem s) i)}"
    and "live s2" and "mem s2 = mem s1" and "boot_rstore_read p d s2 = (st2, r, s3)" and "\<not> dead s3"
    and "N = {i. i < rs_slots d \<and> (\<exists>h. rstore_slot d (mem s1) i = Some (h, new))}"
  shows "st2 = BOOT_OK \<and> (r = Some old \<or> r = Some new) \<and> (st = BOOT_OK \<longrightarrow> r = Some new) \<and>
    (2 \<le> card N \<longrightarrow> r = Some new) \<and>
    (card N = 1 \<and> (\<forall>i < rs_slots d. rstore_slot d (mem s1) i \<noteq> None) \<or> card N = 0 \<longrightarrow> r = Some old)"
  by (rule rstore_device.write_then_read [OF assms])

lemma rstore_write_crash_safe_witness:
  "\<exists>s1 s3. boot_rstore_write rstore_safe_platform demo_rstore [5, 6, 7, 8] (rstore_state_of 0 [1, 2, 3, 4]) = (BOOT_OK, s1) \<and>
     boot_rstore_read rstore_safe_platform demo_rstore s1 = (BOOT_OK, Some [5, 6, 7, 8], s3)"
proof -
  let ?s = "rstore_state_of 0 [1, 2, 3, 4]" and ?old = "[1, 2, 3, 4 :: u8]" and ?new = "[5, 6, 7, 8 :: u8]"
  have im: "fm_file ?s = rstore_image_of ?old" by (simp add: rstore_state_of_def)
  have sl: "rstore_slot demo_rstore (fm_file ?s) i = Some (rstore_sealed demo_rstore (of_nat i + 1) 1 ?old, ?old)"
    if "i < 3" for i unfolding im using that by (intro rstore_image_slots) simp_all
  have l: "model_live 96 32 1 0xFF ?s"
    using rstore_image_slots(1) [of ?old] by (simp add: model_live_def rstore_state_of_def)
  have ag: "ages 1 (map (rstore_slot demo_rstore (fm_file ?s)) [0..<rs_slots demo_rstore]) [0, 1, 2]"
    using sl [of 0] sl [of 1] sl [of 2] unfolding three_slots by (simp add: ages_def [of _ "[]"])
  obtain i0 tp where nw: "rstore_newest (map (rstore_slot demo_rstore (fm_file ?s)) [0..<rs_slots demo_rstore]) 0 None = Some (i0, tp)"
    using newest_exists [of 0 "map (rstore_slot demo_rstore (fm_file ?s)) [0..<rs_slots demo_rstore]"] sl [of 0] by force
  obtain st s1 where w: "boot_rstore_write rstore_safe_platform demo_rstore ?new ?s = (st, s1)" by force
  have ok: "st = BOOT_OK" "model_live 96 32 1 0xFF s1" using safe_rs.write_status [OF l _ w] by auto
  obtain st2 r s3 where r: "boot_rstore_read rstore_safe_platform demo_rstore s1 = (st2, r, s3)" by (metis prod_cases3)
  have torn: "rstore_slot demo_rstore (fm_file s1) i \<in> {None, rstore_slot demo_rstore (fm_file ?s) i,
      fresh_slot demo_rstore (tp + of_nat i + 1) ?new (rstore_slot demo_rstore (fm_file ?s) i)}"
    if "i < rs_slots demo_rstore" for i
    using safe_rs.write_extent [OF l _ w nw] ok(1) that by auto
  have ln: "length ?new = unat (rs_record_size demo_rstore)" by simp
  have ol: "\<exists>h. rstore_slot demo_rstore (fm_file ?s) i = Some (h, ?old)" if "i < rs_slots demo_rstore" for i
    using sl [of i] that by simp
  have sm: "k < 1073741824" if "k \<in> set [0 :: nat, 1, 2]" for k using that by auto
  have "st2 = BOOT_OK \<and> r = Some ?new"
    using rstore_write_crash_safe [OF safe_rs.rstore_device_axioms l ln ol ag sm nw w torn ok(2) refl r _ refl] ok(1)
    by simp
  then show ?thesis using w r ok(1) by blast
qed

text \<open>
  C3. What a successful \<open>boot_rstore_write\<close> stored is what \<open>boot_rstore_read\<close> delivers after it, also
  after a reboot, whatever the slots held before, blank and damaged ones included.
\<close>

theorem rstore_write_read_roundtrip:
  assumes "rstore_device p fl mem live dead tot sec wa d" and "live s"
    and "length new = unat (rs_record_size d)" and "boot_rstore_write p d new s = (BOOT_OK, s1)"
    and "live s2" and "mem s2 = mem s1" and "boot_rstore_read p d s2 = (st2, r, s3)" and "\<not> dead s3"
  shows "st2 = BOOT_OK \<and> r = Some new"
  by (rule rstore_device.write_reads_back [OF assms])

lemma rstore_write_read_roundtrip_witness:
  "\<exists>s1 s3. boot_rstore_write rstore_safe_platform demo_rstore [5, 6, 7, 8] (rstore_state_of 0 [1, 2, 3, 4]) = (BOOT_OK, s1) \<and>
     boot_rstore_read rstore_safe_platform demo_rstore s1 = (BOOT_OK, Some [5, 6, 7, 8], s3)"
proof -
  let ?s = "rstore_state_of 0 [1, 2, 3, 4]"
  have l: "model_live 96 32 1 0xFF ?s"
    using rstore_image_slots(1) [of "[1, 2, 3, 4]"] by (simp add: model_live_def rstore_state_of_def)
  obtain st s1 where w: "boot_rstore_write rstore_safe_platform demo_rstore [5, 6, 7, 8] ?s = (st, s1)" by force
  have ok: "st = BOOT_OK" "model_live 96 32 1 0xFF s1" using safe_rs.write_status [OF l _ w] by auto
  obtain st2 r s3 where r: "boot_rstore_read rstore_safe_platform demo_rstore s1 = (st2, r, s3)" by (metis prod_cases3)
  show ?thesis
    using rstore_write_read_roundtrip [OF safe_rs.rstore_device_axioms l _ _ ok(2) refl r, of "[5, 6, 7, 8]"] w r ok(1)
    by auto
qed

text \<open>
  C40. With three slots, one new copy can win the vote alone: when the slot behind it was torn by the
  power failure, the remaining old copy has no partner and the newest record is trusted. The
  comment in \<open>boot_rstore_write\<close> says that after one slot the old state wins.
\<close>

theorem lone_new_copy_wins:
  assumes "is_newer_sequence (rh_sequence_id hn) (rh_sequence_id ho)"
  shows "rstore_newest [Some (hn, new), None, Some (ho, old)] 0 None = Some (0, rh_sequence_id hn) \<and>
    rstore_vote d [Some (hn, new), None, Some (ho, old)] 0 = new"
proof
  have ne: "rh_sequence_id hn \<noteq> rh_sequence_id ho" using assms newer_irrefl by metis
  have "\<not> is_newer_sequence (rh_sequence_id ho) (rh_sequence_id hn)" using assms newer_trichotomy [OF ne] by blast
  then show "rstore_newest [Some (hn, new), None, Some (ho, old)] 0 None = Some (0, rh_sequence_id hn)" by simp
  have "rstore_pair d [Some (hn, new), None, Some (ho, old)] 0 = None"
    by (simp add: rstore_pair_def agree_count_def)
  then show "rstore_vote d [Some (hn, new), None, Some (ho, old)] 0 = new"
    by (simp add: rstore_vote_def rec_of_def)
qed

lemma lone_new_copy_wins_witness:
  "rstore_vote demo_rstore [Some (rstore_sealed demo_rstore 4 1 [5], [5]), None,
     Some (rstore_sealed demo_rstore 3 1 [1], [1])] 0 = [5]"
  using lone_new_copy_wins [of "rstore_sealed demo_rstore 4 1 [5]" "rstore_sealed demo_rstore 3 1 [1]" "[5]" "[1]" demo_rstore]
  by (simp add: is_newer_unat)

end
