(* ===== verification/Toob_Os.thy ===== *)
theory Toob_Os
  imports Boot_Flash_Stream
begin

text \<open>
  What the OS-side library rests on (\<open>sdk/libtoob\<close>): its status type, the shields around status
  values, the constant-time comparison, and the flash and hash port the OS provides
  (\<open>toob_port.h\<close>), with the two implementations of the port in \<open>recovery/recovery_port.c\<close>: the
  host array and the delegation to the boot loader's HAL. \<open>os_flash\<close> states what the library
  relies on; the delegation is shown to give it on every driver that keeps \<open>mortal_flash\<close>.
\<close>

section \<open>Status values\<close>

datatype toob_status =
    TOOB_OK | TOOB_ERR_NOT_FOUND | TOOB_ERR_WAL_FULL | TOOB_ERR_WAL_LOCKED | TOOB_ERR_FLASH
  | TOOB_ERR_INVALID_ARG | TOOB_ERR_VERIFY | TOOB_ERR_REQUIRES_RESET | TOOB_ERR_COUNTER_EXHAUSTED
  | TOOB_ERR_FLASH_HW | TOOB_ERR_STATE | TOOB_ERR_TIMEOUT | TOOB_ERR_NOT_SUPPORTED

text \<open>
  The double check the library wraps around a status: two shield words are set when the condition
  reads true, and the code goes on when both are.
\<close>

definition toob_shield :: "bool \<Rightarrow> bool" where
  "toob_shield e =
     (let shield_1 = e; shield_2 = (shield_1 \<and> e)
      in \<not> (\<not> shield_1 \<or> \<not> shield_2 \<or> shield_1 \<noteq> shield_2))"

lemma toob_shield_iff [simp]: "toob_shield e \<longleftrightarrow> e"
  by (simp add: toob_shield_def)

text \<open>Forward and reverse accumulators over \<open>len\<close> byte positions.\<close>

fun toob_ct_loop :: "u8 list \<Rightarrow> u8 list \<Rightarrow> nat \<Rightarrow> nat list \<Rightarrow> u32 \<Rightarrow> u32 \<Rightarrow> u32 \<times> u32" where
  "toob_ct_loop a b len [] fwd bwd = (fwd, bwd)"
| "toob_ct_loop a b len (i # is) fwd bwd =
     toob_ct_loop a b len is (fwd OR ucast (a ! i XOR b ! i))
       (bwd OR ucast (a ! (len - 1 - i) XOR b ! (len - 1 - i)))"

definition toob_ct_memcmp_glitch_safe :: "u8 list \<Rightarrow> u8 list \<Rightarrow> nat \<Rightarrow> toob_status" where
  "toob_ct_memcmp_glitch_safe a b len =
     (if len = 0 then TOOB_ERR_VERIFY
      else case toob_ct_loop a b len [0..<len] 0 0 of (acc_fwd, acc_rev) \<Rightarrow>
        let shield_1 = (acc_fwd = 0); shield_2 = (shield_1 \<and> acc_rev = 0)
        in if shield_1 \<and> shield_2 \<and> shield_1 = shield_2 then TOOB_OK else TOOB_ERR_VERIFY)"

lemma toob_ct_loop_zero:
  "fst (toob_ct_loop a b len is f r) = 0 \<longleftrightarrow> f = 0 \<and> (\<forall>i \<in> set is. a ! i = b ! i)"
  "snd (toob_ct_loop a b len is f r) = 0 \<longleftrightarrow>
     r = 0 \<and> (\<forall>i \<in> set is. a ! (len - 1 - i) = b ! (len - 1 - i))"
  by (induction "is" arbitrary: f r) (auto simp: word_or_eq_0 ucast_u8_eq_0 word_xor_eq_0)

lemma toob_memcmp_iff:
  assumes "len \<le> length a" and "len \<le> length b"
  shows "toob_ct_memcmp_glitch_safe a b len = TOOB_OK \<longleftrightarrow> 0 < len \<and> take len a = take len b"
proof -
  obtain f r where fr: "toob_ct_loop a b len [0..<len] 0 0 = (f, r)" by fastforce
  have "f = 0 \<longleftrightarrow> (\<forall>i < len. a ! i = b ! i)" "(\<forall>i < len. a ! i = b ! i) \<Longrightarrow> r = 0"
    using toob_ct_loop_zero [of a b len "[0..<len]" 0 0] fr by auto
  moreover have "(\<forall>i < len. a ! i = b ! i) \<longleftrightarrow> take len a = take len b"
    using assms by (auto simp: list_eq_iff_nth_eq)
  ultimately show ?thesis
    using fr by (auto simp: toob_ct_memcmp_glitch_safe_def)
qed

section \<open>The port\<close>

text \<open>
  \<open>None\<close> in an erase is a call that does not return. The hash context is the opaque buffer the
  caller owns.
\<close>

record 's os_port =
  op_read :: "u32 \<Rightarrow> u32 \<Rightarrow> 's \<Rightarrow> toob_status \<times> u8 list \<times> 's"
  op_write :: "u32 \<Rightarrow> u8 list \<Rightarrow> 's \<Rightarrow> toob_status \<times> 's"
  op_erase :: "u32 \<Rightarrow> u32 \<Rightarrow> 's \<Rightarrow> (toob_status \<times> 's) option"
  op_sha256_init :: "u8 list \<Rightarrow> 's \<Rightarrow> toob_status \<times> u8 list \<times> 's"
  op_sha256_update :: "u8 list \<Rightarrow> u8 list \<Rightarrow> 's \<Rightarrow> toob_status \<times> u8 list \<times> 's"
  op_sha256_finalize :: "u8 list \<Rightarrow> 's \<Rightarrow> toob_status \<times> u8 list \<times> 's"

subsection \<open>The host array\<close>

definition host_in_range :: "u32 \<Rightarrow> nat \<Rightarrow> u8 list \<Rightarrow> bool" where
  "host_in_range addr len m \<longleftrightarrow> \<not> (unat addr > length m \<or> len > length m - unat addr)"

definition host_flash_read :: "u32 \<Rightarrow> u32 \<Rightarrow> u8 list \<Rightarrow> toob_status \<times> u8 list \<times> u8 list" where
  "host_flash_read addr len m =
     (if \<not> host_in_range addr (unat len) m then (TOOB_ERR_FLASH, [], m)
      else (TOOB_OK, slice_of (unat addr) (unat len) m, m))"

definition host_flash_write :: "u32 \<Rightarrow> u8 list \<Rightarrow> u8 list \<Rightarrow> toob_status \<times> u8 list" where
  "host_flash_write addr buf m =
     (if \<not> host_in_range addr (length buf) m then (TOOB_ERR_FLASH, m)
      else (TOOB_OK, patch (unat addr) (map2 (AND) (slice_of (unat addr) (length buf) m) buf) m))"

definition host_flash_erase :: "u32 \<Rightarrow> u32 \<Rightarrow> u8 list \<Rightarrow> (toob_status \<times> u8 list) option" where
  "host_flash_erase addr len m =
     Some (if \<not> host_in_range addr (unat len) m then (TOOB_ERR_FLASH, m)
           else (TOOB_OK, patch (unat addr) (replicate (unat len) 0xFF) m))"

definition host_port :: "u8 list os_port" where
  "host_port = \<lparr> op_read = host_flash_read, op_write = host_flash_write, op_erase = host_flash_erase,
     op_sha256_init = (\<lambda>ctx m. (TOOB_OK, ctx, m)), op_sha256_update = (\<lambda>ctx d m. (TOOB_OK, ctx, m)),
     op_sha256_finalize = (\<lambda>ctx m. (TOOB_OK, zeroed 32, m)) \<rparr>"

subsection \<open>The delegation to the HAL\<close>

definition hal_flash_read :: "'s platform option \<Rightarrow> u32 \<Rightarrow> u32 \<Rightarrow> 's \<Rightarrow> toob_status \<times> u8 list \<times> 's" where
  "hal_flash_read g addr len s =
     (case Option.bind g pf_flash of
        None \<Rightarrow> (TOOB_ERR_NOT_SUPPORTED, [], s)
      | Some fl \<Rightarrow> (case fh_read fl addr (unat len) s of (st, d, s) \<Rightarrow>
          (if st = BOOT_OK then TOOB_OK else TOOB_ERR_FLASH, d, s)))"

definition hal_flash_write :: "'s platform option \<Rightarrow> u32 \<Rightarrow> u8 list \<Rightarrow> 's \<Rightarrow> toob_status \<times> 's" where
  "hal_flash_write g addr buf s =
     (case Option.bind g pf_flash of
        None \<Rightarrow> (TOOB_ERR_NOT_SUPPORTED, s)
      | Some fl \<Rightarrow> (case fh_write fl addr buf s of (st, s) \<Rightarrow>
          (if st = BOOT_OK then TOOB_OK else TOOB_ERR_FLASH, s)))"

text \<open>The offset is a 32-bit counter; with sectors that do not divide its range the loop can go on for ever.\<close>

partial_function (option) hal_erase_loop ::
  "'s flash_hal \<Rightarrow> u32 \<Rightarrow> u32 \<Rightarrow> u32 \<Rightarrow> 's \<Rightarrow> (toob_status \<times> 's) option" where
  "hal_erase_loop fl addr len offset s =
     (if offset < len then
        let n = snd (fh_get_sector_size fl (addr + offset) s);
            sector_size = (if n = 0 then 4096 else n)
        in case fh_erase_sector fl (addr + offset) s of (st, s) \<Rightarrow>
             if st \<noteq> BOOT_OK then Some (TOOB_ERR_FLASH, s)
             else hal_erase_loop fl addr len (offset + of_nat sector_size) s
      else Some (TOOB_OK, s))"

definition hal_flash_erase :: "'s platform option \<Rightarrow> u32 \<Rightarrow> u32 \<Rightarrow> 's \<Rightarrow> (toob_status \<times> 's) option" where
  "hal_flash_erase g addr len s =
     (case Option.bind g pf_flash of
        None \<Rightarrow> Some (TOOB_ERR_NOT_SUPPORTED, s)
      | Some fl \<Rightarrow> hal_erase_loop fl addr len 0 s)"

definition hal_sha256_init :: "'s platform option \<Rightarrow> u8 list \<Rightarrow> 's \<Rightarrow> toob_status \<times> u8 list \<times> 's" where
  "hal_sha256_init g ctx s =
     (case Option.bind g pf_crypto of
        None \<Rightarrow> (TOOB_ERR_NOT_SUPPORTED, ctx, s)
      | Some c \<Rightarrow> (case ch_hash_init c ctx s of (st, ctx, s) \<Rightarrow>
          (if st = BOOT_OK then TOOB_OK else TOOB_ERR_NOT_SUPPORTED, ctx, s)))"

definition hal_sha256_update ::
  "'s platform option \<Rightarrow> u8 list \<Rightarrow> u8 list \<Rightarrow> 's \<Rightarrow> toob_status \<times> u8 list \<times> 's" where
  "hal_sha256_update g ctx data s =
     (case Option.bind g pf_crypto of
        None \<Rightarrow> (TOOB_ERR_NOT_SUPPORTED, ctx, s)
      | Some c \<Rightarrow> (case ch_hash_update c ctx data s of (st, ctx, s) \<Rightarrow>
          (if st = BOOT_OK then TOOB_OK else TOOB_ERR_NOT_SUPPORTED, ctx, s)))"

definition hal_sha256_finalize ::
  "'s platform option \<Rightarrow> u8 list \<Rightarrow> 's \<Rightarrow> toob_status \<times> u8 list \<times> 's" where
  "hal_sha256_finalize g ctx s =
     (case Option.bind g pf_crypto of
        None \<Rightarrow> (TOOB_ERR_NOT_SUPPORTED, [], s)
      | Some c \<Rightarrow> (case ch_hash_finish c ctx 32 s of (st, d, n, s) \<Rightarrow>
          (if st = BOOT_OK then TOOB_OK else TOOB_ERR_NOT_SUPPORTED, d, s)))"

definition hal_port :: "'s platform option \<Rightarrow> 's os_port" where
  "hal_port g = \<lparr> op_read = hal_flash_read g, op_write = hal_flash_write g, op_erase = hal_flash_erase g,
     op_sha256_init = hal_sha256_init g, op_sha256_update = hal_sha256_update g,
     op_sha256_finalize = hal_sha256_finalize g \<rparr>"

section \<open>What the library relies on\<close>

text \<open>
  The port counterpart of \<open>mortal_flash\<close>: a call does its work and reports success, or the device
  dies in it and what a write or an erase leaves is arbitrary inside its target range.
\<close>

locale os_flash =
  fixes port :: "'s os_port" and mem :: "'s \<Rightarrow> u8 list"
    and live :: "'s \<Rightarrow> bool" and dead :: "'s \<Rightarrow> bool" and total :: nat and sec :: nat and walign :: nat
  assumes sec_pos: "0 < sec"
    and total_addr: "total < 4294967296"
    and mem_len: "live s \<Longrightarrow> length (mem s) = total"
    and read_fate: "live s \<Longrightarrow> unat a + unat n \<le> total \<Longrightarrow>
       (\<exists>s'. op_read port a n s = (TOOB_OK, slice_of (unat a) (unat n) (mem s), s') \<and>
            mem s' = mem s \<and> live s') \<or>
       (\<exists>st d s'. op_read port a n s = (st, d, s') \<and> st \<noteq> TOOB_OK \<and> mem s' = mem s \<and> dead s')"
    and write_fate: "live s \<Longrightarrow> unat a + length d \<le> total \<Longrightarrow> unat a mod walign = 0 \<Longrightarrow>
       length d mod walign = 0 \<Longrightarrow> programmable (slice_of (unat a) (length d) (mem s)) d \<Longrightarrow>
       (\<exists>s'. op_write port a d s = (TOOB_OK, s') \<and> mem s' = patch (unat a) d (mem s) \<and> live s') \<or>
       (\<exists>st s'. op_write port a d s = (st, s') \<and> st \<noteq> TOOB_OK \<and>
          touches (unat a) (length d) (mem s) (mem s') \<and> dead s')"
    and erase_fate: "live s \<Longrightarrow> unat a mod sec = 0 \<Longrightarrow> unat n mod sec = 0 \<Longrightarrow> unat a + unat n \<le> total \<Longrightarrow>
       \<exists>st s'. op_erase port a n s = Some (st, s') \<and> touches (unat a) (unat n) (mem s) (mem s') \<and>
         (st = TOOB_OK \<and> live s' \<and> mem s' = patch (unat a) (replicate (unat n) 0xFF) (mem s) \<or>
          st \<noteq> TOOB_OK \<and> dead s')"
    and dead_read: "dead s \<Longrightarrow>
       \<exists>st d s'. op_read port a n s = (st, d, s') \<and> st \<noteq> TOOB_OK \<and> mem s' = mem s \<and> dead s'"
    and dead_write: "dead s \<Longrightarrow>
       \<exists>st s'. op_write port a d s = (st, s') \<and> st \<noteq> TOOB_OK \<and> mem s' = mem s \<and> dead s'"
    and dead_erase: "dead s \<Longrightarrow> n \<noteq> 0 \<Longrightarrow>
       \<exists>st s'. op_erase port a n s = Some (st, s') \<and> st \<noteq> TOOB_OK \<and> mem s' = mem s \<and> dead s'"

text \<open>The delegation keeps the contract: an erase walks the sectors.\<close>

context mortal_flash
begin

lemma hal_erase_loop_fate:
  assumes "live s" and "unat a mod sec = 0" and "unat n mod sec = 0" and "unat a + unat n \<le> total"
    and "unat off = unat n - k * sec" and "k * sec \<le> unat n" and "fh_erased_value fl = 0xFF"
  shows "\<exists>st s'. hal_erase_loop fl a n off s = Some (st, s') \<and>
      touches (unat a + unat off) (k * sec) (mem s) (mem s') \<and>
      (st = TOOB_OK \<and> live s' \<and> mem s' = patch (unat a + unat off) (replicate (k * sec) 0xFF) (mem s) \<or>
       st \<noteq> TOOB_OK \<and> dead s')"
  using assms(1,5,6)
proof (induction k arbitrary: off s)
  case 0
  then have "\<not> off < n" by (simp add: word_less_unat)
  then show ?case using 0 by (subst hal_erase_loop.simps) simp
next
  case (Suc k)
  have lt: "off < n" using Suc.prems(2,3) sec_pos by (simp add: word_less_unat)
  have o: "unat off + sec + k * sec = unat n" using Suc.prems(2,3) by simp
  have a1: "unat (a + off) = unat a + unat off"
    using assms(4) o total_addr by (subst unat_add_no_wrap) simp_all
  have "sec dvd unat off"
    using assms(3) o sec_pos by (metis dvd_add_left_iff dvd_triv_right mod_0_imp_dvd add.assoc dvd_refl dvd_add)
  then have al: "unat (a + off) mod sec = 0" using assms(2) a1 by (simp add: mod_0_imp_dvd)
  have lt2: "unat (a + off) < total" using a1 assms(4) o sec_pos by simp
  have o1: "unat (off + of_nat sec) = unat off + sec"
    using o by (intro flash_addr) (use unat_u32_lt [of n] in linarith)
  have ss: "fh_get_sector_size fl (a + off) s = (BOOT_OK, sec)" by (rule sector_size_law [OF Suc.prems(1) lt2])
  have ml: "length (mem s) = total" using Suc.prems(1) by (rule mem_len)
  note unfold = hal_erase_loop.simps [of fl a n off s]
  from erase_fate [OF Suc.prems(1) lt2 al]
  show ?case
  proof
    assume "\<exists>s'. fh_erase_sector fl (a + off) s = (BOOT_OK, s') \<and>
        mem s' = patch (unat (a + off)) (replicate sec (fh_erased_value fl)) (mem s) \<and> live s'"
    then obtain s1 where e: "fh_erase_sector fl (a + off) s = (BOOT_OK, s1)" "live s1"
        and m1: "mem s1 = patch (unat a + unat off) (replicate sec 0xFF) (mem s)"
      using a1 assms(7) by auto
    have rem: "unat (off + of_nat sec) = unat n - k * sec" and le: "k * sec \<le> unat n" using o o1 by simp_all
    obtain st s' where r: "hal_erase_loop fl a n (off + of_nat sec) s1 = Some (st, s')"
        and t: "touches (unat a + unat off + sec) (k * sec) (mem s1) (mem s')"
        and f: "st = TOOB_OK \<and> live s' \<and> mem s' = patch (unat a + unat off + sec) (replicate (k * sec) 0xFF) (mem s1) \<or>
          st \<noteq> TOOB_OK \<and> dead s'"
      using Suc.IH [OF e(2) rem le] unfolding o1 by (auto simp: add.assoc)
    have t1: "touches (unat a + unat off) (Suc k * sec) (mem s) (mem s1)"
      unfolding m1 using touches_mono [OF touches_patch [of "unat a + unat off" "replicate sec 0xFF" "mem s"],
          of "unat a + unat off" "Suc k * sec"] ml assms(4) o by simp
    have t2: "touches (unat a + unat off) (Suc k * sec) (mem s1) (mem s')"
      by (rule touches_mono [OF t]) simp_all
    have pp: "patch (unat a + unat off + sec) (replicate (k * sec) 0xFF) (mem s1) =
        patch (unat a + unat off) (replicate (Suc k * sec) 0xFF) (mem s)"
      unfolding m1 using patch_patch_next [of "unat a + unat off" "replicate sec 0xFF" "replicate (k * sec) 0xFF" "mem s"]
        ml assms(4) o by (simp add: replicate_add)
    have "hal_erase_loop fl a n off s = Some (st, s')"
      unfolding unfold using lt ss e(1) r sec_pos by simp
    then show ?thesis using touches_trans [OF t1 t2] f pp by auto
  next
    assume "\<exists>st s'. fh_erase_sector fl (a + off) s = (st, s') \<and> st \<noteq> BOOT_OK \<and>
        touches (unat (a + off)) sec (mem s) (mem s') \<and> dead s'"
    then obtain st s1 where e: "fh_erase_sector fl (a + off) s = (st, s1)" "st \<noteq> BOOT_OK" "dead s1"
        and t: "touches (unat a + unat off) sec (mem s) (mem s1)"
      using a1 by auto
    have "hal_erase_loop fl a n off s = Some (TOOB_ERR_FLASH, s1)"
      unfolding unfold using lt ss e(1,2) by simp
    moreover have "touches (unat a + unat off) (Suc k * sec) (mem s) (mem s1)"
      by (rule touches_mono [OF t]) simp_all
    ultimately show ?thesis using e(3) by simp
  qed
qed

end

text \<open>Every HAL that keeps the flash contract gives a port that does, for the erased value \<open>0xFF\<close>.\<close>

lemma hal_port_contract:
  assumes "mortal_flash p fl mem live dead tot sec wa" and "fh_erased_value fl = 0xFF"
  shows "os_flash (hal_port (Some p)) mem live dead tot sec wa"
proof -
  note m = assms(1)
  have fp: "pf_flash p = Some fl" by (rule mortal_flash.flash_ptr [OF m])
  show ?thesis
  proof
    show "0 < sec" by (rule mortal_flash.sec_pos [OF m])
    show "tot < 4294967296" by (rule mortal_flash.total_addr [OF m])
    show "length (mem s) = tot" if "live s" for s by (rule mortal_flash.mem_len [OF m that])
    show "(\<exists>s'. op_read (hal_port (Some p)) a n s = (TOOB_OK, slice_of (unat a) (unat n) (mem s), s') \<and>
            mem s' = mem s \<and> live s') \<or>
       (\<exists>st d s'. op_read (hal_port (Some p)) a n s = (st, d, s') \<and> st \<noteq> TOOB_OK \<and> mem s' = mem s \<and> dead s')"
      if "live s" "unat a + unat n \<le> tot" for s a n
      using mortal_flash.read_fate [OF m that] fp by (auto simp: hal_port_def hal_flash_read_def)
    show "(\<exists>s'. op_write (hal_port (Some p)) a d s = (TOOB_OK, s') \<and> mem s' = patch (unat a) d (mem s) \<and> live s') \<or>
       (\<exists>st s'. op_write (hal_port (Some p)) a d s = (st, s') \<and> st \<noteq> TOOB_OK \<and>
          touches (unat a) (length d) (mem s) (mem s') \<and> dead s')"
      if "live s" "unat a + length d \<le> tot" "unat a mod wa = 0" "length d mod wa = 0"
        "programmable (slice_of (unat a) (length d) (mem s)) d" for s a d
      using mortal_flash.write_fate [OF m that] fp by (auto simp: hal_port_def hal_flash_write_def)
    show "\<exists>st s'. op_erase (hal_port (Some p)) a n s = Some (st, s') \<and> touches (unat a) (unat n) (mem s) (mem s') \<and>
         (st = TOOB_OK \<and> live s' \<and> mem s' = patch (unat a) (replicate (unat n) 0xFF) (mem s) \<or>
          st \<noteq> TOOB_OK \<and> dead s')"
      if "live s" "unat a mod sec = 0" "unat n mod sec = 0" "unat a + unat n \<le> tot" for s a n
      using mortal_flash.hal_erase_loop_fate [OF m that, of 0 "unat n div sec"] that(3) fp assms(2)
      by (simp add: hal_port_def hal_flash_erase_def mod_0_imp_dvd)
    show "\<exists>st d s'. op_read (hal_port (Some p)) a n s = (st, d, s') \<and> st \<noteq> TOOB_OK \<and> mem s' = mem s \<and> dead s'"
      if "dead s" for s a n
      using mortal_flash.dead_read [OF m that, of a "unat n"] fp by (auto simp: hal_port_def hal_flash_read_def)
    show "\<exists>st s'. op_write (hal_port (Some p)) a d s = (st, s') \<and> st \<noteq> TOOB_OK \<and> mem s' = mem s \<and> dead s'"
      if "dead s" for s a d
      using mortal_flash.dead_write [OF m that, of a d] fp by (auto simp: hal_port_def hal_flash_write_def)
    show "\<exists>st s'. op_erase (hal_port (Some p)) a n s = Some (st, s') \<and> st \<noteq> TOOB_OK \<and> mem s' = mem s \<and> dead s'"
      if "dead s" "n \<noteq> 0" for s a n
    proof -
      have "0 < n" using that(2) by (simp add: word_greater_zero_iff)
      then show ?thesis
        using mortal_flash.dead_erase [OF m that(1), of a] fp
        by (auto simp: hal_port_def hal_flash_erase_def hal_erase_loop.simps [of fl a n 0 s] Let_def)
    qed
  qed
qed

end
