(* ===== verification/Toob_Mailbox.thy ===== *)
theory Toob_Mailbox
  imports Toob_Os Boot_Config "HOL-Library.Monad_Syntax"
begin

text \<open>
  The mailbox between the OS and the boot core: the record format of \<open>toob_mailbox_wire.h\<close>, and the
  OS-side writer \<open>sdk/libtoob/toob_mailbox.c\<close>. Two erase sectors hold one record each; the writer
  replaces the stale one. The reader is in \<open>Boot_Mailbox\<close>.
\<close>

section \<open>Wire format\<close>

definition TOOB_MAILBOX_MAGIC :: u32 where "TOOB_MAILBOX_MAGIC = 0x58424D54"
definition TOOB_MAILBOX_VERSION :: u16 where "TOOB_MAILBOX_VERSION = 1"

datatype toob_req = TOOB_REQ_NONE | TOOB_REQ_UPDATE_PENDING | TOOB_REQ_CONFIRM | TOOB_REQ_RECOVERY_RESOLVED

fun toob_req_code :: "toob_req \<Rightarrow> u16" where
  "toob_req_code TOOB_REQ_NONE = 0"
| "toob_req_code TOOB_REQ_UPDATE_PENDING = 1"
| "toob_req_code TOOB_REQ_CONFIRM = 2"
| "toob_req_code TOOB_REQ_RECOVERY_RESOLVED = 3"

record toob_mailbox =
  mb_magic :: u32
  mb_version :: u16
  mb_request :: u16
  mb_seq :: u32
  mb_tbm1_addr :: u32
  mb_nonce :: u64
  mb_crc32 :: u32
  mb_reserved :: u32

text \<open>The checksummed prefix and the whole record.\<close>

definition mailbox_body :: "toob_mailbox \<Rightarrow> u8 list" where
  "mailbox_body m = to_le32 (mb_magic m) @ to_le16 (mb_version m) @ to_le16 (mb_request m) @
     to_le32 (mb_seq m) @ to_le32 (mb_tbm1_addr m) @ to_le64 (mb_nonce m)"

definition mailbox_bytes :: "toob_mailbox \<Rightarrow> u8 list" where
  "mailbox_bytes m = mailbox_body m @ to_le32 (mb_crc32 m) @ to_le32 (mb_reserved m)"

definition mailbox_of :: "u8 list \<Rightarrow> toob_mailbox" where
  "mailbox_of b = \<lparr> mb_magic = rd32 0 b, mb_version = rd16 4 b, mb_request = rd16 6 b, mb_seq = rd32 8 b,
     mb_tbm1_addr = rd32 12 b, mb_nonce = rd64 16 b, mb_crc32 = rd32 24 b, mb_reserved = rd32 28 b \<rparr>"

lemma length_mailbox [simp]: "length (mailbox_body m) = 24" "length (mailbox_bytes m) = 32"
  by (simp_all add: mailbox_body_def mailbox_bytes_def)

lemma rd64_append: "length pre = off \<Longrightarrow> rd64 off (pre @ to_le64 w @ r) = w"
  using rd64_here [of w r] by (simp add: rd64_def rd32_def)

lemma mailbox_of_bytes: "mailbox_of (mailbox_bytes m) = m"
proof -
  let ?b = "mailbox_bytes m"
  have b: "?b = to_le32 (mb_magic m) @ to_le16 (mb_version m) @ to_le16 (mb_request m) @ to_le32 (mb_seq m) @
      to_le32 (mb_tbm1_addr m) @ to_le64 (mb_nonce m) @ to_le32 (mb_crc32 m) @ to_le32 (mb_reserved m) @ []"
    by (simp add: mailbox_bytes_def mailbox_body_def)
  have "rd32 0 ?b = mb_magic m" unfolding b using rd32_append [of "[]" 0] by simp
  moreover have "rd16 4 ?b = mb_version m" unfolding b by (rule rd16_append) simp
  moreover have "rd16 6 ?b = mb_request m"
    unfolding b using rd16_append [of "to_le32 (mb_magic m) @ to_le16 (mb_version m)" 6] by simp
  moreover have "rd32 8 ?b = mb_seq m"
    unfolding b using rd32_append [of "to_le32 (mb_magic m) @ to_le16 (mb_version m) @ to_le16 (mb_request m)" 8] by simp
  moreover have "rd32 12 ?b = mb_tbm1_addr m"
    unfolding b using rd32_append [of "to_le32 (mb_magic m) @ to_le16 (mb_version m) @ to_le16 (mb_request m) @
      to_le32 (mb_seq m)" 12] by simp
  moreover have "rd64 16 ?b = mb_nonce m"
    unfolding b using rd64_append [of "to_le32 (mb_magic m) @ to_le16 (mb_version m) @ to_le16 (mb_request m) @
      to_le32 (mb_seq m) @ to_le32 (mb_tbm1_addr m)" 16] by simp
  moreover have "rd32 24 ?b = mb_crc32 m"
    unfolding b using rd32_append [of "to_le32 (mb_magic m) @ to_le16 (mb_version m) @ to_le16 (mb_request m) @
      to_le32 (mb_seq m) @ to_le32 (mb_tbm1_addr m) @ to_le64 (mb_nonce m)" 24] by simp
  moreover have "rd32 28 ?b = mb_reserved m"
    unfolding b using rd32_append [of "to_le32 (mb_magic m) @ to_le16 (mb_version m) @ to_le16 (mb_request m) @
      to_le32 (mb_seq m) @ to_le32 (mb_tbm1_addr m) @ to_le64 (mb_nonce m) @ to_le32 (mb_crc32 m)" 28 "mb_reserved m" "[]"] by simp
  ultimately show ?thesis by (simp add: mailbox_of_def)
qed

text \<open>What both sides accept in a slot: magic and checksum; the version is not looked at.\<close>

definition mailbox_parse :: "u8 list \<Rightarrow> toob_mailbox option" where
  "mailbox_parse b =
     (let m = mailbox_of b
      in if mb_magic m \<noteq> TOOB_MAILBOX_MAGIC then None
         else if toob_lib_crc32 (take 24 b) = mb_crc32 m then Some m else None)"

definition mbx_slot_addr :: "chip_config \<Rightarrow> u32 \<Rightarrow> u32" where
  "mbx_slot_addr cc i = cc_mailbox_addr cc + i * cc_mailbox_slot_size cc"

section \<open>The writer\<close>

definition slot_read_valid ::
  "chip_config \<Rightarrow> 's os_port \<Rightarrow> u32 \<Rightarrow> 's \<Rightarrow> toob_mailbox option \<times> 's" where
  "slot_read_valid cc port i s =
     (case op_read port (mbx_slot_addr cc i) 32 s of (st, d, s) \<Rightarrow>
        (if st \<noteq> TOOB_OK then None else mailbox_parse (fill_prefix d (zeroed 32)), s))"

text \<open>The scan: highest sequence number seen, and the slot with the lowest (an invalid one counts 0).\<close>

fun mailbox_scan ::
  "chip_config \<Rightarrow> 's os_port \<Rightarrow> u32 list \<Rightarrow> u32 \<Rightarrow> u32 \<Rightarrow> u32 \<Rightarrow> 's \<Rightarrow> u32 \<times> u32 \<times> 's" where
  "mailbox_scan cc port [] best_seq target target_seq s = (best_seq, target, s)"
| "mailbox_scan cc port (i # is) best_seq target target_seq s =
     (case slot_read_valid cc port i s of (rec, s) \<Rightarrow>
        let seq = (case rec of None \<Rightarrow> 0 | Some m \<Rightarrow> mb_seq m);
            best_seq = (if rec \<noteq> None \<and> seq > best_seq then seq else best_seq)
        in if seq < target_seq then mailbox_scan cc port is best_seq i seq s
           else mailbox_scan cc port is best_seq target target_seq s)"

definition mailbox_record :: "toob_req \<Rightarrow> u32 \<Rightarrow> u32 \<Rightarrow> u64 \<Rightarrow> toob_mailbox" where
  "mailbox_record req seq tbm1_addr nonce =
     (let m = \<lparr> mb_magic = TOOB_MAILBOX_MAGIC, mb_version = TOOB_MAILBOX_VERSION,
                mb_request = toob_req_code req, mb_seq = seq, mb_tbm1_addr = tbm1_addr, mb_nonce = nonce,
                mb_crc32 = 0, mb_reserved = 0 \<rparr>
      in m\<lparr>mb_crc32 := toob_lib_crc32 (mailbox_body m)\<rparr>)"

definition mailbox_put ::
  "chip_config \<Rightarrow> 's os_port \<Rightarrow> toob_req \<Rightarrow> u32 \<Rightarrow> u64 \<Rightarrow> 's \<Rightarrow> (toob_status \<times> 's) option" where
  "mailbox_put cc port req tbm1_addr nonce s =
     (case mailbox_scan cc port [0, 1] 0 0 0xFFFFFFFF s of (best_seq, target, s) \<Rightarrow>
        let m = mailbox_bytes (mailbox_record req (best_seq + 1) tbm1_addr nonce);
            addr = mbx_slot_addr cc target
        in do {
          (st, s) \<leftarrow> op_erase port addr (cc_mailbox_slot_size cc) s;
          if st \<noteq> TOOB_OK then Some (st, s)
          else case op_write port addr m s of (st, s) \<Rightarrow>
            if st \<noteq> TOOB_OK then Some (st, s)
            else case op_read port addr 32 s of (st, d, s) \<Rightarrow>
              Some (if st \<noteq> TOOB_OK \<or> toob_ct_memcmp_glitch_safe m (fill_prefix d (zeroed 32)) 32 \<noteq> TOOB_OK
                    then TOOB_ERR_FLASH_HW else TOOB_OK, s)
        })"

definition toob_mailbox_set_update :: "chip_config \<Rightarrow> 's os_port \<Rightarrow> u32 \<Rightarrow> 's \<Rightarrow> (toob_status \<times> 's) option" where
  "toob_mailbox_set_update cc port addr s = mailbox_put cc port TOOB_REQ_UPDATE_PENDING addr 0 s"

definition toob_mailbox_set_confirm :: "chip_config \<Rightarrow> 's os_port \<Rightarrow> u64 \<Rightarrow> 's \<Rightarrow> (toob_status \<times> 's) option" where
  "toob_mailbox_set_confirm cc port nonce s = mailbox_put cc port TOOB_REQ_CONFIRM 0 nonce s"

definition toob_mailbox_set_recovery_resolved :: "chip_config \<Rightarrow> 's os_port \<Rightarrow> 's \<Rightarrow> (toob_status \<times> 's) option" where
  "toob_mailbox_set_recovery_resolved cc port s = mailbox_put cc port TOOB_REQ_RECOVERY_RESOLVED 0 0 s"

text \<open>
  \<open>toob_set_next_update\<close> (\<open>toob_update.c\<close>); \<open>walign\<close> is \<open>CHIP_FLASH_WRITE_ALIGNMENT\<close>.
\<close>

definition toob_set_next_update ::
  "chip_config \<Rightarrow> u32 \<Rightarrow> 's os_port \<Rightarrow> u32 \<Rightarrow> 's \<Rightarrow> (toob_status \<times> 's) option" where
  "toob_set_next_update cc walign port addr s =
     (if addr = 0xFFFFFFFF \<or> addr mod walign \<noteq> 0 then Some (TOOB_ERR_INVALID_ARG, s)
      else toob_mailbox_set_update cc port addr s)"

section \<open>The mailbox as a value\<close>

text \<open>What the two slots hold, and the record a reader takes.\<close>

definition mailbox_slot :: "chip_config \<Rightarrow> u8 list \<Rightarrow> u32 \<Rightarrow> toob_mailbox option" where
  "mailbox_slot cc m i = mailbox_parse (slice_of (unat (mbx_slot_addr cc i)) 32 m)"

definition newer_record :: "toob_mailbox option \<Rightarrow> toob_mailbox option \<Rightarrow> toob_mailbox option" where
  "newer_record a b =
     (case b of None \<Rightarrow> a
      | Some y \<Rightarrow> (case a of None \<Rightarrow> b | Some x \<Rightarrow> if mb_seq y > mb_seq x then b else a))"

definition mailbox_best :: "chip_config \<Rightarrow> u8 list \<Rightarrow> toob_mailbox option" where
  "mailbox_best cc m = newer_record (mailbox_slot cc m 0) (mailbox_slot cc m 1)"

definition record_seq :: "toob_mailbox option \<Rightarrow> u32" where
  "record_seq r = (case r of None \<Rightarrow> 0 | Some m \<Rightarrow> mb_seq m)"

text \<open>What the writer keeps: no record has number 0, and two valid ones have different numbers.\<close>

definition mailbox_wf :: "chip_config \<Rightarrow> u8 list \<Rightarrow> bool" where
  "mailbox_wf cc m \<longleftrightarrow>
     (\<forall>i \<in> {0, 1}. mailbox_slot cc m i \<noteq> None \<longrightarrow> record_seq (mailbox_slot cc m i) \<noteq> 0) \<and>
     (mailbox_slot cc m 0 \<noteq> None \<and> mailbox_slot cc m 1 \<noteq> None \<longrightarrow>
        record_seq (mailbox_slot cc m 0) \<noteq> record_seq (mailbox_slot cc m 1))"

lemma mailbox_parse_record: "mailbox_parse (mailbox_bytes (mailbox_record req q a n)) = Some (mailbox_record req q a n)"
proof -
  let ?m = "mailbox_record req q a n"
  have "toob_lib_crc32 (mailbox_body ?m) = mb_crc32 ?m" "mb_magic ?m = TOOB_MAILBOX_MAGIC"
    by (simp_all add: mailbox_record_def mailbox_body_def Let_def)
  moreover have "take 24 (mailbox_bytes ?m) = mailbox_body ?m" by (simp add: mailbox_bytes_def)
  ultimately show ?thesis by (simp add: mailbox_parse_def mailbox_of_bytes)
qed

lemma record_seq_simps [simp]: "mb_seq (mailbox_record req q a n) = q" "record_seq (Some m) = mb_seq m" "record_seq None = 0"
  by (simp_all add: mailbox_record_def record_seq_def)

end
