(* ===== verification/Mailbox_Crash.thy ===== *)
theory Mailbox_Crash
  imports Toob_Mailbox
begin

text \<open>
  The mailbox against power failures: what a put leaves at every point of a device that may die in
  any port call, and the histories of puts and reboots that follow from it.
\<close>

text \<open>Replacing the slot that is not the best one.\<close>

lemma newer_replace:
  assumes "c \<in> {None, a, Some n}"
  shows "newer_record a b = b \<Longrightarrow> record_seq b < mb_seq n \<Longrightarrow>
      newer_record c b \<in> {b, Some n} \<and> (c = Some n \<longrightarrow> newer_record c b = Some n)"
    and "newer_record b a = b \<Longrightarrow> record_seq b < mb_seq n \<Longrightarrow>
      newer_record b c \<in> {b, Some n} \<and> (c = Some n \<longrightarrow> newer_record b c = Some n)"
  using assms by (auto simp: newer_record_def record_seq_def split: option.splits if_splits)

lemma seq_le_newer:
  "record_seq a \<le> record_seq (newer_record a b)" "record_seq b \<le> record_seq (newer_record a b)"
  by (auto simp: newer_record_def record_seq_def not_less split: option.splits)

locale mailbox_device = os_flash port mem live dead total sec walign
  for port :: "'s os_port" and mem live dead total sec walign +
  fixes cc :: chip_config
  assumes slot_size: "unat (cc_mailbox_slot_size cc) = sec"
    and slot_aligned: "unat (cc_mailbox_addr cc) mod sec = 0"
    and slots_fit: "unat (cc_mailbox_addr cc) + 2 * sec \<le> total"
    and record_fits: "32 \<le> sec"
    and record_aligned: "32 mod walign = 0" "sec mod walign = 0"
begin

lemma slot_addr:
  assumes "i \<in> {0, 1}"
  shows "unat (mbx_slot_addr cc i) = unat (cc_mailbox_addr cc) + (if i = 0 then 0 else sec)"
    and "unat (mbx_slot_addr cc i) mod sec = 0" and "unat (mbx_slot_addr cc i) + sec \<le> total"
    and "unat (mbx_slot_addr cc i) mod walign = 0"
proof -
  show a: "unat (mbx_slot_addr cc i) = unat (cc_mailbox_addr cc) + (if i = 0 then 0 else sec)"
    using assms slots_fit slot_size total_addr by (auto simp: mbx_slot_addr_def unat_add_no_wrap)
  then show m: "unat (mbx_slot_addr cc i) mod sec = 0" using slot_aligned by simp
  show "unat (mbx_slot_addr cc i) + sec \<le> total" using a slots_fit by simp
  show "unat (mbx_slot_addr cc i) mod walign = 0"
    using m record_aligned(2) by (metis dvd_trans mod_0_imp_dvd dvd_imp_mod_0)
qed

lemma other_slot:
  assumes "t \<in> {0, 1}" and "touches (unat (mbx_slot_addr cc t)) sec m m'" and "length m = total"
  shows "mailbox_slot cc m' (1 - t) = mailbox_slot cc m (1 - t)"
proof -
  have o: "1 - t \<in> {0, 1}" using assms(1) by auto
  have "slice_of (unat (mbx_slot_addr cc (1 - t))) 32 m' = slice_of (unat (mbx_slot_addr cc (1 - t))) 32 m"
    by (rule slice_of_touches [OF assms(2)])
      (use slot_addr(1) [OF assms(1)] slot_addr(1,3) [OF o] assms(1,3) record_fits in auto)
  then show ?thesis by (simp add: mailbox_slot_def)
qed

lemma slot_read_fate:
  assumes "live s" and "i \<in> {0, 1}"
  shows "\<exists>r s'. slot_read_valid cc port i s = (r, s') \<and> mem s' = mem s \<and>
    (live s' \<and> r = mailbox_slot cc (mem s) i \<or> dead s')"
proof -
  have le: "unat (mbx_slot_addr cc i) + unat (32 :: u32) \<le> total" using slot_addr(3) [OF assms(2)] record_fits by simp
  from read_fate [OF assms(1) le] show ?thesis
  proof
    assume "\<exists>s'. op_read port (mbx_slot_addr cc i) 32 s =
        (TOOB_OK, slice_of (unat (mbx_slot_addr cc i)) (unat (32 :: u32)) (mem s), s') \<and> mem s' = mem s \<and> live s'"
    then obtain s1 where r: "op_read port (mbx_slot_addr cc i) 32 s =
        (TOOB_OK, slice_of (unat (mbx_slot_addr cc i)) 32 (mem s), s1)" "mem s1 = mem s" "live s1" by auto
    have "length (slice_of (unat (mbx_slot_addr cc i)) 32 (mem s)) = 32" using le mem_len [OF assms(1)] by simp
    then have "fill_prefix (slice_of (unat (mbx_slot_addr cc i)) 32 (mem s)) (zeroed 32) =
        slice_of (unat (mbx_slot_addr cc i)) 32 (mem s)" by (simp add: fill_prefix_def)
    then show ?thesis using r by (simp add: slot_read_valid_def mailbox_slot_def)
  next
    assume "\<exists>st d s'. op_read port (mbx_slot_addr cc i) 32 s = (st, d, s') \<and> st \<noteq> TOOB_OK \<and> mem s' = mem s \<and> dead s'"
    then show ?thesis by (auto simp: slot_read_valid_def)
  qed
qed

lemma slot_read_dead:
  assumes "dead s"
  shows "\<exists>r s'. slot_read_valid cc port i s = (r, s') \<and> mem s' = mem s \<and> dead s'"
  using dead_read [OF assms, of "mbx_slot_addr cc i" 32] by (auto simp: slot_read_valid_def)

text \<open>The scan of two slots with numbers \<open>q0\<close> and \<open>q1\<close>.\<close>

lemma scan_fate:
  assumes "live s"
  shows "\<exists>best target s'. mailbox_scan cc port [0, 1] 0 0 0xFFFFFFFF s = (best, target, s') \<and> mem s' = mem s \<and>
    target \<in> {0, 1} \<and>
    (live s' \<and> best = max (record_seq (mailbox_slot cc (mem s) 0)) (record_seq (mailbox_slot cc (mem s) 1)) \<and>
       target = (if record_seq (mailbox_slot cc (mem s) 1) < record_seq (mailbox_slot cc (mem s) 0) then 1 else 0) \<or>
     dead s')"
proof -
  obtain r0 s0 where r0: "slot_read_valid cc port 0 s = (r0, s0)" "mem s0 = mem s"
      "live s0 \<and> r0 = mailbox_slot cc (mem s) 0 \<or> dead s0"
    using slot_read_fate [OF assms, of 0] by auto
  obtain r1 s1 where r1: "slot_read_valid cc port 1 s0 = (r1, s1)" "mem s1 = mem s"
      "live s1 \<and> r0 = mailbox_slot cc (mem s) 0 \<and> r1 = mailbox_slot cc (mem s) 1 \<or> dead s1"
    using slot_read_fate [of s0 1] slot_read_dead [of s0 1] r0(2,3)
    by (cases "live s0 \<and> r0 = mailbox_slot cc (mem s) 0") auto
  have q: "record_seq r = (case r of None \<Rightarrow> 0 | Some m \<Rightarrow> mb_seq m)" for r by (simp add: record_seq_def)
  have mx: "(a :: u32) \<le> 0xFFFFFFFF" for a using unat_u32_le_max [of a] by (simp add: word_le_unat)
  have best: "(if r \<noteq> None \<and> record_seq r > b then record_seq r else b) = max (record_seq r) b" for r b
    by (auto simp: max_def not_le record_seq_def split: option.splits)
  have run: "mailbox_scan cc port [0, 1] 0 0 0xFFFFFFFF s =
      (max (record_seq r1) (max (record_seq r0) 0),
       if record_seq r0 < 0xFFFFFFFF then (if record_seq r1 < record_seq r0 then 1 else 0)
       else if record_seq r1 < 0xFFFFFFFF then 1 else 0, s1)"
    using r0(1) r1(1) best by (simp add: q [symmetric] Let_def)
  have tgt: "(if record_seq r0 < 0xFFFFFFFF then (if record_seq r1 < record_seq r0 then 1 else 0)
      else if record_seq r1 < 0xFFFFFFFF then 1 else 0) = (if record_seq r1 < record_seq r0 then 1 else (0 :: u32))"
    using mx [of "record_seq r0"] by (auto simp: not_less)
  show ?thesis
    unfolding run tgt
    by (rule exI [of _ "max (record_seq r1) (max (record_seq r0) 0)"],
        rule exI [of _ "if record_seq r1 < record_seq r0 then 1 else 0"], rule exI [of _ s1])
      (use r0(2,3) r1(2,3) in \<open>auto simp: max.commute\<close>)
qed

text \<open>
  What a put leaves: the target slot is the only one touched, the other slot holds the best record
  before; success leaves the new record in the target.
\<close>

lemma put_fate:
  assumes "live s" and "mailbox_wf cc (mem s)"
  shows "\<exists>st s' t. mailbox_put cc port req a n s = Some (st, s') \<and> t \<in> {0, 1} \<and>
    touches (unat (mbx_slot_addr cc t)) sec (mem s) (mem s') \<and>
    (mem s' = mem s \<or> mailbox_best cc (mem s) = mailbox_slot cc (mem s) (1 - t)) \<and>
    (st = TOOB_OK \<and> live s' \<and>
       mailbox_slot cc (mem s') t = Some (mailbox_record req (record_seq (mailbox_best cc (mem s)) + 1) a n) \<or>
     st \<noteq> TOOB_OK \<and> dead s')"
proof -
  let ?q0 = "record_seq (mailbox_slot cc (mem s) 0)" and ?q1 = "record_seq (mailbox_slot cc (mem s) 1)"
  obtain best t s1 where sc: "mailbox_scan cc port [0, 1] 0 0 0xFFFFFFFF s = (best, t, s1)" "mem s1 = mem s" "t \<in> {0, 1}"
      "live s1 \<and> best = max ?q0 ?q1 \<and> t = (if ?q1 < ?q0 then 1 else 0) \<or> dead s1"
    using scan_fate [OF assms(1)] by blast
  let ?m = "mailbox_bytes (mailbox_record req (best + 1) a n)" and ?ad = "mbx_slot_addr cc t"
  note ad = slot_addr(2-4) [OF sc(3)]
  have put: "mailbox_put cc port req a n s = do {
      (st, s) \<leftarrow> op_erase port ?ad (cc_mailbox_slot_size cc) s1;
      if st \<noteq> TOOB_OK then Some (st, s)
      else case op_write port ?ad ?m s of (st, s) \<Rightarrow>
        if st \<noteq> TOOB_OK then Some (st, s)
        else case op_read port ?ad 32 s of (st, d, s) \<Rightarrow>
          Some (if st \<noteq> TOOB_OK \<or> toob_ct_memcmp_glitch_safe ?m (fill_prefix d (zeroed 32)) 32 \<noteq> TOOB_OK
                then TOOB_ERR_FLASH_HW else TOOB_OK, s) }"
    using sc(1) by (simp add: mailbox_put_def Let_def)
  show ?thesis
  proof (cases "live s1 \<and> best = max ?q0 ?q1 \<and> t = (if ?q1 < ?q0 then 1 else 0)")
    case False
    then have "dead s1" using sc(4) by blast
    moreover have "cc_mailbox_slot_size cc \<noteq> 0" using slot_size sec_pos by (metis unat_0 less_irrefl)
    ultimately obtain st s2 where "op_erase port ?ad (cc_mailbox_slot_size cc) s1 = Some (st, s2)" "st \<noteq> TOOB_OK"
        "mem s2 = mem s1" "dead s2" using dead_erase by blast
    then show ?thesis unfolding put using sc(2,3) by (intro exI [of _ st] exI [of _ s2] exI [of _ t]) simp
  next
    case True
    then have l1: "live s1" by blast
    have keep: "mailbox_best cc (mem s) = mailbox_slot cc (mem s) (1 - t)" and seq: "record_seq (mailbox_best cc (mem s)) = best"
      using True assms(2) by (auto simp: mailbox_best_def newer_record_def mailbox_wf_def max_def not_less
          record_seq_def word_less_unat word_le_unat unat_eq_zero split: option.splits if_splits
          dest!: unsigned_word_eqI)
    obtain st s2 where er: "op_erase port ?ad (cc_mailbox_slot_size cc) s1 = Some (st, s2)"
        "touches (unat ?ad) sec (mem s) (mem s2)"
        "st = TOOB_OK \<and> live s2 \<and> mem s2 = patch (unat ?ad) (replicate sec 0xFF) (mem s) \<or> st \<noteq> TOOB_OK \<and> dead s2"
      using erase_fate [OF l1, of ?ad "cc_mailbox_slot_size cc"] ad slot_size sc(2) by auto
    show ?thesis
    proof (cases "st = TOOB_OK")
      case bad: False
      then show ?thesis unfolding put using er sc(3) keep
        by (intro exI [of _ st] exI [of _ s2] exI [of _ t]) simp
    next
      case ok: True
      then have l2: "live s2" and m2: "mem s2 = patch (unat ?ad) (replicate sec 0xFF) (mem s)" using er(3) by auto
      have ml: "length (mem s) = total" "length (mem s2) = total" using mem_len assms(1) l2 by auto
      have le: "unat ?ad + 32 \<le> total" using ad(2) record_fits by simp
      have blank: "slice_of (unat ?ad) 32 (mem s2) = replicate 32 0xFF"
        using slice_of_patch_same [of "unat ?ad" "replicate sec 0xFF" "mem s"] ml(1) ad(2) record_fits
        by (simp add: m2 slice_of_prefix [of 32 sec])
      have pr: "programmable (slice_of (unat ?ad) (length ?m) (mem s2)) ?m"
        unfolding length_mailbox blank programmable_def u8_ones by (simp add: list_all2_conv_all_nth)
      obtain st3 s3 where wr: "op_write port ?ad ?m s2 = (st3, s3)"
          "st3 = TOOB_OK \<and> live s3 \<and> mem s3 = patch (unat ?ad) ?m (mem s2) \<or>
           st3 \<noteq> TOOB_OK \<and> dead s3 \<and> touches (unat ?ad) 32 (mem s2) (mem s3)"
        using write_fate [OF l2, of ?ad ?m] le ad(3) record_aligned(1) pr by auto
      have t3: "touches (unat ?ad) sec (mem s) (mem s3)"
      proof -
        have "touches (unat ?ad) 32 (mem s2) (mem s3)"
          using wr(2) touches_patch [of "unat ?ad" ?m "mem s2"] le ml(2) by auto
        then show ?thesis
          using touches_trans [OF er(2) touches_mono [of "unat ?ad" 32 _ _ "unat ?ad" sec]] record_fits by simp
      qed
      show ?thesis
      proof (cases "st3 = TOOB_OK")
        case False
        then show ?thesis unfolding put using er(1) ok wr t3 sc(3) keep
          by (intro exI [of _ st3] exI [of _ s3] exI [of _ t]) simp
      next
        case w: True
        then have l3: "live s3" and m3: "mem s3 = patch (unat ?ad) ?m (mem s2)" using wr(2) by auto
        have sl: "slice_of (unat ?ad) 32 (mem s3) = ?m"
          using slice_of_patch_same [of "unat ?ad" ?m "mem s2"] ml(2) le by (simp add: m3)
        obtain st4 d s4 where rd: "op_read port ?ad 32 s3 = (st4, d, s4)" "mem s4 = mem s3"
            "st4 = TOOB_OK \<and> d = ?m \<and> live s4 \<or> st4 \<noteq> TOOB_OK \<and> dead s4"
          using read_fate [OF l3, of ?ad 32] le sl by auto
        have "toob_ct_memcmp_glitch_safe ?m (fill_prefix ?m (zeroed 32)) 32 = TOOB_OK"
          by (simp add: toob_memcmp_iff fill_prefix_def)
        moreover have "mailbox_slot cc (mem s4) t = Some (mailbox_record req (best + 1) a n)"
          unfolding mailbox_slot_def rd(2) sl by (rule mailbox_parse_record)
        ultimately show ?thesis
          unfolding put using er(1) ok wr(1) w rd t3 sc(3) keep seq
          by (intro exI [of _ "if st4 = TOOB_OK then TOOB_OK else TOOB_ERR_FLASH_HW"] exI [of _ s4] exI [of _ t]) auto
      qed
    qed
  qed
qed

text \<open>
  Seen by a reader: a put interrupted anywhere leaves the best record as it was or is complete; a
  torn slot is one that holds no valid record of its own making.
\<close>

lemma put_atomic:
  assumes "live s" and "mailbox_wf cc (mem s)" and "mailbox_put cc port req a n s = Some (st, s')"
    and "new = mailbox_record req (record_seq (mailbox_best cc (mem s)) + 1) a n"
    and "record_seq (mailbox_best cc (mem s)) \<noteq> UINT32_MAX"
    and "\<And>i. i \<in> {0, 1} \<Longrightarrow> mailbox_slot cc (mem s') i \<in> {None, mailbox_slot cc (mem s) i, Some new}"
  shows "mailbox_wf cc (mem s') \<and> mailbox_best cc (mem s') \<in> {mailbox_best cc (mem s), Some new} \<and>
    (st = TOOB_OK \<longrightarrow> mailbox_best cc (mem s') = Some new)"
proof -
  let ?q = "record_seq (mailbox_best cc (mem s))"
  obtain t where t: "t \<in> {0, 1}" "touches (unat (mbx_slot_addr cc t)) sec (mem s) (mem s')"
      "mem s' = mem s \<or> mailbox_best cc (mem s) = mailbox_slot cc (mem s) (1 - t)"
      "st = TOOB_OK \<longrightarrow> mailbox_slot cc (mem s') t = Some new"
    using put_fate [OF assms(1,2), of req a n] assms(3,4) by auto
  have other: "mailbox_slot cc (mem s') (1 - t) = mailbox_slot cc (mem s) (1 - t)"
    by (rule other_slot [OF t(1,2) mem_len [OF assms(1)]])
  have "unat ?q \<noteq> 4294967295" using assms(5) unsigned_word_eqI [of ?q UINT32_MAX] by auto
  then have "unat (?q + 1) = unat ?q + 1" using unat_u32_le_max [of ?q] by (subst unat_add_no_wrap) simp_all
  then have lt: "?q < ?q + 1" by (simp add: word_less_unat)
  have seq: "mb_seq new = ?q + 1" using assms(4) by simp
  have le: "record_seq (mailbox_slot cc (mem s) i) \<le> ?q" if "i \<in> {0, 1}" for i
    using that seq_le_newer by (auto simp: mailbox_best_def)
  let ?x = "mailbox_slot cc (mem s) t" and ?x' = "mailbox_slot cc (mem s') t" and ?y = "mailbox_slot cc (mem s) (1 - t)"
  have x': "?x' \<in> {None, ?x, Some new}" by (rule assms(6) [OF t(1)])
  have sq: "record_seq (Some new) \<noteq> record_seq ?y" "record_seq (Some new) \<noteq> 0" "?x \<noteq> Some new"
    using le [OF t(1)] le [of "1 - t"] t(1) lt seq by (auto simp: not_less [symmetric])
  have wf: "mailbox_wf cc (mem s')"
    using t(1) x' other assms(2) sq unfolding mailbox_wf_def by auto
  show ?thesis
  proof (cases "mem s' = mem s")
    case True
    then show ?thesis using wf t(4) sq(3) by auto
  next
    case False
    then have y: "mailbox_best cc (mem s) = ?y" using t(3) by blast
    have "mailbox_best cc (mem s') \<in> {?y, Some new} \<and> (?x' = Some new \<longrightarrow> mailbox_best cc (mem s') = Some new)"
    proof (cases "t = 0")
      case True
      then show ?thesis
        using newer_replace(1) [OF x', of ?y] y x' other lt seq by (simp add: mailbox_best_def)
    next
      case False
      then have t1: "t = 1" using t(1) by simp
      then show ?thesis
        using newer_replace(2) [OF x', of ?y] y x' other lt seq by (simp add: mailbox_best_def)
    qed
    then show ?thesis using wf t(4) y by auto
  qed
qed

end

section \<open>Histories\<close>

text \<open>
  A history of the mailbox: puts, each of which may be cut short by a power failure at any port call
  and is followed by a reboot if it was, with the image as the power failure left it. \<open>k\<close> counts
  the puts that reported success.
\<close>

inductive mailbox_history ::
  "'s os_port \<Rightarrow> ('s \<Rightarrow> u8 list) \<Rightarrow> ('s \<Rightarrow> bool) \<Rightarrow> chip_config \<Rightarrow> u8 list \<Rightarrow> nat \<Rightarrow> u8 list \<Rightarrow> bool"
  for port mem live cc m
where
  start: "mailbox_history port mem live cc m 0 m"
| put: "mailbox_history port mem live cc m k (mem s) \<Longrightarrow> live s \<Longrightarrow>
    mailbox_put cc port req a n s = Some (st, s') \<Longrightarrow>
    record_seq (mailbox_best cc (mem s)) \<noteq> UINT32_MAX \<Longrightarrow>
    (\<forall>i \<in> {0, 1}. mailbox_slot cc (mem s') i \<in> {None, mailbox_slot cc (mem s) i,
       Some (mailbox_record req (record_seq (mailbox_best cc (mem s)) + 1) a n)}) \<Longrightarrow>
    mailbox_history port mem live cc m (if st = TOOB_OK then Suc k else k) (mem s')"

context mailbox_device
begin

lemma history_inv:
  assumes "mailbox_history port mem live cc m k m'" and "mailbox_wf cc m"
  shows "mailbox_wf cc m' \<and> unat (record_seq (mailbox_best cc m)) + k \<le> unat (record_seq (mailbox_best cc m')) \<and>
    (mailbox_best cc m \<noteq> None \<longrightarrow> mailbox_best cc m' \<noteq> None)"
  using assms(1)
proof induction
  case start
  then show ?case using assms(2) by simp
next
  case (put k s req a n st s')
  let ?q = "record_seq (mailbox_best cc (mem s))" and ?new = "mailbox_record req (record_seq (mailbox_best cc (mem s)) + 1) a n"
  have ih: "mailbox_wf cc (mem s)" "unat (record_seq (mailbox_best cc m)) + k \<le> unat ?q"
      "mailbox_best cc m \<noteq> None \<longrightarrow> mailbox_best cc (mem s) \<noteq> None"
    using put.IH by auto
  have "unat ?q \<noteq> 4294967295" using put.hyps(4) unsigned_word_eqI [of ?q UINT32_MAX] by auto
  then have q1: "unat (?q + 1) = unat ?q + 1"
    using unat_u32_le_max [of ?q] by (subst unat_add_no_wrap) simp_all
  have "mailbox_wf cc (mem s') \<and> mailbox_best cc (mem s') \<in> {mailbox_best cc (mem s), Some ?new} \<and>
      (st = TOOB_OK \<longrightarrow> mailbox_best cc (mem s') = Some ?new)"
    by (rule put_atomic [OF put.hyps(2) ih(1) put.hyps(3) refl put.hyps(4) bspec [OF put.hyps(5)]])
  then show ?case using ih q1 by auto
qed

end

section \<open>The mailbox of the reference build\<close>

definition mailbox_platform :: "flash_model platform" where
  "mailbox_platform = model_platform (model_port 4096 4 0xFF 0)"

definition mailbox_port :: "flash_model os_port" where
  "mailbox_port = hal_port (Some mailbox_platform)"

interpretation mbx_os: os_flash mailbox_port fm_file "model_live 16777216 4096 4 0xFF" "\<lambda>_. False" 16777216 4096 4
  unfolding mailbox_port_def mailbox_platform_def
  by (rule hal_port_contract [OF host.mortal.mortal_flash_axioms]) simp

interpretation mbx: mailbox_device mailbox_port fm_file "model_live 16777216 4096 4 0xFF" "\<lambda>_. False"
    16777216 4096 4 generated_chip_config
  by unfold_locales (simp_all add: generated_chip_config_def)

text \<open>The same on the device that dies.\<close>

definition mailbox_mortal_port :: "flash_model os_port" where
  "mailbox_mortal_port = hal_port (Some (model_platform (brownout_port 4096 4 0xFF 0)))"

interpretation mbx_dying: mailbox_device mailbox_mortal_port fm_file "brownout_live 16777216 4096 4 0xFF" model_down
    16777216 4096 4 generated_chip_config
  unfolding mailbox_mortal_port_def
  by (intro mailbox_device.intro hal_port_contract [OF brownout_contract], unfold_locales)
    (simp_all add: generated_chip_config_def brownout_port_def)

definition blank_flash :: flash_model where
  "blank_flash = \<lparr> fm_file = replicate 16777216 0xFF, fm_total_size = 16777216, fm_sector_size = 4096,
     fm_erased_value = 0xFF, fm_write_align = 4, fm_fail_at_op = 0, fm_torn_prefix = 0, fm_op_counter = 0 \<rparr>"

lemma blank_flash_live: "model_live 16777216 4096 4 0xFF blank_flash"
  by (simp add: model_live_def blank_flash_def)

lemma blank_mailbox: "i \<in> {0, 1} \<Longrightarrow> mailbox_slot generated_chip_config (fm_file blank_flash) i = None"
proof -
  assume i: "i \<in> {0, 1}"
  have "slice_of (unat (mbx_slot_addr generated_chip_config i)) 32 (fm_file blank_flash) = replicate 32 0xFF"
    using mbx.slot_addr(3) [OF i] by (simp add: blank_flash_def slice_of_def min_def)
  then show ?thesis
    by (simp add: mailbox_slot_def mailbox_parse_def mailbox_of_def rd32_def le32_def TOOB_MAILBOX_MAGIC_def
        replicate_numeral)
qed

section \<open>Properties\<close>

text \<open>
  C4. A mailbox put is atomic for the reader. On any device that may die in any port call, the best
  record afterwards is the one before or the new one, complete and numbered one higher; a put
  that reported success has installed the new one. What a torn write leaves in its slot is assumed
  not to be a valid record of another content.
\<close>

theorem mailbox_put_atomic:
  assumes "mailbox_device port mem live dead tot sec wa cc"
    and "live s" and "mailbox_wf cc (mem s)" and "mailbox_put cc port req a n s = Some (st, s')"
    and "new = mailbox_record req (record_seq (mailbox_best cc (mem s)) + 1) a n"
    and "record_seq (mailbox_best cc (mem s)) \<noteq> UINT32_MAX"
    and "\<And>i. i \<in> {0, 1} \<Longrightarrow> mailbox_slot cc (mem s') i \<in> {None, mailbox_slot cc (mem s) i, Some new}"
  shows "mailbox_wf cc (mem s') \<and> mailbox_best cc (mem s') \<in> {mailbox_best cc (mem s), Some new} \<and>
    (st = TOOB_OK \<longrightarrow> mailbox_best cc (mem s') = Some new)"
  by (rule mailbox_device.put_atomic [OF assms])

lemma blank_put:
  obtains s' where "mailbox_put generated_chip_config mailbox_port TOOB_REQ_UPDATE_PENDING 0x170000 0 blank_flash = Some (TOOB_OK, s')"
    and "\<forall>i \<in> {0, 1}. mailbox_slot generated_chip_config (fm_file s') i \<in> {None,
      mailbox_slot generated_chip_config (fm_file blank_flash) i,
      Some (mailbox_record TOOB_REQ_UPDATE_PENDING (record_seq (mailbox_best generated_chip_config (fm_file blank_flash)) + 1) 0x170000 0)}"
proof -
  have wf: "mailbox_wf generated_chip_config (fm_file blank_flash)" using blank_mailbox by (auto simp: mailbox_wf_def)
  obtain s' t where p: "mailbox_put generated_chip_config mailbox_port TOOB_REQ_UPDATE_PENDING 0x170000 0 blank_flash = Some (TOOB_OK, s')"
      "t \<in> {0, 1}" "touches (unat (mbx_slot_addr generated_chip_config t)) 4096 (fm_file blank_flash) (fm_file s')"
      "mailbox_slot generated_chip_config (fm_file s') t = Some (mailbox_record TOOB_REQ_UPDATE_PENDING
         (record_seq (mailbox_best generated_chip_config (fm_file blank_flash)) + 1) 0x170000 0)"
    using mbx.put_fate [OF blank_flash_live wf, where req = TOOB_REQ_UPDATE_PENDING and a = "0x170000" and n = 0] by blast
  have "mailbox_slot generated_chip_config (fm_file s') (1 - t) = None"
    using mbx.other_slot [OF p(2,3) mbx_os.mem_len [OF blank_flash_live]] blank_mailbox [of "1 - t"] p(2) by auto
  then show ?thesis using that p by auto
qed

lemma mailbox_put_atomic_witness:
  "\<exists>s'. mailbox_put generated_chip_config mailbox_port TOOB_REQ_UPDATE_PENDING 0x170000 0 blank_flash = Some (TOOB_OK, s') \<and>
     mailbox_best generated_chip_config (fm_file s') = Some (mailbox_record TOOB_REQ_UPDATE_PENDING 1 0x170000 0)"
proof -
  have b: "mailbox_best generated_chip_config (fm_file blank_flash) = None"
    using blank_mailbox [of 0] blank_mailbox [of 1] by (simp add: mailbox_best_def newer_record_def)
  have wf: "mailbox_wf generated_chip_config (fm_file blank_flash)" using blank_mailbox by (auto simp: mailbox_wf_def)
  obtain s' where p: "mailbox_put generated_chip_config mailbox_port TOOB_REQ_UPDATE_PENDING 0x170000 0 blank_flash = Some (TOOB_OK, s')"
      "\<forall>i \<in> {0, 1}. mailbox_slot generated_chip_config (fm_file s') i \<in> {None,
      mailbox_slot generated_chip_config (fm_file blank_flash) i,
      Some (mailbox_record TOOB_REQ_UPDATE_PENDING (record_seq (mailbox_best generated_chip_config (fm_file blank_flash)) + 1) 0x170000 0)}"
    by (rule blank_put)
  show ?thesis
    using mailbox_put_atomic [OF mbx.mailbox_device_axioms blank_flash_live wf p(1) refl] p b by auto
qed

text \<open>
  C5. The mailbox never goes back. Along every history of puts, power failures and reboots the
  two slots stay well formed, the number a reader sees grows by at least one per successful put,
  and once there is a valid record there always is one.
\<close>

theorem mailbox_history_invariant:
  assumes "mailbox_device port mem live dead tot sec wa cc"
    and "mailbox_history port mem live cc m k m'" and "mailbox_wf cc m"
  shows "mailbox_wf cc m' \<and> unat (record_seq (mailbox_best cc m)) + k \<le> unat (record_seq (mailbox_best cc m')) \<and>
    (mailbox_best cc m \<noteq> None \<longrightarrow> mailbox_best cc m' \<noteq> None)"
  by (rule mailbox_device.history_inv [OF assms])

lemma mailbox_history_invariant_witness:
  "\<exists>s'. mailbox_put generated_chip_config mailbox_port TOOB_REQ_UPDATE_PENDING 0x170000 0 blank_flash = Some (TOOB_OK, s') \<and>
     mailbox_wf generated_chip_config (fm_file s') \<and>
     1 \<le> unat (record_seq (mailbox_best generated_chip_config (fm_file s')))"
proof -
  have b: "mailbox_best generated_chip_config (fm_file blank_flash) = None"
    using blank_mailbox [of 0] blank_mailbox [of 1] by (simp add: mailbox_best_def newer_record_def)
  have wf: "mailbox_wf generated_chip_config (fm_file blank_flash)" using blank_mailbox by (auto simp: mailbox_wf_def)
  obtain s' where p: "mailbox_put generated_chip_config mailbox_port TOOB_REQ_UPDATE_PENDING 0x170000 0 blank_flash = Some (TOOB_OK, s')"
      "\<forall>i \<in> {0, 1}. mailbox_slot generated_chip_config (fm_file s') i \<in> {None,
      mailbox_slot generated_chip_config (fm_file blank_flash) i,
      Some (mailbox_record TOOB_REQ_UPDATE_PENDING (record_seq (mailbox_best generated_chip_config (fm_file blank_flash)) + 1) 0x170000 0)}"
    by (rule blank_put)
  have "mailbox_history mailbox_port fm_file (model_live 16777216 4096 4 0xFF) generated_chip_config
      (fm_file blank_flash) 1 (fm_file s')"
    using mailbox_history.put [where live = "model_live 16777216 4096 4 0xFF", OF mailbox_history.start blank_flash_live p(1) _ p(2)] b by simp
  then show ?thesis using mailbox_history_invariant [OF mbx.mailbox_device_axioms _ wf] p(1) b by auto
qed

end
