(* ===== verification/Journal_Frame.thy ===== *)
theory Journal_Frame
  imports Journal_Txn Boot_Rstore
begin

text \<open>
  What the journal does to the rest of the device, on hardware that may die at any flash operation:
  an append and a TMR update change WAL sectors only, report success only while the device lives,
  and keep the journal statics usable. The swap, the rollback and the mailbox rest on it.
\<close>

text \<open>A call that leaves flash and power alone.\<close>

definition quiet :: "('s \<Rightarrow> u8 list) \<Rightarrow> ('s \<Rightarrow> bool) \<Rightarrow> ('s \<Rightarrow> bool) \<Rightarrow> 's \<Rightarrow> 's \<Rightarrow> bool" where
  "quiet mem live dead s s' \<longleftrightarrow> mem s' = mem s \<and> (live s \<longrightarrow> live s') \<and> (dead s \<longrightarrow> dead s')"

lemma quiet_refl [simp]: "quiet mem live dead s s"
  by (simp add: quiet_def)

lemma quiet_trans: "quiet mem live dead s s' \<Longrightarrow> quiet mem live dead s' s'' \<Longrightarrow> quiet mem live dead s s''"
  by (simp add: quiet_def)

text \<open>The journal statics point into the log.\<close>

definition jn_ok :: "wal_config \<Rightarrow> nat \<Rightarrow> journal_state \<Rightarrow> bool" where
  "jn_ok cfg walign j \<longleftrightarrow> jn_active_wal_index j < wal_sectors cfg \<and> jn_cached_write_offset j mod walign = 0 \<and>
     jn_cached_write_offset j \<le> wc_sector_sizes cfg ! jn_active_wal_index j \<and>
     tmr_wf (hd_tmr_data (jn_current_active_header j))"

text \<open>Payloads that agree but for the chain tag and its counter.\<close>

definition same_payload :: "wal_tmr_payload \<Rightarrow> wal_tmr_payload \<Rightarrow> bool" where
  "same_payload t t' \<longleftrightarrow>
     t' = t\<lparr>tm_chain_tag := tm_chain_tag t', tm_chain_entry_count := tm_chain_entry_count t'\<rparr>"

lemma same_payload_refl [simp]: "same_payload t t"
  by (simp add: same_payload_def)

lemma same_payload_chain [simp]: "same_payload t (t\<lparr>tm_chain_tag := g, tm_chain_entry_count := n\<rparr>)"
  "same_payload t (t\<lparr>tm_chain_tag := g\<rparr>)"
  by (simp_all add: same_payload_def)

lemma same_payload_trans: "same_payload t t' \<Longrightarrow> same_payload t' t'' \<Longrightarrow> same_payload t t''"
  unfolding same_payload_def by (cases t; cases t'; cases t''; simp)

lemma append_tag_payload:
  assumes "append_chain_tag p j e i s = (j', s')"
  shows "same_payload (hd_tmr_data (jn_current_active_header j)) (hd_tmr_data (jn_current_active_header j'))"
    "jn_cached_write_offset j' = jn_cached_write_offset j"
  using assms unfolding append_chain_tag_def
  by (auto simp: Let_def split: option.splits prod.splits if_splits)

lemma bind_epoch_tag:
  assumes "bind_epoch p j t s = (t', s')" and "tmr_wf t"
  shows "t' = t\<lparr>tm_chain_tag := tm_chain_tag t'\<rparr>" and "tmr_wf t'"
proof -
  have h: "length tag = 16" if "hash_chain_compute c segs x = (st, tag, x')" for c :: "'a crypto_hal" and segs x st tag x'
    using that by (rule chain_tag_length)
  show "t' = t\<lparr>tm_chain_tag := tm_chain_tag t'\<rparr>"
    using assms(1) by (auto simp: bind_epoch_def Let_def split: option.splits prod.splits if_splits)
  show "tmr_wf t'"
    using assms h by (auto simp: bind_epoch_def Let_def tmr_wf_def split: option.splits prod.splits if_splits)
qed

lemma smart_scan_eq:
  assumes "sz - off \<le> 64 * iters"
  shows "smart_scan_loop p fl a sz off buf needs s = rstore_scan_loop p fl a sz off iters buf needs s"
  using assms
proof (induction iters arbitrary: off buf needs s)
  case 0
  then show ?case by (subst smart_scan_loop.simps) simp
next
  case (Suc iters)
  show ?case
  proof (cases "off < sz")
    case True
    have "sz - (off + (if 64 < sz - off then 64 else sz - off)) \<le> 64 * iters" using Suc.prems by auto
    then show ?thesis using True Suc.IH by (subst smart_scan_loop.simps) (simp add: Let_def split: prod.splits)
  next
    case False
    then show ?thesis by (subst smart_scan_loop.simps) simp
  qed
qed

locale mortal_wal = mortal_flash p fl mem live dead total sec walign
  for p :: "'s platform" and fl :: "'s flash_hal" and mem :: "'s \<Rightarrow> u8 list" and live :: "'s \<Rightarrow> bool"
    and dead :: "'s \<Rightarrow> bool" and total :: nat and sec :: nat and walign :: nat +
  fixes cfg :: wal_config
  assumes erased: "fh_erased_value fl = 0xFF"
    and wal_count: "0 < wal_sectors cfg"
    and wal_size: "i < wal_sectors cfg \<Longrightarrow> wc_sector_sizes cfg ! i = sec"
    and wal_addr: "i < wal_sectors cfg \<Longrightarrow>
      unat (wc_sector_addrs cfg ! i) mod sec = 0 \<and> unat (wc_sector_addrs cfg ! i) + sec \<le> total"
    and wal_min: "192 \<le> sec"
    and wal_walign: "64 mod walign = 0"
    and crypto_quiet: "pf_crypto p = Some c \<Longrightarrow> crypto_frame p c mem live \<and> crypto_frame p c mem dead"
begin

abbreviation alive :: "'s \<Rightarrow> bool" where "alive s \<equiv> live s \<or> dead s"
abbreviation wal_at :: "nat \<Rightarrow> nat" where "wal_at i \<equiv> unat (wc_sector_addrs cfg ! i)"
abbreviation wal_area :: "nat set" where "wal_area \<equiv> \<Union>i < wal_sectors cfg. {wal_at i..<wal_at i + sec}"

lemma jn_ok_iff: "jn_ok cfg walign j \<longleftrightarrow> jn_active_wal_index j < wal_sectors cfg \<and>
    jn_cached_write_offset j mod walign = 0 \<and> jn_cached_write_offset j \<le> sec \<and>
    tmr_wf (hd_tmr_data (jn_current_active_header j))"
  using wal_size by (auto simp: jn_ok_def)

lemma kick_quiet: "quiet mem live dead s (wdt_kick p s)"
  by (simp add: quiet_def wdt_fates)

lemma walign_mult: "n mod 64 = 0 \<Longrightarrow> n mod walign = 0"
  using wal_walign by (metis dvd_trans mod_0_imp_dvd dvd_imp_mod_0)

lemma wal_offset:
  assumes "i < wal_sectors cfg" and "k \<le> sec"
  shows "unat (wc_sector_addrs cfg ! i + of_nat k) = wal_at i + k"
  using wal_addr [OF assms(1)] assms(2) total_addr sec_pos
  by (cases "wal_at i + k < 4294967296") (auto intro: flash_addr)

lemma read_alive:
  assumes "alive s" and "unat a + n \<le> total" and "fh_read fl a n s = (st, d, s')"
  shows "mem s' = mem s \<and> (st = BOOT_OK \<and> live s' \<and> d = slice_of (unat a) n (mem s) \<or> st \<noteq> BOOT_OK \<and> dead s')"
  using assms read_fate [of s a n] dead_read [of s a n] by fastforce

lemma read_header_alive:
  assumes "alive s" and "i < wal_sectors cfg" and "read_header cfg fl i s = (x, s')"
  shows "mem s' = mem s \<and> alive s'"
proof -
  obtain st d s1 where r: "fh_read fl (wc_sector_addrs cfg ! i) WAL_HEADER_SIZE s = (st, d, s1)" by (metis prod_cases3)
  have "wal_at i + WAL_HEADER_SIZE \<le> total" using wal_addr [OF assms(2)] wal_min by (simp add: WAL_HEADER_SIZE_def)
  then show ?thesis
    using read_alive [OF assms(1) _ r] assms(3) r by (auto simp: read_header_def Let_def split: if_splits)
qed

lemma wear_loop_alive:
  assumes "alive s" and "set ks \<subseteq> {..<wal_sectors cfg}" and "best \<in> Some ` {..<wal_sectors cfg} \<union> {None}"
    and "wear_loop cfg fl q ex ks best m s = (x, s')"
  shows "mem s' = mem s \<and> alive s' \<and> x \<in> Some ` {..<wal_sectors cfg} \<union> {None}"
  using assms
proof (induction ks arbitrary: best m s)
  case Nil
  then show ?case by simp
next
  case (Cons i ks)
  show ?case
  proof (cases "i \<in> set ex")
    case True
    then show ?thesis using Cons by simp
  next
    case False
    obtain h s1 where h: "read_header cfg fl i s = (h, s1)" by fastforce
    have i: "i < wal_sectors cfg" using Cons.prems(2) by simp
    have s1: "mem s1 = mem s" "alive s1" using read_header_alive [OF Cons.prems(1) i h] by auto
    show ?thesis
      using Cons.IH [OF s1(2)] Cons.prems(2-4) False h s1 i by (auto split: option.splits if_splits)
  qed
qed

lemma best_sector_alive:
  assumes "alive s" and "get_best_wear_leveling_sector cfg fl q ex s = (i, s')"
  shows "mem s' = mem s \<and> alive s' \<and> i < wal_sectors cfg"
proof -
  obtain x s1 where w: "wear_loop cfg fl q ex [0..<wal_sectors cfg] None UINT32_MAX s = (x, s1)" by fastforce
  have "mem s1 = mem s \<and> alive s1 \<and> x \<in> Some ` {..<wal_sectors cfg} \<union> {None}"
    by (rule wear_loop_alive [OF assms(1) _ _ w]) auto
  then show ?thesis
    using assms(2) w wal_count by (auto simp: get_best_wear_leveling_sector_def split: option.splits)
qed

lemma guard_quiet:
  "quiet mem live dead s (wdt_guard wh_suspend_for_critical_section p b s)"
  "quiet mem live dead s (wdt_guard wh_resume p b s)"
  using wdt_fates [of s]
  by (auto simp: quiet_def wdt_guard_def wdt_kick_def wdt_suspend_def wdt_resume_def call_opt_def split: option.splits)

lemma erase_alive:
  assumes "alive s" and "i < wal_sectors cfg" and "smart_erase_sector cfg p fl i s = (st, s')"
  shows "touches (wal_at i) sec (mem s) (mem s') \<and>
    (st = BOOT_OK \<and> live s' \<and> slice_of (wal_at i) sec (mem s') = replicate sec 0xFF \<or> st \<noteq> BOOT_OK \<and> dead s')"
proof -
  let ?a = "wc_sector_addrs cfg ! i" and ?big = "sec \<ge> wc_max_sector_size cfg"
  note ad = wal_addr [OF assms(2)]
  have it: "sec - 0 \<le> 64 * (sec div 64 + 1)" by presburger
  obtain nd s1 where sc: "smart_scan_loop p fl ?a sec 0 (zeroed 64) False s = (nd, s1)" "mem s1 = mem s"
      "live s1 \<and> nd = (slice_of (wal_at i) sec (mem s) \<noteq> replicate sec 0xFF) \<or> dead s1 \<and> nd"
  proof (cases "live s")
    case True
    then show ?thesis
      using scan_loop_fate [OF True conjunct2 [OF ad] _ it, of "zeroed 64" False] erased that
      unfolding smart_scan_eq [OF it] by auto
  next
    case False
    then have "dead s" using assms(1) by blast
    then show ?thesis
      using scan_loop_dead [of s ?a sec 0 "sec div 64 + 1" "zeroed 64" False] that sec_pos
      unfolding smart_scan_eq [OF it] by auto
  qed
  show ?thesis
  proof (cases nd)
    case False
    then show ?thesis using sc assms(2,3) wal_size by (simp add: smart_erase_sector_def)
  next
    case True
    let ?g = "wdt_guard wh_suspend_for_critical_section p ?big s1"
    obtain e s2 where er: "fh_erase_sector fl ?a ?g = (e, s2)" by fastforce
    have g: "mem ?g = mem s" "live s1 \<longrightarrow> live ?g" "dead s1 \<longrightarrow> dead ?g"
      using guard_quiet(1) [of s1 ?big] sc(2) by (auto simp: quiet_def)
    have lt: "unat ?a < total" using ad sec_pos by simp
    have res: "touches (wal_at i) sec (mem s) (mem s2) \<and>
        (e = BOOT_OK \<and> live s2 \<and> mem s2 = patch (wal_at i) (replicate sec 0xFF) (mem s) \<or> e \<noteq> BOOT_OK \<and> dead s2)"
    proof (cases "live s1")
      case True
      then have "length (mem s) = total" using mem_len g(1,2) by metis
      then have "touches (wal_at i) sec (mem s) (patch (wal_at i) (replicate sec 0xFF) (mem s))"
        using touches_patch [of "wal_at i" "replicate sec 0xFF" "mem s"] ad by simp
      then show ?thesis using erase_fate [of ?g ?a] True g er lt ad erased by auto
    next
      case False
      then have "dead ?g" using sc(3) g(3) by blast
      then show ?thesis using dead_erase [of ?g ?a] er g(1) by auto
    qed
    have eq: "smart_erase_sector cfg p fl i s = (e, wdt_guard wh_resume p ?big s2)"
      using sc(1) True er assms(2) wal_size by (simp add: smart_erase_sector_def Let_def)
    have q: "mem (wdt_guard wh_resume p ?big s2) = mem s2" "live s2 \<longrightarrow> live (wdt_guard wh_resume p ?big s2)"
        "dead s2 \<longrightarrow> dead (wdt_guard wh_resume p ?big s2)"
      using guard_quiet(2) [of s2 ?big] by (auto simp: quiet_def)
    have "e = BOOT_OK \<Longrightarrow> slice_of (wal_at i) sec (mem s2) = replicate sec 0xFF"
    proof -
      assume "e = BOOT_OK"
      then have "live s2" "mem s2 = patch (wal_at i) (replicate sec 0xFF) (mem s)" using res by auto
      moreover have "length (mem s) = length (mem s2)" using res touches_length by metis
      moreover have "length (mem s2) = total" using calculation(1) mem_len by blast
      ultimately show ?thesis
        using slice_of_patch_same [of "wal_at i" "replicate sec 0xFF" "mem s"] ad by simp
    qed
    then show ?thesis using assms(3) eq q res by auto
  qed
qed

lemma write_alive:
  assumes "alive s" and "unat a + length d \<le> total" and "unat a mod walign = 0" and "length d mod walign = 0"
    and "live s \<Longrightarrow> programmable (slice_of (unat a) (length d) (mem s)) d" and "fh_write fl a d s = (st, s')"
  shows "touches (unat a) (length d) (mem s) (mem s') \<and>
    (st = BOOT_OK \<and> live s' \<and> mem s' = patch (unat a) d (mem s) \<or> st \<noteq> BOOT_OK \<and> dead s')"
proof (cases "live s")
  case True
  then have "length (mem s) = total" using mem_len by simp
  then have "touches (unat a) (length d) (mem s) (patch (unat a) d (mem s))"
    using touches_patch [of "unat a" d "mem s"] assms(2) by simp
  then show ?thesis using write_fate [OF True assms(2-4) assms(5) [OF True]] assms(6) by auto
next
  case False
  then show ?thesis using dead_write [of s a d] assms(1,6) by auto
qed

text \<open>Rotation: afterwards the entry area of the sector is blank.\<close>

lemma rotate_alive:
  assumes "alive s" and "i < wal_sectors cfg" and "tmr_wf t" and "rotate_to_sector cfg p fl i seq t s = (st, ec, s')"
  shows "touches (wal_at i) sec (mem s) (mem s') \<and>
    (st = BOOT_OK \<and> live s' \<and> slice_of (wal_at i + 128) 64 (mem s') = replicate 64 0xFF \<or> st \<noteq> BOOT_OK \<and> dead s')"
proof -
  obtain hd s1 where h: "read_header cfg fl i s = (hd, s1)" by fastforce
  obtain e s2 where er: "smart_erase_sector cfg p fl i s1 = (e, s2)" by fastforce
  have s1: "mem s1 = mem s" "alive s1" using read_header_alive [OF assms(1,2) h] by auto
  note E = erase_alive [OF s1(2) assms(2) er, unfolded s1(1)]
  show ?thesis
  proof (cases "e = BOOT_OK")
    case False
    then show ?thesis using E h er assms(4) by (auto simp: rotate_to_sector_def Let_def)
  next
    case True
    let ?k = "wdt_kick p s2"
    have k: "mem ?k = mem s2" "live ?k" "live s2" "slice_of (wal_at i) sec (mem s2) = replicate sec 0xFF"
      using E True wdt_fates [of s2] by auto
    obtain n where n: "n = (case hd of None \<Rightarrow> 0 | Some raw \<Rightarrow> hd_erase_count (header_of raw)) + 1" by blast
    let ?b = "header_bytes (make_header seq n t)"
    obtain w s3 where w: "fh_write fl (wc_sector_addrs cfg ! i) ?b ?k = (w, s3)" by fastforce
    have len: "length ?b = 128" using assms(3) by simp
    note ad = wal_addr [OF assms(2)]
    have m: "length (mem s2) = total" using mem_len k(3) by simp
    have blank: "slice_of (wal_at i) 128 (mem s2) = replicate 128 0xFF"
        "slice_of (wal_at i + 128) 64 (mem s2) = replicate 64 0xFF"
    proof -
      have "slice_of (wal_at i) 128 (mem s2) = take 128 (replicate sec 0xFF)"
        using slice_of_prefix [of 128 sec "wal_at i" "mem s2"] wal_min by (simp only: k(4))
      then show "slice_of (wal_at i) 128 (mem s2) = replicate 128 0xFF" using wal_min by (simp add: min_def)
      have "slice_of (wal_at i + 128) 64 (mem s2) = slice_of 128 64 (replicate sec 0xFF)"
        using slice_of_slice_of [of 128 64 sec "wal_at i" "mem s2"] wal_min by (simp only: k(4))
      then show "slice_of (wal_at i + 128) 64 (mem s2) = replicate 64 0xFF"
        using wal_min by (auto simp: slice_of_def min_def)
    qed
    have W: "touches (wal_at i) (length ?b) (mem ?k) (mem s3) \<and>
        (w = BOOT_OK \<and> live s3 \<and> mem s3 = patch (wal_at i) ?b (mem ?k) \<or> w \<noteq> BOOT_OK \<and> dead s3)"
    proof (rule write_alive [OF _ _ _ _ _ w])
      show "wal_at i mod walign = 0" using ad sec_walign by (metis dvd_trans mod_0_imp_dvd dvd_imp_mod_0)
      show "length ?b mod walign = 0" using walign_mult [of 128] len by simp
      show "programmable (slice_of (wal_at i) (length ?b) (mem ?k)) ?b"
        using programmable_erased [of ?b 128] blank(1) k(1) len by simp
    qed (use k ad wal_min len in auto)
    have res: "st = w" "s' = s3" using assms(4) h er True w n by (auto simp: rotate_to_sector_def Let_def)
    have "touches (wal_at i) sec (mem s2) (mem s3)"
      using touches_mono [of "wal_at i" "length ?b" "mem ?k" "mem s3" "wal_at i" sec] W len k(1) wal_min by simp
    moreover have "w = BOOT_OK \<Longrightarrow> slice_of (wal_at i + 128) 64 (mem s3) = replicate 64 0xFF"
      using W blank(2) k(1) len m ad wal_min slice_of_patch_other [of "wal_at i" ?b "mem s2" "wal_at i + 128" 64] by auto
    ultimately show ?thesis using W E touches_trans res by blast
  qed
qed

lemma tag_alive:
  assumes "alive s" and "append_chain_tag p j e i s = (j', s')"
  shows "mem s' = mem s \<and> (live s \<longrightarrow> live s') \<and> (dead s \<longrightarrow> dead s')"
proof (cases "pf_crypto p")
  case None
  then show ?thesis using assms(2) by (simp add: append_chain_tag_def)
next
  case (Some c)
  note F = crypto_quiet [OF Some]
  show ?thesis
    using crypto_frame.append_tag_frame [OF conjunct1 [OF F] assms(2)]
      crypto_frame.append_tag_frame [OF conjunct2 [OF F] assms(2)] assms(1) by blast
qed

lemma append_write_alive:
  assumes "alive s" and "jn_ok cfg walign j" and "off + 64 \<le> sec" and "off mod walign = 0" and "entry_wf e"
    and "live s \<Longrightarrow> slice_of (wal_at (jn_active_wal_index j) + off) 64 (mem s) = replicate 64 0xFF"
    and "append_write cfg p fl sec off e j s = (st, j', s')"
  shows "changes wal_area (mem s) (mem s') \<and> jn_ok cfg walign j' \<and> jn_wal_initialized j' = jn_wal_initialized j \<and>
    same_payload (hd_tmr_data (jn_current_active_header j)) (hd_tmr_data (jn_current_active_header j')) \<and>
    (st = BOOT_OK \<and> live s' \<or> st \<noteq> BOOT_OK \<and> dead s')"
proof -
  let ?i = "jn_active_wal_index j" and ?b = "entry_bytes (seal_entry e)" and ?k = "wdt_kick p s"
  let ?a = "wc_sector_addrs cfg ! ?i + of_nat off"
  have i: "?i < wal_sectors cfg" "tmr_wf (hd_tmr_data (jn_current_active_header j))" using assms(2) by (auto simp: jn_ok_iff)
  note ad = wal_addr [OF i(1)]
  have a: "unat ?a = wal_at ?i + off" using wal_offset [OF i(1), of off] assms(3) by simp
  have len: "length ?b = 64" using assms(5) by simp
  have al: "(wal_at ?i + off) mod walign = 0"
    using ad assms(4) sec_walign by (metis dvd_trans mod_0_imp_dvd dvd_imp_mod_0 dvd_add)
  obtain w s1 where w: "fh_write fl ?a ?b ?k = (w, s1)" by fastforce
  have k: "mem ?k = mem s" "live s \<longrightarrow> live ?k" "dead s \<longrightarrow> dead ?k" using kick_quiet [of s] by (auto simp: quiet_def)
  have W: "touches (unat ?a) (length ?b) (mem ?k) (mem s1) \<and>
      (w = BOOT_OK \<and> live s1 \<and> mem s1 = patch (unat ?a) ?b (mem ?k) \<or> w \<noteq> BOOT_OK \<and> dead s1)"
  proof (cases "live s")
    case True
    show ?thesis
      by (rule write_alive [OF _ _ _ _ _ w])
        (use True k a ad assms(3,6) al len walign_mult [of 64] programmable_erased [of ?b 64] in auto)
  next
    case False
    then show ?thesis using dead_write [of ?k ?a ?b] w k assms(1) by auto
  qed
  then have ch: "changes wal_area (mem s) (mem s1)"
    using touches_changes [of "unat ?a" "length ?b" "mem s" "mem s1" wal_area] a i(1) assms(3) len k(1) by fastforce
  show ?thesis
  proof (cases "w = BOOT_OK")
    case False
    then show ?thesis using assms(2,7) w W ch by (auto simp: append_write_def Let_def)
  next
    case True
    then have s1: "live s1" "mem s1 = patch (unat ?a) ?b (mem s)" using W k(1) by auto
    then have l: "length (mem s) = total" using mem_len [OF s1(1)] W k(1) touches_length by metis
    have sl: "slice_of (unat ?a) 64 (mem s1) = ?b"
      using slice_of_patch_same [of "unat ?a" ?b "mem s"] s1(2) l a ad assms(3) len by simp
    obtain r d s2 where r: "fh_read fl ?a WAL_ENTRY_SIZE s1 = (r, d, s2)" by (metis prod_cases3)
    have R: "mem s2 = mem s1 \<and> (r = BOOT_OK \<and> live s2 \<and> d = ?b \<or> r \<noteq> BOOT_OK \<and> dead s2)"
      using read_alive [OF _ _ r] s1(1) sl a ad assms(3) by (simp add: WAL_ENTRY_SIZE_def)
    show ?thesis
    proof (cases "r = BOOT_OK")
      case False
      then have "st = BOOT_ERR_FLASH_HW" "j' = j\<lparr>jn_cached_write_offset := sec\<rparr>" "s' = s2"
        using assms(7) w True r by (auto simp: append_write_def Let_def)
      then show ?thesis using assms(2) R False ch sec_walign by (simp add: jn_ok_iff)
    next
      case ok: True
      obtain j3 s3 where g: "append_chain_tag p j (seal_entry e) (we_intent e) s2 = (j3, s3)" by fastforce
      have m: "constant_time_memcmp_glitch_safe ?b (fill_prefix ?b (zeroed WAL_ENTRY_SIZE)) WAL_ENTRY_SIZE = BOOT_OK"
        using len memcmp_iff [of 64 ?b ?b] by (simp add: fill_prefix_def WAL_ENTRY_SIZE_def)
      have res: "st = BOOT_OK" "j' = j3\<lparr>jn_cached_write_offset := off + WAL_ENTRY_SIZE\<rparr>" "s' = s3"
        using assms(7) w True r ok R g m by (auto simp: append_write_def Let_def)
      have "(off + 64) mod walign = 0" using assms(4) wal_walign by (metis dvd_add mod_0_imp_dvd dvd_imp_mod_0)
      then have "jn_ok cfg walign j'"
        using res(2) append_tag_shape [OF g i(2)] i(1) assms(3) by (simp add: jn_ok_iff WAL_ENTRY_SIZE_def)
      then show ?thesis
        using res R ok ch tag_alive [OF _ g] append_tag_shape(1) [OF g i(2)] append_tag_payload(1) [OF g] by auto
    qed
  qed
qed

lemma append_slot_alive:
  assumes "alive s" and "jn_ok cfg walign j" and "append_slot cfg fl j s = (off, nr, s')"
  shows "mem s' = mem s \<and> alive s' \<and> (\<not> nr \<longrightarrow> live s' \<and> off = jn_cached_write_offset j \<and> off + 64 \<le> sec \<and>
    slice_of (wal_at (jn_active_wal_index j) + off) 64 (mem s) = replicate 64 0xFF)"
proof -
  let ?i = "jn_active_wal_index j" and ?o = "jn_cached_write_offset j"
  have i: "?i < wal_sectors cfg" using assms(2) by (simp add: jn_ok_iff)
  show ?thesis
  proof (cases "?o + 64 \<le> sec")
    case False
    then show ?thesis using assms(1,3) i wal_size by (auto simp: append_slot_def Let_def WAL_ENTRY_SIZE_def)
  next
    case True
    let ?a = "wc_sector_addrs cfg ! ?i + of_nat ?o"
    obtain r d s1 where r: "fh_read fl ?a 64 s = (r, d, s1)" by (metis prod_cases3)
    have a: "unat ?a = wal_at ?i + ?o" using wal_offset [OF i, of ?o] True by simp
    have R: "mem s1 = mem s \<and> (r = BOOT_OK \<and> live s1 \<and> d = slice_of (unat ?a) 64 (mem s) \<or> r \<noteq> BOOT_OK \<and> dead s1)"
      using read_alive [OF assms(1) _ r] a wal_addr [OF i] True by simp
    have l: "length (slice_of (unat ?a) 64 (mem s)) = 64" if "live s1"
      using mem_len [OF that] R a wal_addr [OF i] True by simp
    have E: "slice_of (unat ?a) 64 (mem s) = replicate 64 0xFF" if "r = BOOT_OK" "is_fully_erased_constant_time d 0xFF"
      using R that l is_fully_erased_iff by metis
    show ?thesis
      using assms(3) r R E a i True wal_size erased
      by (auto simp: append_slot_def Let_def WAL_ENTRY_SIZE_def simp del: replicate.simps split: if_splits)
  qed
qed

lemma append_rotate_alive:
  assumes "alive s" and "jn_ok cfg walign j" and "append_rotate cfg p fl j s = (st, j', s')"
  shows "changes wal_area (mem s) (mem s') \<and> jn_ok cfg walign j' \<and> jn_wal_initialized j' = jn_wal_initialized j \<and>
    hd_tmr_data (jn_current_active_header j') = hd_tmr_data (jn_current_active_header j) \<and>
    (st = BOOT_OK \<and> live s' \<and> slice_of (wal_at (jn_active_wal_index j') + 128) 64 (mem s') = replicate 64 0xFF \<or>
     fh_max_erase_cycles fl > 0 \<and> st = BOOT_ERR_COUNTER_EXHAUSTED \<and> alive s' \<and> mem s' = mem s \<or>
     st \<noteq> BOOT_OK \<and> dead s')"
proof -
  let ?h = "jn_current_active_header j"
  obtain k s1 where b: "get_best_wear_leveling_sector cfg fl (hd_sequence_id ?h) [jn_active_wal_index j] s = (k, s1)" by fastforce
  have B: "mem s1 = mem s" "alive s1" "k < wal_sectors cfg" using best_sector_alive [OF assms(1) b] by auto
  obtain r ec s2 where r: "rotate_to_sector cfg p fl k (hd_sequence_id ?h + 1) (hd_tmr_data ?h) s1 = (r, ec, s2)" by (metis prod_cases3)
  have wf: "tmr_wf (hd_tmr_data ?h)" using assms(2) by (simp add: jn_ok_iff)
  note R = rotate_alive [OF B(2,3) wf r, unfolded B(1)]
  have ch: "changes wal_area (mem s) (mem s2)"
    using touches_changes [of "wal_at k" sec "mem s" "mem s2" wal_area] R B(3) by blast
  have "128 mod walign = 0" by (rule walign_mult) simp
  then show ?thesis
    using assms(2,3) b r R B ch wal_min
    by (auto simp: append_rotate_def Let_def jn_ok_iff WAL_HEADER_SIZE_def split: if_splits)
qed

lemma append_alive:
  assumes "alive s" and "jn_ok cfg walign j" and "entry_wf e" and "boot_journal_append cfg p j e s = (st, j', s')"
  shows "changes wal_area (mem s) (mem s') \<and> jn_ok cfg walign j' \<and> jn_wal_initialized j' = jn_wal_initialized j \<and>
    same_payload (hd_tmr_data (jn_current_active_header j)) (hd_tmr_data (jn_current_active_header j')) \<and>
    (st = BOOT_OK \<and> jn_wal_initialized j \<and> live s' \<or>
     (\<not> jn_wal_initialized j \<or> fh_max_erase_cycles fl > 0) \<and>
       st \<in> {BOOT_ERR_STATE, BOOT_ERR_COUNTER_EXHAUSTED} \<and> alive s' \<and> mem s' = mem s \<or>
     st \<noteq> BOOT_OK \<and> dead s')"
proof (cases "jn_wal_initialized j")
  case False
  then show ?thesis using assms by (simp add: boot_journal_append_def flash_ptr)
next
  case True
  obtain off nr s1 where a: "append_slot cfg fl j s = (off, nr, s1)" by (metis prod_cases3)
  note A = append_slot_alive [OF assms(1,2) a]
  have i: "jn_active_wal_index j < wal_sectors cfg" and o: "jn_cached_write_offset j mod walign = 0"
    using assms(2) by (auto simp: jn_ok_iff)
  show ?thesis
  proof (cases "nr \<or> off = 0")
    case False
    have w: "append_write cfg p fl sec off e j s1 = (st, j', s')"
      using assms(4) True a False i wal_size by (simp add: boot_journal_append_def flash_ptr)
    show ?thesis
      using append_write_alive [OF _ assms(2) _ _ assms(3) _ w] A False o True by auto
  next
    case rot: True
    obtain r j1 s2 where r: "append_rotate cfg p fl j s1 = (r, j1, s2)" by (metis prod_cases3)
    have A1: "mem s1 = mem s" "alive s1" using A by auto
    note R = append_rotate_alive [OF A1(2) assms(2) r, unfolded A1(1)]
    show ?thesis
    proof (cases "r = BOOT_OK")
      case False
      then have "st = r" "j' = j1" "s' = s2"
        using assms(4) True a rot r by (auto simp: boot_journal_append_def flash_ptr Let_def)
      then show ?thesis using R False by auto
    next
      case ok: True
      have w: "append_write cfg p fl sec 128 e j1 s2 = (st, j', s')"
        using assms(4) True a rot r ok i wal_size by (simp add: boot_journal_append_def flash_ptr WAL_HEADER_SIZE_def)
      have z: "128 + 64 \<le> sec" "128 mod walign = 0" using wal_min walign_mult [of 128] by auto
      have j1: "jn_ok cfg walign j1" "live s2"
          "slice_of (wal_at (jn_active_wal_index j1) + 128) 64 (mem s2) = replicate 64 0xFF"
        using R ok by auto
      have "changes wal_area (mem s2) (mem s') \<and> jn_ok cfg walign j' \<and> jn_wal_initialized j' = jn_wal_initialized j1 \<and>
          same_payload (hd_tmr_data (jn_current_active_header j1)) (hd_tmr_data (jn_current_active_header j')) \<and>
          (st = BOOT_OK \<and> live s' \<or> st \<noteq> BOOT_OK \<and> dead s')"
        by (rule append_write_alive [OF _ j1(1) z assms(3) j1(3) w]) (use j1 in auto)
      then show ?thesis using R True changes_trans by auto
    qed
  qed
qed

text \<open>A TMR update.\<close>

lemma quorum_alive:
  assumes "alive s" and "tmr_wf t" and "idx < wal_sectors cfg"
    and "quorum_write cfg p fl t n seq idx ex ec s = (st, seq', idx', ec', s')"
  shows "changes wal_area (mem s) (mem s') \<and> idx' < wal_sectors cfg \<and>
    (st = BOOT_OK \<and> alive s' \<and> (0 < n \<longrightarrow> live s') \<or> st \<noteq> BOOT_OK \<and> dead s')"
  using assms
proof (induction n arbitrary: seq idx ex ec s)
  case 0
  then show ?case by simp
next
  case (Suc n)
  obtain k s1 where b: "get_best_wear_leveling_sector cfg fl seq ex s = (k, s1)" by fastforce
  have B: "mem s1 = mem s" "alive s1" "k < wal_sectors cfg" using best_sector_alive [OF Suc.prems(1) b] by auto
  obtain r ec1 s2 where r: "rotate_to_sector cfg p fl k (seq + 1) t s1 = (r, ec1, s2)" by (metis prod_cases3)
  note R = rotate_alive [OF B(2,3) Suc.prems(2) r, unfolded B(1)]
  have ch: "changes wal_area (mem s) (mem s2)"
    using touches_changes [of "wal_at k" sec "mem s" "mem s2" wal_area] R B(3) by blast
  show ?case
  proof (cases "r = BOOT_OK")
    case False
    then show ?thesis using Suc.prems b r R ch by auto
  next
    case True
    have q: "quorum_write cfg p fl t n (seq + 1) k (ex @ [k]) ec1 s2 = (st, seq', idx', ec', s')"
      using Suc.prems(4) b r True by simp
    have l: "live s2" using R True by blast
    have "n = 0 \<Longrightarrow> s' = s2" using q by simp
    then show ?thesis using Suc.IH [OF _ Suc.prems(2) B(3) q] l changes_trans [OF ch] by auto
  qed
qed

lemma bind_epoch_alive:
  assumes "alive s" and "bind_epoch p j t s = (t', s')"
  shows "mem s' = mem s \<and> (live s \<longrightarrow> live s') \<and> (dead s \<longrightarrow> dead s')"
proof (cases "pf_crypto p")
  case None
  then show ?thesis using assms(2) by (simp add: bind_epoch_def)
next
  case (Some c)
  note F = crypto_quiet [OF Some]
  show ?thesis
    using crypto_frame.bind_epoch_frame [OF conjunct1 [OF F] assms(2)]
      crypto_frame.bind_epoch_frame [OF conjunct2 [OF F] assms(2)] assms(1) by blast
qed

lemma update_alive:
  assumes "alive s" and "jn_ok cfg walign j" and "tmr_wf t" and "boot_journal_update_tmr cfg p j t s = (st, j', s')"
  shows "changes wal_area (mem s) (mem s') \<and> jn_ok cfg walign j' \<and> jn_wal_initialized j' = jn_wal_initialized j \<and>
    (let u = hd_tmr_data (jn_current_active_header j') in
      st = BOOT_OK \<and> jn_wal_initialized j \<and> u = t\<lparr>tm_chain_tag := tm_chain_tag u\<rparr> \<and> alive s' \<and>
        (live s' \<or> t = hd_tmr_data (jn_current_active_header j) \<and> mem s' = mem s) \<or>
      (\<not> jn_wal_initialized j \<or> pf_wdt p = None \<or> fh_max_erase_cycles fl > 0) \<and>
        st \<in> {BOOT_ERR_INVALID_ARG, BOOT_ERR_STATE, BOOT_ERR_COUNTER_EXHAUSTED} \<and> alive s' \<and> mem s' = mem s \<and>
        u = hd_tmr_data (jn_current_active_header j) \<or>
      st \<noteq> BOOT_OK \<and> dead s' \<and> u = hd_tmr_data (jn_current_active_header j))"
proof (cases "pf_wdt p = None \<or> \<not> jn_wal_initialized j")
  case True
  then show ?thesis using assms by (auto simp: boot_journal_update_tmr_def flash_ptr split: option.splits)
next
  case False
  then obtain w where w: "pf_wdt p = Some w" and init: "jn_wal_initialized j" by auto
  let ?h = "jn_current_active_header j" and ?i = "jn_active_wal_index j"
  have j: "?i < wal_sectors cfg" "tmr_wf (hd_tmr_data ?h)" "jn_cached_write_offset j mod walign = 0"
    using assms(2) by (auto simp: jn_ok_iff)
  obtain lg s1 where lg: "active_magic_legacy cfg fl j s = (lg, s1)" by fastforce
  obtain hd s1' where rh: "read_header cfg fl ?i s = (hd, s1')" by fastforce
  have s1: "mem s1 = mem s" "alive s1"
    using read_header_alive [OF assms(1) j(1) rh] lg rh by (auto simp: active_magic_legacy_def split: option.splits)
  consider (same) "\<not> lg" and "tmr_same (hd_tmr_data ?h) t"
    | (worn) "lg \<or> \<not> tmr_same (hd_tmr_data ?h) t" and "fh_max_erase_cycles fl > 0 \<and> hd_erase_count ?h \<ge> fh_max_erase_cycles fl - 3"
    | (wr) "lg \<or> \<not> tmr_same (hd_tmr_data ?h) t" and "\<not> (fh_max_erase_cycles fl > 0 \<and> hd_erase_count ?h \<ge> fh_max_erase_cycles fl - 3)"
    by blast
  then show ?thesis
  proof cases
    case same
    then have "t = hd_tmr_data ?h" using tmr_same_iff [OF j(2) assms(3)] by simp
    then show ?thesis using assms(2,4) same lg w init s1 by (auto simp: boot_journal_update_tmr_def flash_ptr Let_def)
  next
    case worn
    then have "st = BOOT_ERR_COUNTER_EXHAUSTED" "j' = j" "s' = s1"
      using assms(4) lg w init by (auto simp: boot_journal_update_tmr_def flash_ptr Let_def)
    then show ?thesis using assms(2) s1 worn(2) by (simp add: Let_def)
  next
    case wr
    obtain u s2 where u: "bind_epoch p j t s1 = (u, s2)" by fastforce
    have s2: "mem s2 = mem s" "alive s2" using bind_epoch_alive [OF s1(2) u] s1 by auto
    note U = bind_epoch_tag [OF u assms(3)]
    obtain r q k ec s3 where q: "quorum_write cfg p fl u 3 (hd_sequence_id ?h) ?i [?i] (hd_erase_count ?h) s2 = (r, q, k, ec, s3)"
      by (metis prod_cases5)
    note Q = quorum_alive [OF s2(2) U(2) j(1) q, unfolded s2(1)]
    have off: "WAL_HEADER_SIZE mod walign = 0" using walign_mult [of 128] by (simp add: WAL_HEADER_SIZE_def)
    show ?thesis
    proof (cases "r = BOOT_OK")
      case True
      then have res: "st = BOOT_OK" "s' = s3" "jn_active_wal_index j' = k" "jn_cached_write_offset j' = WAL_HEADER_SIZE"
          "hd_tmr_data (jn_current_active_header j') = u" "jn_wal_initialized j' = jn_wal_initialized j"
        using assms(4) lg w init wr u q by (auto simp: boot_journal_update_tmr_def flash_ptr Let_def)
      then show ?thesis using Q True U off init wal_min by (auto simp: jn_ok_iff WAL_HEADER_SIZE_def Let_def)
    next
      case False
      then have "st = r" "s' = s3" "j' = j\<lparr>jn_active_wal_index := k\<rparr>"
        using assms(4) lg w init wr u q by (auto simp: boot_journal_update_tmr_def flash_ptr Let_def)
      then show ?thesis using Q False assms(2) by (auto simp: jn_ok_iff Let_def)
    qed
  qed
qed

text \<open>Reconstructing the transaction only reads.\<close>

lemma find_seq_alive:
  assumes "alive s" and "set ks \<subseteq> {..<wal_sectors cfg}" and "find_seq_loop cfg fl q ks s = (x, s')"
  shows "mem s' = mem s \<and> alive s' \<and> (\<forall>i raw. x = Some (i, raw) \<longrightarrow> i < wal_sectors cfg)"
  using assms
proof (induction ks arbitrary: s)
  case (Cons i ks)
  obtain h s1 where h: "read_header cfg fl i s = (h, s1)" by fastforce
  have i: "i < wal_sectors cfg" using Cons.prems(2) by simp
  have s1: "mem s1 = mem s" "alive s1" using read_header_alive [OF Cons.prems(1) i h] by auto
  have sub: "set ks \<subseteq> {..<wal_sectors cfg}" using Cons.prems(2) by simp
  show ?case
    using Cons.IH [OF s1(2) sub] Cons.prems(3) h s1 i by (auto split: option.splits if_splits)
qed simp

lemma slot_read_alive:
  assumes "alive s" and "i < wal_sectors cfg" and "off + 64 \<le> sec"
    and "fh_read fl (wc_sector_addrs cfg ! i + of_nat off) WAL_ENTRY_SIZE (wdt_kick p s) = (st, d, s')"
  shows "mem s' = mem s \<and> alive s'"
proof -
  have a: "unat (wc_sector_addrs cfg ! i + of_nat off) + WAL_ENTRY_SIZE \<le> total"
    using wal_offset [OF assms(2), of off] wal_addr [OF assms(2)] assms(3) by (simp add: WAL_ENTRY_SIZE_def)
  have k: "alive (wdt_kick p s)" "mem (wdt_kick p s) = mem s" using kick_quiet [of s] assms(1) by (auto simp: quiet_def)
  show ?thesis using read_alive [OF k(1) a assms(4)] k(2) by auto
qed

lemma frontier_alive:
  assumes "alive s" and "i < wal_sectors cfg" and "fr \<le> sec"
    and "frontier_loop p fl (wc_sector_addrs cfg ! i) sec ev off fr s = (k, s')"
  shows "mem s' = mem s \<and> alive s' \<and> k \<le> sec"
  using assms
proof (induction "Suc sec - off" arbitrary: off fr s rule: less_induct)
  case less
  show ?case
  proof (cases "off + WAL_ENTRY_SIZE \<le> sec")
    case False
    then show ?thesis using less.prems by (subst (asm) frontier_loop.simps) simp
  next
    case True
    then have o: "off + 64 \<le> sec" by (simp add: WAL_ENTRY_SIZE_def)
    obtain st d s1 where r: "fh_read fl (wc_sector_addrs cfg ! i + of_nat off) WAL_ENTRY_SIZE (wdt_kick p s) = (st, d, s1)"
      by (metis prod_cases3)
    have s1: "mem s1 = mem s" "alive s1" using slot_read_alive [OF less.prems(1,2) o r] by auto
    have run: "(if st \<noteq> BOOT_OK then (fr, s1) else if classify_entry d ev = WAL_E_ERASED then (off, s1)
        else frontier_loop p fl (wc_sector_addrs cfg ! i) sec ev (off + WAL_ENTRY_SIZE) (off + WAL_ENTRY_SIZE) s1) = (k, s')"
      using less.prems(4) True r by (subst (asm) frontier_loop.simps) simp
    have dec: "Suc sec - (off + WAL_ENTRY_SIZE) < Suc sec - off" using True by (simp add: WAL_ENTRY_SIZE_def)
    show ?thesis
      using less.hyps [OF dec s1(2) less.prems(2) True] run s1 o less.prems(3) by (auto split: if_splits)
  qed
qed

lemma entries_alive:
  assumes "alive s" and "i < wal_sectors cfg" and "off \<le> sec"
    and "recon_entries p fl (wc_sector_addrs cfg ! i) wa wr off r s = (r', s')"
  shows "mem s' = mem s \<and> alive s'"
  using assms
proof (induction off arbitrary: r s rule: less_induct)
  case (less off)
  show ?case
  proof (cases "off \<ge> WAL_HEADER_SIZE + WAL_ENTRY_SIZE")
    case False
    then show ?thesis using less.prems by (subst (asm) recon_entries.simps) simp
  next
    case True
    let ?o = "off - WAL_ENTRY_SIZE"
    have o: "?o + 64 \<le> sec" "?o < off" "?o \<le> sec"
      using True less.prems(3) by (simp_all add: WAL_ENTRY_SIZE_def WAL_HEADER_SIZE_def)
    obtain st d s1 where rd: "fh_read fl (wc_sector_addrs cfg ! i + of_nat ?o) WAL_ENTRY_SIZE (wdt_kick p s) = (st, d, s1)"
      by (metis prod_cases3)
    have s1: "mem s1 = mem s" "alive s1" using slot_read_alive [OF less.prems(1,2) o(1) rd] by auto
    show ?thesis
      using less.IH [OF o(2) s1(2) less.prems(2) o(3)] less.prems(4) True rd s1
      by (subst (asm) recon_entries.simps) (auto simp: Let_def split: if_splits)
  qed
qed

lemma sectors_alive:
  assumes "alive s" and "jn_cached_write_offset j \<le> sec"
    and "recon_sectors cfg p fl j wa wr n h q r s = (r', s')"
  shows "mem s' = mem s \<and> alive s'"
  using assms
proof (induction n arbitrary: h q r s)
  case (Suc n)
  obtain x s1 where f: "find_sector_by_seq cfg fl q s = (x, s1)" by fastforce
  have F: "mem s1 = mem s" "alive s1" "\<And>i raw. x = Some (i, raw) \<Longrightarrow> i < wal_sectors cfg"
    using find_seq_alive [OF Suc.prems(1) _ f [unfolded find_sector_by_seq_def]] by (auto simp: lessThan_atLeast0)
  show ?case
  proof (cases x)
    case None
    then show ?thesis using Suc.IH [OF F(2) Suc.prems(2)] Suc.prems(3) f F by (auto simp: Let_def split: if_splits)
  next
    case (Some ir)
    obtain i raw where ir: "ir = (i, raw)" by fastforce
    have i: "i < wal_sectors cfg" using F(3) Some ir by simp
    obtain off s2 where o: "(if h then (jn_cached_write_offset j, s1)
        else scan_for_frontier_linear p fl (wc_sector_addrs cfg ! i) (wc_sector_sizes cfg ! i) (fh_erased_value fl) s1) = (off, s2)"
      by fastforce
    have hs: "WAL_HEADER_SIZE \<le> sec" using wal_min by (simp add: WAL_HEADER_SIZE_def)
    have O: "mem s2 = mem s" "alive s2" "off \<le> sec"
      using o F(1,2) Suc.prems(2) frontier_alive [OF F(2) i hs] wal_size [OF i]
      by (auto simp: scan_for_frontier_linear_def split: if_splits)
    obtain r2 s3 where e: "recon_entries p fl (wc_sector_addrs cfg ! i) wa wr off r s2 = (r2, s3)" by fastforce
    have E: "mem s3 = mem s" "alive s3" using entries_alive [OF O(2) i O(3) e] O(1) by auto
    show ?thesis
      using Suc.IH [OF E(2) Suc.prems(2)] Suc.prems(3) f Some ir o e E by (auto simp: Let_def split: if_splits)
  qed
qed simp

lemma reconstruct_alive:
  assumes "alive s" and "jn_ok cfg walign j" and "boot_journal_reconstruct_txn cfg p j wa wr s = (st, r, s')"
  shows "mem s' = mem s \<and> alive s' \<and> st \<in> {BOOT_OK, BOOT_ERR_STATE}"
proof (cases "jn_wal_initialized j")
  case False
  then show ?thesis using assms by (simp add: boot_journal_reconstruct_txn_def flash_ptr)
next
  case True
  obtain r1 s1 where q: "recon_sectors cfg p fl j wa wr (wal_sectors cfg) True
      (hd_sequence_id (jn_current_active_header j)) recon_start s = (r1, s1)" by fastforce
  show ?thesis
    using sectors_alive [OF assms(1) _ q] assms(2,3) True q
    by (auto simp: boot_journal_reconstruct_txn_def flash_ptr jn_ok_iff split: if_splits)
qed

text \<open>A device that is down stays down: the laws hold with nothing alive, and so do the lemmas above.\<close>

lemma doomed: "mortal_wal p fl mem (\<lambda>_. False) dead total sec walign cfg"
proof (intro mortal_wal.intro)
  show "mortal_flash p fl mem (\<lambda>_. False) dead total sec walign"
    by unfold_locales
      (use flash_ptr sec_pos sec_total walign_pos sec_walign total_addr kick_mem kick_dead suspend_mem suspend_dead
        resume_mem resume_dead dead_read dead_write dead_erase in auto)
  have "crypto_frame p c mem (\<lambda>_. False)" if "pf_crypto p = Some c" for c
    using that by unfold_locales auto
  then show "mortal_wal_axioms p fl mem (\<lambda>_. False) dead total sec walign cfg"
    by unfold_locales (use erased wal_count wal_size wal_addr wal_min wal_walign crypto_quiet in auto)
qed

lemma append_dead:
  assumes "dead s" and "jn_ok cfg walign j" and "entry_wf e" and "boot_journal_append cfg p j e s = (st, j', s')"
  shows "dead s' \<and> st \<noteq> BOOT_OK"
  using mortal_wal.append_alive [OF doomed _ assms(2-4)] assms(1) by auto

lemma update_dead:
  assumes "dead s" and "jn_ok cfg walign j" and "tmr_wf t" and "boot_journal_update_tmr cfg p j t s = (st, j', s')"
  shows "dead s' \<and> (st = BOOT_OK \<longrightarrow> t = hd_tmr_data (jn_current_active_header j))"
  using mortal_wal.update_alive [OF doomed _ assms(2-4)] assms(1) by (auto simp: Let_def)

lemma reconstruct_dead:
  assumes "dead s" and "jn_ok cfg walign j" and "boot_journal_reconstruct_txn cfg p j wa wr s = (st, r, s')"
  shows "dead s'"
  using mortal_wal.reconstruct_alive [OF doomed _ assms(2,3)] assms(1) by auto

end

section \<open>What the reconstruction never finds\<close>

text \<open>A pending rollback is skipped like a side-band entry.\<close>

definition no_rollback :: "recon \<Rightarrow> bool" where
  "no_rollback r \<longleftrightarrow> we_intent (rc_state r) \<noteq> WAL_INTENT_TXN_ROLLBACK_PENDING"

lemma recon_entry_no_rollback: "no_rollback r \<Longrightarrow> no_rollback (recon_entry wa wr e r)"
  by (auto simp: no_rollback_def recon_entry_def Let_def)

lemma recon_entries_no_rollback:
  "no_rollback r \<Longrightarrow> no_rollback (fst (recon_entries p fl a wa wr off r s))"
proof (induction off arbitrary: r s rule: less_induct)
  case (less off)
  show ?case
  proof (cases "off \<ge> WAL_HEADER_SIZE + WAL_ENTRY_SIZE")
    case False
    then show ?thesis using less.prems by (subst recon_entries.simps) simp
  next
    case True
    then have o: "off - WAL_ENTRY_SIZE < off" by (simp add: WAL_ENTRY_SIZE_def)
    show ?thesis
      using True less.IH [OF o] less.prems recon_entry_no_rollback
      by (subst recon_entries.simps) (auto simp: Let_def split: prod.splits)
  qed
qed

lemma recon_sectors_no_rollback:
  "no_rollback r \<Longrightarrow> no_rollback (fst (recon_sectors cfg p fl j wa wr n h q r s))"
proof (induction n arbitrary: h q r s)
  case (Suc n)
  have e: "no_rollback r2" if "recon_entries p fl a wa wr off r s2 = (r2, s3)" for a off s2 r2 s3
    using recon_entries_no_rollback [OF Suc.prems, of p fl a wa wr off s2] that by simp
  show ?case
    using Suc.IH Suc.prems e recon_entries_no_rollback [OF Suc.prems]
    by (auto simp: Let_def split: prod.splits option.splits)
qed simp

lemma recon_start_no_rollback: "no_rollback recon_start"
  by (simp add: no_rollback_def recon_start_def entry_of_def rd32_def le32_def zeroed_def wal_intent_defs replicate_numeral)

end
