(* ===== verification/Boot_Mailbox.thy ===== *)
theory Boot_Mailbox
  imports Toob_Mailbox Journal_Frame
begin

text \<open>
  The reader of the mailbox (\<open>core/boot_mailbox.c\<close>): the boot core takes the newest valid record,
  logs its request and advances the watermark in the TMR payload. The slots are only read.
\<close>

section \<open>The code\<close>

definition mbx_parse :: "u8 list \<Rightarrow> toob_mailbox option" where
  "mbx_parse b =
     (let m = mailbox_of b
      in if mb_magic m \<noteq> TOOB_MAILBOX_MAGIC then None
         else if compute_boot_crc32 (take 24 b) = mb_crc32 m then Some m else None)"

definition mbx_read_valid ::
  "chip_config \<Rightarrow> 's flash_hal \<Rightarrow> u32 \<Rightarrow> 's \<Rightarrow> toob_mailbox option \<times> 's" where
  "mbx_read_valid cc fl i s =
     (case fh_read fl (mbx_slot_addr cc i) 32 s of (st, d, s) \<Rightarrow>
        (if st \<noteq> BOOT_OK then None else mbx_parse (fill_prefix d (zeroed 32)), s))"

fun mbx_best_loop ::
  "chip_config \<Rightarrow> 's flash_hal \<Rightarrow> u32 list \<Rightarrow> toob_mailbox option \<Rightarrow> 's \<Rightarrow> toob_mailbox option \<times> 's" where
  "mbx_best_loop cc fl [] best s = (best, s)"
| "mbx_best_loop cc fl (i # ks) best s =
     (case mbx_read_valid cc fl i s of
        (None, s) \<Rightarrow> mbx_best_loop cc fl ks best s
      | (Some r, s) \<Rightarrow>
          mbx_best_loop cc fl ks
            (case best of None \<Rightarrow> Some r | Some b \<Rightarrow> if mb_seq r > mb_seq b then Some r else best) s)"

definition mbx_read_best :: "chip_config \<Rightarrow> 's flash_hal \<Rightarrow> 's \<Rightarrow> toob_mailbox option \<times> 's" where
  "mbx_read_best cc fl s = mbx_best_loop cc fl [0, 1] None s"

text \<open>An entry as \<open>mbx_apply\<close> builds it.\<close>

definition mbx_entry :: "u32 \<Rightarrow> wal_entry_payload" where
  "mbx_entry intent = (entry_of (zeroed 64))\<lparr> we_magic := WAL_ENTRY_MAGIC, we_intent := intent \<rparr>"

definition mbx_apply ::
  "wal_config \<Rightarrow> 's platform \<Rightarrow> toob_mailbox \<Rightarrow> wal_tmr_payload \<Rightarrow> journal_state \<Rightarrow> 's \<Rightarrow>
     boot_status \<times> journal_state \<times> 's" where
  "mbx_apply cfg p r tmr j s =
     (if mb_request r = toob_req_code TOOB_REQ_UPDATE_PENDING then
        boot_journal_append cfg p j ((mbx_entry WAL_INTENT_UPDATE_PENDING)\<lparr>we_offset := mb_tbm1_addr r\<rparr>) s
      else if mb_request r = toob_req_code TOOB_REQ_CONFIRM then
        let active = push_bit 32 (ucast (tm_active_nonce_hi tmr)) OR ucast (tm_active_nonce_lo tmr);
            match = (mb_nonce r = active)
        in if \<not> secure_require (match = (mb_nonce r = active)) then (BOOT_ERR_INVALID_STATE, j, s)
           else if \<not> match then (BOOT_OK, j, s)
           else boot_journal_append cfg p j (mbx_entry WAL_INTENT_CONFIRM_COMMIT) s
      else if mb_request r = toob_req_code TOOB_REQ_RECOVERY_RESOLVED then
        boot_journal_append cfg p j (mbx_entry WAL_INTENT_RECOVERY_RESOLVED) s
      else (BOOT_OK, j, s))"

text \<open>
  The payload written back is the copy read before \<open>mbx_apply\<close>, with the new watermark.
\<close>

definition boot_mailbox_consume ::
  "wal_config \<Rightarrow> chip_config \<Rightarrow> 's platform \<Rightarrow> journal_state \<Rightarrow> 's \<Rightarrow> boot_status \<times> journal_state \<times> 's" where
  "boot_mailbox_consume cfg cc p j s =
     (case pf_flash p of
        None \<Rightarrow> (BOOT_ERR_INVALID_ARG, j, s)
      | Some fl \<Rightarrow>
          (case mbx_read_best cc fl s of
             (None, s) \<Rightarrow> (BOOT_OK, j, s)
           | (Some r, s) \<Rightarrow>
               (case boot_journal_get_tmr j of
                  (st, None) \<Rightarrow> (st, j, s)
                | (st, Some tmr) \<Rightarrow>
                    let is_new = (mb_seq r > tm_last_mbx_request_id tmr)
                    in if \<not> secure_require (is_new = (mb_seq r > tm_last_mbx_request_id tmr))
                       then (BOOT_ERR_INVALID_STATE, j, s)
                       else if \<not> is_new then (st, j, s)
                       else case mbx_apply cfg p r tmr j s of (st, j, s) \<Rightarrow>
                         if st \<noteq> BOOT_OK then (st, j, s)
                         else boot_journal_update_tmr cfg p j (tmr\<lparr>tm_last_mbx_request_id := mb_seq r\<rparr>) s)))"

section \<open>Reading\<close>

text \<open>Reader and writer accept the same records.\<close>

lemma mbx_parse_agrees: "mbx_parse b = mailbox_parse b"
  unfolding mbx_parse_def mailbox_parse_def toob_lib_crc32_def compute_boot_crc32_def toob_crc32_loop_eq ..

lemma mbx_entry_wf [simp]: "entry_wf (mbx_entry i)" "entry_wf ((mbx_entry i)\<lparr>we_offset := x\<rparr>)"
  by (simp_all add: mbx_entry_def entry_wf_def entry_of_def)

lemma newer_seq: "record_seq a \<le> record_seq (newer_record a b)" "record_seq b \<le> record_seq (newer_record a b)"
  by (auto simp: newer_record_def record_seq_def not_less split: option.splits)

text \<open>The last request consumed.\<close>

abbreviation watermark :: "journal_state \<Rightarrow> u32" where
  "watermark j \<equiv> tm_last_mbx_request_id (hd_tmr_data (jn_current_active_header j))"

locale mailbox_reader = mortal_wal p fl mem live dead total sec walign cfg
  for p :: "'s platform" and fl mem live dead total sec walign cfg +
  fixes cc :: chip_config
  assumes slot_room: "i \<in> {0, 1} \<Longrightarrow> unat (mbx_slot_addr cc i) + 32 \<le> total"
    and slot_apart: "i \<in> {0, 1} \<Longrightarrow> {unat (mbx_slot_addr cc i)..<unat (mbx_slot_addr cc i) + 32} \<inter> wal_area = {}"
begin

lemma read_valid_alive:
  assumes "alive s" and "i \<in> {0, 1}" and "mbx_read_valid cc fl i s = (r, s')"
  shows "mem s' = mem s \<and> (live s' \<and> r = mailbox_slot cc (mem s) i \<or> dead s' \<and> r = None)"
proof -
  let ?a = "unat (mbx_slot_addr cc i)"
  obtain st d s1 where r: "fh_read fl (mbx_slot_addr cc i) 32 s = (st, d, s1)" by (metis prod_cases3)
  note R = read_alive [OF assms(1) slot_room [OF assms(2)] r]
  have "fill_prefix d (zeroed 32) = d" if "live s1" "d = slice_of ?a 32 (mem s)"
    using mem_len [OF that(1)] slot_room [OF assms(2)] R that(2) by (simp add: fill_prefix_def)
  then show ?thesis
    using assms(3) r R by (auto simp: mbx_read_valid_def mbx_parse_agrees mailbox_slot_def)
qed

lemma read_best_alive:
  assumes "alive s" and "mbx_read_best cc fl s = (r, s')"
  shows "mem s' = mem s \<and> (live s' \<and> r = mailbox_best cc (mem s) \<or> dead s') \<and>
    record_seq r \<le> record_seq (mailbox_best cc (mem s))"
proof -
  obtain r0 s0 where r0: "mbx_read_valid cc fl 0 s = (r0, s0)" by fastforce
  obtain r1 s1 where r1: "mbx_read_valid cc fl 1 s0 = (r1, s1)" by fastforce
  have A: "mem s0 = mem s" "live s0 \<and> r0 = mailbox_slot cc (mem s) 0 \<or> dead s0 \<and> r0 = None"
    using read_valid_alive [OF assms(1) _ r0] by auto
  have B: "mem s1 = mem s" "live s1 \<and> r1 = mailbox_slot cc (mem s) 1 \<or> dead s1 \<and> r1 = None"
    using read_valid_alive [OF _ _ r1] A by auto
  have dd: "dead s1" if "dead s0"
    using that r1 dead_read [of s0 "mbx_slot_addr cc 1" 32] by (auto simp: mbx_read_valid_def)
  have "(r, s') = (newer_record r0 r1, s1)"
    using assms(2) r0 r1 by (auto simp: mbx_read_best_def newer_record_def split: option.splits)
  moreover have "record_seq (newer_record x y) \<le> record_seq (newer_record a b)"
    if "x \<in> {a, None}" "y \<in> {b, None}" for x y a b
    using that by (auto simp: newer_record_def record_seq_def not_less split: option.splits)
  ultimately show ?thesis using A B dd by (auto simp: mailbox_best_def)
qed

lemma best_kept: "changes wal_area (mem s) m' \<Longrightarrow> live s \<Longrightarrow> mailbox_best cc m' = mailbox_best cc (mem s)"
  using slice_of_changes [of wal_area "mem s" m'] slot_room slot_apart mem_len
  by (simp add: mailbox_best_def mailbox_slot_def)

lemma same_watermark: "same_payload a b \<Longrightarrow> tm_last_mbx_request_id b = tm_last_mbx_request_id a"
  by (drule arg_cong [of _ _ tm_last_mbx_request_id, OF same_payload_def [THEN iffD1]]) simp

text \<open>\<open>mbx_apply\<close> logs at most an entry.\<close>

lemma apply_alive:
  assumes "alive s" and "jn_ok cfg walign j" and "mbx_apply cfg p r tmr j s = (st, j', s')"
  shows "changes wal_area (mem s) (mem s') \<and> jn_ok cfg walign j' \<and> jn_wal_initialized j' = jn_wal_initialized j \<and>
    same_payload (hd_tmr_data (jn_current_active_header j)) (hd_tmr_data (jn_current_active_header j')) \<and>
    alive s' \<and> (dead s \<longrightarrow> dead s') \<and>
    (st = BOOT_OK \<or> dead s' \<or> fh_max_erase_cycles fl > 0 \<or> \<not> jn_wal_initialized j)"
proof -
  have ap: "?thesis" if "entry_wf e" "boot_journal_append cfg p j e s = (st, j', s')" for e
    using append_alive [OF assms(1,2) that] append_dead [OF _ assms(2) that] by blast
  show ?thesis
    using assms(3) ap [OF mbx_entry_wf(1)] ap [OF mbx_entry_wf(2)] assms(1,2)
    unfolding mbx_apply_def secure_require_iff Let_def by (simp split: if_splits)
qed

text \<open>The fate of a consume.\<close>

lemma consume_fate:
  assumes "alive s" and "jn_ok cfg walign j" and "jn_wal_initialized j"
    and "boot_mailbox_consume cfg cc p j s = (st, j', s')"
  shows "changes wal_area (mem s) (mem s') \<and> jn_ok cfg walign j' \<and> jn_wal_initialized j' \<and>
    (dead s' \<and> watermark j' = watermark j \<or>
     live s' \<and> (if st = BOOT_OK then watermark j' = max (watermark j) (record_seq (mailbox_best cc (mem s)))
                else (fh_max_erase_cycles fl > 0 \<or> pf_wdt p = None) \<and>
                  watermark j' = watermark j \<and> watermark j < record_seq (mailbox_best cc (mem s))))"
proof -
  let ?t = "hd_tmr_data (jn_current_active_header j)"
  obtain r s1 where r: "mbx_read_best cc fl s = (r, s1)" by fastforce
  have R: "mem s1 = mem s" "live s1 \<and> r = mailbox_best cc (mem s) \<or> dead s1"
    using read_best_alive [OF assms(1) r] by auto
  have tm: "boot_journal_get_tmr j = (BOOT_OK, Some ?t)" using assms(3) by (simp add: boot_journal_get_tmr_def)
  show ?thesis
  proof (cases "r = None \<or> record_seq r \<le> watermark j")
    case True
    then consider "r = None" | m where "r = Some m" "\<not> watermark j < mb_seq m"
      by (cases r) (auto simp: record_seq_def not_less)
    then have "st = BOOT_OK \<and> j' = j \<and> s' = s1"
      using assms(4) r tm by cases (auto simp: boot_mailbox_consume_def flash_ptr Let_def)
    then show ?thesis using R assms(2,3) True by (auto simp: max_def record_seq_def)
  next
    case False
    then obtain m where m: "r = Some m" "watermark j < mb_seq m" by (auto simp: record_seq_def)
    obtain e j1 s2 where e: "mbx_apply cfg p m ?t j s1 = (e, j1, s2)" by (metis prod_cases3)
    have al: "alive s1" using R(2) by blast
    note A = apply_alive [OF al assms(2) e, unfolded R(1)]
    have q: "live s1 \<Longrightarrow> \<not> dead s1 \<Longrightarrow> watermark j < record_seq (mailbox_best cc (mem s))"
      using R(2) m by (metis record_seq_simps(2))
    show ?thesis
    proof (cases "e = BOOT_OK")
      case False
      then have "st = e" "j' = j1" "s' = s2"
        using assms(4) r tm m e by (auto simp: boot_mailbox_consume_def flash_ptr Let_def)
      then show ?thesis using A False R(2) q assms(3) same_watermark by auto
    next
      case True
      let ?u = "?t\<lparr>tm_last_mbx_request_id := mb_seq m\<rparr>"
      have u: "boot_journal_update_tmr cfg p j1 ?u s2 = (st, j', s')"
        using assms(4) r tm m e True by (auto simp: boot_mailbox_consume_def flash_ptr Let_def)
      have wf: "tmr_wf ?u" using assms(2) by (simp add: jn_ok_def tmr_wf_def)
      have al2: "alive s2" and j1: "jn_ok cfg walign j1" using A by auto
      have w1: "watermark j1 = watermark j" using A same_watermark by blast
      have ne: "?u \<noteq> hd_tmr_data (jn_current_active_header j1)"
        using m(2) w1 by (auto dest: arg_cong [of _ _ tm_last_mbx_request_id])
      note U = update_alive [OF al2 j1 wf u, unfolded Let_def]
      let ?x = "hd_tmr_data (jn_current_active_header j')"
      have wm: "?x = ?u\<lparr>tm_chain_tag := tm_chain_tag ?x\<rparr> \<Longrightarrow> watermark j' = mb_seq m"
        by (drule arg_cong [of _ _ tm_last_mbx_request_id]) simp
      have i1: "jn_wal_initialized j1" using A assms(3) by blast
      have ni: "st \<in> {BOOT_ERR_INVALID_ARG, BOOT_ERR_STATE, BOOT_ERR_COUNTER_EXHAUSTED} \<Longrightarrow> st \<noteq> BOOT_OK" by auto
      have w2: "?x = hd_tmr_data (jn_current_active_header j1) \<Longrightarrow> watermark j' = watermark j" using w1 by simp
      have ch: "changes wal_area (mem s) (mem s') \<and> jn_ok cfg walign j' \<and> jn_wal_initialized j'"
        using A U changes_trans assms(3) by blast
      have o: "live s' \<and> st = BOOT_OK \<and> watermark j' = mb_seq m \<or>
          st \<noteq> BOOT_OK \<and> watermark j' = watermark j \<and> (alive s' \<and> (fh_max_erase_cycles fl > 0 \<or> pf_wdt p = None) \<or> dead s')"
        using U ne w2 wm i1 ni by argo
      show ?thesis
      proof (cases "dead s1")
        case True
        then have "dead s2" using A by blast
        then have "dead s'" "st \<noteq> BOOT_OK" using update_dead [OF _ j1 wf u] ne by auto
        then show ?thesis using ch o by blast
      next
        case False
        then have "record_seq (mailbox_best cc (mem s)) = mb_seq m" using R(2) m by (metis record_seq_simps(2))
        moreover have "max (watermark j) (mb_seq m) = mb_seq m" using m(2) by (simp add: max_def order.strict_implies_order)
        ultimately show ?thesis using ch o m(2) by auto
      qed
    qed
  qed
qed

end

section \<open>What a consume does to the chain\<close>

text \<open>Any step of the journal keeps payloads well formed, with nothing assumed of the device.\<close>

lemma append_payload_wf:
  assumes "boot_journal_append cfg p j e s = (st, j', s')" and "tmr_wf (hd_tmr_data (jn_current_active_header j))"
  shows "tmr_wf (hd_tmr_data (jn_current_active_header j'))"
proof -
  have w: "tmr_wf (hd_tmr_data (jn_current_active_header j2))"
    if "append_write cfg p fl n off e j1 x = (st', j2, x')" "tmr_wf (hd_tmr_data (jn_current_active_header j1))"
    for fl n off j1 x st' j2 x'
    using that by (auto simp: append_write_def Let_def split: prod.splits if_splits dest: append_tag_shape(4))
  have r: "tmr_wf (hd_tmr_data (jn_current_active_header j2))"
    if "append_rotate cfg p fl j x = (st', j2, x')" for fl x st' j2 x'
    using that assms(2) by (auto simp: append_rotate_def Let_def split: prod.splits if_splits)
  show ?thesis
    using assms by (auto simp: boot_journal_append_def Let_def split: option.splits prod.splits if_splits dest: w r)
qed

lemma update_count:
  assumes "boot_journal_update_tmr cfg p j t s = (BOOT_OK, j', s')" and "tmr_wf t"
    and "tmr_wf (hd_tmr_data (jn_current_active_header j))"
  shows "tm_chain_entry_count (hd_tmr_data (jn_current_active_header j')) = tm_chain_entry_count t"
proof -
  have "tm_chain_entry_count u = tm_chain_entry_count t" if "bind_epoch p j t x = (u, x')" for u x x'
    using bind_epoch_tag(1) [OF that assms(2)] by (metis wal_tmr_payload.select_convs(17) wal_tmr_payload.surjective wal_tmr_payload.update_convs(16))
  then show ?thesis
    using assms tmr_same_iff [OF assms(3,2)]
    by (auto simp: boot_journal_update_tmr_def Let_def split: option.splits prod.splits if_splits)
qed

lemma append_count:
  assumes "boot_journal_append cfg p j e s = (BOOT_OK, j', s')" and "pf_crypto p = Some c"
    and "jn_journal_key_valid j" and "wal_intent_is_security_bearing (we_intent e)"
    and "\<And>segs x. fst (hash_chain_compute c segs x) = BOOT_OK"
  shows "tm_chain_entry_count (hd_tmr_data (jn_current_active_header j')) =
    tm_chain_entry_count (hd_tmr_data (jn_current_active_header j)) + 1"
proof -
  have h: "st' = BOOT_OK" if "hash_chain_compute c segs x = (st', d, x')" for segs x st' d x'
    using assms(5) [of segs x] that by simp
  have w: "tm_chain_entry_count (hd_tmr_data (jn_current_active_header j2)) =
      tm_chain_entry_count (hd_tmr_data (jn_current_active_header j1)) + 1"
    if "append_write cfg p fl n off e j1 x = (BOOT_OK, j2, x')" "jn_journal_key_valid j1" for fl n off j1 x j2 x'
    using that assms(2,4) h
    by (auto simp: append_write_def append_chain_tag_def compute_chain_tag_def Let_def split: prod.splits if_splits)
  have r: "jn_journal_key_valid j2 \<and> hd_tmr_data (jn_current_active_header j2) = hd_tmr_data (jn_current_active_header j)"
    if "append_rotate cfg p fl j x = (st', j2, x')" for fl x st' j2 x'
    using that assms(3) by (auto simp: append_rotate_def Let_def split: prod.splits if_splits)
  show ?thesis
    using assms(1,3) by (auto simp: boot_journal_append_def Let_def split: option.splits prod.splits if_splits dest!: r dest: w)
qed

context mailbox_reader
begin

text \<open>Once consumed, a request is not seen again.\<close>

lemma consume_again:
  assumes "alive s" and "jn_ok cfg walign j" and "jn_wal_initialized j"
    and "record_seq (mailbox_best cc (mem s)) \<le> watermark j"
    and "boot_mailbox_consume cfg cc p j s = (st, j', s')"
  shows "st = BOOT_OK \<and> j' = j \<and> mem s' = mem s"
proof -
  obtain r s1 where r: "mbx_read_best cc fl s = (r, s1)" by fastforce
  have R: "mem s1 = mem s" "record_seq r \<le> watermark j" using read_best_alive [OF assms(1) r] assms(4) by auto
  then consider "r = None" | m where "r = Some m" "\<not> watermark j < mb_seq m" by (cases r) (auto simp: not_less)
  then show ?thesis
    using assms(3,5) r R(1) by cases (auto simp: boot_mailbox_consume_def flash_ptr boot_journal_get_tmr_def Let_def)
qed

lemma consume_once:
  assumes "live s" and "jn_ok cfg walign j" and "jn_wal_initialized j"
    and "boot_mailbox_consume cfg cc p j s = (st, j', s')"
  shows "changes wal_area (mem s) (mem s') \<and> mailbox_best cc (mem s') = mailbox_best cc (mem s) \<and>
    (dead s' \<and> watermark j' = watermark j \<or>
     live s' \<and> (if st = BOOT_OK then watermark j' = max (watermark j) (record_seq (mailbox_best cc (mem s)))
                else (fh_max_erase_cycles fl > 0 \<or> pf_wdt p = None) \<and>
                  watermark j' = watermark j \<and> watermark j < record_seq (mailbox_best cc (mem s)))) \<and>
    (st = BOOT_OK \<and> live s' \<and> \<not> dead s' \<longrightarrow>
       (\<exists>s''. boot_mailbox_consume cfg cc p j' s' = (BOOT_OK, j', s'') \<and> mem s'' = mem s'))"
proof -
  have al: "alive s" using assms(1) by blast
  note F = consume_fate [OF al assms(2-4)]
  have b: "mailbox_best cc (mem s') = mailbox_best cc (mem s)" using best_kept F assms(1) by blast
  have "\<exists>s''. boot_mailbox_consume cfg cc p j' s' = (BOOT_OK, j', s'') \<and> mem s'' = mem s'"
    if ok: "st = BOOT_OK" "live s'" "\<not> dead s'"
  proof -
    obtain st2 j2 s2 where c: "boot_mailbox_consume cfg cc p j' s' = (st2, j2, s2)" by (metis prod_cases3)
    have al': "alive s'" using ok(2) by blast
    have j': "jn_ok cfg walign j'" "jn_wal_initialized j'" using F by auto
    have "record_seq (mailbox_best cc (mem s')) \<le> watermark j'" using F ok b by auto
    from consume_again [OF al' j' this c] show ?thesis using c by auto
  qed
  then show ?thesis using F b by blast
qed

end

section \<open>A device\<close>

text \<open>The demonstration log followed by two mailbox sectors, the first holding a record.\<close>

definition mbox_chip :: chip_config where
  "mbox_chip = generated_chip_config\<lparr>cc_mailbox_addr := 960, cc_mailbox_slot_size := 192\<rparr>"

definition mbox_record :: toob_mailbox where
  "mbox_record = mailbox_record TOOB_REQ_CONFIRM 1 0 0"

definition mbox_state :: flash_model where
  "mbox_state = demo_state\<lparr>fm_file := demo_image @ mailbox_bytes mbox_record @ replicate 352 0xFF,
     fm_total_size := 1344\<rparr>"

definition mbox_journal :: journal_state where
  "mbox_journal = demo_journal\<lparr>jn_journal_key_valid := True\<rparr>"

lemma demo_port_sel [simp]: "fh_erased_value demo_port = 0xFF" "fh_max_erase_cycles demo_port = 0"
  "pf_flash demo_platform = Some demo_port" "pf_wdt demo_platform \<noteq> None"
  "pf_crypto demo_platform = Some (sandbox_crypto_hal (Pair 4))"
  by (simp_all add: demo_port_def demo_platform_def)

interpretation mbox_flash: flash_contract demo_platform demo_port fm_file "model_live 1344 192 1 0xFF" 1344 192 1
  unfolding demo_platform_def demo_port_def by (rule sandbox_contract, rule model_contract) simp_all

interpretation mbox: mailbox_reader demo_platform demo_port fm_file "model_live 1344 192 1 0xFF" "\<lambda>_. False" 1344 192 1
    demo_config mbox_chip
proof (intro mailbox_reader.intro mortal_wal.intro mbox_flash.mortal.mortal_flash_axioms)
  have c: "crypto_frame demo_platform (sandbox_crypto_hal (Pair 4)) fm_file l" for l
    unfolding demo_platform_def by (rule sandbox_leaves_flash)
  show "mortal_wal_axioms demo_platform demo_port fm_file (model_live 1344 192 1 255) (\<lambda>_. False) 1344 192 1 demo_config"
    by unfold_locales (use c in \<open>auto simp: demo_addr\<close>)
  have "unat (mbx_slot_addr mbox_chip i) \<in> {960, 1152}" if "i \<in> {0, 1}" for i
    using that by (auto simp: mbx_slot_addr_def mbox_chip_def)
  then show "mailbox_reader_axioms 1344 192 demo_config mbox_chip"
    by unfold_locales (fastforce simp: demo_addr)+
qed

lemma mbox_live: "model_live 1344 192 1 0xFF mbox_state"
  using demo_live [OF demo_tmr_wf] by (simp add: model_live_def mbox_state_def demo_state_of_def)

lemma mbox_best: "mailbox_best mbox_chip (fm_file mbox_state) = Some mbox_record"
proof -
  have l: "length demo_image = 960" using demo_live [OF demo_tmr_wf] by (simp add: model_live_def)
  have a: "unat (mbx_slot_addr mbox_chip 0) = 960" "unat (mbx_slot_addr mbox_chip 1) = 1152"
    by (simp_all add: mbx_slot_addr_def mbox_chip_def)
  have "slice_of 960 32 (fm_file mbox_state) = mailbox_bytes mbox_record"
    using l by (simp add: slice_of_def mbox_state_def)
  then have 0: "mailbox_slot mbox_chip (fm_file mbox_state) 0 = Some mbox_record"
    using a mailbox_parse_record by (simp add: mailbox_slot_def mbox_record_def)
  have "slice_of 1152 32 (fm_file mbox_state) = replicate 32 0xFF"
    using l by (simp add: slice_of_def mbox_state_def drop_Cons')
  moreover have "mailbox_parse (replicate 32 0xFF) = None"
    by (simp add: mailbox_parse_def mailbox_of_def Let_def rd32_def le32_def TOOB_MAILBOX_MAGIC_def)
  ultimately have "mailbox_slot mbox_chip (fm_file mbox_state) 1 = None" using a by (simp add: mailbox_slot_def)
  with 0 show ?thesis by (simp add: mailbox_best_def newer_record_def)
qed

lemma mbox_jn: "jn_ok demo_config 1 mbox_journal" "jn_wal_initialized mbox_journal"
  "hd_tmr_data (jn_current_active_header mbox_journal) = demo_tmr" "jn_journal_key_valid mbox_journal"
  by (simp_all add: mbox_journal_def jn_ok_def)

lemma mbox_consume:
  obtains j' s' where "boot_mailbox_consume demo_config mbox_chip demo_platform mbox_journal mbox_state = (BOOT_OK, j', s')"
    and "watermark j' = 1"
proof -
  obtain st j' s' where c: "boot_mailbox_consume demo_config mbox_chip demo_platform mbox_journal mbox_state = (st, j', s')"
    by (metis prod_cases3)
  have "tm_last_mbx_request_id demo_tmr = 0" by (simp add: demo_tmr_def tmr_zero_def)
  then show ?thesis
    using mbox.consume_once [OF mbox_live mbox_jn(1,2) c] mbox_best mbox_jn(3) that c
    by (auto simp: mbox_record_def max_def split: if_splits)
qed

section \<open>The properties\<close>



text \<open>
  C39. A consume forgets what its own append did to the chain. \<open>boot_mailbox_consume\<close> copies the TMR
  payload before \<open>mbx_apply\<close> and writes that copy back, so after every successful consume the chain
  counter is what it was before, although a confirmation is a security-bearing entry that
  \<open>boot_journal_append\<close> has just counted.
\<close>

theorem mailbox_consume_forgets_chain:
  assumes "boot_mailbox_consume cfg cc p j s = (BOOT_OK, j', s')" and "tmr_wf (hd_tmr_data (jn_current_active_header j))"
  shows "tm_chain_entry_count (hd_tmr_data (jn_current_active_header j')) =
    tm_chain_entry_count (hd_tmr_data (jn_current_active_header j))"
proof -
  let ?t = "hd_tmr_data (jn_current_active_header j)"
  have wf: "tmr_wf (?t\<lparr>tm_last_mbx_request_id := q\<rparr>)" for q using assms(2) by (simp add: tmr_wf_def)
  have ap: "tmr_wf (hd_tmr_data (jn_current_active_header j1))"
    if "mbx_apply cfg p m ?t j x = (BOOT_OK, j1, x')" for m x j1 x'
    using that assms(2) append_payload_wf unfolding mbx_apply_def Let_def by (auto split: if_splits)
  show ?thesis
    using assms(1)
    by (auto simp: boot_mailbox_consume_def boot_journal_get_tmr_def Let_def split: option.splits prod.splits if_splits
        dest!: update_count [OF _ wf] ap)
qed

lemma mailbox_consume_forgets_chain_witness:
  "\<exists>j1 s1 j' s'. mbx_apply demo_config demo_platform mbox_record demo_tmr mbox_journal mbox_state = (BOOT_OK, j1, s1) \<and>
     tm_chain_entry_count (hd_tmr_data (jn_current_active_header j1)) = 1 \<and>
     boot_mailbox_consume demo_config mbox_chip demo_platform mbox_journal mbox_state = (BOOT_OK, j', s') \<and>
     tm_chain_entry_count (hd_tmr_data (jn_current_active_header j')) = 0"
proof -
  have z: "tm_chain_entry_count demo_tmr = 0" by (simp add: demo_tmr_def tmr_zero_def)
  obtain j' s' where c: "boot_mailbox_consume demo_config mbox_chip demo_platform mbox_journal mbox_state = (BOOT_OK, j', s')"
    by (rule mbox_consume)
  have "tmr_wf (hd_tmr_data (jn_current_active_header mbox_journal))" using mbox_jn by simp
  note F = mailbox_consume_forgets_chain [OF c this]
  obtain st j1 s1 where a: "mbx_apply demo_config demo_platform mbox_record demo_tmr mbox_journal mbox_state = (st, j1, s1)"
    by (metis prod_cases3)
  have al: "model_live 1344 192 1 0xFF mbox_state \<or> False" using mbox_live by simp
  have ok: "st = BOOT_OK" using mbox.apply_alive [OF al mbox_jn(1) a] mbox_jn by simp
  have "boot_journal_append demo_config demo_platform mbox_journal (mbx_entry WAL_INTENT_CONFIRM_COMMIT) mbox_state = (BOOT_OK, j1, s1)"
    using a ok by (simp add: mbx_apply_def mbox_record_def mailbox_record_def Let_def demo_tmr_def tmr_zero_def)
  then have "tm_chain_entry_count (hd_tmr_data (jn_current_active_header j1)) = tm_chain_entry_count demo_tmr + 1"
    unfolding mbox_jn(3) [symmetric]
  proof (rule append_count)
    show "fst (hash_chain_compute (sandbox_crypto_hal (Pair 4)) segs x) = BOOT_OK" for segs and x :: flash_model
    proof -
      let ?c = "sandbox_crypto_hal (Pair 4) :: flash_model crypto_hal"
      have sel: "ch_hash_init ?c = sandbox_crypto_hash_init" "ch_hash_update ?c = sandbox_crypto_hash_update"
          "ch_hash_finish ?c = sandbox_crypto_hash_finish" by (simp_all add: sandbox_crypto_hal_def)
      have "fst (hash_update_all ?c segs ctx x) = BOOT_OK" for ctx
        by (induction segs arbitrary: ctx) (simp_all add: sel sandbox_crypto_hash_update_def)
      then obtain d y where "hash_update_all ?c segs (zeroed BOOT_MERKLE_MAX_CTX_SIZE) x = (BOOT_OK, d, y)"
        by (metis prod_cases3 fst_conv)
      then show ?thesis
        by (simp add: hash_chain_compute_def sel sandbox_crypto_hash_init_def sandbox_crypto_hash_finish_def)
    qed
  qed (simp_all add: mbox_jn mbx_entry_def wal_intent_is_security_bearing_def)
  then show ?thesis using a ok c F mbox_jn z by simp
qed

end
