(* ===== verification/Boot_Rollback.thy ===== *)
theory Boot_Rollback
  imports Swap_Chunk Journal_Frame
begin

text \<open>
  Confirmation of a tentative boot (\<open>core/boot_confirm.c\<close>) and rollback (\<open>core/boot_rollback.c\<close>):
  the anti-downgrade check, the choice between the application and the recovery OS, and the restoration
  of the application slot from the staging slot.
\<close>

section \<open>Confirmation\<close>

definition boot_confirm_evaluate :: "'s platform \<Rightarrow> u64 \<Rightarrow> 's \<Rightarrow> boot_status \<times> 's" where
  "boot_confirm_evaluate p expected_nonce s =
     (case (pf_clock p, pf_confirm p, pf_wdt p) of
        (Some clk, Some nh, Some w) \<Rightarrow>
          (case (kh_get_reset_reason clk, nh_check_ok nh, nh_clear nh, wh_kick w) of
             (Some get_reset_reason, Some check_ok, Some clear, Some kick) \<Rightarrow>
               (case get_reset_reason s of (_, s) \<Rightarrow>
                  case check_ok expected_nonce (kick s) of (is_ok, s) \<Rightarrow>
                    let s = kick s
                    in if \<not> secure_require is_ok
                       then (case clear (kick s) of (clear_stat, s) \<Rightarrow>
                               (if clear_stat \<noteq> BOOT_OK then clear_stat else BOOT_ERR_VERIFY, kick s))
                       else (BOOT_OK, s))
           | _ \<Rightarrow> (BOOT_ERR_NOT_SUPPORTED, s))
      | _ \<Rightarrow> (BOOT_ERR_INVALID_ARG, s))"

definition boot_confirm_clear :: "'s platform \<Rightarrow> 's \<Rightarrow> boot_status \<times> 's" where
  "boot_confirm_clear p s =
     (case (pf_confirm p, pf_wdt p) of
        (Some nh, Some w) \<Rightarrow>
          (case (nh_clear nh, wh_kick w) of
             (Some clear, Some kick) \<Rightarrow> (case clear (kick s) of (stat, s) \<Rightarrow> (stat, kick s))
           | _ \<Rightarrow> (BOOT_ERR_NOT_SUPPORTED, s))
      | _ \<Rightarrow> (BOOT_ERR_INVALID_ARG, s))"

section \<open>The anti-downgrade check\<close>

definition ROLLBACK_TARGET_APP :: u32 where "ROLLBACK_TARGET_APP = 0"
definition ROLLBACK_TARGET_RECOVERY :: u32 where "ROLLBACK_TARGET_RECOVERY = 1"
definition ROLLBACK_TARGET_STAGE1 :: u32 where "ROLLBACK_TARGET_STAGE1 = 2"

definition persisted_svn :: "wal_tmr_payload \<Rightarrow> u32 \<Rightarrow> u32 option" where
  "persisted_svn t target =
     (if target = ROLLBACK_TARGET_APP then Some (tm_app_svn t)
      else if target = ROLLBACK_TARGET_RECOVERY then Some (tm_svn_recovery_counter t)
      else if target = ROLLBACK_TARGET_STAGE1 then Some (tm_stage1_svn t)
      else None)"

text \<open>The CFI context both functions start with: three planned steps.\<close>

definition rollback_cfi :: "'s platform \<Rightarrow> 's \<Rightarrow> boot_cfi_ctx \<times> 's" where
  "rollback_cfi p s =
     (case boot_random_safe p 4 s of (_, buf, s) \<Rightarrow>
        (boot_cfi_add_expected 3 (boot_cfi_add_expected 2 (boot_cfi_add_expected 1
           (boot_cfi_init (rd32 0 (fill_prefix buf (zeroed 4)))))), s))"

definition boot_rollback_verify_svn ::
  "'s platform \<Rightarrow> journal_state \<Rightarrow> u32 \<Rightarrow> u32 \<Rightarrow> 's \<Rightarrow> boot_status \<times> 's" where
  "boot_rollback_verify_svn p j manifest_svn target s =
     (case (pf_crypto p, pf_wdt p) of
        (Some c, Some w) \<Rightarrow>
          (case rollback_cfi p s of (ctx, s) \<Rightarrow>
             case boot_journal_get_tmr j of (status, t) \<Rightarrow>
               if status \<noteq> BOOT_OK \<and> status \<noteq> BOOT_ERR_STATE \<and> status \<noteq> BOOT_ERR_NOT_FOUND then (status, s)
               else
                 (case persisted_svn (case t of None \<Rightarrow> tmr_zero | Some t \<Rightarrow> t) target of
                    None \<Rightarrow> (BOOT_ERR_INVALID_ARG, s)
                  | Some persisted_wal_svn \<Rightarrow>
                      let ctx = boot_cfi_step 1 ctx
                      in case boot_read_monotonic_counter_safe p (wdt_kick p s) of (efuse_status, v, s) \<Rightarrow>
                        let s = wdt_kick p s;
                            efuse_epoch = (case v of None \<Rightarrow> 0 | Some v \<Rightarrow> v)
                        in if \<not> secure_require (efuse_status = BOOT_OK \<or> efuse_status = BOOT_ERR_NOT_SUPPORTED)
                           then (BOOT_ERR_VERIFY, s)
                           else if efuse_status \<noteq> BOOT_OK \<and> efuse_status \<noteq> BOOT_ERR_NOT_SUPPORTED
                           then (efuse_status, s)
                           else
                             let ctx = boot_cfi_step 2 ctx;
                                 valid_wal = (manifest_svn \<ge> persisted_wal_svn);
                                 valid_efuse = (manifest_svn \<ge> efuse_epoch)
                             in if \<not> secure_require (valid_wal \<and> valid_efuse) then (BOOT_ERR_DOWNGRADE, s)
                                else
                                  let ctx = boot_cfi_step 3 ctx
                                  in if \<not> boot_cfi_require False ctx then (BOOT_ERR_VERIFY, s)
                                     else (BOOT_OK, s)))
      | _ \<Rightarrow> (BOOT_ERR_INVALID_ARG, s))"

section \<open>The choice of the OS\<close>

text \<open>
  A return value with the out-parameter, a terminal halt, or \<open>boot_panic\<close>, which does not come back.
\<close>

datatype os_verdict =
    Os_returns boot_status bool
  | Os_halts boot_status boot_site_id
  | Os_panics boot_status

definition boot_rollback_evaluate_os :: "chip_config \<Rightarrow> 's platform \<Rightarrow> wal_tmr_payload \<Rightarrow> os_verdict" where
  "boot_rollback_evaluate_os cc p tmr =
     (if pf_wdt p = None then Os_returns BOOT_ERR_INVALID_ARG False
      else
        let counter = tm_boot_failure_counter tmr; limit_normal = cc_max_retries cc
        in if counter \<le> limit_normal then
             (if \<not> secure_require (counter \<le> limit_normal)
              then Os_halts BOOT_ERR_INVALID_STATE SITE_ROLLBACK_CONFUSION
              else Os_returns BOOT_OK False)
           else
             let rec_counter = tm_recovery_failure_counter tmr; limit_rec = cc_max_recovery_retries cc
             in if rec_counter \<le> limit_rec then
                  (if \<not> secure_require (rec_counter \<le> limit_rec)
                   then Os_halts BOOT_ERR_INVALID_STATE SITE_ROLLBACK_CONFUSION
                   else Os_returns BOOT_OK True)
                else if \<not> secure_require (rec_counter > limit_rec)
                then Os_halts BOOT_ERR_INVALID_STATE SITE_ROLLBACK_CONFUSION
                else Os_panics BOOT_RECOVERY_REQUESTED)"

section \<open>Restoring the application slot\<close>

definition TOOB_MAGIC_HEADER :: u32 where "TOOB_MAGIC_HEADER = 0x544F4F42"

record toob_image_header =
  ih_magic :: u32
  ih_image_size :: u32
  ih_entry_point :: u32
  ih_base_fingerprint :: "u8 list"

definition image_header_of :: "u8 list \<Rightarrow> toob_image_header" where
  "image_header_of b = \<lparr> ih_magic = rd32 0 b, ih_image_size = rd32 4 b, ih_entry_point = rd32 8 b,
     ih_base_fingerprint = slice_of 12 8 b \<rparr>"

text \<open>What the loop carries.\<close>

record 's revert_run =
  rv_offset :: u32
  rv_erases :: u32
  rv_arena :: "u8 list"
  rv_intent :: wal_entry_payload
  rv_jn :: journal_state
  rv_dev :: 's

definition revert_whitelist :: "chip_config \<Rightarrow> allowed_region list" where
  "revert_whitelist cc = [ \<lparr> ar_base_addr = cc_app_addr cc, ar_max_size = cc_app_size cc \<rparr> ]"

definition boot_rollback_plan_chunk ::
  "chip_config \<Rightarrow> u32 \<Rightarrow> u32 \<Rightarrow> u32 \<Rightarrow> nat \<Rightarrow> boot_status \<times> flash_effect list" where
  "boot_rollback_plan_chunk cc current_offset block_size crc_src cap =
     (if cap < 2 then (BOOT_ERR_INVALID_ARG, [])
      else
        let src = cc_staging_addr cc + current_offset; dst = cc_app_addr cc + current_offset
        in (BOOT_OK, [erase_effect dst block_size, copy_effect src dst block_size crc_src]))"

text \<open>Half of the arena, rounded down to a multiple of eight.\<close>

definition half_arena :: "nat \<Rightarrow> nat" where
  "half_arena arena_len = arena_len div 2 div 8 * 8"

definition revert_step ::
  "'s build \<Rightarrow> 's platform \<Rightarrow> 's flash_hal \<Rightarrow> u32 \<Rightarrow> 's revert_run \<Rightarrow> (boot_status \<times> 's revert_run) option" where
  "revert_step b p fl image_size r =
     (let s = wdt_kick p (rv_dev r);
          src = cc_staging_addr (bd_chip b) + rv_offset r;
          dst = cc_app_addr (bd_chip b) + rv_offset r
      in case copy_geometry fl src dst (rv_offset r) image_size s of
           None \<Rightarrow> Some (BOOT_ERR_FLASH_HW, r\<lparr>rv_dev := s\<rparr>)
         | Some (dst_sec, n) \<Rightarrow> do {
             (st, crc_src, crc_dest, same, arena, s) \<leftarrow>
               identity_check (half_arena (length (rv_arena r))) p fl src dst n (rv_arena r) s;
             let r = r\<lparr>rv_arena := arena, rv_dev := s\<rparr>
             in if st \<noteq> BOOT_OK then Some (st, r)
                else if same then Some (BOOT_OK, r\<lparr>rv_offset := rv_offset r + of_nat n\<rparr>)
                else
                  (case boot_rollback_plan_chunk (bd_chip b) (rv_offset r) (of_nat n) crc_src 2 of (st, fx) \<Rightarrow>
                     if st \<noteq> BOOT_OK then Some (st, r)
                     else
                       let e = (rv_intent r)\<lparr>we_delta_chunk_id := rv_offset r\<rparr>
                       in case boot_journal_append (bd_wal b) p (rv_jn r) e s of (st, j, s) \<Rightarrow>
                            let r = r\<lparr>rv_intent := e, rv_jn := j, rv_dev := s\<rparr>
                            in if st \<noteq> BOOT_OK then Some (st, r)
                               else do {
                                 (st, arena, j, s) \<leftarrow> boot_effect_execute b p fl (revert_whitelist (bd_chip b)) fx arena j s;
                                 let r = r\<lparr>rv_arena := arena, rv_jn := j, rv_dev := s\<rparr>
                                 in if st \<noteq> BOOT_OK then Some (st, r)
                                    else Some (BOOT_OK, r\<lparr> rv_erases := rv_erases r + erase_share n dst_sec,
                                                           rv_offset := rv_offset r + of_nat n \<rparr>)
                               })
           })"

fun revert_loop ::
  "nat \<Rightarrow> 's build \<Rightarrow> 's platform \<Rightarrow> 's flash_hal \<Rightarrow> u32 \<Rightarrow> 's revert_run \<Rightarrow> (boot_status \<times> 's revert_run) option" where
  "revert_loop loops b p fl image_size r =
     (if \<not> rv_offset r < image_size then Some (BOOT_OK, r)
      else case loops of
        0 \<Rightarrow> Some (BOOT_ERR_FLASH_HW, r)
      | Suc l \<Rightarrow> do {
          (st, r) \<leftarrow> revert_step b p fl image_size r;
          if st \<noteq> BOOT_OK then Some (st, r) else revert_loop l b p fl image_size r
        })"

declare revert_loop.simps [simp del]

definition revert_max_loops :: "chip_config \<Rightarrow> nat" where
  "revert_max_loops cc = unat (cc_flash_total_size cc div 64 + 100)"

definition revert_telemetry :: "'s build \<Rightarrow> 's platform \<Rightarrow> 's revert_run \<Rightarrow> 's revert_run" where
  "revert_telemetry b p r =
     (if rv_erases r > 0 then
        (case boot_journal_get_tmr (rv_jn r) of
           (BOOT_OK, Some t) \<Rightarrow>
             (case boot_journal_update_tmr (bd_wal b) p (rv_jn r)
                     (t\<lparr>tm_app_slot_erase_counter := tm_app_slot_erase_counter t + rv_erases r\<rparr>) (rv_dev r) of
                (_, j, s) \<Rightarrow> r\<lparr>rv_jn := j, rv_dev := s\<rparr>)
         | _ \<Rightarrow> r)
      else r)"

definition zero_entry :: wal_entry_payload where
  "zero_entry = entry_of (zeroed 64)"

text \<open>The entry the copy starts from, and the offset: resumed, or a new rollback logged.\<close>

definition revert_resume ::
  "'s build \<Rightarrow> 's platform \<Rightarrow> u32 \<Rightarrow> journal_state \<Rightarrow> 's \<Rightarrow> boot_status \<times> u32 \<times> wal_entry_payload \<times> journal_state \<times> 's" where
  "revert_resume b p image_size j s =
     (case boot_journal_reconstruct_txn (bd_wal b) p j True False s of (st, r, s) \<Rightarrow>
        let pending = (case r of None \<Rightarrow> zero_entry | Some r \<Rightarrow> rc_state r)
        in if st \<noteq> BOOT_OK \<and> st \<noteq> BOOT_ERR_STATE then (st, 0, pending, j, s)
           else if we_intent pending = WAL_INTENT_TXN_ROLLBACK_PENDING
           then (BOOT_OK, if we_delta_chunk_id pending > image_size then image_size else we_delta_chunk_id pending,
                 pending, j, s)
           else
             let pending = zero_entry\<lparr> we_magic := WAL_ENTRY_MAGIC, we_intent := WAL_INTENT_TXN_ROLLBACK_PENDING,
                                       we_delta_chunk_id := 0 \<rparr>
             in case boot_journal_append (bd_wal b) p j pending s of (st, j, s) \<Rightarrow> (st, 0, pending, j, s))"

definition revert_copy ::
  "'s build \<Rightarrow> 's platform \<Rightarrow> 's flash_hal \<Rightarrow> u32 \<Rightarrow> boot_cfi_ctx \<Rightarrow> u8 list \<Rightarrow> journal_state \<Rightarrow> 's \<Rightarrow>
     (boot_status \<times> u8 list \<times> journal_state \<times> 's) option" where
  "revert_copy b p fl image_size ctx arena j s =
     (case revert_resume b p image_size j s of (st, offset, pending, j, s) \<Rightarrow>
        if st \<noteq> BOOT_OK then Some (st, zeroed (length arena), j, s)
        else do {
          (st, r) \<leftarrow> revert_loop (revert_max_loops (bd_chip b)) b p fl image_size
            \<lparr> rv_offset = offset, rv_erases = 0, rv_arena = arena, rv_intent = pending, rv_jn = j, rv_dev = s \<rparr>;
          if st \<noteq> BOOT_OK then Some (st, zeroed (length arena), rv_jn r, rv_dev r)
          else if \<not> boot_cfi_require False (boot_cfi_step 3 ctx)
          then Some (BOOT_ERR_INVALID_STATE, zeroed (length arena), rv_jn r, rv_dev r)
          else
            let r = revert_telemetry b p r;
                revert_intent = zero_entry\<lparr> we_magic := WAL_ENTRY_MAGIC, we_intent := WAL_INTENT_TXN_ROLLBACK \<rparr>
            in case boot_journal_append (bd_wal b) p (rv_jn r) revert_intent (rv_dev r) of (st, j, s) \<Rightarrow>
                 Some (st, zeroed (length arena), j, s)
        })"

definition boot_rollback_trigger_revert ::
  "'s build \<Rightarrow> 's platform \<Rightarrow> u8 list \<Rightarrow> journal_state \<Rightarrow> 's \<Rightarrow> (boot_status \<times> u8 list \<times> journal_state \<times> 's) option" where
  "boot_rollback_trigger_revert b p arena j s =
     (if length arena < 512 then Some (BOOT_ERR_INVALID_ARG, arena, j, s)
      else case (pf_flash p, pf_wdt p) of
        (Some fl, Some w) \<Rightarrow>
          (let cc = bd_chip b
           in case rollback_cfi p s of (ctx, s) \<Rightarrow>
             case fh_read fl (cc_staging_addr cc) 32 (wdt_kick p s) of (st, d, s) \<Rightarrow>
               let s = wdt_kick p s
               in if st \<noteq> BOOT_OK then Some (st, zeroed (length arena), j, s)
                  else
                    let h = image_header_of (fill_prefix d (zeroed 32));
                        ctx = boot_cfi_step 1 ctx;
                        size_valid = (ih_image_size h > 0 \<and> ih_image_size h \<noteq> 0xFFFFFFFF)
                    in if \<not> secure_require (ih_magic h = TOOB_MAGIC_HEADER \<and> size_valid)
                       then Some (BOOT_ERR_NOT_FOUND, zeroed (length arena), j, s)
                       else if ih_image_size h > cc_app_size cc
                       then Some (BOOT_ERR_FLASH_BOUNDS, zeroed (length arena), j, s)
                       else if UINT32_MAX - cc_staging_addr cc < ih_image_size h \<or>
                               UINT32_MAX - cc_app_addr cc < ih_image_size h
                       then Some (BOOT_ERR_FLASH_BOUNDS, zeroed (length arena), j, s)
                       else revert_copy b p fl (ih_image_size h) (boot_cfi_step 2 ctx) arena j s)
      | _ \<Rightarrow> Some (BOOT_ERR_INVALID_ARG, arena, j, s))"

end
