(* ===== verification/Copy_Crash.thy ===== *)
theory Copy_Crash
  imports Swap_Chunk Journal_Frame
begin

text \<open>
  Shared by the one-way copies (\<open>boot_copy_apply\<close>, \<open>boot_rollback_trigger_revert\<close>): the identity check and
  the block size on a device that may die at any flash operation.
\<close>

section \<open>The block size\<close>

definition block_len :: "nat \<Rightarrow> nat \<Rightarrow> nat \<Rightarrow> nat \<Rightarrow> nat" where
  "block_len walign sec len off =
     (if off + sec > len
      then let k = len - off in if k mod walign \<noteq> 0 then k + (walign - k mod walign) else k
      else sec)"

lemma block_len_bounds:
  assumes "off < len" and "0 < walign" and "sec mod walign = 0" and "0 < sec"
  shows "0 < block_len walign sec len off" and "block_len walign sec len off \<le> sec"
    and "block_len walign sec len off mod walign = 0"
    and "off + sec \<le> len \<Longrightarrow> block_len walign sec len off = sec"
    and "len < off + sec \<Longrightarrow> len - off \<le> block_len walign sec len off"
proof -
  let ?k = "len - off"
  show "0 < block_len walign sec len off" 
    using assms mod_less_divisor [OF assms(2), of ?k] by (auto simp: block_len_def Let_def)
  show "off + sec \<le> len \<Longrightarrow> block_len walign sec len off = sec" by (simp add: block_len_def)
  show "len < off + sec \<Longrightarrow> len - off \<le> block_len walign sec len off" by (simp add: block_len_def Let_def)
  have pad: "(?k + (walign - ?k mod walign)) mod walign = 0"
  proof -
    have le: "?k mod walign \<le> walign" using assms(2) by (simp add: order.strict_implies_order)
    have "?k + (walign - ?k mod walign) = (?k div walign) * walign + walign"
      using div_mult_mod_eq [of ?k walign] le by linarith
    then show ?thesis by simp
  qed
  then show "block_len walign sec len off mod walign = 0"
    using assms(3) by (auto simp: block_len_def Let_def)
  show "block_len walign sec len off \<le> sec"
  proof (cases "len < off + sec \<and> ?k mod walign \<noteq> 0")
    case True
    have "?k < sec" using True assms(1) by linarith
    moreover obtain q where q: "sec = walign * q" using assms(3) by auto
    ultimately have "?k div walign < q" using assms(2) by (metis div_less_iff_less_mult mult.commute)
    then have "(?k div walign + 1) * walign \<le> q * walign" by (intro mult_right_mono) auto
    moreover have "?k + (walign - ?k mod walign) = (?k div walign + 1) * walign"
    proof -
      have "?k = ?k div walign * walign + ?k mod walign" by simp
      then have "?k + (walign - ?k mod walign) = ?k div walign * walign + walign"
        using mod_less_divisor [OF assms(2), of ?k] by linarith
      then show ?thesis by simp
    qed
    ultimately show ?thesis using True q by (simp add: block_len_def mult.commute)
  next
    case False
    then show ?thesis by (auto simp: block_len_def Let_def)
  qed
qed

lemma clip_block_len:
  assumes "unat (fh_write_align fl) = walign" and "0 < walign"
  shows "clip_block fl off len sec = block_len walign sec (unat len) (unat off)"
  using assms by (auto simp: clip_block_def block_len_def Let_def word_gt_0 unat_eq_zero)

section \<open>The identity check\<close>

context mortal_flash
begin

lemma identity_loop_fate:
  assumes "live s" and "unat dest + n \<le> total" and "unat src + n \<le> total" and "off \<le> n" and "0 < half"
    and "half \<le> length bd" and "half \<le> length bs"
  shows "\<exists>same s'. identity_loop p fl dest src n half off bd bs s = Some (same, s') \<and> mem s' = mem s \<and>
    (live s' \<and> (same \<longleftrightarrow> slice_of (unat dest + off) (n - off) (mem s) = slice_of (unat src + off) (n - off) (mem s)) \<or>
     dead s' \<and> \<not> same)"
  using assms
proof (induction "n - off" arbitrary: off bd bs s rule: less_induct)
  case less
  have ml: "length (mem s) = total" using mem_len less.prems(1) .
  show ?case
  proof (cases "off < n")
    case False
    then show ?thesis using less.prems by (subst identity_loop.simps) auto
  next
    case True
    let ?k = "if n - off > half then half else n - off" and ?s = "wdt_kick p s"
    have k: "0 < ?k" "?k \<le> half" "off + ?k \<le> n" using True less.prems(5) by auto
    have a: "unat (dest + of_nat off) = unat dest + off" "unat (src + of_nat off) = unat src + off"
      using less.prems(2-4) total_addr by (auto intro!: flash_addr)
    have s: "live ?s" "mem ?s = mem s" using less.prems(1) by (simp_all add: wdt_fates)
    have in1: "unat (dest + of_nat off) + ?k \<le> total" "unat (src + of_nat off) + ?k \<le> total"
      using a k(3) less.prems(2,3) by auto
    from read_fate [OF s(1) in1(1)] show ?thesis
    proof (elim disjE exE conjE)
      fix st d s1 assume r: "fh_read fl (dest + of_nat off) ?k ?s = (st, d, s1)" "st \<noteq> BOOT_OK" "mem s1 = mem ?s" "dead s1"
      have "identity_loop p fl dest src n half off bd bs s = Some (False, s1)"
        using True r by (subst identity_loop.simps) (simp add: Let_def)
      then show ?thesis by (intro exI [of _ False] exI [of _ s1]) (use r s(2) in simp)
    next
      fix s1 assume r1: "fh_read fl (dest + of_nat off) ?k ?s = (BOOT_OK, slice_of (unat (dest + of_nat off)) ?k (mem ?s), s1)"
        and m1: "mem s1 = mem ?s" "live s1"
      from read_fate [OF m1(2) in1(2)] show ?thesis
      proof (elim disjE exE conjE)
        fix st d s2 assume r: "fh_read fl (src + of_nat off) ?k s1 = (st, d, s2)" "st \<noteq> BOOT_OK" "mem s2 = mem s1" "dead s2"
        have "identity_loop p fl dest src n half off bd bs s = Some (False, s2)"
          using True r r1 by (subst identity_loop.simps) (simp add: Let_def)
        then show ?thesis by (intro exI [of _ False] exI [of _ s2]) (use r m1 s(2) in simp)
      next
        fix s2 assume r2: "fh_read fl (src + of_nat off) ?k s1 = (BOOT_OK, slice_of (unat (src + of_nat off)) ?k (mem s1), s2)"
          and m2: "mem s2 = mem s1" "live s2"
        let ?D = "slice_of (unat dest + off) ?k (mem s)" and ?S = "slice_of (unat src + off) ?k (mem s)"
        have l: "length ?D = ?k" "length ?S = ?k" using ml in1 a by simp_all
        have m: "mem s2 = mem s" using m1 m2 s by simp
        let ?bd = "fill_prefix ?D bd" and ?bs = "fill_prefix ?S bs"
        have lb: "half \<le> length ?bd" "half \<le> length ?bs" using l k(2) less.prems(6,7) by simp_all
        have cmp: "constant_time_memcmp_glitch_safe ?bd ?bs ?k = BOOT_OK \<longleftrightarrow> ?D = ?S"
          using memcmp_iff [of ?k ?bd ?bs] k lb l by (simp add: take_fill_prefix_n)
        have split: "slice_of (unat x + off) (n - off) (mem s) =
            slice_of (unat x + off) ?k (mem s) @ slice_of (unat x + (off + ?k)) (n - (off + ?k)) (mem s)" for x :: u32
          using slice_of_split [of ?k "n - off" "unat x + off" "mem s"] k(3) by (simp add: add.assoc)
        have run: "identity_loop p fl dest src n half off bd bs s =
            (if ?D \<noteq> ?S then Some (False, s2) else identity_loop p fl dest src n half (off + ?k) ?bd ?bs s2)"
          using True r1 r2 m1 m2 s a cmp by (subst identity_loop.simps) (simp add: Let_def)
        show ?thesis
        proof (cases "?D = ?S")
          case False
          then show ?thesis using run m m2 split [of dest] split [of src] l by auto
        next
          case same: True
          have dec: "n - (off + ?k) < n - off" using k(1,3) True by linarith
          show ?thesis
            using less.hyps [OF dec m2(2) less.prems(2,3) k(3) less.prems(5) lb] run same m split [of dest] split [of src] by auto
        qed
      qed
    qed
  qed
qed

lemma identity_check_fate:
  assumes "live s" and "unat dest + n \<le> total" and "unat src + n \<le> total" and "0 < half" and "2 * half \<le> length arena"
  shows "\<exists>st cs cd same a s'. identity_check half p fl src dest n arena s = Some (st, cs, cd, same, a, s') \<and>
    mem s' = mem s \<and> length a = length arena \<and>
    (st = BOOT_OK \<and> live s' \<and> cs = compute_boot_crc32 (slice_of (unat src) n (mem s)) \<and>
       (same \<longleftrightarrow> slice_of (unat dest) n (mem s) = slice_of (unat src) n (mem s)) \<or>
     st = BOOT_OK \<and> dead s' \<and> \<not> same \<or> st \<noteq> BOOT_OK \<and> dead s')"
proof -
  have ne: "arena \<noteq> []" using assms(4,5) by auto
  obtain st c s1 where 1: "boot_crc32_flash_stream p fl src n arena s = Some (st, c, zeroed (length arena), s1)" "mem s1 = mem s"
      "st = BOOT_OK \<and> live s1 \<and> c = Some (compute_boot_crc32 (slice_of (unat src) n (mem s))) \<or> st \<noteq> BOOT_OK \<and> c = None \<and> dead s1"
    using crc_stream_fate [OF assms(1,3) ne] by blast
  show ?thesis
  proof (cases "st = BOOT_OK")
    case False
    then have r: "identity_check half p fl src dest n arena s = Some (st, 0, 0, False, zeroed (length arena), s1)"
      using 1(1) by (simp add: identity_check_def)
    show ?thesis
      by (rule exI [of _ st], rule exI [of _ 0], rule exI [of _ 0], rule exI [of _ False]) (use False 1(2,3) r in simp)
  next
    case True
    let ?z = "zeroed (length arena)"
    have l1: "live s1" "c = Some (compute_boot_crc32 (slice_of (unat src) n (mem s)))" using 1(3) True by auto
    have nz: "?z \<noteq> []" using ne by (simp add: zeroed_def)
    obtain st2 c2 s2 where 2: "boot_crc32_flash_stream p fl dest n ?z s1 = Some (st2, c2, ?z, s2)" "mem s2 = mem s1"
        "st2 = BOOT_OK \<and> live s2 \<and> c2 = Some (compute_boot_crc32 (slice_of (unat dest) n (mem s1))) \<or> st2 \<noteq> BOOT_OK \<and> c2 = None \<and> dead s2"
      using crc_stream_fate [OF l1(1) assms(2) nz] by auto
    show ?thesis
    proof (cases "st2 = BOOT_OK \<and> c = c2")
      case False
      have "\<exists>cs cd. identity_check half p fl src dest n arena s = Some (st2, cs, cd, False, ?z, s2) \<and> (st2 = BOOT_OK \<longrightarrow> cs = the c \<and> c2 \<noteq> c)"
        unfolding identity_check_def using 1(1) True 2(1,3) l1(2) False by auto
      then obtain cs cd where r: "identity_check half p fl src dest n arena s = Some (st2, cs, cd, False, ?z, s2)"
          "st2 = BOOT_OK \<longrightarrow> cs = the c \<and> c2 \<noteq> c" by blast
      have m: "mem s2 = mem s" using 1(2) 2(2) by simp
      have d: "st2 = BOOT_OK \<and> live s2 \<and> cs = compute_boot_crc32 (slice_of (unat src) n (mem s)) \<and>
          slice_of (unat dest) n (mem s) \<noteq> slice_of (unat src) n (mem s) \<or> st2 \<noteq> BOOT_OK \<and> dead s2"
        using 2(3) r(2) l1(2) 1(2) by auto
      show ?thesis
        by (rule exI [of _ st2], rule exI [of _ cs], rule exI [of _ cd], rule exI [of _ False],
            rule exI [of _ ?z], rule exI [of _ s2]) (use r(1) m d in auto)
    next
      case eq: True
      have l2: "live s2" using 2(3) eq by blast
      have h: "half \<le> length (take half ?z)" "half \<le> length (drop half ?z)" using assms(5) by simp_all
      obtain same s3 where 3: "identity_loop p fl dest src n half 0 (take half ?z) (drop half ?z) s2 = Some (same, s3)" "mem s3 = mem s2"
          "live s3 \<and> (same \<longleftrightarrow> slice_of (unat dest) n (mem s2) = slice_of (unat src) n (mem s2)) \<or> dead s3 \<and> \<not> same"
        using identity_loop_fate [OF l2 assms(2,3) _ assms(4) h, of 0] by auto
      have c2: "the c = the c2" "st2 = BOOT_OK" "c2 = c" using eq by auto
      have r: "identity_check half p fl src dest n arena s = Some (BOOT_OK, the c, the c2, same, ?z, s3)"
        unfolding identity_check_def using 1(1) True 2(1) c2 3(1) by simp
      have m: "mem s3 = mem s" using 1(2) 2(2) 3(2) by simp
      have v: "the c = compute_boot_crc32 (slice_of (unat src) n (mem s))" using l1(2) by simp
      have d: "live s3 \<and> (same \<longleftrightarrow> slice_of (unat dest) n (mem s) = slice_of (unat src) n (mem s)) \<or> dead s3 \<and> \<not> same"
        using 3(3) 2(2) 1(2) by simp
      show ?thesis
        by (rule exI [of _ BOOT_OK], rule exI [of _ "the c"], rule exI [of _ "the c2"], rule exI [of _ same],
            rule exI [of _ ?z], rule exI [of _ s3]) (use r m v d in simp)
    qed
  qed
qed

end

end
