(* ===== verification/Rollback_Crash.thy ===== *)
theory Rollback_Crash
  imports Boot_Rollback Copy_Crash Boot_Mailbox
begin

text \<open>
  The rollback copy on a device that may die at any flash operation, and the properties of
  \<open>Boot_Rollback\<close>.
\<close>

lemma zero_no_rollback: "we_intent zero_entry \<noteq> WAL_INTENT_TXN_ROLLBACK_PENDING"
  by (simp add: zero_entry_def entry_of_def rd32_def le32_def zeroed_def wal_intent_defs replicate_numeral)

lemma reconstruct_no_rollback:
  assumes "boot_journal_reconstruct_txn cfg p j wa wr s = (st, Some r, s')"
  shows "no_rollback r"
proof -
  have k: "no_rollback x" if "recon_sectors cfg p fl j wa wr n h q recon_start s = (x, y)" for fl n h q x y
    using recon_sectors_no_rollback [OF recon_start_no_rollback, of cfg p fl j wa wr n h q s] that by simp
  show ?thesis
    using assms by (auto simp: boot_journal_reconstruct_txn_def split: option.splits if_splits prod.splits dest: k)
qed

text \<open>The checksum tells apart what a chunk's ranges hold and an erased range.\<close>

definition crc_tells :: "nat \<Rightarrow> nat \<Rightarrow> chip_config \<Rightarrow> nat \<Rightarrow> nat \<Rightarrow> u8 list \<Rightarrow> bool" where
  "crc_tells walign sec cc len from m \<longleftrightarrow> (\<forall>off. off mod sec = 0 \<and> from \<le> off \<and> off < len \<longrightarrow>
     (let n = block_len walign sec len off
      in inj_on compute_boot_crc32
           {slice_of (unat (cc_staging_addr cc) + off) n m, replicate n 0xFF, slice_of (unat (cc_app_addr cc) + off) n m}))"

locale revert_device = mortal_wal p fl mem live dead total sec walign "bd_wal b"
  for p :: "'s platform" and fl mem live dead total sec walign and b :: "'s build" +
  assumes write_align: "unat (fh_write_align fl) = walign"
    and no_limit: "fh_max_erase_cycles fl = 0"
    and slots: "a \<in> {cc_app_addr (bd_chip b), cc_staging_addr (bd_chip b)} \<Longrightarrow>
      unat a mod sec = 0 \<and> unat a + unat (cc_app_size (bd_chip b)) \<le> total \<and>
      {unat a..<unat a + unat (cc_app_size (bd_chip b))} \<inter>
        (\<Union>i < wal_sectors (bd_wal b). {unat (wc_sector_addrs (bd_wal b) ! i)..<unat (wc_sector_addrs (bd_wal b) ! i) + sec}) = {}"
    and slot_whole: "unat (cc_app_size (bd_chip b)) mod sec = 0"
    and slots_apart: "apart (unat (cc_app_size (bd_chip b))) (unat (cc_staging_addr (bd_chip b))) (unat (cc_app_addr (bd_chip b)))"
    and flash_total: "unat (cc_flash_total_size (bd_chip b)) = total"
    and random_quiet: "pf_crypto p = Some c \<Longrightarrow> ch_random c = Some rnd \<Longrightarrow> rnd k s = (st, d, s') \<Longrightarrow>
      quiet mem live dead s s'"
begin

abbreviation app :: nat where "app \<equiv> unat (cc_app_addr (bd_chip b))"
abbreviation staging :: nat where "staging \<equiv> unat (cc_staging_addr (bd_chip b))"
abbreviation slot_len :: nat where "slot_len \<equiv> unat (cc_app_size (bd_chip b))"

text \<open>Where a chunk lies.\<close>

lemma slot_geometry: "app mod sec = 0" "staging mod sec = 0" "app + slot_len \<le> total" "staging + slot_len \<le> total"
  "{app..<app + slot_len} \<inter> wal_area = {}" "{staging..<staging + slot_len} \<inter> wal_area = {}"
  using slots by auto

lemma chunk_room:
  assumes "off mod sec = 0" and "off < slot_len"
  shows "off + sec \<le> slot_len"
proof -
  obtain q k where "slot_len = sec * q" "off = sec * k" using assms(1) slot_whole by (auto simp: mod_eq_0_iff_dvd elim!: dvdE)
  moreover from this have "Suc k \<le> q" using assms(2) by (metis Suc_leI nat_mult_less_cancel_disj)
  ultimately show ?thesis by (metis mult_Suc_right mult_le_mono2 add.commute)
qed

lemma chunk_addr:
  assumes "unat o' \<le> slot_len"
  shows "unat (cc_app_addr (bd_chip b) + o') = app + unat o'" "unat (cc_staging_addr (bd_chip b) + o') = staging + unat o'"
  using assms slot_geometry(3,4) total_addr by (auto intro!: unat_add_no_wrap)

abbreviation tells :: "nat \<Rightarrow> nat \<Rightarrow> u8 list \<Rightarrow> bool" where
  "tells \<equiv> crc_tells walign sec (bd_chip b)"

text \<open>What the loop keeps of its state.\<close>

definition revert_ok :: "nat \<Rightarrow> 's revert_run \<Rightarrow> bool" where
  "revert_ok al r \<longleftrightarrow> jn_ok (bd_wal b) walign (rv_jn r) \<and> jn_wal_initialized (rv_jn r) \<and> entry_wf (rv_intent r) \<and>
     length (rv_arena r) = al"

lemma half_arena_bounds: "16 \<le> k \<Longrightarrow> 0 < half_arena k" "2 * half_arena k \<le> k"
  by (auto simp: half_arena_def div_greater_zero_iff)

lemma revert_step_fate:
  assumes "live (rv_dev r)" and "revert_ok al r" and "512 \<le> al" and "al mod walign = 0"
    and "unat (rv_offset r) = off" and "off mod sec = 0" and "off < unat len" and "unat len \<le> slot_len"
    and "n = block_len walign sec (unat len) off"
    and "inj_on compute_boot_crc32 {slice_of (staging + off) n (mem (rv_dev r)), replicate n 0xFF, slice_of (app + off) n (mem (rv_dev r))}"
  shows "\<exists>st r'. revert_step b p fl len r = Some (st, r') \<and> revert_ok al r' \<and>
    changes (wal_area \<union> {app + off..<app + off + sec}) (mem (rv_dev r)) (mem (rv_dev r')) \<and>
    (st = BOOT_OK \<and> live (rv_dev r') \<and> unat (rv_offset r') = off + n \<and>
       slice_of (app + off) n (mem (rv_dev r')) = slice_of (staging + off) n (mem (rv_dev r)) \<or>
     st \<noteq> BOOT_OK \<and> dead (rv_dev r'))"
proof -
  let ?s = "wdt_kick p (rv_dev r)" and ?m = "mem (rv_dev r)"
  let ?d = "cc_app_addr (bd_chip b) + rv_offset r" and ?g = "cc_staging_addr (bd_chip b) + rv_offset r"
  have ml: "length ?m = total" using mem_len assms(1) .
  have s: "live ?s" "mem ?s = ?m" using assms(1) by (simp_all add: wdt_fates)
  note nb = block_len_bounds [OF assms(7) walign_pos sec_walign sec_pos, folded assms(9)]
  have lt: "off < slot_len" using assms(7,8) by simp
  note room = chunk_room [OF assms(6) lt]
  have a: "unat ?d = app + off" "unat ?g = staging + off" using chunk_addr assms(5) lt by auto
  have al: "unat ?d mod sec = 0" "unat ?g mod sec = 0" using a slot_geometry(1,2) assms(6) by (metis dvd_add mod_0_imp_dvd dvd_imp_mod_0)+
  have fit: "unat ?d + sec \<le> total" "unat ?g + sec \<le> total" using a room slot_geometry(3,4) by auto
  have sz: "fh_get_sector_size fl ?d ?s = (BOOT_OK, sec)" "fh_get_sector_size fl ?g ?s = (BOOT_OK, sec)"
    using sector_size_law [OF s(1)] fit sec_pos by auto
  have geo: "copy_geometry fl ?g ?d (rv_offset r) len ?s = Some (sec, n)"
    using sz al sec_pos clip_block_len [OF write_align walign_pos, of "rv_offset r" len sec] assms(5,9)
    by (simp add: copy_geometry_def sector_aligned_at_def)
  have un: "unat (of_nat n :: u32) = n" using nb(2) fit(1) total_addr by (intro unat_of_nat_u32) linarith
  let ?h = "half_arena (length (rv_arena r))"
  have h: "0 < ?h" "2 * ?h \<le> length (rv_arena r)" using half_arena_bounds assms(2,3) by (auto simp: revert_ok_def)
  obtain st cs cd same ar s1 where I: "identity_check ?h p fl ?g ?d n (rv_arena r) ?s = Some (st, cs, cd, same, ar, s1)"
      "mem s1 = ?m" "length ar = al"
      "st = BOOT_OK \<and> live s1 \<and> cs = compute_boot_crc32 (slice_of (unat ?g) n ?m) \<and>
         (same \<longleftrightarrow> slice_of (unat ?d) n ?m = slice_of (unat ?g) n ?m) \<or>
       st = BOOT_OK \<and> dead s1 \<and> \<not> same \<or> st \<noteq> BOOT_OK \<and> dead s1"
    using identity_check_fate [OF s(1) _ _ h, of ?d n ?g] fit nb(2) s(2) assms(2) by (auto simp: revert_ok_def)
  let ?r = "r\<lparr>rv_arena := ar, rv_dev := s1\<rparr>"
  have ok: "revert_ok al ?r" using assms(2) I(3) by (simp add: revert_ok_def)
  show ?thesis
  proof (cases "st = BOOT_OK")
    case False
    then have "revert_step b p fl len r = Some (st, ?r)"
      using geo I(1) by (simp add: revert_step_def Let_def)
    then show ?thesis using False I ok by auto
  next
    case sok: True
    show ?thesis
    proof (cases same)
      case True
      then have st: "revert_step b p fl len r = Some (BOOT_OK, ?r\<lparr>rv_offset := rv_offset r + of_nat n\<rparr>)"
        using geo I(1) sok by (simp add: revert_step_def Let_def)
      have "unat (rv_offset r + of_nat n) = off + n"
        using assms(5) un fit(1) a(1) nb(2) total_addr by (simp add: unat_add_no_wrap)
      moreover have "live s1" "slice_of (unat ?d) n ?m = slice_of (unat ?g) n ?m" using I(4) True sok by auto
      ultimately show ?thesis using st ok I(2) a by (auto simp: revert_ok_def)
    next
      case False
      let ?e = "(rv_intent r)\<lparr>we_delta_chunk_id := rv_offset r\<rparr>"
      obtain st2 j2 s2 where ap: "boot_journal_append (bd_wal b) p (rv_jn r) ?e s1 = (st2, j2, s2)" by (metis prod_cases3)
      have ewf: "entry_wf ?e" "jn_ok (bd_wal b) walign (rv_jn r)" "jn_wal_initialized (rv_jn r)"
        using assms(2) by (auto simp: revert_ok_def entry_wf_def)
      have al1: "alive s1" using I(4) by blast
      have A: "changes wal_area ?m (mem s2)" "jn_ok (bd_wal b) walign j2" "jn_wal_initialized j2"
          "st2 = BOOT_OK \<and> live s2 \<or> st2 \<noteq> BOOT_OK \<and> dead s2"
        using append_alive [OF al1 ewf(2,1) ap] ewf(3) no_limit I(2) by auto
      let ?r2 = "?r\<lparr>rv_intent := ?e, rv_jn := j2, rv_dev := s2\<rparr>"
      let ?fx = "[erase_effect ?d (of_nat n), copy_effect ?g ?d (of_nat n) cs]"
      have stp: "revert_step b p fl len r =
          (if st2 \<noteq> BOOT_OK then Some (st2, ?r2)
           else do {
             (st, arena, j, s) \<leftarrow> boot_effect_execute b p fl (revert_whitelist (bd_chip b)) ?fx ar j2 s2;
             let r = ?r2\<lparr>rv_arena := arena, rv_jn := j, rv_dev := s\<rparr>
             in if st \<noteq> BOOT_OK then Some (st, r)
                else Some (BOOT_OK, r\<lparr> rv_erases := rv_erases r + erase_share n sec, rv_offset := rv_offset r + of_nat n \<rparr>) })"
        using geo I(1) sok False ap by (simp add: revert_step_def boot_rollback_plan_chunk_def Let_def cong: if_cong)
      show ?thesis
      proof (cases "st2 = BOOT_OK")
        case bad: False
        have "changes (wal_area \<union> {app + off..<app + off + sec}) ?m (mem s2)" using A(1) changes_mono by blast
        moreover have "revert_step b p fl len r = Some (st2, ?r2)" using stp bad by simp
        moreover have "revert_ok al ?r2" using A(2,3) ewf(1) I(3) by (simp add: revert_ok_def)
        moreover have "dead (rv_dev ?r2)" using A(4) bad by simp
        ultimately show ?thesis using bad by (intro exI [of _ st2] exI [of _ ?r2]) simp
      next
        case good: True
        have l2: "live s2" using A(4) good by blast
        have "\<not> dead s1 \<or> live s1" using I(4) append_dead [OF _ ewf(2,1) ap] good sok by blast
        then have cs: "cs = compute_boot_crc32 (slice_of (unat ?g) n ?m)"
          using I(4) append_dead [OF _ ewf(2,1) ap] good sok False by blast
        have "{staging + off..<staging + off + n} \<subseteq> {staging..<staging + slot_len}"
            "{app + off..<app + off + n} \<subseteq> {app..<app + slot_len}"
          using nb(2) room by auto
        then have dj: "{staging + off..<staging + off + n} \<inter> wal_area = {}" "{app + off..<app + off + n} \<inter> wal_area = {}"
          using slot_geometry(5,6) by blast+
        have keep: "slice_of (unat ?g) n (mem s2) = slice_of (unat ?g) n ?m" "slice_of (unat ?d) n (mem s2) = slice_of (unat ?d) n ?m"
          unfolding a by (rule slice_of_changes [OF A(1)], use dj ml fit a nb(2) in simp_all)+
        have ap2: "apart sec (unat ?g) (unat ?d)" using a slots_apart room by (auto simp: apart_def)
        have allow: "effect_allowed (revert_whitelist (bd_chip b)) (erase_effect ?d (of_nat n))"
          using a(1) un nb(1,2) room slot_geometry(3) total_addr
          by (auto simp: effect_allowed_def revert_whitelist_def is_buffer_within_iff)
        have inj: "inj_on compute_boot_crc32 {slice_of (unat ?g) n (mem s2), replicate n 0xFF, slice_of (unat ?d) n (mem s2)}"
          using assms(10) keep a by simp
        have ar: "ar \<noteq> []" "length ar mod walign = 0" using I(3) assms(3,4) by auto
        have cs2: "cs = compute_boot_crc32 (slice_of (unat ?g) n (mem s2))" using cs keep by simp
        obtain st3 a3 s3 where X: "boot_effect_execute b p fl (revert_whitelist (bd_chip b)) ?fx ar j2 s2 = Some (st3, a3, j2, s3)"
            "length a3 = al" "touches (unat ?d) sec (mem s2) (mem s3)"
            "st3 = BOOT_OK \<and> live s3 \<and> slice_of (unat ?d) n (mem s3) = slice_of (unat ?g) n (mem s2) \<or> st3 \<noteq> BOOT_OK \<and> dead s3"
          using erase_copy_fate [OF l2 ar erased allow un [symmetric] nb(1,2,3) refl refl al(1) fit ap2 cs2 inj, of b "[]" j2] I(3)
          by (auto split: if_splits)
        have ch: "changes (wal_area \<union> {app + off..<app + off + sec}) ?m (mem s3)"
          using changes_trans [OF changes_mono [OF A(1)] touches_changes [OF X(3)]] a by simp
        have "unat (rv_offset r + of_nat n) = off + n"
          using assms(5) un fit(1) a(1) nb(2) total_addr by (simp add: unat_add_no_wrap)
        note adv = this
        let ?r3 = "?r2\<lparr>rv_arena := a3, rv_jn := j2, rv_dev := s3\<rparr>"
        have ok3: "revert_ok al ?r3" using A(2,3) ewf(1) X(2) by (simp add: revert_ok_def)
        show ?thesis
        proof (cases "st3 = BOOT_OK")
          case True
          let ?r4 = "?r3\<lparr>rv_erases := rv_erases r + erase_share n sec, rv_offset := rv_offset r + of_nat n\<rparr>"
          have "revert_step b p fl len r = Some (BOOT_OK, ?r4)" using stp good X(1) True by (simp add: Let_def)
          moreover have "revert_ok al ?r4" using ok3 by (simp add: revert_ok_def)
          moreover have "live s3" "slice_of (app + off) n (mem s3) = slice_of (staging + off) n ?m"
            using X(4) True keep(1) a by auto
          ultimately show ?thesis using ch adv by (intro exI [of _ BOOT_OK] exI [of _ ?r4]) simp
        next
          case False
          have "revert_step b p fl len r = Some (st3, ?r3)" using stp good X(1) False by (simp add: Let_def)
          moreover have "dead s3" using X(4) False by auto
          ultimately show ?thesis using ch ok3 False by (intro exI [of _ st3] exI [of _ ?r3]) simp
        qed
      qed
    qed
  qed
qed

text \<open>What the copy leaves alone.\<close>

lemma outside_app:
  assumes "changes (wal_area \<union> {app + a..<app + e}) m m'" and "length m = total" and "off + k \<le> slot_len"
  shows "e \<le> slot_len \<Longrightarrow> slice_of (staging + off) k m' = slice_of (staging + off) k m"
    and "off + k \<le> a \<or> e \<le> off \<Longrightarrow> slice_of (app + off) k m' = slice_of (app + off) k m"
proof -
  have sub: "{staging + off..<staging + off + k} \<subseteq> {staging..<staging + slot_len}"
      "{app + off..<app + off + k} \<subseteq> {app..<app + slot_len}" using assms(3) by auto
  have fit: "staging + off + k \<le> length m" "app + off + k \<le> length m" using slot_geometry(3,4) assms(2,3) by auto
  show "slice_of (staging + off) k m' = slice_of (staging + off) k m" if "e \<le> slot_len"
  proof (rule slice_of_changes [OF assms(1) fit(1)])
    have "{staging..<staging + slot_len} \<inter> {app + a..<app + e} = {}" using slots_apart that by (auto simp: apart_def)
    then show "{staging + off..<staging + off + k} \<inter> (wal_area \<union> {app + a..<app + e}) = {}"
      using sub(1) slot_geometry(6) by blast
  qed
  show "slice_of (app + off) k m' = slice_of (app + off) k m" if "off + k \<le> a \<or> e \<le> off"
  proof (rule slice_of_changes [OF assms(1) fit(2)])
    have "{app + off..<app + off + k} \<inter> {app + a..<app + e} = {}" using that by auto
    then show "{app + off..<app + off + k} \<inter> (wal_area \<union> {app + a..<app + e}) = {}"
      using sub(2) slot_geometry(5) by blast
  qed
qed

lemma crc_tells_next:
  assumes "tells len off m" and "changes (wal_area \<union> {app + off..<app + off + sec}) m m'" and "length m = total"
    and "off mod sec = 0" and "len \<le> slot_len" and "off + sec \<le> len"
  shows "tells len (off + sec) m'"
  unfolding crc_tells_def
proof (intro allI impI, elim conjE)
  fix o2 assume o2: "o2 mod sec = 0" "off + sec \<le> o2" "o2 < len"
  let ?n = "block_len walign sec len o2"
  have "o2 + ?n \<le> slot_len"
    using block_len_bounds(2) [OF o2(3) walign_pos sec_walign sec_pos] chunk_room [OF o2(1)] o2(3) assms(5) by linarith
  then have "slice_of (staging + o2) ?n m' = slice_of (staging + o2) ?n m" "slice_of (app + o2) ?n m' = slice_of (app + o2) ?n m"
    using outside_app [of off "off + sec" m m' o2 ?n] assms o2 by (auto simp: add.assoc)
  then show "let n = block_len walign sec len o2 in
      inj_on compute_boot_crc32 {slice_of (staging + o2) n m', replicate n 0xFF, slice_of (app + o2) n m'}"
    using assms(1) o2 by (auto simp: crc_tells_def Let_def)
qed

text \<open>The bound on the number of blocks.\<close>

lemma loops_enough: "len \<le> total \<Longrightarrow> len \<le> revert_max_loops (bd_chip b) * sec"
proof -
  assume le: "len \<le> total"
  let ?f = "cc_flash_total_size (bd_chip b)"
  have "unat (?f div 64 + 100) = total div 64 + 100"
    using flash_total total_addr by (subst unat_add_no_wrap) (auto simp: unat_div)
  then have "total \<le> revert_max_loops (bd_chip b) * 64" unfolding revert_max_loops_def by simp
  also have "\<dots> \<le> revert_max_loops (bd_chip b) * sec" using wal_min by simp
  finally show ?thesis using le by simp
qed

text \<open>The whole loop.\<close>

lemma revert_loop_fate:
  assumes "live (rv_dev r)" and "revert_ok al r" and "512 \<le> al" and "al mod walign = 0"
    and "unat (rv_offset r) = off" and "off mod sec = 0 \<or> unat len \<le> off" and "unat len \<le> slot_len"
    and "tells (unat len) off (mem (rv_dev r))" and "unat len \<le> off + loops * sec"
  shows "\<exists>st r'. revert_loop loops b p fl len r = Some (st, r') \<and> revert_ok al r' \<and>
    changes (wal_area \<union> {app + off..<app + slot_len}) (mem (rv_dev r)) (mem (rv_dev r')) \<and>
    (st = BOOT_OK \<and> live (rv_dev r') \<and>
       slice_of (app + off) (unat len - off) (mem (rv_dev r')) = slice_of (staging + off) (unat len - off) (mem (rv_dev r)) \<or>
     st \<noteq> BOOT_OK \<and> dead (rv_dev r'))"
  using assms
proof (induction loops arbitrary: r off)
  case 0
  then show ?case by (subst revert_loop.simps) (auto simp: word_less_nat_alt)
next
  case (Suc l)
  let ?m = "mem (rv_dev r)" and ?L = "unat len"
  have ml: "length ?m = total" using mem_len Suc.prems(1) .
  show ?case
  proof (cases "off < ?L")
    case False
    then show ?thesis using Suc.prems by (subst revert_loop.simps) (auto simp: word_less_nat_alt)
  next
    case True
    let ?n = "block_len walign sec ?L off"
    have o: "off mod sec = 0" "off < slot_len" using Suc.prems(6,7) True by auto
    note room = chunk_room [OF o] and nb = block_len_bounds [OF True walign_pos sec_walign sec_pos]
    have inj: "inj_on compute_boot_crc32 {slice_of (staging + off) ?n ?m, replicate ?n 0xFF, slice_of (app + off) ?n ?m}"
      using Suc.prems(8) o(1) True by (auto simp: crc_tells_def Let_def)
    obtain st r1 where S: "revert_step b p fl len r = Some (st, r1)" "revert_ok al r1"
        "changes (wal_area \<union> {app + off..<app + off + sec}) ?m (mem (rv_dev r1))"
        "st = BOOT_OK \<and> live (rv_dev r1) \<and> unat (rv_offset r1) = off + ?n \<and>
           slice_of (app + off) ?n (mem (rv_dev r1)) = slice_of (staging + off) ?n ?m \<or>
         st \<noteq> BOOT_OK \<and> dead (rv_dev r1)"
      using revert_step_fate [OF Suc.prems(1-5) o(1) True Suc.prems(7) refl inj] by blast
    have wide: "changes (wal_area \<union> {app + off..<app + slot_len}) ?m (mem (rv_dev r1))"
      using S(3) room by (rule_tac changes_mono) auto
    have run: "revert_loop (Suc l) b p fl len r = (if st \<noteq> BOOT_OK then Some (st, r1) else revert_loop l b p fl len r1)"
      using True Suc.prems(5) S(1) by (subst revert_loop.simps) (simp add: word_less_nat_alt)
    show ?thesis
    proof (cases "st = BOOT_OK")
      case False
      then show ?thesis using run S(2,4) wide by auto
    next
      case sok: True
      have S4: "live (rv_dev r1)" "unat (rv_offset r1) = off + ?n"
          "slice_of (app + off) ?n (mem (rv_dev r1)) = slice_of (staging + off) ?n ?m"
        using S(4) sok by auto
      have ml1: "length (mem (rv_dev r1)) = total" using mem_len S4(1) .
      show ?thesis
      proof (cases "off + sec \<le> ?L")
        case whole: True
        have n: "?n = sec" using nb(4) whole by simp
        have ct: "tells ?L (off + sec) (mem (rv_dev r1))"
          using crc_tells_next [OF Suc.prems(8) S(3) ml o(1) Suc.prems(7) whole] .
        have ix: "(off + sec) mod sec = 0 \<or> ?L \<le> off + sec" using o(1) by simp
        obtain st2 r2 where T: "revert_loop l b p fl len r1 = Some (st2, r2)" "revert_ok al r2"
            "changes (wal_area \<union> {app + (off + sec)..<app + slot_len}) (mem (rv_dev r1)) (mem (rv_dev r2))"
            "st2 = BOOT_OK \<and> live (rv_dev r2) \<and> slice_of (app + (off + sec)) (?L - (off + sec)) (mem (rv_dev r2)) =
                slice_of (staging + (off + sec)) (?L - (off + sec)) (mem (rv_dev r1)) \<or> st2 \<noteq> BOOT_OK \<and> dead (rv_dev r2)"
          using Suc.IH [OF S4(1) S(2) Suc.prems(3,4) _ ix Suc.prems(7) ct] S4(2) n Suc.prems(9) by (auto simp: algebra_simps)
        have ch: "changes (wal_area \<union> {app + off..<app + slot_len}) ?m (mem (rv_dev r2))"
          by (rule changes_trans [OF wide changes_mono [OF T(3)]]) auto
        have "slice_of (app + off) (?L - off) (mem (rv_dev r2)) = slice_of (staging + off) (?L - off) ?m"
          if "live (rv_dev r2)" "slice_of (app + (off + sec)) (?L - (off + sec)) (mem (rv_dev r2)) =
                slice_of (staging + (off + sec)) (?L - (off + sec)) (mem (rv_dev r1))"
        proof -
          have k: "?L - off = sec + (?L - (off + sec))" using whole by simp
          have "slice_of (staging + (off + sec)) (?L - (off + sec)) (mem (rv_dev r1)) =
              slice_of (staging + (off + sec)) (?L - (off + sec)) ?m"
            using outside_app(1) [of off "off + sec" ?m "mem (rv_dev r1)" "off + sec"] S(3) ml room Suc.prems(7) whole
            by (simp add: add.assoc)
          moreover have "slice_of (app + off) sec (mem (rv_dev r2)) = slice_of (app + off) sec (mem (rv_dev r1))"
            using outside_app(2) [OF T(3) ml1, of off sec] room by simp
          ultimately show ?thesis using that S4(3) n unfolding k slice_of_append [symmetric] by (simp add: add.assoc)
        qed
        then show ?thesis using run sok T ch by auto
      next
        case last: False
        have "\<not> rv_offset r1 < len" using S4(2) nb(5) last by (simp add: word_less_nat_alt)
        then have "revert_loop l b p fl len r1 = Some (BOOT_OK, r1)" by (subst revert_loop.simps) simp
        moreover have "slice_of (app + off) (?L - off) (mem (rv_dev r1)) = slice_of (staging + off) (?L - off) ?m"
          using arg_cong [OF S4(3), of "take (?L - off)"] nb(5) last by (simp add: slice_of_prefix min_absorb1)
        ultimately show ?thesis using run sok S(2) S4(1) wide by auto
      qed
    qed
  qed
qed

text \<open>The copy with its journal traffic.\<close>

lemma wal_kept:
  assumes "changes wal_area m m'" and "length m = total" and "off + k \<le> slot_len"
  shows "slice_of (staging + off) k m' = slice_of (staging + off) k m" "slice_of (app + off) k m' = slice_of (app + off) k m"
  using outside_app [of 0 0 m m' off k] assms by simp_all

lemma crc_tells_wal:
  assumes "tells len 0 m" and "changes wal_area m m'" and "length m = total" and "len \<le> slot_len"
  shows "tells len 0 m'"
  unfolding crc_tells_def
proof (intro allI impI, elim conjE)
  fix o2 assume o2: "o2 mod sec = 0" "o2 < len"
  let ?n = "block_len walign sec len o2"
  have "o2 + ?n \<le> slot_len"
    using block_len_bounds(2) [OF o2(2) walign_pos sec_walign sec_pos] chunk_room [OF o2(1)] o2(2) assms(4) by linarith
  then show "let n = block_len walign sec len o2 in
      inj_on compute_boot_crc32 {slice_of (staging + o2) n m', replicate n 0xFF, slice_of (app + o2) n m'}"
    using wal_kept [OF assms(2,3)] assms(1) o2 by (auto simp: crc_tells_def Let_def)
qed

lemma resume_fate:
  assumes "live s" and "jn_ok (bd_wal b) walign j" and "jn_wal_initialized j"
  shows "\<exists>st e j' s'. revert_resume b p len j s = (st, 0, e, j', s') \<and> changes wal_area (mem s) (mem s') \<and>
    jn_ok (bd_wal b) walign j' \<and> jn_wal_initialized j' \<and> entry_wf e \<and> (st = BOOT_OK \<and> live s' \<or> st \<noteq> BOOT_OK \<and> dead s')"
proof -
  obtain st r s1 where q: "boot_journal_reconstruct_txn (bd_wal b) p j True False s = (st, r, s1)" by (metis prod_cases3)
  have al: "alive s" using assms(1) by blast
  have R: "mem s1 = mem s" "alive s1" "st \<in> {BOOT_OK, BOOT_ERR_STATE}" using reconstruct_alive [OF al assms(2) q] by auto
  let ?e = "zero_entry\<lparr> we_magic := WAL_ENTRY_MAGIC, we_intent := WAL_INTENT_TXN_ROLLBACK_PENDING, we_delta_chunk_id := 0 \<rparr>"
  obtain st2 j2 s2 where ap: "boot_journal_append (bd_wal b) p j ?e s1 = (st2, j2, s2)" by (metis prod_cases3)
  have wf: "entry_wf ?e" by (simp add: zero_entry_def entry_wf_def entry_of_def)
  have A: "changes wal_area (mem s) (mem s2)" "jn_ok (bd_wal b) walign j2" "jn_wal_initialized j2"
      "st2 = BOOT_OK \<and> live s2 \<or> st2 \<noteq> BOOT_OK \<and> dead s2"
    using append_alive [OF R(2) assms(2) wf ap] assms(3) no_limit R(1) by auto
  have nr: "no_rollback x" if "r = Some x" for x using reconstruct_no_rollback [OF q [unfolded that]] .
  have "revert_resume b p len j s = (st2, 0, ?e, j2, s2)"
    using q R(3) nr ap
    by (auto simp: revert_resume_def Let_def no_rollback_def zero_no_rollback split: option.splits)
  then show ?thesis using A wf by blast
qed

lemma telemetry_alive:
  assumes "live (rv_dev r)" and "revert_ok al r"
  shows "changes wal_area (mem (rv_dev r)) (mem (rv_dev (revert_telemetry b p r))) \<and> alive (rv_dev (revert_telemetry b p r)) \<and>
    revert_ok al (revert_telemetry b p r)"
proof -
  let ?t = "hd_tmr_data (jn_current_active_header (rv_jn r))"
  let ?u = "?t\<lparr>tm_app_slot_erase_counter := tm_app_slot_erase_counter ?t + rv_erases r\<rparr>"
  obtain st j s where u: "boot_journal_update_tmr (bd_wal b) p (rv_jn r) ?u (rv_dev r) = (st, j, s)" by (metis prod_cases3)
  have ok: "jn_ok (bd_wal b) walign (rv_jn r)" "jn_wal_initialized (rv_jn r)" using assms(2) by (auto simp: revert_ok_def)
  have "tmr_wf ?u" using ok(1) by (simp add: jn_ok_def tmr_wf_def)
  from update_alive [OF _ ok(1) this u] assms(1)
  have "changes wal_area (mem (rv_dev r)) (mem s)" "jn_ok (bd_wal b) walign j" "jn_wal_initialized j" "alive s"
    using ok(2) by (auto simp: Let_def)
  then show ?thesis
    using assms u ok by (auto simp: revert_telemetry_def boot_journal_get_tmr_def revert_ok_def)
qed

lemma revert_copy_fate:
  assumes "live s" and "jn_ok (bd_wal b) walign j" and "jn_wal_initialized j" and "512 \<le> length a" and "length a mod walign = 0"
    and "unat len \<le> slot_len" and "tells (unat len) 0 (mem s)" and "boot_cfi_require False (boot_cfi_step 3 ctx)"
  shows "\<exists>st j' s'. revert_copy b p fl len ctx a j s = Some (st, zeroed (length a), j', s') \<and>
    changes (wal_area \<union> {app..<app + slot_len}) (mem s) (mem s') \<and>
    (st = BOOT_OK \<and> live s' \<and> slice_of app (unat len) (mem s') = slice_of staging (unat len) (mem s) \<or>
     st \<noteq> BOOT_OK \<and> dead s')"
proof -
  let ?A = "wal_area \<union> {app..<app + slot_len}"
  have ml: "length (mem s) = total" using mem_len assms(1) .
  obtain st1 e j1 s1 where Q: "revert_resume b p len j s = (st1, 0, e, j1, s1)" "changes wal_area (mem s) (mem s1)"
      "jn_ok (bd_wal b) walign j1" "jn_wal_initialized j1" "entry_wf e" "st1 = BOOT_OK \<and> live s1 \<or> st1 \<noteq> BOOT_OK \<and> dead s1"
    using resume_fate [OF assms(1-3), of len] by blast
  have c1: "changes ?A (mem s) (mem s1)" by (rule changes_mono [OF Q(2)]) auto
  show ?thesis
  proof (cases "st1 = BOOT_OK")
    case False
    then show ?thesis using Q(1,6) c1 by (simp add: revert_copy_def)
  next
    case ok1: True
    let ?r = "\<lparr> rv_offset = 0, rv_erases = 0, rv_arena = a, rv_intent = e, rv_jn = j1, rv_dev = s1 \<rparr>"
    have l1: "live (rv_dev ?r)" using Q(6) ok1 by simp
    have rok: "revert_ok (length a) ?r" using Q(3-5) by (simp add: revert_ok_def)
    have ct: "tells (unat len) 0 (mem (rv_dev ?r))" using crc_tells_wal [OF assms(7) Q(2) ml assms(6)] by simp
    have fuel: "unat len \<le> 0 + revert_max_loops (bd_chip b) * sec" using loops_enough assms(6) slot_geometry(3) by simp
    obtain st2 r2 where L: "revert_loop (revert_max_loops (bd_chip b)) b p fl len ?r = Some (st2, r2)" "revert_ok (length a) r2"
        "changes ?A (mem s1) (mem (rv_dev r2))"
        "st2 = BOOT_OK \<and> live (rv_dev r2) \<and> slice_of app (unat len) (mem (rv_dev r2)) = slice_of staging (unat len) (mem s1) \<or>
         st2 \<noteq> BOOT_OK \<and> dead (rv_dev r2)"
      using revert_loop_fate [OF l1 rok assms(4,5) _ _ assms(6) ct fuel] by auto
    have c2: "changes ?A (mem s) (mem (rv_dev r2))" using changes_trans [OF c1 L(3)] .
    show ?thesis
    proof (cases "st2 = BOOT_OK")
      case False
      then show ?thesis using Q(1) ok1 L(1,4) c2 by (simp add: revert_copy_def)
    next
      case ok2: True
      let ?r3 = "revert_telemetry b p r2"
      let ?e = "zero_entry\<lparr> we_magic := WAL_ENTRY_MAGIC, we_intent := WAL_INTENT_TXN_ROLLBACK \<rparr>"
      have l2: "live (rv_dev r2)" "slice_of app (unat len) (mem (rv_dev r2)) = slice_of staging (unat len) (mem s1)"
        using L(4) ok2 by auto
      note T = telemetry_alive [OF l2(1) L(2)]
      obtain st4 j4 s4 where ap: "boot_journal_append (bd_wal b) p (rv_jn ?r3) ?e (rv_dev ?r3) = (st4, j4, s4)" by (metis prod_cases3)
      have wf: "entry_wf ?e" by (simp add: zero_entry_def entry_wf_def entry_of_def)
      have "alive (rv_dev ?r3)" "jn_ok (bd_wal b) walign (rv_jn ?r3)" "jn_wal_initialized (rv_jn ?r3)"
        using T by (auto simp: revert_ok_def)
      from append_alive [OF this(1,2) wf ap] this(3) no_limit
      have A: "changes wal_area (mem (rv_dev ?r3)) (mem s4)" "st4 = BOOT_OK \<and> live s4 \<or> st4 \<noteq> BOOT_OK \<and> dead s4" by auto
      have c3: "changes wal_area (mem (rv_dev r2)) (mem s4)" using changes_trans [OF conjunct1 [OF T] A(1)] .
      have "changes ?A (mem s) (mem s4)" using changes_trans [OF c2 changes_mono [OF c3]] by auto
      moreover have "revert_copy b p fl len ctx a j s = Some (st4, zeroed (length a), j4, s4)"
        using Q(1) ok1 L(1) ok2 assms(8) ap by (simp add: revert_copy_def Let_def)
      moreover have "slice_of app (unat len) (mem s4) = slice_of staging (unat len) (mem s)"
        using wal_kept(2) [OF c3, of 0 "unat len"] wal_kept(1) [OF Q(2) ml, of 0 "unat len"] l2 mem_len assms(6) by simp
      ultimately show ?thesis using A(2) by blast
    qed
  qed
qed

lemma rollback_cfi_quiet:
  assumes "rollback_cfi p s = (ctx, s')"
  shows "quiet mem live dead s s'" and "boot_cfi_require False (boot_cfi_step 3 (boot_cfi_step 2 (boot_cfi_step 1 ctx)))"
proof -
  obtain st buf s1 where r: "boot_random_safe p 4 s = (st, buf, s1)" by (metis prod_cases3)
  then have "quiet mem live dead s s1"
    by (auto simp: boot_random_safe_def dest: random_quiet split: option.splits prod.splits if_splits)
  then show "quiet mem live dead s s'" using assms r by (simp add: rollback_cfi_def)
  show "boot_cfi_require False (boot_cfi_step 3 (boot_cfi_step 2 (boot_cfi_step 1 ctx)))"
    using assms r by (auto simp: rollback_cfi_def boot_cfi_require_iff boot_cfi_step_def boot_cfi_add_expected_def
        boot_cfi_init_def ac_simps)
qed

lemma trigger_revert_fate:
  assumes "pf_wdt p \<noteq> None" and "live s" and "jn_ok (bd_wal b) walign j" and "jn_wal_initialized j"
    and "512 \<le> length a" and "length a mod walign = 0" and "32 \<le> slot_len"
    and "h = image_header_of (slice_of staging 32 (mem s))" and "ih_magic h = TOOB_MAGIC_HEADER"
    and "0 < ih_image_size h" and "unat (ih_image_size h) \<le> slot_len"
    and "tells (unat (ih_image_size h)) 0 (mem s)"
  shows "\<exists>st j' s'. boot_rollback_trigger_revert b p a j s = Some (st, zeroed (length a), j', s') \<and>
    changes (wal_area \<union> {app..<app + slot_len}) (mem s) (mem s') \<and>
    slice_of staging slot_len (mem s') = slice_of staging slot_len (mem s) \<and>
    (st = BOOT_OK \<and> live s' \<and>
       slice_of app (unat (ih_image_size h)) (mem s') = slice_of staging (unat (ih_image_size h)) (mem s) \<or>
     st \<noteq> BOOT_OK \<and> dead s')"
proof -
  let ?n = "ih_image_size h"
  obtain ctx s1 where q: "rollback_cfi p s = (ctx, s1)" by fastforce
  note Q = rollback_cfi_quiet [OF q]
  have s1: "live s1" "mem s1 = mem s" using Q(1) assms(2) by (auto simp: quiet_def)
  have k: "live (wdt_kick p s1)" "mem (wdt_kick p s1) = mem s" using s1 by (simp_all add: wdt_fates)
  obtain st d s2 where r: "fh_read fl (cc_staging_addr (bd_chip b)) 32 (wdt_kick p s1) = (st, d, s2)" by (metis prod_cases3)
  have R: "mem s2 = mem s" "st = BOOT_OK \<and> live s2 \<and> d = slice_of staging 32 (mem s) \<or> st \<noteq> BOOT_OK \<and> dead s2"
    using read_alive [OF _ _ r] k assms(7) slot_geometry(4) by auto
  obtain w where w: "pf_wdt p = Some w" using assms(1) by auto
  have keep: "slice_of staging slot_len m' = slice_of staging slot_len (mem s)"
    if "changes (wal_area \<union> {app..<app + slot_len}) (mem s) m'" for m'
    using outside_app(1) [of 0 slot_len "mem s" m' 0 slot_len] that mem_len assms(2) by simp
  show ?thesis
  proof (cases "st = BOOT_OK")
    case False
    then show ?thesis
      using assms(5) w q r R by (auto simp: boot_rollback_trigger_revert_def flash_ptr wdt_fates Let_def)
  next
    case True
    let ?s = "wdt_kick p s2"
    have s2: "live ?s" "mem ?s = mem s" "d = slice_of staging 32 (mem s)" using R True by (auto simp: wdt_fates)
    have "fill_prefix d (zeroed 32) = d"
      using mem_len [OF assms(2)] slot_geometry(4) assms(7) s2(3) by (simp add: fill_prefix_def)
    then have h: "image_header_of (fill_prefix d (zeroed 32)) = h" using assms(8) s2(3) by simp
    have lt: "unat ?n < 2 ^ 32 - 1" "staging + unat ?n < 2 ^ 32" "app + unat ?n < 2 ^ 32"
      using assms(11) slot_geometry(3,4) total_addr slots_apart assms(7) by (auto simp: apart_def)
    have nv: "?n \<noteq> 0xFFFFFFFF" using lt(1) by auto
    have fit: "\<not> UINT32_MAX - a < ?n" if "unat a + unat ?n < 2 ^ 32" for a
      using that unat_sub_no_wrap [of a UINT32_MAX] unat_u32_le_max [of a]
      by (simp add: word_less_nat_alt)
    have run: "boot_rollback_trigger_revert b p a j s =
        revert_copy b p fl ?n (boot_cfi_step 2 (boot_cfi_step 1 ctx)) a j ?s"
      using assms(5,9,10,11) w q r True h nv fit [OF lt(2)] fit [OF lt(3)]
      by (auto simp: boot_rollback_trigger_revert_def flash_ptr Let_def word_less_nat_alt)
    have ct: "tells (unat ?n) 0 (mem ?s)" using assms(12) s2(2) by simp
    obtain st' j' s' where C: "revert_copy b p fl ?n (boot_cfi_step 2 (boot_cfi_step 1 ctx)) a j ?s = Some (st', zeroed (length a), j', s')"
        "changes (wal_area \<union> {app..<app + slot_len}) (mem s) (mem s')"
        "st' = BOOT_OK \<and> live s' \<and> slice_of app (unat ?n) (mem s') = slice_of staging (unat ?n) (mem s) \<or> st' \<noteq> BOOT_OK \<and> dead s'"
      using revert_copy_fate [OF s2(1) assms(3-6) assms(11) ct Q(2)] unfolding s2(2) by blast
    show ?thesis
      unfolding run by (rule exI [of _ st'], rule exI [of _ j'], rule exI [of _ s']) (use C keep [OF C(2)] in simp)
  qed
qed

end

section \<open>A device\<close>

text \<open>
  The demonstration log followed by the application sector and the staging sector, on a part whose power
  fails at its \<open>k\<close>-th destructive operation. The staging slot holds an image of twelve bytes, its header.
\<close>

definition revert_chip :: chip_config where
  "revert_chip = generated_chip_config\<lparr> cc_app_addr := 960, cc_app_size := 192, cc_staging_addr := 1152,
     cc_flash_total_size := 1344 \<rparr>"

definition revert_build :: "flash_model build" where
  "revert_build = \<lparr> bd_wal = demo_config, bd_chip = revert_chip, bd_caps = None \<rparr>"

definition revert_port :: "flash_model flash_hal" where
  "revert_port = brownout_port 192 1 0xFF 0"

definition revert_platform :: "flash_model platform" where
  "revert_platform = sandbox_platform revert_port (Pair 4)"

definition revert_image :: "u8 list" where
  "revert_image = to_le32 TOOB_MAGIC_HEADER @ to_le32 12 @ to_le32 1156"

definition revert_state :: "nat \<Rightarrow> flash_model" where
  "revert_state k = \<lparr> fm_file = demo_image @ (replicate 192 1 @ revert_image @ replicate 180 0xFF), fm_total_size = 1344,
     fm_sector_size = 192, fm_erased_value = 0xFF, fm_write_align = 1, fm_fail_at_op = k, fm_torn_prefix = 5,
     fm_op_counter = 0 \<rparr>"

lemma revert_sel [simp]:
  "bd_wal revert_build = demo_config" "bd_chip revert_build = revert_chip"
  "cc_app_addr revert_chip = 960" "cc_app_size revert_chip = 192" "cc_staging_addr revert_chip = 1152"
  "cc_flash_total_size revert_chip = 1344" "fh_erased_value revert_port = 0xFF" "fh_max_erase_cycles revert_port = 0"
  "fh_write_align revert_port = 1" "pf_crypto revert_platform = Some (sandbox_crypto_hal (Pair 4))"
  "pf_wdt revert_platform \<noteq> None"
  by (simp_all add: revert_build_def revert_chip_def revert_port_def revert_platform_def brownout_port_def model_port_def)

lemma sandbox_random_still: "sandbox_crypto_random (Pair 4) n s = (st, d, s') \<Longrightarrow> s' = s"
proof -
  have "snd (((\<lambda>(bs, s). (bs @ [4 :: u8], s)) ^^ n) (bs, s)) = s" for bs
    by (induction n) (auto split: prod.splits)
  then show "sandbox_crypto_random (Pair 4) n s = (st, d, s') \<Longrightarrow> s' = s"
    by (auto simp: sandbox_crypto_random_def Let_def) (metis snd_conv)
qed

lemma revert_mortal: "mortal_flash revert_platform revert_port fm_file (brownout_live 1344 192 1 0xFF) model_down 1344 192 1"
proof -
  have "mortal_flash (model_platform revert_port) revert_port fm_file (brownout_live 1344 192 1 0xFF) model_down 1344 192 1"
    unfolding revert_port_def by (rule brownout_contract) simp_all
  then show ?thesis by (simp add: mortal_flash_def revert_platform_def)
qed

interpretation revert: revert_device revert_platform revert_port fm_file "brownout_live 1344 192 1 0xFF" model_down 1344 192 1
    revert_build
proof (intro revert_device.intro mortal_wal.intro)
  show "mortal_flash revert_platform revert_port fm_file (brownout_live 1344 192 1 0xFF) model_down 1344 192 1"
    by (rule revert_mortal)
  have c: "crypto_frame revert_platform (sandbox_crypto_hal (Pair 4)) fm_file l" for l
    unfolding revert_platform_def by (rule sandbox_leaves_flash)
  show "mortal_wal_axioms revert_platform revert_port fm_file (brownout_live 1344 192 1 0xFF) model_down 1344 192 1 (bd_wal revert_build)"
    by unfold_locales (use c in \<open>auto simp: demo_addr\<close>)
  have "192 * i + 192 \<le> 960" if "i < 5" for i :: nat using that by simp
  then show "revert_device_axioms revert_platform revert_port fm_file (brownout_live 1344 192 1 0xFF) model_down 1344 192 1 revert_build"
    by unfold_locales
      (auto simp: demo_addr apart_def quiet_def sandbox_crypto_hal_def dest!: sandbox_random_still)
qed

lemma revert_live: "brownout_live 1344 192 1 0xFF (revert_state k)"
  using demo_live [OF demo_tmr_wf]
  by (auto simp: model_live_def brownout_live_def revert_state_def demo_state_of_def revert_image_def model_down_def)

lemma revert_slots:
  "slice_of 960 n (fm_file (revert_state k)) = take n (replicate 192 1 @ revert_image @ replicate 180 0xFF)"
  "slice_of 1152 n (fm_file (revert_state k)) = take n (revert_image @ replicate 180 0xFF)"
proof -
  have l: "length demo_image = 960" using demo_live [OF demo_tmr_wf] by (simp add: model_live_def)
  show "slice_of 960 n (fm_file (revert_state k)) = take n (replicate 192 1 @ revert_image @ replicate 180 0xFF)"
    "slice_of 1152 n (fm_file (revert_state k)) = take n (revert_image @ replicate 180 0xFF)"
    using l by (simp_all add: slice_of_def revert_state_def)
qed

lemma revert_bytes: "revert_image = [0x42, 0x4F, 0x4F, 0x54, 12, 0, 0, 0, 0x84, 4, 0, 0]"
  by (simp add: revert_image_def to_le32_def TOOB_MAGIC_HEADER_def drop_bit_eq_div)

lemma revert_header:
  "ih_magic (image_header_of (slice_of 1152 32 (fm_file (revert_state k)))) = TOOB_MAGIC_HEADER"
  "ih_image_size (image_header_of (slice_of 1152 32 (fm_file (revert_state k)))) = 12"
  by (simp_all add: revert_slots image_header_of_def revert_image_def TOOB_MAGIC_HEADER_def le_simps rd32_def)

lemma revert_crcs:
  "inj_on compute_boot_crc32 {revert_image, replicate 12 0xFF, replicate 12 1}"
  by (simp add: revert_bytes compute_boot_crc32_def crc32_byte_unroll crc32_bit_def TOOB_CRC32_INIT_def
      TOOB_CRC32_POLY_def TOOB_CRC32_FINAL_XOR_def replicate_numeral)

lemma revert_tells: "crc_tells 1 192 revert_chip 12 0 (fm_file (revert_state k))"
proof -
  have z: "o' = 0" if "o' mod 192 = 0" "o' < (12 :: nat)" for o' using that by auto
  have "length revert_image = 12" by (simp add: revert_image_def)
  then have "slice_of 1152 12 (fm_file (revert_state k)) = revert_image"
    "slice_of 960 12 (fm_file (revert_state k)) = replicate 12 1"
    by (simp_all add: revert_slots)
  then have "inj_on compute_boot_crc32 {slice_of 1152 12 (fm_file (revert_state k)), replicate 12 0xFF,
      slice_of 960 12 (fm_file (revert_state k))}"
    using revert_crcs by presburger
  note inj = this
  show ?thesis
    unfolding crc_tells_def
  proof (intro allI impI, elim conjE)
    fix off :: nat assume "off mod 192 = 0" "off < 12"
    then have "off = 0" by (rule z)
    then show "let n = block_len 1 192 12 off in inj_on compute_boot_crc32
        {slice_of (unat (cc_staging_addr revert_chip) + off) n (fm_file (revert_state k)), replicate n 0xFF,
         slice_of (unat (cc_app_addr revert_chip) + off) n (fm_file (revert_state k))}"
      using inj by (simp add: block_len_def)
  qed
qed

section \<open>Properties\<close>



text \<open>
  C39. The reconstruction of the transaction never reports a rollback in progress: whatever the log holds, the
  entry it returns is not \<open>WAL_INTENT_TXN_ROLLBACK_PENDING\<close>, the intent under which the rollback logs
  its progress. So the rollback never resumes; each attempt starts at offset zero.
\<close>

theorem rollback_never_resumes:
  "(case boot_journal_reconstruct_txn cfg p j wa wr s of
      (_, None, _) \<Rightarrow> True
    | (_, Some r, _) \<Rightarrow> we_intent (rc_state r) \<noteq> WAL_INTENT_TXN_ROLLBACK_PENDING) \<and>
   fst (snd (revert_resume b p image_size j s)) = 0"
proof
  have nr: "we_intent (rc_state r) \<noteq> WAL_INTENT_TXN_ROLLBACK_PENDING"
    if "boot_journal_reconstruct_txn c p j wa wr s = (st, Some r, s')" for c wa wr st r s'
    using reconstruct_no_rollback [OF that] by (simp add: no_rollback_def)
  then show "case boot_journal_reconstruct_txn cfg p j wa wr s of (_, None, _) \<Rightarrow> True
    | (_, Some r, _) \<Rightarrow> we_intent (rc_state r) \<noteq> WAL_INTENT_TXN_ROLLBACK_PENDING"
    by (auto split: prod.splits option.splits)
  show "fst (snd (revert_resume b p image_size j s)) = 0"
    using nr zero_no_rollback by (auto simp: revert_resume_def Let_def split: prod.splits option.splits)
qed

text \<open>
  C8. The anti-downgrade check accepts an image exactly when its SVN is at least the SVN the journal holds for
  the target and at least the eFuse counter, on a part whose eFuse reads or is not supported. A part without a
  journal yet is bound by its eFuses only; a part without eFuses by its journal only.
\<close>

theorem verify_svn_accepts_iff:
  "fst (boot_rollback_verify_svn p j svn target s) = BOOT_OK \<longleftrightarrow>
   pf_crypto p \<noteq> None \<and> pf_wdt p \<noteq> None \<and>
   (case persisted_svn (if jn_wal_initialized j then hd_tmr_data (jn_current_active_header j) else tmr_zero) target of
      None \<Rightarrow> False | Some floor \<Rightarrow> floor \<le> svn) \<and>
   (case boot_read_monotonic_counter_safe p (wdt_kick p (snd (rollback_cfi p s))) of
      (st, v, _) \<Rightarrow> (st = BOOT_OK \<or> st = BOOT_ERR_NOT_SUPPORTED) \<and> (case v of None \<Rightarrow> True | Some e \<Rightarrow> e \<le> svn))"
proof -
  obtain ctx s1 where q: "rollback_cfi p s = (ctx, s1)" by fastforce
  have c: "boot_cfi_require False (boot_cfi_step 3 (boot_cfi_step 2 (boot_cfi_step 1 ctx)))"
    using q by (auto simp: rollback_cfi_def boot_cfi_require_iff boot_cfi_step_def boot_cfi_add_expected_def
        boot_cfi_init_def ac_simps split: prod.splits)
  show ?thesis
    using q c by (auto simp: boot_rollback_verify_svn_def boot_journal_get_tmr_def Let_def split: option.splits prod.splits)
qed

end
