(* ===== verification/Boot_Verify.thy ===== *)
theory Boot_Verify
  imports Boot_Crc32 Boot_Ct_Utils Sandbox_Platform
begin

text \<open>
  The signature gate of the manifest (\<open>core/boot_verify.c\<close>). The compile-time switches
  \<open>TOOB_PQC_ENABLED\<close> and \<open>TOOB_DOUBLE_VERIFY\<close> are arguments. A pointer into memory is its address
  with the bytes behind it, \<open>None\<close> for \<open>NULL\<close>; a length that travels beside a pointer is the length of
  those bytes.

  \<open>signature_oracle\<close> is what the gate, the cloud commands and Stage 0 rely on from the crypto driver: key
  slots with fixed contents, and a signature check whose verdict depends on message, signature and key.
\<close>

section \<open>The envelope\<close>

record verify_envelope =
  ve_manifest_flash_addr :: u32
  ve_manifest_size :: nat
  ve_signature_ed25519 :: "u8 list option"
  ve_key_index :: u8
  ve_pqc_hybrid_active :: bool
  ve_signature_pqc :: "(u32 \<times> u8 list) option"
  ve_pubkey_pqc :: "(u32 \<times> u8 list) option"

section \<open>The steps\<close>

definition boot_secure_confirm :: "boot_status \<Rightarrow> boot_status" where
  "boot_secure_confirm st = boot_secure_confirm_impl st False"

text \<open>Steps 3 and 4: no newer key in the fuses, and the key of the manifest's index.\<close>

definition verify_load_key ::
  "(nat \<Rightarrow> u8 \<Rightarrow> 's \<Rightarrow> boot_status \<times> u8 list \<times> 's) \<Rightarrow> 's platform \<Rightarrow> u8 \<Rightarrow> boot_cfi_ctx \<Rightarrow> 's \<Rightarrow>
     (boot_status + u8 list \<times> boot_cfi_ctx) \<times> 's" where
  "verify_load_key read_pubkey p key_index ctx s =
     (let next_idx = key_index + (if key_index < 255 then 1 else 0)
      in case read_pubkey 32 next_idx (wdt_kick p s) of (next_key_stat, dummy, s) \<Rightarrow>
           let s = wdt_kick p s
           in if next_key_stat \<noteq> BOOT_OK \<and> next_key_stat \<noteq> BOOT_ERR_NOT_FOUND then (Inl next_key_stat, s)
              else if \<not> secure_require (key_index = 255 \<or> next_key_stat = BOOT_ERR_NOT_FOUND)
              then (Inl BOOT_ERR_DOWNGRADE, s)
              else
                let ctx = boot_cfi_step 2 ctx
                in case read_pubkey 32 key_index (wdt_kick p s) of (key_stat, buf, s) \<Rightarrow>
                     let s = wdt_kick p s; root_pubkey = fill_prefix buf (zeroed 32)
                     in if boot_secure_confirm key_stat \<noteq> BOOT_OK
                        then (Inl (if key_stat \<noteq> BOOT_OK then key_stat else BOOT_ERR_VERIFY), s)
                        else if verify_not_all_zeros_glitch_safe root_pubkey \<noteq> BOOT_OK
                        then (Inl BOOT_ERR_VERIFY, s)
                        else (Inr (root_pubkey, boot_cfi_step 3 ctx), s))"

text \<open>Step 5: the Ed25519 check, twice if the build asks for it.\<close>

definition verify_ed25519 ::
  "bool \<Rightarrow> (u8 list \<Rightarrow> u8 list \<Rightarrow> u8 list \<Rightarrow> 's \<Rightarrow> boot_status \<times> 's) \<Rightarrow> 's platform \<Rightarrow>
     u8 list \<Rightarrow> u8 list \<Rightarrow> u8 list \<Rightarrow> 's \<Rightarrow> bool \<times> 's" where
  "verify_ed25519 double verify_signature p msg sig root_pubkey s =
     (case verify_signature msg sig root_pubkey (wdt_kick p s) of (verify_stat, s) \<Rightarrow>
        let s = wdt_kick p s
        in if double then
             (case verify_signature msg sig root_pubkey s of (verify_stat_2, s) \<Rightarrow>
                let s = wdt_kick p s
                in (secure_require (verify_stat = BOOT_OK \<and> verify_stat_2 = BOOT_OK) \<and>
                      boot_secure_confirm verify_stat = BOOT_OK, s))
           else (boot_secure_confirm verify_stat = BOOT_OK, s))"

text \<open>Step 6: the post-quantum signature; the result carries the CFI context past it.\<close>

definition verify_pqc_step ::
  "'s crypto_hal \<Rightarrow> 's platform \<Rightarrow> verify_envelope \<Rightarrow> u32 \<Rightarrow> u8 list \<Rightarrow> boot_cfi_ctx \<Rightarrow> 's \<Rightarrow>
     (boot_status + boot_cfi_ctx) \<times> 's" where
  "verify_pqc_step c p e base msg ctx s =
     (case (case ch_is_pqc_enforced c of None \<Rightarrow> (False, s) | Some f \<Rightarrow> f s) of (pqc_enforced, s) \<Rightarrow>
        if pqc_enforced \<or> ve_pqc_hybrid_active e then
          (if \<not> secure_require (pqc_enforced \<or> ve_pqc_hybrid_active e) then (Inl BOOT_ERR_VERIFY, s)
           else case ch_verify_pqc c of
             None \<Rightarrow> (Inl BOOT_ERR_NOT_SUPPORTED, s)
           | Some verify_pqc \<Rightarrow>
               (case (ve_signature_pqc e, ve_pubkey_pqc e) of
                  (Some (sig_at, sig), Some (key_at, key)) \<Rightarrow>
                    (if sig = [] \<or> key = [] then (Inl BOOT_ERR_INVALID_ARG, s)
                     else
                       let pqc_pub_ok = is_buffer_within key_at (length key) base (length msg);
                           pqc_sig_ok = is_buffer_within sig_at (length sig) base (length msg)
                       in if \<not> secure_require (pqc_pub_ok \<and> pqc_sig_ok) then (Inl BOOT_ERR_INVALID_ARG, s)
                          else if verify_not_all_zeros_glitch_safe key \<noteq> BOOT_OK then (Inl BOOT_ERR_VERIFY, s)
                          else
                            (case verify_pqc msg sig key (wdt_kick p s) of (pqc_stat, s) \<Rightarrow>
                               let s = wdt_kick p s
                               in if boot_secure_confirm pqc_stat \<noteq> BOOT_OK then (Inl BOOT_ERR_VERIFY, s)
                                  else (Inr (boot_cfi_step 5 (boot_cfi_add_expected 5 ctx)), s)))
                | _ \<Rightarrow> (Inl BOOT_ERR_INVALID_ARG, s)))
        else if \<not> secure_require (\<not> pqc_enforced \<and> \<not> ve_pqc_hybrid_active e) then (Inl BOOT_ERR_VERIFY, s)
        else (Inr (boot_cfi_step 6 (boot_cfi_add_expected 6 ctx)), s))"

text \<open>The CFI context: four planned steps.\<close>

definition verify_cfi :: "'s platform \<Rightarrow> 's \<Rightarrow> boot_cfi_ctx \<times> 's" where
  "verify_cfi p s =
     (case boot_random_safe p 4 s of (_, buf, s) \<Rightarrow>
        (boot_cfi_add_expected 4 (boot_cfi_add_expected 3 (boot_cfi_add_expected 2 (boot_cfi_add_expected 1
           (boot_cfi_init (rd32 0 (fill_prefix buf (zeroed 4))))))), s))"

text \<open>The gate; \<open>work\<close> is the work buffer with its address.\<close>

definition boot_verify_manifest_envelope ::
  "bool \<Rightarrow> bool \<Rightarrow> 's platform \<Rightarrow> verify_envelope option \<Rightarrow> (u32 \<times> u8 list) option \<Rightarrow> 's \<Rightarrow> boot_status \<times> 's" where
  "boot_verify_manifest_envelope pqc double p envelope work s =
     (case verify_cfi p s of (ctx, s) \<Rightarrow>
        case envelope of
          None \<Rightarrow> (BOOT_ERR_INVALID_ARG, s)
        | Some e \<Rightarrow>
            (case (pf_flash p, pf_wdt p, pf_crypto p) of
               (Some fl, Some w, Some c) \<Rightarrow>
                 (case (ve_signature_ed25519 e, work) of
                    (Some sig, Some (base, buf)) \<Rightarrow>
                      (case (ch_read_pubkey c, ch_verify_signature c) of
                         (Some read_pubkey, Some verify_signature) \<Rightarrow>
                           let n = ve_manifest_size e
                           in if n = 0 \<or> n > length buf then (BOOT_ERR_INVALID_ARG, s)
                              else if unat UINT32_MAX - unat base < n then (BOOT_ERR_INVALID_ARG, s)
                              else
                                (case verify_load_key read_pubkey p (ve_key_index e) (boot_cfi_step 1 ctx) s of
                                   (Inl st, s) \<Rightarrow> (st, s)
                                 | (Inr (root_pubkey, ctx), s) \<Rightarrow>
                                     (case verify_ed25519 double verify_signature p (take n buf) sig root_pubkey s of
                                        (ok, s) \<Rightarrow>
                                          if \<not> ok then (BOOT_ERR_VERIFY, s)
                                          else
                                            let ctx = boot_cfi_step 4 ctx
                                            in case (if pqc then verify_pqc_step c p e base (take n buf) ctx s
                                                     else (Inr (boot_cfi_step 6 (boot_cfi_add_expected 6 ctx)), s)) of
                                                 (Inl st, s) \<Rightarrow> (st, s)
                                               | (Inr ctx, s) \<Rightarrow>
                                                   (if \<not> boot_cfi_require False ctx then BOOT_ERR_VERIFY else BOOT_OK, s)))
                       | _ \<Rightarrow> (BOOT_ERR_NOT_SUPPORTED, s))
                  | _ \<Rightarrow> (BOOT_ERR_INVALID_ARG, s))
             | _ \<Rightarrow> (BOOT_ERR_INVALID_ARG, s)))"

section \<open>What the gate relies on\<close>

locale signature_oracle =
  fixes p :: "'s platform" and c :: "'s crypto_hal" and fl :: "'s flash_hal" and w :: "'s wdt_hal"
    and read_pubkey :: "nat \<Rightarrow> u8 \<Rightarrow> 's \<Rightarrow> boot_status \<times> u8 list \<times> 's"
    and verify_signature :: "u8 list \<Rightarrow> u8 list \<Rightarrow> u8 list \<Rightarrow> 's \<Rightarrow> boot_status \<times> 's"
    and K :: "u8 \<Rightarrow> u8 list option" and V :: "u8 list \<Rightarrow> u8 list \<Rightarrow> u8 list \<Rightarrow> bool"
  assumes parts [simp]: "pf_flash p = Some fl" "pf_wdt p = Some w" "pf_crypto p = Some c"
      "ch_read_pubkey c = Some read_pubkey" "ch_verify_signature c = Some verify_signature"
    and key_law: "K i = Some k \<Longrightarrow> \<exists>s'. read_pubkey 32 i s = (BOOT_OK, k, s')"
    and no_key_law: "K i = None \<Longrightarrow> \<exists>d s'. read_pubkey 32 i s = (BOOT_ERR_NOT_FOUND, d, s')"
    and key_length: "K i = Some k \<Longrightarrow> length k = 32"
    and signature_law: "\<exists>st s'. verify_signature m g k s = (st, s') \<and> (st = BOOT_OK \<longleftrightarrow> V m g k)"

text \<open>The post-quantum engine: whether the part enforces it, and its verdicts.\<close>

locale pqc_oracle = signature_oracle p c fl w read_pubkey verify_signature K V
  for p :: "'s platform" and c fl w read_pubkey verify_signature K V +
  fixes verify_pqc :: "u8 list \<Rightarrow> u8 list \<Rightarrow> u8 list \<Rightarrow> 's \<Rightarrow> boot_status \<times> 's"
    and E :: bool and Q :: "u8 list \<Rightarrow> u8 list \<Rightarrow> u8 list \<Rightarrow> bool"
  assumes pqc_part: "ch_verify_pqc c = Some verify_pqc"
    and pqc_law: "\<exists>st s'. verify_pqc m g k s = (st, s') \<and> (st = BOOT_OK \<longleftrightarrow> Q m g k)"
    and enforced_law: "(case ch_is_pqc_enforced c of None \<Rightarrow> \<not> E | Some f \<Rightarrow> \<forall>s. fst (f s) = E)"

definition sound_key :: "u8 list \<Rightarrow> bool" where
  "sound_key k \<longleftrightarrow> (\<exists>b \<in> set k. b \<noteq> 0) \<and> (\<exists>b \<in> set k. b \<noteq> 0xFF)"

lemma boot_secure_confirm_OK [simp]: "boot_secure_confirm st = BOOT_OK \<longleftrightarrow> st = BOOT_OK"
  by (simp add: boot_secure_confirm_def boot_secure_confirm_iff)

lemma verify_cfi_complete:
  assumes "verify_cfi p s = (ctx, s')" and "k \<in> {5, 6}"
  shows "boot_cfi_require False (boot_cfi_step k (boot_cfi_add_expected k
    (boot_cfi_step 4 (boot_cfi_step 3 (boot_cfi_step 2 (boot_cfi_step 1 ctx))))))"
  using assms by (auto simp: verify_cfi_def boot_cfi_require_iff boot_cfi_step_def boot_cfi_add_expected_def
      boot_cfi_init_def ac_simps split: prod.splits)

context signature_oracle
begin

text \<open>A manifest's key is the newest and usable.\<close>

definition key_current :: "u8 \<Rightarrow> u8 list \<Rightarrow> bool" where
  "key_current i k \<longleftrightarrow> K i = Some k \<and> sound_key k \<and> (i = 255 \<or> K (i + 1) = None)"

lemma load_key_iff:
  "\<exists>r s'. verify_load_key read_pubkey p i ctx s = (r, s') \<and>
     (\<forall>k x. r = Inr (k, x) \<longleftrightarrow> key_current i k \<and> x = boot_cfi_step 3 (boot_cfi_step 2 ctx))"
proof -
  let ?n = "i + (if i < 255 then 1 else 0)"
  obtain st d s1 where n: "read_pubkey 32 ?n (wdt_kick p s) = (st, d, s1)" by (metis prod_cases3)
  have st: "st = BOOT_OK \<and> K ?n \<noteq> None \<or> st = BOOT_ERR_NOT_FOUND \<and> K ?n = None"
    using n key_law [of ?n _ "wdt_kick p s"] no_key_law [of ?n "wdt_kick p s"] by (cases "K ?n") auto
  have i: "\<not> i < 255 \<longleftrightarrow> i = 255" by (simp add: u8_less_255_iff)
  obtain st2 d2 s2 where r: "read_pubkey 32 i (wdt_kick p (wdt_kick p s1)) = (st2, d2, s2)" by (metis prod_cases3)
  have st2: "st2 = BOOT_OK \<and> K i = Some d2 \<or> st2 = BOOT_ERR_NOT_FOUND \<and> K i = None"
    using r key_law [of i _ "wdt_kick p (wdt_kick p s1)"] no_key_law [of i "wdt_kick p (wdt_kick p s1)"] by (cases "K i") auto
  have f: "fill_prefix d2 (zeroed 32) = d2" if "K i = Some d2" using key_length [OF that] by (simp add: fill_prefix_def)
  show ?thesis
    using n st r st2 f i
    by (auto simp: verify_load_key_def Let_def key_current_def sound_key_def verify_not_all_zeros_iff)
qed

lemma ed25519_iff: "\<exists>s'. verify_ed25519 double verify_signature p m g k s = (V m g k, s')"
proof -
  have v: "\<exists>st s'. verify_signature m g k x = (st, s') \<and> (st = BOOT_OK \<longleftrightarrow> V m g k)" for x by (rule signature_law)
  obtain st s1 where 1: "verify_signature m g k (wdt_kick p s) = (st, s1)" "st = BOOT_OK \<longleftrightarrow> V m g k" using v by blast
  obtain st2 s2 where 2: "verify_signature m g k (wdt_kick p s1) = (st2, s2)" "st2 = BOOT_OK \<longleftrightarrow> V m g k" using v by blast
  show ?thesis using 1 2 by (auto simp: verify_ed25519_def Let_def)
qed

end

text \<open>When the post-quantum step lets a manifest pass.\<close>

definition pqc_pass :: "bool \<Rightarrow> (u8 list \<Rightarrow> u8 list \<Rightarrow> u8 list \<Rightarrow> bool) \<Rightarrow> verify_envelope \<Rightarrow> u32 \<Rightarrow> u8 list \<Rightarrow> bool" where
  "pqc_pass E Q e base msg \<longleftrightarrow>
     (E \<or> ve_pqc_hybrid_active e \<longrightarrow>
       (\<exists>sig_at sig key_at key. ve_signature_pqc e = Some (sig_at, sig) \<and> ve_pubkey_pqc e = Some (key_at, key) \<and>
          is_buffer_within key_at (length key) base (length msg) \<and> is_buffer_within sig_at (length sig) base (length msg) \<and>
          sound_key key \<and> Q msg sig key))"

definition accepted_envelope ::
  "bool \<Rightarrow> (u8 \<Rightarrow> u8 list option) \<Rightarrow> (u8 list \<Rightarrow> u8 list \<Rightarrow> u8 list \<Rightarrow> bool) \<Rightarrow> bool \<Rightarrow> (u8 list \<Rightarrow> u8 list \<Rightarrow> u8 list \<Rightarrow> bool) \<Rightarrow>
     verify_envelope \<Rightarrow> u32 \<Rightarrow> u8 list \<Rightarrow> bool" where
  "accepted_envelope pqc K V E Q e base buf \<longleftrightarrow>
     (let n = ve_manifest_size e; i = ve_key_index e
      in 0 < n \<and> n \<le> length buf \<and> unat base + n < 2 ^ 32 \<and>
         (\<exists>sig k. ve_signature_ed25519 e = Some sig \<and> K i = Some k \<and> sound_key k \<and> (i = 255 \<or> K (i + 1) = None) \<and>
            V (take n buf) sig k) \<and>
         (pqc \<longrightarrow> pqc_pass E Q e base (take n buf)))"

context pqc_oracle
begin

lemma enforced:
  "\<exists>s'. (case ch_is_pqc_enforced c of None \<Rightarrow> (False, s) | Some f \<Rightarrow> f s) = (E, s')"
  using enforced_law by (cases "ch_is_pqc_enforced c") (auto simp: prod_eq_iff)

lemma pqc_step_iff:
  assumes "msg \<noteq> []"
  shows "\<exists>r s'. verify_pqc_step c p e base msg ctx s = (r, s') \<and> ((\<exists>x. r = Inr x) \<longleftrightarrow> pqc_pass E Q e base msg) \<and>
    (\<forall>x. r = Inr x \<longrightarrow> (\<exists>k \<in> {5, 6}. x = boot_cfi_step k (boot_cfi_add_expected k ctx)))"
proof -
  obtain s1 where e: "(case ch_is_pqc_enforced c of None \<Rightarrow> (False, s) | Some f \<Rightarrow> f s) = (E, s1)" using enforced by blast
  have q: "\<exists>st s'. verify_pqc m g k x = (st, s') \<and> (st = BOOT_OK \<longleftrightarrow> Q m g k)" for m g k x by (rule pqc_law)
  show ?thesis
  proof (cases "E \<or> ve_pqc_hybrid_active e")
    case False
    then show ?thesis using e by (simp add: verify_pqc_step_def pqc_pass_def)
  next
    case True
    show ?thesis
    proof (cases "\<exists>sa sg ka k. ve_signature_pqc e = Some (sa, sg) \<and> ve_pubkey_pqc e = Some (ka, k)")
      case False
      then have "verify_pqc_step c p e base msg ctx s = (Inl BOOT_ERR_INVALID_ARG, s1)"
        using e True pqc_part by (auto simp: verify_pqc_step_def split: option.splits)
      then show ?thesis using True False by (auto simp: pqc_pass_def)
    next
      case parts: True
      then obtain sa sg ka k where p: "ve_signature_pqc e = Some (sa, sg)" "ve_pubkey_pqc e = Some (ka, k)" by blast
      obtain st s2 where v: "verify_pqc msg sg k (wdt_kick p s1) = (st, s2)" "st = BOOT_OK \<longleftrightarrow> Q msg sg k" using q by blast
      show ?thesis
        using e True pqc_part p v
        by (auto simp: verify_pqc_step_def pqc_pass_def Let_def sound_key_def verify_not_all_zeros_iff is_buffer_within_iff)
    qed
  qed
qed

lemma envelope_iff:
  "fst (boot_verify_manifest_envelope pqc double p (Some e) (Some (base, buf)) s) = BOOT_OK \<longleftrightarrow>
     accepted_envelope pqc K V E Q e base buf"
proof -
  let ?n = "ve_manifest_size e" and ?i = "ve_key_index e"
  obtain ctx s1 where q: "verify_cfi p s = (ctx, s1)" by fastforce
  note cfi = verify_cfi_complete [OF q]
  have room: "unat UINT32_MAX - unat base < ?n \<longleftrightarrow> \<not> unat base + ?n < 2 ^ 32"
    using unat_u32_le_max [of base] by auto
  show ?thesis
  proof (cases "0 < ?n \<and> ?n \<le> length buf \<and> unat base + ?n < 2 ^ 32 \<and> ve_signature_ed25519 e \<noteq> None")
    case False
    then show ?thesis
      using q room by (auto simp: boot_verify_manifest_envelope_def accepted_envelope_def Let_def split: option.splits)
  next
    case True
    then obtain sig where sig: "ve_signature_ed25519 e = Some sig" by blast
    let ?m = "take ?n buf"
    have m: "?m \<noteq> []" using True by auto
    obtain r s2 where k: "verify_load_key read_pubkey p ?i (boot_cfi_step 1 ctx) s1 = (r, s2)"
        "\<And>k x. r = Inr (k, x) \<longleftrightarrow> key_current ?i k \<and> x = boot_cfi_step 3 (boot_cfi_step 2 (boot_cfi_step 1 ctx))"
      using load_key_iff [of ?i "boot_cfi_step 1 ctx" s1] by blast
    show ?thesis
    proof (cases r)
      case (Inl st)
      then have "\<not> key_current ?i k" for k using k(2) by auto
      moreover have "fst (boot_verify_manifest_envelope pqc double p (Some e) (Some (base, buf)) s) = st"
        using True q sig room k(1) Inl by (simp add: boot_verify_manifest_envelope_def Let_def)
      moreover have "st \<noteq> BOOT_OK"
        using k(1) Inl by (auto simp: verify_load_key_def Let_def split: prod.splits if_splits)
      ultimately show ?thesis by (auto simp: accepted_envelope_def key_current_def Let_def)
    next
      case (Inr y)
      then obtain key where y: "y = (key, boot_cfi_step 3 (boot_cfi_step 2 (boot_cfi_step 1 ctx)))" "key_current ?i key"
        using k(2) by (cases y) auto
      obtain s3 where v: "verify_ed25519 double verify_signature p ?m sig key s2 = (V ?m sig key, s3)" using ed25519_iff by blast
      let ?c = "boot_cfi_step 4 (boot_cfi_step 3 (boot_cfi_step 2 (boot_cfi_step 1 ctx)))"
      obtain r4 s4 where pq: "verify_pqc_step c p e base ?m ?c s3 = (r4, s4)" "(\<exists>x. r4 = Inr x) \<longleftrightarrow> pqc_pass E Q e base ?m"
          "\<And>x. r4 = Inr x \<Longrightarrow> \<exists>k \<in> {5, 6}. x = boot_cfi_step k (boot_cfi_add_expected k ?c)"
        using pqc_step_iff [OF m, of e base ?c s3] by blast
      have only: "K ?i = Some key" "sound_key key" "?i = 255 \<or> K (?i + 1) = None" using y(2) by (auto simp: key_current_def)
      have e4: "st \<noteq> BOOT_OK" if "r4 = Inl st" for st
        using pq(1) that by (auto simp: verify_pqc_step_def Let_def split: prod.splits if_splits option.splits)
      have run: "fst (boot_verify_manifest_envelope pqc double p (Some e) (Some (base, buf)) s) =
          (if \<not> V ?m sig key then BOOT_ERR_VERIFY
           else if pqc then (case r4 of Inl st \<Rightarrow> st | Inr x \<Rightarrow> if \<not> boot_cfi_require False x then BOOT_ERR_VERIFY else BOOT_OK)
           else if \<not> boot_cfi_require False (boot_cfi_step 6 (boot_cfi_add_expected 6 ?c)) then BOOT_ERR_VERIFY else BOOT_OK)"
        using True q sig room k(1) Inr y(1) v pq(1)
        by (simp add: boot_verify_manifest_envelope_def Let_def split: sum.splits)
      have acc: "accepted_envelope pqc K V E Q e base buf \<longleftrightarrow> V ?m sig key \<and> (pqc \<longrightarrow> pqc_pass E Q e base ?m)"
        using True sig only by (auto simp: accepted_envelope_def Let_def)
      show ?thesis
        unfolding run acc using pq(2,3) cfi e4 by (cases r4) auto
    qed
  qed
qed

end

section \<open>Engines\<close>

text \<open>The sandbox's engine accepts every signature but has zero keys in all slots.\<close>

interpretation sandbox_signatures: pqc_oracle "small_sandbox" "sandbox_crypto_hal (Pair 4)" small_port
    "the (pf_wdt small_sandbox)"
    sandbox_crypto_read_pubkey sandbox_crypto_verify_signature "\<lambda>_. Some (replicate 32 0)" "\<lambda>_ _ _. True"
    sandbox_crypto_verify_pqc False "\<lambda>_ _ _. True"
  by unfold_locales
    (simp_all add: small_sandbox_def sandbox_crypto_hal_def sandbox_crypto_read_pubkey_def
      sandbox_crypto_verify_signature_def sandbox_crypto_verify_pqc_def)

text \<open>
  An engine with one root key, whose signature of a message is the message's checksum repeated; it stands for
  a real one in the witnesses.
\<close>

definition stamp :: "u8 list \<Rightarrow> u8 list" where
  "stamp m = concat (replicate 16 (to_le32 (compute_boot_crc32 m)))"

definition stamp_key :: "u8 list" where
  "stamp_key = replicate 32 7"

definition stamp_crypto :: "'s crypto_hal" where
  "stamp_crypto = (sandbox_crypto_hal (Pair 4))\<lparr>
     ch_read_pubkey := Some (\<lambda>n i s. if i = 0 then (BOOT_OK, stamp_key, s) else (BOOT_ERR_NOT_FOUND, [], s)),
     ch_verify_signature := Some (\<lambda>m g k s. (if g = stamp m then BOOT_OK else BOOT_ERR_VERIFY, s)) \<rparr>"

definition stamp_platform :: "flash_model flash_hal \<Rightarrow> flash_model platform" where
  "stamp_platform fl = (model_platform fl)\<lparr> pf_crypto := Some stamp_crypto \<rparr>"

interpretation stamps: pqc_oracle "stamp_platform small_port" stamp_crypto small_port
    "the (pf_wdt (stamp_platform small_port))" "the (ch_read_pubkey stamp_crypto)" "the (ch_verify_signature stamp_crypto)"
    "\<lambda>i. if i = 0 then Some stamp_key else None" "\<lambda>m g _. g = stamp m" sandbox_crypto_verify_pqc False "\<lambda>_ _ _. True"
  by unfold_locales
    (auto simp: stamp_platform_def stamp_crypto_def stamp_key_def sandbox_crypto_hal_def sandbox_crypto_verify_pqc_def
      split: if_splits)

definition stamp_envelope :: verify_envelope where
  "stamp_envelope = \<lparr> ve_manifest_flash_addr = 0, ve_manifest_size = 4, ve_signature_ed25519 = Some (stamp [1, 2, 3, 4]),
     ve_key_index = 0, ve_pqc_hybrid_active = False, ve_signature_pqc = None, ve_pubkey_pqc = None \<rparr>"

section \<open>Properties\<close>

text \<open>
  C29. The signature gate accepts exactly the manifests it should. With a crypto driver whose key slots and
  verdicts are fixed, \<open>boot_verify_manifest_envelope\<close> returns \<open>BOOT_OK\<close> if and only if the size is
  positive and within the buffer, the key slot of the manifest holds a key that is neither all zeros nor all
  ones, the next slot is empty (or the index is the last), the Ed25519 signature of exactly the signed bytes
  verifies under that key, and, in a build with post-quantum support on a part or for a manifest that asks for
  it, a second signature verifies whose bytes and key lie inside the signed region.
\<close>

theorem verify_accepts_iff:
  assumes "pqc_oracle p c fl w read_pubkey verify_signature K V verify_pqc E Q"
  shows "fst (boot_verify_manifest_envelope pqc double p (Some e) (Some (base, buf)) s) = BOOT_OK \<longleftrightarrow>
    accepted_envelope pqc K V E Q e base buf"
  by (rule pqc_oracle.envelope_iff [OF assms])

lemma verify_accepts_iff_witness:
  "fst (boot_verify_manifest_envelope True True (stamp_platform small_port) (Some stamp_envelope)
      (Some (1000, [1, 2, 3, 4, 5])) (small_device [])) = BOOT_OK \<and>
   fst (boot_verify_manifest_envelope True True (stamp_platform small_port) (Some stamp_envelope)
      (Some (1000, [1, 2, 3, 5, 5])) (small_device [])) \<noteq> BOOT_OK"
proof -
  let ?K = "\<lambda>i. if i = 0 then Some stamp_key else None"
  have crc: "compute_boot_crc32 [1, 2, 3, 4] \<noteq> compute_boot_crc32 [1, 2, 3, 5]"
    by (simp add: compute_boot_crc32_def crc32_byte_unroll crc32_bit_def TOOB_CRC32_INIT_def TOOB_CRC32_POLY_def
        TOOB_CRC32_FINAL_XOR_def)
  moreover have "to_le32 a = to_le32 b \<Longrightarrow> a = b" for a b using le32_to_le32 [of a "[]"] le32_to_le32 [of b "[]"] by simp
  ultimately have "take 4 (stamp [1, 2, 3, 4]) \<noteq> take 4 (stamp [1, 2, 3, 5])"
    by (auto simp: stamp_def replicate_numeral)
  then have st: "stamp [1, 2, 3, 4] \<noteq> stamp [1, 2, 3, 5]" by metis
  have "accepted_envelope True ?K (\<lambda>m g _. g = stamp m) False (\<lambda>_ _ _. True) stamp_envelope 1000 [1, 2, 3, 4, 5]"
    by (auto simp: accepted_envelope_def stamp_envelope_def pqc_pass_def sound_key_def stamp_key_def Let_def)
  moreover have "\<not> accepted_envelope True ?K (\<lambda>m g _. g = stamp m) False (\<lambda>_ _ _. True) stamp_envelope 1000 [1, 2, 3, 5, 5]"
    using st by (auto simp: accepted_envelope_def stamp_envelope_def Let_def split: if_splits)
  ultimately show ?thesis
    using verify_accepts_iff [OF stamps.pqc_oracle_axioms, of True True stamp_envelope 1000 _ "small_device []"] by blast
qed

end
