(* ===== verification/Stage0.thy ===== *)
theory Stage0
  imports Boot_Verify Boot_Rollback
begin

text \<open>
  Stage 0, the immutable first stage (\<open>toobloader/stage0/\<close>): the choice of the Stage 1 bank, its signature
  check and the jump. The driver initialisation and shutdown around it are not modelled. The generated
  constants are the record \<open>stage0_config\<close>; \<open>toob_handoff_state.magic\<close>, which survives a reset in RAM,
  and the seal key are passed explicitly. A callback the code calls unchecked is \<open>the\<close> of the option.
\<close>

record stage0_config =
  s0_wal_addrs :: "u32 list"
  s0_stage1a_addr :: u32
  s0_stage1b_addr :: u32
  s0_app_slot_size :: u32
  s0_dev_bypass :: bool

section \<open>Boot pointer\<close>

text \<open>Sequence number, bank and SVN of a sector header, if it is valid.\<close>

definition stage0_parse :: "u8 list \<Rightarrow> (u32 \<times> u32 \<times> u32) option" where
  "stage0_parse raw =
     (let magic = hd_sector_magic (header_of raw)
      in if magic = WAL_ABI_VERSION_MAGIC_LEGACY then
           (if \<not> secure_require (compute_boot_crc32 (take 60 raw) = rd32 60 raw) then None
            else Some (rd32 4 raw, v1_active_stage1_bank (tmr_v1_of (drop 12 raw)), 0))
         else if magic = WAL_ABI_VERSION_MAGIC_CURRENT then
           (if \<not> secure_require (compute_boot_crc32 (take 124 raw) = rd32 124 raw) then None
            else Some (hd_sequence_id (header_of raw), tm_active_stage1_bank (hd_tmr_data (header_of raw)),
                       tm_stage1_svn (hd_tmr_data (header_of raw))))
         else None)"

text \<open>\<open>best\<close> is \<open>highest_seq\<close> with the two out-parameters.\<close>

definition stage0_better :: "(u32 \<times> u32 \<times> u32) option \<Rightarrow> u32 \<times> u32 \<times> u32 \<Rightarrow> u32 \<times> u32 \<times> u32" where
  "stage0_better x best =
     (case x of None \<Rightarrow> best | Some (seq, bank, svn) \<Rightarrow> if seq > fst best then (seq, bank, svn) else best)"

fun stage0_scan_loop ::
  "'s flash_hal \<Rightarrow> u32 list \<Rightarrow> u32 \<times> u32 \<times> u32 \<Rightarrow> 's \<Rightarrow> (u32 \<times> u32 \<times> u32) \<times> 's" where
  "stage0_scan_loop fl [] best s = (best, s)"
| "stage0_scan_loop fl (a # as) best s =
     (case fh_read fl a 128 s of (st, d, s) \<Rightarrow>
        stage0_scan_loop fl as
          (if st \<noteq> BOOT_OK then best else stage0_better (stage0_parse (fill_prefix d (zeroed 128))) best) s)"

definition stage0_scan_wal_highest :: "stage0_config \<Rightarrow> 's flash_hal \<Rightarrow> 's \<Rightarrow> u32 \<times> u32 \<times> 's" where
  "stage0_scan_wal_highest sc fl s =
     (case stage0_scan_loop fl (s0_wal_addrs sc) (0, 0, 0) s of ((_, bank, svn), s) \<Rightarrow> (bank, svn, s))"

definition stage0_get_active_slot :: "stage0_config \<Rightarrow> 's flash_hal \<Rightarrow> 's \<Rightarrow> u32 \<times> 's" where
  "stage0_get_active_slot sc fl s =
     (case stage0_scan_wal_highest sc fl s of (bank, svn, s) \<Rightarrow>
        (if bank = 0 then s0_stage1a_addr sc else s0_stage1b_addr sc, s))"

definition stage0_get_stage1_svn :: "stage0_config \<Rightarrow> 's flash_hal \<Rightarrow> 's \<Rightarrow> u32 \<times> 's" where
  "stage0_get_stage1_svn sc fl s =
     (case stage0_scan_wal_highest sc fl s of (bank, svn, s) \<Rightarrow> (svn, s))"

definition other_bank :: "stage0_config \<Rightarrow> u32 \<Rightarrow> u32" where
  "other_bank sc slot = (if slot = s0_stage1a_addr sc then s0_stage1b_addr sc else s0_stage1a_addr sc)"

section \<open>Tentative boot\<close>

definition TOOB_STATE_TENTATIVE :: u32 where "TOOB_STATE_TENTATIVE = 0xAAAA5555"

text \<open>The slot and the handoff magic afterwards.\<close>

definition stage0_evaluate_tentative ::
  "stage0_config \<Rightarrow> 's platform \<Rightarrow> u32 \<Rightarrow> u32 \<Rightarrow> 's \<Rightarrow> u32 \<times> u32 \<times> 's" where
  "stage0_evaluate_tentative sc p magic current_slot s =
     (case (case pf_clock p of None \<Rightarrow> None | Some k \<Rightarrow> kh_get_reset_reason k) of
        None \<Rightarrow> (current_slot, magic, s)
      | Some get_reset_reason \<Rightarrow>
          (case get_reset_reason s of (reason, s) \<Rightarrow>
             if magic = TOOB_STATE_TENTATIVE \<and>
                reason \<in> {RESET_REASON_WATCHDOG, RESET_REASON_HARD_FAULT, RESET_REASON_BROWNOUT}
             then (other_bank sc current_slot, 0, s)
             else (current_slot, magic, s)))"

section \<open>Hash and signature\<close>

text \<open>The index of the fuse key; \<open>None\<close> is the endless loop.\<close>

definition stage0_get_active_otp_key_index :: "'s platform \<Rightarrow> 's \<Rightarrow> u8 option \<times> 's" where
  "stage0_get_active_otp_key_index p s =
     (case boot_read_monotonic_counter_safe p s of (st, v, s) \<Rightarrow>
        (if st = BOOT_OK
         then (let epoch = (case v of None \<Rightarrow> 0 | Some v \<Rightarrow> v) in Some (if epoch > 255 then 255 else ucast epoch))
         else None, s))"

text \<open>A block that cannot be read poisons the hash; the status of an update is ignored.\<close>

function stage0_hash_loop ::
  "'s platform \<Rightarrow> 's flash_hal \<Rightarrow> 's crypto_hal \<Rightarrow> u32 \<Rightarrow> nat \<Rightarrow> nat \<Rightarrow> u8 list \<Rightarrow> 's \<Rightarrow> u8 list \<times> 's" where
  "stage0_hash_loop p fl c addr len offset ctx s =
     (if offset < len then
        let step = (if len - offset > 128 then 128 else len - offset)
        in case fh_read fl (addr + of_nat offset) step (wdt_kick p s) of (st, d, s) \<Rightarrow>
             case ch_hash_update c ctx (if st = BOOT_OK then fill_prefix d (zeroed step) else [0xDE, 0xAD]) s of
               (_, ctx, s) \<Rightarrow> stage0_hash_loop p fl c addr len (offset + step) ctx s
      else (ctx, s))"
  by pat_completeness auto
termination
  by (relation "measure (\<lambda>(p, fl, c, addr, len, offset, ctx, s). len - offset)") auto

declare stage0_hash_loop.simps [simp del]

text \<open>The 64-byte digest buffer, zeroized by the caller; it stays so when the engine is not usable.\<close>

definition stage0_hash_compute :: "'s platform \<Rightarrow> 's flash_hal \<Rightarrow> u32 \<Rightarrow> nat \<Rightarrow> 's \<Rightarrow> u8 list \<times> 's" where
  "stage0_hash_compute p fl addr len s =
     (case pf_crypto p of
        None \<Rightarrow> (zeroed 64, s)
      | Some c \<Rightarrow>
          if ch_get_hash_ctx_size c > BOOT_MERKLE_MAX_CTX_SIZE then (zeroed 64, s)
          else case ch_hash_init c (zeroed BOOT_MERKLE_MAX_CTX_SIZE) s of (st, ctx, s) \<Rightarrow>
            if st \<noteq> BOOT_OK then (zeroed 64, s)
            else case stage0_hash_loop p fl c addr len 0 ctx s of (ctx, s) \<Rightarrow>
              case ch_hash_finish c ctx BOOT_MERKLE_HASH_LEN s of (_, d, _, s) \<Rightarrow> (fill_prefix d (zeroed 64), s))"

definition stage0_verify_signature :: "'s platform \<Rightarrow> u8 list \<Rightarrow> u8 list \<Rightarrow> u8 list \<Rightarrow> 's \<Rightarrow> bool \<times> 's" where
  "stage0_verify_signature p sig pubkey msg_digest s =
     (case (case (case pf_crypto p of None \<Rightarrow> None | Some c \<Rightarrow> ch_verify_signature_ph c) of
              None \<Rightarrow> (False, s)
            | Some verify_ph \<Rightarrow> (case verify_ph msg_digest sig pubkey s of (st, s) \<Rightarrow> (st = BOOT_OK, s))) of
        (status, s) \<Rightarrow>
          (boot_secure_confirm (if status then BOOT_OK else BOOT_ERR_VERIFY) = BOOT_OK, s))"

section \<open>A bank\<close>

datatype bank_verdict =
    Bank_eligible boot_proof
  | Bank_ineligible
  | Bank_halts

definition TOOB_IMAGE_HEADER_SIZE :: nat where "TOOB_IMAGE_HEADER_SIZE = 20"

definition stage0_try_boot_bank ::
  "stage0_config \<Rightarrow> 's platform \<Rightarrow> 's flash_hal \<Rightarrow> 's crypto_hal \<Rightarrow> u32 list \<Rightarrow> u32 \<Rightarrow> u8 \<Rightarrow> u32 \<Rightarrow> 's \<Rightarrow> bank_verdict \<times> 's" where
  "stage0_try_boot_bank sc p fl c seal_key bank_addr confirmed_dslc svn_floor s =
     (case fh_read fl bank_addr TOOB_IMAGE_HEADER_SIZE s of (st, d, s) \<Rightarrow>
        let hdr = image_header_of (fill_prefix d (zeroed TOOB_IMAGE_HEADER_SIZE))
        in if st \<noteq> BOOT_OK then (Bank_ineligible, s)
           else if ih_magic hdr \<noteq> TOOB_MAGIC_HEADER \<or> ih_image_size hdr > s0_app_slot_size sc then (Bank_ineligible, s)
           else case stage0_get_active_otp_key_index p s of
             (None, s) \<Rightarrow> (Bank_halts, s)
           | (Some key_idx, s) \<Rightarrow>
               (case the (ch_read_pubkey c) 32 key_idx s of (st, k, s) \<Rightarrow>
                  let pubkey = fill_prefix k (zeroed 32);
                      is_dev_bypass = (s0_dev_bypass sc \<and> st \<noteq> BOOT_OK \<and> confirmed_dslc = 0x00)
                  in if st \<noteq> BOOT_OK \<and> \<not> is_dev_bypass then (Bank_ineligible, s)
                     else
                       let signed = of_nat TOOB_IMAGE_HEADER_SIZE + ih_image_size hdr
                       in case stage0_hash_compute p fl bank_addr (unat signed) s of (digest, s) \<Rightarrow>
                            case fh_read fl (bank_addr + signed) 64 s of (st, g, s) \<Rightarrow>
                              if st \<noteq> BOOT_OK then (Bank_ineligible, s)
                              else case (if is_dev_bypass then (True, s)
                                         else stage0_verify_signature p (fill_prefix g (zeroed 64)) pubkey digest s) of
                                (sig_ok, s) \<Rightarrow>
                                  if \<not> sig_ok then (Bank_ineligible, s)
                                  else (Bank_eligible (boot_proof_seal \<lparr> pr_image_addr = bank_addr,
                                          pr_image_size = ih_image_size hdr, pr_entry_point = ih_entry_point hdr,
                                          pr_svn = svn_floor, pr_seal0 = 0, pr_seal1 = 0 \<rparr> seal_key), s)))"

section \<open>Main\<close>

text \<open>
  The vote over the lifecycle code: up to five reads, a value wins once it was read three times. From the
  second read on the random source is asked for the length of a delay.
\<close>

fun dslc_rounds :: "'s crypto_hal \<Rightarrow> nat list \<Rightarrow> u8 list \<Rightarrow> 's \<Rightarrow> u8 option \<times> 's" where
  "dslc_rounds c [] reads s = (None, s)"
| "dslc_rounds c (round # rounds) reads s =
     (let s = (if round > 0 then (case ch_random c of None \<Rightarrow> s | Some f \<Rightarrow> snd (snd (f 1 s))) else s)
      in case the (ch_read_dslc c) 64 s of (st, d, dslc_len, s) \<Rightarrow>
           let reads = reads @ [if st = BOOT_OK \<and> dslc_len > 0 then fill_prefix d (zeroed 64) ! 0 else 0xFF]
           in if round \<ge> 2 then
                (case find (\<lambda>v. count_list reads v \<ge> 3) reads of
                   Some v \<Rightarrow> (Some v, s)
                 | None \<Rightarrow> dslc_rounds c rounds reads s)
              else dslc_rounds c rounds reads s)"

datatype stage0_outcome =
    S0_jumps u32
  | S0_halts
  | S0_panics boot_status

text \<open>The end of \<open>main\<close>: the seal is checked right before the jump.\<close>

definition stage0_jump :: "u32 list \<Rightarrow> boot_proof \<Rightarrow> stage0_outcome" where
  "stage0_jump seal_key pr =
     (if boot_proof_verify pr seal_key \<noteq> BOOT_OK then S0_halts else S0_jumps (pr_image_addr pr + pr_entry_point pr))"

definition stage0_select ::
  "stage0_config \<Rightarrow> 's platform \<Rightarrow> 's flash_hal \<Rightarrow> 's crypto_hal \<Rightarrow> u32 list \<Rightarrow> u32 \<Rightarrow> u8 \<Rightarrow> u32 \<Rightarrow> 's \<Rightarrow> stage0_outcome \<times> 's" where
  "stage0_select sc p fl c seal_key active_slot confirmed_dslc svn_floor s =
     (case stage0_try_boot_bank sc p fl c seal_key active_slot confirmed_dslc svn_floor s of
        (Bank_eligible pr, s) \<Rightarrow> (stage0_jump seal_key pr, s)
      | (Bank_halts, s) \<Rightarrow> (S0_halts, s)
      | (Bank_ineligible, s) \<Rightarrow>
          (case stage0_try_boot_bank sc p fl c seal_key (other_bank sc active_slot) confirmed_dslc svn_floor s of
             (Bank_eligible pr, s) \<Rightarrow> (stage0_jump seal_key pr, s)
           | (Bank_halts, s) \<Rightarrow> (S0_halts, s)
           | (Bank_ineligible, s) \<Rightarrow> (S0_panics BOOT_ERR_DOWNGRADE, s)))"

definition seal_words :: "u8 list \<Rightarrow> u32 list" where
  "seal_words b = map (\<lambda>i. rd32 (4 * i) b) [0..<4]"

text \<open>\<open>main\<close> from the drawing of the seal key to the jump; the outcome, the handoff magic and the device.\<close>

definition stage0_main ::
  "stage0_config \<Rightarrow> 's platform \<Rightarrow> 's flash_hal \<Rightarrow> 's crypto_hal \<Rightarrow> u32 \<Rightarrow> 's \<Rightarrow> stage0_outcome \<times> u32 \<times> 's" where
  "stage0_main sc p fl c magic s =
     (case boot_random_safe p 16 s of (st, buf, s) \<Rightarrow>
        if st \<noteq> BOOT_OK then (S0_halts, magic, s)
        else
          let seal_key = seal_words (fill_prefix buf (zeroed 16))
          in case dslc_rounds c [0..<5] [] s of
               (None, s) \<Rightarrow> (S0_halts, magic, s)
             | (Some confirmed_dslc, s) \<Rightarrow>
                 (case stage0_get_active_slot sc fl s of (active_slot, s) \<Rightarrow>
                    case stage0_evaluate_tentative sc p magic active_slot s of (active_slot, magic, s) \<Rightarrow>
                      case boot_read_monotonic_counter_safe p s of (_, v, s) \<Rightarrow>
                        case stage0_get_stage1_svn sc fl s of (wal_stage1_svn, s) \<Rightarrow>
                          let efuse_epoch = (case v of None \<Rightarrow> 0 | Some v \<Rightarrow> v);
                              svn_floor = (if wal_stage1_svn > efuse_epoch then wal_stage1_svn else efuse_epoch)
                          in case stage0_select sc p fl c seal_key active_slot confirmed_dslc svn_floor s of
                               (out, s) \<Rightarrow> (out, magic, s)))"

section \<open>What Stage 0 boots\<close>

text \<open>The newest valid header of a flash image, as Stage 0 sees it.\<close>

definition stage0_newest :: "u32 list \<Rightarrow> u8 list \<Rightarrow> u32 \<times> u32 \<times> u32" where
  "stage0_newest as m = fold (\<lambda>a. stage0_better (stage0_parse (slice_of (unat a) 128 m))) as (0, 0, 0)"

definition stage0_bank :: "stage0_config \<Rightarrow> u8 list \<Rightarrow> u32" where
  "stage0_bank sc m = (if fst (snd (stage0_newest (s0_wal_addrs sc) m)) = 0 then s0_stage1a_addr sc else s0_stage1b_addr sc)"

definition bank_header :: "u8 list \<Rightarrow> u32 \<Rightarrow> toob_image_header" where
  "bank_header m a = image_header_of (slice_of (unat a) 20 m)"

text \<open>
  A bank may be booted: the header is valid, and the signature behind the image verifies for the hash \<open>H\<close>
  of header and image under the fuse key of the epoch \<open>E\<close>.
\<close>

definition bank_bootable ::
  "stage0_config \<Rightarrow> (u8 list \<Rightarrow> u8 list) \<Rightarrow> (u8 \<Rightarrow> u8 list option) \<Rightarrow> (u8 list \<Rightarrow> u8 list \<Rightarrow> u8 list \<Rightarrow> bool) \<Rightarrow> u32 \<Rightarrow> u8 list \<Rightarrow> u32 \<Rightarrow> bool" where
  "bank_bootable sc H K W E m a \<longleftrightarrow>
     (let h = bank_header m a; n = 20 + unat (ih_image_size h)
      in ih_magic h = TOOB_MAGIC_HEADER \<and> ih_image_size h \<le> s0_app_slot_size sc \<and>
         (\<exists>k. K (if E > 255 then 255 else ucast E) = Some k \<and>
            W (H (slice_of (unat a) n m) @ zeroed 32) (slice_of (unat a + n) 64 m) k))"

text \<open>What a choice between two banks comes to.\<close>

definition stage0_choice ::
  "stage0_config \<Rightarrow> (u8 list \<Rightarrow> u8 list) \<Rightarrow> (u8 \<Rightarrow> u8 list option) \<Rightarrow> (u8 list \<Rightarrow> u8 list \<Rightarrow> u8 list \<Rightarrow> bool) \<Rightarrow> u32 \<Rightarrow> u8 list \<Rightarrow> u32 \<Rightarrow>
     stage0_outcome" where
  "stage0_choice sc H K W E m a =
     (if bank_bootable sc H K W E m a then S0_jumps (a + ih_entry_point (bank_header m a))
      else let b = other_bank sc a
           in if bank_bootable sc H K W E m b then S0_jumps (b + ih_entry_point (bank_header m b)) else S0_panics BOOT_ERR_DOWNGRADE)"

text \<open>The reset was a crash of a bank that was booted on trial.\<close>

definition trial_crashed :: "'s platform \<Rightarrow> reset_reason \<Rightarrow> u32 \<Rightarrow> bool" where
  "trial_crashed p R magic \<longleftrightarrow>
     (case pf_clock p of None \<Rightarrow> False | Some k \<Rightarrow> kh_get_reset_reason k \<noteq> None) \<and>
     magic = TOOB_STATE_TENTATIVE \<and> R \<in> {RESET_REASON_WATCHDOG, RESET_REASON_HARD_FAULT, RESET_REASON_BROWNOUT}"

definition stage0_preferred :: "stage0_config \<Rightarrow> bool \<Rightarrow> u8 list \<Rightarrow> u32" where
  "stage0_preferred sc crashed m = (if crashed then other_bank sc (stage0_bank sc m) else stage0_bank sc m)"

locale stage0_device = hash_device p fl mem live total sec walign c H absorbed
  for p :: "'s platform" and fl mem live total sec walign and c :: "'s crypto_hal" and H absorbed +
  fixes sc :: stage0_config and read_pubkey verify_ph read_counter
    and K :: "u8 \<Rightarrow> u8 list option" and W :: "u8 list \<Rightarrow> u8 list \<Rightarrow> u8 list \<Rightarrow> bool" and E :: u32 and R :: reset_reason
  assumes s0_parts: "ch_read_pubkey c = Some read_pubkey" "ch_verify_signature_ph c = Some verify_ph"
      "ch_read_monotonic_counter c = Some read_counter"
    and production: "\<not> s0_dev_bypass sc"
    and wal_room: "a \<in> set (s0_wal_addrs sc) \<Longrightarrow> unat a + 128 \<le> total"
    and bank_room: "a \<in> {s0_stage1a_addr sc, s0_stage1b_addr sc} \<Longrightarrow> unat a + unat (s0_app_slot_size sc) + 84 \<le> total"
    and engine_apart: "absorbed x s xs \<Longrightarrow> absorbed x (wdt_kick p s) xs"
      "absorbed x s xs \<Longrightarrow> absorbed x (snd (snd (fh_read fl a n s))) xs"
    and pubkey_law: "live s \<Longrightarrow> \<exists>st d s'. read_pubkey 32 i s = (st, d, s') \<and> mem s' = mem s \<and> live s' \<and>
      (case K i of None \<Rightarrow> st \<noteq> BOOT_OK | Some k \<Rightarrow> st = BOOT_OK \<and> d = k \<and> length k = 32)"
    and ph_law: "live s \<Longrightarrow> \<exists>st s'. verify_ph m g k s = (st, s') \<and> mem s' = mem s \<and> live s' \<and> (st = BOOT_OK \<longleftrightarrow> W m g k)"
    and epoch_law: "live s \<Longrightarrow> \<exists>s'. read_counter s = (BOOT_OK, E, s') \<and> mem s' = mem s \<and> live s'"
    and random_law: "live s \<Longrightarrow> ch_random c = Some f \<Longrightarrow> mem (snd (snd (f n s))) = mem s \<and> live (snd (snd (f n s)))"
    and dslc_law: "live s \<Longrightarrow> mem (snd (snd (snd (the (ch_read_dslc c) n s)))) = mem s \<and> live (snd (snd (snd (the (ch_read_dslc c) n s))))"
    and reset_law: "live s \<Longrightarrow> pf_clock p = Some clk \<Longrightarrow> kh_get_reset_reason clk = Some rsn \<Longrightarrow>
      \<exists>s'. rsn s = (R, s') \<and> mem s' = mem s \<and> live s'"
begin

lemma counter_safe:
  assumes "live s"
  shows "\<exists>s'. boot_read_monotonic_counter_safe p s = (BOOT_OK, Some E, s') \<and> mem s' = mem s \<and> live s'"
proof -
  obtain s1 where 1: "read_counter s = (BOOT_OK, E, s1)" "mem s1 = mem s" "live s1" using epoch_law [OF assms] by blast
  obtain s2 where 2: "read_counter s1 = (BOOT_OK, E, s2)" "mem s2 = mem s1" "live s2" using epoch_law [OF 1(3)] by blast
  show ?thesis using 1 2 crypto_ptr s0_parts by (simp add: boot_read_monotonic_counter_safe_def)
qed

lemma scan_ok:
  assumes "live s" and "set as \<subseteq> set (s0_wal_addrs sc)"
  shows "\<exists>s'. stage0_scan_loop fl as best s =
      (fold (\<lambda>a. stage0_better (stage0_parse (slice_of (unat a) 128 (mem s)))) as best, s') \<and> mem s' = mem s \<and> live s'"
  using assms
proof (induction as arbitrary: best s)
  case (Cons a as)
  have fit: "unat a + 128 \<le> total" using Cons.prems(2) wal_room by simp
  obtain s1 where r: "fh_read fl a 128 s = (BOOT_OK, slice_of (unat a) 128 (mem s), s1)" "mem s1 = mem s" "live s1"
    using readE [OF Cons.prems(1) fit] .
  have f: "fill_prefix (slice_of (unat a) 128 (mem s)) (zeroed 128) = slice_of (unat a) 128 (mem s)"
    using fit mem_len [OF Cons.prems(1)] by (simp add: fill_prefix_def)
  show ?case using Cons.IH [OF r(3)] Cons.prems(2) r f by simp
qed simp

lemma hash_loop_ok:
  assumes "live s" and "absorbed ctx s xs" and "unat addr + len \<le> total" and "off \<le> len"
  shows "\<exists>x s'. stage0_hash_loop p fl c addr len off ctx s = (x, s') \<and>
    absorbed x s' (xs @ slice_of (unat addr + off) (len - off) (mem s)) \<and> mem s' = mem s \<and> live s'"
  using assms
proof (induction "len - off" arbitrary: off ctx s xs rule: less_induct)
  case less
  show ?case
  proof (cases "off < len")
    case False
    then show ?thesis using less.prems by (subst stage0_hash_loop.simps) simp
  next
    case True
    define k where "k = (if len - off > 128 then 128 else len - off)"
    have k: "0 < k" "off + k \<le> len" "len - (off + k) < len - off" using True by (auto simp: k_def)
    have a: "unat (addr + of_nat off) = unat addr + off"
      using True less.prems(3) total_addr by (intro flash_addr) simp
    have fit: "unat (addr + of_nat off) + k \<le> total" using a k less.prems(3) by simp
    have w: "live (wdt_kick p s)" "mem (wdt_kick p s) = mem s" using less.prems(1) by (simp_all add: wdt_laws)
    let ?d = "slice_of (unat addr + off) k (mem s)"
    obtain s1 where r: "fh_read fl (addr + of_nat off) k (wdt_kick p s) = (BOOT_OK, ?d, s1)" "mem s1 = mem s" "live s1"
      using readE [OF w(1) fit] a w(2) by metis
    have f: "fill_prefix ?d (zeroed k) = ?d"
      using less.prems(3) k(2) mem_len [OF less.prems(1)] by (simp add: fill_prefix_def)
    have ab: "absorbed ctx s1 xs" using engine_apart(2) [OF engine_apart(1) [OF less.prems(2)], of "addr + of_nat off" k] r(1) by simp
    obtain y s2 where u: "ch_hash_update c ctx ?d s1 = (BOOT_OK, y, s2)" "absorbed y s2 (xs @ ?d)" "mem s2 = mem s" "live s2"
      using update_law [OF r(3) ab] r(2) by metis
    have sp: "slice_of (unat addr + off) (len - off) (mem s) = ?d @ slice_of (unat addr + (off + k)) (len - (off + k)) (mem s)"
      using slice_of_split [of k "len - off" "unat addr + off" "mem s"] k by (simp add: add.assoc)
    show ?thesis
      using less.hyps [OF k(3) u(4,2) less.prems(3) k(2)] True r(1) f u(1,3) sp
      by (subst stage0_hash_loop.simps) (simp add: Let_def k_def [symmetric])
  qed
qed

lemma hash_ok:
  assumes "live s" and "unat addr + n \<le> total"
  shows "\<exists>s'. stage0_hash_compute p fl addr n s = (H (slice_of (unat addr) n (mem s)) @ zeroed 32, s') \<and> mem s' = mem s \<and> live s'"
proof -
  obtain x s1 where 1: "ch_hash_init c (zeroed BOOT_MERKLE_MAX_CTX_SIZE) s = (BOOT_OK, x, s1)" "absorbed x s1 []" "mem s1 = mem s" "live s1"
    using init_law [OF assms(1)] by blast
  obtain y s2 where 2: "stage0_hash_loop p fl c addr n 0 x s1 = (y, s2)" "absorbed y s2 (slice_of (unat addr) n (mem s))"
      "mem s2 = mem s" "live s2"
    using hash_loop_ok [OF 1(4,2) assms(2), of 0] 1(3) by auto
  obtain s3 where 3: "ch_hash_finish c y 32 s2 = (BOOT_OK, H (slice_of (unat addr) n (mem s)), 32, s3)" "mem s3 = mem s" "live s3"
    using finish_law [OF 2(4,2)] 2(3) by auto
  have "fill_prefix (H d) (zeroed 64) = H d @ zeroed 32" for d using H_len [of d] by (simp add: fill_prefix_def zeroed_def)
  then show ?thesis
    using 1(1) 2(1) 3 ctx_fits by (simp add: stage0_hash_compute_def crypto_ptr BOOT_MERKLE_MAX_CTX_SIZE_def BOOT_MERKLE_HASH_LEN_def)
qed

text \<open>The proof handed to the jump.\<close>

definition bank_proof :: "u32 list \<Rightarrow> u32 \<Rightarrow> u8 list \<Rightarrow> u32 \<Rightarrow> boot_proof" where
  "bank_proof key floor m a = boot_proof_seal \<lparr> pr_image_addr = a, pr_image_size = ih_image_size (bank_header m a),
     pr_entry_point = ih_entry_point (bank_header m a), pr_svn = floor, pr_seal0 = 0, pr_seal1 = 0 \<rparr> key"

lemma try_bank_ok:
  assumes "live s" and "a \<in> {s0_stage1a_addr sc, s0_stage1b_addr sc}"
  shows "\<exists>s'. stage0_try_boot_bank sc p fl c key a dslc floor s =
      (if bank_bootable sc H K W E (mem s) a then Bank_eligible (bank_proof key floor (mem s) a) else Bank_ineligible, s') \<and>
    mem s' = mem s \<and> live s'"
proof -
  have room: "unat a + unat (s0_app_slot_size sc) + 84 \<le> total" using bank_room [OF assms(2)] .
  have ml: "length (mem s) = total" using mem_len assms(1) .
  let ?h = "bank_header (mem s) a"
  obtain s1 where r: "fh_read fl a 20 s = (BOOT_OK, slice_of (unat a) 20 (mem s), s1)" "mem s1 = mem s" "live s1"
    using readE [OF assms(1), of a 20] room by auto
  have f: "fill_prefix (slice_of (unat a) 20 (mem s)) (zeroed 20) = slice_of (unat a) 20 (mem s)"
    using room ml by (simp add: fill_prefix_def)
  show ?thesis
  proof (cases "ih_magic ?h = TOOB_MAGIC_HEADER \<and> ih_image_size ?h \<le> s0_app_slot_size sc")
    case False
    then have "stage0_try_boot_bank sc p fl c key a dslc floor s = (Bank_ineligible, s1)"
      using r f by (auto simp: stage0_try_boot_bank_def TOOB_IMAGE_HEADER_SIZE_def bank_header_def Let_def)
    then show ?thesis using False r(2,3) by (auto simp: bank_bootable_def Let_def)
  next
    case ok: True
    let ?i = "if E > 255 then 255 else ucast E :: u8" and ?n = "20 + unat (ih_image_size ?h)"
    have sz: "unat (ih_image_size ?h) \<le> unat (s0_app_slot_size sc)" using ok by (simp add: word_le_nat_alt)
    have hdr: "(ih_magic ?h \<noteq> TOOB_MAGIC_HEADER \<or> ih_image_size ?h > s0_app_slot_size sc) = False" using ok by auto
    obtain s2 where e: "boot_read_monotonic_counter_safe p s1 = (BOOT_OK, Some E, s2)" "mem s2 = mem s" "live s2"
      using counter_safe [OF r(3)] r(2) by auto
    have ix: "stage0_get_active_otp_key_index p s1 = (Some ?i, s2)" using e(1) by (simp add: stage0_get_active_otp_key_index_def Let_def)
    obtain st d s3 where k: "read_pubkey 32 ?i s2 = (st, d, s3)" "mem s3 = mem s" "live s3"
        "case K ?i of None \<Rightarrow> st \<noteq> BOOT_OK | Some x \<Rightarrow> st = BOOT_OK \<and> d = x \<and> length x = 32"
      using pubkey_law [OF e(3), of ?i] e(2) by metis
    show ?thesis
    proof (cases "K ?i")
      case None
      then have "stage0_try_boot_bank sc p fl c key a dslc floor s = (Bank_ineligible, s3)"
        using r f hdr ix k s0_parts production
        by (simp add: stage0_try_boot_bank_def TOOB_IMAGE_HEADER_SIZE_def bank_header_def Let_def del: not_less de_Morgan_disj)
      then show ?thesis using None k(2,3) by (auto simp: bank_bootable_def Let_def)
    next
      case (Some x)
      then have x: "st = BOOT_OK" "d = x" "fill_prefix d (zeroed 32) = x" using k(4) by (auto simp: fill_prefix_def)
      have "20 + unat (ih_image_size ?h) < 2 ^ 32" using sz room total_addr by simp
      then have n: "unat (of_nat 20 + ih_image_size ?h :: u32) = ?n" by (simp add: unat_add_no_wrap)
      have hroom: "unat a + ?n \<le> total" using sz room by simp
      obtain s4 where h: "stage0_hash_compute p fl a ?n s3 = (H (slice_of (unat a) ?n (mem s)) @ zeroed 32, s4)" "mem s4 = mem s" "live s4"
        using hash_ok [OF k(3) hroom] k(2) by auto
      have an: "unat (a + (of_nat 20 + ih_image_size ?h)) = unat a + ?n"
        using n hroom total_addr by (simp add: unat_add_no_wrap)
      have groom: "unat (a + (of_nat 20 + ih_image_size ?h)) + 64 \<le> total" using an sz room by simp
      obtain s5 where g: "fh_read fl (a + (of_nat 20 + ih_image_size ?h)) 64 s4 = (BOOT_OK, slice_of (unat a + ?n) 64 (mem s), s5)"
          "mem s5 = mem s" "live s5"
        using readE [OF h(3) groom] an h(2) by metis
      have gf: "fill_prefix (slice_of (unat a + ?n) 64 (mem s)) (zeroed 64) = slice_of (unat a + ?n) 64 (mem s)"
        using groom an ml by (simp add: fill_prefix_def)
      obtain st6 s6 where v: "verify_ph (H (slice_of (unat a) ?n (mem s)) @ zeroed 32) (slice_of (unat a + ?n) 64 (mem s)) x s5 = (st6, s6)"
          "mem s6 = mem s" "live s6" "st6 = BOOT_OK \<longleftrightarrow> W (H (slice_of (unat a) ?n (mem s)) @ zeroed 32) (slice_of (unat a + ?n) 64 (mem s)) x"
        using ph_law [OF g(3)] g(2) by metis
      have "stage0_try_boot_bank sc p fl c key a dslc floor s =
          (if st6 = BOOT_OK then Bank_eligible (bank_proof key floor (mem s) a) else Bank_ineligible, s6)"
        using r f hdr ix k(1) s0_parts production x h(1) g(1) gf v(1) n
        by (simp add: stage0_try_boot_bank_def TOOB_IMAGE_HEADER_SIZE_def bank_header_def Let_def stage0_verify_signature_def
            crypto_ptr bank_proof_def)
      moreover have "bank_bootable sc H K W E (mem s) a \<longleftrightarrow> st6 = BOOT_OK"
        using ok Some v(4) by (simp add: bank_bootable_def Let_def)
      ultimately show ?thesis using v(2,3) by auto
    qed
  qed
qed

lemma jump_ok: "stage0_jump key (bank_proof key floor m a) = S0_jumps (a + ih_entry_point (bank_header m a))"
  by (simp add: stage0_jump_def boot_proof_verify_def bank_proof_def boot_proof_seal_def Let_def)

abbreviation "boot_choice \<equiv> stage0_choice sc H K W E"

lemma other_bank_in: "other_bank sc a \<in> {s0_stage1a_addr sc, s0_stage1b_addr sc}"
  by (simp add: other_bank_def)

lemma select_ok:
  assumes "live s" and "a \<in> {s0_stage1a_addr sc, s0_stage1b_addr sc}"
  shows "fst (stage0_select sc p fl c key a dslc floor s) = boot_choice (mem s) a"
proof -
  obtain s1 where 1: "stage0_try_boot_bank sc p fl c key a dslc floor s =
      (if bank_bootable sc H K W E (mem s) a then Bank_eligible (bank_proof key floor (mem s) a) else Bank_ineligible, s1)"
      "mem s1 = mem s" "live s1"
    using try_bank_ok [OF assms] by blast
  obtain s2 where 2: "stage0_try_boot_bank sc p fl c key (other_bank sc a) dslc floor s1 =
      (if bank_bootable sc H K W E (mem s) (other_bank sc a) then Bank_eligible (bank_proof key floor (mem s) (other_bank sc a))
       else Bank_ineligible, s2)"
    using try_bank_ok [OF 1(3) other_bank_in, of key a dslc floor] 1(2) by auto
  show ?thesis using 1(1) 2 jump_ok by (auto simp: stage0_select_def stage0_choice_def Let_def)
qed

lemma rounds_keep: "live s \<Longrightarrow> mem (snd (dslc_rounds c rs reads s)) = mem s \<and> live (snd (dslc_rounds c rs reads s))"
proof (induction rs arbitrary: reads s)
  case (Cons r rs)
  let ?s = "if r > 0 then (case ch_random c of None \<Rightarrow> s | Some f \<Rightarrow> snd (snd (f 1 s))) else s"
  have s: "live ?s" "mem ?s = mem s" using Cons.prems random_law by (auto split: option.splits)
  then show ?case
    using Cons.IH dslc_law [OF s(1), of 64] by (auto simp: Let_def split: prod.splits option.splits)
qed simp

lemma highest_ok:
  assumes "live s"
  shows "\<exists>s'. stage0_scan_wal_highest sc fl s =
      (fst (snd (stage0_newest (s0_wal_addrs sc) (mem s))), snd (snd (stage0_newest (s0_wal_addrs sc) (mem s))), s') \<and>
    mem s' = mem s \<and> live s'"
  using scan_ok [OF assms order_refl, of "(0, 0, 0)"]
  by (auto simp: stage0_scan_wal_highest_def stage0_newest_def split_def)

lemma active_ok:
  assumes "live s"
  shows "\<exists>s'. stage0_get_active_slot sc fl s = (stage0_bank sc (mem s), s') \<and> mem s' = mem s \<and> live s'"
  using highest_ok [OF assms] by (auto simp: stage0_get_active_slot_def stage0_bank_def)

lemma svn_ok:
  assumes "live s"
  shows "\<exists>v s'. stage0_get_stage1_svn sc fl s = (v, s') \<and> mem s' = mem s \<and> live s'"
  using highest_ok [OF assms] by (auto simp: stage0_get_stage1_svn_def)

lemma tentative_ok:
  assumes "live s"
  shows "\<exists>s'. stage0_evaluate_tentative sc p magic a s =
      (if trial_crashed p R magic then (other_bank sc a, 0, s') else (a, magic, s')) \<and> mem s' = mem s \<and> live s'"
proof (cases "pf_clock p")
  case None
  then show ?thesis using assms by (simp add: stage0_evaluate_tentative_def trial_crashed_def)
next
  case (Some k)
  show ?thesis
  proof (cases "kh_get_reset_reason k")
    case None
    then show ?thesis using Some assms by (simp add: stage0_evaluate_tentative_def trial_crashed_def)
  next
    case r: (Some rsn)
    obtain s' where "rsn s = (R, s')" "mem s' = mem s" "live s'" using reset_law [OF assms Some r] by blast
    then show ?thesis using Some r by (auto simp: stage0_evaluate_tentative_def trial_crashed_def)
  qed
qed

lemma preferred_in: "stage0_preferred sc x m \<in> {s0_stage1a_addr sc, s0_stage1b_addr sc}"
  by (simp add: stage0_preferred_def stage0_bank_def other_bank_def)

lemma main_ok:
  assumes "live s" and rnd: "boot_random_safe p 16 s = (st, buf, s1)" and vote: "dslc_rounds c [0..<5] [] s1 = (dslc, s2)"
    and run: "stage0_main sc p fl c magic s = (out, magic', s')"
  shows "if st \<noteq> BOOT_OK \<or> dslc = None then out = S0_halts \<and> magic' = magic
    else out = boot_choice (mem s) (stage0_preferred sc (trial_crashed p R magic) (mem s)) \<and>
      magic' = (if trial_crashed p R magic then 0 else magic)"
proof (cases "st = BOOT_OK \<and> dslc \<noteq> None")
  case False
  then show ?thesis using rnd vote run by (auto simp: stage0_main_def Let_def split: if_splits)
next
  case True
  then obtain d where d: "dslc = Some d" and st: "st = BOOT_OK" by auto
  have s1: "mem s1 = mem s" "live s1"
    using rnd random_law [OF assms(1), of _ 16] assms(1)
    by (auto simp: boot_random_safe_def crypto_ptr split: option.splits prod.splits if_splits)
  have s2: "mem s2 = mem s" "live s2" using rounds_keep [OF s1(2), of "[0..<5]" "[]"] vote s1(1) by simp_all
  obtain s3 where 3: "stage0_get_active_slot sc fl s2 = (stage0_bank sc (mem s), s3)" "mem s3 = mem s" "live s3"
    using active_ok [OF s2(2)] s2(1) by auto
  define a m' where "a = stage0_preferred sc (trial_crashed p R magic) (mem s)" and "m' = (if trial_crashed p R magic then 0 else magic)"
  obtain s4 where 4: "stage0_evaluate_tentative sc p magic (stage0_bank sc (mem s)) s3 = (a, m', s4)" "mem s4 = mem s" "live s4"
    using tentative_ok [OF 3(3), of magic "stage0_bank sc (mem s)"] 3(2) by (auto simp: a_def m'_def stage0_preferred_def split: if_splits)
  obtain s5 where 5: "boot_read_monotonic_counter_safe p s4 = (BOOT_OK, Some E, s5)" "mem s5 = mem s" "live s5"
    using counter_safe [OF 4(3)] 4(2) by auto
  obtain v s6 where 6: "stage0_get_stage1_svn sc fl s5 = (v, s6)" "mem s6 = mem s" "live s6"
    using svn_ok [OF 5(3)] 5(2) by auto
  have "fst (stage0_select sc p fl c key a d floor s6) = boot_choice (mem s) a" for key floor
    using select_ok [OF 6(3)] preferred_in 6(2) by (simp add: a_def)
  note sel = this
  obtain key floor where "(case stage0_select sc p fl c key a d floor s6 of (out, s) \<Rightarrow> (out, m', s)) = (out, magic', s')"
    using run rnd vote d st 3(1) 4(1) 5(1) 6(1) by (simp add: stage0_main_def Let_def)
  then have "out = boot_choice (mem s) a \<and> magic' = m'" using sel by (auto simp: split_def)
  then show ?thesis using d st by (simp add: a_def m'_def)
qed

end

section \<open>A model device\<close>

text \<open>
  Eight sectors of 64 bytes: two header sectors, bank A at 256, bank B at 384. The engine accepts the
  constant signature 5, 5, ...; the last reset came from the watchdog.
\<close>

definition tiny_config :: stage0_config where
  "tiny_config = \<lparr> s0_wal_addrs = [0, 128], s0_stage1a_addr = 256, s0_stage1b_addr = 384, s0_app_slot_size = 8,
     s0_dev_bypass = False \<rparr>"

definition tiny_crypto :: "flash_model crypto_hal" where
  "tiny_crypto = (sandbox_crypto_hal (Pair 4))\<lparr>
     ch_verify_signature_ph := Some (\<lambda>m g k s. (if g = replicate 64 5 then BOOT_OK else BOOT_ERR_VERIFY, s)) \<rparr>"

definition tiny_platform :: "flash_model platform" where
  "tiny_platform = (model_platform (model_port 64 1 0xFF 0))\<lparr> pf_crypto := Some tiny_crypto,
     pf_clock := Some \<lparr> kh_get_tick_ms = None, kh_delay_ms = None, kh_get_reset_reason = Some (Pair RESET_REASON_WATCHDOG) \<rparr> \<rparr>"

definition tiny_device :: "u8 list \<Rightarrow> flash_model" where
  "tiny_device img = \<lparr> fm_file = img, fm_total_size = 512, fm_sector_size = 64, fm_erased_value = 0xFF, fm_write_align = 1,
     fm_fail_at_op = 0, fm_torn_prefix = 0, fm_op_counter = 0 \<rparr>"

lemma sandbox_random_4 [simp]: "sandbox_crypto_random (Pair 4) n s = (BOOT_OK, replicate n 4, s)"
proof -
  have "((\<lambda>(bs, s). (bs @ [4 :: u8], s)) ^^ n) ([], s) = (replicate n 4, s)"
    by (induction n) (simp_all add: replicate_append_same)
  then show ?thesis by (simp add: sandbox_crypto_random_def Let_def)
qed

interpretation tiny: stage0_device tiny_platform "model_port 64 1 0xFF 0" fm_file "model_live 512 64 1 0xFF" 512 64 1
    tiny_crypto sandbox_hash "\<lambda>_ _ _. True" tiny_config sandbox_crypto_read_pubkey "the (ch_verify_signature_ph tiny_crypto)"
    sandbox_crypto_read_monotonic_counter "\<lambda>_. Some (replicate 32 0)" "\<lambda>_ g _. g = replicate 64 5" 0 RESET_REASON_WATCHDOG
proof (intro stage0_device.intro hash_device.intro)
  have k: "wdt_kick tiny_platform s = s" "wdt_suspend tiny_platform s = s" "wdt_resume tiny_platform s = s" for s
    by (simp_all add: tiny_platform_def wdt_kick_def wdt_suspend_def wdt_resume_def call_opt_def)
  show "flash_contract tiny_platform (model_port 64 1 0xFF 0) fm_file (model_live 512 64 1 0xFF) 512 64 1"
    using model_contract [of 64 512 1 64 1 "0xFF" 0] k by (simp add: flash_contract_def tiny_platform_def)
  show "hash_contract tiny_crypto sandbox_hash (\<lambda>_ _ _. True) fm_file (model_live 512 64 1 0xFF)"
    using sandbox_hash_contract [of "Pair 4" fm_file "model_live 512 64 1 0xFF"] by (simp add: hash_contract_def tiny_crypto_def)
  show "hash_device_axioms tiny_platform tiny_crypto"
    by unfold_locales (simp_all add: tiny_platform_def)
  show "stage0_device_axioms tiny_platform (model_port 64 1 0xFF 0) fm_file (model_live 512 64 1 0xFF) 512 tiny_crypto (\<lambda>_ _ _. True)
     tiny_config sandbox_crypto_read_pubkey (the (ch_verify_signature_ph tiny_crypto)) sandbox_crypto_read_monotonic_counter
     (\<lambda>_. Some (replicate 32 0)) (\<lambda>_ g _. g = replicate 64 5) 0 RESET_REASON_WATCHDOG"
    by unfold_locales
      (auto simp: tiny_platform_def tiny_crypto_def tiny_config_def sandbox_crypto_hal_def sandbox_crypto_read_pubkey_def
        sandbox_crypto_read_monotonic_counter_def sandbox_crypto_read_dslc_def)
qed

definition tiny_bank :: "u32 \<Rightarrow> u8 list" where
  "tiny_bank entry = to_le32 TOOB_MAGIC_HEADER @ to_le32 4 @ to_le32 entry @ replicate 8 0 @ [1, 2, 3, 4] @ replicate 64 5 @ replicate 40 0xFF"

definition tiny_image :: "u8 list" where
  "tiny_image = replicate 256 0xFF @ tiny_bank 24 @ tiny_bank 40"

section \<open>Properties\<close>

text \<open>
  C31. What Stage 0 boots. On a device whose flash, hash engine, key slots and counter work, and unless the
  random source or the vote over the lifecycle code fails (it then halts), \<open>main\<close> jumps to the entry point
  of the bank named by the newest checksummed journal header, or of the other bank if the last boot was on
  trial and ended in a crash, provided the header of that bank is valid and the signature over exactly
  header and image verifies under the fuse key of the current epoch; else to the other bank under the same
  condition; and it panics if neither qualifies. The trial mark is cleared exactly after a crashed trial.
\<close>

theorem stage0_boots_signed_bank:
  assumes "stage0_device p fl mem live tot sec wa c H absorbed sc read_pubkey verify_ph read_counter K W E R" and "live s"
    and "boot_random_safe p 16 s = (st, buf, s1)" and "dslc_rounds c [0..<5] [] s1 = (dslc, s2)"
    and "stage0_main sc p fl c magic s = (out, magic', s')"
  shows "if st \<noteq> BOOT_OK \<or> dslc = None then out = S0_halts \<and> magic' = magic
    else out = stage0_choice sc H K W E (mem s) (stage0_preferred sc (trial_crashed p R magic) (mem s)) \<and>
      magic' = (if trial_crashed p R magic then 0 else magic)"
  by (rule stage0_device.main_ok [OF assms])

lemma tiny_votes:
  "\<exists>buf s1 s2. boot_random_safe tiny_platform 16 s = (BOOT_OK, buf, s1) \<and> dslc_rounds tiny_crypto [0..<5] [] s1 = (Some 0, s2)"
proof -
  have "boot_random_safe tiny_platform 16 s = (BOOT_OK, replicate 16 4, s)"
    by (simp add: boot_random_safe_def tiny_platform_def tiny_crypto_def sandbox_crypto_hal_def replicate_numeral)
  moreover have "dslc_rounds tiny_crypto [0..<5] [] s = (Some 0, s)"
    by (simp add: upt_rec tiny_crypto_def sandbox_crypto_hal_def sandbox_crypto_read_dslc_def fill_prefix_def replicate_numeral Let_def)
  ultimately show ?thesis by blast
qed

lemma tiny_slices:
  "stage0_newest [0, 128] tiny_image = (0, 0, 0)"
  "bank_header tiny_image 256 = \<lparr> ih_magic = TOOB_MAGIC_HEADER, ih_image_size = 4, ih_entry_point = 24, ih_base_fingerprint = replicate 8 0 \<rparr>"
  "bank_header tiny_image 384 = \<lparr> ih_magic = TOOB_MAGIC_HEADER, ih_image_size = 4, ih_entry_point = 40, ih_base_fingerprint = replicate 8 0 \<rparr>"
  "slice_of 280 64 tiny_image = replicate 64 5" "slice_of 408 64 tiny_image = replicate 64 5" "length tiny_image = 512"
proof -
  have l: "length (tiny_bank e) = 128" for e by (simp add: tiny_bank_def)
  have h: "slice_of a 128 tiny_image = replicate 128 0xFF" if "a \<in> {0, 128}" for a
    using that by (auto simp: tiny_image_def slice_of_def)
  have "stage0_parse (replicate 128 0xFF) = None"
    by (simp add: stage0_parse_def header_of_def rd32_def le32_def Let_def WAL_ABI_VERSION_MAGIC_LEGACY_def
        WAL_ABI_VERSION_MAGIC_CURRENT_def slice_of_def replicate_numeral)
  then show "stage0_newest [0, 128] tiny_image = (0, 0, 0)"
    using h by (simp add: stage0_newest_def stage0_better_def)
  have A: "slice_of (256 + i) n tiny_image = take n (drop i (tiny_bank 24))" if "i + n \<le> 128" for i n
    using that l by (simp add: tiny_image_def slice_of_def)
  have B: "slice_of (384 + i) n tiny_image = take n (drop i (tiny_bank 40))" if "i + n \<le> 128" for i n
    using that l by (simp add: tiny_image_def slice_of_def)
  have hd: "image_header_of (take 20 (tiny_bank e)) = \<lparr> ih_magic = TOOB_MAGIC_HEADER, ih_image_size = 4, ih_entry_point = e,
      ih_base_fingerprint = replicate 8 0 \<rparr>" for e
    by (simp add: image_header_of_def tiny_bank_def rd_here rd_skip slice_of_def)
  show "bank_header tiny_image 256 = \<lparr> ih_magic = TOOB_MAGIC_HEADER, ih_image_size = 4, ih_entry_point = 24, ih_base_fingerprint = replicate 8 0 \<rparr>"
    using A [of 0 20] hd by (simp add: bank_header_def)
  show "bank_header tiny_image 384 = \<lparr> ih_magic = TOOB_MAGIC_HEADER, ih_image_size = 4, ih_entry_point = 40, ih_base_fingerprint = replicate 8 0 \<rparr>"
    using B [of 0 20] hd by (simp add: bank_header_def)
  show "slice_of 280 64 tiny_image = replicate 64 5" using A [of 24 64] by (simp add: tiny_bank_def)
  show "slice_of 408 64 tiny_image = replicate 64 5" using B [of 24 64] by (simp add: tiny_bank_def)
  show "length tiny_image = 512" using l by (simp add: tiny_image_def)
qed

lemma stage0_boots_signed_bank_witness:
  "fst (stage0_main tiny_config tiny_platform (model_port 64 1 0xFF 0) tiny_crypto 0 (tiny_device tiny_image)) = S0_jumps (256 + 24) \<and>
   fst (stage0_main tiny_config tiny_platform (model_port 64 1 0xFF 0) tiny_crypto TOOB_STATE_TENTATIVE (tiny_device tiny_image)) = S0_jumps (384 + 40)"
proof -
  have live: "model_live 512 64 1 0xFF (tiny_device tiny_image)" using tiny_slices(6) by (simp add: model_live_def tiny_device_def)
  have img: "fm_file (tiny_device tiny_image) = tiny_image" by (simp add: tiny_device_def)
  obtain buf s1 s2 where v: "boot_random_safe tiny_platform 16 (tiny_device tiny_image) = (BOOT_OK, buf, s1)"
      "dslc_rounds tiny_crypto [0..<5] [] s1 = (Some 0, s2)" using tiny_votes by blast
  have "fst (stage0_main tiny_config tiny_platform (model_port 64 1 0xFF 0) tiny_crypto m (tiny_device tiny_image)) =
      stage0_choice tiny_config sandbox_hash (\<lambda>_. Some (replicate 32 0)) (\<lambda>_ g _. g = replicate 64 5) 0 tiny_image
        (stage0_preferred tiny_config (trial_crashed tiny_platform RESET_REASON_WATCHDOG m) tiny_image)" for m
    using stage0_boots_signed_bank [OF tiny.stage0_device_axioms live v, of m] img
    by (cases "stage0_main tiny_config tiny_platform (model_port 64 1 0xFF 0) tiny_crypto m (tiny_device tiny_image)") simp
  moreover have "trial_crashed tiny_platform RESET_REASON_WATCHDOG m \<longleftrightarrow> m = TOOB_STATE_TENTATIVE" for m
    by (simp add: trial_crashed_def tiny_platform_def)
  ultimately show ?thesis
    using tiny_slices(1-5)
    by (simp add: stage0_choice_def bank_bootable_def stage0_preferred_def stage0_bank_def other_bank_def tiny_config_def
        TOOB_STATE_TENTATIVE_def Let_def)
qed

text \<open>Two verdicts that leave the device alike and jump alike.\<close>

definition same_boot :: "u32 list \<Rightarrow> bank_verdict \<times> 's \<Rightarrow> bank_verdict \<times> 's \<Rightarrow> bool" where
  "same_boot key x y \<longleftrightarrow> snd x = snd y \<and>
     (case (fst x, fst y) of
        (Bank_eligible pr, Bank_eligible pr') \<Rightarrow> stage0_jump key pr = stage0_jump key pr'
      | (Bank_ineligible, Bank_ineligible) \<Rightarrow> True
      | (Bank_halts, Bank_halts) \<Rightarrow> True
      | _ \<Rightarrow> False)"

lemma try_same_boot:
  "same_boot key (stage0_try_boot_bank sc p fl c key slot dslc floor s) (stage0_try_boot_bank sc p fl c key slot dslc floor' s)"
proof -
  have j: "stage0_jump key (boot_proof_seal \<lparr> pr_image_addr = a, pr_image_size = n, pr_entry_point = e, pr_svn = v, pr_seal0 = 0, pr_seal1 = 0 \<rparr> key) =
      S0_jumps (a + e)" for a n e v
    by (simp add: stage0_jump_def boot_proof_verify_def boot_proof_seal_def Let_def)
  show ?thesis
    unfolding stage0_try_boot_bank_def Let_def
    by (simp add: same_boot_def j split: prod.split option.split)
qed

text \<open>
  C32. Stage 0 has no downgrade protection. The SVN floor, the larger of the fuse epoch and the SVN recorded
  in the journal, changes nothing: for every device, bank order and state the outcome is the same under any
  two floors, although \<open>main\<close> and the comment of \<open>stage0_try_boot_bank\<close> present it as the gate against an
  old image. The value only reaches the sealed proof, which the jump does not look at.
\<close>

theorem stage0_ignores_svn_floor:
  "stage0_select sc p fl c seal_key slot dslc svn_floor s = stage0_select sc p fl c seal_key slot dslc svn_floor' s"
proof -
  let ?t = "\<lambda>floor slot. stage0_try_boot_bank sc p fl c seal_key slot dslc floor"
  have r: "same_boot seal_key (?t svn_floor slot s) (?t svn_floor' slot s)" for slot s
    by (rule try_same_boot)
  obtain v s1 v' s1' where 1: "?t svn_floor slot s = (v, s1)" "?t svn_floor' slot s = (v', s1')" by fastforce
  then have s1: "s1' = s1" using r [of slot s] by (simp add: same_boot_def)
  obtain w s2 w' s2' where 2: "?t svn_floor (other_bank sc slot) s1 = (w, s2)" "?t svn_floor' (other_bank sc slot) s1 = (w', s2')"
    by fastforce
  show ?thesis using r [of slot s] r [of "other_bank sc slot" s1] 1 2 s1
    by (simp add: same_boot_def stage0_select_def split: bank_verdict.splits)
qed

end
