(* ===== verification/Boot_Multiimage.thy ===== *)
theory Boot_Multiimage
  imports Boot_Swap Boot_Merkle
begin

text \<open>
  Installation of the further images of an update (\<open>core/boot_multiimage.c\<close>): every component is copied from
  the staging slot to its target by an erase and a copy effect, hashed there, and ticked off in the transfer
  bitmap of the open transaction. The arena is split into the hash context and a stream buffer, of which half
  is used; it comes back zeroized. \<open>None\<close> is a loop that does not end.
\<close>

section \<open>Bounds\<close>

definition is_target_whitelisted :: "u32 \<Rightarrow> u32 \<Rightarrow> allowed_region list \<Rightarrow> bool" where
  "is_target_whitelisted target_addr n whitelist =
     (if n = 0 then True
      else if whitelist = [] then False
      else if UINT32_MAX - target_addr < n then False
      else
        let target_end = target_addr + n
        in list_ex (\<lambda>w. ar_max_size w \<noteq> 0 \<and> \<not> UINT32_MAX - ar_base_addr w < ar_max_size w \<and>
             target_addr \<ge> ar_base_addr w \<and> target_end \<le> ar_base_addr w + ar_max_size w) whitelist)"

definition component_in_bounds :: "u32 \<Rightarrow> allowed_region list \<Rightarrow> boot_component \<Rightarrow> bool" where
  "component_in_bounds staging_base whitelist c \<longleftrightarrow>
     is_target_whitelisted (bc_target_addr c) (bc_image_size c) whitelist \<and>
     \<not> (UINT32_MAX - staging_base < bc_staging_offset c \<or>
        UINT32_MAX - (staging_base + bc_staging_offset c) < bc_image_size c)"

section \<open>One component\<close>

definition boot_multiimage_plan_component ::
  "u32 \<Rightarrow> boot_component \<Rightarrow> u32 \<Rightarrow> nat \<Rightarrow> boot_status \<times> flash_effect list" where
  "boot_multiimage_plan_component staging_base c src_crc cap =
     (if cap < 2 then (BOOT_ERR_INVALID_ARG, [])
      else (BOOT_OK, [erase_effect (bc_target_addr c) (bc_image_size c),
                      copy_effect (staging_base + bc_staging_offset c) (bc_target_addr c) (bc_image_size c) src_crc]))"

text \<open>The read-back hash over the target, in steps of half the stream buffer.\<close>

function mi_hash_loop ::
  "'s platform \<Rightarrow> 's flash_hal \<Rightarrow> 's crypto_hal \<Rightarrow> u32 \<Rightarrow> nat \<Rightarrow> nat \<Rightarrow> nat \<Rightarrow> u8 list \<Rightarrow> 's \<Rightarrow>
     (boot_status \<times> u8 list \<times> 's) option" where
  "mi_hash_loop p fl c addr n half hashed_len ctx s =
     (if hashed_len < n then
        if half = 0 then None
        else
          let step = (if n - hashed_len > half then half else n - hashed_len)
          in case fh_read fl (addr + of_nat hashed_len) step (wdt_kick p s) of (st, d, s) \<Rightarrow>
               if st \<noteq> BOOT_OK then Some (BOOT_ERR_FLASH_HW, ctx, s)
               else case ch_hash_update c ctx d s of (st, ctx, s) \<Rightarrow>
                 if st \<noteq> BOOT_OK then Some (BOOT_ERR_CRYPTO, ctx, s)
                 else mi_hash_loop p fl c addr n half (hashed_len + step) ctx s
      else Some (BOOT_OK, ctx, s))"
  by pat_completeness auto
termination
  by (relation "measure (\<lambda>(p, fl, c, addr, n, half, hashed_len, ctx, s). n - hashed_len)") auto

declare mi_hash_loop.simps [simp del]

definition mi_verify ::
  "'s platform \<Rightarrow> 's flash_hal \<Rightarrow> 's crypto_hal \<Rightarrow> boot_component \<Rightarrow> nat \<Rightarrow> 's \<Rightarrow> (boot_status \<times> 's) option" where
  "mi_verify p fl c cm half s =
     (case ch_hash_init c (zeroed (ch_get_hash_ctx_size c)) s of (st, ctx, s) \<Rightarrow>
        if st \<noteq> BOOT_OK then Some (BOOT_ERR_CRYPTO, s)
        else do {
          (st, ctx, s) \<leftarrow> mi_hash_loop p fl c (bc_target_addr cm) (unat (bc_image_size cm)) half 0 ctx s;
          if st \<noteq> BOOT_OK then Some (st, s)
          else case ch_hash_finish c ctx 32 s of (st, d, d_len, s) \<Rightarrow>
            if st \<noteq> BOOT_OK \<or> d_len \<noteq> 32 then Some (BOOT_ERR_CRYPTO, s)
            else if constant_time_memcmp_glitch_safe (fill_prefix d (zeroed 32)) (bc_expected_hash cm) 32 \<noteq> BOOT_OK
            then Some (BOOT_ERR_VERIFY, s)
            else Some (BOOT_OK, s)
        })"

definition mi_word :: "boot_component \<Rightarrow> nat" where
  "mi_word c = unat (bc_component_id c div 32)"

definition mi_mask :: "boot_component \<Rightarrow> u32" where
  "mi_mask c = push_bit (unat (bc_component_id c mod 32)) 1"

text \<open>Copy, read-back, checkpoint; status, stream buffer, transaction, journal and device.\<close>

definition mi_install ::
  "'s build \<Rightarrow> 's platform \<Rightarrow> 's flash_hal \<Rightarrow> 's crypto_hal \<Rightarrow> u32 \<Rightarrow> allowed_region list \<Rightarrow> boot_component \<Rightarrow>
     u8 list \<Rightarrow> wal_entry_payload \<Rightarrow> journal_state \<Rightarrow> 's \<Rightarrow>
     (boot_status \<times> u8 list \<times> wal_entry_payload \<times> journal_state \<times> 's) option" where
  "mi_install b p fl c staging_base whitelist cm buf txn j s = do {
     (st, src_crc, buf, s) \<leftarrow> boot_crc32_flash_stream p fl (staging_base + bc_staging_offset cm)
        (unat (bc_image_size cm)) buf s;
     if st \<noteq> BOOT_OK then Some (st, buf, txn, j, s)
     else case boot_multiimage_plan_component staging_base cm (case src_crc of None \<Rightarrow> 0 | Some v \<Rightarrow> v) 2 of (st, fx) \<Rightarrow>
       if st \<noteq> BOOT_OK then Some (st, buf, txn, j, s)
       else do {
         (st, buf, j, s) \<leftarrow> boot_effect_execute b p fl whitelist fx buf j s;
         if st \<noteq> BOOT_OK then Some (st, buf, txn, j, s)
         else do {
           (st, s) \<leftarrow> mi_verify p fl c cm (length buf) s;
           if st \<noteq> BOOT_OK then Some (st, buf, txn, j, s)
           else
             let txn = txn\<lparr> we_transfer_bitmap :=
                   (we_transfer_bitmap txn)[mi_word cm := we_transfer_bitmap txn ! mi_word cm OR mi_mask cm] \<rparr>
             in case boot_journal_append (bd_wal b) p j txn s of (st, j, s) \<Rightarrow> Some (st, buf, txn, j, s)
         }
       }
   }"

section \<open>All components\<close>

text \<open>\<open>current\<close> is \<open>multi_cfi_ctx.current_val\<close>; each component leaves the complement of its id in it.\<close>

fun mi_loop ::
  "'s build \<Rightarrow> 's platform \<Rightarrow> 's flash_hal \<Rightarrow> 's crypto_hal \<Rightarrow> u32 \<Rightarrow> allowed_region list \<Rightarrow> boot_component list \<Rightarrow>
     u32 \<Rightarrow> u8 list \<Rightarrow> wal_entry_payload \<Rightarrow> journal_state \<Rightarrow> 's \<Rightarrow>
     (boot_status \<times> u32 \<times> u8 list \<times> wal_entry_payload \<times> journal_state \<times> 's) option" where
  "mi_loop b p fl c staging_base whitelist [] current buf txn j s = Some (BOOT_OK, current, buf, txn, j, s)"
| "mi_loop b p fl c staging_base whitelist (cm # cms) current buf txn j s =
     (let done' = current XOR NOT (bc_component_id cm)
      in if bc_image_size cm = 0 then mi_loop b p fl c staging_base whitelist cms done' buf txn j s
         else if bc_component_id cm > 255 then Some (BOOT_ERR_INVALID_ARG, current, buf, txn, j, s)
         else if we_transfer_bitmap txn ! mi_word cm AND mi_mask cm \<noteq> 0
         then mi_loop b p fl c staging_base whitelist cms done' buf txn j s
         else do {
           (st, buf, txn, j, s) \<leftarrow> mi_install b p fl c staging_base whitelist cm buf txn j s;
           if st \<noteq> BOOT_OK then Some (st, current, buf, txn, j, s)
           else mi_loop b p fl c staging_base whitelist cms done' buf txn j s
         })"

definition mi_cfi :: "'s platform \<Rightarrow> boot_component list \<Rightarrow> 's \<Rightarrow> boot_cfi_ctx \<times> 's" where
  "mi_cfi p components s =
     (case boot_random_safe p 4 s of (_, buf, s) \<Rightarrow>
        let ctx = boot_cfi_add_expected 2 (boot_cfi_add_expected 1 (boot_cfi_init (rd32 0 (fill_prefix buf (zeroed 4)))))
        in (fold (\<lambda>c ctx. ctx\<lparr> cfi_expected_val := cfi_expected_val ctx XOR NOT (bc_component_id c) \<rparr>) components ctx, s))"

definition boot_multiimage_apply ::
  "'s build \<Rightarrow> 's platform \<Rightarrow> u32 \<Rightarrow> boot_component list \<Rightarrow> allowed_region list \<Rightarrow> wal_entry_payload \<Rightarrow>
     u8 list \<Rightarrow> journal_state \<Rightarrow> 's \<Rightarrow> (boot_status \<times> u8 list \<times> wal_entry_payload \<times> journal_state \<times> 's) option" where
  "boot_multiimage_apply b p staging_base components whitelist txn arena j s =
     (if length arena < 1024 then Some (BOOT_ERR_INVALID_ARG, arena, txn, j, s)
      else case (pf_flash p, pf_crypto p, pf_wdt p) of
        (Some fl, Some c, Some w) \<Rightarrow>
          if components = [] then Some (BOOT_OK, arena, txn, j, s)
          else if length components > 256 then Some (BOOT_ERR_INVALID_ARG, arena, txn, j, s)
          else case mi_cfi p components s of (ctx, s) \<Rightarrow>
            if \<not> secure_require (list_all (component_in_bounds staging_base whitelist) components)
            then Some (BOOT_ERR_FLASH_BOUNDS, arena, txn, j, s)
            else
              let ctx = boot_cfi_step 1 ctx
              in if ch_get_hash_ctx_size c > 256 then Some (BOOT_ERR_INVALID_ARG, arena, txn, j, s)
                 else do {
                   (st, current, buf, txn, j, s) \<leftarrow> mi_loop b p fl c staging_base whitelist components
                      (cfi_current_val ctx) (take ((length arena - 256) div 2) (drop 256 arena)) txn j s;
                   let ctx = boot_cfi_step 2 (ctx\<lparr> cfi_current_val := current \<rparr>)
                   in Some (if st \<noteq> BOOT_OK then st
                            else if \<not> boot_cfi_require False ctx then BOOT_ERR_INVALID_STATE else BOOT_OK,
                            zeroed (length arena), txn, j, s)
                 }
      | _ \<Rightarrow> Some (BOOT_ERR_INVALID_ARG, arena, txn, j, s))"

section \<open>The transaction stays an entry\<close>

text \<open>\<open>entry_wf\<close>: what the fixed-size fields of the C structure make true of every entry.\<close>

lemma mi_install_wf:
  assumes "mi_install b p fl c base wl cm buf txn j s = Some (st, buf', txn', j', s')" "entry_wf txn"
  shows "entry_wf txn'"
  using assms by (auto simp: mi_install_def bind_eq_Some_conv Let_def entry_wf_def split_def split: if_splits)

lemma mi_loop_wf:
  "mi_loop b p fl c base wl cms current buf txn j s = Some (st, current', buf', txn', j', s') \<Longrightarrow> entry_wf txn \<Longrightarrow> entry_wf txn'"
proof (induction cms arbitrary: current buf txn j s)
  case Nil
  then show ?case by simp
next
  case (Cons cm cms)
  show ?case
  proof (cases "mi_install b p fl c base wl cm buf txn j s")
    case None
    then show ?thesis using Cons by (auto simp: Let_def split: if_splits)
  next
    case (Some q)
    then obtain st1 buf1 txn1 j1 s1 where q: "mi_install b p fl c base wl cm buf txn j s = Some (st1, buf1, txn1, j1, s1)"
      by (metis prod_cases5)
    have "entry_wf txn1" by (rule mi_install_wf [OF q Cons.prems(2)])
    then show ?thesis using Cons q by (auto simp: Let_def split: if_splits)
  qed
qed



end
