(* ===== verification/Boot_Transport.thy ===== *)
theory Boot_Transport
  imports Boot_Multiimage Boot_Rollback
begin

text \<open>
  The slot transport interface (\<open>common/include/boot_slot_transport.h\<close>) and the default provider
  (\<open>core/boot_transport_swapscratch.c\<close>, selected in \<open>core/boot_transport.c\<close>), which wraps the in-place
  swap and the rollback.
\<close>

section \<open>Transactions and providers\<close>

record slot_txn =
  st_src_addr :: u32
  st_src_region_size :: u32
  st_dest_addr :: u32
  st_dest_region_size :: u32
  st_backup_addr :: u32
  st_backup_region_size :: u32
  st_length :: u32
  st_dest_slot :: boot_dest_slot
  st_target_slot_index :: u8
  st_src_is_delta_output :: bool
  st_src_verified :: bool

text \<open>
  A provider. \<open>apply\<close> returns status, arena, open transaction, journal, swap state and device; \<open>None\<close> is a
  loop that does not end.
\<close>

record 's slot_transport =
  sp_id :: u8
  sp_apply :: "'s slot_caps option \<Rightarrow> slot_txn \<Rightarrow> wal_entry_payload \<Rightarrow> u8 list \<Rightarrow> journal_state \<Rightarrow> swap_state \<Rightarrow> 's \<Rightarrow>
     (boot_status \<times> u8 list \<times> wal_entry_payload \<times> journal_state \<times> swap_state \<times> 's) option"
  sp_rollback :: "'s slot_caps option \<Rightarrow> slot_txn \<Rightarrow> u8 list \<Rightarrow> journal_state \<Rightarrow> 's \<Rightarrow>
     (boot_status \<times> u8 list \<times> journal_state \<times> 's) option"

definition TOOB_TRANSPORT_ID_SWAPSCRATCH :: u8 where "TOOB_TRANSPORT_ID_SWAPSCRATCH = 1"

definition boot_transport_by_id :: "'s slot_transport \<Rightarrow> u8 \<Rightarrow> 's slot_transport option" where
  "boot_transport_by_id active i = (if sp_id active = i then Some active else None)"

section \<open>Swap through the scratch slot\<close>

text \<open>The transfer words 0 to 2 are cleared in the journal, for the multi-image step reads them as its own.\<close>

definition bitmap_cleanup ::
  "'s build \<Rightarrow> 's platform \<Rightarrow> wal_entry_payload \<Rightarrow> journal_state \<Rightarrow> 's \<Rightarrow>
     boot_status \<times> wal_entry_payload \<times> journal_state \<times> 's" where
  "bitmap_cleanup b p txn j s =
     (let w = we_transfer_bitmap txn
      in if w ! 0 \<noteq> 0 \<or> w ! 1 \<noteq> 0 \<or> w ! 2 \<noteq> 0 then
           let txn = txn\<lparr> we_transfer_bitmap := w[0 := 0, 1 := 0, 2 := 0] \<rparr>
           in case boot_journal_append (bd_wal b) p j txn s of (st, j, s) \<Rightarrow> (st, txn, j, s)
         else (BOOT_OK, txn, j, s))"

definition swapscratch_apply ::
  "'s build \<Rightarrow> 's platform \<Rightarrow> 's slot_caps option \<Rightarrow> slot_txn \<Rightarrow> wal_entry_payload \<Rightarrow> u8 list \<Rightarrow> journal_state \<Rightarrow>
     swap_state \<Rightarrow> 's \<Rightarrow> (boot_status \<times> u8 list \<times> wal_entry_payload \<times> journal_state \<times> swap_state \<times> 's) option" where
  "swapscratch_apply b p caps t txn arena j ss s =
     (if \<not> secure_require (st_src_verified t) then Some (BOOT_ERR_VERIFY, arena, txn, j, ss, s)
      else if st_src_is_delta_output t then Some (BOOT_ERR_NOT_SUPPORTED, arena, txn, j, ss, s)
      else
        let txn = txn\<lparr> we_transport_id := TOOB_TRANSPORT_ID_SWAPSCRATCH \<rparr>
        in do {
             (st, arena, r, j, ss, s) \<leftarrow> boot_swap_apply b p (st_src_addr t) (st_dest_addr t) (st_length t) (st_dest_slot t)
                (Some txn) arena j ss s;
             let txn = (case r of None \<Rightarrow> txn | Some e \<Rightarrow> e)
             in if st \<noteq> BOOT_OK then Some (st, arena, txn, j, ss, s)
                else case bitmap_cleanup b p txn j s of (st, txn, j, s) \<Rightarrow> Some (st, arena, txn, j, ss, s)
           })"

definition swapscratch_rollback ::
  "'s build \<Rightarrow> 's platform \<Rightarrow> 's slot_caps option \<Rightarrow> slot_txn \<Rightarrow> u8 list \<Rightarrow> journal_state \<Rightarrow> 's \<Rightarrow>
     (boot_status \<times> u8 list \<times> journal_state \<times> 's) option" where
  "swapscratch_rollback b p caps t arena j s = boot_rollback_trigger_revert b p arena j s"

definition g_toob_transport_swapscratch :: "'s build \<Rightarrow> 's platform \<Rightarrow> 's slot_transport" where
  "g_toob_transport_swapscratch b p = \<lparr> sp_id = TOOB_TRANSPORT_ID_SWAPSCRATCH, sp_apply = swapscratch_apply b p,
     sp_rollback = swapscratch_rollback b p \<rparr>"

end
