(* ===== verification/Transport_Providers.thy ===== *)
theory Transport_Providers
  imports Boot_Transport
begin

text \<open>
  The three providers a build may select instead of the default one: the one-way copy with backup
  (\<open>core/boot_transport_oneway.c\<close>), the swap-move over a spare sector (\<open>core/boot_transport_swapmove.c\<close>) and the
  boot pointer (\<open>core/boot_transport_pointer.c\<close>). Loops carry their guard counter; \<open>None\<close> is a stream over
  an empty arena, which does not end.
\<close>

definition TOOB_TB_SLOT_PHASE :: nat where "TOOB_TB_SLOT_PHASE = 3"
definition TOOB_TB_SLOT_AUX0 :: nat where "TOOB_TB_SLOT_AUX0 = 4"
definition TOOB_TB_SLOT_AUX1 :: nat where "TOOB_TB_SLOT_AUX1 = 5"

definition TOOB_PHASE_ONEWAY_BACKUP :: u32 where "TOOB_PHASE_ONEWAY_BACKUP = 0x0FB5AA33"
definition TOOB_PHASE_ONEWAY_DEPLOY :: u32 where "TOOB_PHASE_ONEWAY_DEPLOY = 0xF04A55CC"
definition TOOB_PHASE_ONEWAY_RBACK :: u32 where "TOOB_PHASE_ONEWAY_RBACK = 0x33CA5AF0"
definition TOOB_PHASE_SWAPMOVE_MOVE :: u32 where "TOOB_PHASE_SWAPMOVE_MOVE = 0x5AC3F00F"
definition TOOB_PHASE_SWAPMOVE_SWAP :: u32 where "TOOB_PHASE_SWAPMOVE_SWAP = 0xA53C0FF0"
definition TOOB_PHASE_POINTER_COPY :: u32 where "TOOB_PHASE_POINTER_COPY = 0x5A5A3C3C"

definition TOOB_TRANSPORT_ID_ONEWAY :: u8 where "TOOB_TRANSPORT_ID_ONEWAY = 2"
definition TOOB_TRANSPORT_ID_SWAPMOVE :: u8 where "TOOB_TRANSPORT_ID_SWAPMOVE = 3"
definition TOOB_TRANSPORT_ID_POINTER :: u8 where "TOOB_TRANSPORT_ID_POINTER = 4"

definition MAX_TRANSPORT_LOOPS :: nat where "MAX_TRANSPORT_LOOPS = 100000"

abbreviation phase_of :: "wal_entry_payload \<Rightarrow> u32" where
  "phase_of txn \<equiv> we_transfer_bitmap txn ! TOOB_TB_SLOT_PHASE"

definition set_phase :: "u32 \<Rightarrow> u32 \<Rightarrow> wal_entry_payload \<Rightarrow> wal_entry_payload" where
  "set_phase phase offset txn = txn\<lparr> we_delta_chunk_id := offset,
     we_transfer_bitmap := (we_transfer_bitmap txn)[TOOB_TB_SLOT_PHASE := phase] \<rparr>"

section \<open>The resumable copy\<close>

definition solve_block :: "'s flash_hal \<Rightarrow> u32 \<Rightarrow> u32 \<Rightarrow> u32 \<Rightarrow> 's \<Rightarrow> nat option" where
  "solve_block fl src dst remaining s = do {
     d_sec \<leftarrow> sector_aligned_at fl dst s;
     s_sec \<leftarrow> sector_aligned_at fl src s;
     let block = (if s_sec > d_sec then s_sec else d_sec)
     in if block > unat remaining then
          let block = unat remaining; rem = block mod unat (fh_write_align fl)
          in Some (if fh_write_align fl > 0 \<and> rem \<noteq> 0 then block + (unat (fh_write_align fl) - rem) else block)
        else Some block
   }"

definition blocks_identical ::
  "'s platform \<Rightarrow> 's flash_hal \<Rightarrow> u32 \<Rightarrow> u32 \<Rightarrow> nat \<Rightarrow> u8 list \<Rightarrow> 's \<Rightarrow> (boot_status \<times> bool \<times> u8 list \<times> 's) option" where
  "blocks_identical p fl a b block arena s =
     (let half = half_arena (length arena)
      in if half = 0 then Some (BOOT_ERR_INVALID_ARG, False, arena, s)
         else do {
           (same, s) \<leftarrow> identity_loop p fl a b block half 0 (take half arena) (take half (drop half arena)) s;
           Some (BOOT_OK, same, zeroed (length arena), s)
         })"

record 's copy_run =
  cr_offset :: u32
  cr_erases :: u32
  cr_arena :: "u8 list"
  cr_txn :: wal_entry_payload
  cr_jn :: journal_state
  cr_dev :: 's

definition copy_block ::
  "'s build \<Rightarrow> 's platform \<Rightarrow> 's flash_hal \<Rightarrow> allowed_region list \<Rightarrow> u32 \<Rightarrow> u32 \<Rightarrow> nat \<Rightarrow> u32 \<Rightarrow> u32 \<Rightarrow> 's copy_run \<Rightarrow>
     (boot_status \<times> 's copy_run) option" where
  "copy_block b p fl wl src dst block crc_src phase_magic r =
     (let txn = set_phase phase_magic (cr_offset r) (cr_txn r)
      in case boot_journal_append (bd_wal b) p (cr_jn r) txn (cr_dev r) of (st, j, s) \<Rightarrow>
           let r = r\<lparr> cr_txn := txn, cr_jn := j, cr_dev := s \<rparr>
           in if st \<noteq> BOOT_OK then Some (st, r)
              else do {
                (st, arena, j, s) \<leftarrow> boot_effect_execute b p fl wl
                   [erase_effect dst (of_nat block), copy_effect src dst (of_nat block) crc_src] (cr_arena r) (cr_jn r) (cr_dev r);
                let r = r\<lparr> cr_arena := arena, cr_jn := j, cr_dev := s \<rparr>
                in if st \<noteq> BOOT_OK then Some (st, r)
                   else
                     let d_sec = snd (fh_get_sector_size fl dst s)
                     in Some (BOOT_OK, r\<lparr> cr_erases := cr_erases r + (if d_sec > 0 \<and> block div d_sec > 0 then of_nat (block div d_sec) else 1),
                                          cr_offset := cr_offset r + of_nat block \<rparr>)
              })"

definition copy_region_step ::
  "'s build \<Rightarrow> 's platform \<Rightarrow> 's flash_hal \<Rightarrow> allowed_region list \<Rightarrow> u32 \<Rightarrow> u32 \<Rightarrow> u32 \<Rightarrow> u32 \<Rightarrow> 's copy_run \<Rightarrow>
     (boot_status \<times> 's copy_run) option" where
  "copy_region_step b p fl wl src_base dst_base len phase_magic r =
     (let r = r\<lparr> cr_dev := wdt_kick p (cr_dev r) \<rparr>; src = src_base + cr_offset r; dst = dst_base + cr_offset r
      in case solve_block fl src dst (len - cr_offset r) (cr_dev r) of
           None \<Rightarrow> Some (BOOT_ERR_FLASH_HW, r)
         | Some block \<Rightarrow> do {
             (st, crc_src, arena, s) \<leftarrow> boot_crc32_flash_stream p fl src block (cr_arena r) (cr_dev r);
             if st \<noteq> BOOT_OK then Some (st, r\<lparr> cr_arena := arena, cr_dev := s \<rparr>)
             else do {
               (st, crc_dst, arena, s) \<leftarrow> boot_crc32_flash_stream p fl dst block arena s;
               if st \<noteq> BOOT_OK then Some (st, r\<lparr> cr_arena := arena, cr_dev := s \<rparr>)
               else do {
                 (st, same, arena, s) \<leftarrow>
                   (if crc_src = crc_dst then blocks_identical p fl src dst block arena s else Some (BOOT_OK, False, arena, s));
                 let r = r\<lparr> cr_arena := arena, cr_dev := s \<rparr>
                 in if st \<noteq> BOOT_OK then Some (st, r)
                    else if same then Some (BOOT_OK, r\<lparr> cr_offset := cr_offset r + of_nat block \<rparr>)
                    else copy_block b p fl wl src dst block (the crc_src) phase_magic r
               }
             }
           })"

fun copy_region_loop ::
  "nat \<Rightarrow> 's build \<Rightarrow> 's platform \<Rightarrow> 's flash_hal \<Rightarrow> allowed_region list \<Rightarrow> u32 \<Rightarrow> u32 \<Rightarrow> u32 \<Rightarrow> u32 \<Rightarrow> 's copy_run \<Rightarrow>
     (boot_status \<times> 's copy_run) option" where
  "copy_region_loop loops b p fl wl src_base dst_base len phase_magic r =
     (if \<not> cr_offset r < len then Some (BOOT_OK, r)
      else case loops of
        0 \<Rightarrow> Some (BOOT_ERR_FLASH_HW, r)
      | Suc l \<Rightarrow> do {
          (st, r) \<leftarrow> copy_region_step b p fl wl src_base dst_base len phase_magic r;
          if st \<noteq> BOOT_OK then Some (st, r)
          else copy_region_loop l b p fl wl src_base dst_base len phase_magic r
        })"

declare copy_region_loop.simps [simp del]

text \<open>The resume keys on the phase magic: a chunk id left by another stage is ignored.\<close>

definition phase_resume :: "u32 \<Rightarrow> u32 \<Rightarrow> wal_entry_payload \<Rightarrow> u32" where
  "phase_resume phase_magic len txn =
     (if phase_of txn = phase_magic then (if we_delta_chunk_id txn > len then len else we_delta_chunk_id txn) else 0)"

definition copy_region_resumable ::
  "'s build \<Rightarrow> 's platform \<Rightarrow> 's flash_hal \<Rightarrow> u32 \<Rightarrow> u32 \<Rightarrow> u32 \<Rightarrow> u32 \<Rightarrow> wal_entry_payload \<Rightarrow> allowed_region list \<Rightarrow>
     u8 list \<Rightarrow> journal_state \<Rightarrow> 's \<Rightarrow> (boot_status \<times> 's copy_run) option" where
  "copy_region_resumable b p fl src_base dst_base len phase_magic txn wl arena j s =
     copy_region_loop MAX_TRANSPORT_LOOPS b p fl wl src_base dst_base len phase_magic
       \<lparr> cr_offset = phase_resume phase_magic len txn, cr_erases = 0, cr_arena = arena, cr_txn = txn, cr_jn = j, cr_dev = s \<rparr>"

definition finish_and_clean ::
  "'s build \<Rightarrow> 's platform \<Rightarrow> u32 \<Rightarrow> 's copy_run \<Rightarrow> boot_status \<times> 's copy_run" where
  "finish_and_clean b p final_offset r =
     (let txn = set_phase 0 final_offset (cr_txn r)
      in case boot_journal_append (bd_wal b) p (cr_jn r) txn (cr_dev r) of (st, j, s) \<Rightarrow>
           (st, r\<lparr> cr_txn := txn, cr_jn := j, cr_dev := s \<rparr>))"

section \<open>One-way\<close>

definition oneway_bounds_ok :: "slot_txn \<Rightarrow> bool" where
  "oneway_bounds_ok t \<longleftrightarrow>
     \<not> (st_length t > st_dest_region_size t \<or> st_length t > st_src_region_size t \<or>
        (st_backup_addr t \<noteq> 0 \<and> st_length t > st_backup_region_size t)) \<and>
     \<not> (UINT32_MAX - st_src_addr t < st_length t \<or> UINT32_MAX - st_dest_addr t < st_length t \<or>
        (st_backup_addr t \<noteq> 0 \<and> UINT32_MAX - st_backup_addr t < st_length t))"

text \<open>Phase 1 with the persisted transition; skipped without a backup slot and in phase 2.\<close>

definition oneway_backup ::
  "'s build \<Rightarrow> 's platform \<Rightarrow> 's flash_hal \<Rightarrow> slot_txn \<Rightarrow> wal_entry_payload \<Rightarrow> u8 list \<Rightarrow> journal_state \<Rightarrow> 's \<Rightarrow>
     (boot_status \<times> 's copy_run) option" where
  "oneway_backup b p fl t txn arena j s =
     (if st_backup_addr t \<noteq> 0 \<and> phase_of txn \<noteq> TOOB_PHASE_ONEWAY_DEPLOY then do {
        (st, r) \<leftarrow> copy_region_resumable b p fl (st_dest_addr t) (st_backup_addr t) (st_length t) TOOB_PHASE_ONEWAY_BACKUP txn
           [\<lparr> ar_base_addr = st_backup_addr t, ar_max_size = st_backup_region_size t \<rparr>] arena j s;
        if st \<noteq> BOOT_OK then Some (st, r)
        else
          let txn = set_phase TOOB_PHASE_ONEWAY_DEPLOY 0 (cr_txn r)
          in case boot_journal_append (bd_wal b) p (cr_jn r) txn (cr_dev r) of (st, j, s) \<Rightarrow>
               Some (st, r\<lparr> cr_txn := txn, cr_jn := j, cr_dev := s \<rparr>)
      }
      else Some (BOOT_OK, \<lparr> cr_offset = 0, cr_erases = 0, cr_arena = arena, cr_txn = txn, cr_jn = j, cr_dev = s \<rparr>))"

text \<open>The wear counters, destination first; a failure is ignored.\<close>

definition transport_telemetry ::
  "'s build \<Rightarrow> 's platform \<Rightarrow> boot_dest_slot \<Rightarrow> u32 \<Rightarrow> u32 \<Rightarrow> journal_state \<Rightarrow> 's \<Rightarrow> journal_state \<times> 's" where
  "transport_telemetry b p dest_slot dest_erases other_erases j s =
     (if dest_erases > 0 \<or> other_erases > 0 then
        (case boot_journal_get_tmr j of
           (BOOT_OK, Some t) \<Rightarrow>
             (case boot_journal_update_tmr (bd_wal b) p j
                (if dest_slot = BOOT_DEST_SLOT_APP
                 then t\<lparr> tm_app_slot_erase_counter := tm_app_slot_erase_counter t + dest_erases,
                         tm_staging_slot_erase_counter := tm_staging_slot_erase_counter t + other_erases \<rparr>
                 else t\<lparr> tm_app_slot_erase_counter := tm_app_slot_erase_counter t + other_erases,
                         tm_staging_slot_erase_counter := tm_staging_slot_erase_counter t + dest_erases \<rparr>) s of
                (_, j, s) \<Rightarrow> (j, s))
         | _ \<Rightarrow> (j, s))
      else (j, s))"

definition oneway_deploy ::
  "'s build \<Rightarrow> 's platform \<Rightarrow> 's flash_hal \<Rightarrow> slot_txn \<Rightarrow> wal_entry_payload \<Rightarrow> u8 list \<Rightarrow> journal_state \<Rightarrow> 's \<Rightarrow>
     (boot_status \<times> wal_entry_payload \<times> journal_state \<times> 's) option" where
  "oneway_deploy b p fl t txn arena j s = do {
     (st, r) \<leftarrow> oneway_backup b p fl t txn arena j s;
     if st \<noteq> BOOT_OK then Some (st, cr_txn r, cr_jn r, cr_dev r)
     else do {
       let backup_erases = cr_erases r;
       (st, r) \<leftarrow> copy_region_resumable b p fl (st_src_addr t) (st_dest_addr t) (st_length t) TOOB_PHASE_ONEWAY_DEPLOY (cr_txn r)
          [\<lparr> ar_base_addr = st_dest_addr t, ar_max_size = st_dest_region_size t \<rparr>] (cr_arena r) (cr_jn r) (cr_dev r);
       if st \<noteq> BOOT_OK then Some (st, cr_txn r, cr_jn r, cr_dev r)
       else case finish_and_clean b p (st_length t) r of (st, r) \<Rightarrow>
         if st \<noteq> BOOT_OK then Some (st, cr_txn r, cr_jn r, cr_dev r)
         else case transport_telemetry b p (st_dest_slot t) (cr_erases r) backup_erases (cr_jn r) (cr_dev r) of (j, s) \<Rightarrow>
           Some (BOOT_OK, cr_txn r, j, s)
     }
   }"

definition oneway_apply ::
  "'s build \<Rightarrow> 's platform \<Rightarrow> 's slot_caps option \<Rightarrow> slot_txn \<Rightarrow> wal_entry_payload \<Rightarrow> u8 list \<Rightarrow> journal_state \<Rightarrow>
     swap_state \<Rightarrow> 's \<Rightarrow> (boot_status \<times> u8 list \<times> wal_entry_payload \<times> journal_state \<times> swap_state \<times> 's) option" where
  "oneway_apply b p caps t txn arena j ss s =
     (case pf_flash p of
        None \<Rightarrow> Some (BOOT_ERR_INVALID_ARG, arena, txn, j, ss, s)
      | Some fl \<Rightarrow>
          if length arena < 512 then Some (BOOT_ERR_INVALID_ARG, arena, txn, j, ss, s)
          else if st_length t = 0 then Some (BOOT_OK, arena, txn, j, ss, s)
          else if \<not> oneway_bounds_ok t then Some (BOOT_ERR_FLASH_BOUNDS, arena, txn, j, ss, s)
          else if \<not> secure_require (st_src_verified t) then Some (BOOT_ERR_VERIFY, arena, txn, j, ss, s)
          else do {
            (st, txn, j, s) \<leftarrow> oneway_deploy b p fl t (txn\<lparr> we_transport_id := TOOB_TRANSPORT_ID_ONEWAY \<rparr>) arena j s;
            Some (st, zeroed (length arena), txn, j, ss, s)
          })"

definition rollback_txn :: wal_entry_payload where
  "rollback_txn = zero_entry\<lparr> we_magic := WAL_ENTRY_MAGIC, we_intent := WAL_INTENT_TXN_ROLLBACK_PENDING \<rparr>"

definition oneway_rollback ::
  "'s build \<Rightarrow> 's platform \<Rightarrow> 's slot_caps option \<Rightarrow> slot_txn \<Rightarrow> u8 list \<Rightarrow> journal_state \<Rightarrow> 's \<Rightarrow>
     (boot_status \<times> u8 list \<times> journal_state \<times> 's) option" where
  "oneway_rollback b p caps t arena j s =
     (if length arena < 512 then Some (BOOT_ERR_INVALID_ARG, arena, j, s)
      else if st_backup_addr t = 0 then Some (BOOT_ERR_NOT_FOUND, arena, j, s)
      else if st_length t > st_dest_region_size t \<or> st_length t > st_backup_region_size t
      then Some (BOOT_ERR_FLASH_BOUNDS, arena, j, s)
      else do {
        (st, r) \<leftarrow> copy_region_resumable b p (the (pf_flash p)) (st_backup_addr t) (st_dest_addr t) (st_length t)
           TOOB_PHASE_ONEWAY_RBACK rollback_txn
           [\<lparr> ar_base_addr = st_dest_addr t, ar_max_size = st_dest_region_size t \<rparr>] arena j s;
        case (if st = BOOT_OK then finish_and_clean b p (st_length t) r else (st, r)) of (st, r) \<Rightarrow>
          Some (st, zeroed (length arena), cr_jn r, cr_dev r)
      })"

definition g_toob_transport_oneway :: "'s build \<Rightarrow> 's platform \<Rightarrow> 's slot_transport" where
  "g_toob_transport_oneway b p = \<lparr> sp_id = TOOB_TRANSPORT_ID_ONEWAY, sp_apply = oneway_apply b p,
     sp_rollback = oneway_rollback b p \<rparr>"

section \<open>Swap-move\<close>

text \<open>What the run carries, with the passes of \<open>guard\<close> that are left.\<close>

record 's move_run =
  mr_left :: nat
  mr_p_erases :: u32
  mr_s_erases :: u32
  mr_arena :: "u8 list"
  mr_txn :: wal_entry_payload
  mr_jn :: journal_state
  mr_dev :: 's

definition sm_crc ::
  "'s platform \<Rightarrow> 's flash_hal \<Rightarrow> nat \<Rightarrow> u32 \<Rightarrow> 's move_run \<Rightarrow> (boot_status \<times> u32 \<times> 's move_run) option" where
  "sm_crc p fl sec addr r = do {
     (st, crc, arena, s) \<leftarrow> boot_crc32_flash_stream p fl addr sec (mr_arena r) (mr_dev r);
     Some (st, case crc of None \<Rightarrow> 0 | Some v \<Rightarrow> v, r\<lparr> mr_arena := arena, mr_dev := s \<rparr>)
   }"

definition sm_move_sector ::
  "'s build \<Rightarrow> 's platform \<Rightarrow> 's flash_hal \<Rightarrow> allowed_region list \<Rightarrow> nat \<Rightarrow> u32 \<Rightarrow> u32 \<Rightarrow> u32 \<Rightarrow> 's move_run \<Rightarrow>
     (boot_status \<times> 's move_run) option" where
  "sm_move_sector b p fl wl sec src dst post_crc r = do {
     (st, arena, j, s) \<leftarrow> boot_effect_execute b p fl wl
        [erase_effect dst (of_nat sec), copy_effect src dst (of_nat sec) post_crc] (mr_arena r) (mr_jn r) (mr_dev r);
     Some (st, r\<lparr> mr_arena := arena, mr_jn := j, mr_dev := s \<rparr>)
   }"

definition sm_append ::
  "'s build \<Rightarrow> 's platform \<Rightarrow> wal_entry_payload \<Rightarrow> 's move_run \<Rightarrow> boot_status \<times> 's move_run" where
  "sm_append b p txn r =
     (case boot_journal_append (bd_wal b) p (mr_jn r) txn (mr_dev r) of (st, j, s) \<Rightarrow>
        (st, r\<lparr> mr_txn := txn, mr_jn := j, mr_dev := s \<rparr>))"

text \<open>Sector \<open>i\<close> moves up by one; equal checksums mean the step was done before.\<close>

definition sm_move_step ::
  "'s build \<Rightarrow> 's platform \<Rightarrow> 's flash_hal \<Rightarrow> allowed_region list \<Rightarrow> nat \<Rightarrow> u32 \<Rightarrow> nat \<Rightarrow> 's move_run \<Rightarrow>
     (boot_status \<times> 's move_run) option" where
  "sm_move_step b p fl wl sec P i r =
     (let r = r\<lparr> mr_dev := wdt_kick p (mr_dev r) \<rparr>;
          src = P + of_nat i * of_nat sec; dst = P + (of_nat i + 1) * of_nat sec
      in do {
        (st, crc_src, r) \<leftarrow> sm_crc p fl sec src r;
        if st \<noteq> BOOT_OK then Some (st, r)
        else do {
          (st, crc_dst, r) \<leftarrow> sm_crc p fl sec dst r;
          if st \<noteq> BOOT_OK then Some (st, r)
          else if crc_src = crc_dst then Some (BOOT_OK, r)
          else case sm_append b p (set_phase TOOB_PHASE_SWAPMOVE_MOVE (of_nat i) (mr_txn r)) r of (st, r) \<Rightarrow>
            if st \<noteq> BOOT_OK then Some (st, r)
            else do {
              (st, r) \<leftarrow> sm_move_sector b p fl wl sec src dst crc_src r;
              Some (st, if st = BOOT_OK then r\<lparr> mr_p_erases := mr_p_erases r + 1 \<rparr> else r)
            }
        }
      })"

text \<open>Indices \<open>n - 1\<close> down to 0.\<close>

fun sm_move_loop ::
  "'s build \<Rightarrow> 's platform \<Rightarrow> 's flash_hal \<Rightarrow> allowed_region list \<Rightarrow> nat \<Rightarrow> u32 \<Rightarrow> nat \<Rightarrow> 's move_run \<Rightarrow>
     (boot_status \<times> 's move_run) option" where
  "sm_move_loop b p fl wl sec P 0 r = Some (BOOT_OK, r)"
| "sm_move_loop b p fl wl sec P (Suc i) r =
     (case mr_left r of
        0 \<Rightarrow> Some (BOOT_ERR_FLASH_HW, r)
      | Suc l \<Rightarrow> do {
          (st, r) \<leftarrow> sm_move_step b p fl wl sec P i (r\<lparr> mr_left := l \<rparr>);
          if st \<noteq> BOOT_OK then Some (st, r) else sm_move_loop b p fl wl sec P i r
        })"

text \<open>The checksums of an index: from the journal for the index it names, else read and anchored.\<close>

definition sm_checksums ::
  "'s build \<Rightarrow> 's platform \<Rightarrow> 's flash_hal \<Rightarrow> nat \<Rightarrow> u32 \<Rightarrow> u32 \<Rightarrow> u32 \<Rightarrow> bool \<Rightarrow> 's move_run \<Rightarrow>
     (boot_status \<times> u32 \<times> u32 \<times> 's move_run) option" where
  "sm_checksums b p fl sec s_i p_n i have_wal_crcs r =
     (if have_wal_crcs \<and> we_delta_chunk_id (mr_txn r) = i
      then Some (BOOT_OK, we_transfer_bitmap (mr_txn r) ! TOOB_TB_SLOT_AUX0, we_transfer_bitmap (mr_txn r) ! TOOB_TB_SLOT_AUX1, r)
      else do {
        (st, cs, r) \<leftarrow> sm_crc p fl sec s_i r;
        if st \<noteq> BOOT_OK then Some (st, 0, 0, r)
        else do {
          (st, cp, r) \<leftarrow> sm_crc p fl sec p_n r;
          if st \<noteq> BOOT_OK then Some (st, 0, 0, r)
          else
            let txn = set_phase TOOB_PHASE_SWAPMOVE_SWAP i (mr_txn r);
                txn = txn\<lparr> we_transfer_bitmap := (we_transfer_bitmap txn)[TOOB_TB_SLOT_AUX0 := cs, TOOB_TB_SLOT_AUX1 := cp] \<rparr>
            in case sm_append b p txn r of (st, r) \<Rightarrow> Some (st, cs, cp, r)
        }
      })"

definition sm_swap_step ::
  "'s build \<Rightarrow> 's platform \<Rightarrow> 's flash_hal \<Rightarrow> allowed_region list \<Rightarrow> nat \<Rightarrow> u32 \<Rightarrow> u32 \<Rightarrow> u32 \<Rightarrow> bool \<Rightarrow> 's move_run \<Rightarrow>
     (boot_status \<times> 's move_run) option" where
  "sm_swap_step b p fl wl sec P S i have_wal_crcs r =
     (let r = r\<lparr> mr_dev := wdt_kick p (mr_dev r) \<rparr>;
          p_i = P + i * of_nat sec; p_n = P + (i + 1) * of_nat sec; s_i = S + i * of_nat sec
      in do {
        (st, cs, cp, r) \<leftarrow> sm_checksums b p fl sec s_i p_n i have_wal_crcs r;
        if st \<noteq> BOOT_OK then Some (st, r)
        else do {
          (st, crc_pi, r) \<leftarrow> sm_crc p fl sec p_i r;
          if st \<noteq> BOOT_OK then Some (st, r)
          else do {
            (st, r) \<leftarrow> (if crc_pi \<noteq> cs then do {
                           (st, r) \<leftarrow> sm_move_sector b p fl wl sec s_i p_i cs r;
                           Some (st, if st = BOOT_OK then r\<lparr> mr_p_erases := mr_p_erases r + 1 \<rparr> else r)
                         } else Some (BOOT_OK, r));
            if st \<noteq> BOOT_OK then Some (st, r)
            else do {
              (st, crc_si, r) \<leftarrow> sm_crc p fl sec s_i r;
              if st \<noteq> BOOT_OK then Some (st, r)
              else if crc_si \<noteq> cp then do {
                (st, r) \<leftarrow> sm_move_sector b p fl wl sec p_n s_i cp r;
                Some (st, if st = BOOT_OK then r\<lparr> mr_s_erases := mr_s_erases r + 1 \<rparr> else r)
              } else Some (BOOT_OK, r)
            }
          }
        }
      })"

text \<open>\<open>n\<close> indices from \<open>i\<close> on.\<close>

fun sm_swap_loop ::
  "'s build \<Rightarrow> 's platform \<Rightarrow> 's flash_hal \<Rightarrow> allowed_region list \<Rightarrow> nat \<Rightarrow> u32 \<Rightarrow> u32 \<Rightarrow> nat \<Rightarrow> u32 \<Rightarrow> bool \<Rightarrow> 's move_run \<Rightarrow>
     (boot_status \<times> 's move_run) option" where
  "sm_swap_loop b p fl wl sec P S 0 i have_wal_crcs r = Some (BOOT_OK, r)"
| "sm_swap_loop b p fl wl sec P S (Suc n) i have_wal_crcs r =
     (case mr_left r of
        0 \<Rightarrow> Some (BOOT_ERR_FLASH_HW, r)
      | Suc l \<Rightarrow> do {
          (st, r) \<leftarrow> sm_swap_step b p fl wl sec P S i have_wal_crcs (r\<lparr> mr_left := l \<rparr>);
          if st \<noteq> BOOT_OK then Some (st, r) else sm_swap_loop b p fl wl sec P S n (i + 1) False r
        })"

text \<open>How many sectors phase MOVE still has to look at, counting from index 0.\<close>

definition sm_move_todo :: "wal_entry_payload \<Rightarrow> u32 \<Rightarrow> nat" where
  "sm_move_todo txn N =
     (if phase_of txn = TOOB_PHASE_SWAPMOVE_SWAP then 0
      else
        let i = (if phase_of txn = TOOB_PHASE_SWAPMOVE_MOVE then sint (we_delta_chunk_id txn) else sint N - 1)
        in nat ((if i > sint N - 1 then sint N - 1 else i) + 1))"

definition sm_phases ::
  "'s build \<Rightarrow> 's platform \<Rightarrow> 's flash_hal \<Rightarrow> slot_txn \<Rightarrow> nat \<Rightarrow> u32 \<Rightarrow> 's move_run \<Rightarrow> (boot_status \<times> 's move_run) option" where
  "sm_phases b p fl t sec N r =
     (let wl = [\<lparr> ar_base_addr = st_dest_addr t, ar_max_size = st_dest_region_size t \<rparr>,
                \<lparr> ar_base_addr = st_src_addr t, ar_max_size = st_src_region_size t \<rparr>];
          in_swap = (phase_of (mr_txn r) = TOOB_PHASE_SWAPMOVE_SWAP);
          i = (if in_swap then we_delta_chunk_id (mr_txn r) else 0)
      in do {
        (st, r) \<leftarrow> sm_move_loop b p fl wl sec (st_dest_addr t) (sm_move_todo (mr_txn r) N) r;
        if st \<noteq> BOOT_OK then Some (st, r)
        else do {
          (st, r) \<leftarrow> sm_swap_loop b p fl wl sec (st_dest_addr t) (st_src_addr t) (unat N - unat i) i in_swap r;
          if st \<noteq> BOOT_OK then Some (st, r)
          else
            let txn = set_phase 0 (st_length t) (mr_txn r);
                txn = txn\<lparr> we_transfer_bitmap := (we_transfer_bitmap txn)[TOOB_TB_SLOT_AUX0 := 0, TOOB_TB_SLOT_AUX1 := 0] \<rparr>
            in case sm_append b p txn r of (st, r) \<Rightarrow>
                 if st \<noteq> BOOT_OK then Some (st, r)
                 else case transport_telemetry b p (st_dest_slot t) (mr_p_erases r) (mr_s_erases r) (mr_jn r) (mr_dev r) of
                   (j, s) \<Rightarrow> Some (BOOT_OK, r\<lparr> mr_jn := j, mr_dev := s \<rparr>)
        }
      })"

definition sm_geometry :: "'s flash_hal \<Rightarrow> slot_txn \<Rightarrow> 's \<Rightarrow> nat option" where
  "sm_geometry fl t s =
     (case fh_get_sector_size fl (st_dest_addr t) s of (st, d_sec) \<Rightarrow>
        case fh_get_sector_size fl (st_src_addr t) s of (st', s_sec) \<Rightarrow>
          if st \<noteq> BOOT_OK \<or> st' \<noteq> BOOT_OK \<or> d_sec = 0 \<or> d_sec \<noteq> s_sec then None
          else if unat (st_dest_addr t) mod d_sec \<noteq> 0 \<or> unat (st_src_addr t) mod d_sec \<noteq> 0 then None
          else Some d_sec)"

definition swapmove_apply ::
  "'s build \<Rightarrow> 's platform \<Rightarrow> 's slot_caps option \<Rightarrow> slot_txn \<Rightarrow> wal_entry_payload \<Rightarrow> u8 list \<Rightarrow> journal_state \<Rightarrow>
     swap_state \<Rightarrow> 's \<Rightarrow> (boot_status \<times> u8 list \<times> wal_entry_payload \<times> journal_state \<times> swap_state \<times> 's) option" where
  "swapmove_apply b p caps t txn arena j ss s =
     (case pf_flash p of
        None \<Rightarrow> Some (BOOT_ERR_INVALID_ARG, arena, txn, j, ss, s)
      | Some fl \<Rightarrow>
          if length arena < 512 then Some (BOOT_ERR_INVALID_ARG, arena, txn, j, ss, s)
          else if st_length t = 0 then Some (BOOT_OK, arena, txn, j, ss, s)
          else if \<not> secure_require (st_src_verified t) then Some (BOOT_ERR_VERIFY, arena, txn, j, ss, s)
          else case sm_geometry fl t s of
            None \<Rightarrow> Some (BOOT_ERR_NOT_SUPPORTED, arena, txn, j, ss, s)
          | Some sec \<Rightarrow>
              let N = (st_length t + of_nat sec - 1) div of_nat sec
              in if N = 0 \<or> unat (N + 1) * sec > unat (st_dest_region_size t) \<or> unat N * sec > unat (st_src_region_size t)
                 then Some (BOOT_ERR_FLASH_BOUNDS, arena, txn, j, ss, s)
                 else do {
                   (st, r) \<leftarrow> sm_phases b p fl t sec N
                      \<lparr> mr_left = MAX_TRANSPORT_LOOPS, mr_p_erases = 0, mr_s_erases = 0, mr_arena = arena,
                        mr_txn = txn\<lparr> we_transport_id := TOOB_TRANSPORT_ID_SWAPMOVE \<rparr>, mr_jn = j, mr_dev = s \<rparr>;
                   Some (st, zeroed (length arena), mr_txn r, mr_jn r, ss, mr_dev r)
                 })"

definition swapmove_rollback ::
  "'s build \<Rightarrow> 's platform \<Rightarrow> 's slot_caps option \<Rightarrow> slot_txn \<Rightarrow> u8 list \<Rightarrow> journal_state \<Rightarrow> 's \<Rightarrow>
     (boot_status \<times> u8 list \<times> journal_state \<times> 's) option" where
  "swapmove_rollback b p caps t arena j s = do {
     (st, arena, txn, j, ss, s) \<leftarrow> swapmove_apply b p caps (t\<lparr> st_src_verified := True \<rparr>) rollback_txn arena j SWAP_STATE_NORMAL s;
     Some (st, arena, j, s)
   }"

definition g_toob_transport_swapmove :: "'s build \<Rightarrow> 's platform \<Rightarrow> 's slot_transport" where
  "g_toob_transport_swapmove b p = \<lparr> sp_id = TOOB_TRANSPORT_ID_SWAPMOVE, sp_apply = swapmove_apply b p,
     sp_rollback = swapmove_rollback b p \<rparr>"

section \<open>Boot pointer\<close>

text \<open>The copy of this provider is line for line the one of the one-way provider.\<close>

definition ptr_copy_region_resumable ::
  "'s build \<Rightarrow> 's platform \<Rightarrow> 's flash_hal \<Rightarrow> u32 \<Rightarrow> u32 \<Rightarrow> u32 \<Rightarrow> u32 \<Rightarrow> wal_entry_payload \<Rightarrow> allowed_region list \<Rightarrow>
     u8 list \<Rightarrow> journal_state \<Rightarrow> 's \<Rightarrow> (boot_status \<times> 's copy_run) option" where
  "ptr_copy_region_resumable = copy_region_resumable"

definition verify_active :: "'s slot_caps \<Rightarrow> u32 \<Rightarrow> 's \<Rightarrow> boot_status \<times> 's" where
  "verify_active caps expected_slot s =
     (case sc_get_active_slot caps of
        None \<Rightarrow> (BOOT_OK, s)
      | Some get \<Rightarrow>
          (case get s of (st, active, s) \<Rightarrow>
             if st \<noteq> BOOT_OK then (st, s)
             else if \<not> secure_require (active = expected_slot) then (BOOT_ERR_VERIFY, s)
             else (BOOT_OK, s)))"

definition sw_pointer_flip ::
  "'s build \<Rightarrow> 's platform \<Rightarrow> u32 \<Rightarrow> journal_state \<Rightarrow> 's \<Rightarrow> boot_status \<times> journal_state \<times> 's" where
  "sw_pointer_flip b p target_slot j s =
     (case boot_journal_get_tmr j of
        (BOOT_OK, Some t) \<Rightarrow>
          (case boot_journal_update_tmr (bd_wal b) p j (t\<lparr> tm_active_app_slot := ucast target_slot \<rparr>) s of (st, j, s) \<Rightarrow>
             if st \<noteq> BOOT_OK then (st, j, s)
             else case boot_journal_get_tmr j of
               (BOOT_OK, Some check) \<Rightarrow>
                 (if \<not> secure_require (tm_active_app_slot check = ucast target_slot) then BOOT_ERR_VERIFY else BOOT_OK, j, s)
             | (st, _) \<Rightarrow> (st, j, s))
      | (st, _) \<Rightarrow> (st, j, s))"

definition pointer_commit ::
  "'s build \<Rightarrow> 's platform \<Rightarrow> 's slot_caps \<Rightarrow> slot_txn \<Rightarrow> u32 \<Rightarrow> journal_state \<Rightarrow> 's \<Rightarrow> boot_status \<times> journal_state \<times> 's" where
  "pointer_commit b p caps t target_slot j s =
     (case sc_exec_model caps of
        SLOT_EXEC_BANK_SWAP \<Rightarrow>
          (case sc_bank_flip caps of
             None \<Rightarrow> (BOOT_ERR_NOT_SUPPORTED, j, s)
           | Some bank_flip \<Rightarrow>
               (case bank_flip target_slot (wdt_kick p s) of (st, s) \<Rightarrow>
                  if st \<noteq> BOOT_OK then (st, j, s)
                  else case verify_active caps target_slot s of (st, s) \<Rightarrow> (st, j, s)))
      | SLOT_EXEC_XIP_REMAP \<Rightarrow>
          (case sc_xip_remap_commit caps of
             None \<Rightarrow> (BOOT_ERR_NOT_SUPPORTED, j, s)
           | Some commit \<Rightarrow>
               (case commit (st_src_addr t) (wdt_kick p s) of (st, s) \<Rightarrow>
                  if st \<noteq> BOOT_OK then (st, j, s)
                  else case verify_active caps target_slot s of (st, s) \<Rightarrow> (st, j, s)))
      | SLOT_EXEC_RELOCATABLE \<Rightarrow> sw_pointer_flip b p target_slot j s
      | SLOT_EXEC_FIXED \<Rightarrow> (BOOT_ERR_NOT_SUPPORTED, j, s))"

text \<open>A delta output is first copied into the slot that is to be activated.\<close>

definition pointer_copy ::
  "'s build \<Rightarrow> 's platform \<Rightarrow> slot_txn \<Rightarrow> wal_entry_payload \<Rightarrow> u8 list \<Rightarrow> journal_state \<Rightarrow> 's \<Rightarrow>
     (boot_status \<times> u8 list \<times> wal_entry_payload \<times> journal_state \<times> 's) option" where
  "pointer_copy b p t txn arena j s =
     (let cc = bd_chip b; app = (st_target_slot_index t = 0);
          target_addr = (if app then cc_app_addr cc else cc_staging_addr cc);
          target_size = (if app then cc_app_size cc else cc_staging_size cc)
      in do {
        (st, r) \<leftarrow> ptr_copy_region_resumable b p (the (pf_flash p)) (st_src_addr t) target_addr (st_length t)
           TOOB_PHASE_POINTER_COPY txn [\<lparr> ar_base_addr = target_addr, ar_max_size = target_size \<rparr>] arena j s;
        if st \<noteq> BOOT_OK then Some (st, cr_arena r, cr_txn r, cr_jn r, cr_dev r)
        else case transport_telemetry b p (if app then BOOT_DEST_SLOT_APP else BOOT_DEST_SLOT_STAGING) (cr_erases r) 0 (cr_jn r) (cr_dev r) of
          (j, s) \<Rightarrow> Some (BOOT_OK, cr_arena r, cr_txn r, j, s)
      })"

definition pointer_apply ::
  "'s build \<Rightarrow> 's platform \<Rightarrow> 's slot_caps option \<Rightarrow> slot_txn \<Rightarrow> wal_entry_payload \<Rightarrow> u8 list \<Rightarrow> journal_state \<Rightarrow>
     swap_state \<Rightarrow> 's \<Rightarrow> (boot_status \<times> u8 list \<times> wal_entry_payload \<times> journal_state \<times> swap_state \<times> 's) option" where
  "pointer_apply b p caps t txn arena j ss s =
     (case caps of
        None \<Rightarrow> Some (BOOT_ERR_INVALID_ARG, arena, txn, j, ss, s)
      | Some c \<Rightarrow>
          if sc_slot_count c < 2 then Some (BOOT_ERR_NOT_SUPPORTED, arena, txn, j, ss, s)
          else if st_target_slot_index t > 1 then Some (BOOT_ERR_INVALID_ARG, arena, txn, j, ss, s)
          else if \<not> secure_require (st_src_verified t) then Some (BOOT_ERR_VERIFY, arena, txn, j, ss, s)
          else if \<not> secure_require (st_src_verified t) then Some (BOOT_ERR_VERIFY, arena, txn, j, ss, s)
          else
            let txn = txn\<lparr> we_transport_id := TOOB_TRANSPORT_ID_POINTER \<rparr>
            in do {
              (st, arena, txn, j, s) \<leftarrow>
                (if st_src_is_delta_output t then pointer_copy b p t txn arena j s else Some (BOOT_OK, arena, txn, j, s));
              if st \<noteq> BOOT_OK then Some (st, arena, txn, j, ss, s)
              else
                let txn = set_phase 0 (st_length t) txn
                in case boot_journal_append (bd_wal b) p j txn s of (st, j, s) \<Rightarrow>
                     if st \<noteq> BOOT_OK then Some (st, arena, txn, j, ss, s)
                     else case pointer_commit b p c t (ucast (st_target_slot_index t)) j s of
                       (st, j, s) \<Rightarrow> Some (st, arena, txn, j, ss, s)
            })"

definition pointer_rollback ::
  "'s build \<Rightarrow> 's platform \<Rightarrow> 's slot_caps option \<Rightarrow> slot_txn \<Rightarrow> u8 list \<Rightarrow> journal_state \<Rightarrow> 's \<Rightarrow>
     (boot_status \<times> u8 list \<times> journal_state \<times> 's) option" where
  "pointer_rollback b p caps t arena j s =
     (case caps of
        None \<Rightarrow> Some (BOOT_ERR_INVALID_ARG, arena, j, s)
      | Some c \<Rightarrow>
          if sc_slot_count c < 2 \<or> st_target_slot_index t > 1 then Some (BOOT_ERR_NOT_SUPPORTED, arena, j, s)
          else
            let previous_slot = (if st_target_slot_index t = 0 then 1 else 0)
            in case pointer_commit b p c (t\<lparr> st_target_slot_index := previous_slot, st_src_addr := st_dest_addr t \<rparr>)
                      (ucast previous_slot) j s of (st, j, s) \<Rightarrow> Some (st, arena, j, s))"

definition g_toob_transport_pointer :: "'s build \<Rightarrow> 's platform \<Rightarrow> 's slot_transport" where
  "g_toob_transport_pointer b p = \<lparr> sp_id = TOOB_TRANSPORT_ID_POINTER, sp_apply = pointer_apply b p,
     sp_rollback = pointer_rollback b p \<rparr>"

end
