(* ===== verification/Boot_Delta.thy ===== *)
theory Boot_Delta
  imports Boot_Swap Boot_Merkle
begin

text \<open>
  The streaming delta machine (\<open>core/boot_delta.c\<close>). The LZSS decoder it drives is the vendored heatshrink
  library; it is a parameter here, a record of the calls the machine makes. The decoder state, the window and
  the counters of \<open>sdvm_t\<close> are the record \<open>sdvm\<close>; what does not change during a run is \<open>sdvm_run\<close>.
  \<open>None\<close> is a loop that does not end.
\<close>

section \<open>The decoder and the machine state\<close>

text \<open>
  A negative result of \<open>sink\<close> and \<open>poll\<close> is \<open>None\<close>. \<open>sink\<close> returns how much it took, \<open>poll\<close> the bytes it
  produced and whether it is empty.
\<close>

record 'h heatshrink =
  hs_sizeof :: nat
  hs_input_buffer_size :: nat
  hs_reset :: 'h
  hs_sink :: "'h \<Rightarrow> u8 list \<Rightarrow> (nat \<times> 'h) option"
  hs_poll :: "'h \<Rightarrow> nat \<Rightarrow> (u8 list \<times> bool \<times> 'h) option"
  hs_finish :: "'h \<Rightarrow> 'h"

record sdvm_run =
  sr_dest_addr :: u32
  sr_base_addr :: u32
  sr_delta_addr :: u32
  sr_base_size :: u32
  sr_expected_target_size :: u32
  sr_read_cap :: u32

record ('h, 's) sdvm =
  sv_write_buf :: "u8 list"
  sv_write_pos :: u32
  sv_read_buf :: "u8 list"
  sv_hsd :: 'h
  sv_target_off :: u32
  sv_flushed_off :: u32
  sv_committed_off :: u32
  sv_checkpoint_off :: u32
  sv_erased_end :: u32
  sv_txn :: wal_entry_payload
  sv_jn :: journal_state
  sv_dev :: 's

abbreviation sv_write_cap :: "('h, 's) sdvm \<Rightarrow> u32" where
  "sv_write_cap v \<equiv> of_nat (length (sv_write_buf v))"

definition sv_kick :: "'s platform \<Rightarrow> ('h, 's) sdvm \<Rightarrow> ('h, 's) sdvm" where
  "sv_kick p v = v\<lparr> sv_dev := wdt_kick p (sv_dev v) \<rparr>"

section \<open>Flash helpers\<close>

text \<open>The scan for dirt stops at the first byte that is not erased; a failed read counts as dirt.\<close>

fun region_is_erased :: "'s platform \<Rightarrow> 's flash_hal \<Rightarrow> u32 \<Rightarrow> nat \<Rightarrow> u8 list \<Rightarrow> 's \<Rightarrow> bool \<times> 's" where
  "region_is_erased p fl addr len scratch s =
     (if len = 0 then (True, s)
      else let s = wdt_kick p s; step = min len 64
           in case fh_read fl addr step s of (st, d, s) \<Rightarrow>
                if st \<noteq> BOOT_OK then (False, s)
                else let scratch = fill_prefix d scratch
                     in if list_ex (\<lambda>x. x \<noteq> fh_erased_value fl) (take step scratch) then (False, s)
                        else region_is_erased p fl (addr + of_nat step) (len - step) scratch s)"

declare region_is_erased.simps [simp del]

text \<open>Erase sector by sector until the erased range covers \<open>write_end\<close>.\<close>

partial_function (option) erase_ahead ::
  "u32 \<Rightarrow> 's platform \<Rightarrow> 's flash_hal \<Rightarrow> u32 \<Rightarrow> u32 \<Rightarrow> 's \<Rightarrow> (boot_status \<times> u32 \<times> 's) option" where
  "erase_ahead max_sector p fl write_end erased_end s =
     (if \<not> erased_end < write_end then Some (BOOT_OK, erased_end, s)
      else case fh_get_sector_size fl erased_end s of (st, sec) \<Rightarrow>
        if st \<noteq> BOOT_OK \<or> sec = 0 then Some (BOOT_ERR_FLASH_HW, erased_end, s)
        else case region_is_erased p fl erased_end sec (zeroed 64) s of (clean, s) \<Rightarrow>
          case (if clean then (BOOT_OK, s) else erase_one_sector max_sector p fl erased_end sec s) of (er, s) \<Rightarrow>
            if er \<noteq> BOOT_OK then Some (er, erased_end, s)
            else if UINT32_MAX - erased_end < of_nat sec then Some (BOOT_ERR_FLASH_BOUNDS, erased_end, s)
            else erase_ahead max_sector p fl write_end (erased_end + of_nat sec) s)"

fun verify_readback :: "'s platform \<Rightarrow> 's flash_hal \<Rightarrow> u32 \<Rightarrow> u8 list \<Rightarrow> 's \<Rightarrow> boot_status \<times> 's" where
  "verify_readback p fl addr expect s =
     (if expect = [] then (BOOT_OK, s)
      else let s = wdt_kick p s; step = min (length expect) 256
           in case fh_read fl addr step s of (st, d, s) \<Rightarrow>
                if st \<noteq> BOOT_OK then (BOOT_ERR_FLASH_HW, s)
                else if \<not> secure_require (constant_time_memcmp_glitch_safe (fill_prefix d (zeroed step)) (take step expect) step = BOOT_OK)
                then (BOOT_ERR_FLASH_HW, s)
                else verify_readback p fl (addr + of_nat step) (drop step expect) s)"

declare verify_readback.simps [simp del]

section \<open>The write combiner\<close>

text \<open>The high-water mark of complete sectors.\<close>

partial_function (option) commit_walk ::
  "'s flash_hal \<Rightarrow> u32 \<Rightarrow> u32 \<Rightarrow> u32 \<Rightarrow> 's \<Rightarrow> (boot_status \<times> u32) option" where
  "commit_walk fl dest_addr flushed_off committed_off s =
     (case fh_get_sector_size fl (dest_addr + committed_off) s of (st, sec) \<Rightarrow>
        if st \<noteq> BOOT_OK \<or> sec = 0 then Some (BOOT_ERR_FLASH_HW, committed_off)
        else if committed_off + of_nat sec > flushed_off then Some (BOOT_OK, committed_off)
        else commit_walk fl dest_addr flushed_off (committed_off + of_nat sec) s)"

text \<open>The journal entry that a resumed run starts from, throttled to one per maximal sector.\<close>

definition log_checkpoint ::
  "'s build \<Rightarrow> 's platform \<Rightarrow> ('h, 's) sdvm \<Rightarrow> boot_status \<times> ('h, 's) sdvm" where
  "log_checkpoint b p v =
     (if sv_committed_off v - sv_checkpoint_off v \<ge> cc_max_sector_size (bd_chip b) then
        let txn = (sv_txn v)\<lparr> we_delta_chunk_id := sv_committed_off v \<rparr>
        in case boot_journal_append (bd_wal b) p (sv_jn v) txn (sv_dev v) of (st, j, s) \<Rightarrow>
             let v = v\<lparr> sv_txn := txn, sv_jn := j, sv_dev := s \<rparr>
             in if st \<noteq> BOOT_OK then (st, v) else (BOOT_OK, v\<lparr> sv_checkpoint_off := sv_committed_off v \<rparr>)
      else (BOOT_OK, v))"

text \<open>What of the window is not in flash yet, and the padded tail.\<close>

definition flush_valid_off :: "('h, 's) sdvm \<Rightarrow> u32" where
  "flush_valid_off v =
     (let logical_start = sv_target_off v - sv_write_pos v
      in if logical_start < sv_flushed_off v then sv_flushed_off v - logical_start else 0)"

definition flush_pad :: "'s flash_hal \<Rightarrow> bool \<Rightarrow> u32 \<Rightarrow> u32" where
  "flush_pad fl pad_final write_len =
     (let align = ucast (fh_write_align fl)
      in if pad_final \<and> fh_write_align fl > 0 \<and> write_len mod align \<noteq> 0 then align - write_len mod align else 0)"

definition flush_write ::
  "'s build \<Rightarrow> 's platform \<Rightarrow> 's flash_hal \<Rightarrow> sdvm_run \<Rightarrow> u32 \<Rightarrow> u32 \<Rightarrow> ('h, 's) sdvm \<Rightarrow> (boot_status \<times> ('h, 's) sdvm) option" where
  "flush_write b p fl c valid_off write_len v =
     (if UINT32_MAX - sr_dest_addr c < sv_flushed_off v then Some (BOOT_ERR_FLASH_BOUNDS, v)
      else
        let dest = sr_dest_addr c + sv_flushed_off v
        in if UINT32_MAX - dest < write_len then Some (BOOT_ERR_FLASH_BOUNDS, v)
           else do {
             (st, erased_end, s) \<leftarrow> erase_ahead (cc_max_sector_size (bd_chip b)) p fl (dest + write_len) (sv_erased_end v) (sv_dev v);
             let v = v\<lparr> sv_erased_end := erased_end, sv_dev := s \<rparr>
             in if st \<noteq> BOOT_OK then Some (st, v)
                else
                  let data = slice_of (unat valid_off) (unat write_len) (sv_write_buf v)
                  in case fh_write fl dest data (wdt_kick p (sv_dev v)) of (st, s) \<Rightarrow>
                       if st \<noteq> BOOT_OK then Some (BOOT_ERR_FLASH_HW, v\<lparr> sv_dev := s \<rparr>)
                       else case verify_readback p fl dest data s of (st, s) \<Rightarrow>
                         let v = v\<lparr> sv_dev := s \<rparr>
                         in if st \<noteq> BOOT_OK then Some (st, v)
                            else
                              let v = v\<lparr> sv_flushed_off := sv_flushed_off v + write_len, sv_write_pos := 0 \<rparr>
                              in do {
                                   (st, committed) \<leftarrow> commit_walk fl (sr_dest_addr c) (sv_flushed_off v) (sv_committed_off v) (sv_dev v);
                                   let v = v\<lparr> sv_committed_off := committed \<rparr>
                                   in Some (if st \<noteq> BOOT_OK then (st, v) else log_checkpoint b p v)
                                 }
           })"

definition emit_flush ::
  "'s build \<Rightarrow> 's platform \<Rightarrow> 's flash_hal \<Rightarrow> sdvm_run \<Rightarrow> bool \<Rightarrow> ('h, 's) sdvm \<Rightarrow> (boot_status \<times> ('h, 's) sdvm) option" where
  "emit_flush b p fl c pad_final v =
     (let logical_start = sv_target_off v - sv_write_pos v
      in if sv_write_pos v = 0 then Some (BOOT_OK, v)
         else if logical_start + sv_write_pos v \<le> sv_flushed_off v then Some (BOOT_OK, v\<lparr> sv_write_pos := 0 \<rparr>)
         else
           let valid_off = flush_valid_off v; write_len = sv_write_pos v - valid_off;
               pad = flush_pad fl pad_final write_len
           in if pad > 0 \<and> unat valid_off + unat write_len + unat pad > length (sv_write_buf v)
              then Some (BOOT_ERR_FLASH_BOUNDS, v)
              else flush_write b p fl c valid_off (write_len + pad)
                     (v\<lparr> sv_write_buf := patch (unat (valid_off + write_len)) (replicate (unat pad) (fh_erased_value fl)) (sv_write_buf v) \<rparr>))"

section \<open>The producers\<close>

definition TOOB_TDS_MAGIC :: u32 where "TOOB_TDS_MAGIC = 0x31534454"
definition TOOB_TDS_OP_COPY_BASE :: u32 where "TOOB_TDS_OP_COPY_BASE = 0xC0C0C0C0"
definition TOOB_TDS_OP_INSERT_LIT :: u32 where "TOOB_TDS_OP_INSERT_LIT = 0x1A1A1A1A"
definition TOOB_TDS_OP_BZERO :: u32 where "TOOB_TDS_OP_BZERO = 0x5A5A5A5A"
definition TOOB_TDS_OP_EOF :: u32 where "TOOB_TDS_OP_EOF = 0x0F0F0F0F"

text \<open>The window filled with zeros or with bytes of the base image.\<close>

definition produce_step ::
  "'s flash_hal \<Rightarrow> sdvm_run \<Rightarrow> u32 \<Rightarrow> u32 \<Rightarrow> u32 \<Rightarrow> ('h, 's) sdvm \<Rightarrow> boot_status \<times> ('h, 's) sdvm" where
  "produce_step fl c opcode step soff v =
     (if opcode = TOOB_TDS_OP_BZERO
      then (BOOT_OK, v\<lparr> sv_write_buf := patch (unat (sv_write_pos v)) (zeroed (unat step)) (sv_write_buf v) \<rparr>)
      else if UINT32_MAX - soff < step \<or> soff + step > sr_base_size c then (BOOT_ERR_FLASH_BOUNDS, v)
      else case fh_read fl (sr_base_addr c + soff) (unat step) (sv_dev v) of (st, d, s) \<Rightarrow>
        (if st \<noteq> BOOT_OK then (BOOT_ERR_FLASH_HW, v\<lparr> sv_dev := s \<rparr>)
         else (BOOT_OK, v\<lparr> sv_dev := s, sv_write_buf := patch (unat (sv_write_pos v)) d (sv_write_buf v) \<rparr>)))"

partial_function (option) produce_copy_or_zero ::
  "'s build \<Rightarrow> 's platform \<Rightarrow> 's flash_hal \<Rightarrow> sdvm_run \<Rightarrow> u32 \<Rightarrow> u32 \<Rightarrow> u32 \<Rightarrow> u32 \<Rightarrow> ('h, 's) sdvm \<Rightarrow>
     (boot_status \<times> ('h, 's) sdvm) option" where
  "produce_copy_or_zero b p fl c opcode len src_off rem v =
     (if rem = 0 then Some (BOOT_OK, v)
      else
        let v = sv_kick p v
        in if sv_target_off v < sv_flushed_off v then
             let step = (if sv_target_off v + rem > sv_flushed_off v then sv_flushed_off v - sv_target_off v else rem)
             in Option.bind (emit_flush b p fl c False v) (\<lambda>(st, v).
                  if st \<noteq> BOOT_OK then Some (st, v)
                  else produce_copy_or_zero b p fl c opcode len src_off (rem - step) (v\<lparr> sv_target_off := sv_target_off v + step \<rparr>))
           else
             let space = sv_write_cap v - sv_write_pos v; step = (if rem < space then rem else space)
             in case produce_step fl c opcode step (src_off + (len - rem)) v of (st, v) \<Rightarrow>
                  if st \<noteq> BOOT_OK then Some (st, v)
                  else
                    let v = v\<lparr> sv_write_pos := sv_write_pos v + step, sv_target_off := sv_target_off v + step \<rparr>
                    in Option.bind (if sv_write_pos v = sv_write_cap v then emit_flush b p fl c False v else Some (BOOT_OK, v)) (\<lambda>(st, v).
                         if st \<noteq> BOOT_OK then Some (st, v)
                         else produce_copy_or_zero b p fl c opcode len src_off (rem - step) v))"

partial_function (option) drain_decoder ::
  "'h heatshrink \<Rightarrow> 's build \<Rightarrow> 's platform \<Rightarrow> 's flash_hal \<Rightarrow> sdvm_run \<Rightarrow> ('h, 's) sdvm \<Rightarrow> (boot_status \<times> ('h, 's) sdvm) option" where
  "drain_decoder hs b p fl c v =
     (let v = sv_kick p v
      in Option.bind (if sv_write_cap v - sv_write_pos v = 0 then emit_flush b p fl c False v else Some (BOOT_OK, v)) (\<lambda>(st, v').
           if st \<noteq> BOOT_OK then Some (st, v')
           else
             let space = (if sv_write_cap v - sv_write_pos v = 0 then sv_write_cap v' else sv_write_cap v' - sv_write_pos v')
             in case hs_poll hs (sv_hsd v') (unat space) of
                  None \<Rightarrow> Some (BOOT_ERR_VERIFY, v')
                | Some (out, is_empty, h) \<Rightarrow>
                    let v' = v'\<lparr> sv_hsd := h, sv_write_buf := patch (unat (sv_write_pos v')) out (sv_write_buf v'),
                               sv_write_pos := sv_write_pos v' + of_nat (length out), sv_target_off := sv_target_off v' + of_nat (length out) \<rparr>
                    in if sv_target_off v' > sr_expected_target_size c then Some (BOOT_ERR_INVALID_STATE, v')
                       else if is_empty then Some (BOOT_OK, v')
                       else drain_decoder hs b p fl c v'))"

text \<open>One chunk of compressed literals into the decoder; how much it took.\<close>

definition insert_sink ::
  "'h heatshrink \<Rightarrow> 's platform \<Rightarrow> 's flash_hal \<Rightarrow> sdvm_run \<Rightarrow> u32 \<Rightarrow> u32 \<Rightarrow> u32 \<Rightarrow> ('h, 's) sdvm \<Rightarrow>
     boot_status \<times> nat \<times> ('h, 's) sdvm" where
  "insert_sink hs p fl c delta_max_size lit_read_off rem v =
     (let v = sv_kick p v; max_sink = of_nat (hs_input_buffer_size hs);
          chunk = min (if rem < max_sink then rem else max_sink) (sr_read_cap c)
      in if UINT32_MAX - lit_read_off < chunk \<or> lit_read_off + chunk > delta_max_size then (BOOT_ERR_FLASH_BOUNDS, 0, v)
         else case fh_read fl (sr_delta_addr c + lit_read_off) (unat chunk) (sv_dev v) of (st, d, s) \<Rightarrow>
           let v = v\<lparr> sv_dev := s \<rparr>
           in if st \<noteq> BOOT_OK then (BOOT_ERR_FLASH_HW, 0, v)
              else
                let v = v\<lparr> sv_read_buf := fill_prefix d (sv_read_buf v) \<rparr>
                in case hs_sink hs (sv_hsd v) (take (unat chunk) (sv_read_buf v)) of
                     None \<Rightarrow> (BOOT_ERR_VERIFY, 0, v)
                   | Some (sunk, h) \<Rightarrow> (if sunk = 0 then BOOT_ERR_INVALID_STATE else BOOT_OK, sunk, v\<lparr> sv_hsd := h \<rparr>))"

partial_function (option) produce_insert ::
  "'h heatshrink \<Rightarrow> 's build \<Rightarrow> 's platform \<Rightarrow> 's flash_hal \<Rightarrow> sdvm_run \<Rightarrow> u32 \<Rightarrow> u32 \<Rightarrow> u32 \<Rightarrow> ('h, 's) sdvm \<Rightarrow>
     (boot_status \<times> u32 \<times> ('h, 's) sdvm) option" where
  "produce_insert hs b p fl c delta_max_size lit_read_off rem v =
     (if rem = 0 then Some (BOOT_OK, lit_read_off, v)
      else case insert_sink hs p fl c delta_max_size lit_read_off rem v of (st, sunk, v) \<Rightarrow>
        if st \<noteq> BOOT_OK then Some (st, lit_read_off, v)
        else Option.bind (drain_decoder hs b p fl c v) (\<lambda>(st, v).
          if st \<noteq> BOOT_OK then Some (st, lit_read_off, v)
          else produce_insert hs b p fl c delta_max_size (lit_read_off + of_nat sunk) (rem - of_nat sunk) v))"

section \<open>The base image\<close>

partial_function (option) ghost_hash_loop ::
  "'s platform \<Rightarrow> 's flash_hal \<Rightarrow> 's crypto_hal \<Rightarrow> sdvm_run \<Rightarrow> u32 \<Rightarrow> u8 list \<Rightarrow> ('h, 's) sdvm \<Rightarrow>
     (boot_status \<times> u8 list \<times> ('h, 's) sdvm) option" where
  "ghost_hash_loop p fl cr c hashed hash_ctx v =
     (if \<not> hashed < sr_base_size c then Some (BOOT_OK, hash_ctx, v)
      else
        let v = sv_kick p v;
            step = (if sr_base_size c - hashed > sv_write_cap v then sv_write_cap v else sr_base_size c - hashed)
        in case fh_read fl (sr_base_addr c + hashed) (unat step) (sv_dev v) of (st, d, s) \<Rightarrow>
             let v = v\<lparr> sv_dev := s \<rparr>
             in if st \<noteq> BOOT_OK then Some (BOOT_ERR_FLASH_HW, hash_ctx, v)
                else
                  let v = v\<lparr> sv_write_buf := fill_prefix d (sv_write_buf v) \<rparr>
                  in case ch_hash_update cr hash_ctx (take (unat step) (sv_write_buf v)) (sv_dev v) of (st, hash_ctx, s) \<Rightarrow>
                       let v = v\<lparr> sv_dev := s \<rparr>
                       in if st \<noteq> BOOT_OK then Some (BOOT_ERR_CRYPTO, hash_ctx, v)
                          else ghost_hash_loop p fl cr c (hashed + step) hash_ctx v)"

definition verify_ghost_base ::
  "'s platform \<Rightarrow> 's flash_hal \<Rightarrow> 's crypto_hal \<Rightarrow> sdvm_run \<Rightarrow> u8 list \<Rightarrow> ('h, 's) sdvm \<Rightarrow> (boot_status \<times> ('h, 's) sdvm) option" where
  "verify_ghost_base p fl cr c fingerprint v =
     (case ch_hash_init cr (zeroed 256) (sv_dev v) of (st, hash_ctx, s) \<Rightarrow>
        let v = v\<lparr> sv_dev := s \<rparr>
        in if st \<noteq> BOOT_OK then Some (BOOT_ERR_CRYPTO, v)
           else do {
             (st, hash_ctx, v) \<leftarrow> ghost_hash_loop p fl cr c 0 hash_ctx v;
             if st \<noteq> BOOT_OK then Some (st, v)
             else
               let v = v\<lparr> sv_write_buf := zeroed (length (sv_write_buf v)) \<rparr>
               in case ch_hash_finish cr hash_ctx 32 (sv_dev v) of (st, digest, _, s) \<Rightarrow>
                    let v = v\<lparr> sv_dev := s \<rparr>
                    in if st \<noteq> BOOT_OK then Some (BOOT_ERR_CRYPTO, v)
                       else Some (if constant_time_memcmp_glitch_safe (fill_prefix digest (zeroed 32)) fingerprint 8 = BOOT_OK
                                  then BOOT_OK else BOOT_ERR_DOWNGRADE, v)
           })"

text \<open>A resumed run walks the sectors of the output up to the checkpoint, which has to be one of their ends.\<close>

partial_function (option) resume_walk ::
  "'s flash_hal \<Rightarrow> u32 \<Rightarrow> u32 \<Rightarrow> u32 \<Rightarrow> 's \<Rightarrow> (boot_status \<times> u32) option" where
  "resume_walk fl dest_addr checkpoint cur s =
     (if \<not> cur < checkpoint then Some (BOOT_OK, cur)
      else case fh_get_sector_size fl (dest_addr + cur) s of (st, sec) \<Rightarrow>
        if st \<noteq> BOOT_OK \<or> sec = 0 then Some (BOOT_ERR_FLASH_HW, cur)
        else if UINT32_MAX - cur < of_nat sec then Some (BOOT_ERR_FLASH_BOUNDS, cur)
        else resume_walk fl dest_addr checkpoint (cur + of_nat sec) s)"

definition delta_checkpoint :: "u32 \<Rightarrow> wal_entry_payload \<Rightarrow> u32" where
  "delta_checkpoint expected_target_size txn =
     (if we_intent txn = WAL_INTENT_UPDATE_PENDING \<or> we_intent txn = WAL_INTENT_TXN_ROLLBACK_PENDING
      then (if we_delta_chunk_id txn > expected_target_size then expected_target_size else we_delta_chunk_id txn)
      else 0)"

definition delta_resume ::
  "'s platform \<Rightarrow> 's flash_hal \<Rightarrow> 's crypto_hal \<Rightarrow> sdvm_run \<Rightarrow> u8 list \<Rightarrow> u32 \<Rightarrow> ('h, 's) sdvm \<Rightarrow> (boot_status \<times> ('h, 's) sdvm) option" where
  "delta_resume p fl cr c fingerprint checkpoint v =
     (if checkpoint = 0 then verify_ghost_base p fl cr c fingerprint v
      else
        let v = v\<lparr> sv_flushed_off := checkpoint, sv_committed_off := checkpoint, sv_checkpoint_off := checkpoint \<rparr>
        in do {
             (st, cur) \<leftarrow> resume_walk fl (sr_dest_addr c) checkpoint 0 (sv_dev v);
             Some (if st \<noteq> BOOT_OK then (st, v)
                   else if cur \<noteq> checkpoint then (BOOT_ERR_INVALID_STATE, v)
                   else (BOOT_OK, v\<lparr> sv_erased_end := sr_dest_addr c + checkpoint \<rparr>))
           })"

section \<open>The stream\<close>

record toob_tds_header =
  td_magic :: u32
  td_expected_target_size :: u32
  td_base_fingerprint :: "u8 list"
  td_base_size :: u32
  td_literal_block_offset :: u32
  td_instr_count :: u32
  td_header_crc32 :: u32

definition tds_header_of :: "u8 list \<Rightarrow> toob_tds_header" where
  "tds_header_of d = \<lparr> td_magic = rd32 0 d, td_expected_target_size = rd32 4 d, td_base_fingerprint = slice_of 8 8 d,
     td_base_size = rd32 16 d, td_literal_block_offset = rd32 20 d, td_instr_count = rd32 24 d, td_header_crc32 = rd32 28 d \<rparr>"

text \<open>The checks on the header; the literal block is pinned behind the instructions.\<close>

definition tds_header_check :: "u8 list \<Rightarrow> nat \<Rightarrow> nat \<Rightarrow> nat \<Rightarrow> boot_status" where
  "tds_header_check d delta_max_size dest_max_size base_max_size =
     (let h = tds_header_of d; instr_bytes = td_instr_count h * 16; expect_lit = 32 + instr_bytes
      in if \<not> secure_require (td_magic h = TOOB_TDS_MAGIC \<and> compute_boot_crc32 (take 28 d) = td_header_crc32 h) then BOOT_ERR_VERIFY
         else if td_expected_target_size h = 0 \<or> unat (td_expected_target_size h) > dest_max_size \<or>
                 unat (td_base_size h) > base_max_size then BOOT_ERR_FLASH_BOUNDS
         else if td_instr_count h \<noteq> 0 \<and> instr_bytes div td_instr_count h \<noteq> 16 then BOOT_ERR_INVALID_ARG
         else if UINT32_MAX - 32 < instr_bytes then BOOT_ERR_INVALID_ARG
         else if td_literal_block_offset h \<noteq> expect_lit then BOOT_ERR_VERIFY
         else if unat expect_lit > delta_max_size then BOOT_ERR_FLASH_BOUNDS
         else BOOT_OK)"

text \<open>One instruction: status, position in the literals and state; the window is flushed at the exact end.\<close>

definition tds_execute ::
  "'h heatshrink \<Rightarrow> 's build \<Rightarrow> 's platform \<Rightarrow> 's flash_hal \<Rightarrow> sdvm_run \<Rightarrow> nat \<Rightarrow> u32 \<Rightarrow> u32 \<Rightarrow> u32 \<Rightarrow> u32 \<Rightarrow> ('h, 's) sdvm \<Rightarrow>
     (boot_status \<times> u32 \<times> ('h, 's) sdvm) option" where
  "tds_execute hs b p fl c delta_max_size opcode len src_off lit_read_off v = do {
     (st, lit, v) \<leftarrow>
       (if opcode = TOOB_TDS_OP_COPY_BASE \<or> opcode = TOOB_TDS_OP_BZERO then
          if UINT32_MAX - sv_target_off v < len \<or> sv_target_off v + len > sr_expected_target_size c
          then Some (BOOT_ERR_FLASH_BOUNDS, lit_read_off, v)
          else map_option (\<lambda>(st, v). (st, lit_read_off, v)) (produce_copy_or_zero b p fl c opcode len src_off len v)
        else if opcode = TOOB_TDS_OP_INSERT_LIT
        then produce_insert hs b p fl c (of_nat delta_max_size) lit_read_off len v
        else Some (BOOT_ERR_VERIFY, lit_read_off, v));
     if st \<noteq> BOOT_OK then Some (st, lit, v)
     else if sv_target_off v = sr_expected_target_size c \<and> sv_write_pos v > 0
     then map_option (\<lambda>(st, v). (st, lit, v)) (emit_flush b p fl c True v)
     else Some (BOOT_OK, lit, v)
   }"

text \<open>The execution loop; \<open>fuel\<close> is \<open>MAX_INSTRUCTIONS\<close> minus the guard.\<close>

definition MAX_INSTRUCTIONS :: nat where "MAX_INSTRUCTIONS = 1000000"

fun tds_loop ::
  "nat \<Rightarrow> 'h heatshrink \<Rightarrow> 's build \<Rightarrow> 's platform \<Rightarrow> 's flash_hal \<Rightarrow> sdvm_run \<Rightarrow> nat \<Rightarrow> u32 \<Rightarrow> u32 \<Rightarrow> u32 \<Rightarrow> u32 \<Rightarrow>
     ('h, 's) sdvm \<Rightarrow> (boot_status \<times> ('h, 's) sdvm) option" where
  "tds_loop 0 hs b p fl c delta_max_size instr_count inst_idx delta_read_off lit_read_off v = Some (BOOT_ERR_INVALID_STATE, v)"
| "tds_loop (Suc fuel) hs b p fl c delta_max_size instr_count inst_idx delta_read_off lit_read_off v =
     (if inst_idx \<ge> instr_count then Some (BOOT_ERR_VERIFY, v)
      else if UINT32_MAX - delta_read_off < 16 \<or> unat delta_read_off + 16 > delta_max_size then Some (BOOT_ERR_INVALID_ARG, v)
      else case fh_read fl (sr_delta_addr c + delta_read_off) 16 (sv_dev v) of (st, d, s) \<Rightarrow>
        let v = v\<lparr> sv_dev := s \<rparr>; inst = fill_prefix d (zeroed 16)
        in if st \<noteq> BOOT_OK then Some (BOOT_ERR_FLASH_HW, v)
           else if \<not> secure_require (compute_boot_crc32 (take 12 inst) = rd32 12 inst) then Some (BOOT_ERR_VERIFY, v)
           else if rd32 0 inst = TOOB_TDS_OP_EOF then Some (BOOT_OK, v)
           else do {
             (st, lit_read_off, v) \<leftarrow> tds_execute hs b p fl c delta_max_size (rd32 0 inst) (rd32 4 inst) (rd32 8 inst) lit_read_off v;
             if st \<noteq> BOOT_OK then Some (st, v)
             else tds_loop fuel hs b p fl c delta_max_size instr_count (inst_idx + 1) (delta_read_off + 16) lit_read_off v
           })"

declare tds_loop.simps [simp del]

section \<open>The entry point\<close>

text \<open>The tail of a run that reached EOF: drain, last flush, and the anti-truncation check.\<close>

definition delta_finish ::
  "'h heatshrink \<Rightarrow> 's build \<Rightarrow> 's platform \<Rightarrow> 's flash_hal \<Rightarrow> sdvm_run \<Rightarrow> ('h, 's) sdvm \<Rightarrow> (boot_status \<times> ('h, 's) sdvm) option" where
  "delta_finish hs b p fl c v = do {
     (st, v) \<leftarrow> drain_decoder hs b p fl c (v\<lparr> sv_hsd := hs_finish hs (sv_hsd v) \<rparr>);
     if st \<noteq> BOOT_OK then Some (st, v)
     else do {
       (st, v) \<leftarrow> emit_flush b p fl c True v;
       if st \<noteq> BOOT_OK then Some (st, v)
       else if \<not> secure_require (sv_target_off v = sr_expected_target_size c) then Some (BOOT_ERR_VERIFY, v)
       else Some (BOOT_OK, v)
     }
   }"

definition delta_run ::
  "'h heatshrink \<Rightarrow> 's build \<Rightarrow> 's platform \<Rightarrow> 's flash_hal \<Rightarrow> 's crypto_hal \<Rightarrow> sdvm_run \<Rightarrow> toob_tds_header \<Rightarrow> nat \<Rightarrow> boot_cfi_ctx \<Rightarrow>
     ('h, 's) sdvm \<Rightarrow> (boot_status \<times> ('h, 's) sdvm) option" where
  "delta_run hs b p fl cr c h delta_max_size cfi v = do {
     (st, v) \<leftarrow> delta_resume p fl cr c (td_base_fingerprint h) (delta_checkpoint (td_expected_target_size h) (sv_txn v)) v;
     if st \<noteq> BOOT_OK then Some (st, v)
     else do {
       (st, v) \<leftarrow> tds_loop MAX_INSTRUCTIONS hs b p fl c delta_max_size (td_instr_count h) 0 32 (td_literal_block_offset h)
                   (v\<lparr> sv_hsd := hs_reset hs \<rparr>);
       if st \<noteq> BOOT_OK then Some (st, v)
       else do {
         (st, v) \<leftarrow> delta_finish hs b p fl c v;
         if st \<noteq> BOOT_OK then Some (st, v)
         else if \<not> boot_cfi_require False (boot_cfi_step 3 (boot_cfi_step 2 (boot_cfi_step 1 cfi)))
         then Some (BOOT_ERR_INVALID_STATE, v)
         else Some (BOOT_OK, v\<lparr> sv_txn := (sv_txn v)\<lparr> we_delta_chunk_id := sv_target_off v \<rparr> \<rparr>)
       }
     }
   }"

text \<open>
  Status, open transaction, arena, journal and device. A decoder after its reset is all zero, so every exit
  behind the zeroization leaves a zeroed arena.
\<close>

definition boot_delta_apply ::
  "'h heatshrink \<Rightarrow> 's build \<Rightarrow> 's platform \<Rightarrow> u32 \<Rightarrow> nat \<Rightarrow> u32 \<Rightarrow> nat \<Rightarrow> u32 \<Rightarrow> nat \<Rightarrow> wal_entry_payload \<Rightarrow> u8 list \<Rightarrow> journal_state \<Rightarrow> 's \<Rightarrow>
     (boot_status \<times> wal_entry_payload \<times> u8 list \<times> journal_state \<times> 's) option" where
  "boot_delta_apply hs b p delta_addr delta_max_size dest_addr dest_max_size base_addr base_max_size txn arena j s =
     (if length arena < 1024 then Some (BOOT_ERR_INVALID_ARG, txn, arena, j, s)
      else case (pf_flash p, pf_crypto p, pf_wdt p) of
        (Some fl, Some cr, Some w) \<Rightarrow>
          if delta_max_size < 32 + 16 then Some (BOOT_ERR_VERIFY, txn, arena, j, s)
          else case boot_random_safe p 4 s of (_, seed, s) \<Rightarrow>
            let cfi = fold boot_cfi_add_expected [1, 2, 3] (boot_cfi_init (rd32 0 (fill_prefix seed (zeroed 4))));
                hsd_size = (hs_sizeof hs + 7) div 8 * 8;
                read_cap = (let n = (hs_input_buffer_size hs + 7) div 8 * 8 in if n = 0 then 8 else n);
                write_cap = (length arena - hsd_size - read_cap) div 8 * 8
            in if hsd_size + 8 \<ge> length arena then Some (BOOT_ERR_INVALID_STATE, txn, arena, j, s)
               else if hsd_size + read_cap + 8 \<ge> length arena \<or> write_cap < 8
               then Some (BOOT_ERR_INVALID_STATE, txn, zeroed (length arena), j, s)
               else case fh_read fl delta_addr 32 s of (st, d, s) \<Rightarrow>
                 let d = fill_prefix d (zeroed 32); h = tds_header_of d;
                     stat = (if st \<noteq> BOOT_OK then BOOT_ERR_FLASH_HW else tds_header_check d delta_max_size dest_max_size base_max_size);
                     c = \<lparr> sr_dest_addr = dest_addr, sr_base_addr = base_addr, sr_delta_addr = delta_addr, sr_base_size = td_base_size h,
                           sr_expected_target_size = td_expected_target_size h, sr_read_cap = of_nat read_cap \<rparr>;
                     v = \<lparr> sv_write_buf = zeroed write_cap, sv_write_pos = 0, sv_read_buf = zeroed read_cap, sv_hsd = hs_reset hs,
                           sv_target_off = 0, sv_flushed_off = 0, sv_committed_off = 0, sv_checkpoint_off = 0, sv_erased_end = dest_addr,
                           sv_txn = txn, sv_jn = j, sv_dev = s \<rparr>
                 in if stat \<noteq> BOOT_OK then Some (stat, txn, zeroed (length arena), j, s)
                    else do {
                      (st, v) \<leftarrow> delta_run hs b p fl cr c h delta_max_size cfi v;
                      Some (st, sv_txn v, zeroed (length arena), sv_jn v, sv_dev v)
                    }
      | _ \<Rightarrow> Some (BOOT_ERR_INVALID_ARG, txn, arena, j, s))"

section \<open>Checkpoints\<close>

text \<open>
  A flash whose sectors all have the size \<open>sz\<close>, a divisor of the address space, and which knows them for
  the addresses from \<open>lo\<close> below \<open>hi\<close>.
\<close>

locale uniform_sectors =
  fixes fl :: "'s flash_hal" and sz lo hi :: nat
  assumes sz_pos: "0 < sz"
    and sz_small: "sz < 2 ^ 32"
    and sz_dvd: "sz dvd 2 ^ 32"
    and sector: "fh_get_sector_size fl a s = (BOOT_OK, n) \<Longrightarrow> n = sz"
    and sector_known: "lo \<le> unat a \<Longrightarrow> unat a < hi \<Longrightarrow> fh_get_sector_size fl a s = (BOOT_OK, sz)"

text \<open>The marks a resumed run relies on: the high-water mark and the number in the transaction.\<close>

definition marks_aligned :: "nat \<Rightarrow> ('h, 's) sdvm \<Rightarrow> bool" where
  "marks_aligned sz v \<longleftrightarrow> sz dvd unat (sv_committed_off v) \<and> sz dvd unat (we_delta_chunk_id (sv_txn v))"

lemma marks_aligned_update [simp]:
  "marks_aligned sz (sv_kick p v) = marks_aligned sz v"
  "marks_aligned sz (v\<lparr> sv_dev := s \<rparr>) = marks_aligned sz v"
  "marks_aligned sz (v\<lparr> sv_write_buf := wb \<rparr>) = marks_aligned sz v"
  "marks_aligned sz (v\<lparr> sv_write_pos := w \<rparr>) = marks_aligned sz v"
  "marks_aligned sz (v\<lparr> sv_read_buf := rb \<rparr>) = marks_aligned sz v"
  "marks_aligned sz (v\<lparr> sv_hsd := h \<rparr>) = marks_aligned sz v"
  "marks_aligned sz (v\<lparr> sv_target_off := w \<rparr>) = marks_aligned sz v"
  "marks_aligned sz (v\<lparr> sv_flushed_off := w \<rparr>) = marks_aligned sz v"
  "marks_aligned sz (v\<lparr> sv_checkpoint_off := w \<rparr>) = marks_aligned sz v"
  "marks_aligned sz (v\<lparr> sv_erased_end := w \<rparr>) = marks_aligned sz v"
  "marks_aligned sz (v\<lparr> sv_jn := j \<rparr>) = marks_aligned sz v"
  by (simp_all add: marks_aligned_def sv_kick_def)

text \<open>How a run ends: at its start, in the loop, or in the tail.\<close>

lemma delta_run_cases:
  assumes "delta_run hs b p fl cr c h dms cfi v = Some (st, v')"
  obtains (at_start) "delta_resume p fl cr c (td_base_fingerprint h) (delta_checkpoint (td_expected_target_size h) (sv_txn v)) v = Some (st, v')"
      "st \<noteq> BOOT_OK"
    | (looping) v1 where "delta_resume p fl cr c (td_base_fingerprint h) (delta_checkpoint (td_expected_target_size h) (sv_txn v)) v = Some (BOOT_OK, v1)"
      "tds_loop MAX_INSTRUCTIONS hs b p fl c dms (td_instr_count h) 0 32 (td_literal_block_offset h) (v1\<lparr> sv_hsd := hs_reset hs \<rparr>) = Some (st, v')"
      "st \<noteq> BOOT_OK"
    | (tail) v1 v2 v3 st3 where "delta_resume p fl cr c (td_base_fingerprint h) (delta_checkpoint (td_expected_target_size h) (sv_txn v)) v = Some (BOOT_OK, v1)"
      "tds_loop MAX_INSTRUCTIONS hs b p fl c dms (td_instr_count h) 0 32 (td_literal_block_offset h) (v1\<lparr> sv_hsd := hs_reset hs \<rparr>) = Some (BOOT_OK, v2)"
      "delta_finish hs b p fl c v2 = Some (st3, v3)"
      "if st = BOOT_OK then st3 = BOOT_OK \<and> v' = v3\<lparr> sv_txn := (sv_txn v3)\<lparr> we_delta_chunk_id := sv_target_off v3 \<rparr> \<rparr> else v' = v3"
proof -
  obtain st1 v1 where 1: "delta_resume p fl cr c (td_base_fingerprint h) (delta_checkpoint (td_expected_target_size h) (sv_txn v)) v = Some (st1, v1)"
    using assms by (auto simp: delta_run_def bind_eq_Some_conv)
  show thesis
  proof (cases "st1 = BOOT_OK")
    case False
    then show thesis using assms 1 at_start by (simp add: delta_run_def)
  next
    case ok1: True
    then obtain st2 v2 where 2: "tds_loop MAX_INSTRUCTIONS hs b p fl c dms (td_instr_count h) 0 32 (td_literal_block_offset h)
        (v1\<lparr> sv_hsd := hs_reset hs \<rparr>) = Some (st2, v2)"
      using assms 1 by (auto simp: delta_run_def bind_eq_Some_conv)
    show thesis
    proof (cases "st2 = BOOT_OK")
      case False
      then show thesis using assms 1 ok1 2 looping by (simp add: delta_run_def)
    next
      case ok2: True
      then obtain st3 v3 where 3: "delta_finish hs b p fl c v2 = Some (st3, v3)"
        using assms 1 ok1 2 by (auto simp: delta_run_def bind_eq_Some_conv)
      have "if st = BOOT_OK then st3 = BOOT_OK \<and> v' = v3\<lparr> sv_txn := (sv_txn v3)\<lparr> we_delta_chunk_id := sv_target_off v3 \<rparr> \<rparr> else v' = v3"
        using assms 1 ok1 2 ok2 3 by (simp add: delta_run_def split: if_splits)
      then show thesis using tail 1 ok1 2 ok2 3 by blast
    qed
  qed
qed

text \<open>A run that succeeds leaves the size of the output in the transaction.\<close>

lemma delta_finish_size:
  "delta_finish hs b p fl c v = Some (BOOT_OK, v') \<Longrightarrow> sv_target_off v' = sr_expected_target_size c"
  by (auto simp: delta_finish_def bind_eq_Some_conv split: if_splits)

lemma delta_run_complete:
  assumes "delta_run hs b p fl cr c h dms cfi v = Some (BOOT_OK, v')"
  shows "we_delta_chunk_id (sv_txn v') = sr_expected_target_size c"
  using assms by (cases rule: delta_run_cases) (auto dest: delta_finish_size)

text \<open>A successful run leaves a zeroed arena.\<close>

lemma boot_delta_apply_zeroes:
  assumes "boot_delta_apply hs b p delta_addr dms dest dmx base bmx txn arena j s = Some (BOOT_OK, txn', arena', r)"
  shows "arena' = zeroed (length arena) \<and> 1024 \<le> length arena"
proof -
  obtain rst seed s1 where rnd: "boot_random_safe p 4 s = (rst, seed, s1)" by (metis prod_cases3)
  show ?thesis
    using assms unfolding boot_delta_apply_def
    by (simp add: rnd Let_def bind_eq_Some_conv split: if_splits option.splits prod.splits)
qed

context uniform_sectors
begin

lemma dvd_step: "sz dvd unat a \<Longrightarrow> sz dvd unat (a + of_nat sz :: u32)"
  by (simp add: unat_word_ariths unat_of_nat dvd_mod sz_dvd [simplified])

lemma commit_walk_dvd:
  assumes "commit_walk fl dest flushed committed s = Some r" "sz dvd unat committed"
  shows "sz dvd unat (snd r)"
proof -
  have "fl = fl \<longrightarrow> sz dvd unat committed \<longrightarrow> sz dvd unat (snd r)"
    by (rule commit_walk.raw_induct [OF _ assms(1), where P = "\<lambda>fl' dest flushed committed s r.
        fl' = fl \<longrightarrow> sz dvd unat committed \<longrightarrow> sz dvd unat (snd r)"])
      (fastforce dest!: sector dest: dvd_step split: if_splits prod.splits)
  then show ?thesis using assms(2) by simp
qed

lemma log_checkpoint_marks:
  assumes "marks_aligned sz v" shows "marks_aligned sz (snd (log_checkpoint b p v))"
  using assms by (auto simp: log_checkpoint_def marks_aligned_def Let_def split: prod.splits)

lemma flush_write_marks:
  assumes "flush_write b p fl c valid_off write_len v = Some r" "marks_aligned sz v"
  shows "marks_aligned sz (snd r)"
  using assms
  by (auto simp: flush_write_def Let_def bind_eq_Some_conv split: if_splits prod.splits
      intro!: log_checkpoint_marks dest!: commit_walk_dvd) (auto simp: marks_aligned_def)

lemma emit_flush_marks:
  assumes "emit_flush b p fl c pad_final v = Some r" "marks_aligned sz v"
  shows "marks_aligned sz (snd r)"
  using assms by (auto simp: emit_flush_def Let_def split: if_splits dest!: flush_write_marks)

lemma produce_step_marks:
  "produce_step fl c opcode step soff v = (st, v') \<Longrightarrow> marks_aligned sz v \<Longrightarrow> marks_aligned sz v'"
  by (auto simp: produce_step_def split: if_splits prod.splits)

lemma produce_copy_marks:
  assumes "produce_copy_or_zero b p fl c opcode len src_off rem v = Some r" "marks_aligned sz v"
  shows "marks_aligned sz (snd r)"
proof -
  have "fl = fl \<longrightarrow> marks_aligned sz v \<longrightarrow> marks_aligned sz (snd r)"
    by (rule produce_copy_or_zero.raw_induct [OF _ assms(1), where P = "\<lambda>b p fl' c opcode len src_off rem v r.
        fl' = fl \<longrightarrow> marks_aligned sz v \<longrightarrow> marks_aligned sz (snd r)"])
      (auto simp: Let_def bind_eq_Some_conv dest!: emit_flush_marks produce_step_marks split: if_splits prod.splits)
  then show ?thesis using assms(2) by simp
qed

lemma drain_decoder_marks:
  assumes "drain_decoder hs b p fl c v = Some r" "marks_aligned sz v"
  shows "marks_aligned sz (snd r)"
proof -
  have "fl = fl \<longrightarrow> marks_aligned sz v \<longrightarrow> marks_aligned sz (snd r)"
    by (rule drain_decoder.raw_induct [OF _ assms(1), where P = "\<lambda>hs b p fl' c v r.
        fl' = fl \<longrightarrow> marks_aligned sz v \<longrightarrow> marks_aligned sz (snd r)"])
      (auto simp: Let_def bind_eq_Some_conv dest!: emit_flush_marks split: if_splits prod.splits option.splits)
  then show ?thesis using assms(2) by simp
qed

lemma insert_sink_marks:
  "insert_sink hs p fl c dms lit rem v = (st, sunk, v') \<Longrightarrow> marks_aligned sz v \<Longrightarrow> marks_aligned sz v'"
  by (auto simp: insert_sink_def Let_def split: if_splits prod.splits option.splits)

lemma produce_insert_marks:
  assumes "produce_insert hs b p fl c dms lit rem v = Some r" "marks_aligned sz v"
  shows "marks_aligned sz (snd (snd r))"
proof -
  have "fl = fl \<longrightarrow> marks_aligned sz v \<longrightarrow> marks_aligned sz (snd (snd r))"
  proof (rule produce_insert.raw_induct [OF _ assms(1), where P = "\<lambda>hs b p fl' c dms lit rem v r.
      fl' = fl \<longrightarrow> marks_aligned sz v \<longrightarrow> marks_aligned sz (snd (snd r))"], intro impI, goal_cases)
    case (1 rec hs b p fl' c dms lit rem v r)
    obtain st sunk v1 where k: "insert_sink hs p fl c dms lit rem v = (st, sunk, v1)" by (metis prod_cases3)
    then have v1: "marks_aligned sz v1" using insert_sink_marks 1(4) by blast
    show ?case
    proof (cases "drain_decoder hs b p fl c v1")
      case None
      then show ?thesis using 1(2-4) k v1 by (auto split: if_splits)
    next
      case (Some q)
      then have "marks_aligned sz (snd q)" using drain_decoder_marks v1 by blast
      then show ?thesis using 1(1) [of hs b p fl c dms "lit + of_nat sunk" "rem - of_nat sunk" "snd q" r] 1(2-4) k v1 Some
        by (cases q) (auto split: if_splits)
    qed
  qed
  then show ?thesis using assms(2) by simp
qed

lemma tds_execute_marks:
  assumes "tds_execute hs b p fl c dms opcode len src_off lit v = Some r" "marks_aligned sz v"
  shows "marks_aligned sz (snd (snd r))"
proof -
  obtain st lit' v' where first: "marks_aligned sz v'" and
    "r = (st, lit', v') \<or> (\<exists>q. emit_flush b p fl c True v' = Some q \<and> r = (fst q, lit', snd q))"
    using assms unfolding tds_execute_def
    by (fastforce simp: bind_eq_Some_conv split: if_splits dest: produce_copy_marks produce_insert_marks)
  then show ?thesis by (auto dest: emit_flush_marks)
qed

lemma tds_loop_marks:
  "tds_loop n hs b p fl c dms cnt idx off lit v = Some r \<Longrightarrow> marks_aligned sz v \<Longrightarrow> marks_aligned sz (snd r)"
proof (induction n arbitrary: idx off lit v)
  case 0
  then show ?case by (auto simp: tds_loop.simps)
next
  case (Suc n)
  from Suc.prems show ?case
    by (auto simp: tds_loop.simps(2) Let_def bind_eq_Some_conv split: if_splits prod.splits
        dest!: tds_execute_marks intro: Suc.IH)
qed

lemma ghost_hash_marks:
  assumes "ghost_hash_loop p fl cr c hashed ctx v = Some r" "marks_aligned sz v"
  shows "marks_aligned sz (snd (snd r))"
proof -
  have "marks_aligned sz v \<longrightarrow> marks_aligned sz (snd (snd r))"
    by (rule ghost_hash_loop.raw_induct [OF _ assms(1), where P = "\<lambda>p fl' cr c hashed ctx v r.
        marks_aligned sz v \<longrightarrow> marks_aligned sz (snd (snd r))"])
      (auto simp: Let_def split: if_splits prod.splits)
  then show ?thesis using assms(2) by simp
qed

text \<open>The walk of a resumed run ends on sector boundaries, and on the checkpoint if that is one.\<close>

lemma resume_walk_aligned:
  assumes "sz dvd unat checkpoint" "sz dvd unat cur" "cur \<le> checkpoint" "lo \<le> unat dest" "unat dest + unat checkpoint \<le> hi"
    and "unat dest + unat checkpoint < 2 ^ 32"
  shows "resume_walk fl dest checkpoint cur s = Some (BOOT_OK, checkpoint)"
  using assms(1-3)
proof (induction "unat checkpoint - unat cur" arbitrary: cur rule: less_induct)
  case less
  show ?case
  proof (cases "cur < checkpoint")
    case False
    then show ?thesis using less.prems by (subst resume_walk.simps) (auto simp: not_less)
  next
    case True
    then have lt: "unat cur < unat checkpoint" by (simp add: word_less_unat)
    have "sz dvd unat checkpoint - unat cur" using less.prems by (simp add: dvd_diff_nat)
    then have le: "unat cur + sz \<le> unat checkpoint" using lt by (metis dvd_imp_le le_diff_conv2 less_imp_le zero_less_diff add.commute)
    then have small: "unat cur + sz < 4294967296" using le_less_trans [OF _ unat_u32_lt] by blast
    then have u: "unat (cur + of_nat sz) = unat cur + sz"
      by (simp add: unat_word_ariths unat_of_nat)
    have sz: "unat (of_nat sz :: u32) = sz" using small by (simp add: unat_of_nat)
    have "\<not> UINT32_MAX - cur < of_nat sz"
      using le unat_u32_le_max [of checkpoint] unat_u32_le_max [of cur]
      by (simp add: word_less_unat unat_sub_no_wrap word_le_unat sz)
    moreover have "unat (dest + cur) = unat dest + unat cur" using assms(6) lt by (simp add: unat_word_ariths)
    then have "fh_get_sector_size fl (dest + cur) s = (BOOT_OK, sz)" using assms(4,5) lt by (intro sector_known) auto
    moreover have "resume_walk fl dest checkpoint (cur + of_nat sz) s = Some (BOOT_OK, checkpoint)"
      using less.hyps [of "cur + of_nat sz"] less.prems le u lt sz_pos by (simp add: word_le_unat)
    ultimately show ?thesis using True sz_pos by (subst resume_walk.simps) simp
  qed
qed

lemma resume_walk_ends:
  "\<exists>st r. resume_walk fl dest checkpoint cur s = Some (st, r) \<and> (sz dvd unat cur \<longrightarrow> sz dvd unat r)"
proof (induction "2 ^ 32 - unat cur" arbitrary: cur rule: less_induct)
  case less
  obtain st n where g: "fh_get_sector_size fl (dest + cur) s = (st, n)" by fastforce
  show ?case
  proof (cases "cur < checkpoint \<and> st = BOOT_OK \<and> n \<noteq> 0 \<and> \<not> UINT32_MAX - cur < of_nat n")
    case False
    then show ?thesis using g by (subst resume_walk.simps) auto
  next
    case True
    then have n: "n = sz" using g sector by blast
    have sz: "unat (of_nat sz :: u32) = sz" using sz_small by (simp add: unat_of_nat)
    have le: "unat cur + sz \<le> 4294967295"
      using True n sz unat_u32_le_max [of cur] by (auto simp: word_less_unat unat_sub_no_wrap word_le_unat)
    then have u: "unat (cur + of_nat sz) = unat cur + sz" by (simp add: unat_word_ariths unat_of_nat)
    then have "2 ^ 32 - unat (cur + of_nat sz) < 2 ^ 32 - unat cur" using sz_pos le by simp
    from less.hyps [OF this] show ?thesis using True g n u by (subst resume_walk.simps) auto
  qed
qed

lemma delta_resume_marks:
  assumes "delta_resume p fl cr c fp checkpoint v = Some (st, v')" "marks_aligned sz v"
  shows "sz dvd unat (we_delta_chunk_id (sv_txn v'))" "st = BOOT_OK \<Longrightarrow> marks_aligned sz v'"
proof -
  have "sz dvd unat (we_delta_chunk_id (sv_txn v')) \<and> (st = BOOT_OK \<longrightarrow> marks_aligned sz v')"
  proof (cases "checkpoint = 0")
    case True
    then obtain hc where "verify_ghost_base p fl cr c fp v = Some (st, v')" using assms(1) by (auto simp: delta_resume_def)
    then have "marks_aligned sz v'" using assms(2)
      by (auto simp: verify_ghost_base_def bind_eq_Some_conv Let_def dest!: ghost_hash_marks split: if_splits prod.splits)
    then show ?thesis by (simp add: marks_aligned_def)
  next
    case False
    obtain st' r where w: "resume_walk fl (sr_dest_addr c) checkpoint 0 (sv_dev v) = Some (st', r)" "sz dvd unat r"
      using resume_walk_ends [of "sr_dest_addr c" checkpoint 0 "sv_dev v"] by auto
    then show ?thesis using assms False by (auto simp: delta_resume_def Let_def marks_aligned_def split: if_splits)
  qed
  then show "sz dvd unat (we_delta_chunk_id (sv_txn v'))" "st = BOOT_OK \<Longrightarrow> marks_aligned sz v'" by simp_all
qed

lemma delta_finish_marks:
  assumes "delta_finish hs b p fl c v = Some r" "marks_aligned sz v"
  shows "marks_aligned sz (snd r)"
  using assms by (auto simp: delta_finish_def bind_eq_Some_conv split: if_splits prod.splits
      dest!: drain_decoder_marks emit_flush_marks)

text \<open>A run that fails leaves an aligned number in the transaction.\<close>

lemma delta_run_marks:
  assumes "delta_run hs b p fl cr c h dms cfi v = Some (st, v')" "st \<noteq> BOOT_OK" "marks_aligned sz v"
  shows "sz dvd unat (we_delta_chunk_id (sv_txn v'))"
  using assms(1)
proof (cases rule: delta_run_cases)
  case at_start
  then show ?thesis using delta_resume_marks(1) assms(3) by blast
next
  case (looping v1)
  then show ?thesis using delta_resume_marks(2) [OF looping(1) assms(3)] tds_loop_marks [OF looping(2)]
    by (simp add: marks_aligned_def)
next
  case (tail v1 v2 v3 st3)
  have "marks_aligned sz v2" using delta_resume_marks(2) [OF tail(1) assms(3)] tds_loop_marks [OF tail(2)] by simp
  then have "marks_aligned sz v3" using delta_finish_marks [OF tail(3)] by simp
  then show ?thesis using tail(4) assms(2) by (simp add: marks_aligned_def)
qed

lemma delta_resume_boundary:
  assumes "delta_resume p fl cr c fp checkpoint v = Some (BOOT_OK, v')"
  shows "sz dvd unat checkpoint"
  using assms resume_walk_ends [of "sr_dest_addr c" checkpoint 0 "sv_dev v"]
  by (cases "checkpoint = 0") (auto simp: delta_resume_def Let_def split: if_splits)

lemma delta_run_boundary:
  assumes "delta_run hs b p fl cr c h dms cfi v = Some (BOOT_OK, v')"
  shows "sz dvd unat (delta_checkpoint (td_expected_target_size h) (sv_txn v))"
  using assms by (cases rule: delta_run_cases) (auto dest: delta_resume_boundary)

text \<open>The same for the whole function: what it leaves in the transaction, and what it starts from.\<close>

lemma boot_delta_apply_run:
  assumes "boot_delta_apply hs b p delta_addr dms dest dmx base bmx txn arena j s = Some (st, txn', r)" "pf_flash p = Some fl"
  shows "st \<noteq> BOOT_OK \<and> txn' = txn \<or> (\<exists>cr c h cfi v v'. delta_run hs b p fl cr c h dms cfi v = Some (st, v') \<and> sv_txn v = txn \<and>
    txn' = sv_txn v' \<and> sv_committed_off v = 0 \<and> sr_expected_target_size c = td_expected_target_size h)"
proof -
  obtain rst seed s1 where rnd: "boot_random_safe p 4 s = (rst, seed, s1)" by (metis prod_cases3)
  obtain hst d s2 where rd: "fh_read fl delta_addr 32 s1 = (hst, d, s2)" by (metis prod_cases3)
  show ?thesis
    using assms unfolding boot_delta_apply_def
    by (simp add: rnd rd Let_def bind_eq_Some_conv split: if_splits option.splits) (force | auto)+
qed

lemma apply_marks:
  assumes "boot_delta_apply hs b p delta_addr dms dest dmx base bmx txn arena j s = Some (st, txn', r)" "pf_flash p = Some fl"
    and "st \<noteq> BOOT_OK" "sz dvd unat (we_delta_chunk_id txn)"
  shows "sz dvd unat (we_delta_chunk_id txn')"
  using boot_delta_apply_run [OF assms(1,2)] assms(3,4) by (auto dest!: delta_run_marks simp: marks_aligned_def)

lemma apply_boundary:
  assumes "boot_delta_apply hs b p delta_addr dms dest dmx base bmx txn arena j s = Some (BOOT_OK, txn', r)" "pf_flash p = Some fl"
    and "we_intent txn = WAL_INTENT_UPDATE_PENDING"
  shows "sz dvd unat (min (we_delta_chunk_id txn) (we_delta_chunk_id txn'))"
proof -
  obtain cr c h cfi v v' where run: "delta_run hs b p fl cr c h dms cfi v = Some (BOOT_OK, v')" "sv_txn v = txn" "txn' = sv_txn v'"
    "sr_expected_target_size c = td_expected_target_size h"
    using boot_delta_apply_run [OF assms(1,2)] by auto
  have "min (we_delta_chunk_id txn) (we_delta_chunk_id txn') = delta_checkpoint (td_expected_target_size h) (sv_txn v)"
    using delta_run_complete [OF run(1)] run assms(3) by (auto simp: delta_checkpoint_def min_def)
  then show ?thesis using delta_run_boundary [OF run(1)] by simp
qed

end

section \<open>The host flash model\<close>

text \<open>The host model behind a port that fixes the geometry, as a chip does.\<close>

definition geometry_port :: "nat \<Rightarrow> nat \<Rightarrow> flash_model flash_hal" where
  "geometry_port tot sec = (model_port (of_nat sec) 1 0xFF 0)\<lparr>
     fh_get_sector_size := \<lambda>a m. if unat a \<ge> tot then (BOOT_ERR_FLASH_BOUNDS, 0) else (BOOT_OK, sec) \<rparr>"

lemma geometry_uniform:
  assumes "0 < sec" "sec < 2 ^ 32" "sec dvd 2 ^ 32"
  shows "uniform_sectors (geometry_port tot sec) sec 0 tot"
  by unfold_locales (use assms in \<open>auto simp: geometry_port_def split: if_splits\<close>)

interpretation geometry: uniform_sectors "geometry_port 0x00400000 4096" 4096 0 "0x00400000"
  by (rule geometry_uniform) simp_all

text \<open>A decoder that stores what it is given, for the runs without literals below.\<close>

definition store_decoder :: "u8 list heatshrink" where
  "store_decoder = \<lparr> hs_sizeof = 300, hs_input_buffer_size = 32, hs_reset = [], hs_sink = \<lambda>h d. Some (length d, h @ d),
     hs_poll = \<lambda>h n. Some (take n h, length h \<le> n, drop n h), hs_finish = \<lambda>h. h \<rparr>"

text \<open>
  A device of 128 bytes with the output and application slots at 0 and a delta stream at 16, the staging
  slot: clear 16 bytes, end. The header
  announces 16 or 32 bytes of output.
\<close>

definition delta_stream :: "u8 \<Rightarrow> u8 list \<Rightarrow> u8 list" where
  "delta_stream target crc = [84, 68, 83, 49, target, 0, 0, 0] @ zeroed 8 @ [0, 0, 0, 0, 64, 0, 0, 0, 2, 0, 0, 0] @ crc @
     [90, 90, 90, 90, 16, 0, 0, 0, 0, 0, 0, 0, 224, 29, 121, 2, 15, 15, 15, 15, 0, 0, 0, 0, 0, 0, 0, 0, 132, 57, 11, 180]"

definition delta_device :: "u8 list \<Rightarrow> flash_model" where
  "delta_device stream = \<lparr> fm_file = zeroed 16 @ stream @ zeroed 48, fm_total_size = 128, fm_sector_size = 16,
     fm_erased_value = 0xFF, fm_write_align = 1, fm_fail_at_op = 0, fm_torn_prefix = 0, fm_op_counter = 0 \<rparr>"

definition delta_build :: "flash_model build" where
  "delta_build = \<lparr> bd_wal = generated_wal_config, bd_chip = generated_chip_config\<lparr> cc_staging_addr := 16,
     cc_app_addr := 0, cc_app_size := 64 \<rparr>, bd_caps = None \<rparr>"

definition delta_platform :: "flash_model platform" where
  "delta_platform = sandbox_platform (geometry_port 128 16) (Pair 4)"

definition delta_txn :: wal_entry_payload where
  "delta_txn = (entry_of (zeroed 64))\<lparr> we_intent := WAL_INTENT_UPDATE_PENDING, we_delta_chunk_id := 16 \<rparr>"

lemma delta_platform_parts:
  "pf_flash delta_platform = Some (geometry_port 128 16)"
  "pf_crypto delta_platform = Some (sandbox_crypto_hal (Pair 4))" "\<exists>w. pf_wdt delta_platform = Some w"
  "wdt_kick delta_platform s = s"
  by (simp_all add: delta_platform_def sandbox_platform_def wdt_kick_def model_platform_def call_opt_def)

lemma zeroed_eight: "zeroed 8 = [0, 0, 0, 0, 0, 0, 0, 0]"
  by (simp add: zeroed_def numeral_eq_Suc)

lemma funpow_four: "(f ^^ 4) x = f (f (f (f x)))"
  by (simp add: numeral_eq_Suc)

lemma delta_random: "boot_random_safe delta_platform 4 m = (BOOT_OK, [4, 4, 4, 4], m)"
  by (simp add: boot_random_safe_def delta_platform_def sandbox_platform_def sandbox_crypto_hal_def
      sandbox_crypto_random_def funpow_four)

lemma delta_stream_length: "length crc = 4 \<Longrightarrow> length (delta_stream t crc) = 64"
  by (simp add: delta_stream_def)

lemma delta_reads:
  assumes "length crc = 4"
  shows "fh_read (geometry_port 128 16) 16 32 (delta_device (delta_stream t crc)) =
      (BOOT_OK, take 32 (delta_stream t crc), delta_device (delta_stream t crc))"
    "fh_read (geometry_port 128 16) 48 16 (delta_device (delta_stream t crc)) =
      (BOOT_OK, take 16 (drop 32 (delta_stream t crc)), delta_device (delta_stream t crc))"
    "fh_read (geometry_port 128 16) 64 16 (delta_device (delta_stream t crc)) =
      (BOOT_OK, drop 48 (delta_stream t crc), delta_device (delta_stream t crc))"
  using assms delta_stream_length [OF assms, of t]
  by (simp_all add: geometry_port_def model_read_def delta_device_def slice_of_def)

lemma delta_headers:
  "compute_boot_crc32 (take 28 (delta_stream 16 [25, 136, 247, 30])) = 0x1EF78819"
  "compute_boot_crc32 (take 28 (delta_stream 32 [94, 9, 74, 159])) = 0x9F4A095E"
  "compute_boot_crc32 [90, 90, 90, 90, 16, 0, 0, 0, 0, 0, 0, 0] = 0x02791DE0"
  "compute_boot_crc32 [15, 15, 15, 15, 0, 0, 0, 0, 0, 0, 0, 0] = 0xB40B3984"
  by (simp_all add: delta_stream_def zeroed_eight compute_boot_crc32_def crc32_byte_unroll crc32_bit_def
      TOOB_CRC32_INIT_def TOOB_CRC32_POLY_def TOOB_CRC32_FINAL_XOR_def)

text \<open>The machine of the demonstration: every instruction up to 16 bytes is replayed dry.\<close>

definition delta_demo_run :: "u32 \<Rightarrow> sdvm_run" where
  "delta_demo_run target = \<lparr> sr_dest_addr = 0, sr_base_addr = 0, sr_delta_addr = 16, sr_base_size = 0,
     sr_expected_target_size = target, sr_read_cap = 32 \<rparr>"

lemma delta_dry_replay:
  assumes "sv_target_off v = 0" "sv_flushed_off v = 16" "sv_write_pos v = 0"
  shows "produce_copy_or_zero b delta_platform fl c opcode 16 0 16 v = Some (BOOT_OK, v\<lparr> sv_target_off := 16 \<rparr>)"
  using assms by (simp add: produce_copy_or_zero.simps [where rem = 16] produce_copy_or_zero.simps [where rem = 0]
      sv_kick_def delta_platform_parts emit_flush_def)

lemma delta_demo_loop:
  assumes "length crc = 4" "sv_dev v = delta_device (delta_stream t crc)" "sv_target_off v = 0" "sv_flushed_off v = 16" "sv_write_pos v = 0"
    and "16 \<le> target"
  shows "tds_loop MAX_INSTRUCTIONS store_decoder b delta_platform (geometry_port 128 16) (delta_demo_run target) 64 2 0 32 64 v =
    Some (BOOT_OK, v\<lparr> sv_dev := delta_device (delta_stream t crc), sv_target_off := 16 \<rparr>)"
proof -
  have n: "MAX_INSTRUCTIONS = Suc (Suc 999998)" by (simp add: MAX_INSTRUCTIONS_def)
  have i: "fill_prefix (take 16 (drop 32 (delta_stream t crc))) (zeroed 16) = [90, 90, 90, 90, 16, 0, 0, 0, 0, 0, 0, 0, 224, 29, 121, 2]"
    "fill_prefix (drop 48 (delta_stream t crc)) (zeroed 16) = [15, 15, 15, 15, 0, 0, 0, 0, 0, 0, 0, 0, 132, 57, 11, 180]"
    using assms(1) by (simp_all add: delta_stream_def zeroed_eight fill_prefix_def)
  show ?thesis
    unfolding n tds_loop.simps(2)
    using assms leD [OF assms(6)]
    by (simp add: Let_def delta_reads i delta_headers delta_demo_run_def tds_execute_def delta_dry_replay rd32_def le32_def
        TOOB_TDS_OP_BZERO_def TOOB_TDS_OP_EOF_def TOOB_TDS_OP_COPY_BASE_def)
      (simp add: word_le_unat)
qed

text \<open>The whole run: complete if the header announces 16 bytes, truncated if it announces 32.\<close>

lemma delta_demo_apply:
  assumes "(t, crc, stat) \<in> {(16, [25, 136, 247, 30], BOOT_OK), (32, [94, 9, 74, 159], BOOT_ERR_VERIFY)}"
  shows "boot_delta_apply store_decoder delta_build delta_platform 16 64 0 64 0 64 delta_txn (zeroed 1024) journal_reset
     (delta_device (delta_stream t crc)) =
     Some (stat, delta_txn, zeroed 1024, journal_reset, delta_device (delta_stream t crc))"
proof -
  have len: "length crc = 4" using assms by auto
  have h: "fill_prefix (take 32 (delta_stream t crc)) (zeroed 32) = take 32 (delta_stream t crc)"
    using delta_stream_length [OF len, of t] by (simp add: fill_prefix_def)
  let ?h = "tds_header_of (take 32 (delta_stream t crc))"
  have p: "td_expected_target_size ?h = ucast t" "td_base_size ?h = 0" "td_instr_count ?h = 2" "td_literal_block_offset ?h = 64"
    "td_magic ?h = TOOB_TDS_MAGIC"
    using assms by (auto simp: delta_stream_def zeroed_eight tds_header_of_def rd32_def le32_def TOOB_TDS_MAGIC_def)
  have sum: "td_header_crc32 ?h = compute_boot_crc32 (take 28 (delta_stream t crc))"
    using assms delta_headers by (auto simp: delta_stream_def zeroed_eight tds_header_of_def rd32_def le32_def)
  have t: "(ucast t :: u32) \<noteq> 0" "unat (ucast t :: u32) \<le> 64" using assms by auto
  have k: "tds_header_check (take 32 (delta_stream t crc)) 64 64 64 = BOOT_OK"
    using t by (simp add: tds_header_check_def Let_def p sum word_less_unat)
  let ?v = "\<lparr> sv_write_buf = zeroed 688, sv_write_pos = 0, sv_read_buf = zeroed 32, sv_hsd = [], sv_target_off = 0,
    sv_flushed_off = 0, sv_committed_off = 0, sv_checkpoint_off = 0, sv_erased_end = 0, sv_txn = delta_txn,
    sv_jn = journal_reset, sv_dev = delta_device (delta_stream t crc) \<rparr>"
  let ?cfi = "fold boot_cfi_add_expected [1, 2, 3] (boot_cfi_init (rd32 0 (fill_prefix [4, 4, 4, 4] (zeroed 4))))"
  have run: "\<exists>v. delta_run store_decoder delta_build delta_platform (geometry_port 128 16) (sandbox_crypto_hal (Pair 4))
      (delta_demo_run (ucast t)) ?h 64 ?cfi ?v = Some (stat, v) \<and> sv_txn v = delta_txn \<and> sv_jn v = journal_reset \<and>
      sv_dev v = delta_device (delta_stream t crc)"
  proof -
    have cp: "delta_checkpoint (ucast t) delta_txn = 16"
      using assms by (auto simp: delta_checkpoint_def delta_txn_def)
    have "resume_walk (geometry_port 128 16) 0 16 0 (delta_device (delta_stream t crc)) = Some (BOOT_OK, 16)"
      by (rule uniform_sectors.resume_walk_aligned [OF geometry_uniform]) simp_all
    then have res: "delta_resume delta_platform (geometry_port 128 16) (sandbox_crypto_hal (Pair 4)) (delta_demo_run (ucast t))
        fp 16 ?v = Some (BOOT_OK, ?v\<lparr> sv_flushed_off := 16, sv_committed_off := 16, sv_checkpoint_off := 16, sv_erased_end := 16 \<rparr>)" for fp
      by (simp add: delta_resume_def delta_demo_run_def)
    have loop: "tds_loop MAX_INSTRUCTIONS store_decoder delta_build delta_platform (geometry_port 128 16) (delta_demo_run (ucast t)) 64 2 0 32 64
        (?v\<lparr> sv_flushed_off := 16, sv_committed_off := 16, sv_checkpoint_off := 16, sv_erased_end := 16 \<rparr>) =
      Some (BOOT_OK, ?v\<lparr> sv_flushed_off := 16, sv_committed_off := 16, sv_checkpoint_off := 16, sv_erased_end := 16, sv_target_off := 16 \<rparr>)"
      using len assms by (subst delta_demo_loop [where t = t and crc = crc]) auto
    have fin: "delta_finish store_decoder delta_build delta_platform (geometry_port 128 16) (delta_demo_run (ucast t))
        (?v\<lparr> sv_flushed_off := 16, sv_committed_off := 16, sv_checkpoint_off := 16, sv_erased_end := 16, sv_target_off := 16 \<rparr>) =
      Some (stat, ?v\<lparr> sv_flushed_off := 16, sv_committed_off := 16, sv_checkpoint_off := 16, sv_erased_end := 16, sv_target_off := 16 \<rparr>)"
      using assms by (auto simp: delta_finish_def drain_decoder.simps sv_kick_def delta_platform_parts store_decoder_def delta_demo_run_def
          zeroed_def patch_def emit_flush_def)
    have cfi: "boot_cfi_require False (boot_cfi_step 3 (boot_cfi_step 2 (boot_cfi_step 1 ?cfi)))"
      by (simp add: boot_cfi_require_iff boot_cfi_step_def boot_cfi_add_expected_def boot_cfi_init_def ac_simps)
    have reset: "hs_reset store_decoder = []" by (simp add: store_decoder_def)
    have same: "delta_txn\<lparr> we_delta_chunk_id := 16 \<rparr> = delta_txn" by (simp add: delta_txn_def)
    show ?thesis
      using cfi loop fin by (simp add: delta_run_def p reset cp res same)
  qed
  have hs: "hs_sizeof store_decoder = 300" "hs_input_buffer_size store_decoder = 32" "hs_reset store_decoder = []"
    by (simp_all add: store_decoder_def)
  show ?thesis
    using run delta_platform_parts(3)
    by (auto simp: boot_delta_apply_def Let_def delta_platform_parts(1,2) delta_random delta_reads len h k p hs delta_demo_run_def)
qed

section \<open>Properties\<close>





end
