(* ===== verification/Hal_Frame.thy ===== *)
theory Hal_Frame
  imports Boot_Rstore Boot_Journal Boot_Verify
begin

text \<open>
  A property of the device that every HAL callback keeps is kept by the core's operations. The cloud commands
  instantiate it with \<open>the fuse counter is at least n\<close>: no path through the core turns the counter back.
\<close>

locale hal_frame =
  fixes p :: "'s platform" and fl :: "'s flash_hal" and c :: "'s crypto_hal" and I :: "'s \<Rightarrow> bool"
  assumes frame_parts [simp]: "pf_flash p = Some fl" "pf_crypto p = Some c"
    and flash_keeps: "I s \<Longrightarrow> I (snd (snd (fh_read fl a n s)))" "I s \<Longrightarrow> I (snd (fh_write fl a d s))"
      "I s \<Longrightarrow> I (snd (fh_erase_sector fl a s))"
    and wdt_keeps: "I s \<Longrightarrow> I (wdt_kick p s)" "I s \<Longrightarrow> I (wdt_suspend p s)" "I s \<Longrightarrow> I (wdt_resume p s)"
    and hash_keeps: "I s \<Longrightarrow> I (snd (snd (ch_hash_init c x s)))" "I s \<Longrightarrow> I (snd (snd (ch_hash_update c x d s)))"
      "I s \<Longrightarrow> I (snd (snd (snd (ch_hash_finish c x n s))))"
    and random_keeps: "I s \<Longrightarrow> ch_random c = Some f \<Longrightarrow> I (snd (snd (f n s)))"
    and counter_keeps: "I s \<Longrightarrow> ch_read_monotonic_counter c = Some g \<Longrightarrow> I (snd (snd (g s)))"
    and uid_keeps: "I s \<Longrightarrow> ch_read_chip_uid c = Some h \<Longrightarrow> I (snd (snd (snd (h n s))))"
    and pubkey_keeps: "I s \<Longrightarrow> ch_read_pubkey c = Some k \<Longrightarrow> I (snd (snd (k n i s)))"
    and verify_keeps: "I s \<Longrightarrow> ch_verify_signature c = Some v \<Longrightarrow> I (snd (v m sig key s))"
    and dslc_keeps: "I s \<Longrightarrow> ch_read_dslc c = Some q \<Longrightarrow> I (snd (snd (snd (q n s))))"
    and advance_keeps: "I s \<Longrightarrow> ch_advance_monotonic_counter c = Some adv \<Longrightarrow> I (snd (adv s))"
begin

lemmas hal_keeps = flash_keeps wdt_keeps hash_keeps random_keeps counter_keeps uid_keeps pubkey_keeps verify_keeps
  dslc_keeps advance_keeps

section \<open>Helpers and identity\<close>

lemma random_safe_keeps: "I s \<Longrightarrow> I (snd (snd (boot_random_safe p n s)))"
  by (simp add: boot_random_safe_def split_def hal_keeps split: option.split)

lemma counter_safe_keeps: "I s \<Longrightarrow> I (snd (snd (boot_read_monotonic_counter_safe p s)))"
  by (simp add: boot_read_monotonic_counter_safe_def split_def hal_keeps split: option.split)

lemma update_all_keeps: "I s \<Longrightarrow> I (snd (snd (hash_update_all c ds x s)))"
  by (induction ds arbitrary: x s) (simp_all add: split_def hal_keeps)

lemma device_id_keeps: "I s \<Longrightarrow> I (snd (snd (boot_derive_device_id p s)))"
  by (simp add: boot_derive_device_id_def boot_kdf_checked_def kdf_core_def Let_def split_def hal_keeps update_all_keeps
      split: option.split del: hash_update_all.simps)

section \<open>The record store\<close>

lemma rscan_loop_keeps: "I s \<Longrightarrow> I (snd (rstore_scan_loop p fl a sz off k b nd s))"
  by (induction k arbitrary: off b nd s) (simp_all add: Let_def split_def hal_keeps)

lemma rsmart_erase_keeps: "I s \<Longrightarrow> I (snd (rstore_smart_erase p fl a sz s))"
  by (simp add: rstore_smart_erase_def split_def hal_keeps rscan_loop_keeps del: rstore_scan_loop.simps)

lemma rread_slot_keeps: "I s \<Longrightarrow> I (snd (rstore_read_slot fl d i s))"
  by (simp add: rstore_read_slot_def split_def hal_keeps)

lemma rwrite_slot_keeps: "I s \<Longrightarrow> I (snd (rstore_write_slot p fl d i q e r s))"
  by (simp add: rstore_write_slot_def hal_keeps)

lemma rscan_keeps: "I s \<Longrightarrow> I (snd (rstore_scan p fl d is s))"
  by (induction "is" arbitrary: s) (simp_all add: split_def hal_keeps rread_slot_keeps)

lemma rheal_keeps: "I s \<Longrightarrow> I (rstore_heal p fl d xs q m s)"
  by (simp add: rstore_heal_def Let_def split_def hal_keeps rsmart_erase_keeps rwrite_slot_keeps split: option.split)

lemma rstore_read_keeps: "I s \<Longrightarrow> I (snd (snd (boot_rstore_read p d s)))"
  by (simp add: boot_rstore_read_def Let_def split_def rscan_keeps rheal_keeps split: option.split)

lemma rhighest_keeps: "I s \<Longrightarrow> I (snd (rstore_highest p fl d is b s))"
  by (induction "is" arbitrary: s b) (simp_all add: split_def hal_keeps rread_slot_keeps)

lemma rwrite_loop_keeps: "I s \<Longrightarrow> I (snd (rstore_write_loop p fl d r is q s))"
  by (induction "is" arbitrary: s q)
    (simp_all add: Let_def split_def hal_keeps rread_slot_keeps rsmart_erase_keeps rwrite_slot_keeps)

lemma rstore_write_keeps: "I s \<Longrightarrow> I (snd (boot_rstore_write p d r s))"
  by (simp add: boot_rstore_write_def Let_def split_def rhighest_keeps rwrite_loop_keeps)

section \<open>The journal's TMR update\<close>

lemma hash_chain_keeps: "I s \<Longrightarrow> I (snd (snd (hash_chain_compute c ds s)))"
  by (simp add: hash_chain_compute_def split_def hal_keeps update_all_keeps)

lemma read_header_keeps: "I s \<Longrightarrow> I (snd (read_header cfg fl i s))"
  by (simp add: read_header_def Let_def split_def hal_keeps)

lemma wear_loop_keeps: "I s \<Longrightarrow> I (snd (wear_loop cfg fl q ex is b m s))"
  by (induction "is" arbitrary: s b m) (auto simp: split_def read_header_keeps split: option.split)

lemma best_sector_keeps: "I s \<Longrightarrow> I (snd (get_best_wear_leveling_sector cfg fl q ex s))"
  by (simp add: get_best_wear_leveling_sector_def split_def wear_loop_keeps)

lemma smart_scan_keeps: "I s \<Longrightarrow> I (snd (smart_scan_loop p fl a sz off b nd s))"
proof (induction "sz - off" arbitrary: off b nd s rule: less_induct)
  case less
  let ?l = "if sz - off > 64 then 64 else sz - off"
  have d: "sz - (off + ?l) < sz - off" if "off < sz" using that by auto
  show ?case
    using less.prems less.hyps [OF d] by (subst smart_scan_loop.simps) (simp add: Let_def split_def hal_keeps)
qed

lemma wdt_guard_keeps: "I s \<Longrightarrow> I (wdt_guard wh_suspend_for_critical_section p big s)" "I s \<Longrightarrow> I (wdt_guard wh_resume p big s)"
  using wdt_keeps [of s] by (auto simp: wdt_guard_def wdt_kick_def wdt_suspend_def wdt_resume_def call_opt_def split: option.splits)

lemma smart_erase_keeps: "I s \<Longrightarrow> I (snd (smart_erase_sector cfg p fl i s))"
  by (simp add: smart_erase_sector_def Let_def split_def smart_scan_keeps wdt_guard_keeps hal_keeps)

lemma rotate_keeps: "I s \<Longrightarrow> I (snd (snd (rotate_to_sector cfg p fl i q t s)))"
  by (simp add: rotate_to_sector_def Let_def split_def read_header_keeps smart_erase_keeps hal_keeps)

lemma quorum_write_keeps: "I s \<Longrightarrow> I (snd (snd (snd (snd (quorum_write cfg p fl t k q i ex e s)))))"
  by (induction k arbitrary: q i ex e s) (simp_all add: split_def best_sector_keeps rotate_keeps)

lemma bind_epoch_keeps: "I s \<Longrightarrow> I (snd (bind_epoch p j t s))"
  by (simp add: bind_epoch_def Let_def split_def hash_chain_keeps counter_safe_keeps)

lemma update_tmr_keeps: "I s \<Longrightarrow> I (snd (snd (boot_journal_update_tmr cfg p j t s)))"
  by (auto simp: boot_journal_update_tmr_def active_magic_legacy_def Let_def split_def read_header_keeps bind_epoch_keeps
      quorum_write_keeps split: option.split)

end

end
