(* ===== verification/Boot_Cloud_Cmd.thy ===== *)
theory Boot_Cloud_Cmd
  imports Hal_Frame Boot_Config
begin

text \<open>
  Signed cloud commands (\<open>core/boot_cloud_cmd.c\<close>): decoding, device match, counter and freshness checks,
  the key delegated by the KDM store, the signature, the fuse counter and the rotation of the key. The
  generated CBOR decoder is the argument \<open>decode\<close>: the envelope and the number of bytes consumed, or
  \<open>None\<close> for an error. The layout constants are the record \<open>cloud_layout\<close>. Through a callback that is
  \<open>NULL\<close> the code calls unchecked, as it does \<open>the\<close> here.
\<close>

section \<open>Data\<close>

definition TOOB_CMD_NOP :: u8 where "TOOB_CMD_NOP = 0x00"
definition TOOB_CMD_ROTATE_KEY :: u8 where "TOOB_CMD_ROTATE_KEY = 0x04"
definition TOOB_CMD_MAX_BURN_STEPS :: u32 where "TOOB_CMD_MAX_BURN_STEPS = 4"

record cloud_envelope =
  ce_device_id :: "u8 list"
  ce_command :: u8
  ce_counter_min :: u32
  ce_issued_at :: u32
  ce_params :: "u8 list option"
  ce_signature_ed25519 :: "u8 list"

type_synonym cbor_decoder = "u8 list \<Rightarrow> (cloud_envelope \<times> nat) option"

record toob_kdm =
  kd_sequence_number :: u32
  kd_new_cloud_pubkey :: "u8 list"
  kd_signature_ed25519 :: "u8 list"

definition kdm_of :: "u8 list \<Rightarrow> toob_kdm" where
  "kdm_of b = \<lparr> kd_sequence_number = rd32 0 b, kd_new_cloud_pubkey = slice_of 4 32 b,
     kd_signature_ed25519 = slice_of 36 64 b \<rparr>"

record cloud_layout =
  cl_kdm_quorum_addr :: u32
  cl_max_sector_size :: u32
  cl_cmd_slot_addr :: u32
  cl_cmd_slot_size :: nat
  cl_arena_size :: nat

definition KDM_RSTORE_MAGIC :: u32 where "KDM_RSTORE_MAGIC = 0x4B444D51"

definition kdm_rstore_desc :: "cloud_layout \<Rightarrow> rstore_desc" where
  "kdm_rstore_desc cl = \<lparr> rs_slot_addrs = map (\<lambda>i. cl_kdm_quorum_addr cl + i * cl_max_sector_size cl) [0, 1, 2],
     rs_slot_sizes = replicate 3 (unat (cl_max_sector_size cl)), rs_slot_count = 3, rs_record_size = 128,
     rs_magic = KDM_RSTORE_MAGIC \<rparr>"

section \<open>The command key\<close>

text \<open>The fallback to fuse slot 1, for a part still in provisioning.\<close>

definition provisioning_key :: "'s crypto_hal \<Rightarrow> 's \<Rightarrow> boot_status \<times> u8 list \<times> u32 \<times> 's" where
  "provisioning_key c s =
     (case ch_read_dslc c of
        None \<Rightarrow> (BOOT_ERR_NOT_FOUND, zeroed 32, 0, s)
      | Some read_dslc \<Rightarrow>
          (case read_dslc 1 s of (st, d, _, s) \<Rightarrow>
             if st = BOOT_OK \<and> fill_prefix d (zeroed 1) ! 0 = 0x00 then
               (case the (ch_read_pubkey c) 32 1 s of (st, k, s) \<Rightarrow>
                  (if st = BOOT_OK then BOOT_OK else BOOT_ERR_NOT_FOUND, fill_prefix k (zeroed 32), 0, s))
             else (BOOT_ERR_NOT_FOUND, zeroed 32, 0, s)))"

definition load_active_cloud_key ::
  "cloud_layout \<Rightarrow> 's platform \<Rightarrow> 's \<Rightarrow> boot_status \<times> u8 list \<times> u32 \<times> 's" where
  "load_active_cloud_key cl p s =
     (case (pf_crypto p, pf_flash p) of
        (Some c, Some fl) \<Rightarrow>
          (case boot_rstore_read p (kdm_rstore_desc cl) s of (st, r, s) \<Rightarrow>
             case (if st = BOOT_OK then r else None) of
               None \<Rightarrow> provisioning_key c s
             | Some rec \<Rightarrow>
                 (case the (ch_read_pubkey c) 32 0 s of (st, d, s) \<Rightarrow>
                    let root_pubkey = fill_prefix d (zeroed 32)
                    in if st \<noteq> BOOT_OK then (BOOT_ERR_NOT_FOUND, zeroed 32, 0, s)
                       else if verify_not_all_zeros_glitch_safe root_pubkey \<noteq> BOOT_OK
                       then (BOOT_ERR_VERIFY, zeroed 32, 0, s)
                       else case the (ch_verify_signature c) (take 36 rec) (kd_signature_ed25519 (kdm_of rec)) root_pubkey s of
                         (sig_stat, s) \<Rightarrow>
                           if boot_secure_confirm sig_stat = BOOT_OK
                           then (BOOT_OK, kd_new_cloud_pubkey (kdm_of rec), kd_sequence_number (kdm_of rec), s)
                           else provisioning_key c s))
      | _ \<Rightarrow> (BOOT_ERR_INVALID_ARG, zeroed 32, 0, s))"

section \<open>The command\<close>

definition cmd_cfi :: "'s platform \<Rightarrow> 's \<Rightarrow> boot_cfi_ctx \<times> 's" where
  "cmd_cfi p s = verify_cfi p s"

fun burn_counter :: "('s \<Rightarrow> boot_status \<times> 's) \<Rightarrow> nat \<Rightarrow> 's \<Rightarrow> bool \<times> 's" where
  "burn_counter advance 0 s = (True, s)"
| "burn_counter advance (Suc n) s =
     (case advance s of (burn_stat, s) \<Rightarrow>
        if boot_secure_confirm burn_stat \<noteq> BOOT_OK then (False, s) else burn_counter advance n s)"

definition rotate_key :: "cloud_layout \<Rightarrow> 's platform \<Rightarrow> 's crypto_hal \<Rightarrow> cloud_envelope \<Rightarrow> 's \<Rightarrow> boot_status \<times> 's" where
  "rotate_key cl p c d s =
     (case ce_params d of
        None \<Rightarrow> (BOOT_ERR_INVALID_ARG, s)
      | Some params \<Rightarrow>
          if length params \<noteq> 128 then (BOOT_ERR_INVALID_ARG, s)
          else case the (ch_read_pubkey c) 32 0 s of (st, k, s) \<Rightarrow>
            if st \<noteq> BOOT_OK then (BOOT_ERR_NOT_FOUND, s)
            else case the (ch_verify_signature c) (take 36 params) (kd_signature_ed25519 (kdm_of params))
                        (fill_prefix k (zeroed 32)) s of (kdm_sig, s) \<Rightarrow>
              if boot_secure_confirm kdm_sig \<noteq> BOOT_OK then (BOOT_ERR_VERIFY, s)
              else case boot_rstore_read p (kdm_rstore_desc cl) s of (st, r, s) \<Rightarrow>
                let current_kdm_seq = (case (if st = BOOT_OK then r else None) of None \<Rightarrow> 0 | Some rec \<Rightarrow> kd_sequence_number (kdm_of rec))
                in if kd_sequence_number (kdm_of params) \<le> current_kdm_seq then (BOOT_ERR_DOWNGRADE, s)
                   else boot_rstore_write p (kdm_rstore_desc cl) params s)"

definition persist_issued_at ::
  "wal_config \<Rightarrow> 's platform \<Rightarrow> u32 \<Rightarrow> journal_state \<Rightarrow> 's \<Rightarrow> journal_state \<times> 's" where
  "persist_issued_at cfg p issued_at j s =
     (case boot_journal_get_tmr j of
        (BOOT_OK, Some t) \<Rightarrow>
          (case boot_journal_update_tmr cfg p j
                  (t\<lparr> tm_last_accepted_issued_at := issued_at, tm_struct_version := WAL_TMR_VERSION_CURRENT,
                      tm_populated_size := WAL_TMR_POPULATED_SIZE \<rparr>) s of (_, j, s) \<Rightarrow> (j, s))
      | _ \<Rightarrow> (j, s))"

definition CLOUD_CMD_SIG_CBOR_SIZE :: nat where "CLOUD_CMD_SIG_CBOR_SIZE = 2 + 2 + 64"

text \<open>From the key on; \<open>current_counter\<close> is the counter that was read.\<close>

definition cmd_execute ::
  "wal_config \<Rightarrow> cloud_layout \<Rightarrow> 's platform \<Rightarrow> 's crypto_hal \<Rightarrow> ('s \<Rightarrow> boot_status \<times> 's) \<Rightarrow> u8 list \<Rightarrow>
     cloud_envelope \<Rightarrow> nat \<Rightarrow> u32 \<Rightarrow> boot_cfi_ctx \<Rightarrow> journal_state \<Rightarrow> 's \<Rightarrow>
     boot_status \<times> u8 option \<times> journal_state \<times> 's" where
  "cmd_execute cfg cl p c advance buf d decoded_len current_counter ctx j s =
     (case load_active_cloud_key cl p s of (st, cloud_pubkey, kdm_seq, s) \<Rightarrow>
        if st \<noteq> BOOT_OK then (BOOT_ERR_NOT_FOUND, None, j, s)
        else if decoded_len \<le> CLOUD_CMD_SIG_CBOR_SIZE then (BOOT_ERR_INVALID_ARG, None, j, s)
        else case the (ch_verify_signature c) (take (decoded_len - CLOUD_CMD_SIG_CBOR_SIZE) buf)
                    (ce_signature_ed25519 d) cloud_pubkey (wdt_kick p s) of (sig_stat, s) \<Rightarrow>
          let s = wdt_kick p s
          in if boot_secure_confirm sig_stat \<noteq> BOOT_OK then (BOOT_ERR_VERIFY, None, j, s)
             else
               let ctx = boot_cfi_step 4 ctx; burns_needed = ce_counter_min d - current_counter
               in if burns_needed > TOOB_CMD_MAX_BURN_STEPS then (BOOT_ERR_INVALID_ARG, None, j, s)
                  else case burn_counter advance (unat burns_needed) s of (ok, s) \<Rightarrow>
                    if \<not> ok then (BOOT_ERR_FLASH_HW, None, j, s)
                    else if \<not> boot_cfi_require False ctx then (BOOT_ERR_VERIFY, None, j, s)
                    else case (if ce_command d = TOOB_CMD_ROTATE_KEY then rotate_key cl p c d s else (BOOT_OK, s)) of
                      (st, s) \<Rightarrow>
                        if st \<noteq> BOOT_OK then (st, None, j, s)
                        else case persist_issued_at cfg p (ce_issued_at d) j s of
                          (j, s) \<Rightarrow> (BOOT_OK, Some (ce_command d), j, s))"

definition boot_cloud_cmd_evaluate_buffer ::
  "wal_config \<Rightarrow> cloud_layout \<Rightarrow> cbor_decoder \<Rightarrow> 's platform \<Rightarrow> u8 list \<Rightarrow> journal_state \<Rightarrow> 's \<Rightarrow>
     boot_status \<times> u8 option \<times> journal_state \<times> 's" where
  "boot_cloud_cmd_evaluate_buffer cfg cl decode p buf j s =
     (case cmd_cfi p s of (ctx, s) \<Rightarrow>
        case pf_crypto p of
          None \<Rightarrow> (BOOT_ERR_INVALID_ARG, None, j, s)
        | Some c \<Rightarrow>
            (case decode buf of
               None \<Rightarrow> (BOOT_ERR_INVALID_ARG, None, j, s)
             | Some (d, decoded_len) \<Rightarrow>
                 (case boot_derive_device_id p s of (st, local_id, s) \<Rightarrow>
                    if st \<noteq> BOOT_OK then (BOOT_ERR_VERIFY, None, j, s)
                    else if boot_secure_confirm (constant_time_memcmp_glitch_safe (ce_device_id d) local_id 32) \<noteq> BOOT_OK
                    then (BOOT_ERR_VERIFY, None, j, s)
                    else case ch_advance_monotonic_counter c of
                      None \<Rightarrow> (BOOT_ERR_NOT_SUPPORTED, None, j, s)
                    | Some advance \<Rightarrow>
                        (case boot_read_monotonic_counter_safe p s of (cnt_stat, v, s) \<Rightarrow>
                           if cnt_stat \<noteq> BOOT_OK then (cnt_stat, None, j, s)
                           else
                             let current_counter = (case v of None \<Rightarrow> 0 | Some v \<Rightarrow> v)
                             in if \<not> secure_require (ce_counter_min d > current_counter)
                                then (BOOT_ERR_DOWNGRADE, None, j, s)
                                else
                                  let last_accepted = (case boot_journal_get_tmr j of
                                        (BOOT_OK, Some t) \<Rightarrow> tm_last_accepted_issued_at t | _ \<Rightarrow> 0)
                                  in if \<not> secure_require (ce_issued_at d > last_accepted)
                                     then (BOOT_ERR_CMD_REPLAY, None, j, s)
                                     else cmd_execute cfg cl p c advance buf d decoded_len current_counter
                                            (boot_cfi_step 3 (boot_cfi_step 2 (boot_cfi_step 1 ctx))) j s))))"

text \<open>The command of the flash slot; the arena comes back zeroized from every path.\<close>

definition boot_cloud_cmd_evaluate_flash ::
  "wal_config \<Rightarrow> cloud_layout \<Rightarrow> cbor_decoder \<Rightarrow> 's platform \<Rightarrow> journal_state \<Rightarrow> 's \<Rightarrow>
     boot_status \<times> u8 option \<times> journal_state \<times> 's" where
  "boot_cloud_cmd_evaluate_flash cfg cl decode p j s =
     (case pf_flash p of
        None \<Rightarrow> (BOOT_ERR_INVALID_ARG, None, j, s)
      | Some fl \<Rightarrow>
          let max_read = (if cl_arena_size cl > cl_cmd_slot_size cl then cl_cmd_slot_size cl else cl_arena_size cl)
          in case fh_read fl (cl_cmd_slot_addr cl) max_read s of (st, d, s) \<Rightarrow>
               if st \<noteq> BOOT_OK then (st, None, j, s)
               else
                 let work_zone_offset = (max_read + 7) div 8 * 8
                 in if work_zone_offset + 256 > cl_arena_size cl then (BOOT_ERR_INVALID_ARG, None, j, s)
                    else boot_cloud_cmd_evaluate_buffer cfg cl decode p (fill_prefix d (zeroed max_read)) j s)"

section \<open>What the command code keeps\<close>

context hal_frame
begin

lemma the_pubkey_keeps: "I s \<Longrightarrow> ch_read_pubkey c \<noteq> None \<Longrightarrow> I (snd (snd (the (ch_read_pubkey c) n i s)))"
  using pubkey_keeps by auto

lemma the_verify_keeps: "I s \<Longrightarrow> ch_verify_signature c \<noteq> None \<Longrightarrow> I (snd (the (ch_verify_signature c) m sig key s))"
  using verify_keeps by auto

lemma provisioning_keeps: "I s \<Longrightarrow> ch_read_pubkey c \<noteq> None \<Longrightarrow> I (snd (snd (snd (provisioning_key c s))))"
  by (simp add: provisioning_key_def split_def hal_keeps the_pubkey_keeps split: option.split)

lemma load_key_keeps:
  assumes "I s" and "ch_read_pubkey c \<noteq> None" and "ch_verify_signature c \<noteq> None"
  shows "I (snd (snd (snd (load_active_cloud_key cl p s))))"
  using assms by (simp add: load_active_cloud_key_def Let_def split_def rstore_read_keeps the_pubkey_keeps the_verify_keeps
      provisioning_keeps split: option.split)

lemma rotate_key_keeps:
  assumes "I s" and "ch_read_pubkey c \<noteq> None" and "ch_verify_signature c \<noteq> None"
  shows "I (snd (rotate_key cl p c d s))"
  using assms by (simp add: rotate_key_def Let_def split_def rstore_read_keeps rstore_write_keeps the_pubkey_keeps the_verify_keeps
      split: option.split)

lemma persist_keeps: "I s \<Longrightarrow> I (snd (persist_issued_at cfg p t j s))"
  by (simp add: persist_issued_at_def boot_journal_get_tmr_def split_def update_tmr_keeps)

end

section \<open>The fuse counter\<close>

text \<open>
  A counter in fuses: \<open>C\<close> is what is burnt. No callback turns it back, a successful read returns it and a
  successful advance burns at least one more.
\<close>

locale fuse_counter =
  fixes p :: "'s platform" and fl :: "'s flash_hal" and c :: "'s crypto_hal" and rd adv and C :: "'s \<Rightarrow> nat"
  assumes never_back: "hal_frame p fl c (\<lambda>s. n \<le> C s)"
    and callbacks: "ch_read_pubkey c \<noteq> None" "ch_verify_signature c \<noteq> None"
    and counter_part: "ch_read_monotonic_counter c = Some rd" "ch_advance_monotonic_counter c = Some adv"
    and read_value: "rd s = (BOOT_OK, v, s') \<Longrightarrow> unat v = C s"
    and advances: "adv s = (BOOT_OK, s') \<Longrightarrow> C s < C s'"
begin

lemma parts: "pf_flash p = Some fl" "pf_crypto p = Some c"
  using hal_frame.frame_parts [OF never_back] by auto

lemma burns: "burn_counter adv n s = (True, s') \<Longrightarrow> C s + n \<le> C s'"
proof (induction n arbitrary: s)
  case (Suc n)
  obtain st s1 where a: "adv s = (st, s1)" by fastforce
  then show ?case using Suc advances by (fastforce split: if_splits)
qed simp

lemma safe_read:
  assumes "boot_read_monotonic_counter_safe p s = (BOOT_OK, v, s')"
  shows "\<exists>x. v = Some x \<and> C s \<le> unat x \<and> unat x \<le> C s'"
proof -
  obtain st1 v1 s1 where 1: "rd s = (st1, v1, s1)" by (metis prod_cases3)
  obtain st2 v2 s2 where 2: "rd s1 = (st2, v2, s2)" by (metis prod_cases3)
  have "C s1 \<le> C s2" using hal_frame.counter_keeps [OF never_back order_refl counter_part(1), of s1] 2 by simp
  then show ?thesis
    using assms 1 2 counter_part(1) parts(2) read_value [of s v1 s1] read_value [of s1 v2 s2]
    by (auto simp: boot_read_monotonic_counter_safe_def split: if_splits)
qed

lemma executed:
  assumes "cmd_execute cfg cl p c adv buf d n current ctx j s = (BOOT_OK, cmd, j', s')" and "current < ce_counter_min d"
  shows "cmd = Some (ce_command d) \<and> C s + (unat (ce_counter_min d) - unat current) \<le> C s'"
proof -
  obtain st key q s1 where k: "load_active_cloud_key cl p s = (st, key, q, s1)" by (metis prod_cases4)
  have 1: "C s \<le> C s1" using hal_frame.load_key_keeps [OF never_back order_refl callbacks, of s cl] k by simp
  let ?m = "take (n - CLOUD_CMD_SIG_CBOR_SIZE) buf"
  obtain sg s2 where v: "the (ch_verify_signature c) ?m (ce_signature_ed25519 d) key (wdt_kick p s1) = (sg, s2)" by fastforce
  have 2: "C s1 \<le> C (wdt_kick p s2)"
    using hal_frame.wdt_keeps(1) [OF never_back order_refl, of s1] hal_frame.the_verify_keeps [OF never_back _ callbacks(2)] v
      hal_frame.wdt_keeps(1) [OF never_back] by (metis snd_conv)
  obtain ok s3 where b: "burn_counter adv (unat (ce_counter_min d - current)) (wdt_kick p s2) = (ok, s3)" by fastforce
  obtain st4 s4 where r: "(if ce_command d = TOOB_CMD_ROTATE_KEY then rotate_key cl p c d s3 else (BOOT_OK, s3)) = (st4, s4)" by fastforce
  have 4: "C s3 \<le> C s4"
    using hal_frame.rotate_key_keeps [OF never_back order_refl callbacks, of s3 cl d] r by (auto split: if_splits)
  obtain j5 s5 where w: "persist_issued_at cfg p (ce_issued_at d) j s4 = (j5, s5)" by fastforce
  have 5: "C s4 \<le> C s5" using hal_frame.persist_keeps [OF never_back order_refl, of s4 cfg "ce_issued_at d" j] w by simp
  have "ok" "cmd = Some (ce_command d)" "s' = s5"
    using assms(1) k v b r w by (auto simp: cmd_execute_def Let_def split: if_splits)
  moreover have "unat (ce_counter_min d - current) = unat (ce_counter_min d) - unat current"
    using assms(2) by (simp add: unat_sub_no_wrap word_less_nat_alt)
  ultimately show ?thesis using burns [of _ "wdt_kick p s2" s3] b 1 2 4 5 by fastforce
qed

text \<open>The gate up to the counter check.\<close>

lemma evaluated:
  assumes "boot_cloud_cmd_evaluate_buffer cfg cl decode p buf j s = (BOOT_OK, cmd, j', s')"
  shows "\<exists>d n. decode buf = Some (d, n) \<and> cmd = Some (ce_command d) \<and> C s < unat (ce_counter_min d) \<and>
    unat (ce_counter_min d) \<le> C s'"
proof -
  obtain ctx s1 where q: "cmd_cfi p s = (ctx, s1)" by fastforce
  have 1: "C s \<le> C s1" using hal_frame.random_safe_keeps [OF never_back order_refl, of s 4] q
    by (auto simp: cmd_cfi_def verify_cfi_def split: prod.splits)
  obtain d n where d: "decode buf = Some (d, n)"
    using assms q parts by (cases "decode buf") (auto simp: boot_cloud_cmd_evaluate_buffer_def)
  obtain st2 lid s2 where i: "boot_derive_device_id p s1 = (st2, lid, s2)" by (metis prod_cases3)
  have 2: "C s1 \<le> C s2" using hal_frame.device_id_keeps [OF never_back order_refl, of s1] i by simp
  obtain st3 v s3 where r: "boot_read_monotonic_counter_safe p s2 = (st3, v, s3)" by (metis prod_cases3)
  have st3: "st3 = BOOT_OK"
    using assms q d i r parts counter_part by (auto simp: boot_cloud_cmd_evaluate_buffer_def Let_def split: if_splits)
  obtain x where x: "v = Some x" "C s2 \<le> unat x" "unat x \<le> C s3" using safe_read r st3 by blast
  have run: "x < ce_counter_min d"
    "cmd_execute cfg cl p c adv buf d n x (boot_cfi_step 3 (boot_cfi_step 2 (boot_cfi_step 1 ctx))) j s3 = (BOOT_OK, cmd, j', s')"
    using assms q d i r x(1) parts counter_part
    by (auto simp: boot_cloud_cmd_evaluate_buffer_def Let_def split: if_splits)
  from executed [OF run(2,1)] show ?thesis
    using d 1 2 x run(1) by (auto simp: word_less_nat_alt)
qed

lemma no_replay:
  assumes "boot_cloud_cmd_evaluate_buffer cfg cl decode p buf j s = (BOOT_OK, cmd, j', s')" and "C s' \<le> C u"
  shows "fst (boot_cloud_cmd_evaluate_buffer cfg2 cl2 decode p buf j2 u) \<noteq> BOOT_OK"
proof
  assume "fst (boot_cloud_cmd_evaluate_buffer cfg2 cl2 decode p buf j2 u) = BOOT_OK"
  then obtain cmd2 j3 u2 where "boot_cloud_cmd_evaluate_buffer cfg2 cl2 decode p buf j2 u = (BOOT_OK, cmd2, j3, u2)"
    by (metis fst_conv prod_cases4)
  from evaluated [OF this] evaluated [OF assms(1)] assms(2) show False by auto
qed

end

section \<open>A part\<close>

text \<open>A part whose state is its fuse counter; it has no flash and is still in provisioning.\<close>

definition fuse_flash :: "nat flash_hal" where
  "fuse_flash = \<lparr> fh_read = (\<lambda>_ _ s. (BOOT_ERR_FLASH_HW, [], s)), fh_write = (\<lambda>_ _ s. (BOOT_ERR_FLASH_HW, s)),
     fh_erase_sector = (\<lambda>_ s. (BOOT_ERR_FLASH_HW, s)), fh_get_sector_size = (\<lambda>_ _. (BOOT_ERR_FLASH_HW, 0)),
     fh_max_sector_size = 0, fh_total_size = 0, fh_max_erase_cycles = 0, fh_write_align = 1, fh_erased_value = 0xFF,
     fh_erase_time_us_max = 0, fh_write_time_us_page = 0, fh_get_supply_mv = None \<rparr>"

definition fuse_read :: "nat \<Rightarrow> boot_status \<times> u32 \<times> nat" where
  "fuse_read s = (if s < 2 ^ 32 then BOOT_OK else BOOT_ERR_CRYPTO, of_nat s, s)"

definition fuse_advance :: "nat \<Rightarrow> boot_status \<times> nat" where
  "fuse_advance s = (BOOT_OK, Suc s)"

definition fuse_crypto :: "nat crypto_hal" where
  "fuse_crypto = (sandbox_crypto_hal (Pair 4))\<lparr> ch_read_monotonic_counter := Some fuse_read,
     ch_advance_monotonic_counter := Some fuse_advance \<rparr>"

definition fuse_platform :: "nat platform" where
  "fuse_platform = \<lparr> pf_flash = Some fuse_flash, pf_crypto = Some fuse_crypto, pf_clock = None, pf_wdt = None,
     pf_console = None, pf_soc = None, pf_confirm = None, pf_slot_caps = None \<rparr>"

lemma sandbox_random_snd: "snd (snd (sandbox_crypto_random (Pair 4) n s)) = s"
proof -
  have "snd (((\<lambda>(bs, s). (bs @ [4 :: u8], s)) ^^ n) (bs, s)) = s" for bs
    by (induction n) (auto split: prod.splits)
  then show ?thesis by (simp add: sandbox_crypto_random_def Let_def)
qed

interpretation fuses: fuse_counter fuse_platform fuse_flash fuse_crypto fuse_read fuse_advance "\<lambda>s. s"
proof unfold_locales
  fix n i k st v s' and s :: nat
  show "fuse_read s = (BOOT_OK, v, s') \<Longrightarrow> unat v = s"
    by (auto simp: fuse_read_def unat_of_nat split: if_splits)
  fix f
  show "ch_random fuse_crypto = Some f \<Longrightarrow> n \<le> s \<Longrightarrow> n \<le> snd (snd (f i s))"
    by (auto simp: fuse_crypto_def sandbox_crypto_hal_def sandbox_random_snd)
qed (auto simp: fuse_platform_def fuse_flash_def fuse_crypto_def fuse_read_def fuse_advance_def sandbox_crypto_hal_def
    wdt_kick_def wdt_suspend_def wdt_resume_def sandbox_crypto_hash_init_def sandbox_crypto_hash_update_def
    sandbox_crypto_hash_finish_def sandbox_crypto_read_chip_uid_def sandbox_crypto_read_pubkey_def
    sandbox_crypto_verify_signature_def sandbox_crypto_read_dslc_def)

text \<open>A command for it, asking for counter 7, whatever the bytes.\<close>

definition fuse_command :: cloud_envelope where
  "fuse_command = \<lparr> ce_device_id = zeroed 32, ce_command = 1, ce_counter_min = 7, ce_issued_at = 9, ce_params = None,
     ce_signature_ed25519 = zeroed 64 \<rparr>"

definition fuse_layout :: cloud_layout where
  "fuse_layout = \<lparr> cl_kdm_quorum_addr = 0, cl_max_sector_size = 4096, cl_cmd_slot_addr = 16384, cl_cmd_slot_size = 4096,
     cl_arena_size = 2048 \<rparr>"

lemma fuse_accepts:
  "boot_cloud_cmd_evaluate_buffer generated_wal_config fuse_layout (\<lambda>_. Some (fuse_command, 100)) fuse_platform [] journal_reset 5 =
     (BOOT_OK, Some 1, journal_reset, 7)"
proof -
  obtain ctx where q: "cmd_cfi fuse_platform 5 = (ctx, 5)"
    by (simp add: cmd_cfi_def verify_cfi_def boot_random_safe_def fuse_platform_def fuse_crypto_def sandbox_crypto_hal_def
        split_def sandbox_random_snd)
  have cfi: "boot_cfi_require False (boot_cfi_step 4 (boot_cfi_step 3 (boot_cfi_step 2 (boot_cfi_step 1 ctx))))"
    using q by (auto simp: cmd_cfi_def verify_cfi_def boot_cfi_require_iff boot_cfi_step_def boot_cfi_add_expected_def
        boot_cfi_init_def ac_simps split: prod.splits)
  have id: "boot_derive_device_id fuse_platform 5 = (BOOT_OK, zeroed 32, 5)"
    by (simp add: boot_derive_device_id_def boot_kdf_checked_def fuse_platform_def fuse_crypto_def sandbox_crypto_hal_def
        sandbox_crypto_get_hash_ctx_size_def BOOT_MERKLE_MAX_CTX_SIZE_def kdf_core_def sandbox_crypto_read_chip_uid_def
        sandbox_crypto_read_pubkey_def sandbox_crypto_hash_init_def sandbox_crypto_hash_update_def
        sandbox_crypto_hash_finish_def Let_def fill_prefix_def zeroed_def)
  have same: "constant_time_memcmp_glitch_safe (zeroed 32) (zeroed 32) 32 = BOOT_OK"
    using memcmp_iff [of 32 "zeroed 32" "zeroed 32"] by simp
  have key: "load_active_cloud_key fuse_layout fuse_platform 5 = (BOOT_OK, zeroed 32, 0, 5)"
    by (simp add: load_active_cloud_key_def boot_rstore_read_def rstore_args_ok_def fuse_platform_def provisioning_key_def
        fuse_crypto_def sandbox_crypto_hal_def sandbox_crypto_read_dslc_def sandbox_crypto_read_pubkey_def fill_prefix_def
        zeroed_def)
  have rd: "boot_read_monotonic_counter_safe fuse_platform 5 = (BOOT_OK, Some 5, 5)"
    by (simp add: boot_read_monotonic_counter_safe_def fuse_platform_def fuse_crypto_def fuse_read_def)
  have burnt: "burn_counter fuse_advance 2 5 = (True, 7)" by (simp add: numeral_2_eq_2 fuse_advance_def)
  have vs: "the (ch_verify_signature fuse_crypto) m g k x = (BOOT_OK, x)" for m g k x
    by (simp add: fuse_crypto_def sandbox_crypto_hal_def sandbox_crypto_verify_signature_def)
  have wk: "wdt_kick fuse_platform x = x" for x by (simp add: wdt_kick_def fuse_platform_def)
  have jn: "boot_journal_get_tmr journal_reset = (BOOT_ERR_STATE, None)" by (simp add: boot_journal_get_tmr_def journal_reset_def)
  have d: "ce_command fuse_command = 1" "ce_counter_min fuse_command = 7" "ce_issued_at fuse_command = 9"
      "ce_device_id fuse_command = zeroed 32"
    by (simp_all add: fuse_command_def)
  have two: "unat (7 - 5 :: u32) = 2" by simp
  have ex: "cmd_execute generated_wal_config fuse_layout fuse_platform fuse_crypto fuse_advance [] fuse_command 100 5
      (boot_cfi_step 3 (boot_cfi_step 2 (boot_cfi_step 1 ctx))) journal_reset 5 = (BOOT_OK, Some 1, journal_reset, 7)"
    by (simp add: cmd_execute_def d key vs wk burnt cfi jn CLOUD_CMD_SIG_CBOR_SIZE_def Let_def TOOB_CMD_MAX_BURN_STEPS_def
        TOOB_CMD_ROTATE_KEY_def persist_issued_at_def)
  show ?thesis
    by (simp add: boot_cloud_cmd_evaluate_buffer_def Let_def q id same rd ex d jn fuses.parts fuses.counter_part)
qed

section \<open>Properties\<close>

text \<open>
  C30. A cloud command cannot be replayed. When \<open>boot_cloud_cmd_evaluate_buffer\<close> accepts a buffer, the
  counter the command asks for lay above the fuses before and is burnt afterwards; from then on, whatever
  happens to the device, its flash, its journal or its configuration, as long as the fuses do not turn back,
  the same buffer is never accepted again.
\<close>

theorem cloud_cmd_no_replay:
  assumes "fuse_counter p fl c rd adv C"
    and "boot_cloud_cmd_evaluate_buffer cfg cl decode p buf j s = (BOOT_OK, cmd, j', s')"
  shows "(\<exists>d n. decode buf = Some (d, n) \<and> cmd = Some (ce_command d) \<and> C s < unat (ce_counter_min d) \<and>
      unat (ce_counter_min d) \<le> C s') \<and>
    (\<forall>cfg' cl' k u. C s' \<le> C u \<longrightarrow> fst (boot_cloud_cmd_evaluate_buffer cfg' cl' decode p buf k u) \<noteq> BOOT_OK)"
  using fuse_counter.evaluated [OF assms] fuse_counter.no_replay [OF assms] by blast

lemma cloud_cmd_no_replay_witness:
  "fst (boot_cloud_cmd_evaluate_buffer generated_wal_config fuse_layout (\<lambda>_. Some (fuse_command, 100)) fuse_platform []
     journal_reset 9) \<noteq> BOOT_OK"
  using cloud_cmd_no_replay [OF fuses.fuse_counter_axioms fuse_accepts] by (auto dest!: spec [of _ "9::nat"])

text \<open>
  C32. The command slot in flash is dead. Unless the arena is 256 bytes larger than the slot,
  \<open>boot_cloud_cmd_evaluate_flash\<close> never accepts a command: it reads as much as the arena holds and then
  finds no room for its work zone behind it. The slot the layout allocates is a whole erase sector.
\<close>

theorem cloud_cmd_flash_path_dead:
  assumes "cl_arena_size cl < cl_cmd_slot_size cl + 256"
  shows "\<exists>st s'. boot_cloud_cmd_evaluate_flash cfg cl decode p j s = (st, None, j, s') \<and> st \<noteq> BOOT_OK"
proof -
  let ?m = "if cl_arena_size cl > cl_cmd_slot_size cl then cl_cmd_slot_size cl else cl_arena_size cl"
  have "cl_arena_size cl < (?m + 7) div 8 * 8 + 256" using assms by auto
  then show ?thesis by (auto simp: boot_cloud_cmd_evaluate_flash_def Let_def split: option.split prod.split)
qed

lemma cloud_cmd_flash_path_dead_witness:
  "fst (boot_cloud_cmd_evaluate_flash generated_wal_config fuse_layout (\<lambda>_. Some (fuse_command, 100)) fuse_platform journal_reset 5) \<noteq> BOOT_OK"
  using cloud_cmd_flash_path_dead [of fuse_layout generated_wal_config "\<lambda>_. Some (fuse_command, 100)" fuse_platform journal_reset 5]
  by (auto simp: fuse_layout_def)

end
