(* ===== verification/Boot_Diag.thy ===== *)
theory Boot_Diag
  imports Toob_Os
begin

text \<open>
  Boot diagnostics: the record in retained RAM (\<open>sdk/libtoob/include/libtoob_types.h\<close>), the setters and
  the seal of the boot core (\<open>core/utils/boot_diag.c\<close>), and the reader of the OS library
  (\<open>sdk/libtoob/toob_diag.c\<close>). The CBOR export behind the reader is generated code and not modelled.
\<close>

record toob_ext_health =
  eh_wal_erase_count :: u32
  eh_app_slot_erase_count :: u32
  eh_staging_slot_erase_count :: u32
  eh_swap_buffer_erase_count :: u32

record toob_boot_diag =
  dg_struct_version :: u32
  dg_boot_duration_ms :: u32
  dg_verify_time_ms :: u32
  dg_last_error_code :: u32
  dg_vendor_error :: u32
  dg_hardware_fault_record :: u32
  dg_active_key_index :: u32
  dg_current_svn :: u32
  dg_build_number :: u32
  dg_edge_recovery_events :: u32
  dg_wdt_kicks :: u32
  dg_fw_ver_major :: u16
  dg_fw_ver_minor :: u16
  dg_fw_ver_patch :: u16
  dg_fallback_occurred :: u8
  dg_last_update_outcome :: u8
  dg_installed_app_svn :: u32
  dg_installed_stage1_svn :: u32
  dg_reader_major :: u16
  dg_reader_minor :: u16
  dg_monotonic_counter :: u32
  dg_last_update_reject :: u8
  dg_padding_v3 :: "u8 list"
  dg_boot_session_id :: u32
  dg_sbom_digest :: "u8 list"
  dg_ext_health_present :: u8
  dg_padding :: "u8 list"
  dg_ext_health :: toob_ext_health
  dg_crc32_trailer :: u32
  dg_padding_end :: "u8 list"

definition TOOB_DIAG_STRUCT_VERSION :: u32 where "TOOB_DIAG_STRUCT_VERSION = 0x03000000"

text \<open>The bytes under the checksum, up to \<open>crc32_trailer\<close>.\<close>

definition diag_payload :: "toob_boot_diag \<Rightarrow> u8 list" where
  "diag_payload d =
     concat (map to_le32 [dg_struct_version d, dg_boot_duration_ms d, dg_verify_time_ms d, dg_last_error_code d,
       dg_vendor_error d, dg_hardware_fault_record d, dg_active_key_index d, dg_current_svn d, dg_build_number d,
       dg_edge_recovery_events d, dg_wdt_kicks d]) @
     to_le16 (dg_fw_ver_major d) @ to_le16 (dg_fw_ver_minor d) @ to_le16 (dg_fw_ver_patch d) @
     [dg_fallback_occurred d, dg_last_update_outcome d] @
     to_le32 (dg_installed_app_svn d) @ to_le32 (dg_installed_stage1_svn d) @
     to_le16 (dg_reader_major d) @ to_le16 (dg_reader_minor d) @ to_le32 (dg_monotonic_counter d) @
     [dg_last_update_reject d] @ dg_padding_v3 d @ to_le32 (dg_boot_session_id d) @ dg_sbom_digest d @
     [dg_ext_health_present d] @ dg_padding d @
     (let e = dg_ext_health d in concat (map to_le32 [eh_wal_erase_count e, eh_app_slot_erase_count e,
        eh_staging_slot_erase_count e, eh_swap_buffer_erase_count e]))"

section \<open>The boot core\<close>

definition diag_zero :: toob_boot_diag where
  "diag_zero = \<lparr> dg_struct_version = 0, dg_boot_duration_ms = 0, dg_verify_time_ms = 0, dg_last_error_code = 0,
     dg_vendor_error = 0, dg_hardware_fault_record = 0, dg_active_key_index = 0, dg_current_svn = 0, dg_build_number = 0,
     dg_edge_recovery_events = 0, dg_wdt_kicks = 0, dg_fw_ver_major = 0, dg_fw_ver_minor = 0, dg_fw_ver_patch = 0,
     dg_fallback_occurred = 0, dg_last_update_outcome = 0, dg_installed_app_svn = 0, dg_installed_stage1_svn = 0,
     dg_reader_major = 0, dg_reader_minor = 0, dg_monotonic_counter = 0, dg_last_update_reject = 0, dg_padding_v3 = zeroed 3,
     dg_boot_session_id = 0, dg_sbom_digest = zeroed 32, dg_ext_health_present = 0, dg_padding = zeroed 3,
     dg_ext_health = \<lparr> eh_wal_erase_count = 0, eh_app_slot_erase_count = 0, eh_staging_slot_erase_count = 0,
       eh_swap_buffer_erase_count = 0 \<rparr>, dg_crc32_trailer = 0, dg_padding_end = zeroed 4 \<rparr>"

definition boot_diag_init :: toob_boot_diag where
  "boot_diag_init = diag_zero\<lparr> dg_struct_version := TOOB_DIAG_STRUCT_VERSION \<rparr>"

definition boot_diag_add_verify_time :: "u32 \<Rightarrow> toob_boot_diag \<Rightarrow> toob_boot_diag" where
  "boot_diag_add_verify_time time_ms d = d\<lparr> dg_verify_time_ms := dg_verify_time_ms d + time_ms \<rparr>"

definition boot_diag_set_boot_time :: "u32 \<Rightarrow> toob_boot_diag \<Rightarrow> toob_boot_diag" where
  "boot_diag_set_boot_time time_ms d = d\<lparr> dg_boot_duration_ms := time_ms \<rparr>"

definition boot_diag_set_error :: "boot_status \<Rightarrow> u32 \<Rightarrow> toob_boot_diag \<Rightarrow> toob_boot_diag" where
  "boot_diag_set_error err vendor_fault d = d\<lparr> dg_last_error_code := status_code err, dg_vendor_error := vendor_fault,
     dg_hardware_fault_record := vendor_fault \<rparr>"

definition boot_diag_set_system_status :: "bool \<Rightarrow> u32 \<Rightarrow> toob_boot_diag \<Rightarrow> toob_boot_diag" where
  "boot_diag_set_system_status fallback session_id d = d\<lparr> dg_wdt_kicks := 0,
     dg_fallback_occurred := (if fallback then 1 else 0), dg_boot_session_id := session_id \<rparr>"

text \<open>\<open>sbom\<close> is \<open>None\<close> for a \<open>NULL\<close> pointer; \<open>_reserved_diag\<close> is not a member of the version 3 struct.\<close>

definition boot_diag_set_security_meta ::
  "u32 \<Rightarrow> u32 \<Rightarrow> u8 list option \<Rightarrow> u32 \<Rightarrow> u16 \<Rightarrow> u16 \<Rightarrow> u16 \<Rightarrow> toob_boot_diag \<Rightarrow> toob_boot_diag" where
  "boot_diag_set_security_meta svn key_idx sbom build_number major minor ver_patch d =
     d\<lparr> dg_current_svn := svn, dg_active_key_index := key_idx, dg_build_number := build_number, dg_fw_ver_major := major,
        dg_fw_ver_minor := minor, dg_fw_ver_patch := ver_patch,
        dg_sbom_digest := (case sbom of None \<Rightarrow> zeroed 32 | Some h \<Rightarrow> take 32 h) \<rparr>"

definition boot_diag_set_recovery_events :: "u32 \<Rightarrow> toob_boot_diag \<Rightarrow> toob_boot_diag" where
  "boot_diag_set_recovery_events count d = d\<lparr> dg_edge_recovery_events := count \<rparr>"

definition boot_diag_set_wear_data :: "toob_ext_health option \<Rightarrow> toob_boot_diag \<Rightarrow> toob_boot_diag" where
  "boot_diag_set_wear_data wear d =
     (case wear of None \<Rightarrow> d | Some w \<Rightarrow> d\<lparr> dg_ext_health_present := 1, dg_ext_health := w \<rparr>)"

definition boot_diag_set_installed_state :: "u32 \<Rightarrow> u32 \<Rightarrow> u32 \<Rightarrow> toob_boot_diag \<Rightarrow> toob_boot_diag" where
  "boot_diag_set_installed_state app_svn stage1_svn build_number d =
     d\<lparr> dg_current_svn := (if dg_current_svn d = 0 then app_svn else dg_current_svn d),
        dg_build_number := (if dg_build_number d = 0 then build_number else dg_build_number d),
        dg_installed_app_svn := app_svn, dg_installed_stage1_svn := stage1_svn, dg_reader_major := 1, dg_reader_minor := 0 \<rparr>"

definition boot_diag_set_update_result :: "u8 \<Rightarrow> u8 \<Rightarrow> toob_boot_diag \<Rightarrow> toob_boot_diag" where
  "boot_diag_set_update_result outcome reject_reason d =
     d\<lparr> dg_last_update_outcome := outcome, dg_last_update_reject := reject_reason \<rparr>"

definition boot_diag_seal :: "toob_boot_diag \<Rightarrow> toob_boot_diag" where
  "boot_diag_seal d =
     (let d = d\<lparr> dg_padding_v3 := zeroed 3, dg_padding := zeroed 3, dg_padding_end := zeroed 4 \<rparr>
      in d\<lparr> dg_crc32_trailer := compute_boot_crc32 (diag_payload d) \<rparr>)"

section \<open>The OS library\<close>

text \<open>The copy handed out, if version and checksum are right; else \<open>None\<close> with a zeroized buffer.\<close>

definition toob_get_boot_diag :: "toob_boot_diag \<Rightarrow> toob_status \<times> toob_boot_diag option" where
  "toob_get_boot_diag state =
     (if \<not> toob_shield (dg_struct_version state = TOOB_DIAG_STRUCT_VERSION) then (TOOB_ERR_VERIFY, None)
      else if \<not> toob_shield (toob_lib_crc32 (diag_payload state) = dg_crc32_trailer state) then (TOOB_ERR_VERIFY, None)
      else (TOOB_OK, Some (state\<lparr> dg_padding := zeroed 3 \<rparr>)))"

section \<open>Properties\<close>

text \<open>
  C36. The OS reads back what the boot core sealed. Whatever the setters left in the record, after
  \<open>boot_diag_seal\<close> the reader of the OS library hands out exactly the sealed record if its version is the
  current one, and refuses it otherwise: the two sides agree on the checksum, on the bytes it covers and on
  the padding.
\<close>

theorem diag_seal_roundtrip:
  "toob_get_boot_diag (boot_diag_seal d) =
     (if dg_struct_version d = TOOB_DIAG_STRUCT_VERSION then (TOOB_OK, Some (boot_diag_seal d)) else (TOOB_ERR_VERIFY, None))"
proof -
  have crc: "toob_lib_crc32 b = compute_boot_crc32 b" for b
    by (simp add: toob_lib_crc32_def compute_boot_crc32_def toob_crc32_loop_eq)
  have "diag_payload (e\<lparr> dg_crc32_trailer := c \<rparr>) = diag_payload e" for e c by (simp add: diag_payload_def Let_def)
  then show ?thesis by (simp add: toob_get_boot_diag_def boot_diag_seal_def crc Let_def)
qed

end
