(* ===== verification/Boot_State.thy ===== *)
theory Boot_State
  imports Boot_Transport Boot_Delta Boot_Cloud_Cmd Boot_Diag Boot_Mailbox Boot_Tbm1
begin

text \<open>
  The update state machine (\<open>core/boot_state.c\<close>): the intent table, the cloud command dispatch, the rollback
  flow, the eight-stage update pipeline with its error table, and the orchestration \<open>boot_state_run\<close>. What
  the C code keeps in statics, locals and out-parameters is the record \<open>tsm\<close>; the manifest header is read
  from the arena wherever the code goes through its pointer into it. The transport provider is the vtable
  \<open>slot_transport\<close>, the decoder of the delta engine the record \<open>heatshrink\<close>. \<open>None\<close> is a loop that does not end.
\<close>

section \<open>Configuration and state\<close>

record tsm_config =
  tc_cloud :: cloud_layout
  tc_device :: tbm1_device
  tc_pqc :: bool
  tc_double_verify :: bool
  tc_arena_addr :: u32
  tc_forensic_addr :: u32
  tc_recovery_addr :: u32
  tc_recovery_size :: u32
  tc_netcore_addr :: u32
  tc_netcore_size :: u32
  tc_stage1a_addr :: u32
  tc_stage1a_size :: u32
  tc_stage1b_addr :: u32
  tc_stage1b_size :: u32
  tc_delta_out_addr :: u32
  tc_delta_out_size :: u32

record boot_target_config =
  bt_proof :: boot_proof
  bt_net_search_accum_ms :: u32
  bt_resume_offset :: u32
  bt_generated_nonce :: u64
  bt_boot_recovery_os :: bool
  bt_is_tentative_boot :: bool
  bt_wipe_requested :: bool

definition target_zero :: boot_target_config where
  "target_zero = \<lparr> bt_proof = \<lparr> pr_image_addr = 0, pr_image_size = 0, pr_entry_point = 0, pr_svn = 0, pr_seal0 = 0, pr_seal1 = 0 \<rparr>,
     bt_net_search_accum_ms = 0, bt_resume_offset = 0, bt_generated_nonce = 0, bt_boot_recovery_os = False,
     bt_is_tentative_boot = False, bt_wipe_requested = False \<rparr>"

record 's tsm =
  ts_txn :: wal_entry_payload
  ts_tmr :: wal_tmr_payload
  ts_target :: boot_target_config
  ts_cfi :: boot_cfi_ctx
  ts_arena :: "u8 list"
  ts_diag :: toob_boot_diag
  ts_swap :: swap_state
  ts_jn :: journal_state
  ts_dev :: 's

text \<open>How a step ends: it returns, calls \<open>boot_panic\<close>, or freezes in \<open>boot_terminal_halt\<close>.\<close>

datatype ('r, 's) flow =
    Goes boot_status 'r "'s tsm"
  | Panics boot_status "'s tsm"
  | Freezes boot_status boot_site_id "'s tsm"

text \<open>The next step of a sequence that stops at the first status other than \<open>BOOT_OK\<close>.\<close>

definition and_then ::
  "('r, 's) flow option \<Rightarrow> ('r \<Rightarrow> 's tsm \<Rightarrow> (unit, 's) flow option) \<Rightarrow> (unit, 's) flow option" where
  "and_then m k =
     (case m of
        None \<Rightarrow> None
      | Some (Goes st x r) \<Rightarrow> if st = BOOT_OK then k x r else Some (Goes st () r)
      | Some (Panics st r) \<Rightarrow> Some (Panics st r)
      | Some (Freezes st site r) \<Rightarrow> Some (Freezes st site r))"

section \<open>Journal calls on the state\<close>

definition tsm_append :: "'s build \<Rightarrow> 's platform \<Rightarrow> wal_entry_payload \<Rightarrow> 's tsm \<Rightarrow> boot_status \<times> 's tsm" where
  "tsm_append b p e r =
     (case boot_journal_append (bd_wal b) p (ts_jn r) e (ts_dev r) of (st, j, s) \<Rightarrow> (st, r\<lparr> ts_jn := j, ts_dev := s \<rparr>))"

definition tsm_update_tmr :: "'s build \<Rightarrow> 's platform \<Rightarrow> 's tsm \<Rightarrow> boot_status \<times> 's tsm" where
  "tsm_update_tmr b p r =
     (case boot_journal_update_tmr (bd_wal b) p (ts_jn r) (ts_tmr r) (ts_dev r) of (st, j, s) \<Rightarrow> (st, r\<lparr> ts_jn := j, ts_dev := s \<rparr>))"

definition tsm_kick :: "'s platform \<Rightarrow> 's tsm \<Rightarrow> 's tsm" where
  "tsm_kick p r = r\<lparr> ts_dev := wdt_kick p (ts_dev r) \<rparr>"

definition tsm_step :: "u8 \<Rightarrow> 's tsm \<Rightarrow> 's tsm" where
  "tsm_step slot r = r\<lparr> ts_cfi := boot_cfi_step slot (ts_cfi r) \<rparr>"

definition set_intent :: "u32 \<Rightarrow> 's tsm \<Rightarrow> 's tsm" where
  "set_intent i r = r\<lparr> ts_txn := (ts_txn r)\<lparr> we_intent := i \<rparr> \<rparr>"

text \<open>Append the open transaction under another intent, and take it over if that worked.\<close>

definition append_intent :: "'s build \<Rightarrow> 's platform \<Rightarrow> u32 \<Rightarrow> 's tsm \<Rightarrow> boot_status \<times> 's tsm" where
  "append_intent b p i r =
     (case tsm_append b p ((ts_txn r)\<lparr> we_intent := i \<rparr>) r of (st, r) \<Rightarrow> (st, if st = BOOT_OK then set_intent i r else r))"

section \<open>The intent table\<close>

datatype boot_event = EV_NONE | EV_CONFIRM_OK | EV_CRASH | EV_CLOUD_UNLOCK | EV_CLOUD_LOCK | EV_CLOUD_UPDATE

datatype intent_action = ACT_NONE | ACT_HEAL_COUNTER | ACT_APPEND | ACT_PANIC_LOCKED | ACT_CRASH_ACCUM

definition INTENT_TABLE :: "(u32 \<times> boot_event \<times> u32 \<times> intent_action) list" where
  "INTENT_TABLE =
     [(WAL_INTENT_DEVICE_LOCKED, EV_CONFIRM_OK, WAL_INTENT_DEVICE_LOCKED, ACT_PANIC_LOCKED),
      (WAL_INTENT_DEVICE_LOCKED, EV_CLOUD_UNLOCK, WAL_INTENT_NONE, ACT_APPEND),
      (WAL_INTENT_CONFIRM_COMMIT, EV_CONFIRM_OK, WAL_INTENT_NONE, ACT_HEAL_COUNTER),
      (WAL_INTENT_CONFIRM_COMMIT, EV_CRASH, WAL_INTENT_CONFIRM_COMMIT, ACT_CRASH_ACCUM),
      (WAL_INTENT_RECOVERY_RESOLVED, EV_CONFIRM_OK, WAL_INTENT_NONE, ACT_HEAL_COUNTER),
      (WAL_INTENT_RECOVERY_RESOLVED, EV_CRASH, WAL_INTENT_RECOVERY_RESOLVED, ACT_CRASH_ACCUM),
      (WAL_INTENT_NONE, EV_CLOUD_LOCK, WAL_INTENT_DEVICE_LOCKED, ACT_APPEND),
      (WAL_INTENT_NONE, EV_CLOUD_UPDATE, WAL_INTENT_UPDATE_PENDING, ACT_APPEND),
      (WAL_INTENT_NONE, EV_CRASH, WAL_INTENT_NONE, ACT_CRASH_ACCUM),
      (WAL_INTENT_TXN_COMMIT, EV_CRASH, WAL_INTENT_TXN_COMMIT, ACT_CRASH_ACCUM),
      (WAL_INTENT_TXN_ROLLBACK_PENDING, EV_CRASH, WAL_INTENT_TXN_ROLLBACK_PENDING, ACT_CRASH_ACCUM)]"

definition intent_row :: "u32 \<Rightarrow> boot_event \<Rightarrow> (u32 \<times> intent_action) option" where
  "intent_row cur ev =
     (case find (\<lambda>(c, e, _). c = cur \<and> e = ev) INTENT_TABLE of None \<Rightarrow> None | Some (_, _, nxt, action) \<Rightarrow> Some (nxt, action))"

text \<open>Healing: counters, journal entry, and the erasure of the staging slot, whose result is ignored.\<close>

definition heal_counter :: "'s build \<Rightarrow> 's platform \<Rightarrow> u32 \<Rightarrow> 's tsm \<Rightarrow> (unit, 's) flow option" where
  "heal_counter b p nxt r =
     (case (if tm_boot_failure_counter (ts_tmr r) > 0 \<or> tm_recovery_failure_counter (ts_tmr r) > 0
            then tsm_update_tmr b p (r\<lparr> ts_tmr := (ts_tmr r)\<lparr> tm_boot_failure_counter := 0, tm_recovery_failure_counter := 0 \<rparr> \<rparr>)
            else (BOOT_OK, r)) of
        (st, r) \<Rightarrow>
          if st \<noteq> BOOT_OK then Some (Goes st () r)
          else
            let r = set_intent nxt r
            in case tsm_append b p (ts_txn r) r of (st, r) \<Rightarrow>
                 if st \<noteq> BOOT_OK then Some (Goes st () r)
                 else
                   let cc = bd_chip b
                   in case boot_swap_erase_safe (cc_max_sector_size cc) p (cc_staging_addr cc) (unat (cc_staging_size cc))
                             (ts_arena r) (ts_dev r) of
                        None \<Rightarrow> None
                      | Some (_, arena, s) \<Rightarrow> Some (Goes BOOT_OK () (r\<lparr> ts_arena := arena, ts_dev := s \<rparr>)))"

definition crash_accum :: "chip_config \<Rightarrow> wal_tmr_payload \<Rightarrow> wal_tmr_payload" where
  "crash_accum cc t =
     (if tm_boot_failure_counter t > cc_max_retries cc
      then t\<lparr> tm_recovery_failure_counter := tm_recovery_failure_counter t + 1 \<rparr>
      else t\<lparr> tm_boot_failure_counter := tm_boot_failure_counter t + 1 \<rparr>)"

definition evaluate_transition :: "'s build \<Rightarrow> 's platform \<Rightarrow> boot_event \<Rightarrow> 's tsm \<Rightarrow> (unit, 's) flow option" where
  "evaluate_transition b p event r =
     (case intent_row (we_intent (ts_txn r)) event of
        None \<Rightarrow> Some (Goes BOOT_OK () r)
      | Some (nxt, ACT_NONE) \<Rightarrow> Some (Goes BOOT_OK () r)
      | Some (nxt, ACT_HEAL_COUNTER) \<Rightarrow> heal_counter b p nxt r
      | Some (nxt, ACT_APPEND) \<Rightarrow> (case append_intent b p nxt r of (st, r) \<Rightarrow> Some (Goes st () r))
      | Some (nxt, ACT_PANIC_LOCKED) \<Rightarrow> Some (Panics BOOT_ERR_DEVICE_LOCKED r)
      | Some (nxt, ACT_CRASH_ACCUM) \<Rightarrow>
          (case tsm_update_tmr b p (r\<lparr> ts_tmr := crash_accum (bd_chip b) (ts_tmr r) \<rparr>) of (st, r) \<Rightarrow> Some (Goes st () r)))"

section \<open>Cloud commands\<close>

definition TOOB_CMD_FORCE_UPDATE :: u8 where "TOOB_CMD_FORCE_UPDATE = 0x01"
definition TOOB_CMD_KILLSWITCH :: u8 where "TOOB_CMD_KILLSWITCH = 0x02"
definition TOOB_CMD_UNLOCK :: u8 where "TOOB_CMD_UNLOCK = 0x03"
definition TOOB_CMD_WIPE :: u8 where "TOOB_CMD_WIPE = 0x05"
definition TOOB_CMD_REVOKE :: u8 where "TOOB_CMD_REVOKE = 0x06"

text \<open>WIPE appends the intent NONE but keeps the intent in RAM; REVOKE burns the fuse and freezes.\<close>

definition dispatch_cmd ::
  "'s build \<Rightarrow> tsm_config \<Rightarrow> 's platform \<Rightarrow> u8 \<Rightarrow> 's tsm \<Rightarrow> (unit, 's) flow" where
  "dispatch_cmd b tc p cmd r =
     (if cmd = TOOB_CMD_KILLSWITCH then case append_intent b p WAL_INTENT_DEVICE_LOCKED r of (st, r) \<Rightarrow> Goes st () r
      else if cmd = TOOB_CMD_UNLOCK then case append_intent b p WAL_INTENT_NONE r of (st, r) \<Rightarrow> Goes st () r
      else if cmd = TOOB_CMD_FORCE_UPDATE then case append_intent b p WAL_INTENT_UPDATE_PENDING r of (st, r) \<Rightarrow> Goes st () r
      else if cmd = TOOB_CMD_REVOKE then
        (case ch_write_dslc (the (pf_crypto p)) of
           None \<Rightarrow> Goes BOOT_ERR_NOT_SUPPORTED () r
         | Some write_dslc \<Rightarrow>
             (case write_dslc [0xFF] (ts_dev r) of (burn_stat, s) \<Rightarrow>
                if burn_stat \<noteq> BOOT_OK then Goes burn_stat () (r\<lparr> ts_dev := s \<rparr>)
                else Freezes BOOT_ERR_NOT_SUPPORTED SITE_STATE_LOCK_FAIL
                       (r\<lparr> ts_dev := boot_terminal_halt (tc_forensic_addr tc) p BOOT_ERR_NOT_SUPPORTED SITE_STATE_LOCK_FAIL s \<rparr>)))
      else if cmd = TOOB_CMD_WIPE then
        (case tsm_append b p ((ts_txn r)\<lparr> we_intent := WAL_INTENT_NONE \<rparr>) r of (st, r) \<Rightarrow>
           Goes st () (if st = BOOT_OK then r\<lparr> ts_target := (ts_target r)\<lparr> bt_wipe_requested := True \<rparr> \<rparr> else r))
      else Goes BOOT_OK () r)"

definition handle_cloud_cmd ::
  "'s build \<Rightarrow> tsm_config \<Rightarrow> cbor_decoder \<Rightarrow> 's platform \<Rightarrow> u8 \<Rightarrow> 's tsm \<Rightarrow> (unit, 's) flow option" where
  "handle_cloud_cmd b tc decode p slot r =
     (case boot_cloud_cmd_evaluate_flash (bd_wal b) (tc_cloud tc) decode p (ts_jn r) (ts_dev r) of
        (eval_stat, cmd_intent, j, s) \<Rightarrow>
          let r = r\<lparr> ts_jn := j, ts_dev := s, ts_arena := zeroed (length (ts_arena r)) \<rparr>
          in if eval_stat \<noteq> BOOT_OK then Some (Goes BOOT_OK () (tsm_step slot r))
             else and_then (Some (dispatch_cmd b tc p (case cmd_intent of None \<Rightarrow> TOOB_CMD_NOP | Some c \<Rightarrow> c) r))
               (\<lambda>_ r. let s = (case pf_flash p of None \<Rightarrow> ts_dev r
                               | Some fl \<Rightarrow> snd (fh_erase_sector fl (cl_cmd_slot_addr (tc_cloud tc)) (ts_dev r)))
                      in Some (Goes BOOT_OK () (tsm_step slot (r\<lparr> ts_dev := s \<rparr>)))))"

section \<open>Rollback flow\<close>

definition rollback_slot_txn :: "chip_config \<Rightarrow> u32 \<Rightarrow> u8 \<Rightarrow> slot_txn" where
  "rollback_slot_txn cc len active_app_slot = \<lparr> st_src_addr = cc_staging_addr cc, st_src_region_size = cc_staging_size cc,
     st_dest_addr = cc_app_addr cc, st_dest_region_size = cc_app_size cc, st_backup_addr = cc_scratch_addr cc,
     st_backup_region_size = cc_scratch_size cc, st_length = len, st_dest_slot = BOOT_DEST_SLOT_APP,
     st_target_slot_index = active_app_slot, st_src_is_delta_output = False, st_src_verified = True \<rparr>"

text \<open>Case A: the trial of a new image failed; the provider restores the old one.\<close>

definition rollback_trial ::
  "'s build \<Rightarrow> 's slot_transport \<Rightarrow> 's platform \<Rightarrow> 's tsm \<Rightarrow> (unit, 's) flow option" where
  "rollback_trial b t p r =
     (let cc = bd_chip b
      in case fh_read (the (pf_flash p)) (cc_staging_addr cc) 32 (ts_dev r) of (st, d, s) \<Rightarrow>
           let r = r\<lparr> ts_dev := s \<rparr>; h = image_header_of (fill_prefix d (zeroed 32))
           in if st \<noteq> BOOT_OK then Some (Goes st () r)
              else case sp_rollback t (effect_caps b p) (rollback_slot_txn cc (ih_image_size h) (tm_active_app_slot (ts_tmr r)))
                          (ts_arena r) (ts_jn r) (ts_dev r) of
                None \<Rightarrow> None
              | Some (st, arena, j, s) \<Rightarrow>
                  let r = r\<lparr> ts_arena := arena, ts_jn := j, ts_dev := s \<rparr>
                  in if st \<noteq> BOOT_OK then Some (Goes st () r)
                     else
                       let r = set_intent WAL_INTENT_NONE (r\<lparr> ts_target := (ts_target r)\<lparr> bt_boot_recovery_os := False \<rparr>,
                                 ts_tmr := (ts_tmr r)\<lparr> tm_boot_failure_counter := 0 \<rparr> \<rparr>)
                       in case tsm_update_tmr b p r of (st, r) \<Rightarrow>
                            if st \<noteq> BOOT_OK then Some (Goes st () r)
                            else case tsm_append b p (ts_txn r) r of (st, r) \<Rightarrow> Some (Goes st () r))"

text \<open>Case B: repeated crashes of an established image; back off or boot the recovery OS.\<close>

definition rollback_escalate :: "'s build \<Rightarrow> tsm_config \<Rightarrow> 's platform \<Rightarrow> 's tsm \<Rightarrow> (unit, 's) flow" where
  "rollback_escalate b tc p r =
     (case boot_rollback_evaluate_os (bd_chip b) p (ts_tmr r) of
        Os_returns st recovery \<Rightarrow> Goes st () (r\<lparr> ts_target := (ts_target r)\<lparr> bt_boot_recovery_os := recovery \<rparr> \<rparr>)
      | Os_halts st site \<Rightarrow>
          Freezes st site (r\<lparr> ts_dev := boot_terminal_halt (tc_forensic_addr tc) p st site (ts_dev r) \<rparr>)
      | Os_panics st \<Rightarrow> Panics st r)"

definition handle_rollback_flow ::
  "'s build \<Rightarrow> tsm_config \<Rightarrow> 's slot_transport \<Rightarrow> 's platform \<Rightarrow> u8 \<Rightarrow> 's tsm \<Rightarrow> (unit, 's) flow option" where
  "handle_rollback_flow b tc t p slot r =
     and_then
       (if tm_boot_failure_counter (ts_tmr r) > 0 then
          if \<not> secure_require (tm_boot_failure_counter (ts_tmr r) > 0) then Some (Goes BOOT_ERR_VERIFY () r)
          else if we_intent (ts_txn r) = WAL_INTENT_TXN_COMMIT \<or> we_intent (ts_txn r) = WAL_INTENT_TXN_ROLLBACK_PENDING
          then rollback_trial b t p r
          else Some (rollback_escalate b tc p r)
        else Some (Goes BOOT_OK () r))
       (\<lambda>_ r. Some (Goes BOOT_OK () (tsm_step slot r)))"

section \<open>The stages of the update pipeline\<close>

definition TBM1_REGION_CHUNK_HASHES :: u16 where "TBM1_REGION_CHUNK_HASHES = 1"
definition TBM1_REGION_PQC_SIGNATURE :: u16 where "TBM1_REGION_PQC_SIGNATURE = 2"
definition TBM1_REGION_PQC_PUBKEY :: u16 where "TBM1_REGION_PQC_PUBKEY = 3"
definition TBM1_REGION_DEVICE_BIND :: u16 where "TBM1_REGION_DEVICE_BIND = 4"
definition TBM1_INFO_DEVICE_BIND :: u16 where "TBM1_INFO_DEVICE_BIND = 1"
definition TBM1_DELTA_NONE :: u8 where "TBM1_DELTA_NONE = 0"
definition TBM1_SLOT_NETCORE :: u8 where "TBM1_SLOT_NETCORE = 1"
definition TBM1_SLOT_RECOVERY :: u8 where "TBM1_SLOT_RECOVERY = 2"
definition TBM1_SLOT_STAGE1 :: u8 where "TBM1_SLOT_STAGE1 = 3"

text \<open>
  The context of one run. The pointers into the arena are offsets: the header is at 0, the primary image is
  its first descriptor, and \<open>up_chunk_hash_off\<close> is where the chunk hashes start.
\<close>

record update_ctx =
  up_total_len :: u32
  up_chunk_hash_offs :: "u32 list"
  up_extracted_svn :: u32
  up_extracted_stage1_svn :: u32
  up_is_delta :: bool
  up_swap_src_addr :: u32
  up_staging_header :: toob_image_header
  up_chunk_hash_off :: nat
  up_chunk_hash_len :: u32
  up_num_chunks :: u32
  up_chunk_size :: u32

definition update_ctx_start :: update_ctx where
  "update_ctx_start = \<lparr> up_total_len = 0, up_chunk_hash_offs = [0, 0, 0, 0], up_extracted_svn = 0, up_extracted_stage1_svn = 0,
     up_is_delta = False, up_swap_src_addr = 0, up_staging_header = image_header_of (zeroed 20), up_chunk_hash_off = 0,
     up_chunk_hash_len = 0, up_num_chunks = 0, up_chunk_size = 0 \<rparr>"

definition arena_header :: "'s tsm \<Rightarrow> tbm1_header" where
  "arena_header r = tbm1_header_at (ts_arena r)"

definition primary_image :: "'s tsm \<Rightarrow> tbm1_image_desc" where
  "primary_image r = th_images (arena_header r) ! 0"

text \<open>
  The value of \<open>tbm1_reject_t\<close> that the diagnostics keep: the position in the enumeration.
\<close>

definition reject_code :: "tbm1_reject \<Rightarrow> u8" where
  "reject_code rc = of_nat (length (takeWhile (\<lambda>x. x \<noteq> rc) [TBM1_OK, TBM1_BAD_MAGIC, TBM1_BAD_FIXED_LEN, TBM1_BAD_VERSION,
     TBM1_BAD_TOTAL_LEN, TBM1_BAD_ALIGN, TBM1_BAD_CRC, TBM1_BAD_CRIT_FLAG, TBM1_BAD_READER_VERSION, TBM1_BAD_IMAGE_COUNT,
     TBM1_BAD_KEY_INDEX, TBM1_BAD_HW_COMPAT, TBM1_BAD_CHUNK_MATH, TBM1_BAD_IMAGE_FIELD, TBM1_BAD_REGION_BOUNDS,
     TBM1_BAD_REGION_ORDER, TBM1_BAD_REGION_DUP, TBM1_BAD_CHUNKHASH_LEN, TBM1_BAD_REGION_ALIGN]))"

definition stage_parse ::
  "'s build \<Rightarrow> tsm_config \<Rightarrow> 's platform \<Rightarrow> update_ctx \<Rightarrow> 's tsm \<Rightarrow> (update_ctx, 's) flow option" where
  "stage_parse b tc p u r =
     (case fh_read (the (pf_flash p)) (we_offset (ts_txn r)) (length (ts_arena r)) (wdt_kick p (ts_dev r)) of (st, d, s) \<Rightarrow>
        let r = r\<lparr> ts_dev := wdt_kick p s \<rparr>
        in if st \<noteq> BOOT_OK then Some (Goes st u r)
           else
             let r = r\<lparr> ts_arena := fill_prefix d (ts_arena r) \<rparr>
             in case tbm1_validate (tc_device tc) (tc_arena_addr tc) (ts_arena r) (length (ts_arena r)) (unat (cc_staging_size (bd_chip b))) of
                  (rc, offs) \<Rightarrow>
                    if rc \<noteq> TBM1_OK
                    then Some (Goes (tbm1_reject_to_boot_status rc) u (r\<lparr> ts_diag := boot_diag_set_update_result 2 (reject_code rc) (ts_diag r) \<rparr>))
                    else Some (Goes BOOT_OK (u\<lparr> up_chunk_hash_offs := fill_prefix offs (up_chunk_hash_offs u),
                                                up_total_len := th_total_len (arena_header r) \<rparr>) r))"

text \<open>A region of the arena with its address, as the envelope refers to it.\<close>

definition arena_region :: "tsm_config \<Rightarrow> 's tsm \<Rightarrow> u16 \<Rightarrow> (u32 \<times> u8 list) option" where
  "arena_region tc r rid =
     (case tbm1_find_region (arena_header r) rid of
        None \<Rightarrow> None
      | Some g \<Rightarrow> Some (tc_arena_addr tc + rg_off g, slice_of (unat (rg_off g)) (unat (rg_len g)) (ts_arena r)))"

definition stage_envelope :: "tsm_config \<Rightarrow> update_ctx \<Rightarrow> 's tsm \<Rightarrow> verify_envelope" where
  "stage_envelope tc u r =
     (let pqc_sig = arena_region tc r TBM1_REGION_PQC_SIGNATURE; pqc_key = arena_region tc r TBM1_REGION_PQC_PUBKEY
      in \<lparr> ve_manifest_flash_addr = we_offset (ts_txn r), ve_manifest_size = tbm1_signed_len (arena_header r),
           ve_signature_ed25519 = Some (slice_of (unat (up_total_len u) - TBM1_SIG_LEN) TBM1_SIG_LEN (ts_arena r)),
           ve_key_index = th_key_index (arena_header r), ve_pqc_hybrid_active = (pqc_sig \<noteq> None \<and> pqc_key \<noteq> None),
           ve_signature_pqc = pqc_sig, ve_pubkey_pqc = pqc_key \<rparr>)"

definition stage_verify_envelope ::
  "tsm_config \<Rightarrow> 's platform \<Rightarrow> update_ctx \<Rightarrow> 's tsm \<Rightarrow> (update_ctx, 's) flow option" where
  "stage_verify_envelope tc p u r =
     (case boot_verify_manifest_envelope (tc_pqc tc) (tc_double_verify tc) p (Some (stage_envelope tc u r))
             (Some (tc_arena_addr tc, ts_arena r)) (ts_dev r) of (verify_status, s) \<Rightarrow>
        let r = r\<lparr> ts_dev := s \<rparr>
        in if verify_status \<noteq> BOOT_OK then Some (Goes BOOT_ERR_VERIFY u r)
           else if \<not> secure_require (verify_status = BOOT_OK)
           then Some (Freezes BOOT_ERR_VERIFY SITE_STATE_CFI_MISMATCH
                  (r\<lparr> ts_dev := boot_terminal_halt (tc_forensic_addr tc) p BOOT_ERR_VERIFY SITE_STATE_CFI_MISMATCH (ts_dev r) \<rparr>))
           else Some (Goes BOOT_OK u r))"

definition stage_check_svn :: "'s platform \<Rightarrow> update_ctx \<Rightarrow> 's tsm \<Rightarrow> (update_ctx, 's) flow option" where
  "stage_check_svn p u r =
     (let svn = th_svn (arena_header r)
      in case boot_rollback_verify_svn p (ts_jn r) svn ROLLBACK_TARGET_APP (ts_dev r) of (st, s) \<Rightarrow>
           Some (Goes st (u\<lparr> up_extracted_svn := svn \<rparr>) (r\<lparr> ts_dev := s \<rparr>)))"

text \<open>The device binding, then the diagnostics; \<open>read_dslc\<close> fills a buffer taken as zero here.\<close>

definition check_device_bind :: "'s platform \<Rightarrow> 's tsm \<Rightarrow> boot_status \<times> 's tsm" where
  "check_device_bind p r =
     (let h = arena_header r
      in if th_flags_info h AND TBM1_INFO_DEVICE_BIND = 0 then (BOOT_OK, r)
         else case tbm1_find_region h TBM1_REGION_DEVICE_BIND of
           None \<Rightarrow> (BOOT_ERR_INVALID_ARG, r)
         | Some g \<Rightarrow>
             if rg_len g \<noteq> 32 then (BOOT_ERR_INVALID_ARG, r)
             else case ch_read_dslc (the (pf_crypto p)) of
               None \<Rightarrow> (BOOT_ERR_NOT_SUPPORTED, r)
             | Some read_dslc \<Rightarrow>
                 (case read_dslc 32 (ts_dev r) of (st, d, dslc_len, s) \<Rightarrow>
                    let r = r\<lparr> ts_dev := s \<rparr>
                    in if st \<noteq> BOOT_OK then (BOOT_ERR_NOT_SUPPORTED, r)
                       else if constant_time_memcmp_glitch_safe (slice_of (unat (rg_off g)) 32 (ts_arena r))
                                 (fill_prefix d (zeroed 32)) 32 \<noteq> BOOT_OK then (BOOT_ERR_VERIFY, r)
                       else (BOOT_OK, r)))"

definition stage_check_binding :: "'s platform \<Rightarrow> update_ctx \<Rightarrow> 's tsm \<Rightarrow> (update_ctx, 's) flow option" where
  "stage_check_binding p u r =
     (case check_device_bind p r of (st, r) \<Rightarrow>
        if st \<noteq> BOOT_OK then Some (Goes st u r)
        else
          let h = arena_header r;
              d = boot_diag_set_security_meta (up_extracted_svn u) (ucast (th_key_index h)) (Some (th_sbom_digest h))
                    (th_build_number h) (th_fw_ver_major h) (th_fw_ver_minor h) (th_fw_ver_patch h) (ts_diag r)
          in Some (Goes BOOT_OK u (r\<lparr> ts_diag := boot_diag_set_update_result 1 0 d \<rparr>)))"

definition stage_route :: "'s build \<Rightarrow> 's platform \<Rightarrow> update_ctx \<Rightarrow> 's tsm \<Rightarrow> (update_ctx, 's) flow option" where
  "stage_route b p u r =
     (let cc = bd_chip b
      in case fh_read (the (pf_flash p)) (cc_staging_addr cc) 20 (ts_dev r) of (st, d, s) \<Rightarrow>
           let r = r\<lparr> ts_dev := s \<rparr>; h = image_header_of (fill_prefix d (zeroed 20));
               u = u\<lparr> up_swap_src_addr := cc_staging_addr cc, up_staging_header := h \<rparr>
           in if st \<noteq> BOOT_OK \<or> ih_magic h \<noteq> TOOB_MAGIC_HEADER then Some (Goes BOOT_ERR_INVALID_STATE u r)
              else if ih_image_size h > cc_app_size cc then Some (Goes BOOT_ERR_FLASH_BOUNDS u r)
              else if ih_image_size h \<le> 20 then Some (Goes BOOT_ERR_INVALID_ARG u r)
              else
                let im = primary_image r
                in Some (Goes BOOT_OK (u\<lparr> up_chunk_hash_off := unat (up_chunk_hash_offs u ! 0),
                     up_chunk_hash_len := (case tbm1_find_region (arena_header r) TBM1_REGION_CHUNK_HASHES of None \<Rightarrow> 0 | Some g \<Rightarrow> rg_len g),
                     up_num_chunks := im_num_chunks im, up_chunk_size := im_chunk_size im,
                     up_is_delta := (im_delta_alg im \<noteq> TBM1_DELTA_NONE) \<rparr>) r))"

text \<open>
  The delta stage. The chunk hashes are copied over the manifest at the start of the arena, the rest is the
  delta engine's, which zeroizes it; the fields of the primary image are read from what is there then. (If the
  copied ranges overlap, the C code's \<open>memcpy\<close> is undefined; the copy is taken as of the source before it.)
\<close>

definition delta_verify ::
  "tsm_config \<Rightarrow> 's platform \<Rightarrow> nat \<Rightarrow> update_ctx \<Rightarrow> 's tsm \<Rightarrow> (update_ctx, 's) flow" where
  "delta_verify tc p hash_slice u r =
     (let im = primary_image r; n = length (ts_arena r)
      in case boot_merkle_verify_stream p (tc_delta_out_addr tc) (im_installed_size im) (im_chunk_size im) (tc_arena_addr tc)
                (take (unat (up_chunk_hash_len u)) (ts_arena r)) (up_chunk_hash_len u) (up_num_chunks u) True (n - hash_slice) (ts_dev r) of
           (hash_stat, s) \<Rightarrow>
             let r = r\<lparr> ts_dev := s, ts_arena := zeroed n \<rparr>
             in if hash_stat \<noteq> BOOT_OK then Goes BOOT_ERR_VERIFY u r
                else Goes BOOT_OK (u\<lparr> up_staging_header := (up_staging_header u)\<lparr> ih_image_size := im_installed_size (primary_image r) \<rparr>,
                                      up_swap_src_addr := tc_delta_out_addr tc \<rparr>) r)"

definition stage_apply_delta ::
  "'h heatshrink \<Rightarrow> 's build \<Rightarrow> tsm_config \<Rightarrow> 's platform \<Rightarrow> update_ctx \<Rightarrow> 's tsm \<Rightarrow> (update_ctx, 's) flow option" where
  "stage_apply_delta hs b tc p u r =
     (let cc = bd_chip b; base_svn = im_base_svn (primary_image r)
      in case (if base_svn > 0 then boot_rollback_verify_svn p (ts_jn r) base_svn ROLLBACK_TARGET_APP (ts_dev r)
               else (BOOT_OK, ts_dev r)) of (st, s) \<Rightarrow>
           let r = r\<lparr> ts_dev := s \<rparr>; n = length (ts_arena r);
               hash_slice = unat ((up_chunk_hash_len u + 7) AND NOT 7); len = unat (up_chunk_hash_len u)
           in if st \<noteq> BOOT_OK then Some (Goes BOOT_ERR_INVALID_STATE u r)
              else if hash_slice \<ge> n then Some (Goes BOOT_ERR_INVALID_ARG u r)
              else
                let arena = patch 0 (slice_of (up_chunk_hash_off u) len (ts_arena r)) (ts_arena r);
                    src = we_offset (ts_txn r) + up_total_len u
                in case boot_delta_apply hs b p src (unat (cc_staging_addr cc + cc_app_size cc - src)) (tc_delta_out_addr tc)
                          (unat (tc_delta_out_size tc)) (cc_app_addr cc) (unat (cc_app_size cc)) (ts_txn r) (drop hash_slice arena)
                          (ts_jn r) (ts_dev r) of
                     None \<Rightarrow> None
                   | Some (st, txn, rest, j, s) \<Rightarrow>
                       let r = r\<lparr> ts_txn := txn, ts_jn := j, ts_dev := s, ts_arena := take hash_slice arena @ rest \<rparr>
                       in if st \<noteq> BOOT_OK then Some (Goes st u (r\<lparr> ts_arena := zeroed hash_slice @ rest \<rparr>))
                          else Some (delta_verify tc p hash_slice u r))"

definition stage_apply_raw ::
  "'s build \<Rightarrow> tsm_config \<Rightarrow> 's platform \<Rightarrow> update_ctx \<Rightarrow> 's tsm \<Rightarrow> (update_ctx, 's) flow option" where
  "stage_apply_raw b tc p u r =
     (let u = u\<lparr> up_swap_src_addr := cc_staging_addr (bd_chip b) \<rparr>; n = length (ts_arena r);
          aligned_offset = unat ((up_total_len u + 7) AND NOT 7)
      in if aligned_offset \<ge> n \<or> n - aligned_offset < unat (up_chunk_size u) then Some (Goes BOOT_ERR_INVALID_ARG u r)
         else
           let r = r\<lparr> ts_arena := take aligned_offset (ts_arena r) @ zeroed (n - aligned_offset) \<rparr>
           in case boot_merkle_verify_stream p (cc_staging_addr (bd_chip b)) (ih_image_size (up_staging_header u)) (up_chunk_size u)
                     (tc_arena_addr tc + of_nat (up_chunk_hash_off u)) (slice_of (up_chunk_hash_off u) (unat (up_chunk_hash_len u)) (ts_arena r))
                     (up_chunk_hash_len u) (up_num_chunks u) True (n - aligned_offset) (ts_dev r) of
                (hash_stat, s) \<Rightarrow> Some (Goes hash_stat u (r\<lparr> ts_dev := s \<rparr>)))"

definition stage_apply_unified ::
  "'h heatshrink \<Rightarrow> 's build \<Rightarrow> tsm_config \<Rightarrow> 's platform \<Rightarrow> update_ctx \<Rightarrow> 's tsm \<Rightarrow> (update_ctx, 's) flow option" where
  "stage_apply_unified hs b tc p u r = (if up_is_delta u then stage_apply_delta hs b tc p u r else stage_apply_raw b tc p u r)"

text \<open>The other images of the manifest as components; the expected hash of a component stays zero.\<close>

definition component_target ::
  "tsm_config \<Rightarrow> 's platform \<Rightarrow> tbm1_image_desc \<Rightarrow> update_ctx \<Rightarrow> 's tsm \<Rightarrow> (boot_status + u32) \<times> update_ctx \<times> 's tsm" where
  "component_target tc p im u r =
     (let stage1_svn = th_stage1_svn (arena_header r)
      in if im_target_slot im = TBM1_SLOT_NETCORE then (Inr (tc_netcore_addr tc), u, r)
         else if im_target_slot im = TBM1_SLOT_RECOVERY then (Inl BOOT_ERR_NOT_SUPPORTED, u, r)
         else if im_target_slot im = TBM1_SLOT_STAGE1 then
           if stage1_svn = 0 then (Inl BOOT_ERR_INVALID_ARG, u, r)
           else (case boot_rollback_verify_svn p (ts_jn r) stage1_svn ROLLBACK_TARGET_STAGE1 (ts_dev r) of (st, s) \<Rightarrow>
             let r = r\<lparr> ts_dev := s \<rparr>
             in if st \<noteq> BOOT_OK then (Inl st, u, r)
                else
                  let u = u\<lparr> up_extracted_stage1_svn := stage1_svn \<rparr>
                  in case boot_journal_get_tmr (ts_jn r) of
                       (BOOT_OK, Some t) \<Rightarrow> (Inr (if tm_active_stage1_bank t = 0 then tc_stage1b_addr tc else tc_stage1a_addr tc), u, r)
                     | _ \<Rightarrow> (Inl BOOT_ERR_INVALID_ARG, u, r))
         else (Inl BOOT_ERR_INVALID_ARG, u, r))"

fun swap_components ::
  "tsm_config \<Rightarrow> 's platform \<Rightarrow> tbm1_image_desc list \<Rightarrow> u32 \<Rightarrow> u32 \<Rightarrow> update_ctx \<Rightarrow> 's tsm \<Rightarrow>
     (boot_status + boot_component list) \<times> update_ctx \<times> 's tsm" where
  "swap_components tc p [] i offset u r = (Inr [], u, r)"
| "swap_components tc p (im # ims) i offset u r =
     (case component_target tc p im u r of
        (Inl st, u, r) \<Rightarrow> (Inl st, u, r)
      | (Inr target, u, r) \<Rightarrow>
          (case swap_components tc p ims (i + 1) (offset + im_stored_size im) u r of
             (Inl st, u, r) \<Rightarrow> (Inl st, u, r)
           | (Inr cs, u, r) \<Rightarrow> (Inr (\<lparr> bc_component_id = i, bc_staging_offset = offset, bc_target_addr = target,
                bc_image_size = im_installed_size im, bc_expected_hash = zeroed 32 \<rparr> # cs), u, r)))"

definition swap_slot_txn :: "chip_config \<Rightarrow> update_ctx \<Rightarrow> slot_txn" where
  "swap_slot_txn cc u = \<lparr> st_src_addr = up_swap_src_addr u,
     st_src_region_size = (if up_is_delta u then cc_scratch_size cc else cc_staging_size cc),
     st_dest_addr = cc_app_addr cc, st_dest_region_size = cc_app_size cc,
     st_backup_addr = (if up_is_delta u then cc_staging_addr cc else cc_scratch_addr cc),
     st_backup_region_size = (if up_is_delta u then cc_staging_size cc else cc_scratch_size cc),
     st_length = ih_image_size (up_staging_header u), st_dest_slot = BOOT_DEST_SLOT_APP, st_target_slot_index = 0,
     st_src_is_delta_output = up_is_delta u, st_src_verified = True \<rparr>"

definition component_whitelist :: "tsm_config \<Rightarrow> allowed_region list" where
  "component_whitelist tc =
     [\<lparr> ar_base_addr = tc_netcore_addr tc, ar_max_size = tc_netcore_size tc \<rparr>,
      \<lparr> ar_base_addr = tc_recovery_addr tc, ar_max_size = tc_recovery_size tc \<rparr>,
      \<lparr> ar_base_addr = tc_stage1a_addr tc, ar_max_size = tc_stage1a_size tc \<rparr>,
      \<lparr> ar_base_addr = tc_stage1b_addr tc, ar_max_size = tc_stage1b_size tc \<rparr>]"

definition swap_perform ::
  "'s build \<Rightarrow> tsm_config \<Rightarrow> 's slot_transport \<Rightarrow> 's platform \<Rightarrow> boot_component list \<Rightarrow> update_ctx \<Rightarrow> 's tsm \<Rightarrow>
     (update_ctx, 's) flow option" where
  "swap_perform b tc t p components u r = do {
     (st, arena, txn, j, ss, s) \<leftarrow> sp_apply t (effect_caps b p) (swap_slot_txn (bd_chip b) u) (ts_txn r) (ts_arena r) (ts_jn r) (ts_swap r) (ts_dev r);
     let r = r\<lparr> ts_arena := arena, ts_txn := txn, ts_jn := j, ts_swap := ss, ts_dev := s \<rparr>
     in if st \<noteq> BOOT_OK \<or> components = [] then Some (Goes st u r)
        else do {
          (st, arena, txn, j, s) \<leftarrow> boot_multiimage_apply b p (cc_staging_addr (bd_chip b)) components (component_whitelist tc)
             (ts_txn r) (ts_arena r) (ts_jn r) (ts_dev r);
          Some (Goes st u (r\<lparr> ts_arena := arena, ts_txn := txn, ts_jn := j, ts_dev := s \<rparr>))
        }
   }"

definition stage_swap ::
  "'s build \<Rightarrow> tsm_config \<Rightarrow> 's slot_transport \<Rightarrow> 's platform \<Rightarrow> update_ctx \<Rightarrow> 's tsm \<Rightarrow> (update_ctx, 's) flow option" where
  "stage_swap b tc t p u r =
     (let h = arena_header r
      in case swap_components tc p (take (unat (th_image_count h) - 1) (tl (th_images h))) 1 (ih_image_size (up_staging_header u)) u r of
           (Inl st, u, r) \<Rightarrow> Some (Goes st u r)
         | (Inr components, u, r) \<Rightarrow>
             (case boot_journal_get_tmr (ts_jn r) of
                (BOOT_OK, Some tmr) \<Rightarrow>
                  (case boot_effect_admit_or_defer (bd_chip b) (the (pf_flash p)) tmr (ih_image_size (up_staging_header u)) components True (ts_dev r) of
                     (st, s) \<Rightarrow>
                       let r = r\<lparr> ts_dev := s \<rparr>
                       in if st \<noteq> BOOT_OK then Some (Goes st u r) else swap_perform b tc t p components u r)
              | _ \<Rightarrow> Some (Goes BOOT_ERR_STATE u r)))"

definition stage_commit :: "'s build \<Rightarrow> 's platform \<Rightarrow> update_ctx \<Rightarrow> 's tsm \<Rightarrow> (update_ctx, 's) flow option" where
  "stage_commit b p u r = (case append_intent b p WAL_INTENT_TXN_COMMIT r of (st, r) \<Rightarrow> Some (Goes st u r))"

section \<open>The pipeline\<close>

type_synonym 's stage = "update_ctx \<Rightarrow> 's tsm \<Rightarrow> (update_ctx, 's) flow option"

definition PIPELINE ::
  "'h heatshrink \<Rightarrow> 's build \<Rightarrow> tsm_config \<Rightarrow> 's slot_transport \<Rightarrow> 's platform \<Rightarrow> ('s stage \<times> u8 \<times> bool) list" where
  "PIPELINE hs b tc t p =
     [(stage_parse b tc p, 9, False), (stage_verify_envelope tc p, 11, False), (stage_check_svn p, 12, False),
      (stage_check_binding p, 14, True), (stage_route b p, 15, False), (stage_apply_unified hs b tc p, 16, False),
      (stage_swap b tc t p, 17, False), (stage_commit b p, 18, False)]"

text \<open>A stage that fails ends the run, unless it may be skipped.\<close>

fun run_stages ::
  "('s stage \<times> u8 \<times> bool) list \<Rightarrow> boot_cfi_ctx \<Rightarrow> update_ctx \<Rightarrow> 's tsm \<Rightarrow> (update_ctx \<times> boot_cfi_ctx, 's) flow option" where
  "run_stages [] cfi u r = Some (Goes BOOT_OK (u, cfi) r)"
| "run_stages ((f, slot, skippable) # stages) cfi u r =
     (case f u r of
        None \<Rightarrow> None
      | Some (Panics st r) \<Rightarrow> Some (Panics st r)
      | Some (Freezes st site r) \<Rightarrow> Some (Freezes st site r)
      | Some (Goes st u r) \<Rightarrow>
          if st \<noteq> BOOT_OK \<and> \<not> skippable then Some (Goes st (u, cfi) r)
          else run_stages stages (boot_cfi_step slot cfi) u r)"

definition run_pipeline ::
  "'h heatshrink \<Rightarrow> 's build \<Rightarrow> tsm_config \<Rightarrow> 's slot_transport \<Rightarrow> 's platform \<Rightarrow> boot_cfi_ctx \<Rightarrow> update_ctx \<Rightarrow> 's tsm \<Rightarrow>
     (update_ctx \<times> boot_cfi_ctx, 's) flow option" where
  "run_pipeline hs b tc t p cfi u r =
     (let pl = PIPELINE hs b tc t p
      in run_stages pl (fold (\<lambda>(_, slot, _). boot_cfi_add_expected slot) pl cfi) u r)"

text \<open>The error table: the rejected errors, and the intent each of them leads to.\<close>

definition ERR_TABLE :: "(boot_status \<times> boot_status \<times> u32) list" where
  "ERR_TABLE =
     [(BOOT_ERR_VERIFY, BOOT_OK, WAL_INTENT_NONE), (BOOT_ERR_DOWNGRADE, BOOT_OK, WAL_INTENT_NONE),
      (BOOT_ERR_INVALID_ARG, BOOT_OK, WAL_INTENT_NONE), (BOOT_ERR_FLASH_BOUNDS, BOOT_OK, WAL_INTENT_NONE),
      (BOOT_ERR_INVALID_STATE, BOOT_OK, WAL_INTENT_NONE), (BOOT_ERR_NOT_FOUND, BOOT_OK, WAL_INTENT_NONE),
      (BOOT_ERR_MANIFEST_CORRUPT, BOOT_OK, WAL_INTENT_NONE), (BOOT_ERR_MANIFEST_VERSION, BOOT_OK, WAL_INTENT_NONE),
      (BOOT_ERR_MANIFEST_PRODUCT, BOOT_OK, WAL_INTENT_NONE), (BOOT_ERR_DEFER, BOOT_OK, WAL_INTENT_SLEEP_BACKOFF)]"

definition handle_update_result ::
  "'s build \<Rightarrow> 's platform \<Rightarrow> update_ctx \<Rightarrow> boot_status \<Rightarrow> u8 \<Rightarrow> 's tsm \<Rightarrow> (unit, 's) flow" where
  "handle_update_result b p u pipeline_status slot r =
     (case (if pipeline_status = BOOT_OK then (BOOT_OK, r)
            else case find (\<lambda>(e, _, _). e = pipeline_status) ERR_TABLE of
              None \<Rightarrow> (pipeline_status, r)
            | Some (_, out, reject_to) \<Rightarrow>
                (case append_intent b p reject_to r of (st, r) \<Rightarrow> (if st \<noteq> BOOT_OK then st else out, r))) of
        (st, r) \<Rightarrow>
          let n = unat (up_total_len u);
              r = (if 0 < n \<and> n \<le> length (ts_arena r) then r\<lparr> ts_arena := patch 0 (zeroed n) (ts_arena r) \<rparr> else r)
          in Goes st () (if st = BOOT_OK then tsm_step slot r else r))"

text \<open>The flow returns the two SVNs the manifest raised, 0 if there was no update or it failed.\<close>

definition handle_update_flow ::
  "'h heatshrink \<Rightarrow> 's build \<Rightarrow> tsm_config \<Rightarrow> 's slot_transport \<Rightarrow> 's platform \<Rightarrow> u8 \<Rightarrow> 's tsm \<Rightarrow> (u32 \<times> u32, 's) flow option" where
  "handle_update_flow hs b tc t p slot r =
     (if we_intent (ts_txn r) \<noteq> WAL_INTENT_UPDATE_PENDING then Some (Goes BOOT_OK (0, 0) (tsm_step slot r))
      else case run_pipeline hs b tc t p (boot_cfi_init 0x5a5a5a5a) update_ctx_start r of
        None \<Rightarrow> None
      | Some (Panics st r) \<Rightarrow> Some (Panics st r)
      | Some (Freezes st site r) \<Rightarrow> Some (Freezes st site r)
      | Some (Goes st (u, cfi) r) \<Rightarrow>
          let st = (if st = BOOT_OK \<and> \<not> boot_cfi_require False cfi then BOOT_ERR_INVALID_STATE else st)
          in (case handle_update_result b p u st slot r of
                Goes st' _ r \<Rightarrow> Some (Goes st' (if st = BOOT_OK then (up_extracted_svn u, up_extracted_stage1_svn u) else (0, 0)) r)
              | Panics st r \<Rightarrow> Some (Panics st r)
              | Freezes st site r \<Rightarrow> Some (Freezes st site r)))"

section \<open>The orchestration\<close>

definition STATE_CFI_EXPECTED :: "u8 list" where
  "STATE_CFI_EXPECTED = [1, 2, 3, 4, 5, 6, 7, 8]"

text \<open>Step 1: journal, mailbox, counters and the open transaction; with the two resume numbers.\<close>

definition step_journal ::
  "'s build \<Rightarrow> tsm_config \<Rightarrow> 's platform \<Rightarrow> 's tsm \<Rightarrow> (u32 \<times> u32, 's) flow option" where
  "step_journal b tc p r =
     (case boot_journal_init (bd_wal b) p (ts_jn r) (ts_dev r) of
        Halts st site s \<Rightarrow> Some (Freezes st site (r\<lparr> ts_dev := boot_terminal_halt (tc_forensic_addr tc) p st site s \<rparr>))
      | Returns (st, j) s \<Rightarrow>
          let r = r\<lparr> ts_jn := j, ts_dev := s \<rparr>
          in if st \<noteq> BOOT_OK then Some (Goes st (0, 0) r)
             else case boot_mailbox_consume (bd_wal b) (bd_chip b) p (ts_jn r) (ts_dev r) of (st, j, s) \<Rightarrow>
               let r = r\<lparr> ts_jn := j, ts_dev := s \<rparr>
               in if st \<noteq> BOOT_OK then Some (Goes st (0, 0) r)
                  else case boot_journal_get_tmr (ts_jn r) of
                    (st, None) \<Rightarrow> Some (Goes st (0, 0) r)
                  | (st, Some t) \<Rightarrow>
                      let r = r\<lparr> ts_tmr := t \<rparr>
                      in if st \<noteq> BOOT_OK then Some (Goes st (0, 0) r)
                         else case boot_journal_reconstruct_txn (bd_wal b) p (ts_jn r) True True (ts_dev r) of (st, rc, s) \<Rightarrow>
                           let r = r\<lparr> ts_dev := s, ts_txn := (case rc of None \<Rightarrow> entry_of (zeroed 64) | Some rc \<Rightarrow> rc_state rc) \<rparr>;
                               x = (case rc of None \<Rightarrow> (0, 0) | Some rc \<Rightarrow> (rc_net_accum rc, rc_resume_offset rc))
                           in if st \<noteq> BOOT_OK \<and> st \<noteq> BOOT_ERR_STATE then Some (Goes st x r)
                              else
                                let r = (if st = BOOT_ERR_STATE then set_intent WAL_INTENT_NONE r else r)
                                in Some (Goes BOOT_OK x (tsm_kick p (tsm_step 1 r))))"

text \<open>Step 2: the confirmation. The result says whether this boot healed.\<close>

definition combined_nonce :: "wal_tmr_payload \<Rightarrow> u64" where
  "combined_nonce t = push_bit 32 (ucast (tm_active_nonce_hi t)) OR ucast (tm_active_nonce_lo t)"

definition rtc_confirmed :: "'s platform \<Rightarrow> 's tsm \<Rightarrow> bool \<times> 's tsm" where
  "rtc_confirmed p r =
     (case pf_confirm p of None \<Rightarrow> (False, r)
      | Some n \<Rightarrow> (case nh_check_ok n of None \<Rightarrow> (False, r)
        | Some check \<Rightarrow> (case check (combined_nonce (ts_tmr r)) (ts_dev r) of (ok, s) \<Rightarrow> (ok, r\<lparr> ts_dev := s \<rparr>))))"

definition step_confirm ::
  "'s build \<Rightarrow> 's platform \<Rightarrow> 's tsm \<Rightarrow> (bool, 's) flow option" where
  "step_confirm b p r =
     (case rtc_confirmed p r of (rtc, r) \<Rightarrow>
        let i = we_intent (ts_txn r)
        in if i \<noteq> WAL_INTENT_DEVICE_LOCKED \<and> (i = WAL_INTENT_CONFIRM_COMMIT \<or> i = WAL_INTENT_RECOVERY_RESOLVED \<or> rtc) then
             let auth_ok = (rtc \<or> i = WAL_INTENT_CONFIRM_COMMIT \<and> we_expected_nonce (ts_txn r) XOR combined_nonce (ts_tmr r) = 0 \<or>
                            i = WAL_INTENT_RECOVERY_RESOLVED)
             in if \<not> secure_require auth_ok then Some (Goes BOOT_OK False (tsm_step 3 (set_intent WAL_INTENT_NONE r)))
                else
                  let r = (if rtc \<and> i = WAL_INTENT_NONE then set_intent WAL_INTENT_CONFIRM_COMMIT r else r)
                  in (case evaluate_transition b p EV_CONFIRM_OK r of
                        None \<Rightarrow> None
                      | Some (Panics st r) \<Rightarrow> Some (Panics st r)
                      | Some (Freezes st site r) \<Rightarrow> Some (Freezes st site r)
                      | Some (Goes st _ r) \<Rightarrow> Some (if st \<noteq> BOOT_OK then Goes st False r else Goes BOOT_OK True (tsm_step 3 r)))
           else Some (Goes BOOT_OK False (tsm_step 3 r)))"

text \<open>Step 2.7, the lock gate, and step 3, crash detection.\<close>

definition step_lock_gate :: "'s tsm \<Rightarrow> (unit, 's) flow option" where
  "step_lock_gate r =
     (if \<not> secure_require (we_intent (ts_txn r) \<noteq> WAL_INTENT_DEVICE_LOCKED) then Some (Panics BOOT_ERR_DEVICE_LOCKED r)
      else Some (Goes BOOT_OK () (tsm_step 5 r)))"

definition app_crash :: "reset_reason \<Rightarrow> u32 \<Rightarrow> bool \<Rightarrow> bool" where
  "app_crash rst intent healed \<longleftrightarrow>
     (intent = WAL_INTENT_CONFIRM_COMMIT \<or>
      (rst = RESET_REASON_WATCHDOG \<or> rst = RESET_REASON_HARD_FAULT) \<and> intent \<noteq> WAL_INTENT_UPDATE_PENDING \<and> intent \<noteq> WAL_INTENT_TXN_BEGIN) \<and>
     \<not> healed"

definition step_crash :: "'s build \<Rightarrow> 's platform \<Rightarrow> bool \<Rightarrow> 's tsm \<Rightarrow> (unit, 's) flow option" where
  "step_crash b p healed r =
     (case the (kh_get_reset_reason (the (pf_clock p))) (ts_dev r) of (rst, s) \<Rightarrow>
        let r = r\<lparr> ts_dev := s \<rparr>
        in if app_crash rst (we_intent (ts_txn r)) healed then evaluate_transition b p EV_CRASH r else Some (Goes BOOT_OK () r))"

text \<open>Step 5: the image header, the sealed proof, the nonce of a tentative boot.\<close>

definition step_proof ::
  "'s build \<Rightarrow> tsm_config \<Rightarrow> 's platform \<Rightarrow> u32 list \<Rightarrow> 's tsm \<Rightarrow> (unit, 's) flow" where
  "step_proof b tc p seal_key r =
     (let slot_addr = (if bt_boot_recovery_os (ts_target r) then tc_recovery_addr tc else cc_app_addr (bd_chip b))
      in case fh_read (the (pf_flash p)) slot_addr 20 (ts_dev r) of (st, d, s) \<Rightarrow>
           let r = r\<lparr> ts_dev := s \<rparr>; h = image_header_of (fill_prefix d (zeroed 20))
           in if st \<noteq> BOOT_OK then Goes st () r
              else if \<not> secure_require (ih_magic h = TOOB_MAGIC_HEADER) then Goes BOOT_ERR_NOT_FOUND () r
              else Goes BOOT_OK () (r\<lparr> ts_target := (ts_target r)\<lparr> bt_proof := boot_proof_seal ((bt_proof (ts_target r))\<lparr>
                     pr_image_addr := slot_addr, pr_image_size := ih_image_size h, pr_entry_point := ih_entry_point h,
                     pr_svn := tm_stage1_svn (ts_tmr r) \<rparr>) seal_key \<rparr> \<rparr>))"

definition step_nonce :: "'s build \<Rightarrow> 's platform \<Rightarrow> bool \<Rightarrow> 's tsm \<Rightarrow> (unit, 's) flow" where
  "step_nonce b p healed r =
     (let requires_confirmation = (we_intent (ts_txn r) = WAL_INTENT_TXN_COMMIT \<or> healed);
          r = tsm_kick p (r\<lparr> ts_target := (ts_target r)\<lparr> bt_is_tentative_boot := requires_confirmation \<rparr> \<rparr>)
      in if \<not> requires_confirmation then Goes BOOT_OK () (r\<lparr> ts_target := (ts_target r)\<lparr> bt_generated_nonce := 0 \<rparr> \<rparr>)
         else case boot_random_safe p 8 (ts_dev r) of (st, d, s) \<Rightarrow>
           let n = rd64 0 (fill_prefix d (zeroed 8)); r = r\<lparr> ts_dev := s, ts_target := (ts_target r)\<lparr> bt_generated_nonce := n \<rparr> \<rparr>
           in if st \<noteq> BOOT_OK then Goes st () r
              else case tsm_update_tmr b p (r\<lparr> ts_tmr := (ts_tmr r)\<lparr> tm_active_nonce_lo := ucast n,
                     tm_active_nonce_hi := ucast (drop_bit 32 n) \<rparr> \<rparr>) of (st, r) \<Rightarrow>
                if st \<noteq> BOOT_OK then Goes st () r
                else if we_intent (ts_txn r) = WAL_INTENT_NONE then Goes BOOT_OK () r
                else case tsm_append b p (ts_txn r) r of (st, r) \<Rightarrow> Goes st () r)"

definition raise_svn :: "u32 \<Rightarrow> u32 \<Rightarrow> wal_tmr_payload \<Rightarrow> wal_tmr_payload" where
  "raise_svn svn stage1_svn t = t\<lparr> tm_app_svn := max (tm_app_svn t) svn, tm_stage1_svn := max (tm_stage1_svn t) stage1_svn \<rparr>"

text \<open>The steps in their order; every step but the last is followed by its token.\<close>

definition boot_state_body ::
  "'h heatshrink \<Rightarrow> 's build \<Rightarrow> tsm_config \<Rightarrow> 's slot_transport \<Rightarrow> cbor_decoder \<Rightarrow> 's platform \<Rightarrow> u32 list \<Rightarrow> 's tsm \<Rightarrow> (unit, 's) flow option" where
  "boot_state_body hs b tc t decode p seal_key r =
     and_then (step_journal b tc p r) (\<lambda>(net_accum, resume_offset) r.
     and_then (step_confirm b p r) (\<lambda>healed r.
     and_then (handle_cloud_cmd b tc decode p 4 r) (\<lambda>_ r.
     and_then (step_lock_gate (tsm_kick p r)) (\<lambda>_ r.
     and_then (step_crash b p healed r) (\<lambda>_ r.
     and_then (handle_rollback_flow b tc t p 6 r) (\<lambda>_ r.
     and_then (handle_update_flow hs b tc t p 7 (tsm_kick p r)) (\<lambda>(svn, stage1_svn) r.
     and_then (Some (step_proof b tc p seal_key (r\<lparr> ts_tmr := raise_svn svn stage1_svn (ts_tmr r) \<rparr>))) (\<lambda>_ r.
     and_then (Some (step_nonce b p healed r)) (\<lambda>_ r.
       Some (Goes BOOT_OK () (tsm_step 8 (r\<lparr> ts_target := (ts_target r)\<lparr> bt_net_search_accum_ms := net_accum,
               bt_resume_offset := resume_offset \<rparr> \<rparr>))))))))))))"

text \<open>
  The entry point. \<open>ts_jn\<close>, \<open>ts_swap\<close>, \<open>ts_diag\<close> and \<open>ts_arena\<close> of the argument are what the statics and the
  caller's buffer hold; the locals start as zero. The last check compares the tokens of the steps taken with
  those expected, and any failure clears the target.
\<close>

definition state_pointers_ok :: "'s platform \<Rightarrow> bool" where
  "state_pointers_ok p \<longleftrightarrow>
     (case (pf_clock p, pf_flash p, pf_crypto p, pf_wdt p) of
        (Some k, Some _, Some c, Some w) \<Rightarrow> kh_get_reset_reason k \<noteq> None \<and> ch_random c \<noteq> None \<and> wh_kick w \<noteq> None
      | _ \<Rightarrow> False)"

definition state_cfi :: "'s platform \<Rightarrow> 's \<Rightarrow> boot_cfi_ctx \<times> 's" where
  "state_cfi p s =
     (case boot_random_safe p 4 s of (_, buf, s) \<Rightarrow>
        (fold boot_cfi_add_expected STATE_CFI_EXPECTED (boot_cfi_init (rd32 0 (fill_prefix buf (zeroed 4)))), s))"

definition state_cleanup :: "(unit, 's) flow \<Rightarrow> (unit, 's) flow" where
  "state_cleanup f =
     (case f of
        Goes st _ r \<Rightarrow>
          let st = (if st = BOOT_OK \<and> \<not> boot_cfi_require False (ts_cfi r) then BOOT_ERR_INVALID_STATE else st)
          in Goes st () (if st \<noteq> BOOT_OK then r\<lparr> ts_target := target_zero \<rparr> else r)
      | _ \<Rightarrow> f)"

definition boot_state_run ::
  "'h heatshrink \<Rightarrow> 's build \<Rightarrow> tsm_config \<Rightarrow> 's slot_transport \<Rightarrow> cbor_decoder \<Rightarrow> 's platform \<Rightarrow> u32 list \<Rightarrow> 's tsm \<Rightarrow> (unit, 's) flow option" where
  "boot_state_run hs b tc t decode p seal_key r =
     (if length (ts_arena r) < 512 \<or> \<not> state_pointers_ok p then Some (Goes BOOT_ERR_INVALID_ARG () r)
      else case state_cfi p (ts_dev r) of (cfi, s) \<Rightarrow>
        map_option state_cleanup (boot_state_body hs b tc t decode p seal_key
          (r\<lparr> ts_dev := s, ts_cfi := cfi, ts_target := target_zero, ts_txn := entry_of (zeroed 64) \<rparr>)))"

section \<open>The tokens of the steps\<close>

text \<open>Only \<open>tsm_step\<close> touches the control-flow context; every other operation hands it through.\<close>

named_theorems cfi_frame

lemma tsm_append_cfi [cfi_frame]: "tsm_append b p e r = (st, r') \<Longrightarrow> ts_cfi r' = ts_cfi r"
  by (auto simp: tsm_append_def split: prod.splits)

lemma tsm_update_tmr_cfi [cfi_frame]: "tsm_update_tmr b p r = (st, r') \<Longrightarrow> ts_cfi r' = ts_cfi r"
  by (auto simp: tsm_update_tmr_def split: prod.splits)

lemma set_intent_cfi [simp]: "ts_cfi (set_intent i r) = ts_cfi r" "ts_cfi (tsm_kick p r) = ts_cfi r"
  by (simp_all add: set_intent_def tsm_kick_def)

lemma append_intent_cfi [cfi_frame]: "append_intent b p i r = (st, r') \<Longrightarrow> ts_cfi r' = ts_cfi r"
  by (auto simp: append_intent_def dest: tsm_append_cfi split: prod.splits if_splits)

lemma heal_counter_cfi [cfi_frame]: "heal_counter b p nxt r = Some (Goes st x r') \<Longrightarrow> ts_cfi r' = ts_cfi r"
  by (auto simp: heal_counter_def Let_def dest!: cfi_frame split: prod.splits if_splits option.splits)

lemma evaluate_transition_cfi [cfi_frame]: "evaluate_transition b p ev r = Some (Goes st x r') \<Longrightarrow> ts_cfi r' = ts_cfi r"
  by (auto simp: evaluate_transition_def dest!: cfi_frame split: prod.splits option.splits intent_action.splits)

lemma dispatch_cmd_cfi [cfi_frame]: "dispatch_cmd b tc p cmd r = Goes st x r' \<Longrightarrow> ts_cfi r' = ts_cfi r"
  by (auto simp: dispatch_cmd_def Let_def dest!: cfi_frame split: prod.splits if_splits option.splits)

lemma and_then_ok:
  assumes "and_then m k = Some (Goes BOOT_OK x r')"
  obtains y r1 where "m = Some (Goes BOOT_OK y r1)" "k y r1 = Some (Goes BOOT_OK x r')"
  using assms by (auto simp: and_then_def split: option.splits flow.splits if_splits)

lemma handle_cloud_cmd_cfi:
  assumes "handle_cloud_cmd b tc decode p slot r = Some (Goes BOOT_OK x r')"
  shows "ts_cfi r' = boot_cfi_step slot (ts_cfi r)"
proof -
  obtain st cmd j s where e: "boot_cloud_cmd_evaluate_flash (bd_wal b) (tc_cloud tc) decode p (ts_jn r) (ts_dev r) = (st, cmd, j, s)"
    by (metis prod_cases4)
  let ?r = "r\<lparr> ts_jn := j, ts_dev := s, ts_arena := zeroed (length (ts_arena r)) \<rparr>"
  show ?thesis
  proof (cases "st = BOOT_OK")
    case False
    then show ?thesis using assms e by (auto simp: handle_cloud_cmd_def tsm_step_def)
  next
    case True
    then obtain y r1 where "dispatch_cmd b tc p (case cmd of None \<Rightarrow> TOOB_CMD_NOP | Some c \<Rightarrow> c) ?r = Goes BOOT_OK y r1"
      "ts_cfi r' = boot_cfi_step slot (ts_cfi r1)"
      using assms e by (auto simp: handle_cloud_cmd_def tsm_step_def Let_def elim!: and_then_ok)
    then show ?thesis using dispatch_cmd_cfi by fastforce
  qed
qed

lemma rollback_trial_cfi [cfi_frame]: "rollback_trial b t p r = Some (Goes st x r') \<Longrightarrow> ts_cfi r' = ts_cfi r"
  by (auto simp: rollback_trial_def Let_def dest!: cfi_frame split: prod.splits if_splits option.splits)

lemma rollback_escalate_cfi [cfi_frame]: "rollback_escalate b tc p r = Goes st x r' \<Longrightarrow> ts_cfi r' = ts_cfi r"
  by (auto simp: rollback_escalate_def split: os_verdict.splits)

lemma handle_rollback_flow_cfi:
  assumes "handle_rollback_flow b tc t p slot r = Some (Goes BOOT_OK x r')"
  shows "ts_cfi r' = boot_cfi_step slot (ts_cfi r)"
  using assms
  by (auto simp: handle_rollback_flow_def tsm_step_def elim!: and_then_ok dest!: rollback_trial_cfi rollback_escalate_cfi split: if_splits)

text \<open>The stages of the pipeline leave the context of the state machine alone.\<close>

definition stage_frames :: "'s stage \<Rightarrow> bool" where
  "stage_frames f \<longleftrightarrow> (\<forall>u r st u' r'. f u r = Some (Goes st u' r') \<longrightarrow> ts_cfi r' = ts_cfi r)"

lemma stage_framesI: "(\<And>u r st u' r'. f u r = Some (Goes st u' r') \<Longrightarrow> ts_cfi r' = ts_cfi r) \<Longrightarrow> stage_frames f"
  by (simp add: stage_frames_def)

lemma stage_parse_frames: "stage_frames (stage_parse b tc p)"
  by (rule stage_framesI) (auto simp: stage_parse_def Let_def split: prod.splits if_splits)

lemma stage_verify_envelope_frames: "stage_frames (stage_verify_envelope tc p)"
  by (rule stage_framesI) (auto simp: stage_verify_envelope_def Let_def split: prod.splits if_splits)

lemma stage_check_svn_frames: "stage_frames (stage_check_svn p)"
  by (rule stage_framesI) (auto simp: stage_check_svn_def Let_def split: prod.splits)

lemma check_device_bind_cfi: "check_device_bind p r = (st, r') \<Longrightarrow> ts_cfi r' = ts_cfi r"
  by (auto simp: check_device_bind_def Let_def split: prod.splits if_splits option.splits)

lemma stage_check_binding_frames: "stage_frames (stage_check_binding p)"
  by (rule stage_framesI) (auto simp: stage_check_binding_def Let_def dest!: check_device_bind_cfi split: prod.splits if_splits)

lemma stage_route_frames: "stage_frames (stage_route b p)"
  by (rule stage_framesI) (auto simp: stage_route_def Let_def split: prod.splits if_splits)

lemma delta_verify_cfi: "delta_verify tc p k u r = Goes st u' r' \<Longrightarrow> ts_cfi r' = ts_cfi r"
  by (auto simp: delta_verify_def Let_def split: prod.splits if_splits)

lemma stage_apply_delta_frames: "stage_frames (stage_apply_delta hs b tc p)"
  by (rule stage_framesI)
    (auto simp: stage_apply_delta_def Let_def dest!: delta_verify_cfi split: prod.splits if_splits option.splits)

lemma stage_apply_raw_frames: "stage_frames (stage_apply_raw b tc p)"
  by (rule stage_framesI) (auto simp: stage_apply_raw_def Let_def split: prod.splits if_splits)

lemma stage_apply_unified_frames: "stage_frames (stage_apply_unified hs b tc p)"
  using stage_apply_delta_frames [of hs b tc p] stage_apply_raw_frames [of b tc p]
  by (auto simp: stage_frames_def stage_apply_unified_def)

lemma component_target_cfi: "component_target tc p im u r = (x, u', r') \<Longrightarrow> ts_cfi r' = ts_cfi r"
  by (auto simp: component_target_def Let_def boot_journal_get_tmr_def split: prod.splits if_splits)

lemma swap_components_cfi: "swap_components tc p ims i off u r = (x, u', r') \<Longrightarrow> ts_cfi r' = ts_cfi r"
  by (induction ims arbitrary: i off u r x)
    (auto dest!: component_target_cfi split: prod.splits sum.splits)

lemma swap_perform_cfi: "swap_perform b tc t p cs u r = Some (Goes st u' r') \<Longrightarrow> ts_cfi r' = ts_cfi r"
  by (auto simp: swap_perform_def Let_def bind_eq_Some_conv split: prod.splits if_splits)

lemma stage_swap_frames: "stage_frames (stage_swap b tc t p)"
  by (rule stage_framesI)
    (auto simp: stage_swap_def Let_def boot_journal_get_tmr_def dest!: swap_components_cfi swap_perform_cfi
      split: sum.splits prod.splits if_splits)

lemma stage_commit_frames: "stage_frames (stage_commit b p)"
  by (rule stage_framesI) (auto simp: stage_commit_def dest!: append_intent_cfi split: prod.splits)

lemma run_stages_cfi:
  "run_stages stages cfi u r = Some (Goes st x r') \<Longrightarrow> (\<And>f slot k. (f, slot, k) \<in> set stages \<Longrightarrow> stage_frames f) \<Longrightarrow> ts_cfi r' = ts_cfi r"
proof (induction stages arbitrary: cfi u r)
  case Nil
  then show ?case by simp
next
  case (Cons a stages)
  obtain f slot k where a: "a = (f, slot, k)" by (metis prod_cases3)
  have "stage_frames f" using Cons.prems(2) [of f slot k] a by simp
  then show ?case using Cons.prems a
    by (auto simp: stage_frames_def split: option.splits flow.splits if_splits dest!: Cons.IH) (metis Cons.IH)+
qed

lemmas stages_frame = stage_parse_frames stage_verify_envelope_frames stage_check_svn_frames stage_check_binding_frames
  stage_route_frames stage_apply_unified_frames stage_swap_frames stage_commit_frames

lemma run_pipeline_cfi:
  assumes "run_pipeline hs b tc t p cfi u r = Some (Goes st x r')" shows "ts_cfi r' = ts_cfi r"
  using run_stages_cfi [OF assms [unfolded run_pipeline_def Let_def]] stages_frame by (fastforce simp: PIPELINE_def)

lemma handle_update_result_cfi:
  assumes "handle_update_result b p u stat slot r = Goes st x r'"
  shows "ts_cfi r' = (if st = BOOT_OK then boot_cfi_step slot (ts_cfi r) else ts_cfi r)"
  using assms
  by (auto simp: handle_update_result_def Let_def tsm_step_def dest!: append_intent_cfi split: prod.splits if_splits option.splits)

lemma handle_update_flow_cfi:
  assumes "handle_update_flow hs b tc t p slot r = Some (Goes BOOT_OK x r')"
  shows "ts_cfi r' = boot_cfi_step slot (ts_cfi r)"
  using assms
  by (auto simp: handle_update_flow_def Let_def tsm_step_def dest!: run_pipeline_cfi handle_update_result_cfi
      split: option.splits flow.splits if_splits prod.splits)

lemma step_journal_cfi:
  "step_journal b tc p r = Some (Goes BOOT_OK x r') \<Longrightarrow> ts_cfi r' = boot_cfi_step 1 (ts_cfi r)"
  by (auto simp: step_journal_def Let_def tsm_step_def boot_journal_get_tmr_def split: outcome.splits prod.splits if_splits option.splits)

lemma rtc_confirmed_cfi [cfi_frame]: "rtc_confirmed p r = (ok, r') \<Longrightarrow> ts_cfi r' = ts_cfi r"
  by (auto simp: rtc_confirmed_def split: option.splits prod.splits)

lemma step_confirm_cfi:
  assumes "step_confirm b p r = Some (Goes BOOT_OK x r')" shows "ts_cfi r' = boot_cfi_step 3 (ts_cfi r)"
proof -
  obtain ok r1 where 1: "rtc_confirmed p r = (ok, r1)" by fastforce
  show ?thesis
    using assms rtc_confirmed_cfi [OF 1]
    by (auto simp: step_confirm_def 1 Let_def tsm_step_def dest!: evaluate_transition_cfi split: if_splits option.splits flow.splits)
qed

lemma step_lock_gate_cfi: "step_lock_gate r = Some (Goes BOOT_OK x r') \<Longrightarrow> ts_cfi r' = boot_cfi_step 5 (ts_cfi r)"
  by (auto simp: step_lock_gate_def tsm_step_def split: if_splits)

lemma step_crash_cfi [cfi_frame]: "step_crash b p healed r = Some (Goes BOOT_OK x r') \<Longrightarrow> ts_cfi r' = ts_cfi r"
  by (auto simp: step_crash_def Let_def dest!: evaluate_transition_cfi split: prod.splits if_splits)

lemma step_proof_cfi [cfi_frame]: "step_proof b tc p key r = Goes BOOT_OK x r' \<Longrightarrow> ts_cfi r' = ts_cfi r"
  by (auto simp: step_proof_def Let_def split: prod.splits if_splits)

lemma step_nonce_cfi [cfi_frame]: "step_nonce b p healed r = Goes BOOT_OK x r' \<Longrightarrow> ts_cfi r' = ts_cfi r"
  by (auto simp: step_nonce_def Let_def dest!: tsm_update_tmr_cfi tsm_append_cfi split: prod.splits if_splits)

text \<open>A run of the body that succeeds, step by step; it has taken seven of the eight steps expected.\<close>

lemma boot_state_body_ok:
  assumes "boot_state_body hs b tc t decode p key r = Some (Goes BOOT_OK x r')"
  obtains net resume r1 healed r2 r3 r4 r5 r6 svn stage1_svn r7 r8 r9 where
    "step_journal b tc p r = Some (Goes BOOT_OK (net, resume) r1)" "step_confirm b p r1 = Some (Goes BOOT_OK healed r2)"
    "handle_cloud_cmd b tc decode p 4 r2 = Some (Goes BOOT_OK () r3)" "step_lock_gate (tsm_kick p r3) = Some (Goes BOOT_OK () r4)"
    "step_crash b p healed r4 = Some (Goes BOOT_OK () r5)" "handle_rollback_flow b tc t p 6 r5 = Some (Goes BOOT_OK () r6)"
    "handle_update_flow hs b tc t p 7 (tsm_kick p r6) = Some (Goes BOOT_OK (svn, stage1_svn) r7)"
    "step_proof b tc p key (r7\<lparr> ts_tmr := raise_svn svn stage1_svn (ts_tmr r7) \<rparr>) = Goes BOOT_OK () r8"
    "step_nonce b p healed r8 = Goes BOOT_OK () r9"
    "r' = tsm_step 8 (r9\<lparr> ts_target := (ts_target r9)\<lparr> bt_net_search_accum_ms := net, bt_resume_offset := resume \<rparr> \<rparr>)"
  using assms unfolding boot_state_body_def
  by (elim and_then_ok case_prodE) (simp split: prod.splits, elim and_then_ok, simp split: prod.splits, elim and_then_ok, simp)

lemma boot_state_body_cfi:
  assumes "boot_state_body hs b tc t decode p key r = Some (Goes BOOT_OK x r')"
  shows "ts_cfi r' = fold boot_cfi_step [1, 3, 4, 5, 6, 7, 8] (ts_cfi r)"
  using assms
  by (elim boot_state_body_ok) (simp add: tsm_step_def step_journal_cfi step_confirm_cfi handle_cloud_cmd_cfi step_lock_gate_cfi
      step_crash_cfi handle_rollback_flow_cfi handle_update_flow_cfi step_proof_cfi step_nonce_cfi)

lemma state_cfi_unsatisfiable:
  assumes "state_cfi p s = (c, s')" shows "\<not> boot_cfi_require False (fold boot_cfi_step [1, 3, 4, 5, 6, 7, 8] c)"
proof -
  obtain seed where c: "c = fold boot_cfi_add_expected STATE_CFI_EXPECTED (boot_cfi_init seed)"
    using assms by (auto simp: state_cfi_def split: prod.splits)
  have "cfi_xor seed STATE_CFI_EXPECTED = cfi_derive seed 2 XOR cfi_xor seed [1, 3, 4, 5, 6, 7, 8]"
    by (simp add: STATE_CFI_EXPECTED_def xor.left_commute [of "cfi_derive seed 2"])
  then have "cfi_xor seed [1, 3, 4, 5, 6, 7, 8] \<noteq> cfi_xor seed STATE_CFI_EXPECTED"
    using cfi_derive_nonzero [of seed 2] by (metis word_xor_left_cancel xor.left_commute xor.right_neutral)
  then show ?thesis unfolding c cfi_require_plan by blast
qed

section \<open>The crash ladder\<close>

lemma crash_accum_counters:
  assumes "unat (cc_max_retries cc) < 2 ^ 32 - 1" "n < 2 ^ 32" "tm_boot_failure_counter t = 0" "tm_recovery_failure_counter t = 0"
  shows "unat (tm_boot_failure_counter ((crash_accum cc ^^ n) t)) = min n (unat (cc_max_retries cc) + 1)"
    "unat (tm_recovery_failure_counter ((crash_accum cc ^^ n) t)) = n - (unat (cc_max_retries cc) + 1)"
proof -
  let ?m = "unat (cc_max_retries cc) + 1"
  have "unat (tm_boot_failure_counter ((crash_accum cc ^^ n) t)) = min n ?m \<and>
    unat (tm_recovery_failure_counter ((crash_accum cc ^^ n) t)) = n - ?m"
    using assms(2)
  proof (induction n)
    case 0
    then show ?case using assms(3,4) by simp
  next
    case (Suc n)
    let ?t = "(crash_accum cc ^^ n) t"
    have ih: "unat (tm_boot_failure_counter ?t) = min n ?m" "unat (tm_recovery_failure_counter ?t) = n - ?m"
      using Suc by auto
    show ?case
    proof (cases "n < ?m")
      case True
      then have "unat (tm_boot_failure_counter ?t + 1) = Suc n"
        using ih(1) assms(1) by (simp add: unat_word_ariths)
      then show ?thesis using True ih by (simp add: crash_accum_def [of cc ?t] word_less_unat)
    next
      case False
      then have "unat (tm_recovery_failure_counter ?t + 1) = Suc n - ?m"
        using ih(2) Suc.prems by (simp add: unat_word_ariths)
      then show ?thesis using False ih by (simp add: crash_accum_def [of cc ?t] word_less_unat)
    qed
  qed
  then show "unat (tm_boot_failure_counter ((crash_accum cc ^^ n) t)) = min n ?m"
    "unat (tm_recovery_failure_counter ((crash_accum cc ^^ n) t)) = n - ?m" by simp_all
qed

section \<open>A locked device\<close>

lemma step_confirm_locked:
  assumes "we_intent (ts_txn r) = WAL_INTENT_DEVICE_LOCKED"
  shows "\<exists>r'. step_confirm b p r = Some (Goes BOOT_OK False r') \<and> ts_txn r' = ts_txn r"
proof -
  obtain ok r1 where 1: "rtc_confirmed p r = (ok, r1)" by fastforce
  then have "ts_txn r1 = ts_txn r" by (auto simp: rtc_confirmed_def split: option.splits prod.splits)
  then show ?thesis using assms by (simp add: step_confirm_def 1 Let_def tsm_step_def)
qed

text \<open>The forced update and the wipe do not look at the lock: the one replaces it, the other drops it from the journal.\<close>

lemma force_update_unlocks:
  "dispatch_cmd b tc p TOOB_CMD_FORCE_UPDATE r = Goes BOOT_OK x r' \<Longrightarrow> we_intent (ts_txn r') = WAL_INTENT_UPDATE_PENDING"
  by (auto simp: dispatch_cmd_def append_intent_def set_intent_def TOOB_CMD_FORCE_UPDATE_def TOOB_CMD_KILLSWITCH_def TOOB_CMD_UNLOCK_def
      split: prod.splits if_splits)

section \<open>The delta stage\<close>

lemma align_eight: "unat (x AND NOT 7 :: u32) = unat x div 8 * 8"
proof -
  have seven: "(7 :: u32) = mask 3" by (simp add: mask_eq_exp_minus_1)
  have "x AND NOT (mask 3) = push_bit 3 (drop_bit 3 x)"
    by (rule bit_word_eqI) (auto simp: bit_simps not_less)
  moreover have "unat (push_bit 3 (drop_bit 3 x)) = unat x div 8 * 8"
  proof -
    have "unat x div 8 * 8 < 4294967296" using div_times_less_eq_dividend [of "unat x" 8] unat_u32_lt [of x] le_less_trans by blast
    then show ?thesis by (simp add: push_bit_eq_mult drop_bit_eq_div unat_word_ariths unat_div)
  qed
  ultimately show ?thesis using seven by simp
qed

lemma zeroed_tail_image_size:
  assumes "ts_arena r = xs @ zeroed n" "length xs \<le> 196" "4 \<le> n" "200 \<le> length xs + n"
  shows "im_installed_size (primary_image r) = 0"
proof -
  have "drop 196 (ts_arena r) = zeroed (length xs + n - 196)" using assms by (simp add: zeroed_def)
  moreover have "le32 (zeroed k) = 0" if "4 \<le> k" for k
    using that by (simp add: le32_def zeroed_def)
  ultimately show ?thesis
    using assms by (simp add: primary_image_def arena_header_def tbm1_header_at_def tbm1_image_at_def rd32_def TBM1_MAX_IMAGES_def upt_rec)
qed

lemma delta_verify_no_size:
  "im_installed_size (primary_image r) = 0 \<Longrightarrow> \<exists>r'. delta_verify tc p k u r = Goes BOOT_ERR_VERIFY u r'"
  by (auto simp: delta_verify_def boot_merkle_verify_stream_def Let_def split: option.splits prod.splits)

text \<open>With the manifest overwritten, the image has no size any more unless the hashes cover the field.\<close>

lemma stage_apply_delta_rejects:
  assumes "stage_apply_delta hs b tc p u r = Some (Goes st u' r')" "unat (up_chunk_hash_len u) \<le> 192"
  shows "st \<noteq> BOOT_OK"
proof
  assume ok: "st = BOOT_OK"
  let ?k = "unat ((up_chunk_hash_len u + 7) AND NOT 7)"
  obtain st1 s1 where svn: "(if im_base_svn (primary_image r) > 0
      then boot_rollback_verify_svn p (ts_jn r) (im_base_svn (primary_image r)) ROLLBACK_TARGET_APP (ts_dev r) else (BOOT_OK, ts_dev r)) = (st1, s1)"
    by fastforce
  let ?arena = "patch 0 (slice_of (up_chunk_hash_off u) (unat (up_chunk_hash_len u)) (ts_arena r)) (ts_arena r)"
  obtain txn rest j s where
    d: "boot_delta_apply hs b p (we_offset (ts_txn r) + up_total_len u)
          (unat (cc_staging_addr (bd_chip b) + cc_app_size (bd_chip b) - (we_offset (ts_txn r) + up_total_len u))) (tc_delta_out_addr tc)
          (unat (tc_delta_out_size tc)) (cc_app_addr (bd_chip b)) (unat (cc_app_size (bd_chip b))) (ts_txn r) (drop ?k ?arena) (ts_jn r) s1 =
        Some (BOOT_OK, txn, rest, j, s)"
    and v: "delta_verify tc p ?k u (r\<lparr> ts_txn := txn, ts_jn := j, ts_dev := s, ts_arena := take ?k ?arena @ rest \<rparr>) = Goes BOOT_OK u' r'"
    using assms(1) ok svn by (auto simp: stage_apply_delta_def Let_def split: prod.splits if_splits option.splits)
  let ?r1 = "r\<lparr> ts_txn := txn, ts_jn := j, ts_dev := s, ts_arena := take ?k ?arena @ rest \<rparr>"
  have rest: "rest = zeroed (length (drop ?k ?arena))" "1024 \<le> length (drop ?k ?arena)"
    using boot_delta_apply_zeroes [OF d] by auto
  have "unat (up_chunk_hash_len u + 7) = unat (up_chunk_hash_len u) + 7"
    using assms(2) by (simp add: unat_word_ariths)
  then have "?k \<le> 192" using assms(2) unfolding align_eight by simp
  then have none: "im_installed_size (primary_image ?r1) = 0"
    using rest by (intro zeroed_tail_image_size [where xs = "take ?k ?arena" and n = "length (drop ?k ?arena)"]) simp_all
  obtain r2 where "delta_verify tc p ?k u ?r1 = Goes BOOT_ERR_VERIFY u r2" using delta_verify_no_size [OF none] by blast
  then show False using v by simp
qed

section \<open>A small device\<close>

definition small_tsm_config :: tsm_config where
  "small_tsm_config = \<lparr> tc_cloud = fuse_layout, tc_device = tbm1_default_device, tc_pqc = False, tc_double_verify = True,
     tc_arena_addr = 0x20000000, tc_forensic_addr = 0x2000F000, tc_recovery_addr = 96, tc_recovery_size = 16,
     tc_netcore_addr = 112, tc_netcore_size = 16, tc_stage1a_addr = 112, tc_stage1a_size = 8, tc_stage1b_addr = 120,
     tc_stage1b_size = 8, tc_delta_out_addr = 0, tc_delta_out_size = 64 \<rparr>"

definition small_tsm :: "flash_model tsm" where
  "small_tsm = \<lparr> ts_txn = delta_txn, ts_tmr = hd_tmr_data (jn_current_active_header journal_reset), ts_target = target_zero,
     ts_cfi = boot_cfi_init 7, ts_arena = zeroed 1056, ts_diag = boot_diag_init, ts_swap = SWAP_STATE_NORMAL, ts_jn = journal_reset,
     ts_dev = delta_device (delta_stream 16 [25, 136, 247, 30]) \<rparr>"

definition small_update :: update_ctx where
  "small_update = update_ctx_start\<lparr> up_total_len := 16, up_is_delta := True, up_chunk_hash_off := 512, up_chunk_hash_len := 32,
     up_num_chunks := 1, up_chunk_size := 16 \<rparr>"

lemma small_tsm_sel:
  "ts_arena small_tsm = zeroed 1056" "ts_txn small_tsm = delta_txn" "ts_jn small_tsm = journal_reset"
  "ts_dev small_tsm = delta_device (delta_stream 16 [25, 136, 247, 30])" "we_offset delta_txn = 0"
  "up_total_len small_update = 16" "up_chunk_hash_off small_update = 512" "up_chunk_hash_len small_update = 32"
  "tc_delta_out_addr small_tsm_config = 0" "tc_delta_out_size small_tsm_config = 64"
  "cc_staging_addr (bd_chip delta_build) = 16" "cc_app_addr (bd_chip delta_build) = 0" "cc_app_size (bd_chip delta_build) = 64"
  by (simp_all add: small_tsm_def delta_txn_def entry_of_def rd32_def le32_def zeroed_def small_update_def update_ctx_start_def
      small_tsm_config_def delta_build_def)

lemma small_delta_apply:
  "\<exists>r. stage_apply_delta store_decoder delta_build small_tsm_config delta_platform small_update small_tsm =
     Some (Goes BOOT_ERR_VERIFY small_update r)"
proof -
  have z: "patch 0 (slice_of 512 32 (zeroed 1056)) (zeroed 1056) = zeroed 1056" "drop 32 (zeroed 1056) = zeroed 1024"
    "take 32 (zeroed 1056) @ zeroed 1024 = zeroed 1056"
    by (simp_all add: patch_def slice_of_def zeroed_def replicate_add [symmetric])
  have img: "im_base_svn (primary_image small_tsm) = 0"
  proof -
    have "drop 208 (zeroed 1056) = zeroed 848" by (simp add: zeroed_def)
    moreover have "le32 (zeroed 848) = 0" by (simp add: le32_def zeroed_def)
    ultimately show ?thesis
      by (simp add: small_tsm_def primary_image_def arena_header_def tbm1_header_at_def tbm1_image_at_def rd32_def TBM1_MAX_IMAGES_def upt_rec)
  qed
  have none: "im_installed_size (primary_image (small_tsm\<lparr> ts_arena := zeroed 1056 \<rparr>)) = 0"
    by (rule zeroed_tail_image_size [where xs = "[]" and n = 1056]) simp_all
  have same: "small_tsm\<lparr> ts_txn := delta_txn, ts_jn := journal_reset, ts_dev := delta_device (delta_stream 16 [25, 136, 247, 30]),
      ts_arena := zeroed 1056 \<rparr> = small_tsm\<lparr> ts_arena := zeroed 1056 \<rparr>"
    by (simp add: small_tsm_def)
  show ?thesis
    using delta_demo_apply [of 16 "[25, 136, 247, 30]" BOOT_OK] img delta_verify_no_size [OF none]
    by (simp add: stage_apply_delta_def Let_def small_tsm_sel z same)
qed

section \<open>Properties\<close>

text \<open>
  C12. The boot state machine never boots. Whatever the platform, the flash, the journal, the transport and the
  seal key, \<open>boot_state_run\<close> does not return \<open>BOOT_OK\<close>: it expects the token of the mailbox step
  (\<open>STATE_CFI_SLOT_1_5\<close>), which no code executes, so the last check turns every success into
  \<open>BOOT_ERR_INVALID_STATE\<close> and clears the target.
\<close>

theorem boot_state_never_ok:
  "boot_state_run hs b tc t decode p key r \<noteq> Some (Goes BOOT_OK x r')"
proof
  assume a: "boot_state_run hs b tc t decode p key r = Some (Goes BOOT_OK x r')"
  obtain cfi s where c: "state_cfi p (ts_dev r) = (cfi, s)" by fastforce
  let ?r = "r\<lparr> ts_dev := s, ts_cfi := cfi, ts_target := target_zero, ts_txn := entry_of (zeroed 64) \<rparr>"
  obtain f where b: "boot_state_body hs b tc t decode p key ?r = Some f" "state_cleanup f = Goes BOOT_OK x r'"
    using a c by (auto simp: boot_state_run_def split: if_splits)
  then obtain y r1 where f: "f = Goes BOOT_OK y r1" and req: "boot_cfi_require False (ts_cfi r1)"
    by (cases f) (auto simp: state_cleanup_def Let_def split: if_splits)
  from boot_state_body_cfi [OF b(1) [unfolded f]] req state_cfi_unsatisfiable [OF c] show False by simp
qed






text \<open>
  C34. A delta update with up to six chunks is never installed. \<open>stage_apply_delta\<close> copies the chunk hashes over
  the manifest and lets the delta engine zeroize the rest of it, so the size of the image it then asks for is
  zero and the verification refuses, whatever the delta produced.
\<close>

theorem delta_update_rejected:
  assumes "stage_apply_delta hs b tc p u r = Some (Goes st u' r')" and "unat (up_chunk_hash_len u) \<le> 192"
  shows "st \<noteq> BOOT_OK"
  by (rule stage_apply_delta_rejects [OF assms])

lemma delta_update_rejected_witness:
  "\<exists>st u r. stage_apply_delta store_decoder delta_build small_tsm_config delta_platform small_update small_tsm = Some (Goes st u r) \<and>
     st \<noteq> BOOT_OK"
proof -
  obtain r where "stage_apply_delta store_decoder delta_build small_tsm_config delta_platform small_update small_tsm =
      Some (Goes BOOT_ERR_VERIFY small_update r)" using small_delta_apply by blast
  then show ?thesis using delta_update_rejected [of store_decoder delta_build small_tsm_config delta_platform small_update small_tsm]
    by (auto simp: small_tsm_sel)
qed

end
