(* ===== verification/Spec2Isabelle.thy ===== *)
theory Spec2Isabelle
  imports Boot_Tbm1 Boot_Cobs Boot_Ct_Utils Flash_Model Recovery_Port Boot_Flash_Stream Boot_Panic
    Boot_Delay Boot_Energy Boot_Merkle Boot_Identity Journal_Txn Swap_Chunk Rstore_Crash
    Mailbox_Crash Boot_Mailbox Rollback_Crash
    Stage0 Transport_Providers Boot_State
begin

text \<open>
  Toob-Loader is a secure boot loader for microcontrollers. Stage 0 (\<open>src/toobloader/stage0\<close>, in ROM-like flash)
  picks one of two banks of Stage 1, the boot core (\<open>src/toobloader/core\<close>). The core keeps its state in a
  write-ahead log, checks signed manifests, installs updates by exchanging slots, watches trial boots and falls back
  to the old image or to a recovery OS. The running OS talks to it through \<open>libtoob\<close> (\<open>src/sdk/libtoob\<close>): a mailbox
  in flash and a diagnostics record in RAM. This development models the core, Stage 0 and that interface, and
  proves what they guarantee, power failures included, and where they do not do what they mean to.

  \<^bold>\<open>Conventions.\<close> Integers keep their width (\<open>u8\<close> to \<open>u64\<close> are words, so \<open>+\<close> wraps as in C); lengths that the C code
  holds in a \<open>size_t\<close> are \<open>nat\<close>. A struct is a record with the fields of the source in their order, an enumeration a
  datatype (with its code where the number matters). The callbacks of the hardware abstraction layer
  (\<open>common/include/boot_hal.h\<close>) are functions on a device state \<open>'s\<close>, in the records of \<open>Boot_Hal\<close>; a pointer that may be
  \<open>NULL\<close> is an option. Every function returns its status, its out-parameters and the new state. The static
  variables of a C file are a record that is passed in and returned (\<open>journal_state\<close>, \<open>swap_state\<close>, \<open>tsm\<close>). A loop whose
  end depends on the device is a \<open>partial_function\<close> whose \<open>None\<close> means that it does not return; a loop with a guard
  counter carries the counter of the source as fuel, so running out is the error the source returns. A call of
  \<open>boot_terminal_halt\<close> or \<open>boot_panic\<close>, which do not come back, is an outcome of its own. \<open>BOOT_SECURE_REQUIRE\<close> is
  \<open>secure_require\<close>: without an injected fault it is its condition.

  \<^bold>\<open>Theories, in the order in which they build on each other.\<close>

  \<^item> \<open>Toob_Prelude\<close>: words, buffers (\<open>slice_of\<close>, \<open>patch\<close>, \<open>fill_prefix\<close>), little-endian fields, and the collections of
    simplification rules the component proofs use.
  \<^item> \<open>Boot_Types\<close> (\<open>boot_types.h\<close>, \<open>boot_fih.h\<close>): status codes, glitch checks, control-flow tokens; what a planned and
    an executed list of steps have to satisfy for \<open>boot_cfi_require\<close>.
  \<^item> \<open>Boot_Crc32\<close>, \<open>Boot_Cobs\<close>, \<open>Boot_Ct_Utils\<close>: checksum (bitwise in the core, by table in the OS library, proved equal),
    framing of the serial line, constant-time comparison and the sealed boot proof.
  \<^item> \<open>Boot_Hal\<close>, \<open>Flash_Model\<close>, \<open>Sandbox_Platform\<close>, \<open>Hal_Frame\<close>: the interface of the hardware as locales (\<open>flash_contract\<close>,
    a flash that honours its contract; its variants with a device that may die at any operation; \<open>hash_contract\<close>), and
    their interpretations on the host flash model and the host crypto of the repository's tests.
  \<^item> \<open>Boot_Flash_Stream\<close>, \<open>Boot_Merkle\<close>, \<open>Boot_Identity\<close>, \<open>Boot_Panic\<close>, \<open>Boot_Delay\<close>, \<open>Boot_Energy\<close>, \<open>Recovery_Port\<close>: streamed checksum,
    copy and erase; chunk hashes of an image; key derivation; forensic record; delays guarded against a
    frozen clock; the supply check before an update; the recovery OS's port.
  \<^item> \<open>Journal_Wire\<close>, \<open>Boot_Journal\<close>, \<open>Journal_Laws\<close>, \<open>Journal_Crash\<close>, \<open>Journal_Txn\<close>, \<open>Journal_Frame\<close> (\<open>boot_journal.c\<close>): the
    write-ahead log. Wire format and round trips; the operations; the laws of its sectors; a TMR update and an
    append under power failure at any flash operation; what a reconstruction after the reboot finds.
  \<^item> \<open>Boot_Rstore\<close>, \<open>Rstore_Crash\<close>: the redundant record store with its vote, its repair and its crash safety.
  \<^item> \<open>Boot_Config\<close>, \<open>Boot_Effect\<close>, \<open>Boot_Swap\<close>, \<open>Swap_Chunk\<close>, \<open>Copy_Crash\<close>: capabilities and build configuration, flash
    effects with whitelist and read-back, the slot exchange; an exchange stopped anywhere is completed by the next
    boot.
  \<^item> \<open>Toob_Os\<close>, \<open>Toob_Mailbox\<close>, \<open>Mailbox_Crash\<close>, \<open>Boot_Mailbox\<close>: the OS library's port, both sides of the mailbox, the
    atomicity of a request and that it is taken once.
  \<^item> \<open>Boot_Rollback\<close>, \<open>Rollback_Crash\<close>: version floors, the choice of the OS, the restoration of the old image.
  \<^item> \<open>Boot_Tbm1\<close>, \<open>Boot_Verify\<close>, \<open>Boot_Cloud_Cmd\<close>: manifest validation, the signature gate, signed cloud commands.
  \<^item> \<open>Stage0\<close>: bank selection, hash and signature of Stage 1, the jump.
  \<^item> \<open>Boot_Multiimage\<close>, \<open>Boot_Transport\<close>, \<open>Transport_Providers\<close>, \<open>Boot_Delta\<close>, \<open>Boot_Diag\<close>: further images of a manifest, the four
    ways of moving an image into its slot, the delta machine, the diagnostics record on both sides.
  \<^item> \<open>Boot_State\<close>: the state machine that calls all of the above, from \<open>boot_journal_init\<close> to the sealed boot proof.

  \<^bold>\<open>How the parts interact.\<close> \<open>boot_state_run\<close> opens the log, folds the mailbox request into it and reconstructs the open
  transaction. Its intent drives the rest: confirmation, cloud commands, the lock gate, crash counters with rollback
  (through the transport provider), and the pipeline of eight stages that reads the manifest into the arena,
  checks signature, version and device, verifies the image (\<open>Boot_Merkle\<close>, after \<open>Boot_Delta\<close> for a delta) and exchanges
  the slots. Every module that touches flash does so through \<open>Boot_Effect\<close>, \<open>Boot_Flash_Stream\<close> or the log; the
  locales of \<open>Boot_Hal\<close> are the interface they rely on, so that a property holds for every flash that keeps the
  contract, and each locale is interpreted on the model of the repository's own host flash.

  \<^bold>\<open>What the properties show.\<close> Crash safety: slot exchange, record store, mailbox, TMR update, journal entry and delta
  checkpoints survive a power failure at any flash operation. Security: the manifest validator and the signature gate
  accept exactly what their specification says; versions do not go down; a cloud command is not replayed; a locked
  device stays locked; Stage 0 only jumps into a signed bank. Round trips: record store, journal, framing,
  diagnostics. Termination: delays end, and where they do not, in the halt. A group of properties
  pins down behaviour that contradicts the code's own intent: the boot state machine can not return \<open>BOOT_OK\<close>, delta
  updates are rejected, the version floor of Stage 0 is not enforced, a rollback never resumes, a torn entry hides the
  open transaction.

  \<^bold>\<open>Bounds and fuel.\<close> The loop guards are the source's constants: \<open>MAX_TRANSPORT_LOOPS\<close>, the erase and copy guards of
  \<open>Boot_Flash_Stream\<close> and \<open>Boot_Swap\<close>, \<open>MAX_INSTRUCTIONS\<close> of the delta machine, the sector count of the log (at most
  \<open>MAX_WAL_SECTORS\<close>). They are not assumptions: reaching one is the error branch of the source. The crash proofs count
  flash operations and quantify over the point of failure. Where a property needs room (no wrap-around of an
  address, a sector size that divides the address space, five log sectors) it says so in its assumptions, and its
  witness meets them on a concrete device.

  \<^bold>\<open>Parameters.\<close> Third-party and generated code is an argument: the CBOR decoder generated by zcbor (\<open>decode\<close>), the
  heatshrink decoder (\<open>heatshrink\<close>), the engines behind the crypto callbacks (through \<open>hash_contract\<close> where a proof needs
  a law), the chip's ports (the locales), the build configuration (\<open>build\<close>, \<open>tsm_config\<close>).

  \<^bold>\<open>Not modelled.\<close> \<open>boot_main.c\<close> and \<open>boot_platform_bringup.c\<close> (initialisation and the jump through symbols of the chip
  port, which is not in the repository); the serial rescue protocol of \<open>boot_panic.c\<close> and the factory protocol of
  \<open>boot_provisioning.c\<close> (console I/O); \<open>toob_ota.c\<close>, \<open>toob_handoff.c\<close>, \<open>toob_confirm.c\<close>, \<open>toob_cloud_submit.c\<close>, the recovery
  application and the network client (OS-side clients of the modelled interface); the vendored libraries; the
  superseded core in \<open>toobloader_old\<close>; the Go and Rust programs; tests and harnesses. Of the modelled files, the
  CBOR export of the diagnostics, the entropy, keystore and provisioning vtables that no modelled function calls, and
  injected faults (every glitch check is modelled as an unfaulted run sees it) are left out.
\<close>

end
